(* ===== verification/Prelude.thy ===== *)
theory Prelude
  imports Complex_Main "HOL-Library.AList" "HOL-Library.List_Lexorder" "HOL-Library.Char_ord"
    "HOL-Library.Product_Lexorder"
begin

text \<open>
  Shared vocabulary of the development: the Python exceptions the modelled code raises, the
  type of operations that read and write a state and may raise, Python dictionaries as
  insertion-ordered association lists, stable sorting, string stripping, and time.

  An operation on a state is a function from the state to a pair of an outcome (\<open>Inl\<close> an
  exception or \<open>Inr\<close> a value) and the state it leaves behind. The state is returned also
  when the operation raises, because Python keeps the writes made before the exception.
\<close>

named_theorems op_defs \<open>unfolds the combinators of fallible operations\<close>
named_theorems table_simps \<open>evaluates the transition tables of the state machines\<close>

section \<open>Exceptions\<close>

text \<open>One constructor per exception class the modelled code raises; messages are dropped.\<close>

datatype exn =
    ValueError | KeyError | TypeError | RuntimeError | IndexError | OverflowError | UnicodeError
  | HTTPError
  | InvalidTransition
  | RunNotFound | IdempotencyConflict | TerminalRunConflict
  | AttemptNotFound | AttemptConflict | EventConflict
  | ArtifactNotFound | ArtifactConflict
  | RunnerIdentityError | DispatchUnavailable
  | InvalidAssetTransition | RequirementNotFound | TestCaseNotFound
  | AssetVersionConflict | TraceLinkConflict
  | ScriptNotFound | ScriptLinkConflict
  | InvalidEnvironmentTransition | EnvironmentNotFound | EnvironmentConflict
  | EnvironmentVersionConflict | SecretEncryptionUnavailable | SecretDecryptionError
  | InvalidTestPlanTransition | TestPlanNotFound | RunSpecNotFound | TestPlanConflict
  | TestPlanVersionConflict
  | CapabilityRejected | ArtifactUploadError | SourceStoreError
  | LoginRateLimited | AuthAlreadyInitialized | UsernameConflict | InvalidCredentials
  | WorkflowValidationError | WorkflowExecutionError
  | WorkflowNotFound | WorkflowConflict | WorkflowNameConflict | WorkflowVersionConflict
  | InvalidProjectTransition | ProjectNotFound | ProjectNameConflict | ProjectVersionConflict | ProjectInUse
  | ParameterEnumNotFound | ParameterEnumConflict | ParameterEnumVersionConflict | ScriptParameterConflict
  | ConnectorNotFound | ConnectorConflict | ConnectorNameConflict | ConnectorVersionConflict
  | ConnectorCredentialRequired | ConnectorConnectionError
  | LoadTestNotFound | LoadTestRunNotFound | LoadTestConflict | LoadTestNameConflict
  | LoadTestVersionConflict | LoadTestActiveRunConflict | LoadTestExecutionError
  | OtherException string

section \<open>Operations that may raise\<close>

type_synonym 'a res = "exn + 'a"
type_synonym ('s, 'a) pyop = "'s \<Rightarrow> 'a res \<times> 's"

definition ret :: "'a \<Rightarrow> ('s, 'a) pyop" where
  [op_defs]: "ret x s = (Inr x, s)"

definition raise :: "exn \<Rightarrow> ('s, 'a) pyop" where
  [op_defs]: "raise e s = (Inl e, s)"

definition bind :: "('s, 'a) pyop \<Rightarrow> ('a \<Rightarrow> ('s, 'b) pyop) \<Rightarrow> ('s, 'b) pyop" where
  [op_defs]: "bind m f s = (case m s of (Inl e, s') \<Rightarrow> (Inl e, s') | (Inr x, s') \<Rightarrow> f x s')"

definition lift :: "'a res \<Rightarrow> ('s, 'a) pyop" where
  [op_defs]: "lift r s = (r, s)"

definition reads :: "('s \<Rightarrow> 'a) \<Rightarrow> ('s, 'a) pyop" where
  [op_defs]: "reads f s = (Inr (f s), s)"

definition writes :: "('s \<Rightarrow> 's) \<Rightarrow> ('s, unit) pyop" where
  [op_defs]: "writes f s = (Inr (), f s)"

text \<open>\<open>try m except C: h\<close>: the handler runs in the state the exception left.\<close>

definition catch :: "('s, 'a) pyop \<Rightarrow> (exn \<Rightarrow> ('s, 'a) pyop) \<Rightarrow> ('s, 'a) pyop" where
  [op_defs]: "catch m h s = (case m s of (Inl e, s') \<Rightarrow> h e s' | (Inr x, s') \<Rightarrow> (Inr x, s'))"

definition rbind :: "'a res \<Rightarrow> ('a \<Rightarrow> 'b res) \<Rightarrow> 'b res" where
  "rbind r f = (case r of Inl e \<Rightarrow> Inl e | Inr x \<Rightarrow> f x)"

definition guard :: "bool \<Rightarrow> exn \<Rightarrow> unit res" where
  "guard bad e = (if bad then Inl e else Inr ())"

lemma rbind_simps [simp]: "rbind (Inl e) f = Inl e" "rbind (Inr x) f = f x"
  by (simp_all add: rbind_def)

lemma rbind_eq_Inr [simp]: "rbind r f = Inr y \<longleftrightarrow> (\<exists>x. r = Inr x \<and> f x = Inr y)"
  by (cases r) auto

lemma guard_eq_Inr [simp]: "guard b e = Inr u \<longleftrightarrow> \<not> b"
  by (auto simp: guard_def)

lemma guard_simps [simp]: "guard True e = Inl e" "guard False e = Inr ()"
  by (simp_all add: guard_def)

lemma ret_apply [simp]: "ret x s = (Inr x, s)"
  by (simp add: ret_def)

lemma raise_apply [simp]: "raise e s = (Inl e, s)"
  by (simp add: raise_def)

lemma lift_apply [simp]: "lift r s = (r, s)"
  by (simp add: lift_def)

lemma reads_apply [simp]: "reads f s = (Inr (f s), s)"
  by (simp add: reads_def)

lemma writes_apply [simp]: "writes f s = (Inr (), f s)"
  by (simp add: writes_def)

lemma bind_Inr_iff:
  "bind m f s = (Inr y, s') \<longleftrightarrow> (\<exists>x t. m s = (Inr x, t) \<and> f x t = (Inr y, s'))"
  by (auto simp: bind_def split: prod.splits sum.splits)

lemma bind_Inl_iff:
  "bind m f s = (Inl e, s') \<longleftrightarrow>
     m s = (Inl e, s') \<or> (\<exists>x t. m s = (Inr x, t) \<and> f x t = (Inl e, s'))"
  by (auto simp: bind_def split: prod.splits sum.splits)

lemma bind_of_Inr: "m s = (Inr x, t) \<Longrightarrow> bind m f s = f x t"
  by (simp add: bind_def)

lemma bind_of_Inl: "m s = (Inl e, t) \<Longrightarrow> bind m f s = (Inl e, t)"
  by (simp add: bind_def)

lemma catch_of_Inr: "m s = (Inr x, t) \<Longrightarrow> catch m h s = (Inr x, t)"
  by (simp add: catch_def)

lemma catch_of_Inl: "m s = (Inl e, t) \<Longrightarrow> catch m h s = h e t"
  by (simp add: catch_def)

text \<open>Whatever it returns or raises, an operation keeps a predicate of the state.\<close>

definition keeps :: "('s \<Rightarrow> bool) \<Rightarrow> ('s, 'a) pyop \<Rightarrow> bool" where
  "keeps P m \<longleftrightarrow> (\<forall>s. P s \<longrightarrow> P (snd (m s)))"

named_theorems keeps_rules \<open>introduction rules for operations that keep an invariant\<close>

lemma keepsI: "(\<And>s. P s \<Longrightarrow> P (snd (m s))) \<Longrightarrow> keeps P m"
  by (simp add: keeps_def)

lemma keepsD: "keeps P m \<Longrightarrow> P s \<Longrightarrow> P (snd (m s))"
  by (simp add: keeps_def)

lemma keeps_ret [keeps_rules]: "keeps P (ret x)"
  by (simp add: keeps_def)

lemma keeps_raise [keeps_rules]: "keeps P (raise e)"
  by (simp add: keeps_def)

lemma keeps_lift [keeps_rules]: "keeps P (lift r)"
  by (simp add: keeps_def)

lemma keeps_reads [keeps_rules]: "keeps P (reads f)"
  by (simp add: keeps_def)

lemma keeps_bind [keeps_rules]: "keeps P m \<Longrightarrow> (\<And>x. keeps P (f x)) \<Longrightarrow> keeps P (bind m f)"
  unfolding keeps_def bind_def
  by (metis (mono_tags, lifting) old.sum.exhaust old.sum.simps(5,6) prod.collapse prod.simps(2)
      snd_conv)

lemma keeps_catch [keeps_rules]: "keeps P m \<Longrightarrow> (\<And>e. keeps P (h e)) \<Longrightarrow> keeps P (catch m h)"
  unfolding keeps_def catch_def
  by (metis (mono_tags, lifting) old.sum.exhaust old.sum.simps(5,6) prod.collapse prod.simps(2)
      snd_conv)

lemma keeps_if [keeps_rules]: "keeps P m \<Longrightarrow> keeps P n \<Longrightarrow> keeps P (if b then m else n)"
  by simp

lemma keeps_option [keeps_rules]:
  "keeps P m \<Longrightarrow> (\<And>x. keeps P (f x)) \<Longrightarrow> keeps P (case y of None \<Rightarrow> m | Some x \<Rightarrow> f x)"
  by (cases y) simp_all

lemma keeps_prod [keeps_rules]: "(\<And>a b. keeps P (f a b)) \<Longrightarrow> keeps P (case p of (a, b) \<Rightarrow> f a b)"
  by (cases p) simp

lemma keeps_writes: "(\<And>s. P s \<Longrightarrow> P (f s)) \<Longrightarrow> keeps P (writes f)"
  by (simp add: keeps_def)

lemma keeps_sum: "(\<And>e. keeps P (f e)) \<Longrightarrow> (\<And>x. keeps P (g x)) \<Longrightarrow>
    keeps P (case r of Inl e \<Rightarrow> f e | Inr x \<Rightarrow> g x)"
  by (cases r) simp_all

lemma bind_reads: "bind (reads f) g s = g (f s) s"
  by (simp add: bind_def)

text \<open>Total correctness: from \<open>P\<close> the operation returns, and its value and state satisfy \<open>Q\<close>.\<close>

definition yields :: "('s \<Rightarrow> bool) \<Rightarrow> ('s, 'a) pyop \<Rightarrow> ('a \<Rightarrow> 's \<Rightarrow> bool) \<Rightarrow> bool" where
  "yields P m Q \<longleftrightarrow> (\<forall>s. P s \<longrightarrow> (\<exists>x t. m s = (Inr x, t) \<and> Q x t))"

lemma yieldsI: "(\<And>s. P s \<Longrightarrow> \<exists>x t. m s = (Inr x, t) \<and> Q x t) \<Longrightarrow> yields P m Q"
  by (simp add: yields_def)

lemma yieldsE: "yields P m Q \<Longrightarrow> P s \<Longrightarrow> (\<And>x t. m s = (Inr x, t) \<Longrightarrow> Q x t \<Longrightarrow> thesis) \<Longrightarrow> thesis"
  by (auto simp: yields_def)

lemma yields_bind: "yields P m Q \<Longrightarrow> (\<And>x. yields (Q x) (f x) R) \<Longrightarrow> yields P (bind m f) R"
  by (fastforce simp: yields_def bind_def)

lemma yields_ret: "(\<And>s. P s \<Longrightarrow> Q x s) \<Longrightarrow> yields P (ret x) Q"
  by (simp add: yields_def)

lemma yields_catch: "yields P m Q \<Longrightarrow> yields P (catch m h) Q"
  by (fastforce simp: yields_def catch_def)

lemma yields_bind_pure:
  "yields P m (\<lambda>x s. A x \<and> Q x s) \<Longrightarrow> (\<And>x. A x \<Longrightarrow> yields (Q x) (f x) R) \<Longrightarrow> yields P (bind m f) R"
  by (fastforce simp: yields_def bind_def)

lemma yields_weaken: "yields P m Q \<Longrightarrow> (\<And>x s. Q x s \<Longrightarrow> R x s) \<Longrightarrow> yields P m R"
  by (fastforce simp: yields_def)

section \<open>Dictionaries\<close>

text \<open>
  A Python dictionary iterates in insertion order, and assigning to a present key keeps its
  place; \<open>AList.update\<close> does the same on an association list.
\<close>

type_synonym ('k, 'v) dict = "('k \<times> 'v) list"

abbreviation dget :: "('k, 'v) dict \<Rightarrow> 'k \<Rightarrow> 'v option" where
  "dget d k \<equiv> map_of d k"

abbreviation dset :: "'k \<Rightarrow> 'v \<Rightarrow> ('k, 'v) dict \<Rightarrow> ('k, 'v) dict" where
  "dset k v d \<equiv> AList.update k v d"

abbreviation ddel :: "'k \<Rightarrow> ('k, 'v) dict \<Rightarrow> ('k, 'v) dict" where
  "ddel k d \<equiv> AList.delete k d"

abbreviation dkeys :: "('k, 'v) dict \<Rightarrow> 'k list" where
  "dkeys d \<equiv> map fst d"

abbreviation dvalues :: "('k, 'v) dict \<Rightarrow> 'v list" where
  "dvalues d \<equiv> map snd d"

definition wf_dict :: "('k, 'v) dict \<Rightarrow> bool" where
  "wf_dict d \<longleftrightarrow> distinct (map fst d)"

text \<open>\<open>d.update(e)\<close>: the entries of \<open>e\<close> in their order.\<close>

definition dmerge :: "('k, 'v) dict \<Rightarrow> ('k, 'v) dict \<Rightarrow> ('k, 'v) dict" where
  "dmerge d e = foldl (\<lambda>acc (k, v). AList.update k v acc) d e"

lemma dget_dset: "dget (dset k v d) k' = (if k' = k then Some v else dget d k')"
  by (simp add: update_conv')

lemma dget_dset_same [simp]: "dget (dset k v d) k = Some v"
  by (simp add: update_conv')

lemma dget_dset_other [simp]: "k' \<noteq> k \<Longrightarrow> dget (dset k v d) k' = dget d k'"
  by (simp add: update_conv')

lemma wf_dict_empty [simp]: "wf_dict []"
  by (simp add: wf_dict_def)

lemma wf_dict_dset [simp]: "wf_dict d \<Longrightarrow> wf_dict (dset k v d)"
  by (simp add: wf_dict_def distinct_update)

lemma wf_dict_ddel [simp]: "wf_dict d \<Longrightarrow> wf_dict (ddel k d)"
  by (simp add: wf_dict_def distinct_delete)

lemma dget_in: "dget d k = Some v \<Longrightarrow> (k, v) \<in> set d"
  by (rule map_of_SomeD)

lemma dget_value: "dget d k = Some v \<Longrightarrow> v \<in> set (dvalues d)"
  by (force dest: map_of_SomeD)

lemma wf_dget_iff: "wf_dict d \<Longrightarrow> dget d k = Some v \<longleftrightarrow> (k, v) \<in> set d"
  by (simp add: wf_dict_def)

lemma dkeys_dset: "dkeys (dset k v d) = (if k \<in> set (dkeys d) then dkeys d else dkeys d @ [k])"
  by (simp add: update_keys)

lemma dset_new: "dget d k = None \<Longrightarrow> dset k v d = d @ [(k, v)]"
  by (induction d) auto

lemma dvalues_new: "dget d k = None \<Longrightarrow> dvalues (dset k v d) = dvalues d @ [v]"
  by (simp add: dset_new)

lemma dset_entries: "wf_dict d \<Longrightarrow> set (dset k v d) = insert (k, v) {p \<in> set d. fst p \<noteq> k}"
  by (induction d) (force simp: wf_dict_def)+

lemma dmerge_simps [simp]:
  "dmerge d [] = d" "dmerge d ((k, v) # e) = dmerge (dset k v d) e"
  by (simp_all add: dmerge_def)

lemma wf_dict_dmerge [simp]: "wf_dict d \<Longrightarrow> wf_dict (dmerge d e)"
  by (induction e arbitrary: d) auto

lemma dget_dmerge: "dget (dmerge d e) k = (case dget (rev e) k of None \<Rightarrow> dget d k | Some v \<Rightarrow> Some v)"
  by (induction e arbitrary: d) (auto simp: dget_dset map_add_def split: option.splits)

lemma dget_rev: "wf_dict e \<Longrightarrow> dget (rev e) k = dget e k"
proof -
  assume wf: "wf_dict e"
  then have "dget e k = Some v \<longleftrightarrow> dget (rev e) k = Some v" for v
    by (simp add: wf_dict_def map_of_eq_Some_iff rev_map [symmetric])
  then show ?thesis
    by (metis not_Some_eq)
qed

section \<open>Identifiers, time, strings\<close>

text \<open>
  A UUID is compared and hashed by its 128-bit integer; \<open>uuid4()\<close> is an argument of the
  operation that calls it. A \<open>datetime\<close> in UTC is its number of microseconds; each reading
  of the clock is an argument too.
\<close>

type_synonym uuid = nat
type_synonym time = int

definition seconds :: "int \<Rightarrow> int" where
  "seconds n = n * 1000000"

lemma seconds_pos: "0 < seconds n \<longleftrightarrow> 0 < n"
  by (auto simp: seconds_def)

text \<open>\<open>str.isspace\<close> on the code points below 256, and \<open>str.strip\<close>.\<close>

definition py_space :: "char \<Rightarrow> bool" where
  "py_space c \<longleftrightarrow> (let n = of_char c :: nat in
     9 \<le> n \<and> n \<le> 13 \<or> 28 \<le> n \<and> n \<le> 32 \<or> n = 133 \<or> n = 160)"

definition strip :: "string \<Rightarrow> string" where
  "strip s = rev (dropWhile py_space (rev (dropWhile py_space s)))"

definition ascii_letter :: "char \<Rightarrow> bool" where
  "ascii_letter c \<longleftrightarrow> (let n = of_char c :: nat in 65 \<le> n \<and> n \<le> 90 \<or> 97 \<le> n \<and> n \<le> 122)"

definition ascii_digit :: "char \<Rightarrow> bool" where
  "ascii_digit c \<longleftrightarrow> (let n = of_char c :: nat in 48 \<le> n \<and> n \<le> 57)"

text \<open>
  \<open>str.upper\<close> and \<open>str.lower\<close> on the ASCII letters; the results are only compared with ASCII words, which no
  other character can become part of.
\<close>

definition upper :: "string \<Rightarrow> string" where
  "upper s = map (\<lambda>c. let n = of_char c :: nat in
     if 97 \<le> n \<and> n \<le> 122 then char_of (n - 32) else c) s"

definition lower :: "string \<Rightarrow> string" where
  "lower s = map (\<lambda>c. let n = of_char c :: nat in
     if 65 \<le> n \<and> n \<le> 90 then char_of (n + 32) else c) s"

end
