(* ===== verification/Protocol.thy ===== *)
theory Protocol
  imports Prelude
begin

text \<open>
  The versioned wire protocol of \<^verbatim>\<open>packages/protocol/models.py\<close>: dynamically typed values,
  the freezing and thawing of nested mappings, the enumerations, and the task, event and
  result envelopes with the validators that pydantic runs when one is built.

  A validator is a function that returns the checked record or raises \<open>ValueError\<close>; the bounds
  declared on the fields (\<open>Field(ge=..., le=...)\<close>) are part of it, in the order of the class.
\<close>

section \<open>Dynamically typed values\<close>

text \<open>
  A finite float is the rational it denotes. \<open>PFrozen\<close> is a \<open>FrozenMapping\<close>; sets carry the
  order in which they iterate; \<open>POther\<close> is any object of another class.
\<close>

datatype pyfloat = Finite rat | NaN | PosInf | NegInf

datatype pyval =
    PNone
  | PBool bool
  | PInt int
  | PFloat pyfloat
  | PStr string
  | PBytes string
  | PByteArray string
  | PList "pyval list"
  | PTuple "pyval list"
  | PSet "pyval list"
  | PFrozenSet "pyval list"
  | PDict "(pyval \<times> pyval) list"
  | PFrozen "(pyval \<times> pyval) list"
  | POther nat

type_synonym params = "(string, pyval) dict"

text \<open>Python's \<open>==\<close>: numbers compare by value across their types, mappings without order.\<close>

fun num_of :: "pyval \<Rightarrow> pyfloat option" where
  "num_of (PBool b) = Some (Finite (if b then 1 else 0))"
| "num_of (PInt i) = Some (Finite (of_int i))"
| "num_of (PFloat f) = Some f"
| "num_of v = None"

definition float_eq :: "pyfloat \<Rightarrow> pyfloat \<Rightarrow> bool" where
  "float_eq a b \<longleftrightarrow> a = b \<and> a \<noteq> NaN"

fun text_of :: "pyval \<Rightarrow> (nat \<times> string) option" where
  "text_of (PStr s) = Some (0, s)"
| "text_of (PBytes s) = Some (1, s)"
| "text_of (PByteArray s) = Some (1, s)"
| "text_of v = None"

fun set_of :: "pyval \<Rightarrow> pyval list option" where
  "set_of (PSet xs) = Some xs"
| "set_of (PFrozenSet xs) = Some xs"
| "set_of v = None"

fun map_items :: "pyval \<Rightarrow> (pyval \<times> pyval) list option" where
  "map_items (PDict d) = Some d"
| "map_items (PFrozen d) = Some d"
| "map_items v = None"

fun is_text :: "pyval \<Rightarrow> bool" where
  "is_text (PStr _) = True"
| "is_text _ = False"

lemma is_text_iff: "is_text v \<longleftrightarrow> (\<exists>s. v = PStr s)"
  by (cases v) auto

fun is_mapping :: "pyval \<Rightarrow> bool" where
  "is_mapping (PDict _) = True"
| "is_mapping (PFrozen _) = True"
| "is_mapping _ = False"

definition scalar_eq :: "pyval \<Rightarrow> pyval \<Rightarrow> bool" where
  "scalar_eq v w =
     (case (num_of v, num_of w) of
        (Some a, Some b) \<Rightarrow> float_eq a b
      | _ \<Rightarrow> (case (text_of v, text_of w) of (Some a, Some b) \<Rightarrow> a = b | _ \<Rightarrow> False))"

definition set_eq :: "(pyval \<Rightarrow> bool) list \<Rightarrow> pyval \<Rightarrow> bool" where
  "set_eq fs w = (case set_of w of
     Some ys \<Rightarrow> length fs = length ys \<and> (\<forall>f \<in> set fs. \<exists>y \<in> set ys. f y) | None \<Rightarrow> False)"

definition items_eq :: "((pyval \<Rightarrow> bool) \<times> (pyval \<Rightarrow> bool)) list \<Rightarrow> pyval \<Rightarrow> bool" where
  "items_eq d w = (case map_items w of
     Some e \<Rightarrow> length d = length e \<and>
       (\<forall>p \<in> set d. \<exists>q \<in> set e. fst p (fst q) \<and> snd p (snd q))
   | None \<Rightarrow> False)"

primrec py_eq :: "pyval \<Rightarrow> pyval \<Rightarrow> bool" where
  "py_eq PNone = (\<lambda>w. w = PNone)"
| "py_eq (PBool b) = scalar_eq (PBool b)"
| "py_eq (PInt i) = scalar_eq (PInt i)"
| "py_eq (PFloat f) = scalar_eq (PFloat f)"
| "py_eq (PStr s) = scalar_eq (PStr s)"
| "py_eq (PBytes s) = scalar_eq (PBytes s)"
| "py_eq (PByteArray s) = scalar_eq (PByteArray s)"
| "py_eq (PList xs) = (\<lambda>w. case w of
     PList ys \<Rightarrow> list_all2 (\<lambda>f y. f y) (map py_eq xs) ys | _ \<Rightarrow> False)"
| "py_eq (PTuple xs) = (\<lambda>w. case w of
     PTuple ys \<Rightarrow> list_all2 (\<lambda>f y. f y) (map py_eq xs) ys | _ \<Rightarrow> False)"
| "py_eq (PSet xs) = set_eq (map py_eq xs)"
| "py_eq (PFrozenSet xs) = set_eq (map py_eq xs)"
| "py_eq (PDict d) = items_eq (map (map_prod py_eq py_eq) d)"
| "py_eq (PFrozen d) = items_eq (map (map_prod py_eq py_eq) d)"
| "py_eq (POther n) = (\<lambda>w. w = POther n)"

text \<open>Two dictionaries with string keys are equal when they agree key by key.\<close>

definition params_eq :: "params \<Rightarrow> params \<Rightarrow> bool" where
  "params_eq d e \<longleftrightarrow> length d = length e \<and>
     list_all (\<lambda>(k, v). case dget e k of None \<Rightarrow> False | Some w \<Rightarrow> py_eq v w) d"

text \<open>\<open>str(value)\<close>, with \<open>str_of\<close> for the values that are not strings.\<close>

definition py_str :: "(pyval \<Rightarrow> string) \<Rightarrow> pyval \<Rightarrow> string" where
  "py_str str_of v = (case v of PStr s \<Rightarrow> s | _ \<Rightarrow> str_of v)"

section \<open>Freezing and thawing\<close>

fun deep_freeze :: "pyval \<Rightarrow> pyval" where
  "deep_freeze (PFrozen d) = PFrozen d"
| "deep_freeze (PDict d) = PFrozen (map (\<lambda>(k, v). (k, deep_freeze v)) d)"
| "deep_freeze (PList xs) = PTuple (map deep_freeze xs)"
| "deep_freeze (PTuple xs) = PTuple (map deep_freeze xs)"
| "deep_freeze (PSet xs) = PFrozenSet (map deep_freeze xs)"
| "deep_freeze (PFrozenSet xs) = PFrozenSet (map deep_freeze xs)"
| "deep_freeze (PByteArray s) = PBytes s"
| "deep_freeze v = v"

fun deep_thaw :: "pyval \<Rightarrow> pyval" where
  "deep_thaw (PDict d) = PDict (map (\<lambda>(k, v). (k, deep_thaw v)) d)"
| "deep_thaw (PFrozen d) = PDict (map (\<lambda>(k, v). (k, deep_thaw v)) d)"
| "deep_thaw (PTuple xs) = PList (map deep_thaw xs)"
| "deep_thaw (PFrozenSet xs) = PList (map deep_thaw xs)"
| "deep_thaw v = v"

definition freeze_mapping :: "params \<Rightarrow> params" where
  "freeze_mapping d = map (\<lambda>(k, v). (k, deep_freeze v)) d"

definition thaw_mapping :: "params \<Rightarrow> params" where
  "thaw_mapping d = map (\<lambda>(k, v). (k, deep_thaw v)) d"

text \<open>Values a JSON document can hold, and values with nothing mutable inside.\<close>

fun json_value :: "pyval \<Rightarrow> bool" where
  "json_value PNone = True"
| "json_value (PBool _) = True"
| "json_value (PInt _) = True"
| "json_value (PFloat f) = (case f of Finite _ \<Rightarrow> True | _ \<Rightarrow> False)"
| "json_value (PStr _) = True"
| "json_value (PList xs) = list_all json_value xs"
| "json_value (PDict d) = list_all (\<lambda>(k, v). is_text k \<and> json_value v) d"
| "json_value _ = False"

fun frozen_value :: "pyval \<Rightarrow> bool" where
  "frozen_value (PDict _) = False"
| "frozen_value (PList _) = False"
| "frozen_value (PSet _) = False"
| "frozen_value (PByteArray _) = False"
| "frozen_value (PTuple xs) = list_all frozen_value xs"
| "frozen_value (PFrozenSet xs) = list_all frozen_value xs"
| "frozen_value (PFrozen d) = list_all (\<lambda>(_, v). frozen_value v) d"
| "frozen_value _ = True"

text \<open>A \<open>FrozenMapping\<close> freezes its values when it is built, so one met inside a value is frozen.\<close>

fun frozen_inside :: "pyval \<Rightarrow> bool" where
  "frozen_inside (PFrozen d) = list_all (\<lambda>(_, v). frozen_value v) d"
| "frozen_inside (PDict d) = list_all (\<lambda>(_, v). frozen_inside v) d"
| "frozen_inside (PList xs) = list_all frozen_inside xs"
| "frozen_inside (PTuple xs) = list_all frozen_inside xs"
| "frozen_inside (PSet xs) = list_all frozen_inside xs"
| "frozen_inside (PFrozenSet xs) = list_all frozen_inside xs"
| "frozen_inside _ = True"

lemma deep_freeze_idem [simp]: "deep_freeze (deep_freeze v) = deep_freeze v"
  by (induction v rule: deep_freeze.induct) auto

lemma deep_freeze_frozen: "frozen_inside v \<Longrightarrow> frozen_value (deep_freeze v)"
  by (induction v rule: deep_freeze.induct) (fastforce simp: list_all_iff)+

lemma deep_thaw_freeze: "json_value v \<Longrightarrow> deep_thaw (deep_freeze v) = v"
proof (induction v rule: deep_freeze.induct)
  case (2 d)
  then show ?case
    by (force simp: list_all_iff intro!: map_idI)
next
  case (3 xs)
  then show ?case
    by (auto simp: list_all_iff intro!: map_idI)
qed auto

lemma thaw_freeze_mapping:
  "list_all (\<lambda>(_, v). json_value v) d \<Longrightarrow> thaw_mapping (freeze_mapping d) = d"
  by (auto simp: thaw_mapping_def freeze_mapping_def list_all_iff deep_thaw_freeze intro!: map_idI)

lemma py_eq_refl: "json_value v \<Longrightarrow> py_eq v v"
proof (induction v)
  case (PList xs)
  then show ?case
    by (auto simp: list_all_iff list_all2_conv_all_nth)
next
  case (PDict d)
  have "py_eq (fst p) (fst p) \<and> py_eq (snd p) (snd p)" if p: "p \<in> set d" for p
  proof -
    from p PDict.prems have "(\<exists>s. fst p = PStr s) \<and> json_value (snd p)"
      by (auto simp: list_all_iff split_beta is_text_iff)
    with PDict.IH [OF p] show ?thesis
      by (auto simp: scalar_eq_def snds.simps)
  qed
  then show ?case
    by (auto simp: items_eq_def intro: bexI)
qed (auto simp: scalar_eq_def float_eq_def split: pyfloat.splits)

lemma params_eq_refl: "wf_dict d \<Longrightarrow> list_all (\<lambda>(_, v). json_value v) d \<Longrightarrow> params_eq d d"
  by (force simp: params_eq_def list_all_iff wf_dict_def intro: py_eq_refl)

section \<open>Enumerations\<close>

datatype Engine = E_HTTP | E_PYTEST | E_PLAYWRIGHT

datatype EventType =
    EV_STARTED | EV_PROGRESS | EV_LOG | EV_ASSERTION | EV_EXTRACTION | EV_SCREENSHOT
  | EV_ERROR | EV_HEARTBEAT | EV_ARTIFACT | EV_FINISHED

datatype ResultOutcome = O_SUCCEEDED | O_FAILED | O_CANCELLED | O_TIMED_OUT | O_INFRA_ERROR

datatype SecretCategory = ENVIRONMENT_VARIABLE | COMMON_PARAMETER

datatype AssertionSource = AS_status_code | AS_header | AS_json_path | AS_body | AS_response_time_ms

datatype AssertionOperator = AO_eq | AO_ne | AO_gt | AO_gte | AO_lt | AO_lte | AO_contains | AO_matches

datatype ExtractionSource = ES_header | ES_json_path | ES_regex | ES_cookie

section \<open>Names of environment variables\<close>

definition is_alpha :: "char \<Rightarrow> bool" where
  "is_alpha c \<longleftrightarrow> (let n = of_char c :: nat in 65 \<le> n \<and> n \<le> 90 \<or> 97 \<le> n \<and> n \<le> 122)"

definition is_digit :: "char \<Rightarrow> bool" where
  "is_digit c \<longleftrightarrow> (let n = of_char c :: nat in 48 \<le> n \<and> n \<le> 57)"

text \<open>\<^verbatim>\<open>^[A-Za-z_][A-Za-z0-9_]{0,127}$\<close>\<close>

definition environment_name :: "string \<Rightarrow> bool" where
  "environment_name s = (case s of
     [] \<Rightarrow> False
   | c # cs \<Rightarrow> (is_alpha c \<or> c = CHR ''_'') \<and> length cs \<le> 127 \<and>
       list_all (\<lambda>d. is_alpha d \<or> is_digit d \<or> d = CHR ''_'') cs)"

section \<open>Execution policies\<close>

record SecretReference =
  sr_category :: SecretCategory
  sr_name :: string
  sr_secret_ref :: uuid

record AssertionRule =
  as_source :: AssertionSource
  as_expression :: "string option"
  as_operator :: AssertionOperator
  as_expected :: pyval

record ExtractionRule =
  ex_name :: string
  ex_source :: ExtractionSource
  ex_expression :: string
  ex_required :: bool

record HttpStep =
  hs_name :: string
  hs_request :: params
  hs_assertions :: "AssertionRule list"
  hs_extractions :: "ExtractionRule list"
  hs_required :: bool

record RetryPolicy =
  rp_max_attempts :: int
  rp_retry_on :: "ResultOutcome list"
  rp_backoff_seconds :: int
  rp_max_backoff_seconds :: int
  rp_allow_non_idempotent_http :: bool

definition default_retry :: RetryPolicy where
  "default_retry = \<lparr>rp_max_attempts = 1, rp_retry_on = [O_INFRA_ERROR, O_TIMED_OUT],
     rp_backoff_seconds = 1, rp_max_backoff_seconds = 60, rp_allow_non_idempotent_http = False\<rparr>"

record ExecutionPolicy =
  xp_before_steps :: "HttpStep list"
  xp_assertions :: "AssertionRule list"
  xp_extractions :: "ExtractionRule list"
  xp_after_steps :: "HttpStep list"
  xp_retry :: RetryPolicy

definition default_policy :: ExecutionPolicy where
  "default_policy = \<lparr>xp_before_steps = [], xp_assertions = [], xp_extractions = [],
     xp_after_steps = [], xp_retry = default_retry\<rparr>"

definition validate_SecretReference :: "SecretReference \<Rightarrow> SecretReference res" where
  "validate_SecretReference r =
     rbind (guard (length (sr_name r) < 1 \<or> length (sr_name r) > 128) ValueError) (\<lambda>_. Inr r)"

definition validate_AssertionRule :: "AssertionRule \<Rightarrow> AssertionRule res" where
  "validate_AssertionRule r =
     (let located = as_source r \<in> {AS_header, AS_json_path} in
      rbind (guard (case as_expression r of None \<Rightarrow> False | Some x \<Rightarrow> length x > 1024) ValueError) (\<lambda>_.
      rbind (guard (located \<and> (case as_expression r of None \<Rightarrow> True | Some x \<Rightarrow> x = [])) ValueError) (\<lambda>_.
      rbind (guard (\<not> located \<and> as_expression r \<noteq> None) ValueError) (\<lambda>_.
      Inr (r\<lparr>as_expected := deep_freeze (as_expected r)\<rparr>)))))"

definition validate_ExtractionRule :: "ExtractionRule \<Rightarrow> ExtractionRule res" where
  "validate_ExtractionRule r =
     rbind (guard (\<not> environment_name (ex_name r)) ValueError) (\<lambda>_.
     rbind (guard (length (ex_expression r) < 1 \<or> length (ex_expression r) > 1024) ValueError) (\<lambda>_.
     Inr r))"

fun map_res :: "('a \<Rightarrow> 'b res) \<Rightarrow> 'a list \<Rightarrow> 'b list res" where
  "map_res f [] = Inr []"
| "map_res f (x # xs) = rbind (f x) (\<lambda>y. rbind (map_res f xs) (\<lambda>ys. Inr (y # ys)))"

definition validate_HttpStep :: "HttpStep \<Rightarrow> HttpStep res" where
  "validate_HttpStep h =
     rbind (guard (length (hs_name h) < 1 \<or> length (hs_name h) > 128) ValueError) (\<lambda>_.
     rbind (guard (length (hs_assertions h) > 50) ValueError) (\<lambda>_.
     rbind (map_res validate_AssertionRule (hs_assertions h)) (\<lambda>assertions.
     rbind (guard (length (hs_extractions h) > 50) ValueError) (\<lambda>_.
     rbind (map_res validate_ExtractionRule (hs_extractions h)) (\<lambda>extractions.
     Inr (h\<lparr>hs_request := freeze_mapping (hs_request h),
            hs_assertions := assertions, hs_extractions := extractions\<rparr>))))))"

definition validate_RetryPolicy :: "RetryPolicy \<Rightarrow> RetryPolicy res" where
  "validate_RetryPolicy p =
     rbind (guard (rp_max_attempts p < 1 \<or> rp_max_attempts p > 5) ValueError) (\<lambda>_.
     rbind (guard (rp_backoff_seconds p < 0 \<or> rp_backoff_seconds p > 300) ValueError) (\<lambda>_.
     rbind (guard (rp_max_backoff_seconds p < 0 \<or> rp_max_backoff_seconds p > 600) ValueError) (\<lambda>_.
     rbind (guard (\<not> distinct (rp_retry_on p)) ValueError) (\<lambda>_.
     rbind (guard (list_ex (\<lambda>x. x = O_SUCCEEDED \<or> x = O_CANCELLED) (rp_retry_on p)) ValueError) (\<lambda>_.
     rbind (guard (rp_max_backoff_seconds p < rp_backoff_seconds p) ValueError) (\<lambda>_.
     Inr p))))))"

definition policy_extraction_names :: "ExecutionPolicy \<Rightarrow> string list" where
  "policy_extraction_names p =
     map ex_name (xp_extractions p @ concat (map hs_extractions (xp_before_steps p @ xp_after_steps p)))"

definition validate_ExecutionPolicy :: "ExecutionPolicy \<Rightarrow> ExecutionPolicy res" where
  "validate_ExecutionPolicy p =
     rbind (guard (length (xp_before_steps p) > 20) ValueError) (\<lambda>_.
     rbind (map_res validate_HttpStep (xp_before_steps p)) (\<lambda>before.
     rbind (guard (length (xp_assertions p) > 50) ValueError) (\<lambda>_.
     rbind (map_res validate_AssertionRule (xp_assertions p)) (\<lambda>assertions.
     rbind (guard (length (xp_extractions p) > 50) ValueError) (\<lambda>_.
     rbind (map_res validate_ExtractionRule (xp_extractions p)) (\<lambda>extractions.
     rbind (guard (length (xp_after_steps p) > 20) ValueError) (\<lambda>_.
     rbind (map_res validate_HttpStep (xp_after_steps p)) (\<lambda>after.
     rbind (validate_RetryPolicy (xp_retry p)) (\<lambda>retry.
     rbind (guard (\<not> distinct (policy_extraction_names p)) ValueError) (\<lambda>_.
     Inr \<lparr>xp_before_steps = before, xp_assertions = assertions, xp_extractions = extractions,
          xp_after_steps = after, xp_retry = retry\<rparr>))))))))))"

section \<open>Envelopes\<close>

record Envelope =
  en_run_id :: uuid
  en_attempt_id :: uuid
  en_engine :: Engine

record TaskEnvelope = Envelope +
  tk_task_id :: uuid
  tk_tenant_id :: uuid
  tk_project_id :: uuid
  tk_idempotency_key :: string
  tk_created_at :: time
  tk_deadline :: time
  tk_entrypoint :: string
  tk_parameters :: params
  tk_run_spec_id :: "uuid option"
  tk_source_ref :: "string option"
  tk_content_digest :: "string option"
  tk_environment_variables :: params
  tk_environment_id :: "uuid option"
  tk_environment_revision :: "int option"
  tk_secret_references :: "SecretReference list"
  tk_execution_policy :: ExecutionPolicy

record EventEnvelope = Envelope +
  ee_event_id :: uuid
  ee_seq :: int
  ee_occurred_at :: time
  ee_type :: EventType
  ee_payload :: params

record ResultEnvelope = Envelope +
  rs_outcome :: ResultOutcome
  rs_completed_at :: time
  rs_duration_ms :: int
  rs_summary :: params

definition strip_idempotency_key :: "string \<Rightarrow> string res" where
  "strip_idempotency_key value =
     (let value = strip value in rbind (guard (value = []) ValueError) (\<lambda>_. Inr value))"

definition content_digest_text :: "string \<Rightarrow> bool" where
  "content_digest_text s \<longleftrightarrow> length s = 64 \<and>
     list_all (\<lambda>c. is_digit c \<or> (let n = of_char c :: nat in 97 \<le> n \<and> n \<le> 102)) s"

definition opt_text_bad :: "string option \<Rightarrow> nat \<Rightarrow> bool" where
  "opt_text_bad v n = (case v of None \<Rightarrow> False | Some s \<Rightarrow> length s < 1 \<or> length s > n)"

definition has_http_parts :: "ExecutionPolicy \<Rightarrow> bool" where
  "has_http_parts p \<longleftrightarrow> xp_before_steps p \<noteq> [] \<or> xp_after_steps p \<noteq> [] \<or>
     xp_assertions p \<noteq> [] \<or> xp_extractions p \<noteq> []"

text \<open>The checks of \<open>deadline_follows_creation\<close>, which run on the parsed fields.\<close>

definition deadline_follows_creation :: "TaskEnvelope \<Rightarrow> TaskEnvelope res" where
  "deadline_follows_creation t =
     rbind (guard (tk_deadline t \<le> tk_created_at t) ValueError) (\<lambda>_.
     rbind (guard ((tk_environment_id t = None) \<noteq> (tk_environment_revision t = None)) ValueError) (\<lambda>_.
     rbind (guard (tk_secret_references t \<noteq> [] \<and> tk_environment_id t = None) ValueError) (\<lambda>_.
     rbind (guard (list_ex (\<lambda>(name, value). \<not> environment_name name \<or> \<not> is_text value)
              (tk_environment_variables t)) ValueError) (\<lambda>_.
     rbind (guard (\<not> distinct (map (\<lambda>r. (sr_category r, sr_name r)) (tk_secret_references t))) ValueError) (\<lambda>_.
     rbind (guard (\<not> distinct (map sr_secret_ref (tk_secret_references t))) ValueError) (\<lambda>_.
     rbind (guard (en_engine t \<noteq> E_HTTP \<and> has_http_parts (tk_execution_policy t)) ValueError) (\<lambda>_.
     Inr t)))))))"

definition validate_TaskEnvelope :: "TaskEnvelope \<Rightarrow> TaskEnvelope res" where
  "validate_TaskEnvelope t =
     rbind (strip_idempotency_key (tk_idempotency_key t)) (\<lambda>key.
     rbind (guard (length key < 1 \<or> length key > 255) ValueError) (\<lambda>_.
     rbind (guard (length (tk_entrypoint t) < 1 \<or> length (tk_entrypoint t) > 512) ValueError) (\<lambda>_.
     rbind (guard (opt_text_bad (tk_source_ref t) 512) ValueError) (\<lambda>_.
     rbind (guard (case tk_content_digest t of None \<Rightarrow> False | Some d \<Rightarrow> \<not> content_digest_text d) ValueError) (\<lambda>_.
     rbind (guard (case tk_environment_revision t of None \<Rightarrow> False | Some n \<Rightarrow> n < 1) ValueError) (\<lambda>_.
     rbind (map_res validate_SecretReference (tk_secret_references t)) (\<lambda>references.
     rbind (validate_ExecutionPolicy (tk_execution_policy t)) (\<lambda>policy.
     deadline_follows_creation
       (t\<lparr>tk_idempotency_key := key,
          tk_parameters := freeze_mapping (tk_parameters t),
          tk_environment_variables := freeze_mapping (tk_environment_variables t),
          tk_secret_references := references,
          tk_execution_policy := policy\<rparr>)))))))))"

definition validate_EventEnvelope :: "EventEnvelope \<Rightarrow> EventEnvelope res" where
  "validate_EventEnvelope e =
     rbind (guard (ee_seq e < 0) ValueError) (\<lambda>_. Inr (e\<lparr>ee_payload := freeze_mapping (ee_payload e)\<rparr>))"

definition validate_ResultEnvelope :: "ResultEnvelope \<Rightarrow> ResultEnvelope res" where
  "validate_ResultEnvelope r =
     rbind (guard (rs_duration_ms r < 0) ValueError) (\<lambda>_. Inr (r\<lparr>rs_summary := freeze_mapping (rs_summary r)\<rparr>))"

section \<open>What a validated policy or task guarantees\<close>

definition wf_retry :: "RetryPolicy \<Rightarrow> bool" where
  "wf_retry p \<longleftrightarrow> 1 \<le> rp_max_attempts p \<and> rp_max_attempts p \<le> 5 \<and>
     0 \<le> rp_backoff_seconds p \<and> rp_backoff_seconds p \<le> rp_max_backoff_seconds p \<and>
     rp_max_backoff_seconds p \<le> 600 \<and> rp_backoff_seconds p \<le> 300 \<and>
     O_SUCCEEDED \<notin> set (rp_retry_on p) \<and> O_CANCELLED \<notin> set (rp_retry_on p)"

lemma validate_RetryPolicy_wf: "validate_RetryPolicy p = Inr q \<Longrightarrow> q = p \<and> wf_retry p"
  by (auto simp: validate_RetryPolicy_def wf_retry_def list_ex_iff)

lemma wf_default_retry [simp]: "wf_retry default_retry"
  by (simp add: wf_retry_def default_retry_def)

lemma validate_ExecutionPolicy_retry:
  "validate_ExecutionPolicy p = Inr q \<Longrightarrow> xp_retry q = xp_retry p \<and> wf_retry (xp_retry p)"
  by (auto simp: validate_ExecutionPolicy_def dest: validate_RetryPolicy_wf)

lemma map_res_length: "map_res f xs = Inr ys \<Longrightarrow> length ys = length xs"
  by (induction xs arbitrary: ys) auto

lemma map_res_Inr_id: "(\<And>x. x \<in> set xs \<Longrightarrow> f x = Inr x) \<Longrightarrow> map_res f xs = Inr xs"
  by (induction xs) auto

lemma map_res_all: "map_res f xs = Inr ys \<Longrightarrow> list_all2 (\<lambda>x y. f x = Inr y) xs ys"
  by (induction xs arbitrary: ys) auto

lemma deadline_follows_creation_Inr:
  "deadline_follows_creation t = Inr u \<Longrightarrow> u = t \<and> tk_created_at t < tk_deadline t \<and>
     (tk_environment_id t = None \<longleftrightarrow> tk_environment_revision t = None) \<and>
     (tk_secret_references t \<noteq> [] \<longrightarrow> tk_environment_id t \<noteq> None) \<and>
     distinct (map sr_secret_ref (tk_secret_references t)) \<and>
     (has_http_parts (tk_execution_policy t) \<longrightarrow> en_engine t = E_HTTP)"
  by (auto simp: deadline_follows_creation_def)

end
