(* ===== verification/Run_Domain.thy ===== *)
theory Run_Domain
  imports Protocol
begin

text \<open>
  The execution domain of \<^verbatim>\<open>services/api/domain.py\<close>: the run and attempt state machines as
  transition tables, and the immutable records with the operations that return an updated copy.
  The interface \<open>state_machine\<close> collects what the rest of the platform relies on: a
  transition yields its target and no transition leaves a terminal state.
\<close>

section \<open>States and transition tables\<close>

datatype RunState =
    R_CREATED | R_QUEUED | R_DISPATCHING | R_RUNNING | R_RETRY_WAIT | R_CANCELLING
  | R_SUCCEEDED | R_FAILED | R_CANCELLED | R_TIMED_OUT | R_INFRA_ERROR

datatype AttemptState =
    A_PENDING | A_CLAIMED | A_PREPARING | A_RUNNING | A_COLLECTING
  | A_SUCCEEDED | A_FAILED | A_CANCELLED | A_TIMED_OUT | A_INFRA_ERROR | A_LOST

definition RUN_TERMINAL :: "RunState list" where
  [table_simps]: "RUN_TERMINAL = [R_SUCCEEDED, R_FAILED, R_CANCELLED, R_TIMED_OUT, R_INFRA_ERROR]"

definition ATTEMPT_TERMINAL :: "AttemptState list" where
  [table_simps]: "ATTEMPT_TERMINAL =
     [A_SUCCEEDED, A_FAILED, A_CANCELLED, A_TIMED_OUT, A_INFRA_ERROR, A_LOST]"

definition ATTEMPT_LEASED :: "AttemptState list" where
  [table_simps]: "ATTEMPT_LEASED = [A_CLAIMED, A_PREPARING, A_RUNNING, A_COLLECTING]"

definition RUN_TRANSITIONS :: "(RunState, RunState list) dict" where
  [table_simps]: "RUN_TRANSITIONS =
    [(R_CREATED, [R_QUEUED, R_CANCELLING]),
     (R_QUEUED, [R_DISPATCHING, R_CANCELLING, R_FAILED, R_TIMED_OUT, R_INFRA_ERROR]),
     (R_DISPATCHING, [R_RUNNING, R_CANCELLING, R_FAILED, R_TIMED_OUT, R_INFRA_ERROR]),
     (R_RUNNING, [R_CANCELLING, R_SUCCEEDED, R_FAILED, R_TIMED_OUT, R_INFRA_ERROR, R_RETRY_WAIT]),
     (R_RETRY_WAIT, [R_QUEUED, R_CANCELLING, R_INFRA_ERROR]),
     (R_CANCELLING, [R_CANCELLED, R_FAILED, R_TIMED_OUT, R_INFRA_ERROR])]"

definition ATTEMPT_TRANSITIONS :: "(AttemptState, AttemptState list) dict" where
  [table_simps]: "ATTEMPT_TRANSITIONS =
    [(A_PENDING, [A_CLAIMED, A_CANCELLED]),
     (A_CLAIMED, [A_PREPARING, A_CANCELLED, A_INFRA_ERROR, A_LOST]),
     (A_PREPARING, [A_RUNNING, A_CANCELLED, A_INFRA_ERROR, A_LOST]),
     (A_RUNNING, [A_COLLECTING, A_CANCELLED, A_FAILED, A_TIMED_OUT, A_INFRA_ERROR, A_LOST]),
     (A_COLLECTING, ATTEMPT_TERMINAL)]"

definition transition_by :: "'s \<Rightarrow> 's \<Rightarrow> ('s, 's list) dict \<Rightarrow> 's res" where
  "transition_by current target rules =
     (if target \<notin> set (case dget rules current of None \<Rightarrow> [] | Some ts \<Rightarrow> ts)
      then Inl InvalidTransition else Inr target)"

definition transition_run :: "RunState \<Rightarrow> RunState \<Rightarrow> RunState res" where
  "transition_run current target = transition_by current target RUN_TRANSITIONS"

definition transition_attempt :: "AttemptState \<Rightarrow> AttemptState \<Rightarrow> AttemptState res" where
  "transition_attempt current target = transition_by current target ATTEMPT_TRANSITIONS"

section \<open>What clients rely on: state machines\<close>

locale state_machine =
  fixes trans :: "'s \<Rightarrow> 's \<Rightarrow> 's res"
    and terminal :: "'s \<Rightarrow> bool"
    and err :: exn
  assumes trans_target: "trans s t = Inr u \<Longrightarrow> u = t"
    and trans_error: "trans s t = Inl x \<Longrightarrow> x = err"
    and terminal_stuck: "terminal s \<Longrightarrow> trans s t = Inl err"
begin

text \<open>A history of states, each reached from the one before by an accepted transition.\<close>

fun history :: "'s \<Rightarrow> 's list \<Rightarrow> bool" where
  "history s [] \<longleftrightarrow> True"
| "history s (t # ts) \<longleftrightarrow> trans s t = Inr t \<and> history t ts"

lemma trans_Inr_iff: "(\<exists>u. trans s t = Inr u) \<longleftrightarrow> trans s t = Inr t"
  using trans_target by blast

lemma terminal_history: "terminal s \<Longrightarrow> history s ts \<longleftrightarrow> ts = []"
  by (cases ts) (auto simp: terminal_stuck)

text \<open>Once a history holds a terminal state, that state is the last one.\<close>

lemma terminal_is_last: "history s ts \<Longrightarrow> i < length ts \<Longrightarrow> terminal (ts ! i) \<Longrightarrow> Suc i = length ts"
proof (induction ts arbitrary: s i)
  case Nil
  then show ?case by simp
next
  case (Cons t ts)
  then show ?case
    by (cases i) (auto simp: terminal_history)
qed

end

text \<open>A machine whose states only move up a rank has histories of bounded length.\<close>

locale ranked_machine = state_machine trans terminal err
  for trans :: "'s \<Rightarrow> 's \<Rightarrow> 's res" and terminal :: "'s \<Rightarrow> bool" and err :: exn +
  fixes rank :: "'s \<Rightarrow> nat"
  assumes trans_up: "trans s t = Inr u \<Longrightarrow> rank s < rank t"
begin

lemma history_rank: "history s ts \<Longrightarrow> ts \<noteq> [] \<Longrightarrow> rank s + length ts \<le> rank (last ts)"
proof (induction ts arbitrary: s)
  case Nil
  then show ?case by simp
next
  case (Cons t ts)
  then have "rank s < rank t" by (auto dest: trans_up)
  with Cons show ?case by (cases ts) force+
qed

lemma history_bound:
  assumes "history s ts" and "\<And>t. rank t \<le> n"
  shows "length ts \<le> n"
proof (cases "ts = []")
  case False
  then show ?thesis
    using history_rank [OF assms(1)] assms(2) [of "last ts"] by linarith
qed simp

end

lemma transition_by_Inr [simp]:
  "transition_by s t rules = Inr u \<longleftrightarrow>
     u = t \<and> t \<in> set (case dget rules s of None \<Rightarrow> [] | Some ts \<Rightarrow> ts)"
  by (auto simp: transition_by_def)

lemma transition_by_Inl [simp]:
  "transition_by s t rules = Inl e \<longleftrightarrow>
     e = InvalidTransition \<and> t \<notin> set (case dget rules s of None \<Rightarrow> [] | Some ts \<Rightarrow> ts)"
  by (auto simp: transition_by_def)

fun attempt_rank :: "AttemptState \<Rightarrow> nat" where
  "attempt_rank A_PENDING = 0"
| "attempt_rank A_CLAIMED = 1"
| "attempt_rank A_PREPARING = 2"
| "attempt_rank A_RUNNING = 3"
| "attempt_rank A_COLLECTING = 4"
| "attempt_rank _ = 5"

interpretation run_machine: state_machine transition_run "\<lambda>s. s \<in> set RUN_TERMINAL" InvalidTransition
  by unfold_locales (auto simp: transition_run_def table_simps split: if_splits)

interpretation attempt_machine:
  ranked_machine transition_attempt "\<lambda>s. s \<in> set ATTEMPT_TERMINAL" InvalidTransition attempt_rank
  by unfold_locales (auto simp: transition_attempt_def table_simps split: if_splits)

lemma attempt_rank_le: "attempt_rank s \<le> 5"
  by (cases s) auto

section \<open>Records\<close>

record RunRecord =
  rr_id :: uuid
  rr_engine :: Engine
  rr_parameters :: params
  rr_state :: RunState
  rr_created_at :: time
  rr_updated_at :: time
  rr_state_version :: int

definition new_run :: "uuid \<Rightarrow> Engine \<Rightarrow> params \<Rightarrow> time \<Rightarrow> RunRecord" where
  "new_run i eng ps now = \<lparr>rr_id = i, rr_engine = eng, rr_parameters = ps, rr_state = R_CREATED,
     rr_created_at = now, rr_updated_at = now, rr_state_version = 0\<rparr>"

definition run_with_state :: "RunRecord \<Rightarrow> RunState \<Rightarrow> time \<Rightarrow> RunRecord res" where
  "run_with_state r state now =
     rbind (transition_run (rr_state r) state) (\<lambda>next_state.
     Inr (r\<lparr>rr_state := next_state, rr_updated_at := now,
            rr_state_version := rr_state_version r + 1\<rparr>))"

record AttemptRecord =
  at_id :: uuid
  at_run_id :: uuid
  at_state :: AttemptState
  at_created_at :: time
  at_updated_at :: time
  at_state_version :: int
  at_outcome :: "ResultOutcome option"
  at_duration_ms :: "int option"
  at_summary :: "params option"
  at_completed_at :: "time option"
  at_runner_id :: "string option"
  at_heartbeat_at :: "time option"
  at_lease_expires_at :: "time option"

definition new_attempt :: "uuid \<Rightarrow> uuid \<Rightarrow> time \<Rightarrow> AttemptRecord" where
  "new_attempt i run now = \<lparr>at_id = i, at_run_id = run, at_state = A_PENDING,
     at_created_at = now, at_updated_at = now, at_state_version = 0, at_outcome = None,
     at_duration_ms = None, at_summary = None, at_completed_at = None, at_runner_id = None,
     at_heartbeat_at = None, at_lease_expires_at = None\<rparr>"

definition attempt_with_state :: "AttemptRecord \<Rightarrow> AttemptState \<Rightarrow> time \<Rightarrow> AttemptRecord res" where
  "attempt_with_state a state now =
     rbind (transition_attempt (at_state a) state) (\<lambda>next_state.
     Inr (a\<lparr>at_state := next_state, at_updated_at := now,
            at_state_version := at_state_version a + 1\<rparr>))"

definition attempt_with_result ::
  "AttemptRecord \<Rightarrow> AttemptState \<Rightarrow> ResultEnvelope \<Rightarrow> time \<Rightarrow> AttemptRecord res" where
  "attempt_with_result a state result now =
     rbind (guard (en_attempt_id result \<noteq> at_id a \<or> en_run_id result \<noteq> at_run_id a) ValueError) (\<lambda>_.
     rbind (transition_attempt (at_state a) state) (\<lambda>next_state.
     Inr (a\<lparr>at_state := next_state, at_updated_at := now,
            at_state_version := at_state_version a + 1,
            at_outcome := Some (rs_outcome result),
            at_duration_ms := Some (rs_duration_ms result),
            at_summary := Some (thaw_mapping (rs_summary result)),
            at_completed_at := Some (rs_completed_at result)\<rparr>)))"

text \<open>\<open>tick\<close> is the clock reading of \<open>with_state\<close>, \<open>now\<close> the argument of the method.\<close>

definition attempt_claimed ::
  "AttemptRecord \<Rightarrow> string \<Rightarrow> int \<Rightarrow> time \<Rightarrow> time \<Rightarrow> AttemptRecord res" where
  "attempt_claimed a runner_id lease_seconds now tick =
     (let identity = strip runner_id in
      rbind (guard (identity = [] \<or> length identity > 255) ValueError) (\<lambda>_.
      rbind (guard (lease_seconds \<le> 0) ValueError) (\<lambda>_.
      rbind (attempt_with_state a A_CLAIMED tick) (\<lambda>claimed.
      Inr (claimed\<lparr>at_runner_id := Some identity, at_heartbeat_at := Some now,
             at_lease_expires_at := Some (now + seconds lease_seconds)\<rparr>)))))"

definition attempt_with_heartbeat ::
  "AttemptRecord \<Rightarrow> string \<Rightarrow> int \<Rightarrow> time \<Rightarrow> AttemptRecord res" where
  "attempt_with_heartbeat a runner_id lease_seconds now =
     rbind (guard (at_state a \<notin> set ATTEMPT_LEASED) InvalidTransition) (\<lambda>_.
     rbind (guard (at_runner_id a \<noteq> Some runner_id) ValueError) (\<lambda>_.
     rbind (guard (case at_lease_expires_at a of None \<Rightarrow> True | Some t \<Rightarrow> t \<le> now) InvalidTransition) (\<lambda>_.
     rbind (guard (lease_seconds \<le> 0) ValueError) (\<lambda>_.
     Inr (a\<lparr>at_updated_at := now, at_heartbeat_at := Some now,
            at_lease_expires_at := Some (now + seconds lease_seconds)\<rparr>)))))"

definition lease_expired_summary :: params where
  "lease_expired_summary = [(''reason'', PStr ''runner_lease_expired'')]"

definition attempt_lost :: "AttemptRecord \<Rightarrow> time \<Rightarrow> time \<Rightarrow> AttemptRecord res" where
  "attempt_lost a now tick =
     rbind (attempt_with_state a A_LOST tick) (\<lambda>lost.
     Inr (lost\<lparr>at_outcome := Some O_INFRA_ERROR, at_summary := Some lease_expired_summary,
            at_completed_at := Some now\<rparr>))"

record EventRecord =
  ev_cursor :: int
  ev_event_id :: uuid
  ev_run_id :: uuid
  ev_attempt_id :: uuid
  ev_engine :: Engine
  ev_seq :: int
  ev_occurred_at :: time
  ev_type :: EventType
  ev_payload :: params

record ArtifactRecord =
  ar_id :: uuid
  ar_run_id :: uuid
  ar_attempt_id :: uuid
  ar_kind :: string
  ar_name :: string
  ar_content_type :: string
  ar_size_bytes :: int
  ar_storage_key :: string
  ar_created_at :: time

section \<open>Frame and effect of the record operations\<close>

lemma run_with_state_Inr:
  "run_with_state r st now = Inr r' \<longleftrightarrow>
     transition_run (rr_state r) st = Inr st \<and>
     r' = r\<lparr>rr_state := st, rr_updated_at := now, rr_state_version := rr_state_version r + 1\<rparr>"
  using run_machine.trans_target by (auto simp: run_with_state_def)

lemma run_with_state_Inl: "run_with_state r st now = Inl e \<Longrightarrow> e = InvalidTransition"
  by (auto simp: run_with_state_def rbind_def split: sum.splits dest: run_machine.trans_error)

lemma attempt_with_state_Inr:
  "attempt_with_state a st now = Inr a' \<longleftrightarrow>
     transition_attempt (at_state a) st = Inr st \<and>
     a' = a\<lparr>at_state := st, at_updated_at := now, at_state_version := at_state_version a + 1\<rparr>"
  using attempt_machine.trans_target by (auto simp: attempt_with_state_def)

lemma attempt_with_state_Inl: "attempt_with_state a st now = Inl e \<Longrightarrow> e = InvalidTransition"
  by (auto simp: attempt_with_state_def rbind_def split: sum.splits dest: attempt_machine.trans_error)

lemma attempt_claimed_Inr:
  "attempt_claimed a runner lease now tick = Inr a' \<longleftrightarrow>
     strip runner \<noteq> [] \<and> length (strip runner) \<le> 255 \<and> 0 < lease \<and>
     transition_attempt (at_state a) A_CLAIMED = Inr A_CLAIMED \<and>
     a' = a\<lparr>at_state := A_CLAIMED, at_updated_at := tick, at_state_version := at_state_version a + 1,
             at_runner_id := Some (strip runner), at_heartbeat_at := Some now,
             at_lease_expires_at := Some (now + seconds lease)\<rparr>"
  by (auto simp: attempt_claimed_def attempt_with_state_Inr Let_def)

lemma attempt_with_heartbeat_Inr:
  "attempt_with_heartbeat a runner lease now = Inr a' \<longleftrightarrow>
     at_state a \<in> set ATTEMPT_LEASED \<and> at_runner_id a = Some runner \<and>
     (\<exists>t. at_lease_expires_at a = Some t \<and> now < t) \<and> 0 < lease \<and>
     a' = a\<lparr>at_updated_at := now, at_heartbeat_at := Some now,
             at_lease_expires_at := Some (now + seconds lease)\<rparr>"
  by (auto simp: attempt_with_heartbeat_def split: option.splits)

lemma attempt_lost_Inr:
  "attempt_lost a now tick = Inr a' \<longleftrightarrow>
     transition_attempt (at_state a) A_LOST = Inr A_LOST \<and>
     a' = a\<lparr>at_state := A_LOST, at_updated_at := tick, at_state_version := at_state_version a + 1,
             at_outcome := Some O_INFRA_ERROR, at_summary := Some lease_expired_summary,
             at_completed_at := Some now\<rparr>"
  by (auto simp: attempt_lost_def attempt_with_state_Inr)

lemma attempt_with_result_Inr:
  "attempt_with_result a st res now = Inr a' \<longleftrightarrow>
     en_attempt_id res = at_id a \<and> en_run_id res = at_run_id a \<and>
     transition_attempt (at_state a) st = Inr st \<and>
     a' = a\<lparr>at_state := st, at_updated_at := now, at_state_version := at_state_version a + 1,
             at_outcome := Some (rs_outcome res), at_duration_ms := Some (rs_duration_ms res),
             at_summary := Some (thaw_mapping (rs_summary res)),
             at_completed_at := Some (rs_completed_at res)\<rparr>"
  using attempt_machine.trans_target by (auto simp: attempt_with_result_def)

lemmas attempt_op_Inr =
  attempt_with_state_Inr attempt_claimed_Inr attempt_with_heartbeat_Inr attempt_lost_Inr
  attempt_with_result_Inr

lemma leased_can_be_lost: "at_state a \<in> set ATTEMPT_LEASED \<Longrightarrow> \<exists>a'. attempt_lost a now tick = Inr a'"
  by (auto simp: attempt_lost_Inr transition_attempt_def table_simps)

lemma leased_not_terminal: "s \<in> set ATTEMPT_LEASED \<Longrightarrow> s \<notin> set ATTEMPT_TERMINAL"
  by (auto simp: table_simps)

end
