(* ===== verification/Run_Repo.thy ===== *)
theory Run_Repo
  imports Run_Domain
begin

text \<open>
  The in-memory run repository of \<^verbatim>\<open>services/api/repository.py\<close>. Its dictionaries are the
  fields of the record \<open>RunRepo\<close>; every method is an operation on that record. The lock makes a
  method one atomic step, copies of immutable records are the records themselves, and a raised
  exception leaves the writes made before it, as in the loop of \<open>expire_attempt_leases\<close>.

  The serialiser \<open>json.dumps(..., sort_keys=True)\<close> and \<open>hashlib.sha256\<close> are arguments
  (\<open>dumps\<close>, \<open>sha256\<close>) of the operations that compute a fingerprint.
\<close>

record RunRepo =
  q_runs :: "(uuid, RunRecord) dict"
  q_idempotency :: "(string, string \<times> uuid) dict"
  q_attempts :: "(uuid, AttemptRecord) dict"
  q_events :: "(uuid, EventRecord) dict"
  q_event_sequences :: "(uuid \<times> int, uuid) dict"
  q_artifacts :: "(uuid, ArtifactRecord) dict"
  q_next_cursor :: int

definition empty_repo :: RunRepo where
  "empty_repo = \<lparr>q_runs = [], q_idempotency = [], q_attempts = [], q_events = [],
     q_event_sequences = [], q_artifacts = [], q_next_cursor = 1\<rparr>"

definition set_run :: "uuid \<Rightarrow> RunRecord \<Rightarrow> RunRepo \<Rightarrow> RunRepo" where
  "set_run i r s = s\<lparr>q_runs := dset i r (q_runs s)\<rparr>"

definition set_attempt :: "uuid \<Rightarrow> AttemptRecord \<Rightarrow> RunRepo \<Rightarrow> RunRepo" where
  "set_attempt i a s = s\<lparr>q_attempts := dset i a (q_attempts s)\<rparr>"

section \<open>Runs\<close>

fun engine_value :: "Engine \<Rightarrow> string" where
  "engine_value E_HTTP = ''http''"
| "engine_value E_PYTEST = ''pytest''"
| "engine_value E_PLAYWRIGHT = ''playwright''"

definition fingerprint ::
  "(pyval \<Rightarrow> string res) \<Rightarrow> (string \<Rightarrow> string) \<Rightarrow> Engine \<Rightarrow> params \<Rightarrow> string res" where
  "fingerprint dumps sha256 eng parameters =
     rbind (dumps (PDict [(PStr ''engine'', PStr (engine_value eng)),
                          (PStr ''parameters'', PDict (map (\<lambda>(k, v). (PStr k, v)) parameters))]))
       (\<lambda>canonical_request. Inr (sha256 canonical_request))"

definition get_locked :: "uuid \<Rightarrow> (RunRepo, RunRecord) pyop" where
  "get_locked run_id s = (case dget (q_runs s) run_id of
     None \<Rightarrow> (Inl RunNotFound, s) | Some r \<Rightarrow> (Inr r, s))"

definition get_attempt_locked :: "uuid \<Rightarrow> (RunRepo, AttemptRecord) pyop" where
  "get_attempt_locked attempt_id s = (case dget (q_attempts s) attempt_id of
     None \<Rightarrow> (Inl AttemptNotFound, s) | Some a \<Rightarrow> (Inr a, s))"

definition normalize_key :: "string option \<Rightarrow> string option" where
  "normalize_key idempotency_key = (case idempotency_key of
     None \<Rightarrow> None | Some k \<Rightarrow> if k = [] then None else Some (strip k))"

text \<open>\<open>if key and key in self._idempotency\<close>: the entry saved under a non-empty key.\<close>

definition saved_request :: "string option \<Rightarrow> RunRepo \<Rightarrow> (string \<times> uuid) option" where
  "saved_request key s = (case key of
     None \<Rightarrow> None | Some k \<Rightarrow> if k = [] then None else dget (q_idempotency s) k)"

definition save_request :: "string option \<Rightarrow> string \<Rightarrow> uuid \<Rightarrow> RunRepo \<Rightarrow> RunRepo" where
  "save_request key fp run_id s = (case key of
     None \<Rightarrow> s
   | Some k \<Rightarrow> if k = [] then s else s\<lparr>q_idempotency := dset k (fp, run_id) (q_idempotency s)\<rparr>)"

definition create_or_get ::
  "(pyval \<Rightarrow> string res) \<Rightarrow> (string \<Rightarrow> string) \<Rightarrow> Engine \<Rightarrow> params \<Rightarrow> string option \<Rightarrow>
   uuid \<Rightarrow> time \<Rightarrow> (RunRepo, RunRecord \<times> bool) pyop" where
  "create_or_get dumps sha256 eng parameters idempotency_key fresh now =
     (let key = normalize_key idempotency_key in
      bind (lift (fingerprint dumps sha256 eng parameters)) (\<lambda>fp.
      bind (reads (saved_request key)) (\<lambda>saved.
      case saved of
        Some (saved_fp, run_id) \<Rightarrow>
          (if saved_fp \<noteq> fp then raise IdempotencyConflict
           else bind (reads (\<lambda>s. dget (q_runs s) run_id)) (\<lambda>found.
             case found of None \<Rightarrow> raise KeyError | Some r \<Rightarrow> ret (r, True)))
      | None \<Rightarrow>
          (let run = new_run fresh eng parameters now in
           bind (writes (set_run (rr_id run) run)) (\<lambda>_.
           bind (writes (save_request key fp (rr_id run))) (\<lambda>_.
           ret (run, False)))))))"

definition create ::
  "(pyval \<Rightarrow> string res) \<Rightarrow> (string \<Rightarrow> string) \<Rightarrow> Engine \<Rightarrow> params \<Rightarrow> string option \<Rightarrow>
   uuid \<Rightarrow> time \<Rightarrow> (RunRepo, RunRecord) pyop" where
  "create dumps sha256 eng parameters idempotency_key fresh now =
     bind (create_or_get dumps sha256 eng parameters idempotency_key fresh now) (\<lambda>(run, _). ret run)"

definition list_runs :: "(RunRepo, RunRecord list) pyop" where
  "list_runs = reads (\<lambda>s. sort_key rr_created_at (dvalues (q_runs s)))"

definition get :: "uuid \<Rightarrow> (RunRepo, RunRecord) pyop" where
  "get run_id = get_locked run_id"

definition transition :: "uuid \<Rightarrow> RunState \<Rightarrow> time \<Rightarrow> (RunRepo, RunRecord) pyop" where
  "transition run_id target now =
     bind (get_locked run_id) (\<lambda>current.
     bind (lift (run_with_state current target now)) (\<lambda>updated.
     bind (writes (set_run run_id updated)) (\<lambda>_.
     ret updated)))"

definition cancel :: "uuid \<Rightarrow> time \<Rightarrow> (RunRepo, RunRecord) pyop" where
  "cancel run_id now =
     bind (get_locked run_id) (\<lambda>current.
     if rr_state current \<in> set RUN_TERMINAL then raise TerminalRunConflict
     else if rr_state current = R_CANCELLING then ret current
     else
       bind (lift (run_with_state current R_CANCELLING now)) (\<lambda>updated.
       bind (writes (set_run run_id updated)) (\<lambda>_.
       ret updated)))"

section \<open>Attempts and leases\<close>

definition or_now :: "'a option \<Rightarrow> 'a \<Rightarrow> 'a" where
  "or_now v clock = (case v of None \<Rightarrow> clock | Some x \<Rightarrow> x)"

definition create_attempt :: "uuid \<Rightarrow> uuid option \<Rightarrow> uuid \<Rightarrow> time \<Rightarrow> (RunRepo, AttemptRecord) pyop" where
  "create_attempt run_id attempt_id fresh now =
     bind (get_locked run_id) (\<lambda>_.
     let resolved_id = or_now attempt_id fresh in
     bind (reads (\<lambda>s. dget (q_attempts s) resolved_id)) (\<lambda>found.
     if found \<noteq> None then raise AttemptConflict
     else
       let attempt = new_attempt resolved_id run_id now in
       bind (writes (set_attempt resolved_id attempt)) (\<lambda>_.
       ret attempt)))"

text \<open>The three clock readings are those of the run's \<open>with_state\<close>, of the method, and of the claim.\<close>

definition begin_attempt ::
  "uuid \<Rightarrow> uuid \<Rightarrow> string \<Rightarrow> int \<Rightarrow> time \<Rightarrow> time \<Rightarrow> time \<Rightarrow> (RunRepo, RunRecord \<times> AttemptRecord) pyop"
where
  "begin_attempt run_id attempt_id runner_id lease_seconds tick_run now tick_claim =
     bind (get_locked run_id) (\<lambda>run.
     bind (reads (\<lambda>s. dget (q_attempts s) attempt_id)) (\<lambda>found.
     if found \<noteq> None then raise AttemptConflict
     else
       bind (lift (run_with_state run R_RUNNING tick_run)) (\<lambda>running.
       bind (lift (attempt_claimed (new_attempt attempt_id run_id now) runner_id lease_seconds now
                     tick_claim)) (\<lambda>claimed.
       bind (writes (set_run run_id running)) (\<lambda>_.
       bind (writes (set_attempt attempt_id claimed)) (\<lambda>_.
       ret (running, claimed)))))))"

definition get_attempt :: "uuid \<Rightarrow> (RunRepo, AttemptRecord) pyop" where
  "get_attempt attempt_id = get_attempt_locked attempt_id"

definition list_attempts :: "uuid \<Rightarrow> (RunRepo, AttemptRecord list) pyop" where
  "list_attempts run_id =
     bind (get_locked run_id) (\<lambda>_.
     reads (\<lambda>s. sort_key (\<lambda>a. (at_created_at a, at_id a))
                  (filter (\<lambda>a. at_run_id a = run_id) (dvalues (q_attempts s)))))"

definition update_attempt ::
  "uuid \<Rightarrow> (AttemptRecord \<Rightarrow> AttemptRecord res) \<Rightarrow> (RunRepo, AttemptRecord) pyop" where
  "update_attempt attempt_id f =
     bind (get_attempt_locked attempt_id) (\<lambda>current.
     bind (lift (f current)) (\<lambda>updated.
     bind (writes (set_attempt attempt_id updated)) (\<lambda>_.
     ret updated)))"

definition repo_transition_attempt ::
  "uuid \<Rightarrow> AttemptState \<Rightarrow> time \<Rightarrow> (RunRepo, AttemptRecord) pyop" where
  "repo_transition_attempt attempt_id target now =
     update_attempt attempt_id (\<lambda>current. attempt_with_state current target now)"

definition claim_attempt ::
  "uuid \<Rightarrow> string \<Rightarrow> int \<Rightarrow> time option \<Rightarrow> time \<Rightarrow> time \<Rightarrow> (RunRepo, AttemptRecord) pyop" where
  "claim_attempt attempt_id runner_id lease_seconds now clock tick =
     (let heartbeat = or_now now clock in
      update_attempt attempt_id (\<lambda>current. attempt_claimed current runner_id lease_seconds heartbeat tick))"

definition renew_attempt_lease ::
  "uuid \<Rightarrow> string \<Rightarrow> int \<Rightarrow> time option \<Rightarrow> time \<Rightarrow> (RunRepo, AttemptRecord) pyop" where
  "renew_attempt_lease attempt_id runner_id lease_seconds now clock =
     (let heartbeat = or_now now clock in
      update_attempt attempt_id (\<lambda>current. attempt_with_heartbeat current runner_id lease_seconds heartbeat))"

definition lease_live :: "AttemptRecord \<Rightarrow> time \<Rightarrow> bool" where
  "lease_live current cutoff \<longleftrightarrow> at_state current \<notin> set ATTEMPT_LEASED \<or>
     (case at_lease_expires_at current of None \<Rightarrow> True | Some t \<Rightarrow> t > cutoff)"

definition fail_run_of :: "AttemptRecord \<Rightarrow> time \<Rightarrow> (RunRepo, unit) pyop" where
  "fail_run_of current tick =
     bind (reads (\<lambda>s. dget (q_runs s) (at_run_id current))) (\<lambda>found.
     case found of
       None \<Rightarrow> raise KeyError
     | Some run \<Rightarrow>
         (if rr_state run \<notin> set RUN_TERMINAL
          then bind (lift (run_with_state run R_INFRA_ERROR tick)) (\<lambda>r. writes (set_run (rr_id run) r))
          else ret ()))"

text \<open>The loop runs over a snapshot of the dictionary; \<open>tick\<close> numbers its clock readings.\<close>

fun expire_loop ::
  "time \<Rightarrow> (nat \<Rightarrow> time) \<Rightarrow> nat \<Rightarrow> (uuid \<times> AttemptRecord) list \<Rightarrow> AttemptRecord list \<Rightarrow>
   (RunRepo, AttemptRecord list) pyop" where
  "expire_loop cutoff tick n [] expired = ret expired"
| "expire_loop cutoff tick n ((attempt_id, current) # rest) expired =
     (if lease_live current cutoff then expire_loop cutoff tick n rest expired
      else
        bind (lift (attempt_lost current cutoff (tick n))) (\<lambda>updated.
        bind (writes (set_attempt attempt_id updated)) (\<lambda>_.
        bind (fail_run_of current (tick (n + 1))) (\<lambda>_.
        expire_loop cutoff tick (n + 2) rest (expired @ [updated])))))"

definition expire_attempt_leases ::
  "time option \<Rightarrow> time \<Rightarrow> (nat \<Rightarrow> time) \<Rightarrow> (RunRepo, AttemptRecord list) pyop" where
  "expire_attempt_leases now clock tick =
     (let cutoff = or_now now clock in
      bind (reads q_attempts) (\<lambda>snapshot. expire_loop cutoff tick 0 snapshot []))"

definition complete_attempt ::
  "uuid \<Rightarrow> AttemptState \<Rightarrow> ResultEnvelope \<Rightarrow> time \<Rightarrow> (RunRepo, AttemptRecord) pyop" where
  "complete_attempt attempt_id target result now =
     update_attempt attempt_id (\<lambda>current. attempt_with_result current target result now)"

section \<open>Events and artifacts\<close>

definition event_matches :: "EventRecord \<Rightarrow> EventEnvelope \<Rightarrow> bool" where
  "event_matches record event \<longleftrightarrow>
     (let payload = thaw_mapping (ee_payload event) in
      ev_run_id record = en_run_id event \<and> ev_attempt_id record = en_attempt_id event \<and>
      ev_engine record = en_engine event \<and> ev_seq record = ee_seq event \<and>
      ev_occurred_at record = ee_occurred_at event \<and> ev_type record = ee_type event \<and>
      params_eq (ev_payload record) payload)"

definition event_record :: "int \<Rightarrow> EventEnvelope \<Rightarrow> EventRecord" where
  "event_record cursor event = \<lparr>ev_cursor = cursor, ev_event_id = ee_event_id event,
     ev_run_id = en_run_id event, ev_attempt_id = en_attempt_id event, ev_engine = en_engine event,
     ev_seq = ee_seq event, ev_occurred_at = ee_occurred_at event, ev_type = ee_type event,
     ev_payload = thaw_mapping (ee_payload event)\<rparr>"

definition store_event :: "EventRecord \<Rightarrow> RunRepo \<Rightarrow> RunRepo" where
  "store_event record s =
     s\<lparr>q_next_cursor := q_next_cursor s + 1,
        q_events := dset (ev_event_id record) record (q_events s),
        q_event_sequences :=
          dset (ev_attempt_id record, ev_seq record) (ev_event_id record) (q_event_sequences s)\<rparr>"

definition append_event :: "EventEnvelope \<Rightarrow> (RunRepo, EventRecord) pyop" where
  "append_event event =
     bind (get_attempt_locked (en_attempt_id event)) (\<lambda>attempt.
     if at_run_id attempt \<noteq> en_run_id event then raise EventConflict
     else
       bind (get_locked (en_run_id event)) (\<lambda>run.
       if rr_engine run \<noteq> en_engine event then raise EventConflict
       else
         bind (reads (\<lambda>s. dget (q_events s) (ee_event_id event))) (\<lambda>found.
         case found of
           Some existing \<Rightarrow>
             (if event_matches existing event then ret existing else raise EventConflict)
         | None \<Rightarrow>
             bind (reads (\<lambda>s. dget (q_event_sequences s) (en_attempt_id event, ee_seq event))) (\<lambda>taken.
             if taken \<noteq> None then raise EventConflict
             else
               bind (reads q_next_cursor) (\<lambda>cursor.
               let record = event_record cursor event in
               bind (writes (store_event record)) (\<lambda>_.
               ret record))))))"

definition list_events :: "uuid \<Rightarrow> int \<Rightarrow> (RunRepo, EventRecord list) pyop" where
  "list_events run_id after =
     (if after < 0 then raise ValueError
      else
        bind (get_locked run_id) (\<lambda>_.
        reads (\<lambda>s. sort_key ev_cursor
          (filter (\<lambda>e. ev_run_id e = run_id \<and> ev_cursor e > after) (dvalues (q_events s))))))"

definition create_artifact :: "ArtifactRecord \<Rightarrow> (RunRepo, ArtifactRecord) pyop" where
  "create_artifact record =
     bind (get_attempt_locked (ar_attempt_id record)) (\<lambda>attempt.
     if at_run_id attempt \<noteq> ar_run_id record then raise ArtifactConflict
     else
       bind (get_locked (ar_run_id record)) (\<lambda>_.
       bind (reads (\<lambda>s. dget (q_artifacts s) (ar_id record))) (\<lambda>found.
       case found of
         Some existing \<Rightarrow> (if existing = record then ret existing else raise ArtifactConflict)
       | None \<Rightarrow>
           bind (writes (\<lambda>s. s\<lparr>q_artifacts := dset (ar_id record) record (q_artifacts s)\<rparr>)) (\<lambda>_.
           ret record))))"

definition get_artifact :: "uuid \<Rightarrow> (RunRepo, ArtifactRecord) pyop" where
  "get_artifact artifact_id s = (case dget (q_artifacts s) artifact_id of
     None \<Rightarrow> (Inl ArtifactNotFound, s) | Some a \<Rightarrow> (Inr a, s))"

definition list_artifacts :: "uuid \<Rightarrow> (RunRepo, ArtifactRecord list) pyop" where
  "list_artifacts run_id =
     bind (get_locked run_id) (\<lambda>_.
     reads (\<lambda>s. sort_key (\<lambda>a. (ar_created_at a, ar_id a))
                  (filter (\<lambda>a. ar_run_id a = run_id) (dvalues (q_artifacts s)))))"

end
