(* ===== verification/Run_Repo_Facts.thy ===== *)
theory Run_Repo_Facts
  imports Run_Repo
begin

text \<open>
  What the run repository guarantees. \<open>repo_inv\<close> is its well-formedness invariant (keys are
  identifiers, every reference resolves, the event log is in cursor order and indexed by attempt
  and sequence number); \<open>repo_step\<close> is one call of a writing method, raising or not, and
  \<open>repo_steps\<close> any number of them. Every step keeps the invariant, evolves runs and attempts
  along their state machines, and extends the event log at its end.
\<close>

section \<open>Well-formed repositories\<close>

definition runs_ok :: "RunRepo \<Rightarrow> bool" where
  "runs_ok s \<longleftrightarrow> wf_dict (q_runs s) \<and> (\<forall>i r. dget (q_runs s) i = Some r \<longrightarrow> rr_id r = i) \<and>
     (\<forall>k fp i. dget (q_idempotency s) k = Some (fp, i) \<longrightarrow> dget (q_runs s) i \<noteq> None)"

definition attempts_ok :: "RunRepo \<Rightarrow> bool" where
  "attempts_ok s \<longleftrightarrow> wf_dict (q_attempts s) \<and>
     (\<forall>i a. dget (q_attempts s) i = Some a \<longrightarrow> at_id a = i \<and> dget (q_runs s) (at_run_id a) \<noteq> None \<and>
        0 \<le> at_state_version a \<and> at_state_version a \<le> int (attempt_rank (at_state a)))"

definition event_ok :: "RunRepo \<Rightarrow> uuid \<Rightarrow> EventRecord \<Rightarrow> bool" where
  "event_ok s i e \<longleftrightarrow> ev_event_id e = i \<and> 1 \<le> ev_cursor e \<and> ev_cursor e < q_next_cursor s \<and>
     (\<exists>a. dget (q_attempts s) (ev_attempt_id e) = Some a \<and> at_run_id a = ev_run_id e) \<and>
     (\<exists>r. dget (q_runs s) (ev_run_id e) = Some r \<and> rr_engine r = ev_engine e) \<and>
     dget (q_event_sequences s) (ev_attempt_id e, ev_seq e) = Some i"

definition events_ok :: "RunRepo \<Rightarrow> bool" where
  "events_ok s \<longleftrightarrow> wf_dict (q_events s) \<and> sorted_wrt (<) (map ev_cursor (dvalues (q_events s))) \<and>
     1 \<le> q_next_cursor s \<and>
     (\<forall>i e. dget (q_events s) i = Some e \<longrightarrow> event_ok s i e) \<and>
     (\<forall>k i. dget (q_event_sequences s) k = Some i \<longrightarrow>
        (\<exists>e. dget (q_events s) i = Some e \<and> (ev_attempt_id e, ev_seq e) = k))"

definition artifacts_ok :: "RunRepo \<Rightarrow> bool" where
  "artifacts_ok s \<longleftrightarrow> wf_dict (q_artifacts s) \<and>
     (\<forall>i r. dget (q_artifacts s) i = Some r \<longrightarrow> ar_id r = i \<and>
        (\<exists>a. dget (q_attempts s) (ar_attempt_id r) = Some a \<and> at_run_id a = ar_run_id r))"

definition repo_inv :: "RunRepo \<Rightarrow> bool" where
  "repo_inv s \<longleftrightarrow> runs_ok s \<and> attempts_ok s \<and> events_ok s \<and> artifacts_ok s"

lemmas repo_inv_defs = repo_inv_def runs_ok_def attempts_ok_def events_ok_def event_ok_def artifacts_ok_def

lemma repo_inv_empty: "repo_inv empty_repo"
  by (simp add: repo_inv_defs empty_repo_def)

lemma repo_inv_runD: "repo_inv s \<Longrightarrow> dget (q_runs s) i = Some r \<Longrightarrow> rr_id r = i"
  by (simp add: repo_inv_defs)

lemma repo_inv_attemptD:
  "repo_inv s \<Longrightarrow> dget (q_attempts s) i = Some a \<Longrightarrow>
     at_id a = i \<and> (\<exists>r. dget (q_runs s) (at_run_id a) = Some r) \<and>
     at_state_version a \<le> int (attempt_rank (at_state a))"
  by (auto simp: repo_inv_defs)

section \<open>What a single write keeps\<close>

lemma set_run_fields [simp]:
  "q_runs (set_run i r s) = dset i r (q_runs s)"
  "q_idempotency (set_run i r s) = q_idempotency s" "q_attempts (set_run i r s) = q_attempts s"
  "q_events (set_run i r s) = q_events s" "q_event_sequences (set_run i r s) = q_event_sequences s"
  "q_artifacts (set_run i r s) = q_artifacts s" "q_next_cursor (set_run i r s) = q_next_cursor s"
  by (simp_all add: set_run_def)

lemma set_attempt_fields [simp]:
  "q_attempts (set_attempt i a s) = dset i a (q_attempts s)"
  "q_runs (set_attempt i a s) = q_runs s" "q_idempotency (set_attempt i a s) = q_idempotency s"
  "q_events (set_attempt i a s) = q_events s"
  "q_event_sequences (set_attempt i a s) = q_event_sequences s"
  "q_artifacts (set_attempt i a s) = q_artifacts s"
  "q_next_cursor (set_attempt i a s) = q_next_cursor s"
  by (simp_all add: set_attempt_def)

lemma repo_inv_set_run:
  assumes "repo_inv s" "dget (q_runs s) i = Some r" "rr_id r' = i" "rr_engine r' = rr_engine r"
  shows "repo_inv (set_run i r' s)"
  using assms by (auto simp: repo_inv_defs dget_dset) (metis option.inject)+

lemma repo_inv_new_run:
  assumes "repo_inv s" "dget (q_runs s) i = None" "rr_id r' = i"
  shows "repo_inv (set_run i r' s)"
  using assms by (auto simp: repo_inv_defs dget_dset) (metis option.distinct(1))+

lemma repo_inv_save_request:
  assumes "repo_inv s" "dget (q_runs s) i \<noteq> None"
  shows "repo_inv (save_request key fp i s)"
  using assms by (cases key) (auto simp: save_request_def repo_inv_defs dget_dset)

lemma repo_inv_set_attempt:
  assumes "repo_inv s" "dget (q_attempts s) i = Some a" "at_id a' = i" "at_run_id a' = at_run_id a"
    "0 \<le> at_state_version a'" "at_state_version a' \<le> int (attempt_rank (at_state a'))"
  shows "repo_inv (set_attempt i a' s)"
  using assms unfolding repo_inv_defs by (auto simp: dget_dset) (metis option.inject)+

lemma repo_inv_new_attempt:
  assumes "repo_inv s" "dget (q_attempts s) i = None" "at_id a' = i" "dget (q_runs s) (at_run_id a') \<noteq> None"
    "0 \<le> at_state_version a'" "at_state_version a' \<le> int (attempt_rank (at_state a'))"
  shows "repo_inv (set_attempt i a' s)"
  using assms unfolding repo_inv_defs by (auto simp: dget_dset) (metis option.distinct(1))+

lemma store_event_fields [simp]:
  "q_runs (store_event e s) = q_runs s" "q_idempotency (store_event e s) = q_idempotency s"
  "q_attempts (store_event e s) = q_attempts s" "q_artifacts (store_event e s) = q_artifacts s"
  "q_events (store_event e s) = dset (ev_event_id e) e (q_events s)"
  "q_event_sequences (store_event e s) =
     dset (ev_attempt_id e, ev_seq e) (ev_event_id e) (q_event_sequences s)"
  "q_next_cursor (store_event e s) = q_next_cursor s + 1"
  by (simp_all add: store_event_def)

lemma events_below_cursor:
  assumes "events_ok s" "e \<in> set (dvalues (q_events s))"
  shows "ev_cursor e < q_next_cursor s"
proof -
  from assms obtain i where "(i, e) \<in> set (q_events s)" by auto
  with assms(1) have "dget (q_events s) i = Some e"
    by (simp add: events_ok_def wf_dget_iff)
  with assms(1) show ?thesis by (simp add: events_ok_def event_ok_def)
qed

lemma repo_inv_store_event:
  assumes inv: "repo_inv s" and new: "dget (q_events s) (ev_event_id e) = None"
    and seq: "dget (q_event_sequences s) (ev_attempt_id e, ev_seq e) = None"
    and cur: "ev_cursor e = q_next_cursor s"
    and att: "dget (q_attempts s) (ev_attempt_id e) = Some a" "at_run_id a = ev_run_id e"
    and run: "dget (q_runs s) (ev_run_id e) = Some r" "rr_engine r = ev_engine e"
  shows "repo_inv (store_event e s)"
proof -
  have "events_ok s" using inv by (simp add: repo_inv_def)
  have below: "\<forall>f \<in> set (q_events s). ev_cursor (snd f) < ev_cursor e"
    using events_below_cursor [OF \<open>events_ok s\<close>] cur by auto
  have old: "event_ok (store_event e s) i f" if "dget (q_events s) i = Some f" for i f
  proof -
    from that \<open>events_ok s\<close> have "event_ok s i f" by (simp add: events_ok_def)
    with seq show ?thesis by (auto simp: event_ok_def dget_dset)
  qed
  have new_ok: "event_ok (store_event e s) (ev_event_id e) e"
    using att run cur \<open>events_ok s\<close> by (auto simp: event_ok_def events_ok_def)
  have all_ok: "event_ok (store_event e s) i f" if "dget (q_events (store_event e s)) i = Some f" for i f
    using that old new_ok by (cases "i = ev_event_id e") auto
  have "sorted_wrt (<) (map ev_cursor (dvalues (q_events (store_event e s))))"
    using \<open>events_ok s\<close> below by (simp add: events_ok_def dset_new [OF new] sorted_wrt_append)
  moreover have "\<exists>f. dget (q_events (store_event e s)) i = Some f \<and> (ev_attempt_id f, ev_seq f) = k"
    if "dget (q_event_sequences (store_event e s)) k = Some i" for k i
  proof (cases "k = (ev_attempt_id e, ev_seq e)")
    case False
    with that have "dget (q_event_sequences s) k = Some i" by simp
    with \<open>events_ok s\<close> obtain f where f: "dget (q_events s) i = Some f" "(ev_attempt_id f, ev_seq f) = k"
      unfolding events_ok_def by blast
    with new have "i \<noteq> ev_event_id e" by auto
    with f show ?thesis by simp
  qed (use that in auto)
  ultimately have "events_ok (store_event e s)"
    using \<open>events_ok s\<close> all_ok by (simp add: events_ok_def del: split_paired_All)
  then show ?thesis
    using inv by (simp add: repo_inv_def runs_ok_def attempts_ok_def artifacts_ok_def)
qed

section \<open>The effect of each operation on the state\<close>

lemma get_locked_effect [simp]: "snd (get_locked i s) = s" "snd (get_attempt_locked i s) = s"
  by (simp_all add: get_locked_def get_attempt_locked_def split: option.splits)

lemma get_locked_Inr [simp]:
  "get_locked i s = (Inr r, t) \<longleftrightarrow> dget (q_runs s) i = Some r \<and> t = s"
  "get_attempt_locked i s = (Inr a, t) \<longleftrightarrow> dget (q_attempts s) i = Some a \<and> t = s"
  by (auto simp: get_locked_def get_attempt_locked_def split: option.splits)

lemma get_locked_Inl [simp]:
  "get_locked i s = (Inl e, t) \<longleftrightarrow> dget (q_runs s) i = None \<and> t = s \<and> e = RunNotFound"
  "get_attempt_locked i s = (Inl e, t) \<longleftrightarrow> dget (q_attempts s) i = None \<and> t = s \<and> e = AttemptNotFound"
  by (auto simp: get_locked_def get_attempt_locked_def split: option.splits)

lemma transition_unfold:
  "transition i t now s =
     (case dget (q_runs s) i of
        None \<Rightarrow> (Inl RunNotFound, s)
      | Some r \<Rightarrow> (case run_with_state r t now of
          Inl e \<Rightarrow> (Inl e, s) | Inr r' \<Rightarrow> (Inr r', set_run i r' s)))"
  by (simp add: transition_def bind_def get_locked_def split: option.split sum.split)

lemma cancel_unfold:
  "cancel i now s =
     (case dget (q_runs s) i of
        None \<Rightarrow> (Inl RunNotFound, s)
      | Some r \<Rightarrow>
          if rr_state r \<in> set RUN_TERMINAL then (Inl TerminalRunConflict, s)
          else if rr_state r = R_CANCELLING then (Inr r, s)
          else (case run_with_state r R_CANCELLING now of
            Inl e \<Rightarrow> (Inl e, s) | Inr r' \<Rightarrow> (Inr r', set_run i r' s)))"
  by (simp add: cancel_def bind_def get_locked_def split: option.split sum.split)

lemma update_attempt_unfold:
  "update_attempt i f s =
     (case dget (q_attempts s) i of
        None \<Rightarrow> (Inl AttemptNotFound, s)
      | Some a \<Rightarrow> (case f a of Inl e \<Rightarrow> (Inl e, s) | Inr a' \<Rightarrow> (Inr a', set_attempt i a' s)))"
  by (simp add: update_attempt_def bind_def get_attempt_locked_def split: option.split sum.split)

lemma create_attempt_unfold:
  "create_attempt i j fresh now s =
     (case dget (q_runs s) i of
        None \<Rightarrow> (Inl RunNotFound, s)
      | Some r \<Rightarrow>
          if dget (q_attempts s) (or_now j fresh) \<noteq> None then (Inl AttemptConflict, s)
          else let a = new_attempt (or_now j fresh) i now in
            (Inr a, set_attempt (or_now j fresh) a s))"
  by (simp add: create_attempt_def bind_def get_locked_def Let_def split: option.split)

lemma begin_attempt_unfold:
  "begin_attempt i j w n t1 t2 t3 s =
     (case dget (q_runs s) i of
        None \<Rightarrow> (Inl RunNotFound, s)
      | Some r \<Rightarrow>
          if dget (q_attempts s) j \<noteq> None then (Inl AttemptConflict, s)
          else (case run_with_state r R_RUNNING t1 of
             Inl e \<Rightarrow> (Inl e, s)
           | Inr r' \<Rightarrow> (case attempt_claimed (new_attempt j i t2) w n t2 t3 of
                Inl e \<Rightarrow> (Inl e, s)
              | Inr a' \<Rightarrow> (Inr (r', a'), set_attempt j a' (set_run i r' s)))))"
  by (simp add: begin_attempt_def bind_def get_locked_def split: option.split sum.split)

lemma create_or_get_unfold:
  "create_or_get dumps sha eng ps k fresh now s =
     (case fingerprint dumps sha eng ps of
        Inl e \<Rightarrow> (Inl e, s)
      | Inr fp \<Rightarrow> (case saved_request (normalize_key k) s of
          Some (fp', i) \<Rightarrow>
            if fp' \<noteq> fp then (Inl IdempotencyConflict, s)
            else (case dget (q_runs s) i of None \<Rightarrow> (Inl KeyError, s) | Some r \<Rightarrow> (Inr (r, True), s))
        | None \<Rightarrow>
            let r = new_run fresh eng ps now in
            (Inr (r, False), save_request (normalize_key k) fp fresh (set_run fresh r s))))"
  by (simp add: create_or_get_def bind_def Let_def new_run_def split: option.split sum.split)

lemma append_event_unfold:
  "append_event ev s =
     (case dget (q_attempts s) (en_attempt_id ev) of
        None \<Rightarrow> (Inl AttemptNotFound, s)
      | Some a \<Rightarrow>
          if at_run_id a \<noteq> en_run_id ev then (Inl EventConflict, s)
          else (case dget (q_runs s) (en_run_id ev) of
             None \<Rightarrow> (Inl RunNotFound, s)
           | Some r \<Rightarrow>
               if rr_engine r \<noteq> en_engine ev then (Inl EventConflict, s)
               else (case dget (q_events s) (ee_event_id ev) of
                  Some x \<Rightarrow> (if event_matches x ev then (Inr x, s) else (Inl EventConflict, s))
                | None \<Rightarrow>
                    if dget (q_event_sequences s) (en_attempt_id ev, ee_seq ev) \<noteq> None
                    then (Inl EventConflict, s)
                    else let e = event_record (q_next_cursor s) ev in (Inr e, store_event e s))))"
  by (cases "dget (q_attempts s) (en_attempt_id ev)"; cases "dget (q_runs s) (en_run_id ev)";
      cases "dget (q_events s) (ee_event_id ev)")
    (simp_all add: append_event_def bind_def get_locked_def get_attempt_locked_def Let_def)

lemma event_record_fields [simp]:
  "ev_cursor (event_record c ev) = c" "ev_event_id (event_record c ev) = ee_event_id ev"
  "ev_run_id (event_record c ev) = en_run_id ev" "ev_attempt_id (event_record c ev) = en_attempt_id ev"
  "ev_engine (event_record c ev) = en_engine ev" "ev_seq (event_record c ev) = ee_seq ev"
  by (simp_all add: event_record_def)

lemma repo_inv_append_event: "repo_inv s \<Longrightarrow> repo_inv (snd (append_event ev s))"
  by (auto simp: append_event_unfold Let_def intro: repo_inv_store_event split: option.split)

lemma create_artifact_unfold:
  "create_artifact rec s =
     (case dget (q_attempts s) (ar_attempt_id rec) of
        None \<Rightarrow> (Inl AttemptNotFound, s)
      | Some a \<Rightarrow>
          if at_run_id a \<noteq> ar_run_id rec then (Inl ArtifactConflict, s)
          else (case dget (q_runs s) (ar_run_id rec) of
             None \<Rightarrow> (Inl RunNotFound, s)
           | Some _ \<Rightarrow>
               (case dget (q_artifacts s) (ar_id rec) of
                  Some x \<Rightarrow> (if x = rec then (Inr x, s) else (Inl ArtifactConflict, s))
                | None \<Rightarrow> (Inr rec, s\<lparr>q_artifacts := dset (ar_id rec) rec (q_artifacts s)\<rparr>))))"
  by (cases "dget (q_attempts s) (ar_attempt_id rec)"; cases "dget (q_runs s) (ar_run_id rec)";
      cases "dget (q_artifacts s) (ar_id rec)")
    (simp_all add: create_artifact_def bind_def get_locked_def get_attempt_locked_def)

lemma repo_inv_create_artifact: "repo_inv s \<Longrightarrow> repo_inv (snd (create_artifact rec s))"
  by (auto simp: create_artifact_unfold repo_inv_defs dget_dset split: option.split)

lemma repo_inv_get_any:
  "repo_inv s \<Longrightarrow> repo_inv (snd (list_events i n s))" "repo_inv s \<Longrightarrow> repo_inv (snd (list_attempts i s))"
  "repo_inv s \<Longrightarrow> repo_inv (snd (list_artifacts i s))" "repo_inv s \<Longrightarrow> repo_inv (snd (list_runs s))"
  by (simp_all add: list_events_def list_attempts_def list_artifacts_def list_runs_def bind_def
      get_locked_def split: option.split)

lemma repo_inv_transition: "repo_inv s \<Longrightarrow> repo_inv (snd (transition i t now s))"
  by (auto simp: transition_unfold run_with_state_Inr intro!: repo_inv_set_run dest: repo_inv_runD
      split: option.split sum.split)

lemma repo_inv_cancel: "repo_inv s \<Longrightarrow> repo_inv (snd (cancel i now s))"
  by (auto simp: cancel_unfold run_with_state_Inr intro!: repo_inv_set_run dest: repo_inv_runD
      split: option.split sum.split)

lemma repo_inv_create_or_get:
  "repo_inv s \<Longrightarrow> dget (q_runs s) fresh = None \<Longrightarrow>
     repo_inv (snd (create_or_get dumps sha eng ps k fresh now s))"
  by (auto simp: create_or_get_unfold Let_def new_run_def
      intro!: repo_inv_save_request repo_inv_new_run split: option.split sum.split)

lemma repo_inv_create_attempt: "repo_inv s \<Longrightarrow> repo_inv (snd (create_attempt i j fresh now s))"
  by (auto simp: create_attempt_unfold Let_def new_attempt_def
      intro!: repo_inv_new_attempt split: option.split)

lemma repo_inv_begin_attempt: "repo_inv s \<Longrightarrow> repo_inv (snd (begin_attempt i j w n t1 t2 t3 s))"
  by (auto simp: begin_attempt_unfold run_with_state_Inr attempt_claimed_Inr new_attempt_def
      intro!: repo_inv_new_attempt repo_inv_set_run dest: repo_inv_runD split: option.split sum.split)

definition keeps_identity :: "(AttemptRecord \<Rightarrow> AttemptRecord res) \<Rightarrow> bool" where
  "keeps_identity f \<longleftrightarrow> (\<forall>a a'. f a = Inr a' \<longrightarrow> at_id a' = at_id a \<and> at_run_id a' = at_run_id a \<and>
     (0 \<le> at_state_version a \<longrightarrow> 0 \<le> at_state_version a') \<and>
     (at_state_version a \<le> int (attempt_rank (at_state a)) \<longrightarrow>
        at_state_version a' \<le> int (attempt_rank (at_state a'))))"

lemma keeps_identity_ops [simp]:
  "keeps_identity (\<lambda>a. attempt_with_state a st now)"
  "keeps_identity (\<lambda>a. attempt_claimed a w n now tick)"
  "keeps_identity (\<lambda>a. attempt_with_heartbeat a w n now)"
  "keeps_identity (\<lambda>a. attempt_with_result a st res now)"
  "keeps_identity (\<lambda>a. attempt_lost a now tick)"
  by (auto simp: keeps_identity_def attempt_op_Inr dest!: attempt_machine.trans_up)

lemma repo_inv_update_attempt:
  assumes "repo_inv s" "keeps_identity f"
  shows "repo_inv (snd (update_attempt i f s))"
proof -
  have "repo_inv (set_attempt i a' s)" if a: "dget (q_attempts s) i = Some a" "f a = Inr a'" for a a'
  proof -
    from assms(1) a have "at_id a = i" "0 \<le> at_state_version a"
      "at_state_version a \<le> int (attempt_rank (at_state a))"
      by (auto simp: repo_inv_defs)
    with a assms show ?thesis
      by (auto simp: keeps_identity_def intro!: repo_inv_set_attempt)
  qed
  with assms(1) show ?thesis
    by (auto simp: update_attempt_unfold split: option.split sum.split)
qed

section \<open>Evolution of runs and attempts\<close>

text \<open>
  A run evolves along accepted transitions, its version counts them and its identity never
  changes; an attempt likewise.
\<close>

definition run_evolves :: "RunRecord \<Rightarrow> RunRecord \<Rightarrow> bool" where
  "run_evolves r r' \<longleftrightarrow> (\<exists>ts. run_machine.history (rr_state r) ts \<and>
     rr_state r' = last (rr_state r # ts) \<and>
     rr_state_version r' = rr_state_version r + int (length ts) \<and>
     rr_id r' = rr_id r \<and> rr_engine r' = rr_engine r \<and> rr_parameters r' = rr_parameters r \<and>
     rr_created_at r' = rr_created_at r)"

definition attempt_evolves :: "AttemptRecord \<Rightarrow> AttemptRecord \<Rightarrow> bool" where
  "attempt_evolves a a' \<longleftrightarrow> (\<exists>ts. attempt_machine.history (at_state a) ts \<and>
     at_state a' = last (at_state a # ts) \<and>
     at_state_version a' = at_state_version a + int (length ts) \<and>
     at_id a' = at_id a \<and> at_run_id a' = at_run_id a \<and> at_created_at a' = at_created_at a)"

lemma run_history_append:
  "run_machine.history s ts \<Longrightarrow> run_machine.history (last (s # ts)) us \<Longrightarrow>
     run_machine.history s (ts @ us)"
  by (induction ts arbitrary: s) (auto split: if_splits)

lemma attempt_history_append:
  "attempt_machine.history s ts \<Longrightarrow> attempt_machine.history (last (s # ts)) us \<Longrightarrow>
     attempt_machine.history s (ts @ us)"
  by (induction ts arbitrary: s) (auto split: if_splits)

lemma run_evolves_refl [simp]: "run_evolves r r"
  unfolding run_evolves_def by (rule exI [of _ "[]"]) simp

lemma attempt_evolves_refl [simp]: "attempt_evolves a a"
  unfolding attempt_evolves_def by (rule exI [of _ "[]"]) simp

lemma run_evolves_trans: "run_evolves r r' \<Longrightarrow> run_evolves r' r'' \<Longrightarrow> run_evolves r r''"
  unfolding run_evolves_def
proof (elim exE conjE)
  fix ts us
  assume *: "run_machine.history (rr_state r) ts" "rr_state r' = last (rr_state r # ts)"
    "run_machine.history (rr_state r') us" "rr_state r'' = last (rr_state r' # us)"
  then have "run_machine.history (rr_state r) (ts @ us)" by (metis run_history_append)
  moreover assume "rr_state_version r' = rr_state_version r + int (length ts)"
    "rr_state_version r'' = rr_state_version r' + int (length us)"
  moreover from * have "rr_state r'' = last (rr_state r # ts @ us)" by (cases us) auto
  moreover assume "rr_id r' = rr_id r" "rr_engine r' = rr_engine r" "rr_parameters r' = rr_parameters r"
    "rr_created_at r' = rr_created_at r" "rr_id r'' = rr_id r'" "rr_engine r'' = rr_engine r'"
    "rr_parameters r'' = rr_parameters r'" "rr_created_at r'' = rr_created_at r'"
  ultimately show "\<exists>ts. run_machine.history (rr_state r) ts \<and> rr_state r'' = last (rr_state r # ts) \<and>
      rr_state_version r'' = rr_state_version r + int (length ts) \<and>
      rr_id r'' = rr_id r \<and> rr_engine r'' = rr_engine r \<and> rr_parameters r'' = rr_parameters r \<and>
      rr_created_at r'' = rr_created_at r"
    by (intro exI [of _ "ts @ us"]) simp
qed

lemma attempt_evolves_trans: "attempt_evolves a b \<Longrightarrow> attempt_evolves b c \<Longrightarrow> attempt_evolves a c"
  unfolding attempt_evolves_def
proof (elim exE conjE)
  fix ts us
  assume *: "attempt_machine.history (at_state a) ts" "at_state b = last (at_state a # ts)"
    "attempt_machine.history (at_state b) us" "at_state c = last (at_state b # us)"
  then have "attempt_machine.history (at_state a) (ts @ us)" by (metis attempt_history_append)
  moreover assume "at_state_version b = at_state_version a + int (length ts)"
    "at_state_version c = at_state_version b + int (length us)"
  moreover from * have "at_state c = last (at_state a # ts @ us)" by (cases us) auto
  moreover assume "at_id b = at_id a" "at_run_id b = at_run_id a" "at_created_at b = at_created_at a"
    "at_id c = at_id b" "at_run_id c = at_run_id b" "at_created_at c = at_created_at b"
  ultimately show "\<exists>ts. attempt_machine.history (at_state a) ts \<and> at_state c = last (at_state a # ts) \<and>
      at_state_version c = at_state_version a + int (length ts) \<and>
      at_id c = at_id a \<and> at_run_id c = at_run_id a \<and> at_created_at c = at_created_at a"
    by (intro exI [of _ "ts @ us"]) simp
qed

lemma run_with_state_evolves: "run_with_state r st now = Inr r' \<Longrightarrow> run_evolves r r'"
  unfolding run_evolves_def by (rule exI [of _ "[st]"]) (auto simp: run_with_state_Inr)

lemma attempt_evolvesI:
  "transition_attempt (at_state a) (at_state a') = Inr (at_state a') \<Longrightarrow>
     at_state_version a' = at_state_version a + 1 \<Longrightarrow> at_id a' = at_id a \<Longrightarrow>
     at_run_id a' = at_run_id a \<Longrightarrow> at_created_at a' = at_created_at a \<Longrightarrow> attempt_evolves a a'"
  unfolding attempt_evolves_def by (rule exI [of _ "[at_state a']"]) simp

lemma attempt_step_evolves:
  "attempt_with_state a st now = Inr a' \<Longrightarrow> attempt_evolves a a'"
  "attempt_claimed a w n now tick = Inr a' \<Longrightarrow> attempt_evolves a a'"
  "attempt_lost a now tick = Inr a' \<Longrightarrow> attempt_evolves a a'"
  "attempt_with_result a st res now = Inr a' \<Longrightarrow> attempt_evolves a a'"
  by (auto simp: attempt_op_Inr intro!: attempt_evolvesI)

lemma heartbeat_evolves: "attempt_with_heartbeat a w n now = Inr a' \<Longrightarrow> attempt_evolves a a'"
  unfolding attempt_evolves_def by (rule exI [of _ "[]"]) (auto simp: attempt_op_Inr)

lemma run_evolves_terminal: "run_evolves r r' \<Longrightarrow> rr_state r \<in> set RUN_TERMINAL \<Longrightarrow> rr_state r' = rr_state r"
  by (auto simp: run_evolves_def run_machine.terminal_history)

lemma attempt_evolves_terminal:
  "attempt_evolves a a' \<Longrightarrow> at_state a \<in> set ATTEMPT_TERMINAL \<Longrightarrow> at_state a' = at_state a"
  by (auto simp: attempt_evolves_def attempt_machine.terminal_history)

text \<open>From one repository to a later one, nothing disappears and everything evolves.\<close>

definition repo_evolves :: "RunRepo \<Rightarrow> RunRepo \<Rightarrow> bool" where
  "repo_evolves s t \<longleftrightarrow>
     (\<forall>i r. dget (q_runs s) i = Some r \<longrightarrow> (\<exists>r'. dget (q_runs t) i = Some r' \<and> run_evolves r r')) \<and>
     (\<forall>i a. dget (q_attempts s) i = Some a \<longrightarrow>
        (\<exists>a'. dget (q_attempts t) i = Some a' \<and> attempt_evolves a a')) \<and>
     (\<forall>i e. dget (q_events s) i = Some e \<longrightarrow> dget (q_events t) i = Some e) \<and>
     (\<forall>i a. dget (q_artifacts s) i = Some a \<longrightarrow> dget (q_artifacts t) i = Some a) \<and>
     (\<forall>k v. dget (q_idempotency s) k = Some v \<longrightarrow> dget (q_idempotency t) k = Some v) \<and>
     q_next_cursor s \<le> q_next_cursor t"

lemma repo_evolves_refl [simp]: "repo_evolves s s"
  by (simp add: repo_evolves_def)

lemma repo_evolves_runD:
  "repo_evolves s t \<Longrightarrow> dget (q_runs s) i = Some r \<Longrightarrow> \<exists>r'. dget (q_runs t) i = Some r' \<and> run_evolves r r'"
  by (simp add: repo_evolves_def)

lemma repo_evolves_attemptD:
  "repo_evolves s t \<Longrightarrow> dget (q_attempts s) i = Some a \<Longrightarrow>
     \<exists>a'. dget (q_attempts t) i = Some a' \<and> attempt_evolves a a'"
  by (simp add: repo_evolves_def)

lemma repo_evolves_trans:
  assumes "repo_evolves s t" "repo_evolves t u"
  shows "repo_evolves s u"
proof -
  have "\<exists>r'. dget (q_runs u) i = Some r' \<and> run_evolves r r'" if "dget (q_runs s) i = Some r" for i r
  proof -
    from that assms(1) obtain r' where "dget (q_runs t) i = Some r'" "run_evolves r r'"
      by (auto dest: repo_evolves_runD)
    with assms(2) show ?thesis by (auto dest!: repo_evolves_runD intro: run_evolves_trans)
  qed
  moreover have "\<exists>a'. dget (q_attempts u) i = Some a' \<and> attempt_evolves a a'"
    if "dget (q_attempts s) i = Some a" for i a
  proof -
    from that assms(1) obtain a' where "dget (q_attempts t) i = Some a'" "attempt_evolves a a'"
      by (auto dest: repo_evolves_attemptD)
    with assms(2) show ?thesis by (auto dest!: repo_evolves_attemptD intro: attempt_evolves_trans)
  qed
  ultimately show ?thesis
    using assms unfolding repo_evolves_def by (elim conjE, intro conjI) (blast, blast, blast, blast, blast, linarith)
qed

lemma set_run_evolves: "dget (q_runs s) i = Some r \<Longrightarrow> run_evolves r r' \<Longrightarrow> repo_evolves s (set_run i r' s)"
  by (auto simp: repo_evolves_def dget_dset)

lemma new_run_evolves: "dget (q_runs s) i = None \<Longrightarrow> repo_evolves s (set_run i r' s)"
  by (auto simp: repo_evolves_def dget_dset)

lemma set_attempt_evolves:
  "dget (q_attempts s) i = Some a \<Longrightarrow> attempt_evolves a a' \<Longrightarrow> repo_evolves s (set_attempt i a' s)"
  by (auto simp: repo_evolves_def dget_dset)

lemma new_attempt_evolves: "dget (q_attempts s) i = None \<Longrightarrow> repo_evolves s (set_attempt i a' s)"
  by (auto simp: repo_evolves_def dget_dset)

lemma save_request_evolves: "saved_request k s = None \<Longrightarrow> repo_evolves s (save_request k fp i s)"
  by (auto simp: repo_evolves_def save_request_def saved_request_def dget_dset split: option.split)

lemma create_evolves:
  assumes "dget (q_runs s) i = None" "saved_request k s = None"
  shows "repo_evolves s (save_request k fp i (set_run i r s))"
proof -
  have "saved_request k (set_run i r s) = None"
    using assms(2) by (cases k) (auto simp: saved_request_def split: if_splits)
  then show ?thesis
    using new_run_evolves [OF assms(1)] save_request_evolves repo_evolves_trans by blast
qed

lemma store_event_evolves: "dget (q_events s) (ev_event_id e) = None \<Longrightarrow> repo_evolves s (store_event e s)"
  by (auto simp: repo_evolves_def dget_dset)

section \<open>The lease reaper\<close>

lemma fail_run_of_unfold:
  "fail_run_of a tick s =
     (case dget (q_runs s) (at_run_id a) of
        None \<Rightarrow> (Inl KeyError, s)
      | Some r \<Rightarrow>
          if rr_state r \<in> set RUN_TERMINAL then (Inr (), s)
          else (case run_with_state r R_INFRA_ERROR tick of
            Inl e \<Rightarrow> (Inl e, s) | Inr r' \<Rightarrow> (Inr (), set_run (rr_id r) r' s)))"
  by (simp add: fail_run_of_def bind_def split: option.split sum.split)

lemma fail_run_of_keeps:
  assumes "repo_inv s" "fail_run_of a tick s = (v, t)"
  shows "repo_inv t \<and> repo_evolves s t \<and> q_attempts t = q_attempts s"
proof (cases "\<exists>r r'. dget (q_runs s) (at_run_id a) = Some r \<and> rr_state r \<notin> set RUN_TERMINAL \<and>
    run_with_state r R_INFRA_ERROR tick = Inr r'")
  case True
  then obtain r r' where r: "dget (q_runs s) (at_run_id a) = Some r" "rr_state r \<notin> set RUN_TERMINAL"
    "run_with_state r R_INFRA_ERROR tick = Inr r'" by blast
  with assms have "rr_id r = at_run_id a" "t = set_run (at_run_id a) r' s"
    by (auto simp: fail_run_of_unfold dest: repo_inv_runD)
  moreover have "rr_id r' = rr_id r" "rr_engine r' = rr_engine r"
    using r(3) by (auto simp: run_with_state_Inr)
  ultimately show ?thesis
    using assms(1) r by (auto intro: repo_inv_set_run set_run_evolves run_with_state_evolves)
next
  case False
  with assms show ?thesis
    by (auto simp: fail_run_of_unfold split: option.splits if_splits sum.splits)
qed

text \<open>
  The loop works on a snapshot: each entry not yet visited is still the stored attempt, because
  the visited keys differ from the ones to come.
\<close>

definition snapshot_of :: "RunRepo \<Rightarrow> (uuid \<times> AttemptRecord) list \<Rightarrow> bool" where
  "snapshot_of s xs \<longleftrightarrow> distinct (map fst xs) \<and> (\<forall>(i, a) \<in> set xs. dget (q_attempts s) i = Some a)"

lemma snapshot_of_tl: "snapshot_of s (x # xs) \<Longrightarrow> snapshot_of s xs"
  by (simp add: snapshot_of_def)

lemma snapshot_of_other:
  "snapshot_of s ((i, a) # xs) \<Longrightarrow> q_attempts t = dset i a' (q_attempts s) \<Longrightarrow> snapshot_of t xs"
  by (force simp: snapshot_of_def dget_dset)

lemma set_lost_keeps:
  assumes inv: "repo_inv s" and a: "dget (q_attempts s) i = Some a" and lost: "attempt_lost a c t = Inr a'"
  shows "repo_inv (set_attempt i a' s) \<and> repo_evolves s (set_attempt i a' s)"
proof
  have "repo_inv (snd (update_attempt i (\<lambda>a. attempt_lost a c t) s))"
    using inv by (rule repo_inv_update_attempt) simp
  then show "repo_inv (set_attempt i a' s)" by (simp add: update_attempt_unfold a lost)
  show "repo_evolves s (set_attempt i a' s)"
    using a lost by (blast intro: set_attempt_evolves attempt_step_evolves)
qed

lemma expire_loop_keeps:
  "repo_inv s \<Longrightarrow> snapshot_of s xs \<Longrightarrow> expire_loop c tick n xs acc s = (v, t) \<Longrightarrow>
     repo_inv t \<and> repo_evolves s t"
proof (induction c tick n xs acc arbitrary: s rule: expire_loop.induct)
  case (1 c tick n acc)
  then show ?case by auto
next
  case (2 c tick n i a rest acc)
  have a: "dget (q_attempts s) i = Some a" using "2.prems"(2) by (simp add: snapshot_of_def)
  show ?case
  proof (cases "lease_live a c")
    case True
    with "2.IH"(1) [OF True "2.prems"(1)] "2.prems" snapshot_of_tl show ?thesis by auto
  next
    case live: False
    show ?thesis
    proof (cases "attempt_lost a c (tick n)")
      case (Inl e)
      with "2.prems" live show ?thesis by (simp add: bind_def)
    next
      case (Inr a')
      let ?s = "set_attempt i a' s"
      obtain w u where f: "fail_run_of a (tick (n + 1)) ?s = (w, u)" by fastforce
      have s: "repo_inv ?s" "repo_evolves s ?s"
        using set_lost_keeps [OF "2.prems"(1) a Inr] by auto
      then have u: "repo_inv u" "repo_evolves s u" "q_attempts u = dset i a' (q_attempts s)"
        using fail_run_of_keeps [OF s(1) f] repo_evolves_trans by auto
      show ?thesis
      proof (cases w)
        case (Inl e)
        with "2.prems" live Inr f u show ?thesis by (simp add: bind_def)
      next
        case r: (Inr x)
        have "snapshot_of u rest" using snapshot_of_other [OF "2.prems"(2) u(3)] .
        moreover have "expire_loop c tick (n + 2) rest (acc @ [a']) u = (v, t)"
          using "2.prems"(3) live Inr f r by (simp add: bind_def)
        ultimately show ?thesis
          using "2.IH"(2) [OF live u(1)] u(2) repo_evolves_trans by blast
      qed
    qed
  qed
qed

lemma expire_attempt_leases_keeps:
  assumes "repo_inv s"
  shows "repo_inv (snd (expire_attempt_leases now clock tick s))"
    and "repo_evolves s (snd (expire_attempt_leases now clock tick s))"
proof -
  have "snapshot_of s (q_attempts s)"
    using assms by (auto simp: snapshot_of_def repo_inv_def attempts_ok_def wf_dict_def)
  then show "repo_inv (snd (expire_attempt_leases now clock tick s))"
    and "repo_evolves s (snd (expire_attempt_leases now clock tick s))"
    using expire_loop_keeps [OF assms] unfolding expire_attempt_leases_def Let_def bind_def
    by (metis (no_types, lifting) old.sum.simps(6) prod.case prod.collapse reads_apply)+
qed

text \<open>
  When no attempt to be reaped belongs to a run that was never queued, the reaper succeeds:
  every attempt it names is \<open>LOST\<close>, the run of each is in a terminal state, and no attempt
  with an expired lease is left.
\<close>

definition reapable :: "RunRepo \<Rightarrow> time \<Rightarrow> bool" where
  "reapable s cutoff \<longleftrightarrow> (\<forall>i a r. dget (q_attempts s) i = Some a \<longrightarrow> \<not> lease_live a cutoff \<longrightarrow>
     dget (q_runs s) (at_run_id a) = Some r \<longrightarrow> rr_state r \<noteq> R_CREATED)"

lemma infra_error_reachable:
  "rr_state r \<notin> set RUN_TERMINAL \<Longrightarrow> rr_state r \<noteq> R_CREATED \<Longrightarrow>
     run_with_state r R_INFRA_ERROR now =
       Inr (r\<lparr>rr_state := R_INFRA_ERROR, rr_updated_at := now, rr_state_version := rr_state_version r + 1\<rparr>)"
  by (cases "rr_state r") (auto simp: run_with_state_Inr transition_run_def table_simps)

lemma fail_run_of_succeeds:
  assumes inv: "repo_inv s" and r: "dget (q_runs s) (at_run_id a) = Some r" "rr_state r \<noteq> R_CREATED"
  shows "\<exists>t r'. fail_run_of a tick s = (Inr (), t) \<and> dget (q_runs t) (at_run_id a) = Some r' \<and>
     rr_state r' \<in> set RUN_TERMINAL \<and> (\<forall>j. j \<noteq> at_run_id a \<longrightarrow> dget (q_runs t) j = dget (q_runs s) j)"
proof (cases "rr_state r \<in> set RUN_TERMINAL")
  case True
  with r show ?thesis by (auto simp: fail_run_of_unfold)
next
  case False
  with r inv show ?thesis
    by (auto simp: fail_run_of_unfold infra_error_reachable dget_dset RUN_TERMINAL_def dest: repo_inv_runD)
qed

lemma lost_not_leased: "attempt_lost a c t = Inr a' \<Longrightarrow> lease_live a' d"
  by (auto simp: attempt_lost_Inr lease_live_def table_simps)

lemma expired_is_leased: "\<not> lease_live a c \<Longrightarrow> at_state a \<in> set ATTEMPT_LEASED"
  by (auto simp: lease_live_def)

lemma expire_loop_succeeds:
  assumes "repo_inv s" "snapshot_of s xs"
    and "\<forall>(i, a) \<in> set xs. \<not> lease_live a c \<longrightarrow>
      (\<forall>r. dget (q_runs s) (at_run_id a) = Some r \<longrightarrow> rr_state r \<noteq> R_CREATED)"
  shows "\<exists>out t. expire_loop c tick n xs acc s = (Inr (acc @ out), t) \<and>
     map at_id out = map fst (filter (\<lambda>(i, a). \<not> lease_live a c) xs) \<and>
     (\<forall>(i, a) \<in> set xs. \<not> lease_live a c \<longrightarrow>
        (\<exists>a' r'. dget (q_attempts t) i = Some a' \<and> at_state a' = A_LOST \<and>
           dget (q_runs t) (at_run_id a) = Some r' \<and> rr_state r' \<in> set RUN_TERMINAL)) \<and>
     (\<forall>j. j \<notin> fst ` set (filter (\<lambda>(i, a). \<not> lease_live a c) xs) \<longrightarrow>
        dget (q_attempts t) j = dget (q_attempts s) j)"
  using assms
proof (induction c tick n xs acc arbitrary: s rule: expire_loop.induct)
  case (1 c tick n acc)
  then show ?case by auto
next
  case (2 c tick n i a rest acc)
  have a: "dget (q_attempts s) i = Some a" using "2.prems"(2) by (simp add: snapshot_of_def)
  show ?case
  proof (cases "lease_live a c")
    case True
    with "2.IH"(1) [OF True "2.prems"(1) snapshot_of_tl [OF "2.prems"(2)]] "2.prems"(3)
    show ?thesis by auto
  next
    case live: False
    obtain a' where a': "attempt_lost a c (tick n) = Inr a'"
      using leased_can_be_lost [OF expired_is_leased [OF live]] by blast
    let ?s = "set_attempt i a' s"
    obtain r where r: "dget (q_runs s) (at_run_id a) = Some r" "rr_state r \<noteq> R_CREATED"
      using "2.prems"(1,3) a live by (auto dest: repo_inv_attemptD)
    have s: "repo_inv ?s" using set_lost_keeps [OF "2.prems"(1) a a'] by simp
    from fail_run_of_succeeds [OF s, of a r "tick (n + 1)"] r obtain u r' where
      u: "fail_run_of a (tick (n + 1)) ?s = (Inr (), u)" "dget (q_runs u) (at_run_id a) = Some r'"
        "rr_state r' \<in> set RUN_TERMINAL" "\<forall>j. j \<noteq> at_run_id a \<longrightarrow> dget (q_runs u) j = dget (q_runs s) j"
      by auto
    have inv: "repo_inv u" "q_attempts u = dset i a' (q_attempts s)"
      using fail_run_of_keeps [OF s u(1)] by auto
    have snap: "snapshot_of u rest" by (rule snapshot_of_other [OF "2.prems"(2) inv(2)])
    have "rr_state q \<noteq> R_CREATED"
      if "(j, b) \<in> set rest" "\<not> lease_live b c" "dget (q_runs u) (at_run_id b) = Some q" for j b q
      using that "2.prems"(3) u(2-4)
      by (cases "at_run_id b = at_run_id a") (auto simp: RUN_TERMINAL_def)
    then have "\<forall>(j, b) \<in> set rest. \<not> lease_live b c \<longrightarrow>
        (\<forall>r. dget (q_runs u) (at_run_id b) = Some r \<longrightarrow> rr_state r \<noteq> R_CREATED)"
      by blast
    from "2.IH"(2) [OF live inv(1) snap this, of a'] obtain out t where
      t: "expire_loop c tick (n + 2) rest (acc @ [a']) u = (Inr ((acc @ [a']) @ out), t)"
        "map at_id out = map fst (filter (\<lambda>(i, a). \<not> lease_live a c) rest)"
        "\<forall>(j, b) \<in> set rest. \<not> lease_live b c \<longrightarrow>
          (\<exists>a' r'. dget (q_attempts t) j = Some a' \<and> at_state a' = A_LOST \<and>
             dget (q_runs t) (at_run_id b) = Some r' \<and> rr_state r' \<in> set RUN_TERMINAL)"
        "\<forall>j. j \<notin> fst ` set (filter (\<lambda>(i, a). \<not> lease_live a c) rest) \<longrightarrow>
          dget (q_attempts t) j = dget (q_attempts u) j"
      by blast
    have "repo_evolves u t" using expire_loop_keeps [OF inv(1) snap t(1)] by simp
    then obtain r'' where "dget (q_runs t) (at_run_id a) = Some r''" "rr_state r'' \<in> set RUN_TERMINAL"
      using u(2,3) by (auto dest!: repo_evolves_runD dest: run_evolves_terminal)
    moreover have "i \<notin> fst ` set rest" using "2.prems"(2) by (simp add: snapshot_of_def)
    then have "dget (q_attempts t) i = Some a'" using t(4) inv(2) by auto
    moreover have "at_state a' = A_LOST" "at_id a' = i"
      using a' "2.prems"(1) a by (auto simp: attempt_lost_Inr dest: repo_inv_attemptD)
    moreover have "expire_loop c tick n ((i, a) # rest) acc s = (Inr (acc @ a' # out), t)"
      using live a' u(1) t(1) by (simp add: bind_def)
    ultimately show ?thesis
      using live t(2-4) inv(2) by (intro exI [of _ "a' # out"] exI [of _ t]) (auto simp: dget_dset)
  qed
qed

lemma expire_attempt_leases_succeeds:
  assumes inv: "repo_inv s" and ok: "reapable s (or_now now clock)"
  shows "\<exists>out t. expire_attempt_leases now clock tick s = (Inr out, t) \<and>
     (\<forall>i a. dget (q_attempts s) i = Some a \<longrightarrow> \<not> lease_live a (or_now now clock) \<longrightarrow>
        i \<in> set (map at_id out) \<and>
        (\<exists>a' r'. dget (q_attempts t) i = Some a' \<and> at_state a' = A_LOST \<and>
           dget (q_runs t) (at_run_id a) = Some r' \<and> rr_state r' \<in> set RUN_TERMINAL)) \<and>
     (\<forall>i a. dget (q_attempts t) i = Some a \<longrightarrow> lease_live a (or_now now clock))"
proof -
  let ?c = "or_now now clock" and ?xs = "q_attempts s"
  have wf: "wf_dict ?xs" using inv by (simp add: repo_inv_def attempts_ok_def)
  have snap: "snapshot_of s ?xs" using wf by (auto simp: snapshot_of_def wf_dict_def)
  have "\<forall>(i, a) \<in> set ?xs. \<not> lease_live a ?c \<longrightarrow>
      (\<forall>r. dget (q_runs s) (at_run_id a) = Some r \<longrightarrow> rr_state r \<noteq> R_CREATED)"
    using ok wf by (auto simp: reapable_def wf_dget_iff)
  from expire_loop_succeeds [OF inv snap this, of tick 0 "[]"] obtain out t where
    t: "expire_loop ?c tick 0 ?xs [] s = (Inr out, t)"
      "map at_id out = map fst (filter (\<lambda>(i, a). \<not> lease_live a ?c) ?xs)"
      "\<forall>(i, a) \<in> set ?xs. \<not> lease_live a ?c \<longrightarrow>
        (\<exists>a' r'. dget (q_attempts t) i = Some a' \<and> at_state a' = A_LOST \<and>
           dget (q_runs t) (at_run_id a) = Some r' \<and> rr_state r' \<in> set RUN_TERMINAL)"
      "\<forall>j. j \<notin> fst ` set (filter (\<lambda>(i, a). \<not> lease_live a ?c) ?xs) \<longrightarrow>
        dget (q_attempts t) j = dget (q_attempts s) j"
    by auto
  have "lease_live a ?c" if "dget (q_attempts t) i = Some a" for i a
  proof (cases "i \<in> fst ` set (filter (\<lambda>(i, a). \<not> lease_live a ?c) ?xs)")
    case True
    with t(3) that show ?thesis by (force simp: lease_live_def table_simps)
  next
    case False
    with t(4) that have "dget ?xs i = Some a" by simp
    with False show ?thesis using wf_dget_iff [OF wf] by force
  qed
  moreover have "i \<in> set (map at_id out)" if "dget ?xs i = Some a" "\<not> lease_live a ?c" for i a
    using that t(2) by (force dest: dget_in)
  ultimately show ?thesis
    using t(1,3) by (auto simp: expire_attempt_leases_def bind_def Let_def dest: dget_in)
qed

section \<open>Steps of the repository and reachable states\<close>

text \<open>
  One rule per method that writes; a step is the state the method leaves, also when it raises.
  The identifier given to a new run is one \<open>uuid4()\<close> has not returned before.
\<close>

inductive repo_step :: "RunRepo \<Rightarrow> RunRepo \<Rightarrow> bool" where
  step_create: "dget (q_runs s) fresh = None \<Longrightarrow>
     repo_step s (snd (create_or_get dumps sha256 eng ps key fresh now s))"
| step_transition: "repo_step s (snd (transition i target now s))"
| step_cancel: "repo_step s (snd (cancel i now s))"
| step_create_attempt: "repo_step s (snd (create_attempt i j fresh now s))"
| step_begin: "repo_step s (snd (begin_attempt i j runner lease t1 t2 t3 s))"
| step_transition_attempt: "repo_step s (snd (repo_transition_attempt i state now s))"
| step_claim: "repo_step s (snd (claim_attempt i runner lease given clock tick s))"
| step_renew: "repo_step s (snd (renew_attempt_lease i runner lease given clock s))"
| step_expire: "repo_step s (snd (expire_attempt_leases given clock ticks s))"
| step_complete: "repo_step s (snd (complete_attempt i state result now s))"
| step_event: "repo_step s (snd (append_event ev s))"
| step_artifact: "repo_step s (snd (create_artifact rec s))"

inductive repo_steps :: "RunRepo \<Rightarrow> RunRepo \<Rightarrow> bool" where
  steps_refl [simp, intro]: "repo_steps s s"
| steps_step: "repo_steps s t \<Longrightarrow> repo_step t u \<Longrightarrow> repo_steps s u"

lemma repo_steps_trans: "repo_steps s t \<Longrightarrow> repo_steps t u \<Longrightarrow> repo_steps s u"
  by (rotate_tac, induction rule: repo_steps.induct) (auto intro: repo_steps.steps_step)

lemma repo_step_inv: "repo_step s t \<Longrightarrow> repo_inv s \<Longrightarrow> repo_inv t"
  by (induction rule: repo_step.induct)
    (simp_all add: repo_inv_create_or_get repo_inv_transition repo_inv_cancel repo_inv_create_attempt
      repo_inv_begin_attempt repo_transition_attempt_def claim_attempt_def renew_attempt_lease_def
      complete_attempt_def Let_def repo_inv_update_attempt expire_attempt_leases_keeps
      repo_inv_append_event repo_inv_create_artifact)

lemma repo_steps_inv: "repo_steps s t \<Longrightarrow> repo_inv s \<Longrightarrow> repo_inv t"
  by (induction rule: repo_steps.induct) (auto dest: repo_step_inv)

lemma update_attempt_evolves:
  assumes "\<And>a a'. f a = Inr a' \<Longrightarrow> attempt_evolves a a'"
  shows "repo_evolves s (snd (update_attempt i f s))"
  using assms by (auto simp: update_attempt_unfold intro: set_attempt_evolves split: option.split sum.split)

lemma begin_attempt_evolves: "repo_evolves s (snd (begin_attempt i j w n t1 t2 t3 s))"
proof -
  have "repo_evolves s (set_attempt j a' (set_run i r' s))"
    if "dget (q_runs s) i = Some r" "dget (q_attempts s) j = None" "run_with_state r R_RUNNING t1 = Inr r'"
    for r r' a'
    using that
    by (auto intro: repo_evolves_trans [OF set_run_evolves new_attempt_evolves] run_with_state_evolves)
  then show ?thesis
    by (auto simp: begin_attempt_unfold split: option.split sum.split)
qed

lemma repo_step_evolves: "repo_step s t \<Longrightarrow> repo_inv s \<Longrightarrow> repo_evolves s t"
proof (induction rule: repo_step.induct)
  case (step_create s fresh dumps sha256 eng ps key now)
  then show ?case
    by (auto simp: create_or_get_unfold Let_def intro: create_evolves split: option.split sum.split)
next
  case (step_create_attempt s i j fresh now)
  then show ?case
    by (auto simp: create_attempt_unfold Let_def intro: new_attempt_evolves split: option.split)
next
  case (step_event s ev)
  then show ?case
    by (auto simp: append_event_unfold Let_def intro: store_event_evolves split: option.split)
next
  case (step_artifact s rec)
  then show ?case
    by (auto simp: create_artifact_unfold repo_evolves_def dget_dset split: option.split)
qed (auto simp: transition_unfold cancel_unfold begin_attempt_evolves repo_transition_attempt_def
      claim_attempt_def renew_attempt_lease_def complete_attempt_def Let_def
      expire_attempt_leases_keeps split: option.split sum.split
      intro!: update_attempt_evolves set_run_evolves
      intro: run_with_state_evolves attempt_step_evolves heartbeat_evolves)

lemma repo_steps_evolves: "repo_steps s t \<Longrightarrow> repo_inv s \<Longrightarrow> repo_evolves s t"
  by (induction rule: repo_steps.induct)
    (auto intro: repo_evolves_trans repo_step_evolves repo_steps_inv)

section \<open>The event log\<close>

text \<open>Later states extend the log at its end, with cursors the earlier state had not given out.\<close>

definition log_extends :: "RunRepo \<Rightarrow> RunRepo \<Rightarrow> bool" where
  "log_extends s t \<longleftrightarrow> (\<exists>more. q_events t = q_events s @ more \<and>
     (\<forall>p \<in> set more. q_next_cursor s \<le> ev_cursor (snd p))) \<and> q_next_cursor s \<le> q_next_cursor t"

lemma log_extends_refl [simp]: "log_extends s s"
  by (simp add: log_extends_def)

lemma log_extends_trans: "log_extends s t \<Longrightarrow> log_extends t u \<Longrightarrow> log_extends s u"
  unfolding log_extends_def by fastforce

lemma log_extends_same: "q_events t = q_events s \<Longrightarrow> q_next_cursor t = q_next_cursor s \<Longrightarrow> log_extends s t"
  by (simp add: log_extends_def)

lemma fail_run_of_log:
  "q_events (snd (fail_run_of a tick s)) = q_events s"
  "q_next_cursor (snd (fail_run_of a tick s)) = q_next_cursor s"
  by (auto simp: fail_run_of_unfold split: option.split sum.split)

lemma expire_loop_log:
  "q_events (snd (expire_loop c tick n xs acc s)) = q_events s \<and>
   q_next_cursor (snd (expire_loop c tick n xs acc s)) = q_next_cursor s"
proof (induction c tick n xs acc arbitrary: s rule: expire_loop.induct)
  case (2 c tick n i a rest acc)
  show ?case
  proof (cases "attempt_lost a c (tick n)")
    case (Inr a')
    show ?thesis
      using "2.IH" fail_run_of_log [of a "tick (n + 1)" "set_attempt i a' s"] Inr
      by (auto simp: bind_def split: prod.split sum.split)
  qed (use "2.IH" in \<open>auto simp: bind_def\<close>)
qed simp

lemma save_request_log [simp]:
  "q_events (save_request k fp i s) = q_events s" "q_next_cursor (save_request k fp i s) = q_next_cursor s"
  by (auto simp: save_request_def split: option.split)

lemma update_attempt_log [simp]:
  "q_events (snd (update_attempt i f s)) = q_events s"
  "q_next_cursor (snd (update_attempt i f s)) = q_next_cursor s"
  by (auto simp: update_attempt_unfold split: option.split sum.split)

lemma repo_step_log: "repo_step s t \<Longrightarrow> log_extends s t"
proof (induction rule: repo_step.induct)
  case (step_event s ev)
  then show ?case
    by (auto simp: append_event_unfold Let_def log_extends_def dset_new split: option.split)
next
  case (step_expire s given clock ticks)
  then show ?case
    using expire_loop_log by (auto simp: expire_attempt_leases_def bind_def Let_def intro!: log_extends_same)
qed (auto simp: create_or_get_unfold transition_unfold cancel_unfold create_attempt_unfold
      begin_attempt_unfold create_artifact_unfold repo_transition_attempt_def claim_attempt_def
      renew_attempt_lease_def complete_attempt_def Let_def split: option.split sum.split
      intro!: log_extends_same)

lemma repo_steps_log: "repo_steps s t \<Longrightarrow> log_extends s t"
  by (induction rule: repo_steps.induct) (auto intro: log_extends_trans repo_step_log)

text \<open>The log is kept in cursor order, so listing it needs no sorting and resumes without gaps.\<close>

definition log_after :: "RunRepo \<Rightarrow> uuid \<Rightarrow> int \<Rightarrow> EventRecord list" where
  "log_after s i n = filter (\<lambda>e. ev_run_id e = i \<and> ev_cursor e > n) (dvalues (q_events s))"

lemma strictly_sorted_sort_key: "sorted_wrt (<) (map f xs) \<Longrightarrow> sort_key f xs = (xs :: 'a list)"
  for f :: "'a \<Rightarrow> int"
  by (simp add: sort_key_id_if_sorted strict_sorted_imp_sorted)

lemma log_after_sorted: "repo_inv s \<Longrightarrow> sorted_wrt (<) (map ev_cursor (log_after s i n))"
  unfolding log_after_def repo_inv_def events_ok_def
  by (simp add: sorted_wrt_map sorted_wrt_filter comp_def)

lemma list_events_log:
  assumes "repo_inv s" "0 \<le> n" "dget (q_runs s) i = Some r"
  shows "list_events i n s = (Inr (log_after s i n), s)"
  using assms strictly_sorted_sort_key [OF log_after_sorted [OF assms(1), of i n]]
  by (simp add: list_events_def bind_def get_locked_def log_after_def)

definition next_cursor_after :: "EventRecord list \<Rightarrow> int \<Rightarrow> int" where
  "next_cursor_after es n = (if es = [] then n else ev_cursor (last es))"

lemma last_is_max:
  fixes f :: "'a \<Rightarrow> int"
  shows "sorted_wrt (<) (map f ys) \<Longrightarrow> y \<in> set ys \<Longrightarrow> f y \<le> f (last ys)"
  by (induction ys) (auto simp: less_imp_le)

lemma next_cursor_after_ge: "n \<le> next_cursor_after (log_after s i n) n"
proof (cases "log_after s i n = []")
  case False
  then have "last (log_after s i n) \<in> set (log_after s i n)" by simp
  then show ?thesis by (simp add: next_cursor_after_def log_after_def less_imp_le)
qed (simp add: next_cursor_after_def)

lemma log_resume:
  assumes inv: "repo_inv s" and ext: "log_extends s t"
  shows "log_after t i n = log_after s i n @ log_after t i (next_cursor_after (log_after s i n) n)"
proof -
  let ?c = "next_cursor_after (log_after s i n) n"
  from ext obtain more where more: "q_events t = q_events s @ more"
    "\<forall>p \<in> set more. q_next_cursor s \<le> ev_cursor (snd p)" by (auto simp: log_extends_def)
  have ev: "events_ok s" using inv by (simp add: repo_inv_def)
  have "ev_cursor e \<le> ?c" if "e \<in> set (dvalues (q_events s))" "ev_run_id e = i" for e
  proof (cases "n < ev_cursor e")
    case True
    with that have "e \<in> set (log_after s i n)" by (auto simp: log_after_def)
    with last_is_max [OF log_after_sorted [OF inv]] show ?thesis
      by (auto simp: next_cursor_after_def)
  qed (use next_cursor_after_ge [of n s i] in linarith)
  then have "filter (\<lambda>e. ev_run_id e = i \<and> ev_cursor e > ?c) (dvalues (q_events s)) = []"
    by (auto simp: filter_empty_conv not_less)
  moreover have "n < ev_cursor (snd p) \<longleftrightarrow> ?c < ev_cursor (snd p)" if "p \<in> set more" for p
  proof (cases "log_after s i n = []")
    case False
    then have "last (log_after s i n) \<in> set (log_after s i n)" by simp
    then have "?c < q_next_cursor s" "n < ?c"
      using False events_below_cursor [OF ev] by (auto simp: next_cursor_after_def log_after_def)
    with more(2) that show ?thesis by fastforce
  qed (simp add: next_cursor_after_def)
  then have "filter (\<lambda>e. ev_run_id e = i \<and> ev_cursor e > n) (dvalues more) =
      filter (\<lambda>e. ev_run_id e = i \<and> ev_cursor e > ?c) (dvalues more)"
    by (intro filter_cong) auto
  ultimately show ?thesis
    by (simp add: log_after_def more(1))
qed

section \<open>Requests and events can be replayed\<close>

lemma create_or_get_saves:
  assumes "repo_inv s" "dget (q_runs s) fresh = None"
    and "create_or_get dumps sha eng ps (Some k) fresh now s = (Inr (r, b), s')" "strip k \<noteq> []"
  shows "\<exists>fp. fingerprint dumps sha eng ps = Inr fp \<and>
     dget (q_idempotency s') (strip k) = Some (fp, rr_id r) \<and> dget (q_runs s') (rr_id r) = Some r"
proof -
  from assms(4) have k: "normalize_key (Some k) = Some (strip k)"
    by (auto simp: normalize_key_def strip_def)
  show ?thesis
    using assms unfolding create_or_get_unfold k
    by (auto simp: saved_request_def save_request_def new_run_def Let_def
        dest: repo_inv_runD split: sum.splits option.splits if_splits)
qed

lemma create_or_get_replays:
  assumes "fingerprint dumps sha eng ps = Inr fp" "strip k \<noteq> []"
    and "dget (q_idempotency s) (strip k) = Some (fp', i)" "dget (q_runs s) i = Some r"
  shows "create_or_get dumps sha eng ps (Some k) fresh now s =
     (if fp' = fp then Inr (r, True) else Inl IdempotencyConflict, s)"
proof -
  from assms(2) have k: "normalize_key (Some k) = Some (strip k)"
    by (auto simp: normalize_key_def strip_def)
  show ?thesis
    using assms unfolding create_or_get_unfold k by (simp add: saved_request_def)
qed

lemma append_event_stores:
  assumes "append_event ev s = (Inr e, s')"
  shows "\<exists>a r. dget (q_attempts s') (en_attempt_id ev) = Some a \<and> at_run_id a = en_run_id ev \<and>
     dget (q_runs s') (en_run_id ev) = Some r \<and> rr_engine r = en_engine ev \<and>
     dget (q_events s') (ee_event_id ev) = Some e \<and>
     (event_matches e ev \<or> e = event_record (q_next_cursor s) ev)"
  using assms by (auto simp: append_event_unfold Let_def split: option.splits if_splits)

lemma event_record_matches:
  assumes "wf_dict (ee_payload ev)" "list_all (\<lambda>(_, v). json_value v) (thaw_mapping (ee_payload ev))"
  shows "event_matches (event_record c ev) ev"
proof -
  have "wf_dict (thaw_mapping (ee_payload ev))"
    using assms(1) by (simp add: wf_dict_def thaw_mapping_def comp_def split_beta)
  then show ?thesis
    using assms(2) by (simp add: event_matches_def event_record_def params_eq_refl)
qed

lemma append_event_known:
  assumes "dget (q_attempts t) (en_attempt_id ev) = Some a" "at_run_id a = en_run_id ev"
    "dget (q_runs t) (en_run_id ev) = Some r" "rr_engine r = en_engine ev"
    "dget (q_events t) (ee_event_id ev) = Some e" "event_matches e ev"
  shows "append_event ev t = (Inr e, t)"
  using assms by (simp add: append_event_unfold)

lemma reachable_inv: "repo_steps empty_repo s \<Longrightarrow> repo_inv s"
  using repo_inv_empty by (rule repo_steps_inv [rotated])

lemma reachable_run_evolves:
  "repo_steps empty_repo s \<Longrightarrow> repo_steps s t \<Longrightarrow> dget (q_runs s) i = Some r \<Longrightarrow>
     \<exists>r'. dget (q_runs t) i = Some r' \<and> run_evolves r r'"
  by (rule repo_evolves_runD [OF repo_steps_evolves [OF _ reachable_inv]])

lemma reachable_attempt_evolves:
  "repo_steps empty_repo s \<Longrightarrow> repo_steps s t \<Longrightarrow> dget (q_attempts s) i = Some a \<Longrightarrow>
     \<exists>a'. dget (q_attempts t) i = Some a' \<and> attempt_evolves a a' \<and> at_state_version a' \<le> 5"
proof -
  assume *: "repo_steps empty_repo s" "repo_steps s t" "dget (q_attempts s) i = Some a"
  then obtain a' where a': "dget (q_attempts t) i = Some a'" "attempt_evolves a a'"
    using repo_evolves_attemptD [OF repo_steps_evolves [OF _ reachable_inv]] by blast
  have "repo_inv t" using * by (blast intro: repo_steps_inv reachable_inv)
  with a' repo_inv_attemptD attempt_rank_le [of "at_state a'"] show ?thesis by fastforce
qed

section \<open>A small execution for the witnesses\<close>

text \<open>One keyed run, queued, dispatched and claimed for thirty seconds, with one event, then reaped.\<close>

definition demo_created :: RunRepo where
  "demo_created = snd (create_or_get (\<lambda>_. Inr ''{}'') (\<lambda>s. s) E_PYTEST [] (Some ''key'') 1 0 empty_repo)"

definition demo_leased :: RunRepo where
  "demo_leased = snd (begin_attempt 1 2 ''runner'' 30 0 0 0
     (snd (transition 1 R_DISPATCHING 0 (snd (transition 1 R_QUEUED 0 demo_created)))))"

definition demo_event :: EventEnvelope where
  "demo_event = \<lparr>en_run_id = 1, en_attempt_id = 2, en_engine = E_PYTEST, ee_event_id = 5, ee_seq = 0,
     ee_occurred_at = 1, ee_type = EV_STARTED, ee_payload = [(''n'', PInt 3)]\<rparr>"

definition demo_logged :: RunRepo where
  "demo_logged = snd (append_event demo_event demo_leased)"

definition demo_reaped :: RunRepo where
  "demo_reaped = snd (expire_attempt_leases (Some 60000000) 0 (\<lambda>_. 0) demo_logged)"

lemma demo_reach_created: "repo_steps empty_repo demo_created"
  unfolding demo_created_def
  by (rule steps_step [OF steps_refl]) (rule step_create, simp add: empty_repo_def)

lemma demo_reach_leased: "repo_steps empty_repo demo_leased"
  unfolding demo_leased_def
  by (rule steps_step [OF steps_step [OF steps_step [OF demo_reach_created step_transition]
        step_transition] step_begin])

lemma demo_reach_logged: "repo_steps empty_repo demo_logged"
  unfolding demo_logged_def by (rule steps_step [OF demo_reach_leased step_event])

lemma demo_steps_reaped: "repo_steps demo_logged demo_reaped"
  unfolding demo_reaped_def by (rule steps_step [OF steps_refl step_expire])

lemma demo_reach_reaped: "repo_steps empty_repo demo_reaped"
  unfolding demo_reaped_def by (rule steps_step [OF demo_reach_logged step_expire])

lemma demo_values:
  "map_option rr_state (dget (q_runs demo_logged) 1) = Some R_RUNNING"
  "map_option at_state (dget (q_attempts demo_logged) 2) = Some A_CLAIMED"
  "map_option rr_state (dget (q_runs demo_reaped) 1) = Some R_INFRA_ERROR"
  "map_option at_state (dget (q_attempts demo_reaped) 2) = Some A_LOST"
  by code_simp+

section \<open>Properties\<close>

text \<open>C1. Every state the in-memory repository can reach is well formed: records are stored
  under their own identifiers, attempts, events, artifacts and idempotency entries refer to
  existing runs and attempts, the event log is in strictly increasing cursor order below the next
  cursor, and the sequence index has exactly one event per attempt and sequence number.\<close>

theorem reachable_repo_wellformed: "repo_steps empty_repo s \<Longrightarrow> repo_inv s"
  by (rule reachable_inv)

theorem reachable_repo_wellformed_witness: "repo_inv demo_reaped"
  by (rule reachable_repo_wellformed [OF demo_reach_reaped])

text \<open>C2. Whatever methods are called, in any order and with any outcome, a run follows the
  transition table: its later state is reached by a chain of accepted transitions, the version
  counts exactly these transitions, and engine and parameters never change.\<close>

theorem run_follows_table:
  assumes "repo_steps empty_repo s" "repo_steps s t" "dget (q_runs s) i = Some r"
  shows "\<exists>r' ts. dget (q_runs t) i = Some r' \<and> run_machine.history (rr_state r) ts \<and>
     rr_state r' = last (rr_state r # ts) \<and>
     rr_state_version r' = rr_state_version r + int (length ts) \<and>
     rr_engine r' = rr_engine r \<and> rr_parameters r' = rr_parameters r"
  using reachable_run_evolves [OF assms] by (auto simp: run_evolves_def)

theorem run_follows_table_witness:
  "\<exists>r r' ts. dget (q_runs demo_logged) 1 = Some r \<and> dget (q_runs demo_reaped) 1 = Some r' \<and>
     run_machine.history R_RUNNING ts \<and> rr_state r' = last (R_RUNNING # ts) \<and>
     rr_state_version r' = rr_state_version r + int (length ts)"
proof -
  obtain r where r: "dget (q_runs demo_logged) 1 = Some r" "rr_state r = R_RUNNING"
    using demo_values(1) by auto
  with run_follows_table [OF demo_reach_logged demo_steps_reaped r(1)] show ?thesis by auto
qed

text \<open>A run in a terminal state is final: no later call changes its state or version.\<close>

theorem terminal_run_is_final:
  assumes "repo_steps empty_repo s" "repo_steps s t" "dget (q_runs s) i = Some r"
    and "rr_state r \<in> set RUN_TERMINAL"
  shows "\<exists>r'. dget (q_runs t) i = Some r' \<and> rr_state r' = rr_state r \<and>
     rr_state_version r' = rr_state_version r"
  using reachable_run_evolves [OF assms(1-3)] assms(4)
  by (auto simp: run_evolves_def run_machine.terminal_history)

theorem terminal_run_is_final_witness:
  "\<exists>r'. dget (q_runs (snd (cancel 1 70000000 demo_reaped))) 1 = Some r' \<and> rr_state r' = R_INFRA_ERROR"
proof -
  obtain r where r: "dget (q_runs demo_reaped) 1 = Some r" "rr_state r = R_INFRA_ERROR"
    using demo_values(3) by auto
  have "rr_state r \<in> set RUN_TERMINAL" by (simp add: r(2) RUN_TERMINAL_def)
  from terminal_run_is_final [OF demo_reach_reaped steps_step [OF steps_refl step_cancel] r(1) this] r(2)
  show ?thesis by auto
qed



text \<open>C4. The lease reaper converges: when no expired attempt belongs to a run that was never
  queued, the reaper does not raise, reports every expired attempt, leaves each of them \<open>LOST\<close> with
  its run in a terminal state, and afterwards no stored attempt has an expired lease.\<close>

theorem reaper_converges:
  assumes "repo_steps empty_repo s" "reapable s (or_now now clock)"
  shows "\<exists>out t. expire_attempt_leases now clock tick s = (Inr out, t) \<and>
     (\<forall>i a. dget (q_attempts s) i = Some a \<longrightarrow> \<not> lease_live a (or_now now clock) \<longrightarrow>
        i \<in> set (map at_id out) \<and>
        (\<exists>a' r'. dget (q_attempts t) i = Some a' \<and> at_state a' = A_LOST \<and>
           dget (q_runs t) (at_run_id a) = Some r' \<and> rr_state r' \<in> set RUN_TERMINAL)) \<and>
     (\<forall>i a. dget (q_attempts t) i = Some a \<longrightarrow> lease_live a (or_now now clock))"
  using expire_attempt_leases_succeeds [OF repo_steps_inv [OF assms(1) repo_inv_empty] assms(2)] .

theorem reaper_converges_witness:
  "\<exists>out t a'. expire_attempt_leases (Some 60000000) 0 (\<lambda>_. 0) demo_logged = (Inr out, t) \<and>
     2 \<in> set (map at_id out) \<and> dget (q_attempts t) 2 = Some a' \<and> at_state a' = A_LOST"
proof -
  have ok: "reapable demo_logged (or_now (Some 60000000) 0)"
  proof -
    have "dvalues (q_runs demo_logged) = [r] \<Longrightarrow> rr_state r \<noteq> R_CREATED" for r
      using demo_values(1) by (cases "q_runs demo_logged") (auto split: if_splits)
    moreover have "length (q_runs demo_logged) = 1" by code_simp
    ultimately show ?thesis
      by (auto simp: reapable_def length_Suc_conv dest!: dget_value)
  qed
  obtain a where a: "dget (q_attempts demo_logged) 2 = Some a" "\<not> lease_live a 60000000"
  proof -
    have "map_option (\<lambda>a. lease_live a 60000000) (dget (q_attempts demo_logged) 2) = Some False"
      by code_simp
    then show ?thesis using that by auto
  qed
  from reaper_converges [OF demo_reach_logged ok, of "\<lambda>_. 0"] a show ?thesis
    by (fastforce simp: or_now_def)
qed

text \<open>C5. Creating a run is idempotent per key: once a request has been answered, the same key
  with the same engine and parameters returns that run, in whatever state it is by then, without
  changing the repository; with another fingerprint it raises \<open>IdempotencyConflict\<close>.\<close>

theorem create_is_idempotent:
  assumes "repo_steps empty_repo s" "dget (q_runs s) fresh = None" "strip k \<noteq> []"
    and "create_or_get dumps sha eng ps (Some k) fresh now s = (Inr (r, b), s')"
    and "repo_steps s' t" "fingerprint dumps sha eng' ps' = Inr fp'"
  shows "\<exists>r'. rr_id r' = rr_id r \<and> run_evolves r r' \<and>
     create_or_get dumps sha eng' ps' (Some k) fresh' now' t =
       (if fingerprint dumps sha eng ps = Inr fp' then Inr (r', True) else Inl IdempotencyConflict, t)"
proof -
  have inv: "repo_inv s" by (rule repo_steps_inv [OF assms(1) repo_inv_empty])
  obtain fp where fp: "fingerprint dumps sha eng ps = Inr fp"
    "dget (q_idempotency s') (strip k) = Some (fp, rr_id r)" "dget (q_runs s') (rr_id r) = Some r"
    using create_or_get_saves [OF inv assms(2,4,3)] by blast
  have "repo_inv s'" using repo_inv_create_or_get [OF inv assms(2)] assms(4) by (metis snd_conv)
  then have ev: "repo_evolves s' t" by (rule repo_steps_evolves [OF assms(5)])
  then obtain r' where r': "dget (q_runs t) (rr_id r) = Some r'" "run_evolves r r'"
    using fp(3) repo_evolves_runD by blast
  have "dget (q_idempotency t) (strip k) = Some (fp, rr_id r)"
    using ev fp(2) by (simp add: repo_evolves_def)
  from create_or_get_replays [OF assms(6,3) this r'(1)] fp(1) r'(2) show ?thesis
    by (intro exI [of _ r']) (auto simp: run_evolves_def)
qed

theorem create_is_idempotent_witness:
  "\<exists>r'. rr_id r' = 1 \<and>
     create_or_get (\<lambda>_. Inr ''{}'') (\<lambda>s. s) E_PYTEST [] (Some ''key'') 9 9 demo_created = (Inr (r', True), demo_created)"
proof -
  have strip: "strip ''key'' \<noteq> []" by code_simp
  have fresh: "dget (q_runs empty_repo) 1 = None" by (simp add: empty_repo_def)
  obtain r where c: "create_or_get (\<lambda>_. Inr ''{}'') (\<lambda>s. s) E_PYTEST [] (Some ''key'') 1 0 empty_repo =
      (Inr (r, False), demo_created)" "rr_id r = 1"
    by (simp add: demo_created_def create_or_get_unfold saved_request_def normalize_key_def empty_repo_def
        fingerprint_def Let_def new_run_def strip)
  have fp: "fingerprint (\<lambda>_. Inr ''{}'') (\<lambda>s. s) E_PYTEST [] = Inr ''{}''"
    by (simp add: fingerprint_def)
  from create_is_idempotent [OF steps_refl fresh strip c(1) steps_refl fp] fp c(2) show ?thesis by auto
qed

text \<open>Delivering an event again is harmless: after it was stored, the same envelope returns
  the stored record, with its first cursor, and leaves the repository unchanged.\<close>

theorem event_replay_is_harmless:
  assumes "repo_steps empty_repo s" "append_event ev s = (Inr e, s')" "repo_steps s' t"
    and "wf_dict (ee_payload ev)" "list_all (\<lambda>(_, v). json_value v) (thaw_mapping (ee_payload ev))"
  shows "append_event ev t = (Inr e, t)"
proof -
  have "repo_inv s'"
    using repo_inv_append_event [OF repo_steps_inv [OF assms(1) repo_inv_empty], of ev] assms(2) by simp
  then have ev: "repo_evolves s' t" by (rule repo_steps_evolves [OF assms(3)])
  obtain a r where "dget (q_attempts s') (en_attempt_id ev) = Some a" "at_run_id a = en_run_id ev"
    "dget (q_runs s') (en_run_id ev) = Some r" "rr_engine r = en_engine ev"
    and e: "dget (q_events s') (ee_event_id ev) = Some e"
      "event_matches e ev \<or> e = event_record (q_next_cursor s) ev"
    using append_event_stores [OF assms(2)] by blast
  with repo_evolves_attemptD [OF ev] repo_evolves_runD [OF ev]
  obtain a' r' where "dget (q_attempts t) (en_attempt_id ev) = Some a'" "at_run_id a' = en_run_id ev"
    "dget (q_runs t) (en_run_id ev) = Some r'" "rr_engine r' = en_engine ev"
    by (fastforce simp: attempt_evolves_def run_evolves_def)
  moreover have "dget (q_events t) (ee_event_id ev) = Some e"
    using ev e(1) by (simp add: repo_evolves_def)
  moreover have "event_matches e ev" using e(2) event_record_matches [OF assms(4,5)] by auto
  ultimately show ?thesis by (blast intro: append_event_known)
qed

theorem event_replay_is_harmless_witness:
  "\<exists>e. append_event demo_event demo_reaped = (Inr e, demo_reaped) \<and> ev_cursor e = 1"
proof -
  have "q_next_cursor demo_leased = 1" "dget (q_attempts demo_leased) 2 \<noteq> None"
    "map_option at_run_id (dget (q_attempts demo_leased) 2) = Some 1"
    "map_option rr_engine (dget (q_runs demo_leased) 1) = Some E_PYTEST"
    "q_events demo_leased = []" "q_event_sequences demo_leased = []"
    by code_simp+
  then have st: "append_event demo_event demo_leased = (Inr (event_record 1 demo_event), demo_logged)"
    by (auto simp: demo_logged_def append_event_unfold Let_def demo_event_def split: option.split)
  have "wf_dict (ee_payload demo_event)"
    "list_all (\<lambda>(_, v). json_value v) (thaw_mapping (ee_payload demo_event))"
    by (simp_all add: demo_event_def wf_dict_def thaw_mapping_def)
  from event_replay_is_harmless [OF demo_reach_leased st demo_steps_reaped this] show ?thesis by auto
qed

text \<open>A client that lists events and later resumes from the last cursor it saw misses nothing
  and sees nothing twice: the pages concatenate to the whole log, in strictly increasing cursor
  order.\<close>

theorem events_resume_without_gaps:
  assumes "repo_steps empty_repo s" "repo_steps s t" "0 \<le> n"
    and "list_events i n s = (Inr page, s)"
  shows "\<exists>rest. list_events i (next_cursor_after page n) t = (Inr rest, t) \<and>
     list_events i n t = (Inr (page @ rest), t) \<and> sorted_wrt (<) (map ev_cursor (page @ rest))"
proof -
  have inv: "repo_inv s" by (rule repo_steps_inv [OF assms(1) repo_inv_empty])
  have inv': "repo_inv t" by (rule repo_steps_inv [OF assms(2) inv])
  obtain r where r: "dget (q_runs s) i = Some r"
    using assms(3,4) by (auto simp: list_events_def bind_def get_locked_def split: option.splits)
  with repo_steps_evolves [OF assms(2) inv] obtain r' where r': "dget (q_runs t) i = Some r'"
    by (blast dest: repo_evolves_runD)
  have page: "page = log_after s i n" using assms(4) list_events_log [OF inv assms(3) r] by simp
  have "0 \<le> next_cursor_after page n" using assms(3) next_cursor_after_ge [of n s i] page by simp
  from list_events_log [OF inv' this r'] list_events_log [OF inv' assms(3) r']
  show ?thesis
    using log_resume [OF inv repo_steps_log [OF assms(2)], of i n] log_after_sorted [OF inv', of i n] page
    by simp
qed

theorem events_resume_without_gaps_witness:
  "\<exists>page rest. list_events 1 0 demo_leased = (Inr page, demo_leased) \<and>
     list_events 1 (next_cursor_after page 0) demo_logged = (Inr rest, demo_logged) \<and>
     list_events 1 0 demo_logged = (Inr (page @ rest), demo_logged)"
proof -
  have steps: "repo_steps demo_leased demo_logged"
    unfolding demo_logged_def by (rule steps_step [OF steps_refl step_event])
  have "dget (q_runs demo_leased) 1 \<noteq> None" by code_simp
  then obtain page where page: "list_events 1 0 demo_leased = (Inr page, demo_leased)"
    using list_events_log [OF reachable_inv [OF demo_reach_leased]] by fastforce
  from events_resume_without_gaps [OF demo_reach_leased steps _ page] page show ?thesis by auto
qed

end
