(* ===== verification/Retry_Decision.thy ===== *)
theory Retry_Decision
  imports Protocol
begin

text \<open>
  The retry decision of \<^verbatim>\<open>services/retry_policy.py\<close>. \<open>str_of\<close> stands for \<open>str(value)\<close> on a
  value that is not a string; it only matters for a request whose method is not a string.
\<close>

record RetryDecision =
  rd_should_retry :: bool
  rd_delay_seconds :: int
  rd_reason :: string

fun outcome_value :: "ResultOutcome \<Rightarrow> string" where
  "outcome_value O_SUCCEEDED = ''succeeded''"
| "outcome_value O_FAILED = ''failed''"
| "outcome_value O_CANCELLED = ''cancelled''"
| "outcome_value O_TIMED_OUT = ''timed_out''"
| "outcome_value O_INFRA_ERROR = ''infra_error''"

definition no_retry :: "string \<Rightarrow> RetryDecision" where
  "no_retry reason = \<lparr>rd_should_retry = False, rd_delay_seconds = 0, rd_reason = reason\<rparr>"

definition request_method :: "(pyval \<Rightarrow> string) \<Rightarrow> pyval \<Rightarrow> string" where
  "request_method str_of request = (case map_items request of
     None \<Rightarrow> []
   | Some d \<Rightarrow> upper (py_str str_of
       (case dget d (PStr ''method'') of None \<Rightarrow> PStr ''GET'' | Some m \<Rightarrow> m)))"

definition as_mapping :: "params \<Rightarrow> pyval" where
  "as_mapping d = PFrozen (map (\<lambda>(k, v). (PStr k, v)) d)"

definition task_requests :: "TaskEnvelope \<Rightarrow> pyval list" where
  "task_requests task =
     (case dget (tk_parameters task) ''request'' of None \<Rightarrow> PDict [] | Some r \<Rightarrow> r) #
     map (\<lambda>step. as_mapping (hs_request step)) (xp_before_steps (tk_execution_policy task)) @
     map (\<lambda>step. as_mapping (hs_request step)) (xp_after_steps (tk_execution_policy task))"

definition IDEMPOTENT_METHODS :: "string list" where
  "IDEMPOTENT_METHODS = [''GET'', ''HEAD'', ''OPTIONS'', ''TRACE'', ''PUT'', ''DELETE'']"

definition decide_retry ::
  "(pyval \<Rightarrow> string) \<Rightarrow> TaskEnvelope \<Rightarrow> ResultEnvelope \<Rightarrow> int \<Rightarrow> RetryDecision" where
  "decide_retry str_of task result attempt_number =
     (let policy = xp_retry (tk_execution_policy task) in
      if attempt_number \<ge> rp_max_attempts policy then no_retry ''max_attempts_reached''
      else if rs_outcome result \<notin> set (rp_retry_on policy) then no_retry ''outcome_not_retryable''
      else if en_engine task = E_HTTP \<and> \<not> rp_allow_non_idempotent_http policy \<and>
              \<not> set (map (request_method str_of) (task_requests task)) \<subseteq> set IDEMPOTENT_METHODS
        then no_retry ''non_idempotent_http''
      else
        let exponent = max 0 (attempt_number - 1);
            delay = min (rp_backoff_seconds policy * 2 ^ nat exponent) (rp_max_backoff_seconds policy)
        in \<lparr>rd_should_retry = True, rd_delay_seconds = delay,
            rd_reason = ''retryable_'' @ outcome_value (rs_outcome result)\<rparr>)"

lemma no_retry_fields [simp]:
  "rd_should_retry (no_retry r) = False" "rd_delay_seconds (no_retry r) = 0"
  by (simp_all add: no_retry_def)

lemma decide_retry_shouldD:
  assumes "rd_should_retry (decide_retry str_of task result n)"
  shows "n < rp_max_attempts (xp_retry (tk_execution_policy task))"
    and "rs_outcome result \<in> set (rp_retry_on (xp_retry (tk_execution_policy task)))"
    and "en_engine task = E_HTTP \<Longrightarrow>
      \<not> rp_allow_non_idempotent_http (xp_retry (tk_execution_policy task)) \<Longrightarrow>
      \<forall>q \<in> set (task_requests task). request_method str_of q \<in> set IDEMPOTENT_METHODS"
  using assms by (auto simp: decide_retry_def Let_def split: if_splits)

lemma decide_retry_delay:
  "rd_should_retry (decide_retry str_of task result n) \<Longrightarrow>
     rd_delay_seconds (decide_retry str_of task result n) =
       min (rp_backoff_seconds (xp_retry (tk_execution_policy task)) * 2 ^ nat (max 0 (n - 1)))
           (rp_max_backoff_seconds (xp_retry (tk_execution_policy task)))"
  by (auto simp: decide_retry_def Let_def split: if_splits)

lemma backoff_mono:
  assumes "0 \<le> (b :: int)" "m \<le> (n :: int)"
  shows "min (b * 2 ^ nat (max 0 (m - 1))) c \<le> min (b * 2 ^ nat (max 0 (n - 1))) c"
proof -
  have "(2 :: int) ^ nat (max 0 (m - 1)) \<le> 2 ^ nat (max 0 (n - 1))"
    using assms(2) by (intro power_increasing) auto
  then have "b * 2 ^ nat (max 0 (m - 1)) \<le> b * 2 ^ nat (max 0 (n - 1))"
    using assms(1) by (intro mult_left_mono)
  then show ?thesis by linarith
qed

section \<open>Properties\<close>


text \<open>Under a validated policy the back-off of a granted retry is never negative, never above
  the configured cap and never above ten minutes, it does not shrink from one attempt to the next,
  and a successful or cancelled result is never retried.\<close>

theorem retry_backoff_bounds:
  assumes "validate_RetryPolicy p = Inr p" "xp_retry (tk_execution_policy task) = p"
    and "rd_should_retry (decide_retry str_of task result n)"
    and "m \<le> n" "rd_should_retry (decide_retry str_of task result m)"
  shows "0 \<le> rd_delay_seconds (decide_retry str_of task result n) \<and>
     rd_delay_seconds (decide_retry str_of task result n) \<le> rp_max_backoff_seconds p \<and>
     rd_delay_seconds (decide_retry str_of task result n) \<le> 600 \<and>
     rs_outcome result \<noteq> O_SUCCEEDED \<and> rs_outcome result \<noteq> O_CANCELLED \<and>
     rd_delay_seconds (decide_retry str_of task result m) \<le>
       rd_delay_seconds (decide_retry str_of task result n)"
proof -
  have wf: "wf_retry (xp_retry (tk_execution_policy task))"
    using assms(1,2) validate_RetryPolicy_wf by blast
  have "rs_outcome result \<in> set (rp_retry_on (xp_retry (tk_execution_policy task)))"
    by (rule decide_retry_shouldD(2) [OF assms(3)])
  with wf have "rs_outcome result \<noteq> O_SUCCEEDED" "rs_outcome result \<noteq> O_CANCELLED"
    by (auto simp: wf_retry_def)
  with wf backoff_mono [OF _ assms(4)] show ?thesis
    by (simp add: decide_retry_delay [OF assms(3)] decide_retry_delay [OF assms(5)] wf_retry_def
        min.coboundedI2 flip: assms(2))
qed

definition demo_retry :: RetryPolicy where
  "demo_retry = \<lparr>rp_max_attempts = 4, rp_retry_on = [O_TIMED_OUT], rp_backoff_seconds = 100,
     rp_max_backoff_seconds = 300, rp_allow_non_idempotent_http = False\<rparr>"

definition demo_retry_task :: TaskEnvelope where
  "demo_retry_task = \<lparr>en_run_id = 1, en_attempt_id = 2, en_engine = E_PYTEST, tk_task_id = 3,
     tk_tenant_id = 4, tk_project_id = 5, tk_idempotency_key = ''k'', tk_created_at = 0, tk_deadline = 9,
     tk_entrypoint = ''t.py'', tk_parameters = [], tk_run_spec_id = None, tk_source_ref = None,
     tk_content_digest = None, tk_environment_variables = [], tk_environment_id = None,
     tk_environment_revision = None, tk_secret_references = [],
     tk_execution_policy = default_policy\<lparr>xp_retry := demo_retry\<rparr>\<rparr>"

definition demo_result :: "ResultOutcome \<Rightarrow> ResultEnvelope" where
  "demo_result x = \<lparr>en_run_id = 1, en_attempt_id = 2, en_engine = E_PYTEST, rs_outcome = x,
     rs_completed_at = 7, rs_duration_ms = 1, rs_summary = []\<rparr>"

theorem retry_backoff_bounds_witness:
  "rd_should_retry (decide_retry (\<lambda>_. []) demo_retry_task (demo_result O_TIMED_OUT) 3) \<and>
   rd_delay_seconds (decide_retry (\<lambda>_. []) demo_retry_task (demo_result O_TIMED_OUT) 3) \<le> 300"
proof -
  have p: "validate_RetryPolicy demo_retry = Inr demo_retry"
    by (simp add: validate_RetryPolicy_def demo_retry_def)
  have x: "xp_retry (tk_execution_policy demo_retry_task) = demo_retry"
    by (simp add: demo_retry_task_def)
  have d: "rd_should_retry (decide_retry (\<lambda>_. []) demo_retry_task (demo_result O_TIMED_OUT) n)"
    if "n \<in> {1, 3}" for n
    using that by (auto simp: decide_retry_def demo_retry_task_def demo_retry_def demo_result_def Let_def)
  from retry_backoff_bounds [OF p x d [of 3] _ d [of 1]] d [of 3] show ?thesis
    by (simp add: demo_retry_def)
qed

end
