(* ===== verification/Runner_Manager.thy ===== *)
theory Runner_Manager
  imports Run_Repo_Facts Retry_Decision
begin

text \<open>
  The runner manager of \<^verbatim>\<open>services/runner_manager.py\<close>: it validates a task, claims an attempt,
  runs an executor that delivers events, and records the outcome.

  The executor is any terminating program that delivers events one after the other, may see and
  handle the exception a delivery raised, and ends by returning a result or raising: a tree.
  The manager calls the repository one locked method at a time, and other threads may call it in
  between: \<open>sch_env n\<close> is what they do before the \<open>n\<close>-th call, \<open>sch_clock n\<close> gives the
  clock readings of that call. The artifact collector, the retry scheduler and the completion
  callback are the manager's constructor arguments.
\<close>

section \<open>State and environment\<close>

datatype exec_tree =
    Finish ResultEnvelope
  | Crash exn
  | Emit EventEnvelope "exn option \<Rightarrow> exec_tree"

record Sched =
  sch_env :: "nat \<Rightarrow> RunRepo \<Rightarrow> RunRepo"
  sch_clock :: "nat \<Rightarrow> nat \<Rightarrow> time"

record Manager =
  mg_runner_id :: string
  mg_lease_seconds :: int
  mg_collector :: "(TaskEnvelope \<Rightarrow> EventEnvelope \<Rightarrow> (RunRepo, EventEnvelope) pyop) option"
  mg_scheduler :: "(uuid \<Rightarrow> int \<Rightarrow> unit res) option"
  mg_callback :: "(uuid \<Rightarrow> (RunRepo, unit) pyop) option"

text \<open>\<open>ms_scheduled\<close> and \<open>ms_notified\<close> record the calls made to the scheduler and the callback.\<close>

record MState =
  ms_repo :: RunRepo
  ms_calls :: nat
  ms_scheduled :: "(uuid \<times> int) list"
  ms_notified :: "uuid list"

definition call :: "Sched \<Rightarrow> ((nat \<Rightarrow> time) \<Rightarrow> (RunRepo, 'a) pyop) \<Rightarrow> (MState, 'a) pyop" where
  "call sch f s =
     (let n = ms_calls s; (v, repo) = f (sch_clock sch n) (sch_env sch n (ms_repo s))
      in (v, s\<lparr>ms_repo := repo, ms_calls := Suc n\<rparr>))"

definition clock_now :: "Sched \<Rightarrow> (MState, time) pyop" where
  "clock_now sch = reads (\<lambda>s. sch_clock sch (ms_calls s) 0)"

section \<open>Checks and synthetic results\<close>

definition same_identity :: "TaskEnvelope \<Rightarrow> 'a Envelope_scheme \<Rightarrow> bool" where
  "same_identity task e \<longleftrightarrow> en_run_id e = en_run_id task \<and> en_attempt_id e = en_attempt_id task \<and>
     en_engine e = en_engine task"

definition validate_event :: "TaskEnvelope \<Rightarrow> EventEnvelope \<Rightarrow> unit res" where
  "validate_event task event = guard (\<not> same_identity task event) RunnerIdentityError"

definition validate_result :: "TaskEnvelope \<Rightarrow> ResultEnvelope \<Rightarrow> unit res" where
  "validate_result task result = guard (\<not> same_identity task result) RunnerIdentityError"

text \<open>\<open>type(exc).__name__\<close> is an argument: exception classes are named by the program's modules.\<close>

definition infra_result :: "(exn \<Rightarrow> string) \<Rightarrow> TaskEnvelope \<Rightarrow> exn \<Rightarrow> time \<Rightarrow> ResultEnvelope" where
  "infra_result exn_name task e now =
     \<lparr>en_run_id = en_run_id task, en_attempt_id = en_attempt_id task, en_engine = en_engine task,
      rs_outcome = O_INFRA_ERROR, rs_completed_at = now, rs_duration_ms = 0,
      rs_summary = [(''error_type'', PStr (exn_name e))]\<rparr>"

definition cancelled_result :: "TaskEnvelope \<Rightarrow> ResultEnvelope \<Rightarrow> ResultEnvelope" where
  "cancelled_result task original =
     \<lparr>en_run_id = en_run_id task, en_attempt_id = en_attempt_id task, en_engine = en_engine task,
      rs_outcome = O_CANCELLED, rs_completed_at = rs_completed_at original,
      rs_duration_ms = rs_duration_ms original,
      rs_summary = dset ''cancel_requested'' (PBool True) (rs_summary original)\<rparr>"

definition lost_result :: "TaskEnvelope \<Rightarrow> time \<Rightarrow> ResultEnvelope" where
  "lost_result task now =
     \<lparr>en_run_id = en_run_id task, en_attempt_id = en_attempt_id task, en_engine = en_engine task,
      rs_outcome = O_INFRA_ERROR, rs_completed_at = now, rs_duration_ms = 0,
      rs_summary = lease_expired_summary\<rparr>"

fun result_states :: "ResultOutcome \<Rightarrow> AttemptState \<times> RunState" where
  "result_states O_SUCCEEDED = (A_SUCCEEDED, R_SUCCEEDED)"
| "result_states O_FAILED = (A_FAILED, R_FAILED)"
| "result_states O_CANCELLED = (A_CANCELLED, R_CANCELLED)"
| "result_states O_TIMED_OUT = (A_TIMED_OUT, R_TIMED_OUT)"
| "result_states O_INFRA_ERROR = (A_INFRA_ERROR, R_INFRA_ERROR)"

section \<open>Delivering events\<close>

definition collect_event ::
  "Manager \<Rightarrow> Sched \<Rightarrow> TaskEnvelope \<Rightarrow> EventEnvelope \<Rightarrow> (MState, EventEnvelope) pyop" where
  "collect_event mg sch task event =
     (if ee_type event = EV_ARTIFACT \<or> ee_type event = EV_SCREENSHOT
      then (case mg_collector mg of
          None \<Rightarrow> raise RunnerIdentityError
        | Some collect \<Rightarrow> call sch (\<lambda>_. collect task event))
      else ret event)"

definition persist_event ::
  "Manager \<Rightarrow> Sched \<Rightarrow> TaskEnvelope \<Rightarrow> EventEnvelope \<Rightarrow> (MState, unit) pyop" where
  "persist_event mg sch task event =
     bind (lift (validate_event task event)) (\<lambda>_.
     bind (collect_event mg sch task event) (\<lambda>event.
     bind (if ee_type event = EV_HEARTBEAT
           then bind (call sch (\<lambda>clk. renew_attempt_lease (en_attempt_id task) (mg_runner_id mg)
                                  (mg_lease_seconds mg) None (clk 0))) (\<lambda>_. ret ())
           else ret ()) (\<lambda>_.
     bind (call sch (\<lambda>_. append_event event)) (\<lambda>_.
     ret ()))))"

primrec run_tree :: "(EventEnvelope \<Rightarrow> (MState, unit) pyop) \<Rightarrow> exec_tree \<Rightarrow> (MState, ResultEnvelope) pyop" where
  "run_tree sink (Finish r) = ret r"
| "run_tree sink (Crash e) = raise e"
| "run_tree sink (Emit ev k) = (\<lambda>s. case sink ev s of
     (Inl e, s') \<Rightarrow> run_tree sink (k (Some e)) s'
   | (Inr _, s') \<Rightarrow> run_tree sink (k None) s')"

text \<open>The guarded call of the executor: its result, and the identity error to raise in the end.\<close>

definition run_executor ::
  "(exn \<Rightarrow> string) \<Rightarrow> Manager \<Rightarrow> Sched \<Rightarrow> exec_tree \<Rightarrow> TaskEnvelope \<Rightarrow>
   (MState, ResultEnvelope \<times> exn option) pyop" where
  "run_executor exn_name mg sch tree task =
     catch
       (bind (run_tree (persist_event mg sch task) tree) (\<lambda>result.
        bind (lift (validate_result task result)) (\<lambda>_.
        ret (result, None))))
       (\<lambda>e. bind (clock_now sch) (\<lambda>now.
        ret (infra_result exn_name task e now,
             if e = RunnerIdentityError then Some RunnerIdentityError else None)))"

section \<open>The life of a task\<close>

definition notify_completion :: "Manager \<Rightarrow> Sched \<Rightarrow> uuid \<Rightarrow> (MState, unit) pyop" where
  "notify_completion mg sch run_id =
     (case mg_callback mg of
        None \<Rightarrow> ret ()
      | Some callback \<Rightarrow>
          bind (writes (\<lambda>s. s\<lparr>ms_notified := ms_notified s @ [run_id]\<rparr>)) (\<lambda>_.
          catch (call sch (\<lambda>_. callback run_id)) (\<lambda>_. ret ())))"

definition claim_task :: "Manager \<Rightarrow> Sched \<Rightarrow> TaskEnvelope \<Rightarrow> (MState, unit) pyop" where
  "claim_task mg sch task =
     bind (call sch (\<lambda>_. get (en_run_id task))) (\<lambda>run.
     if rr_engine run \<noteq> en_engine task then raise RunnerIdentityError
     else if rr_state run \<noteq> R_DISPATCHING then raise RunnerIdentityError
     else
       bind (catch
         (call sch (\<lambda>clk. begin_attempt (en_run_id task) (en_attempt_id task) (mg_runner_id mg)
                      (mg_lease_seconds mg) (clk 0) (clk 1) (clk 2)))
         (\<lambda>e. if e = InvalidTransition then raise RunnerIdentityError else raise e)) (\<lambda>(_, attempt).
       if at_id attempt \<noteq> en_attempt_id task \<or> at_run_id attempt \<noteq> en_run_id task
       then raise RunnerIdentityError
       else
         bind (call sch (\<lambda>clk. repo_transition_attempt (en_attempt_id task) A_PREPARING (clk 0))) (\<lambda>_.
         bind (call sch (\<lambda>clk. repo_transition_attempt (en_attempt_id task) A_RUNNING (clk 0))) (\<lambda>_.
         ret ()))))"

definition honour_cancel :: "Sched \<Rightarrow> TaskEnvelope \<Rightarrow> ResultEnvelope \<Rightarrow> (MState, ResultEnvelope) pyop" where
  "honour_cancel sch task result =
     (if rs_outcome result = O_SUCCEEDED
      then bind (call sch (\<lambda>_. get (en_run_id task))) (\<lambda>run.
        ret (if rr_state run = R_CANCELLING then cancelled_result task result else result))
      else ret result)"

text \<open>Recording the result of the attempt; \<open>False\<close> when the attempt was lost meanwhile.\<close>

definition record_attempt :: "Sched \<Rightarrow> TaskEnvelope \<Rightarrow> ResultEnvelope \<Rightarrow> (MState, bool) pyop" where
  "record_attempt sch task result =
     catch
       (bind (call sch (\<lambda>clk. repo_transition_attempt (en_attempt_id task) A_COLLECTING (clk 0))) (\<lambda>_.
        bind (call sch (\<lambda>clk. complete_attempt (en_attempt_id task)
                                (fst (result_states (rs_outcome result))) result (clk 0))) (\<lambda>_.
        ret True)))
       (\<lambda>e. if e = InvalidTransition
            then bind (call sch (\<lambda>_. get_attempt (en_attempt_id task))) (\<lambda>attempt.
              if at_state attempt = A_LOST then ret False else raise e)
            else raise e)"

definition schedule_retry :: "Manager \<Rightarrow> Sched \<Rightarrow> TaskEnvelope \<Rightarrow> int \<Rightarrow> (MState, unit) pyop" where
  "schedule_retry mg sch task delay =
     (case mg_scheduler mg of
        None \<Rightarrow>
          bind (call sch (\<lambda>clk. transition (en_run_id task) R_INFRA_ERROR (clk 0))) (\<lambda>_.
          notify_completion mg sch (en_run_id task))
      | Some schedule \<Rightarrow>
          bind (call sch (\<lambda>clk. transition (en_run_id task) R_RETRY_WAIT (clk 0))) (\<lambda>_.
          bind (writes (\<lambda>s. s\<lparr>ms_scheduled := ms_scheduled s @ [(en_run_id task, delay)]\<rparr>)) (\<lambda>_.
          case schedule (en_run_id task) delay of
            Inr _ \<Rightarrow> ret ()
          | Inl _ \<Rightarrow>
              bind (call sch (\<lambda>clk. transition (en_run_id task) R_INFRA_ERROR (clk 0))) (\<lambda>_.
              notify_completion mg sch (en_run_id task)))))"

definition finish_run :: "Manager \<Rightarrow> Sched \<Rightarrow> TaskEnvelope \<Rightarrow> RunState \<Rightarrow> (MState, unit) pyop" where
  "finish_run mg sch task run_state =
     bind (if run_state = R_CANCELLED
           then bind (call sch (\<lambda>_. get (en_run_id task))) (\<lambda>current.
             if rr_state current \<noteq> R_CANCELLING
             then bind (call sch (\<lambda>clk. transition (en_run_id task) R_CANCELLING (clk 0))) (\<lambda>_. ret ())
             else ret ())
           else ret ()) (\<lambda>_.
     bind (call sch (\<lambda>clk. transition (en_run_id task) run_state (clk 0))) (\<lambda>_.
     notify_completion mg sch (en_run_id task)))"

definition settle ::
  "(pyval \<Rightarrow> string) \<Rightarrow> Manager \<Rightarrow> Sched \<Rightarrow> TaskEnvelope \<Rightarrow> ResultEnvelope \<Rightarrow> exn option \<Rightarrow>
   (MState, ResultEnvelope) pyop" where
  "settle str_of mg sch task result identity_error =
     bind (call sch (\<lambda>_. list_attempts (en_run_id task))) (\<lambda>attempts.
     let decision = decide_retry str_of task result (int (length attempts)) in
     if rd_should_retry decision
     then bind (schedule_retry mg sch task (rd_delay_seconds decision)) (\<lambda>_. ret result)
     else
       bind (finish_run mg sch task (snd (result_states (rs_outcome result)))) (\<lambda>_.
       case identity_error of Some e \<Rightarrow> raise e | None \<Rightarrow> ret result))"

definition conclude_task ::
  "(pyval \<Rightarrow> string) \<Rightarrow> Manager \<Rightarrow> Sched \<Rightarrow> TaskEnvelope \<Rightarrow> ResultEnvelope \<Rightarrow> exn option \<Rightarrow>
   (MState, ResultEnvelope) pyop" where
  "conclude_task str_of mg sch task result identity_error =
     bind (honour_cancel sch task result) (\<lambda>result.
     bind (call sch (\<lambda>_. get_attempt (en_attempt_id task))) (\<lambda>current_attempt.
     if at_state current_attempt = A_LOST
     then bind (clock_now sch) (\<lambda>now. ret (lost_result task now))
     else
       bind (record_attempt sch task result) (\<lambda>recorded.
       if \<not> recorded then bind (clock_now sch) (\<lambda>now. ret (lost_result task now))
       else settle str_of mg sch task result identity_error)))"

definition execute ::
  "(exn \<Rightarrow> string) \<Rightarrow> (pyval \<Rightarrow> string) \<Rightarrow> Manager \<Rightarrow> Sched \<Rightarrow> (TaskEnvelope \<Rightarrow> exec_tree) \<Rightarrow>
   TaskEnvelope \<Rightarrow> (MState, ResultEnvelope) pyop" where
  "execute exn_name str_of mg sch executor task =
     bind (claim_task mg sch task) (\<lambda>_.
     bind (run_executor exn_name mg sch (executor task) task) (\<lambda>(result, identity_error).
     conclude_task str_of mg sch task result identity_error))"

end
