(* ===== verification/Runner_Facts.thy ===== *)
theory Runner_Facts
  imports Runner_Manager
begin

text \<open>
  Properties of the runner manager. Every operation of the manager keeps the predicate \<open>descends\<close>
  (only repository steps were taken), by the \<open>keeps\<close> rules; a task that nobody interferes with is
  followed through its points (claimed, running, recorded, settled) by the \<open>yields\<close> rules, a total
  correctness logic for operations that must not raise.
\<close>

section \<open>The manager only takes repository steps\<close>

definition repo_op :: "(RunRepo, 'a) pyop \<Rightarrow> bool" where
  "repo_op m \<longleftrightarrow> (\<forall>r. repo_inv r \<longrightarrow> repo_steps r (snd (m r)))"

definition fair_env :: "Sched \<Rightarrow> bool" where
  "fair_env sch \<longleftrightarrow> (\<forall>n r. repo_inv r \<longrightarrow> repo_steps r (sch_env sch n r))"

definition fair_manager :: "Manager \<Rightarrow> bool" where
  "fair_manager mg \<longleftrightarrow>
     (\<forall>f task ev. mg_collector mg = Some f \<longrightarrow> repo_op (f task ev)) \<and>
     (\<forall>f i. mg_callback mg = Some f \<longrightarrow> repo_op (f i))"

lemma repo_op_step: "(\<And>r. repo_step r (snd (m r))) \<Longrightarrow> repo_op m"
  unfolding repo_op_def by (blast intro: steps_refl steps_step)

lemma repo_op_pure: "(\<And>r. snd (m r) = r) \<Longrightarrow> repo_op m"
  by (simp add: repo_op_def)

lemma snd_list_attempts [simp]: "snd (list_attempts i r) = r"
  by (auto simp: list_attempts_def bind_def get_locked_def split: option.split)

lemma snd_get [simp]: "snd (get i r) = r" "snd (get_attempt i r) = r"
  by (simp_all add: get_def get_attempt_def)

lemmas repo_op_intros =
  repo_op_step [OF step_transition] repo_op_step [OF step_begin]
  repo_op_step [OF step_transition_attempt] repo_op_step [OF step_renew]
  repo_op_step [OF step_complete] repo_op_step [OF step_event]
  repo_op_pure [OF snd_get(1)] repo_op_pure [OF snd_get(2)] repo_op_pure [OF snd_list_attempts]

definition descends :: "RunRepo \<Rightarrow> MState \<Rightarrow> bool" where
  "descends r0 s \<longleftrightarrow> repo_steps r0 (ms_repo s) \<and> repo_inv (ms_repo s)"

lemma keeps_call:
  assumes "fair_env sch" "\<And>clk. repo_op (f clk)"
  shows "keeps (descends r0) (call sch f)"
proof (rule keepsI)
  fix s assume *: "descends r0 s"
  with assms(1) have env: "repo_steps r0 (sch_env sch (ms_calls s) (ms_repo s))" "repo_inv (sch_env sch (ms_calls s) (ms_repo s))"
    by (auto simp: fair_env_def descends_def intro: repo_steps_trans repo_steps_inv)
  then have "repo_steps (sch_env sch (ms_calls s) (ms_repo s)) (snd (f clk (sch_env sch (ms_calls s) (ms_repo s))))" for clk
    using assms(2) by (simp add: repo_op_def)
  with env have "repo_steps r0 (snd (f clk (sch_env sch (ms_calls s) (ms_repo s))))"
    "repo_inv (snd (f clk (sch_env sch (ms_calls s) (ms_repo s))))" for clk
    by (blast intro: repo_steps_trans repo_steps_inv)+
  then show "descends r0 (snd (call sch f s))"
    by (simp add: call_def descends_def Let_def case_prod_beta)
qed

lemma keeps_run_tree:
  assumes "\<And>ev. keeps P (sink ev)"
  shows "keeps P (run_tree sink tree)"
proof (induction tree)
  case (Emit ev k)
  show ?case
  proof (rule keepsI)
    fix s assume "P s"
    with assms have *: "P (snd (sink ev s))" by (rule keepsD)
    have "keeps P (run_tree sink (k y))" for y using Emit by blast
    then show "P (snd (run_tree sink (Emit ev k) s))"
      using * by (auto simp: keeps_def split: prod.split sum.split)
  qed
qed (simp_all add: keeps_def)


lemmas descends_rules = keeps_rules keeps_call repo_op_intros keeps_writes keeps_sum keeps_run_tree

lemma fair_parts:
  "fair_manager mg \<Longrightarrow> mg_collector mg = Some f \<Longrightarrow> repo_op (f task ev)"
  "fair_manager mg \<Longrightarrow> mg_callback mg = Some g \<Longrightarrow> repo_op (g i)"
  by (auto simp: fair_manager_def)

lemma keeps_persist_event:
  assumes "fair_env sch" "fair_manager mg"
  shows "keeps (descends r0) (persist_event mg sch task ev)"
proof -
  have "keeps (descends r0) (collect_event mg sch task ev)"
  proof (cases "mg_collector mg")
    case (Some f)
    show ?thesis
      unfolding collect_event_def Some option.case
      by (intro descends_rules assms(1) fair_parts(1) [OF assms(2) Some])
  qed (simp add: collect_event_def keeps_raise keeps_ret)
  then show ?thesis
    unfolding persist_event_def by (intro descends_rules assms(1))
qed

lemma keeps_notify:
  assumes "fair_env sch" "fair_manager mg"
  shows "keeps (descends r0) (notify_completion mg sch i)"
proof (cases "mg_callback mg")
  case (Some f)
  show ?thesis
    unfolding notify_completion_def Some option.case
    by (intro descends_rules assms(1) fair_parts(2) [OF assms(2) Some] | simp add: descends_def)+
qed (simp add: notify_completion_def keeps_ret)

lemma keeps_settle:
  assumes "fair_env sch" "fair_manager mg"
  shows "keeps (descends r0) (settle str_of mg sch task result ie)"
  unfolding settle_def schedule_retry_def finish_run_def Let_def
  by (intro descends_rules assms keeps_notify | simp add: descends_def)+

lemma keeps_conclude:
  assumes "fair_env sch" "fair_manager mg"
  shows "keeps (descends r0) (conclude_task str_of mg sch task result ie)"
  unfolding conclude_task_def honour_cancel_def clock_now_def record_attempt_def
  by (intro descends_rules assms keeps_settle)+

lemma keeps_execute:
  assumes "fair_env sch" "fair_manager mg"
  shows "keeps (descends r0) (execute exn_name str_of mg sch executor task)"
  unfolding execute_def claim_task_def run_executor_def clock_now_def
  by (intro descends_rules assms keeps_persist_event keeps_conclude)+


section \<open>A task that nobody interferes with completes\<close>

text \<open>The run and the attempt of the task are in the given states.\<close>

definition at_point :: "TaskEnvelope \<Rightarrow> RunState \<Rightarrow> AttemptState \<Rightarrow> MState \<Rightarrow> bool" where
  "at_point task rst ast s \<longleftrightarrow> repo_inv (ms_repo s) \<and>
     map_option rr_state (dget (q_runs (ms_repo s)) (en_run_id task)) = Some rst \<and>
     map_option (\<lambda>a. (at_state a, at_run_id a)) (dget (q_attempts (ms_repo s)) (en_attempt_id task)) =
       Some (ast, en_run_id task)"

definition quiet :: "Sched \<Rightarrow> bool" where
  "quiet sch \<longleftrightarrow> (\<forall>n r. sch_env sch n r = r)"

lemma quiet_call:
  "quiet sch \<Longrightarrow> call sch f s =
     (let (v, r) = f (sch_clock sch (ms_calls s)) (ms_repo s)
      in (v, s\<lparr>ms_repo := r, ms_calls := Suc (ms_calls s)\<rparr>))"
  by (simp add: call_def quiet_def Let_def)

lemma yields_call:
  assumes "quiet sch"
    and "\<And>clk r s. P s \<Longrightarrow> ms_repo s = r \<Longrightarrow> \<exists>x r'. f clk r = (Inr x, r') \<and>
           (\<forall>n. Q x (s\<lparr>ms_repo := r', ms_calls := n\<rparr>))"
  shows "yields P (call sch f) Q"
proof (rule yieldsI)
  fix s assume "P s"
  with assms(2) [OF this refl, of "sch_clock sch (ms_calls s)"]
  show "\<exists>x t. call sch f s = (Inr x, t) \<and> Q x t"
    by (auto simp: quiet_call [OF assms(1)] Let_def)
qed

lemma point_transition:
  assumes "quiet sch" "transition_run rst target = Inr target"
  shows "yields (at_point task rst ast) (call sch (\<lambda>clk. transition (en_run_id task) target (clk 0)))
     (\<lambda>_. at_point task target ast)"
proof (rule yields_call [OF assms(1)])
  fix clk r s assume *: "at_point task rst ast s" "ms_repo s = r"
  have "repo_inv (snd (transition (en_run_id task) target (clk 0) r))"
    using * by (auto simp: at_point_def intro: repo_inv_transition)
  with * assms(2) show "\<exists>x r'. transition (en_run_id task) target (clk 0) r = (Inr x, r') \<and>
      (\<forall>n. at_point task target ast (s\<lparr>ms_repo := r', ms_calls := n\<rparr>))"
    by (auto simp: at_point_def transition_unfold run_with_state_def)
qed

lemma point_transition_attempt:
  assumes "quiet sch" "transition_attempt ast target = Inr target"
  shows "yields (at_point task rst ast)
     (call sch (\<lambda>clk. repo_transition_attempt (en_attempt_id task) target (clk 0)))
     (\<lambda>_. at_point task rst target)"
proof (rule yields_call [OF assms(1)])
  fix clk r s assume *: "at_point task rst ast s" "ms_repo s = r"
  then obtain a where a: "dget (q_attempts r) (en_attempt_id task) = Some a" "at_state a = ast"
    "at_run_id a = en_run_id task" by (auto simp: at_point_def)
  have "repo_inv (snd (repo_transition_attempt (en_attempt_id task) target (clk 0) r))"
    using * by (auto simp: at_point_def intro: repo_step_inv step_transition_attempt)
  with * a assms(2) show "\<exists>x r'. repo_transition_attempt (en_attempt_id task) target (clk 0) r = (Inr x, r') \<and>
      (\<forall>n. at_point task rst target (s\<lparr>ms_repo := r', ms_calls := n\<rparr>))"
    by (auto simp: at_point_def repo_transition_attempt_def update_attempt_unfold attempt_with_state_def)
qed

lemma point_complete:
  assumes "quiet sch" "transition_attempt ast target = Inr target"
    and "en_run_id result = en_run_id task" "en_attempt_id result = en_attempt_id task"
  shows "yields (at_point task rst ast)
     (call sch (\<lambda>clk. complete_attempt (en_attempt_id task) target result (clk 0)))
     (\<lambda>_. at_point task rst target)"
proof (rule yields_call [OF assms(1)])
  fix clk r s assume *: "at_point task rst ast s" "ms_repo s = r"
  then obtain a where a: "dget (q_attempts r) (en_attempt_id task) = Some a" "at_state a = ast"
    "at_run_id a = en_run_id task" "at_id a = en_attempt_id task"
    using repo_inv_attemptD by (auto simp: at_point_def)
  have "repo_inv (snd (complete_attempt (en_attempt_id task) target result (clk 0) r))"
    using * by (auto simp: at_point_def intro: repo_step_inv step_complete)
  with * a assms(2-) show "\<exists>x r'. complete_attempt (en_attempt_id task) target result (clk 0) r = (Inr x, r') \<and>
      (\<forall>n. at_point task rst target (s\<lparr>ms_repo := r', ms_calls := n\<rparr>))"
    by (auto simp: at_point_def complete_attempt_def update_attempt_unfold attempt_with_result_def)
qed

lemma point_get:
  assumes "quiet sch"
  shows "yields (at_point task rst ast) (call sch (\<lambda>_. get (en_run_id task)))
     (\<lambda>r s. rr_state r = rst \<and> at_point task rst ast s)"
    "yields (at_point task rst ast) (call sch (\<lambda>_. get_attempt (en_attempt_id task)))
     (\<lambda>a s. at_state a = ast \<and> at_point task rst ast s)"
    "yields (at_point task rst ast) (call sch (\<lambda>_. list_attempts (en_run_id task)))
     (\<lambda>_. at_point task rst ast)"
  by (rule yields_call [OF assms],
      force simp: at_point_def get_def get_attempt_def get_locked_def get_attempt_locked_def
        list_attempts_def bind_def)+

text \<open>The collector of \<^verbatim>\<open>services/artifacts.py\<close> writes artifacts only.\<close>

definition collects_only :: "Manager \<Rightarrow> bool" where
  "collects_only mg \<longleftrightarrow> (\<forall>f task ev r. mg_collector mg = Some f \<longrightarrow>
     q_runs (snd (f task ev r)) = q_runs r \<and> q_attempts (snd (f task ev r)) = q_attempts r)"

lemma call_keeps_point:
  assumes "quiet sch"
    and "\<And>clk r. repo_inv r \<Longrightarrow> repo_inv (snd (f clk r)) \<and> q_runs (snd (f clk r)) = q_runs r \<and>
      (\<forall>a. dget (q_attempts r) (en_attempt_id task) = Some a \<longrightarrow>
        map_option (\<lambda>a. (at_state a, at_run_id a)) (dget (q_attempts (snd (f clk r))) (en_attempt_id task)) =
          Some (at_state a, at_run_id a))"
  shows "keeps (at_point task rst ast) (call sch f)"
proof (rule keepsI)
  fix s assume "at_point task rst ast s"
  then show "at_point task rst ast (snd (call sch f s))"
    using assms(2) [of "ms_repo s" "sch_clock sch (ms_calls s)"]
    by (auto simp: at_point_def quiet_call [OF assms(1)] Let_def case_prod_beta)
qed

lemma heartbeat_state: "attempt_with_heartbeat a w n now = Inr a' \<Longrightarrow>
    at_state a' = at_state a \<and> at_run_id a' = at_run_id a"
  by (auto simp: attempt_with_heartbeat_Inr)

lemma append_event_frame [simp]:
  "q_runs (snd (append_event ev r)) = q_runs r" "q_attempts (snd (append_event ev r)) = q_attempts r"
  by (auto simp: append_event_unfold Let_def split: option.split)

lemma persist_keeps_point:
  assumes "quiet sch" "fair_manager mg" "collects_only mg"
  shows "keeps (at_point task rst ast) (persist_event mg sch task ev)"
proof -
  have collect: "keeps (at_point task rst ast) (collect_event mg sch task ev)"
  proof (cases "mg_collector mg")
    case (Some f)
    have "repo_inv r \<Longrightarrow> repo_inv (snd (f task ev r))" for r
      using fair_parts(1) [OF assms(2) Some] by (auto simp: repo_op_def intro: repo_steps_inv)
    moreover have "q_runs (snd (f task ev r)) = q_runs r \<and> q_attempts (snd (f task ev r)) = q_attempts r" for r
      using assms(3) Some by (simp add: collects_only_def)
    ultimately show ?thesis
      unfolding collect_event_def Some option.case
      by (intro keeps_if keeps_ret call_keeps_point [OF assms(1)]) simp
  qed (simp add: collect_event_def keeps_raise keeps_ret)
  let ?renew = "\<lambda>clk. renew_attempt_lease (en_attempt_id task) (mg_runner_id mg) (mg_lease_seconds mg) None (clk 0)"
  have renew: "keeps (at_point task rst ast) (call sch ?renew)"
  proof (rule call_keeps_point [OF assms(1)])
    fix clk :: "nat \<Rightarrow> time" and r :: RunRepo assume "repo_inv r"
    then have "repo_inv (snd (?renew clk r))"
      by (auto intro: repo_step_inv step_renew)
    then show "repo_inv (snd (?renew clk r)) \<and> q_runs (snd (?renew clk r)) = q_runs r \<and>
       (\<forall>a. dget (q_attempts r) (en_attempt_id task) = Some a \<longrightarrow>
          map_option (\<lambda>a. (at_state a, at_run_id a))
            (dget (q_attempts (snd (?renew clk r))) (en_attempt_id task)) = Some (at_state a, at_run_id a))"
      by (auto simp: renew_attempt_lease_def Let_def update_attempt_unfold dest: heartbeat_state
          split: option.split sum.split)
  qed
  show ?thesis
    unfolding persist_event_def
    by (intro keeps_rules collect renew call_keeps_point [OF assms(1)])
      (simp add: repo_inv_append_event)
qed


text \<open>The task can start: its run waits in \<open>DISPATCHING\<close> and its attempt is new.\<close>

definition can_start :: "Manager \<Rightarrow> TaskEnvelope \<Rightarrow> MState \<Rightarrow> bool" where
  "can_start mg task s \<longleftrightarrow> repo_inv (ms_repo s) \<and>
     map_option (\<lambda>r. (rr_state r, rr_engine r)) (dget (q_runs (ms_repo s)) (en_run_id task)) =
       Some (R_DISPATCHING, en_engine task) \<and>
     dget (q_attempts (ms_repo s)) (en_attempt_id task) = None \<and>
     strip (mg_runner_id mg) \<noteq> [] \<and> length (strip (mg_runner_id mg)) \<le> 255 \<and> 0 < mg_lease_seconds mg"

lemma point_begin:
  assumes "quiet sch"
  shows "yields (can_start mg task)
     (call sch (\<lambda>clk. begin_attempt (en_run_id task) (en_attempt_id task) (mg_runner_id mg)
        (mg_lease_seconds mg) (clk 0) (clk 1) (clk 2)))
     (\<lambda>x s. (at_id (snd x) = en_attempt_id task \<and> at_run_id (snd x) = en_run_id task) \<and>
        at_point task R_RUNNING A_CLAIMED s)"
proof (rule yields_call [OF assms])
  fix clk r s assume *: "can_start mg task s" "ms_repo s = r"
  let ?m = "begin_attempt (en_run_id task) (en_attempt_id task) (mg_runner_id mg)
        (mg_lease_seconds mg) (clk 0) (clk 1) (clk 2) r"
  obtain run where run: "dget (q_runs r) (en_run_id task) = Some run" "rr_state run = R_DISPATCHING"
    using * by (auto simp: can_start_def)
  have "repo_inv (snd ?m)"
    using * by (auto simp: can_start_def intro: repo_step_inv step_begin)
  with * run show "\<exists>x r'. ?m = (Inr x, r') \<and>
     (\<forall>n. (at_id (snd x) = en_attempt_id task \<and> at_run_id (snd x) = en_run_id task) \<and>
        at_point task R_RUNNING A_CLAIMED (s\<lparr>ms_repo := r', ms_calls := n\<rparr>))"
    by (auto simp: begin_attempt_unfold can_start_def at_point_def attempt_claimed_def Let_def
        attempt_with_state_def run_with_state_def new_attempt_def transition_run_def
        transition_attempt_def transition_by_def table_simps split: sum.split)
qed

lemma point_claim:
  assumes "quiet sch"
  shows "yields (can_start mg task) (claim_task mg sch task) (\<lambda>_. at_point task R_RUNNING A_RUNNING)"
proof -
  have g: "yields (can_start mg task) (call sch (\<lambda>_. get (en_run_id task)))
     (\<lambda>r s. (rr_engine r = en_engine task \<and> rr_state r = R_DISPATCHING) \<and> can_start mg task s)"
    by (rule yields_call [OF assms]) (auto simp: can_start_def get_def get_locked_def)
  note begun = yields_catch [OF point_begin [OF assms]]
  have t: "transition_attempt A_CLAIMED A_PREPARING = Inr A_PREPARING"
    "transition_attempt A_PREPARING A_RUNNING = Inr A_RUNNING"
    by (simp_all add: transition_attempt_def table_simps)
  have "yields (at_point task R_RUNNING A_CLAIMED)
       (bind (call sch (\<lambda>clk. repo_transition_attempt (en_attempt_id task) A_PREPARING (clk 0))) (\<lambda>_.
        bind (call sch (\<lambda>clk. repo_transition_attempt (en_attempt_id task) A_RUNNING (clk 0))) (\<lambda>_.
        ret ()))) (\<lambda>_. at_point task R_RUNNING A_RUNNING)"
    by (intro yields_bind [OF point_transition_attempt [OF assms t(1)]]
        yields_bind [OF point_transition_attempt [OF assms t(2)]] yields_ret)
  then show ?thesis
    unfolding claim_task_def
    by (intro yields_bind_pure [OF g], simp only: simp_thms if_False if_True not_True_eq_False)
      (intro yields_bind_pure [OF begun], simp add: case_prod_beta)
qed

lemma result_moves:
  "transition_attempt A_COLLECTING (fst (result_states x)) = Inr (fst (result_states x))"
  "fst (result_states x) \<in> set ATTEMPT_TERMINAL" "snd (result_states x) \<in> set RUN_TERMINAL"
  "x \<noteq> O_CANCELLED \<Longrightarrow> transition_run R_RUNNING (snd (result_states x)) = Inr (snd (result_states x))"
  "snd (result_states x) = R_CANCELLED \<longleftrightarrow> x = O_CANCELLED"
  by (cases x; simp add: transition_attempt_def transition_run_def table_simps)+

lemma point_record:
  assumes "quiet sch" "en_run_id result = en_run_id task" "en_attempt_id result = en_attempt_id task"
  shows "yields (at_point task rst A_RUNNING) (record_attempt sch task result)
     (\<lambda>ok s. ok \<and> at_point task rst (fst (result_states (rs_outcome result))) s)"
proof -
  have t: "transition_attempt A_RUNNING A_COLLECTING = Inr A_COLLECTING"
    by (simp add: transition_attempt_def table_simps)
  show ?thesis
    unfolding record_attempt_def
    by (rule yields_catch, rule yields_bind [OF point_transition_attempt [OF assms(1) t]],
        rule yields_bind [OF point_complete [OF assms(1) result_moves(1) assms(2,3)]], rule yields_ret, simp)
qed

definition settled :: "TaskEnvelope \<Rightarrow> MState \<Rightarrow> bool" where
  "settled task s \<longleftrightarrow> (\<exists>rst ast. at_point task rst ast s \<and> ast \<in> set ATTEMPT_TERMINAL \<and>
     (rst \<in> set RUN_TERMINAL \<or> rst = R_RETRY_WAIT \<and> en_run_id task \<in> set (map fst (ms_scheduled s))))"

lemma point_notify:
  assumes "quiet sch" "fair_manager mg" "rst \<in> set RUN_TERMINAL" "ast \<in> set ATTEMPT_TERMINAL"
  shows "yields (at_point task rst ast) (notify_completion mg sch i) (\<lambda>_. at_point task rst ast)"
proof (rule yieldsI)
  fix s assume *: "at_point task rst ast s"
  show "\<exists>x t. notify_completion mg sch i s = (Inr x, t) \<and> at_point task rst ast t"
  proof (cases "mg_callback mg")
    case (Some f)
    from * have inv: "repo_inv (ms_repo s)" by (simp add: at_point_def)
    moreover have "repo_steps (ms_repo s) (snd (f i (ms_repo s)))"
      using fair_parts(2) [OF assms(2) Some] inv by (simp add: repo_op_def)
    ultimately have e: "repo_evolves (ms_repo s) (snd (f i (ms_repo s)))" "repo_inv (snd (f i (ms_repo s)))"
      using repo_steps_evolves repo_steps_inv by blast+
    obtain r a where ra: "dget (q_runs (ms_repo s)) (en_run_id task) = Some r" "rr_state r = rst"
      "dget (q_attempts (ms_repo s)) (en_attempt_id task) = Some a" "at_state a = ast"
      "at_run_id a = en_run_id task"
      using * by (auto simp: at_point_def)
    obtain r' where r': "dget (q_runs (snd (f i (ms_repo s)))) (en_run_id task) = Some r'" "run_evolves r r'"
      using repo_evolves_runD [OF e(1) ra(1)] by blast
    obtain a' where a': "dget (q_attempts (snd (f i (ms_repo s)))) (en_attempt_id task) = Some a'"
      "attempt_evolves a a'"
      using repo_evolves_attemptD [OF e(1) ra(3)] by blast
    have "rr_state r' = rst" "at_state a' = ast" "at_run_id a' = en_run_id task"
      using run_evolves_terminal [OF r'(2)] attempt_evolves_terminal [OF a'(2)] a'(2) ra assms(3,4)
      by (auto simp: attempt_evolves_def)
    note r'(1) this(1) a'(1) this(2,3)
    with e(2) show ?thesis
      by (simp add: notify_completion_def Some bind_def catch_def quiet_call [OF assms(1)] Let_def
          case_prod_beta at_point_def split: sum.split prod.split)
  qed (use * in \<open>simp add: notify_completion_def\<close>)
qed

lemma settled_terminal:
  "at_point task rst ast s \<Longrightarrow> rst \<in> set RUN_TERMINAL \<Longrightarrow> ast \<in> set ATTEMPT_TERMINAL \<Longrightarrow> settled task s"
  by (auto simp: settled_def)

lemma point_close:
  assumes "quiet sch" "fair_manager mg" "ast \<in> set ATTEMPT_TERMINAL"
    and "target \<in> set RUN_TERMINAL" "transition_run rst target = Inr target"
  shows "yields (at_point task rst ast)
     (bind (call sch (\<lambda>clk. transition (en_run_id task) target (clk 0))) (\<lambda>_.
      notify_completion mg sch (en_run_id task))) (\<lambda>_. settled task)"
  by (rule yields_bind [OF point_transition [OF assms(1,5)]],
      rule yields_weaken [OF point_notify [OF assms(1,2,4,3)]]) (rule settled_terminal [OF _ assms(4,3)])

lemma point_finish:
  assumes "quiet sch" "fair_manager mg" "ast \<in> set ATTEMPT_TERMINAL"
  shows "yields (at_point task R_RUNNING ast) (finish_run mg sch task (snd (result_states x)))
     (\<lambda>_. settled task)"
proof (cases "x = O_CANCELLED")
  case True
  have t: "transition_run R_RUNNING R_CANCELLING = Inr R_CANCELLING"
    "transition_run R_CANCELLING R_CANCELLED = Inr R_CANCELLED" "R_CANCELLED \<in> set RUN_TERMINAL"
    by (simp_all add: transition_run_def table_simps)
  have "yields (at_point task R_RUNNING ast)
    (bind (call sch (\<lambda>_. get (en_run_id task))) (\<lambda>current.
             if rr_state current \<noteq> R_CANCELLING
             then bind (call sch (\<lambda>clk. transition (en_run_id task) R_CANCELLING (clk 0))) (\<lambda>_. ret ())
             else ret ())) (\<lambda>_. at_point task R_CANCELLING ast)"
    by (rule yields_bind_pure [OF point_get(1) [OF assms(1)]], simp,
        rule yields_bind [OF point_transition [OF assms(1) t(1)]], rule yields_ret)
  from yields_bind [OF this point_close [OF assms t(3,2)]] True show ?thesis
    by (simp add: finish_run_def)
next
  case False
  have "bind (ret ()) f = f ()" for f :: "unit \<Rightarrow> (MState, unit) pyop"
    by (simp add: bind_def fun_eq_iff)
  with False point_close [OF assms result_moves(3,4)] show ?thesis
    by (simp add: finish_run_def result_moves(5))
qed

lemma point_schedule:
  assumes "quiet sch" "fair_manager mg" "ast \<in> set ATTEMPT_TERMINAL"
  shows "yields (at_point task R_RUNNING ast) (schedule_retry mg sch task delay) (\<lambda>_. settled task)"
proof -
  have t: "transition_run R_RUNNING R_RETRY_WAIT = Inr R_RETRY_WAIT" "R_INFRA_ERROR \<in> set RUN_TERMINAL"
    "transition_run R_RETRY_WAIT R_INFRA_ERROR = Inr R_INFRA_ERROR"
    "transition_run R_RUNNING R_INFRA_ERROR = Inr R_INFRA_ERROR"
    by (simp_all add: transition_run_def table_simps)
  let ?log = "writes (\<lambda>s. s\<lparr>ms_scheduled := ms_scheduled s @ [(en_run_id task, delay)]\<rparr>)"
  have w: "yields (at_point task R_RETRY_WAIT ast) ?log
      (\<lambda>_ s. at_point task R_RETRY_WAIT ast s \<and> settled task s)"
    using assms(3) by (force simp: yields_def settled_def at_point_def)
  show ?thesis
  proof (cases "mg_scheduler mg")
    case None
    with point_close [OF assms t(2,4)] show ?thesis by (simp add: schedule_retry_def)
  next
    case (Some schedule)
    have "yields (\<lambda>s. at_point task R_RETRY_WAIT ast s \<and> settled task s)
      (case schedule (en_run_id task) delay of
            Inr _ \<Rightarrow> ret ()
          | Inl _ \<Rightarrow> bind (call sch (\<lambda>clk. transition (en_run_id task) R_INFRA_ERROR (clk 0))) (\<lambda>_.
              notify_completion mg sch (en_run_id task))) (\<lambda>_. settled task)"
      using point_close [OF assms t(2,3)]
      by (cases "schedule (en_run_id task) delay") (auto simp: yields_def)
    with Some show ?thesis
      unfolding schedule_retry_def
      by (simp, intro yields_bind [OF point_transition [OF assms(1) t(1)]] yields_bind [OF w])
  qed
qed

lemma point_settle:
  assumes "quiet sch" "fair_manager mg" "ast \<in> set ATTEMPT_TERMINAL" "at_point task R_RUNNING ast s"
  shows "\<exists>x t. settle str_of mg sch task result ie s = (x, t) \<and> settled task t \<and>
     (x = Inr result \<or> (\<exists>e. ie = Some e \<and> x = Inl e))"
proof -
  obtain as t where t: "call sch (\<lambda>_. list_attempts (en_run_id task)) s = (Inr as, t)"
    "at_point task R_RUNNING ast t"
    using point_get(3) [OF assms(1)] assms(4) by (rule yieldsE)
  define d where "d = decide_retry str_of task result (int (length as))"
  show ?thesis
  proof (cases "rd_should_retry d")
    case True
    obtain x u where "schedule_retry mg sch task (rd_delay_seconds d) t = (Inr x, u)" "settled task u"
      using point_schedule [OF assms(1-3)] t(2) by (rule yieldsE)
    with True t(1) show ?thesis
      by (simp add: settle_def bind_def Let_def d_def)
  next
    case False
    obtain x u where "finish_run mg sch task (snd (result_states (rs_outcome result))) t = (Inr x, u)"
      "settled task u"
      using point_finish [OF assms(1-3)] t(2) by (rule yieldsE)
    with False t(1) show ?thesis
      by (simp add: settle_def bind_def Let_def d_def split: option.split)
  qed
qed

lemma point_conclude:
  assumes "quiet sch" "fair_manager mg" "same_identity task result" "at_point task R_RUNNING A_RUNNING s"
  shows "\<exists>x t. conclude_task str_of mg sch task result ie s = (x, t) \<and> settled task t \<and>
     (x = Inr result \<or> (\<exists>e. ie = Some e \<and> x = Inl e))"
proof -
  have h: "yields (at_point task R_RUNNING A_RUNNING) (honour_cancel sch task result)
      (\<lambda>r s. r = result \<and> at_point task R_RUNNING A_RUNNING s)"
    unfolding honour_cancel_def
    by (auto intro!: yields_bind_pure [OF point_get(1) [OF assms(1)]] yields_ret)
  obtain s1 where s1: "honour_cancel sch task result s = (Inr result, s1)" "at_point task R_RUNNING A_RUNNING s1"
    using h assms(4) by (rule yieldsE) blast
  obtain a s2 where s2: "call sch (\<lambda>_. get_attempt (en_attempt_id task)) s1 = (Inr a, s2)"
    "at_state a = A_RUNNING" "at_point task R_RUNNING A_RUNNING s2"
    using point_get(2) [OF assms(1)] s1(2) by (rule yieldsE) blast
  have same: "en_run_id result = en_run_id task" "en_attempt_id result = en_attempt_id task"
    using assms(3) by (auto simp: same_identity_def)
  obtain s3 where s3: "record_attempt sch task result s2 = (Inr True, s3)"
    "at_point task R_RUNNING (fst (result_states (rs_outcome result))) s3"
    using point_record [OF assms(1) same] s2(3) by (rule yieldsE) auto
  from point_settle [OF assms(1,2) result_moves(2) s3(2)] s1 s2 s3(1) show ?thesis
    by (simp add: conclude_task_def bind_def)
qed

lemma point_executor:
  assumes "quiet sch" "fair_manager mg" "collects_only mg" "at_point task rst ast s"
  shows "\<exists>r ie t. run_executor exn_name mg sch tree task s = (Inr (r, ie), t) \<and>
     at_point task rst ast t \<and> same_identity task r \<and> (ie = None \<or> ie = Some RunnerIdentityError)"
proof -
  let ?m = "bind (run_tree (persist_event mg sch task) tree) (\<lambda>result.
        bind (lift (validate_result task result)) (\<lambda>_. ret (result, None :: exn option)))"
  have "keeps (at_point task rst ast) ?m"
    by (intro keeps_rules keeps_run_tree persist_keeps_point assms)
  then have k: "at_point task rst ast (snd (?m s))" using assms(4) by (rule keepsD)
  show ?thesis
  proof (cases "?m s")
    case (Pair x t)
    show ?thesis
    proof (cases x)
      case (Inl e)
      with Pair k show ?thesis
        by (simp add: run_executor_def catch_def bind_reads clock_now_def
            infra_result_def same_identity_def)
    next
      case (Inr y)
      with Pair have "same_identity task (fst y)" "snd y = None"
        by (auto simp: bind_Inr_iff validate_result_def)
      with Inr Pair k show ?thesis
        by (cases y) (simp add: run_executor_def catch_def)
    qed
  qed
qed

lemma execute_completes:
  assumes "quiet sch" "fair_manager mg" "collects_only mg" "can_start mg task s"
  shows "\<exists>x t. execute exn_name str_of mg sch executor task s = (x, t) \<and> settled task t \<and>
     (x = Inl RunnerIdentityError \<or> (\<exists>r. x = Inr r \<and> same_identity task r))"
proof -
  obtain s1 where s1: "claim_task mg sch task s = (Inr (), s1)" "at_point task R_RUNNING A_RUNNING s1"
    using point_claim [OF assms(1)] assms(4) by (rule yieldsE) auto
  obtain r ie s2 where s2: "run_executor exn_name mg sch (executor task) task s1 = (Inr (r, ie), s2)"
    "at_point task R_RUNNING A_RUNNING s2" "same_identity task r" "ie = None \<or> ie = Some RunnerIdentityError"
    using point_executor [OF assms(1-3) s1(2)] by blast
  from point_conclude [OF assms(1,2) s2(3,2), of str_of ie] s1(1) s2 show ?thesis
    by (auto simp: execute_def bind_def)
qed

section \<open>Demonstration\<close>

definition demo_dispatching :: RunRepo where
  "demo_dispatching = snd (transition 1 R_DISPATCHING 0 (snd (transition 1 R_QUEUED 0 demo_created)))"

definition demo_start :: MState where
  "demo_start = \<lparr>ms_repo = demo_dispatching, ms_calls = 0, ms_scheduled = [], ms_notified = []\<rparr>"

definition demo_manager :: Manager where
  "demo_manager = \<lparr>mg_runner_id = ''runner'', mg_lease_seconds = 300, mg_collector = None,
     mg_scheduler = Some (\<lambda>_ _. Inr ()), mg_callback = Some (\<lambda>i. bind (cancel i 0) (\<lambda>_. ret ()))\<rparr>"


definition demo_sched :: Sched where
  "demo_sched = \<lparr>sch_env = (\<lambda>_ r. r), sch_clock = (\<lambda>n k. int (n + k))\<rparr>"

text \<open>An executor that reports one event and then succeeds; and one that times out.\<close>

definition demo_executor :: "TaskEnvelope \<Rightarrow> exec_tree" where
  "demo_executor task = Emit demo_event (\<lambda>_. Finish (demo_result O_SUCCEEDED))"

definition slow_executor :: "TaskEnvelope \<Rightarrow> exec_tree" where
  "slow_executor task = Finish (demo_result O_TIMED_OUT)"

text \<open>The same, but somebody cancels the run while the executor works.\<close>

definition cancel_sched :: Sched where
  "cancel_sched = demo_sched\<lparr>sch_env := (\<lambda>n r. if n = 4 then snd (cancel 1 0 r) else r)\<rparr>"

lemma demo_manager_fair: "fair_manager demo_manager" "collects_only demo_manager"
proof -
  have "snd (bind (cancel i t) (\<lambda>_. ret ()) r) = snd (cancel i t r)" for i t r
    by (simp add: bind_def split: prod.split sum.split)
  then have "repo_op (\<lambda>r. bind (cancel i t) (\<lambda>_. ret ()) r)" for i t
    using step_cancel by (auto simp: repo_op_def intro: steps_step)
  then show "fair_manager demo_manager" by (simp add: fair_manager_def demo_manager_def)
qed (simp add: collects_only_def demo_manager_def)

lemma demo_reach_dispatching: "repo_steps empty_repo demo_dispatching"
  unfolding demo_dispatching_def
  by (rule steps_step [OF steps_step [OF demo_reach_created step_transition] step_transition])

lemma demo_can_start: "can_start demo_manager demo_retry_task demo_start"
proof -
  have "repo_inv demo_dispatching" by (rule reachable_inv [OF demo_reach_dispatching])
  moreover have "map_option (\<lambda>r. (rr_state r, rr_engine r)) (dget (q_runs demo_dispatching) 1) =
       Some (R_DISPATCHING, E_PYTEST)" "dget (q_attempts demo_dispatching) 2 = None"
    by code_simp+
  moreover have "strip ''runner'' = ''runner''" by code_simp
  ultimately show ?thesis
    by (simp add: can_start_def demo_start_def demo_manager_def demo_retry_task_def)
qed

lemma cancel_sched_fair: "fair_env cancel_sched"
  using step_cancel by (auto simp: fair_env_def cancel_sched_def demo_sched_def intro: steps_step)

section \<open>Properties\<close>



text \<open>C7. Without interference a task that can start is always settled, for every executor: one that
  delivers forged or conflicting events, one that raises, one that returns somebody else's result.
  The attempt ends in a terminal state and the run ends in a terminal state or waits for a retry that was
  handed to the scheduler. The call returns a result of this very task, or raises
  \<open>RunnerIdentityError\<close> and nothing else.\<close>

theorem task_always_settles:
  assumes "quiet sch" "fair_manager mg" "collects_only mg" "can_start mg task s"
    and "execute exn_name str_of mg sch executor task s = (x, t)"
  shows "(\<exists>a r. dget (q_attempts (ms_repo t)) (en_attempt_id task) = Some a \<and>
      at_state a \<in> set ATTEMPT_TERMINAL \<and>
      dget (q_runs (ms_repo t)) (en_run_id task) = Some r \<and>
      (rr_state r \<in> set RUN_TERMINAL \<or>
       rr_state r = R_RETRY_WAIT \<and> en_run_id task \<in> set (map fst (ms_scheduled t)))) \<and>
    (x = Inl RunnerIdentityError \<or> (\<exists>r. x = Inr r \<and> same_identity task r))"
  using execute_completes [OF assms(1-4), of exn_name str_of executor] assms(5)
  by (fastforce simp: settled_def at_point_def)

theorem task_always_settles_witness:
  "map_option rr_state (dget (q_runs (ms_repo (snd (execute (\<lambda>_. []) (\<lambda>_. []) demo_manager demo_sched
      demo_executor demo_retry_task demo_start)))) 1) = Some R_SUCCEEDED \<and>
   (\<exists>a. dget (q_attempts (ms_repo (snd (execute (\<lambda>_. []) (\<lambda>_. []) demo_manager demo_sched
      demo_executor demo_retry_task demo_start)))) 2 = Some a \<and> at_state a \<in> set ATTEMPT_TERMINAL)"
proof -
  have q: "quiet demo_sched" by (simp add: quiet_def demo_sched_def)
  have "map_option rr_state (dget (q_runs (ms_repo (snd (execute (\<lambda>_. []) (\<lambda>_. []) demo_manager demo_sched
      demo_executor demo_retry_task demo_start)))) 1) = Some R_SUCCEEDED"
    by code_simp
  with task_always_settles [OF q demo_manager_fair demo_can_start prod.collapse [symmetric],
      of "\<lambda>_. []" "\<lambda>_. []" demo_executor]
  show ?thesis by (auto simp: demo_retry_task_def)
qed


end
