(* ===== verification/Versioned.thy ===== *)
theory Versioned
  imports Prelude
begin

text \<open>
  Versioned assets. Requirements, test cases, automation scripts, environments and test plans
  are all kept the same way: a dictionary holds the current record of each asset and another one
  the list of all its revisions; creation starts the list, every accepted update appends to it.

  The locale \<open>versioned_repository\<close> is the contract of such a repository: what its steps may do to
  the two dictionaries. Its lemmas give the invariant, the immutability of revisions and the
  monotonicity of versions; \<open>optimistic_repository\<close> adds the update operation guarded by the
  expected version and shows that no update is lost. Every repository interprets them.
\<close>

section \<open>Revision lists\<close>

definition log_ok :: "('r \<Rightarrow> uuid) \<Rightarrow> ('r \<Rightarrow> int) \<Rightarrow> ('r \<Rightarrow> int) \<Rightarrow> uuid \<Rightarrow> 'r list \<Rightarrow> bool" where
  "log_ok rid rvn ver k hist \<longleftrightarrow> hist \<noteq> [] \<and>
     (\<forall>i < length hist. rid (hist ! i) = k \<and> rvn (hist ! i) = int i + 1 \<and> ver (hist ! i) = int i)"

definition versioned ::
  "('r \<Rightarrow> uuid) \<Rightarrow> ('r \<Rightarrow> int) \<Rightarrow> ('r \<Rightarrow> int) \<Rightarrow> (uuid, 'r) dict \<Rightarrow> (uuid, 'r list) dict \<Rightarrow> bool" where
  "versioned rid rvn ver heads logs \<longleftrightarrow> wf_dict heads \<and> wf_dict logs \<and> dkeys logs = dkeys heads \<and>
     (\<forall>k r. dget heads k = Some r \<longrightarrow>
        (\<exists>hist. dget logs k = Some hist \<and> last hist = r \<and> log_ok rid rvn ver k hist))"

text \<open>\<open>self._revisions[key].append(updated)\<close>, and reading revision number \<open>n\<close>.\<close>

definition append_revision :: "uuid \<Rightarrow> 'r \<Rightarrow> (uuid, 'r list) dict \<Rightarrow> (uuid, 'r list) dict res" where
  "append_revision k r logs = (case dget logs k of
     None \<Rightarrow> Inl KeyError | Some hist \<Rightarrow> Inr (dset k (hist @ [r]) logs))"

definition revision_at :: "(uuid, 'r list) dict \<Rightarrow> uuid \<Rightarrow> int \<Rightarrow> 'r option" where
  "revision_at logs k n = (case dget logs k of
     None \<Rightarrow> None
   | Some hist \<Rightarrow> if n < 1 \<or> n > int (length hist) then None else Some (hist ! nat (n - 1)))"

lemma log_ok_new: "rid r = k \<Longrightarrow> rvn r = 1 \<Longrightarrow> ver r = 0 \<Longrightarrow> log_ok rid rvn ver k [r]"
  by (simp add: log_ok_def)

lemma log_ok_last:
  assumes "log_ok rid rvn ver k hist"
  shows "rid (last hist) = k" "rvn (last hist) = int (length hist)" "ver (last hist) = int (length hist) - 1"
proof -
  from assms have "hist \<noteq> []" "length hist - 1 < length hist" by (auto simp: log_ok_def)
  with assms show "rid (last hist) = k" "rvn (last hist) = int (length hist)" "ver (last hist) = int (length hist) - 1"
    by (auto simp: log_ok_def last_conv_nth of_nat_diff Suc_le_eq)
qed

lemma log_ok_append:
  assumes "log_ok rid rvn ver k hist" "rid r = k" "rvn r = rvn (last hist) + 1" "ver r = ver (last hist) + 1"
  shows "log_ok rid rvn ver k (hist @ [r])"
  using assms log_ok_last [OF assms(1)] by (auto simp: log_ok_def nth_append)

lemma versioned_get:
  "versioned rid rvn ver heads logs \<Longrightarrow> dget heads k = Some r \<Longrightarrow>
     \<exists>hist. dget logs k = Some hist \<and> last hist = r \<and> log_ok rid rvn ver k hist"
  by (simp add: versioned_def)

lemma versioned_log:
  assumes "versioned rid rvn ver heads logs" "dget logs k = Some hist"
  shows "dget heads k = Some (last hist) \<and> log_ok rid rvn ver k hist"
proof -
  have "k \<in> set (dkeys logs)" using assms(2) by (force dest: map_of_SomeD)
  then have "k \<in> set (dkeys heads)" using assms(1) unfolding versioned_def by metis
  then obtain r where "dget heads k = Some r" using map_of_eq_None_iff [of heads k] by auto
  with versioned_get [OF assms(1) this] assms(2) show ?thesis by auto
qed

lemma versioned_create:
  assumes "versioned rid rvn ver heads logs" "rvn r = 1" "ver r = 0" "rid r = k"
    and "dget heads k = None"
  shows "versioned rid rvn ver (dset k r heads) (dset k [r] logs)"
proof -
  have "k \<notin> set (dkeys heads)" using assms(5) by (simp add: map_of_eq_None_iff)
  with assms show ?thesis
    by (auto simp: versioned_def dkeys_dset dget_dset log_ok_new)
qed

lemma versioned_update:
  assumes "versioned rid rvn ver heads logs" "dget heads k = Some r" "dget logs k = Some hist"
    and "rid r' = rid r" "rvn r' = rvn r + 1" "ver r' = ver r + 1"
  shows "versioned rid rvn ver (dset k r' heads) (dset k (hist @ [r']) logs)"
proof -
  have *: "last hist = r" "log_ok rid rvn ver k hist"
    using versioned_get [OF assms(1,2)] assms(3) by auto
  then have "log_ok rid rvn ver k (hist @ [r'])"
    using log_ok_last(1) [OF *(2)] assms(4-6) by (intro log_ok_append) auto
  moreover have "k \<in> set (dkeys heads)" using assms(2) by (force dest: map_of_SomeD)
  ultimately show ?thesis
    using assms(1) by (auto simp: versioned_def dkeys_dset dget_dset)
qed

section \<open>The contract of a repository of versioned assets\<close>

text \<open>What a step may do: nothing, start the list of a new asset, or append an updated record.\<close>

definition versioned_step ::
  "('r \<Rightarrow> uuid) \<Rightarrow> ('r \<Rightarrow> int) \<Rightarrow> ('r \<Rightarrow> int) \<Rightarrow> (uuid, 'r) dict \<Rightarrow> (uuid, 'r list) dict \<Rightarrow>
   (uuid, 'r) dict \<Rightarrow> (uuid, 'r list) dict \<Rightarrow> bool" where
  "versioned_step rid rvn ver heads logs heads' logs' \<longleftrightarrow>
     heads' = heads \<and> logs' = logs \<or>
     (\<exists>r. dget heads (rid r) = None \<and> rvn r = 1 \<and> ver r = 0 \<and>
        heads' = dset (rid r) r heads \<and> logs' = dset (rid r) [r] logs) \<or>
     (\<exists>k r r' hist. dget heads k = Some r \<and> dget logs k = Some hist \<and>
        rid r' = rid r \<and> rvn r' = rvn r + 1 \<and> ver r' = ver r + 1 \<and>
        heads' = dset k r' heads \<and> logs' = dset k (hist @ [r']) logs)"

lemma versioned_step_same: "versioned_step rid rvn ver heads logs heads logs"
  by (simp add: versioned_step_def)

lemma versioned_step_create:
  "rid r = k \<Longrightarrow> dget heads k = None \<Longrightarrow> rvn r = 1 \<Longrightarrow> ver r = 0 \<Longrightarrow>
     versioned_step rid rvn ver heads logs (dset k r heads) (dset k [r] logs)"
  by (auto simp: versioned_step_def)

lemma versioned_step_update:
  "dget heads k = Some r \<Longrightarrow> dget logs k = Some hist \<Longrightarrow> rid r' = rid r \<Longrightarrow> rvn r' = rvn r + 1 \<Longrightarrow>
     ver r' = ver r + 1 \<Longrightarrow>
     versioned_step rid rvn ver heads logs (dset k r' heads) (dset k (hist @ [r']) logs)"
  unfolding versioned_step_def by (intro disjI2) blast

lemma versioned_step_inv:
  "versioned rid rvn ver heads logs \<Longrightarrow> versioned_step rid rvn ver heads logs heads' logs' \<Longrightarrow>
     versioned rid rvn ver heads' logs'"
  unfolding versioned_step_def
  by (elim disjE exE conjE) (simp_all add: versioned_create versioned_update)

lemma versioned_step_log:
  assumes "versioned rid rvn ver heads logs" "versioned_step rid rvn ver heads logs heads' logs'"
    and "dget logs k = Some hist"
  shows "\<exists>more. dget logs' k = Some (hist @ more)"
proof -
  have "dget heads k \<noteq> None" using versioned_log [OF assms(1,3)] by simp
  with assms(2,3) show ?thesis
    unfolding versioned_step_def by (auto simp: dget_dset)
qed

locale versioned_repository =
  fixes heads :: "'s \<Rightarrow> (uuid, 'r) dict" and logs :: "'s \<Rightarrow> (uuid, 'r list) dict"
    and rid :: "'r \<Rightarrow> uuid" and rvn :: "'r \<Rightarrow> int" and ver :: "'r \<Rightarrow> int"
    and step :: "'s \<Rightarrow> 's \<Rightarrow> bool" and initial :: 's
  assumes initial_empty: "heads initial = []" "logs initial = []"
    and step_shape: "step s t \<Longrightarrow> versioned rid rvn ver (heads s) (logs s) \<Longrightarrow>
      versioned_step rid rvn ver (heads s) (logs s) (heads t) (logs t)"
begin

lemma initial_versioned: "versioned rid rvn ver (heads initial) (logs initial)"
  by (simp add: versioned_def initial_empty)

lemma steps_versioned:
  "step\<^sup>*\<^sup>* s t \<Longrightarrow> versioned rid rvn ver (heads s) (logs s) \<Longrightarrow> versioned rid rvn ver (heads t) (logs t)"
  by (induction rule: rtranclp_induct) (auto intro: versioned_step_inv step_shape)

lemma reachable_versioned: "step\<^sup>*\<^sup>* initial s \<Longrightarrow> versioned rid rvn ver (heads s) (logs s)"
  by (rule steps_versioned [OF _ initial_versioned])

lemma steps_log:
  assumes "step\<^sup>*\<^sup>* s t" "versioned rid rvn ver (heads s) (logs s)" "dget (logs s) k = Some hist"
  shows "\<exists>more. dget (logs t) k = Some (hist @ more)"
  using assms
proof (induction rule: rtranclp_induct)
  case (step t u)
  then obtain more where "dget (logs t) k = Some (hist @ more)" by auto
  from versioned_step_log [OF steps_versioned [OF step(1,4)] step_shape [OF step(2)] this]
    steps_versioned [OF step(1,4)]
  show ?case by auto
qed auto

text \<open>A revision that can be read reads the same for ever.\<close>

lemma revision_stable:
  assumes "step\<^sup>*\<^sup>* initial s" "step\<^sup>*\<^sup>* s t" "revision_at (logs s) k n = Some r"
  shows "revision_at (logs t) k n = Some r"
proof -
  obtain hist where hist: "dget (logs s) k = Some hist" "1 \<le> n" "n \<le> int (length hist)" "r = hist ! nat (n - 1)"
    using assms(3) by (auto simp: revision_at_def split: option.splits if_splits)
  then obtain more where "dget (logs t) k = Some (hist @ more)"
    using steps_log [OF assms(2) reachable_versioned [OF assms(1)]] by blast
  with hist show ?thesis by (auto simp: revision_at_def nth_append)
qed

text \<open>The current record is the revision its own number names; there is none above it.\<close>

lemma current_is_last_revision:
  assumes "step\<^sup>*\<^sup>* initial s" "dget (heads s) k = Some r"
  shows "rid r = k" "revision_at (logs s) k (rvn r) = Some r" "ver r = rvn r - 1" "1 \<le> rvn r"
    and "revision_at (logs s) k n = Some r' \<Longrightarrow> rvn r' = n \<and> rid r' = k \<and> n \<le> rvn r"
proof -
  obtain hist where hist: "dget (logs s) k = Some hist" "last hist = r" "log_ok rid rvn ver k hist"
    using versioned_get [OF reachable_versioned [OF assms(1)] assms(2)] by auto
  moreover have "hist \<noteq> []" using hist(3) by (simp add: log_ok_def)
  moreover have "hist ! (length hist - 1) = r" using hist(2) \<open>hist \<noteq> []\<close> by (simp add: last_conv_nth)
  ultimately show "rid r = k" "revision_at (logs s) k (rvn r) = Some r" "ver r = rvn r - 1" "1 \<le> rvn r"
    using log_ok_last [OF hist(3)]
    by (auto simp: revision_at_def nat_diff_distrib Suc_le_eq)
  show "rvn r' = n \<and> rid r' = k \<and> n \<le> rvn r" if *: "revision_at (logs s) k n = Some r'"
  proof -
    have n: "1 \<le> n" "n \<le> int (length hist)" "r' = hist ! nat (n - 1)"
      using * hist(1) by (auto simp: revision_at_def split: if_splits)
    then have "nat (n - 1) < length hist" by simp
    with hist(3) n log_ok_last(2) [OF hist(3)] hist(2) show ?thesis by (auto simp: log_ok_def)
  qed
qed

lemma version_monotone:
  assumes "step\<^sup>*\<^sup>* initial s" "step\<^sup>*\<^sup>* s t" "dget (heads s) k = Some r"
  shows "\<exists>r'. dget (heads t) k = Some r' \<and> ver r \<le> ver r'"
proof -
  obtain hist where hist: "dget (logs s) k = Some hist" "last hist = r" "log_ok rid rvn ver k hist"
    using versioned_get [OF reachable_versioned [OF assms(1)] assms(3)] by auto
  then obtain more where more: "dget (logs t) k = Some (hist @ more)"
    using steps_log [OF assms(2) reachable_versioned [OF assms(1)]] by blast
  have "step\<^sup>*\<^sup>* initial t" using assms(1,2) by simp
  from versioned_log [OF reachable_versioned [OF this] more]
  have *: "dget (heads t) k = Some (last (hist @ more))" "log_ok rid rvn ver k (hist @ more)" by auto
  from log_ok_last(3) [OF *(2)] log_ok_last(3) [OF hist(3)] hist(2) *(1) show ?thesis by auto
qed

end

section \<open>Optimistic concurrency\<close>

locale optimistic_repository = versioned_repository heads logs rid rvn ver step initial
  for heads :: "'s \<Rightarrow> (uuid, 'r) dict" and logs :: "'s \<Rightarrow> (uuid, 'r list) dict"
    and rid :: "'r \<Rightarrow> uuid" and rvn :: "'r \<Rightarrow> int" and ver :: "'r \<Rightarrow> int"
    and step :: "'s \<Rightarrow> 's \<Rightarrow> bool" and initial :: 's +
  fixes update :: "'c \<Rightarrow> uuid \<Rightarrow> int \<Rightarrow> ('s, 'r) pyop" and conflict :: exn and missing :: exn
  assumes update_success: "update c k v s = (Inr r', t) \<Longrightarrow> versioned rid rvn ver (heads s) (logs s) \<Longrightarrow>
      \<exists>r. dget (heads s) k = Some r \<and> ver r = v \<and> ver r' = v + 1 \<and> dget (heads t) k = Some r' \<and> step s t"
    and update_stale: "dget (heads s) k = Some r \<Longrightarrow> ver r \<noteq> v \<Longrightarrow> update c k v s = (Inl conflict, s)"
    and update_missing: "dget (heads s) k = None \<Longrightarrow> update c k v s = (Inl missing, s)"
begin

text \<open>
  After an update guarded by a version succeeds, every later update guarded by the same version
  is refused and changes nothing, however many other steps come in between.
\<close>

lemma no_lost_update:
  assumes "step\<^sup>*\<^sup>* initial s" "update c k v s = (Inr r, t)" "step\<^sup>*\<^sup>* t u"
  shows "update c' k v u = (Inl conflict, u)"
proof -
  obtain r0 where *: "ver r = v + 1" "dget (heads t) k = Some r" "step s t"
    using update_success [OF assms(2) reachable_versioned [OF assms(1)]] by blast
  have "step\<^sup>*\<^sup>* initial t" using assms(1) *(3) by (rule rtranclp.rtrancl_into_rtrancl)
  from version_monotone [OF this assms(3) *(2)] *(1)
  obtain r' where "dget (heads u) k = Some r'" "v < ver r'" by auto
  then show ?thesis by (intro update_stale) auto
qed

end

end
