(* ===== verification/Quality.thy ===== *)
theory Quality
  imports Versioned
begin

text \<open>
  Requirements, test cases and the links between them: \<^verbatim>\<open>services/api/quality_domain.py\<close> and the
  in-memory repository of \<^verbatim>\<open>services/api/quality_repository.py\<close>. Identifiers drawn by \<open>uuid4()\<close>
  and clock readings are arguments; the keyword arguments of \<open>update\<close> are its parameters.
\<close>

section \<open>Domain\<close>

datatype RequirementStatus = RQ_DRAFT | RQ_ACTIVE | RQ_ARCHIVED
datatype TestCaseStatus = TC_DRAFT | TC_READY | TC_ARCHIVED
datatype TestCasePriority = P_LOW | P_MEDIUM | P_HIGH | P_CRITICAL
datatype TestCaseSource = SRC_MANUAL | SRC_AI

definition REQUIREMENT_TRANSITIONS :: "(RequirementStatus, RequirementStatus list) dict" where
  [table_simps]: "REQUIREMENT_TRANSITIONS = [(RQ_DRAFT, [RQ_ACTIVE]), (RQ_ACTIVE, [RQ_ARCHIVED])]"

definition TEST_CASE_TRANSITIONS :: "(TestCaseStatus, TestCaseStatus list) dict" where
  [table_simps]: "TEST_CASE_TRANSITIONS = [(TC_DRAFT, [TC_READY]), (TC_READY, [TC_ARCHIVED])]"

definition next_status :: "'s \<Rightarrow> 's \<Rightarrow> ('s, 's list) dict \<Rightarrow> 's res" where
  "next_status current target rules =
     (if current = target
      then (case dget rules current of None \<Rightarrow> Inl InvalidAssetTransition | Some _ \<Rightarrow> Inr current)
      else if target \<notin> set (case dget rules current of None \<Rightarrow> [] | Some ts \<Rightarrow> ts)
      then Inl InvalidAssetTransition
      else Inr target)"

record CaseStepRecord =
  cs_order :: int
  cs_action :: string
  cs_expected_result :: string

record RequirementRecord =
  rq_id :: uuid
  rq_project_id :: uuid
  rq_title :: string
  rq_description :: string
  rq_status :: RequirementStatus
  rq_revision :: int
  rq_state_version :: int
  rq_created_at :: time
  rq_updated_at :: time

definition requirement_update ::
  "RequirementRecord \<Rightarrow> string \<Rightarrow> string \<Rightarrow> RequirementStatus \<Rightarrow> time \<Rightarrow> RequirementRecord res" where
  "requirement_update r title description status now =
     rbind (next_status (rq_status r) status REQUIREMENT_TRANSITIONS) (\<lambda>nxt.
     Inr (r\<lparr>rq_title := title, rq_description := description, rq_status := nxt,
            rq_revision := rq_revision r + 1, rq_state_version := rq_state_version r + 1,
            rq_updated_at := now\<rparr>))"

record TestCaseRecord =
  tc_id :: uuid
  tc_project_id :: uuid
  tc_title :: string
  tc_description :: string
  tc_preconditions :: string
  tc_priority :: TestCasePriority
  tc_status :: TestCaseStatus
  tc_source :: TestCaseSource
  tc_steps :: "CaseStepRecord list"
  tc_revision :: int
  tc_state_version :: int
  tc_created_at :: time
  tc_updated_at :: time

record TestCaseChanges =
  tcc_title :: string
  tcc_description :: string
  tcc_preconditions :: string
  tcc_priority :: TestCasePriority
  tcc_status :: TestCaseStatus
  tcc_steps :: "CaseStepRecord list"

definition test_case_update :: "TestCaseRecord \<Rightarrow> TestCaseChanges \<Rightarrow> time \<Rightarrow> TestCaseRecord res" where
  "test_case_update r c now =
     rbind (next_status (tc_status r) (tcc_status c) TEST_CASE_TRANSITIONS) (\<lambda>nxt.
     Inr (r\<lparr>tc_title := tcc_title c, tc_description := tcc_description c,
            tc_preconditions := tcc_preconditions c, tc_priority := tcc_priority c,
            tc_status := nxt, tc_steps := tcc_steps c, tc_revision := tc_revision r + 1,
            tc_state_version := tc_state_version r + 1, tc_updated_at := now\<rparr>))"

record TraceLinkRecord =
  tl_requirement_id :: uuid
  tl_test_case_id :: uuid
  tl_created_at :: time

section \<open>Repository\<close>

record QualityRepo =
  qr_requirements :: "(uuid, RequirementRecord) dict"
  qr_requirement_revisions :: "(uuid, RequirementRecord list) dict"
  qr_test_cases :: "(uuid, TestCaseRecord) dict"
  qr_test_case_revisions :: "(uuid, TestCaseRecord list) dict"
  qr_links :: "(uuid \<times> uuid, TraceLinkRecord) dict"

definition empty_quality :: QualityRepo where
  "empty_quality = \<lparr>qr_requirements = [], qr_requirement_revisions = [], qr_test_cases = [],
     qr_test_case_revisions = [], qr_links = []\<rparr>"

definition check_version :: "int \<Rightarrow> int \<Rightarrow> unit res" where
  "check_version current expected = guard (current \<noteq> expected) AssetVersionConflict"

definition create_requirement ::
  "uuid \<Rightarrow> string \<Rightarrow> string \<Rightarrow> uuid \<Rightarrow> time \<Rightarrow> (QualityRepo, RequirementRecord) pyop" where
  "create_requirement project_id title description fresh now =
     (let rec = \<lparr>rq_id = fresh, rq_project_id = project_id, rq_title = title,
                 rq_description = description, rq_status = RQ_DRAFT, rq_revision = 1,
                 rq_state_version = 0, rq_created_at = now, rq_updated_at = now\<rparr> in
      bind (writes (\<lambda>s. s\<lparr>qr_requirements := dset (rq_id rec) rec (qr_requirements s)\<rparr>)) (\<lambda>_.
      bind (writes (\<lambda>s. s\<lparr>qr_requirement_revisions := dset (rq_id rec) [rec] (qr_requirement_revisions s)\<rparr>)) (\<lambda>_.
      ret rec)))"

definition get_requirement :: "uuid \<Rightarrow> (QualityRepo, RequirementRecord) pyop" where
  "get_requirement requirement_id s = (case dget (qr_requirements s) requirement_id of
     None \<Rightarrow> (Inl RequirementNotFound, s) | Some r \<Rightarrow> (Inr r, s))"

definition list_requirements :: "uuid option \<Rightarrow> (QualityRepo, RequirementRecord list) pyop" where
  "list_requirements project_id = reads (\<lambda>s. sort_key rq_created_at
     (case project_id of
        None \<Rightarrow> dvalues (qr_requirements s)
      | Some p \<Rightarrow> filter (\<lambda>r. rq_project_id r = p) (dvalues (qr_requirements s))))"

definition update_requirement ::
  "uuid \<Rightarrow> string \<Rightarrow> string \<Rightarrow> RequirementStatus \<Rightarrow> int \<Rightarrow> time \<Rightarrow> (QualityRepo, RequirementRecord) pyop" where
  "update_requirement requirement_id title description status expected_version now =
     bind (get_requirement requirement_id) (\<lambda>current.
     bind (lift (check_version (rq_state_version current) expected_version)) (\<lambda>_.
     bind (lift (requirement_update current title description status now)) (\<lambda>updated.
     bind (writes (\<lambda>s. s\<lparr>qr_requirements := dset requirement_id updated (qr_requirements s)\<rparr>)) (\<lambda>_.
     bind (reads qr_requirement_revisions) (\<lambda>logs.
     bind (lift (append_revision requirement_id updated logs)) (\<lambda>logs'.
     bind (writes (\<lambda>s. s\<lparr>qr_requirement_revisions := logs'\<rparr>)) (\<lambda>_.
     ret updated)))))))"

definition list_requirement_revisions :: "uuid \<Rightarrow> (QualityRepo, RequirementRecord list) pyop" where
  "list_requirement_revisions requirement_id =
     bind (get_requirement requirement_id) (\<lambda>_.
     bind (reads (\<lambda>s. dget (qr_requirement_revisions s) requirement_id)) (\<lambda>found.
     case found of None \<Rightarrow> raise KeyError | Some revisions \<Rightarrow> ret revisions))"

definition create_test_case ::
  "uuid \<Rightarrow> string \<Rightarrow> string \<Rightarrow> string \<Rightarrow> TestCasePriority \<Rightarrow> CaseStepRecord list \<Rightarrow> TestCaseSource \<Rightarrow>
   uuid \<Rightarrow> time \<Rightarrow> (QualityRepo, TestCaseRecord) pyop" where
  "create_test_case project_id title description preconditions priority steps source fresh now =
     (let rec = \<lparr>tc_id = fresh, tc_project_id = project_id, tc_title = title,
                 tc_description = description, tc_preconditions = preconditions,
                 tc_priority = priority, tc_status = TC_DRAFT, tc_source = source, tc_steps = steps,
                 tc_revision = 1, tc_state_version = 0, tc_created_at = now, tc_updated_at = now\<rparr> in
      bind (writes (\<lambda>s. s\<lparr>qr_test_cases := dset (tc_id rec) rec (qr_test_cases s)\<rparr>)) (\<lambda>_.
      bind (writes (\<lambda>s. s\<lparr>qr_test_case_revisions := dset (tc_id rec) [rec] (qr_test_case_revisions s)\<rparr>)) (\<lambda>_.
      ret rec)))"

definition get_test_case :: "uuid \<Rightarrow> (QualityRepo, TestCaseRecord) pyop" where
  "get_test_case test_case_id s = (case dget (qr_test_cases s) test_case_id of
     None \<Rightarrow> (Inl TestCaseNotFound, s) | Some r \<Rightarrow> (Inr r, s))"

definition list_test_cases :: "uuid option \<Rightarrow> (QualityRepo, TestCaseRecord list) pyop" where
  "list_test_cases project_id = reads (\<lambda>s. sort_key tc_created_at
     (case project_id of
        None \<Rightarrow> dvalues (qr_test_cases s)
      | Some p \<Rightarrow> filter (\<lambda>r. tc_project_id r = p) (dvalues (qr_test_cases s))))"

definition update_test_case ::
  "uuid \<Rightarrow> int \<Rightarrow> TestCaseChanges \<Rightarrow> time \<Rightarrow> (QualityRepo, TestCaseRecord) pyop" where
  "update_test_case test_case_id expected_version changes now =
     bind (get_test_case test_case_id) (\<lambda>current.
     bind (lift (check_version (tc_state_version current) expected_version)) (\<lambda>_.
     bind (lift (test_case_update current changes now)) (\<lambda>updated.
     bind (writes (\<lambda>s. s\<lparr>qr_test_cases := dset test_case_id updated (qr_test_cases s)\<rparr>)) (\<lambda>_.
     bind (reads qr_test_case_revisions) (\<lambda>logs.
     bind (lift (append_revision test_case_id updated logs)) (\<lambda>logs'.
     bind (writes (\<lambda>s. s\<lparr>qr_test_case_revisions := logs'\<rparr>)) (\<lambda>_.
     ret updated)))))))"

definition list_test_case_revisions :: "uuid \<Rightarrow> (QualityRepo, TestCaseRecord list) pyop" where
  "list_test_case_revisions test_case_id =
     bind (get_test_case test_case_id) (\<lambda>_.
     bind (reads (\<lambda>s. dget (qr_test_case_revisions s) test_case_id)) (\<lambda>found.
     case found of None \<Rightarrow> raise KeyError | Some revisions \<Rightarrow> ret revisions))"

definition link_requirement_test_case ::
  "uuid \<Rightarrow> uuid \<Rightarrow> time \<Rightarrow> (QualityRepo, TraceLinkRecord \<times> bool) pyop" where
  "link_requirement_test_case requirement_id test_case_id now =
     bind (get_requirement requirement_id) (\<lambda>requirement.
     bind (get_test_case test_case_id) (\<lambda>test_case.
     if rq_project_id requirement \<noteq> tc_project_id test_case then raise TraceLinkConflict
     else
       bind (reads (\<lambda>s. dget (qr_links s) (requirement_id, test_case_id))) (\<lambda>found.
       case found of
         Some link \<Rightarrow> ret (link, True)
       | None \<Rightarrow>
           (let link = \<lparr>tl_requirement_id = requirement_id, tl_test_case_id = test_case_id,
                        tl_created_at = now\<rparr> in
            bind (writes (\<lambda>s. s\<lparr>qr_links := dset (requirement_id, test_case_id) link (qr_links s)\<rparr>)) (\<lambda>_.
            ret (link, False))))))"

text \<open>\<open>[self._test_cases[item] for item in ids]\<close> raises \<open>KeyError\<close> at the first missing key.\<close>

fun lookup_all :: "('k, 'v) dict \<Rightarrow> 'k list \<Rightarrow> 'v list res" where
  "lookup_all d [] = Inr []"
| "lookup_all d (k # ks) = (case dget d k of
     None \<Rightarrow> Inl KeyError | Some v \<Rightarrow> rbind (lookup_all d ks) (\<lambda>vs. Inr (v # vs)))"

definition list_requirement_test_cases :: "uuid \<Rightarrow> (QualityRepo, TestCaseRecord list) pyop" where
  "list_requirement_test_cases requirement_id =
     bind (get_requirement requirement_id) (\<lambda>_.
     bind (reads (\<lambda>s. map snd (filter (\<lambda>k. fst k = requirement_id) (dkeys (qr_links s))))) (\<lambda>ids.
     bind (reads (\<lambda>s. lookup_all (qr_test_cases s) ids)) (\<lambda>found.
     bind (lift found) (\<lambda>records.
     ret (sort_key tc_created_at records)))))"

section \<open>Steps\<close>

inductive quality_step :: "QualityRepo \<Rightarrow> QualityRepo \<Rightarrow> bool" where
  q_create_requirement: "dget (qr_requirements s) fresh = None \<Longrightarrow>
     quality_step s (snd (create_requirement p title descr fresh now s))"
| q_update_requirement: "quality_step s (snd (update_requirement i title descr status v now s))"
| q_create_test_case: "dget (qr_test_cases s) fresh = None \<Longrightarrow>
     quality_step s (snd (create_test_case p title descr pre prio steps source fresh now s))"
| q_update_test_case: "quality_step s (snd (update_test_case i v changes now s))"
| q_link: "quality_step s (snd (link_requirement_test_case i j now s))"

lemma requirement_update_Inr:
  "requirement_update r title d st now = Inr r' \<Longrightarrow>
     rq_id r' = rq_id r \<and> rq_project_id r' = rq_project_id r \<and> rq_revision r' = rq_revision r + 1 \<and>
     rq_state_version r' = rq_state_version r + 1 \<and> rq_created_at r' = rq_created_at r"
  by (auto simp: requirement_update_def)

lemma test_case_update_Inr:
  "test_case_update r c now = Inr r' \<Longrightarrow>
     tc_id r' = tc_id r \<and> tc_project_id r' = tc_project_id r \<and> tc_revision r' = tc_revision r + 1 \<and>
     tc_state_version r' = tc_state_version r + 1 \<and> tc_created_at r' = tc_created_at r"
  by (auto simp: test_case_update_def)

lemma update_requirement_unfold:
  "update_requirement i title d st v now s =
     (case dget (qr_requirements s) i of
        None \<Rightarrow> (Inl RequirementNotFound, s)
      | Some r \<Rightarrow>
          if rq_state_version r \<noteq> v then (Inl AssetVersionConflict, s)
          else (case requirement_update r title d st now of
             Inl e \<Rightarrow> (Inl e, s)
           | Inr r' \<Rightarrow>
               let s' = s\<lparr>qr_requirements := dset i r' (qr_requirements s)\<rparr> in
               (case dget (qr_requirement_revisions s) i of
                  None \<Rightarrow> (Inl KeyError, s')
                | Some hist \<Rightarrow> (Inr r', s'\<lparr>qr_requirement_revisions :=
                    dset i (hist @ [r']) (qr_requirement_revisions s)\<rparr>))))"
  by (simp add: update_requirement_def get_requirement_def bind_def check_version_def append_revision_def
      guard_def Let_def split: option.split sum.split)

lemma update_test_case_unfold:
  "update_test_case i v c now s =
     (case dget (qr_test_cases s) i of
        None \<Rightarrow> (Inl TestCaseNotFound, s)
      | Some r \<Rightarrow>
          if tc_state_version r \<noteq> v then (Inl AssetVersionConflict, s)
          else (case test_case_update r c now of
             Inl e \<Rightarrow> (Inl e, s)
           | Inr r' \<Rightarrow>
               let s' = s\<lparr>qr_test_cases := dset i r' (qr_test_cases s)\<rparr> in
               (case dget (qr_test_case_revisions s) i of
                  None \<Rightarrow> (Inl KeyError, s')
                | Some hist \<Rightarrow> (Inr r', s'\<lparr>qr_test_case_revisions :=
                    dset i (hist @ [r']) (qr_test_case_revisions s)\<rparr>))))"
  by (simp add: update_test_case_def get_test_case_def bind_def check_version_def append_revision_def
      guard_def Let_def split: option.split sum.split)

lemma create_unfold:
  "create_requirement p title d fresh now s =
     (let r = \<lparr>rq_id = fresh, rq_project_id = p, rq_title = title,
                 rq_description = d, rq_status = RQ_DRAFT, rq_revision = 1,
                 rq_state_version = 0, rq_created_at = now, rq_updated_at = now\<rparr> in
      (Inr r, s\<lparr>qr_requirements := dset fresh r (qr_requirements s),
                qr_requirement_revisions := dset fresh [r] (qr_requirement_revisions s)\<rparr>))"
  "create_test_case p title d pre prio steps source fresh now s =
     (let r = \<lparr>tc_id = fresh, tc_project_id = p, tc_title = title,
                 tc_description = d, tc_preconditions = pre,
                 tc_priority = prio, tc_status = TC_DRAFT, tc_source = source, tc_steps = steps,
                 tc_revision = 1, tc_state_version = 0, tc_created_at = now, tc_updated_at = now\<rparr> in
      (Inr r, s\<lparr>qr_test_cases := dset fresh r (qr_test_cases s),
                qr_test_case_revisions := dset fresh [r] (qr_test_case_revisions s)\<rparr>))"
  by (simp_all add: create_requirement_def create_test_case_def bind_def Let_def)

lemma link_unfold:
  "link_requirement_test_case i j now s =
     (case dget (qr_requirements s) i of
        None \<Rightarrow> (Inl RequirementNotFound, s)
      | Some r \<Rightarrow> (case dget (qr_test_cases s) j of
          None \<Rightarrow> (Inl TestCaseNotFound, s)
        | Some c \<Rightarrow>
            if rq_project_id r \<noteq> tc_project_id c then (Inl TraceLinkConflict, s)
            else (case dget (qr_links s) (i, j) of
               Some l \<Rightarrow> (Inr (l, True), s)
             | None \<Rightarrow>
                let l = \<lparr>tl_requirement_id = i, tl_test_case_id = j, tl_created_at = now\<rparr> in
                (Inr (l, False), s\<lparr>qr_links := dset (i, j) l (qr_links s)\<rparr>))))"
  by (simp add: link_requirement_test_case_def get_requirement_def get_test_case_def bind_def Let_def
      split: option.split)

lemmas quality_unfolds = update_requirement_unfold update_test_case_unfold create_unfold link_unfold

lemma requirement_step:
  "quality_step s t \<Longrightarrow> versioned rq_id rq_revision rq_state_version (qr_requirements s) (qr_requirement_revisions s) \<Longrightarrow>
     versioned_step rq_id rq_revision rq_state_version (qr_requirements s) (qr_requirement_revisions s)
       (qr_requirements t) (qr_requirement_revisions t)"
proof (induction rule: quality_step.induct)
  case (q_create_requirement s fresh p title descr now)
  then show ?case
    by (simp add: create_unfold Let_def versioned_step_create)
next
  case (q_update_requirement s i title descr status v now)
  then show ?case
    by (auto simp: update_requirement_unfold Let_def versioned_step_same split: option.split sum.split
        dest!: versioned_get requirement_update_Inr intro!: versioned_step_update)
qed (auto simp: quality_unfolds Let_def versioned_step_same split: option.split sum.split)

lemma test_case_step:
  "quality_step s t \<Longrightarrow> versioned tc_id tc_revision tc_state_version (qr_test_cases s) (qr_test_case_revisions s) \<Longrightarrow>
     versioned_step tc_id tc_revision tc_state_version (qr_test_cases s) (qr_test_case_revisions s)
       (qr_test_cases t) (qr_test_case_revisions t)"
proof (induction rule: quality_step.induct)
  case (q_create_test_case s fresh p title descr pre prio steps source now)
  then show ?case
    by (simp add: create_unfold Let_def versioned_step_create)
next
  case (q_update_test_case s i v changes now)
  then show ?case
    by (auto simp: update_test_case_unfold Let_def versioned_step_same split: option.split sum.split
        dest!: versioned_get test_case_update_Inr intro!: versioned_step_update)
qed (auto simp: quality_unfolds Let_def versioned_step_same split: option.split sum.split)

text \<open>The contract of versioned assets, for requirements and for test cases.\<close>

interpretation requirements: optimistic_repository
  qr_requirements qr_requirement_revisions rq_id rq_revision rq_state_version quality_step empty_quality
  "\<lambda>(title, descr, status, now) i v. update_requirement i title descr status v now"
  AssetVersionConflict RequirementNotFound
proof unfold_locales
  fix c i v s r' t
  assume "(case c of (title, descr, status, now) \<Rightarrow> \<lambda>i v. update_requirement i title descr status v now) i v s = (Inr r', t)"
    "versioned rq_id rq_revision rq_state_version (qr_requirements s) (qr_requirement_revisions s)"
  moreover obtain title descr status now where c: "c = (title, descr, status, now)" by (cases c)
  moreover have "quality_step s (snd (update_requirement i title descr status v now s))"
    by (rule q_update_requirement)
  ultimately show "\<exists>r. dget (qr_requirements s) i = Some r \<and> rq_state_version r = v \<and> rq_state_version r' = v + 1 \<and>
      dget (qr_requirements t) i = Some r' \<and> quality_step s t"
    by (auto simp: update_requirement_unfold Let_def split: option.splits sum.splits if_splits
        dest: requirement_update_Inr)
qed (auto simp: empty_quality_def update_requirement_unfold split: prod.split intro: requirement_step)

interpretation test_cases: optimistic_repository
  qr_test_cases qr_test_case_revisions tc_id tc_revision tc_state_version quality_step empty_quality
  "\<lambda>(changes, now) i v. update_test_case i v changes now"
  AssetVersionConflict TestCaseNotFound
proof unfold_locales
  fix c i v s r' t
  assume "(case c of (changes, now) \<Rightarrow> \<lambda>i v. update_test_case i v changes now) i v s = (Inr r', t)"
    "versioned tc_id tc_revision tc_state_version (qr_test_cases s) (qr_test_case_revisions s)"
  moreover obtain changes now where c: "c = (changes, now)" by (cases c)
  moreover have "quality_step s (snd (update_test_case i v changes now s))"
    by (rule q_update_test_case)
  ultimately show "\<exists>r. dget (qr_test_cases s) i = Some r \<and> tc_state_version r = v \<and> tc_state_version r' = v + 1 \<and>
      dget (qr_test_cases t) i = Some r' \<and> quality_step s t"
    by (auto simp: update_test_case_unfold Let_def split: option.splits sum.splits if_splits
        dest: test_case_update_Inr)
qed (auto simp: empty_quality_def update_test_case_unfold split: prod.split intro: test_case_step)

section \<open>Trace links\<close>

definition link_ok :: "QualityRepo \<Rightarrow> uuid \<times> uuid \<Rightarrow> bool" where
  "link_ok s k \<longleftrightarrow>
     (case dget (qr_requirements s) (fst k) of
        None \<Rightarrow> False
      | Some r \<Rightarrow> (case dget (qr_test_cases s) (snd k) of
          None \<Rightarrow> False | Some c \<Rightarrow> rq_project_id r = tc_project_id c))"

definition links_ok :: "QualityRepo \<Rightarrow> bool" where
  "links_ok s \<longleftrightarrow> wf_dict (qr_links s) \<and> list_all (link_ok s) (dkeys (qr_links s))"

definition assets_grow :: "QualityRepo \<Rightarrow> QualityRepo \<Rightarrow> bool" where
  "assets_grow s t \<longleftrightarrow>
     (\<forall>i r. dget (qr_requirements s) i = Some r \<longrightarrow>
        map_option rq_project_id (dget (qr_requirements t) i) = Some (rq_project_id r)) \<and>
     (\<forall>j c. dget (qr_test_cases s) j = Some c \<longrightarrow>
        map_option tc_project_id (dget (qr_test_cases t) j) = Some (tc_project_id c))"

lemma link_ok_grow: "link_ok s k \<Longrightarrow> assets_grow s t \<Longrightarrow> link_ok t k"
  by (fastforce simp: link_ok_def assets_grow_def split: option.splits)

lemma links_ok_grow: "links_ok s \<Longrightarrow> assets_grow s t \<Longrightarrow> qr_links t = qr_links s \<Longrightarrow> links_ok t"
  unfolding links_ok_def by (metis link_ok_grow list.pred_mono_strong)

lemma create_grows:
  "dget (qr_requirements s) fresh = None \<Longrightarrow> assets_grow s (snd (create_requirement p title d fresh now s))"
  "dget (qr_test_cases s) fresh = None \<Longrightarrow>
     assets_grow s (snd (create_test_case p title d pre prio steps source fresh now s))"
  "qr_links (snd (create_requirement p title d fresh now s)) = qr_links s"
  "qr_links (snd (create_test_case p title d pre prio steps source fresh now s)) = qr_links s"
  by (simp_all add: create_unfold Let_def assets_grow_def dget_dset)

lemma update_requirement_grows:
  "assets_grow s (snd (update_requirement i title d st v now s))"
  "qr_links (snd (update_requirement i title d st v now s)) = qr_links s"
  by (auto simp: update_requirement_unfold assets_grow_def Let_def dget_dset
      split: option.split sum.split dest!: requirement_update_Inr)

lemma update_test_case_grows:
  "assets_grow s (snd (update_test_case i v c now s))"
  "qr_links (snd (update_test_case i v c now s)) = qr_links s"
  by (auto simp: update_test_case_unfold assets_grow_def Let_def dget_dset
      split: option.split sum.split dest!: test_case_update_Inr)

lemma link_ok_frame [simp]: "link_ok (s\<lparr>qr_links := l\<rparr>) = link_ok s"
  by (simp add: link_ok_def fun_eq_iff split: option.split)

lemma link_cases:
  "snd (link_requirement_test_case i j now s) = s \<or>
   link_ok s (i, j) \<and>
     (\<exists>l. snd (link_requirement_test_case i j now s) = s\<lparr>qr_links := dset (i, j) l (qr_links s)\<rparr>)"
  by (auto simp: link_unfold link_ok_def Let_def split: option.split)

lemma links_ok_link: "links_ok s \<Longrightarrow> links_ok (snd (link_requirement_test_case i j now s))"
  using link_cases [of i j now s] by (auto simp: links_ok_def dkeys_dset)

lemma quality_step_links: "quality_step s t \<Longrightarrow> links_ok s \<Longrightarrow> links_ok t"
  by (induction rule: quality_step.induct)
    (auto intro: links_ok_grow create_grows update_requirement_grows update_test_case_grows links_ok_link)

lemma reachable_links: "quality_step\<^sup>*\<^sup>* empty_quality s \<Longrightarrow> links_ok s"
proof (induction rule: rtranclp_induct)
  case base
  show ?case by (simp add: links_ok_def empty_quality_def)
qed (rule quality_step_links)

lemma lookup_all_Inr: "(\<forall>k \<in> set ks. dget d k \<noteq> None) \<Longrightarrow> lookup_all d ks = Inr (map (\<lambda>k. the (dget d k)) ks)"
  by (induction ks) auto

lemma linked_cases:
  assumes "links_ok s"
  shows "lookup_all (qr_test_cases s) (map snd (filter (\<lambda>k. fst k = i) (dkeys (qr_links s)))) =
     Inr (map (\<lambda>k. the (dget (qr_test_cases s) (snd k))) (filter (\<lambda>k. fst k = i) (dkeys (qr_links s))))"
proof -
  have "dget (qr_test_cases s) (snd k) \<noteq> None" if "k \<in> set (dkeys (qr_links s))" for k
    using assms that by (force simp: links_ok_def link_ok_def list_all_iff split: option.splits)
  then show ?thesis by (subst lookup_all_Inr) auto
qed

section \<open>Properties\<close>

definition demo_quality :: QualityRepo where
  "demo_quality = snd (link_requirement_test_case 1 2 0
     (snd (create_test_case 7 ''case'' [] [] P_LOW [] SRC_MANUAL 2 0
       (snd (create_requirement 7 ''req'' [] 1 0 empty_quality)))))"

lemma demo_quality_reach: "quality_step\<^sup>*\<^sup>* empty_quality demo_quality"
proof -
  let ?a = "snd (create_requirement 7 ''req'' [] 1 0 empty_quality)"
  let ?b = "snd (create_test_case 7 ''case'' [] [] P_LOW [] SRC_MANUAL 2 0 ?a)"
  have "quality_step empty_quality ?a" by (rule q_create_requirement) (simp add: empty_quality_def)
  moreover have "quality_step ?a ?b"
    by (rule q_create_test_case) (simp add: create_unfold Let_def empty_quality_def)
  moreover have "quality_step ?b demo_quality" unfolding demo_quality_def by (rule q_link)
  ultimately show ?thesis by (meson converse_rtranclp_into_rtranclp rtranclp.rtrancl_refl)
qed

text \<open>C24. A link between a requirement and a test case always joins existing assets of the same
  project: in every reachable state the cases listed for an existing requirement are exactly the linked ones,
  the call cannot raise, and every listed case belongs to the requirement's project.\<close>

theorem linked_cases_stay_in_project:
  assumes "quality_step\<^sup>*\<^sup>* empty_quality s" "dget (qr_requirements s) i = Some r"
  shows "(\<exists>cs. list_requirement_test_cases i s = (Inr cs, s) \<and>
      set cs = {c. \<exists>j. (i, j) \<in> set (dkeys (qr_links s)) \<and> dget (qr_test_cases s) j = Some c} \<and>
      list_all (\<lambda>c. tc_project_id c = rq_project_id r) cs)"
proof -
  have ok: "links_ok s" by (rule reachable_links [OF assms(1)])
  let ?ks = "filter (\<lambda>k. fst k = i) (dkeys (qr_links s))"
  let ?cs = "map (\<lambda>k. the (dget (qr_test_cases s) (snd k))) ?ks"
  have k: "\<exists>c. dget (qr_test_cases s) j = Some c \<and> tc_project_id c = rq_project_id r"
    if "(i, j) \<in> set (dkeys (qr_links s))" for j
    using ok that assms(2) by (force simp: links_ok_def link_ok_def list_all_iff split: option.splits)
  have "list_requirement_test_cases i s = (Inr (sort_key tc_created_at ?cs), s)"
    using assms(2) linked_cases [OF ok, of i]
    by (simp add: list_requirement_test_cases_def get_requirement_def bind_def)
  moreover have "set ?cs = {c. \<exists>j. (i, j) \<in> set (dkeys (qr_links s)) \<and> dget (qr_test_cases s) j = Some c}"
    using k by (force simp: image_iff)
  moreover have "list_all (\<lambda>c. tc_project_id c = rq_project_id r) ?cs"
    using k by (force simp: list_all_iff)
  ultimately show ?thesis by (auto simp: list_all_iff)
qed

theorem linked_cases_stay_in_project_witness:
  "\<exists>cs. list_requirement_test_cases 1 demo_quality = (Inr cs, demo_quality) \<and> length cs = 1 \<and>
     list_all (\<lambda>c. tc_project_id c = 7) cs"
proof -
  have r: "dget (qr_requirements demo_quality) 1 = Some \<lparr>rq_id = 1, rq_project_id = 7, rq_title = ''req'',
      rq_description = [], rq_status = RQ_DRAFT, rq_revision = 1, rq_state_version = 0,
      rq_created_at = 0, rq_updated_at = 0\<rparr>"
    and n: "map_option length (case fst (list_requirement_test_cases 1 demo_quality) of Inr cs \<Rightarrow> Some cs | _ \<Rightarrow> None) = Some 1"
    by code_simp+
  from linked_cases_stay_in_project [OF demo_quality_reach r] n show ?thesis by auto
qed

text \<open>Optimistic locking loses no update, for requirements and for test cases: once an
  update guarded by a state version succeeded, every later update guarded by the same version raises
  \<open>AssetVersionConflict\<close> and changes nothing, whatever happened in between.\<close>

theorem quality_updates_are_not_lost:
  assumes "quality_step\<^sup>*\<^sup>* empty_quality s" "quality_step\<^sup>*\<^sup>* t u"
  shows "(update_requirement i title d st v now s = (Inr r, t) \<longrightarrow>
      update_requirement i title' d' st' v now' u = (Inl AssetVersionConflict, u)) \<and>
    (update_test_case i v changes now s = (Inr c, t) \<longrightarrow>
      update_test_case i v changes' now' u = (Inl AssetVersionConflict, u))"
  using requirements.no_lost_update [OF assms(1) _ assms(2),
      of "(title, d, st, now)" i v r "(title', d', st', now')"]
    test_cases.no_lost_update [OF assms(1) _ assms(2), of "(changes, now)" i v c "(changes', now')"]
  by auto

theorem quality_updates_are_not_lost_witness:
  "fst (update_requirement 1 ''new'' [] RQ_ACTIVE 0 1 demo_quality) =
     Inr \<lparr>rq_id = 1, rq_project_id = 7, rq_title = ''new'', rq_description = [], rq_status = RQ_ACTIVE,
       rq_revision = 2, rq_state_version = 1, rq_created_at = 0, rq_updated_at = 1\<rparr> \<and>
   update_requirement 1 ''other'' [] RQ_ACTIVE 0 2 (snd (update_requirement 1 ''new'' [] RQ_ACTIVE 0 1 demo_quality)) =
     (Inl AssetVersionConflict, snd (update_requirement 1 ''new'' [] RQ_ACTIVE 0 1 demo_quality))"
proof -
  let ?r = "\<lparr>rq_id = 1, rq_project_id = 7, rq_title = ''new'', rq_description = [], rq_status = RQ_ACTIVE,
       rq_revision = 2, rq_state_version = 1, rq_created_at = 0, rq_updated_at = 1\<rparr>"
  let ?t = "snd (update_requirement 1 ''new'' [] RQ_ACTIVE 0 1 demo_quality)"
  have f: "fst (update_requirement 1 ''new'' [] RQ_ACTIVE 0 1 demo_quality) = Inr ?r"
    by code_simp
  then have "update_requirement 1 ''new'' [] RQ_ACTIVE 0 1 demo_quality = (Inr ?r, ?t)"
    by (simp add: prod_eq_iff)
  with quality_updates_are_not_lost [OF demo_quality_reach rtranclp.rtrancl_refl, of 1 "''new''" "[]" RQ_ACTIVE 0 1
      ?r ?t "''other''" "[]" RQ_ACTIVE 2] f
  show ?thesis by blast
qed

end
