(* ===== verification/Automation.thy ===== *)
theory Automation
  imports Quality Protocol
begin

text \<open>
  Automation scripts: \<^verbatim>\<open>services/api/automation_domain.py\<close> and the in-memory repository of
  \<^verbatim>\<open>services/api/automation_repository.py\<close>. The test case reader the repository is built with
  is the quality repository, whose state at the time of the call is an argument.
\<close>

section \<open>Domain\<close>

datatype AutomationScriptStatus = AS_DRAFT | AS_ACTIVE | AS_ARCHIVED

definition SCRIPT_TRANSITIONS :: "(AutomationScriptStatus, AutomationScriptStatus list) dict" where
  [table_simps]: "SCRIPT_TRANSITIONS =
     [(AS_DRAFT, [AS_ACTIVE]), (AS_ACTIVE, [AS_ARCHIVED]), (AS_ARCHIVED, [AS_ACTIVE])]"

definition next_script_status ::
  "AutomationScriptStatus \<Rightarrow> AutomationScriptStatus \<Rightarrow> AutomationScriptStatus res" where
  "next_script_status current target =
     (if current = target
      then (if current = AS_ARCHIVED then Inl InvalidAssetTransition else Inr current)
      else if target \<notin> set (case dget SCRIPT_TRANSITIONS current of None \<Rightarrow> [] | Some ts \<Rightarrow> ts)
      then Inl InvalidAssetTransition
      else Inr target)"

record AutomationScriptRecord =
  sc_id :: uuid
  sc_project_id :: uuid
  sc_name :: string
  sc_description :: string
  sc_engine :: Engine
  sc_entrypoint :: string
  sc_source_ref :: string
  sc_content_digest :: string
  sc_timeout_seconds :: int
  sc_status :: AutomationScriptStatus
  sc_revision :: int
  sc_state_version :: int
  sc_created_at :: time
  sc_updated_at :: time

record ScriptChanges =
  scc_name :: string
  scc_description :: string
  scc_entrypoint :: string
  scc_source_ref :: string
  scc_content_digest :: string
  scc_timeout_seconds :: int
  scc_status :: AutomationScriptStatus

definition script_update ::
  "AutomationScriptRecord \<Rightarrow> ScriptChanges \<Rightarrow> time \<Rightarrow> AutomationScriptRecord res" where
  "script_update r c now =
     rbind (next_script_status (sc_status r) (scc_status c)) (\<lambda>nxt.
     Inr (r\<lparr>sc_name := scc_name c, sc_description := scc_description c,
            sc_entrypoint := scc_entrypoint c, sc_source_ref := scc_source_ref c,
            sc_content_digest := scc_content_digest c, sc_timeout_seconds := scc_timeout_seconds c,
            sc_status := nxt, sc_revision := sc_revision r + 1,
            sc_state_version := sc_state_version r + 1, sc_updated_at := now\<rparr>))"

record TestCaseScriptLinkRecord =
  sl_test_case_id :: uuid
  sl_script_id :: uuid
  sl_created_at :: time

section \<open>Repository\<close>

record AutomationRepo =
  ap_scripts :: "(uuid, AutomationScriptRecord) dict"
  ap_revisions :: "(uuid, AutomationScriptRecord list) dict"
  ap_links :: "(uuid \<times> uuid, TestCaseScriptLinkRecord) dict"

definition empty_automation :: AutomationRepo where
  "empty_automation = \<lparr>ap_scripts = [], ap_revisions = [], ap_links = []\<rparr>"

definition new_script ::
  "uuid \<Rightarrow> uuid \<Rightarrow> string \<Rightarrow> string \<Rightarrow> Engine \<Rightarrow> string \<Rightarrow> string \<Rightarrow> string \<Rightarrow> int \<Rightarrow> time \<Rightarrow>
   AutomationScriptRecord" where
  "new_script fresh project_id name description eng entrypoint source_ref content_digest timeout_seconds now =
     \<lparr>sc_id = fresh, sc_project_id = project_id, sc_name = name, sc_description = description,
      sc_engine = eng, sc_entrypoint = entrypoint, sc_source_ref = source_ref,
      sc_content_digest = content_digest, sc_timeout_seconds = timeout_seconds, sc_status = AS_DRAFT,
      sc_revision = 1, sc_state_version = 0, sc_created_at = now, sc_updated_at = now\<rparr>"

definition create_script ::
  "uuid \<Rightarrow> string \<Rightarrow> string \<Rightarrow> Engine \<Rightarrow> string \<Rightarrow> string \<Rightarrow> string \<Rightarrow> int \<Rightarrow> uuid \<Rightarrow> time \<Rightarrow>
   (AutomationRepo, AutomationScriptRecord) pyop" where
  "create_script project_id name description eng entrypoint source_ref content_digest timeout_seconds fresh now =
     (let rec = new_script fresh project_id name description eng entrypoint source_ref content_digest
                  timeout_seconds now in
      bind (writes (\<lambda>s. s\<lparr>ap_scripts := dset (sc_id rec) rec (ap_scripts s)\<rparr>)) (\<lambda>_.
      bind (writes (\<lambda>s. s\<lparr>ap_revisions := dset (sc_id rec) [rec] (ap_revisions s)\<rparr>)) (\<lambda>_.
      ret rec)))"

definition get_script :: "uuid \<Rightarrow> (AutomationRepo, AutomationScriptRecord) pyop" where
  "get_script script_id s = (case dget (ap_scripts s) script_id of
     None \<Rightarrow> (Inl ScriptNotFound, s) | Some r \<Rightarrow> (Inr r, s))"

definition list_scripts :: "uuid \<Rightarrow> (AutomationRepo, AutomationScriptRecord list) pyop" where
  "list_scripts project_id = reads (\<lambda>s. sort_key sc_created_at
     (filter (\<lambda>r. sc_project_id r = project_id) (dvalues (ap_scripts s))))"

definition update_script ::
  "uuid \<Rightarrow> int \<Rightarrow> ScriptChanges \<Rightarrow> time \<Rightarrow> (AutomationRepo, AutomationScriptRecord) pyop" where
  "update_script script_id expected_version changes now =
     bind (get_script script_id) (\<lambda>current.
     if sc_state_version current \<noteq> expected_version then raise AssetVersionConflict
     else
       bind (lift (script_update current changes now)) (\<lambda>updated.
       bind (writes (\<lambda>s. s\<lparr>ap_scripts := dset script_id updated (ap_scripts s)\<rparr>)) (\<lambda>_.
       bind (reads ap_revisions) (\<lambda>logs.
       bind (lift (append_revision script_id updated logs)) (\<lambda>logs'.
       bind (writes (\<lambda>s. s\<lparr>ap_revisions := logs'\<rparr>)) (\<lambda>_.
       ret updated))))))"

definition list_script_revisions :: "uuid \<Rightarrow> (AutomationRepo, AutomationScriptRecord list) pyop" where
  "list_script_revisions script_id =
     bind (get_script script_id) (\<lambda>_.
     bind (reads (\<lambda>s. dget (ap_revisions s) script_id)) (\<lambda>found.
     case found of None \<Rightarrow> raise KeyError | Some revisions \<Rightarrow> ret revisions))"

definition get_script_revision :: "uuid \<Rightarrow> int \<Rightarrow> (AutomationRepo, AutomationScriptRecord) pyop" where
  "get_script_revision script_id revision =
     bind (get_script script_id) (\<lambda>_.
     bind (reads (\<lambda>s. dget (ap_revisions s) script_id)) (\<lambda>found.
     case found of
       None \<Rightarrow> raise KeyError
     | Some revisions \<Rightarrow>
         (if revision < 1 \<or> revision > int (length revisions) then raise ScriptNotFound
          else ret (revisions ! nat (revision - 1)))))"

definition validate_project :: "TestCaseRecord \<Rightarrow> AutomationScriptRecord \<Rightarrow> unit res" where
  "validate_project test_case script =
     guard (tc_project_id test_case \<noteq> sc_project_id script) ScriptLinkConflict"

definition validate_linkable :: "TestCaseRecord \<Rightarrow> AutomationScriptRecord \<Rightarrow> unit res" where
  "validate_linkable test_case script =
     rbind (guard (tc_status test_case = TC_ARCHIVED) ScriptLinkConflict) (\<lambda>_.
     guard (sc_status script = AS_ARCHIVED) ScriptLinkConflict)"

definition link_test_case ::
  "QualityRepo \<Rightarrow> uuid \<Rightarrow> uuid \<Rightarrow> time \<Rightarrow> (AutomationRepo, TestCaseScriptLinkRecord \<times> bool) pyop" where
  "link_test_case quality test_case_id script_id now =
     bind (lift (fst (get_test_case test_case_id quality))) (\<lambda>test_case.
     bind (get_script script_id) (\<lambda>script.
     bind (lift (validate_project test_case script)) (\<lambda>_.
     bind (reads (\<lambda>s. dget (ap_links s) (test_case_id, script_id))) (\<lambda>found.
     case found of
       Some link \<Rightarrow> ret (link, True)
     | None \<Rightarrow>
         bind (lift (validate_linkable test_case script)) (\<lambda>_.
         let link = \<lparr>sl_test_case_id = test_case_id, sl_script_id = script_id, sl_created_at = now\<rparr> in
         bind (writes (\<lambda>s. s\<lparr>ap_links := dset (test_case_id, script_id) link (ap_links s)\<rparr>)) (\<lambda>_.
         ret (link, False)))))))"

definition list_test_case_scripts ::
  "QualityRepo \<Rightarrow> uuid \<Rightarrow> (AutomationRepo, AutomationScriptRecord list) pyop" where
  "list_test_case_scripts quality test_case_id =
     bind (lift (fst (get_test_case test_case_id quality))) (\<lambda>_.
     bind (reads (\<lambda>s. lookup_all (ap_scripts s)
             (map snd (filter (\<lambda>k. fst k = test_case_id) (dkeys (ap_links s)))))) (\<lambda>found.
     bind (lift found) (\<lambda>scripts.
     ret (sort_key sc_created_at scripts))))"

section \<open>Steps and the contract of versioned assets\<close>

inductive script_step :: "AutomationRepo \<Rightarrow> AutomationRepo \<Rightarrow> bool" where
  a_create: "dget (ap_scripts s) fresh = None \<Longrightarrow>
     script_step s (snd (create_script p name descr eng entry src digest timeout fresh now s))"
| a_update: "script_step s (snd (update_script i v changes now s))"
| a_link: "script_step s (snd (link_test_case quality i j now s))"

lemma script_update_Inr:
  "script_update r c now = Inr r' \<Longrightarrow>
     sc_id r' = sc_id r \<and> sc_project_id r' = sc_project_id r \<and> sc_engine r' = sc_engine r \<and>
     sc_revision r' = sc_revision r + 1 \<and> sc_state_version r' = sc_state_version r + 1"
  by (auto simp: script_update_def)

lemma update_script_unfold:
  "update_script i v c now s =
     (case dget (ap_scripts s) i of
        None \<Rightarrow> (Inl ScriptNotFound, s)
      | Some r \<Rightarrow>
          if sc_state_version r \<noteq> v then (Inl AssetVersionConflict, s)
          else (case script_update r c now of
             Inl e \<Rightarrow> (Inl e, s)
           | Inr r' \<Rightarrow>
               let s' = s\<lparr>ap_scripts := dset i r' (ap_scripts s)\<rparr> in
               (case dget (ap_revisions s) i of
                  None \<Rightarrow> (Inl KeyError, s')
                | Some hist \<Rightarrow> (Inr r', s'\<lparr>ap_revisions := dset i (hist @ [r']) (ap_revisions s)\<rparr>))))"
  by (simp add: update_script_def get_script_def bind_def append_revision_def Let_def
      split: option.split sum.split)

lemma create_script_unfold:
  "create_script p name descr eng entry src digest timeout fresh now s =
     (let r = new_script fresh p name descr eng entry src digest timeout now in
      (Inr r, s\<lparr>ap_scripts := dset fresh r (ap_scripts s), ap_revisions := dset fresh [r] (ap_revisions s)\<rparr>))"
  by (simp add: create_script_def new_script_def bind_def Let_def)

lemma new_script_fields [simp]:
  "sc_id (new_script fresh p name descr eng entry src digest timeout now) = fresh"
  "sc_project_id (new_script fresh p name descr eng entry src digest timeout now) = p"
  "sc_revision (new_script fresh p name descr eng entry src digest timeout now) = 1"
  "sc_state_version (new_script fresh p name descr eng entry src digest timeout now) = 0"
  "sc_status (new_script fresh p name descr eng entry src digest timeout now) = AS_DRAFT"
  by (simp_all add: new_script_def)

definition script_link_allowed :: "QualityRepo \<Rightarrow> AutomationRepo \<Rightarrow> uuid \<times> uuid \<Rightarrow> bool" where
  "script_link_allowed quality s k \<longleftrightarrow>
     (case dget (qr_test_cases quality) (fst k) of
        None \<Rightarrow> False
      | Some c \<Rightarrow> (case dget (ap_scripts s) (snd k) of
          None \<Rightarrow> False
        | Some r \<Rightarrow> tc_project_id c = sc_project_id r \<and> tc_status c \<noteq> TC_ARCHIVED \<and> sc_status r \<noteq> AS_ARCHIVED))"

lemma link_test_case_cases:
  "snd (link_test_case quality i j now s) = s \<or>
   script_link_allowed quality s (i, j) \<and> dget (ap_links s) (i, j) = None \<and>
     snd (link_test_case quality i j now s) = s\<lparr>ap_links := dset (i, j)
       \<lparr>sl_test_case_id = i, sl_script_id = j, sl_created_at = now\<rparr> (ap_links s)\<rparr>"
  by (auto simp: link_test_case_def bind_def get_test_case_def get_script_def validate_project_def
      validate_linkable_def guard_def rbind_def Let_def script_link_allowed_def
      split: option.split sum.split prod.split if_splits)

lemma script_step_shape:
  "script_step s t \<Longrightarrow> versioned sc_id sc_revision sc_state_version (ap_scripts s) (ap_revisions s) \<Longrightarrow>
     versioned_step sc_id sc_revision sc_state_version (ap_scripts s) (ap_revisions s) (ap_scripts t) (ap_revisions t)"
proof (induction rule: script_step.induct)
  case (a_create s fresh p name descr eng entry src digest timeout now)
  then show ?case by (simp add: create_script_unfold Let_def versioned_step_create)
next
  case (a_update s i v changes now)
  then show ?case
    by (auto simp: update_script_unfold Let_def versioned_step_same split: option.split sum.split
        dest!: versioned_get script_update_Inr intro!: versioned_step_update)
next
  case (a_link s quality i j now)
  from link_test_case_cases [of quality i j now s] show ?case by (auto simp: versioned_step_same)
qed

interpretation scripts: optimistic_repository
  ap_scripts ap_revisions sc_id sc_revision sc_state_version script_step empty_automation
  "\<lambda>(changes, now) i v. update_script i v changes now" AssetVersionConflict ScriptNotFound
proof unfold_locales
  fix c i v s r' t
  assume "(case c of (changes, now) \<Rightarrow> \<lambda>i v. update_script i v changes now) i v s = (Inr r', t)"
    "versioned sc_id sc_revision sc_state_version (ap_scripts s) (ap_revisions s)"
  moreover obtain changes now where c: "c = (changes, now)" by (cases c)
  moreover have "script_step s (snd (update_script i v changes now s))" by (rule a_update)
  ultimately show "\<exists>r. dget (ap_scripts s) i = Some r \<and> sc_state_version r = v \<and> sc_state_version r' = v + 1 \<and>
      dget (ap_scripts t) i = Some r' \<and> script_step s t"
    by (auto simp: update_script_unfold Let_def split: option.splits sum.splits if_splits
        dest: script_update_Inr)
qed (auto simp: empty_automation_def update_script_unfold split: prod.split intro: script_step_shape)

lemma get_script_revision_at:
  assumes "versioned sc_id sc_revision sc_state_version (ap_scripts s) (ap_revisions s)"
  shows "get_script_revision i n s =
     (case revision_at (ap_revisions s) i n of None \<Rightarrow> (Inl ScriptNotFound, s) | Some r \<Rightarrow> (Inr r, s))"
proof (cases "dget (ap_scripts s) i")
  case None
  moreover have "dget (ap_revisions s) i = None"
    using versioned_log [OF assms] None by (cases "dget (ap_revisions s) i") auto
  ultimately show ?thesis
    by (simp add: get_script_revision_def get_script_def bind_def revision_at_def)
next
  case (Some r)
  with versioned_get [OF assms Some] show ?thesis
    by (auto simp: get_script_revision_def get_script_def bind_def revision_at_def)
qed

section \<open>Properties\<close>

definition demo_changes :: ScriptChanges where
  "demo_changes = \<lparr>scc_name = ''smoke'', scc_description = [], scc_entrypoint = ''test_b.py'',
     scc_source_ref = ''local-source:b'', scc_content_digest = ''d2'', scc_timeout_seconds = 60,
     scc_status = AS_ACTIVE\<rparr>"

definition demo_scripts :: AutomationRepo where
  "demo_scripts = snd (create_script 7 ''smoke'' [] E_PYTEST ''test_a.py'' ''local-source:a'' ''d1'' 30 1 0 empty_automation)"

definition demo_scripts2 :: AutomationRepo where
  "demo_scripts2 = snd (update_script 1 0 demo_changes 5 demo_scripts)"

lemma demo_scripts_reach:
  "script_step\<^sup>*\<^sup>* empty_automation demo_scripts" "script_step\<^sup>*\<^sup>* demo_scripts demo_scripts2"
proof -
  have "script_step empty_automation demo_scripts"
    unfolding demo_scripts_def by (rule a_create) (simp add: empty_automation_def)
  then show "script_step\<^sup>*\<^sup>* empty_automation demo_scripts" by simp
  have "script_step demo_scripts demo_scripts2" unfolding demo_scripts2_def by (rule a_update)
  then show "script_step\<^sup>*\<^sup>* demo_scripts demo_scripts2" by simp
qed

text \<open>C25. A script revision is immutable: once revision \<open>n\<close> of a script can be read, every later
  read of it, after any sequence of creations, updates and links, returns the identical record, which
  carries its own identifier and number. A plan that pins a revision keeps executing the same code.\<close>

theorem pinned_script_revision_never_changes:
  assumes "script_step\<^sup>*\<^sup>* empty_automation s" "script_step\<^sup>*\<^sup>* s t"
    and "get_script_revision i n s = (Inr r, s)"
  shows "get_script_revision i n t = (Inr r, t) \<and> sc_id r = i \<and> sc_revision r = n"
proof -
  have v: "versioned sc_id sc_revision sc_state_version (ap_scripts s) (ap_revisions s)"
    by (rule scripts.reachable_versioned [OF assms(1)])
  have "script_step\<^sup>*\<^sup>* empty_automation t" using assms(1,2) by simp
  note vt = scripts.reachable_versioned [OF this]
  have r: "revision_at (ap_revisions s) i n = Some r"
    using assms(3) by (simp add: get_script_revision_at [OF v] split: option.splits)
  then obtain h where "dget (ap_scripts s) i = Some h"
    using assms(3) by (cases "dget (ap_scripts s) i") (auto simp: get_script_revision_def get_script_def bind_def)
  from scripts.current_is_last_revision(5) [OF assms(1) this r] scripts.revision_stable [OF assms(1,2) r]
  show ?thesis by (simp add: get_script_revision_at [OF vt])
qed

theorem pinned_script_revision_never_changes_witness:
  "map_option sc_entrypoint (dget (ap_scripts demo_scripts2) 1) = Some ''test_b.py'' \<and>
   (\<exists>r. get_script_revision 1 1 demo_scripts2 = (Inr r, demo_scripts2) \<and> sc_entrypoint r = ''test_a.py'')"
proof -
  let ?r = "new_script 1 7 ''smoke'' [] E_PYTEST ''test_a.py'' ''local-source:a'' ''d1'' 30 0"
  have "get_script_revision 1 1 demo_scripts = (Inr ?r, demo_scripts)"
    by (simp add: demo_scripts_def create_script_unfold get_script_revision_def get_script_def bind_def
        Let_def empty_automation_def)
  note pinned_script_revision_never_changes [OF demo_scripts_reach this]
  moreover have "map_option sc_entrypoint (dget (ap_scripts demo_scripts2) 1) = Some ''test_b.py''" by code_simp
  ultimately show ?thesis by (auto simp: new_script_def)
qed

end
