(* ===== verification/Environment.thy ===== *)
theory Environment
  imports Versioned Protocol
begin

text \<open>
  Environments and their secrets: \<^verbatim>\<open>services/api/environment_domain.py\<close>,
  \<^verbatim>\<open>services/api/environment_crypto.py\<close> and \<^verbatim>\<open>services/api/environment_repository.py\<close> (the
  in-memory repository and the configuration resolver).

  The AES-GCM primitive of the package \<^verbatim>\<open>cryptography\<close> is a parameter (\<open>cy_seal\<close>, \<open>cy_open\<close>), and so
  are \<open>json.dumps\<close> (\<open>cy_dumps\<close>, the bytes of the canonical additional data, and \<open>cy_size\<close>, the size
  of an encoded value or the exception it raises) and the random bytes and identifiers drawn.
  Byte strings are lists of characters.
\<close>

section \<open>Domain\<close>

datatype EnvironmentStatus = EN_DRAFT | EN_ACTIVE | EN_ARCHIVED

type_synonym ConfigurationCategory = SecretCategory

fun category_value :: "ConfigurationCategory \<Rightarrow> string" where
  "category_value ENVIRONMENT_VARIABLE = ''environment_variable''"
| "category_value COMMON_PARAMETER = ''common_parameter''"

definition ENVIRONMENT_TRANSITIONS :: "(EnvironmentStatus, EnvironmentStatus list) dict" where
  [table_simps]: "ENVIRONMENT_TRANSITIONS = [(EN_DRAFT, [EN_ACTIVE]), (EN_ACTIVE, [EN_ARCHIVED])]"

definition validate_environment_transition :: "EnvironmentStatus \<Rightarrow> EnvironmentStatus \<Rightarrow> unit res" where
  "validate_environment_transition current target =
     rbind (guard (current = EN_ARCHIVED) InvalidEnvironmentTransition) (\<lambda>_.
     if target = current then Inr ()
     else (case dget ENVIRONMENT_TRANSITIONS current of
        None \<Rightarrow> Inl KeyError
      | Some ts \<Rightarrow> guard (target \<notin> set ts) InvalidEnvironmentTransition))"

record EncryptedSecret =
  es_ciphertext :: string
  es_tag :: string
  es_nonce :: string
  es_wrapped_dek :: string
  es_wrap_nonce :: string
  es_key_id :: string
  es_algorithm :: string

record ConfigurationValueInput =
  ci_name :: string
  ci_value :: pyval
  ci_secret :: bool
  ci_secret_ref :: "uuid option"

record ConfigurationValue =
  cv_category :: ConfigurationCategory
  cv_name :: string
  cv_secret :: bool
  cv_value :: pyval
  cv_secret_ref :: "uuid option"
  cv_encrypted :: "EncryptedSecret option"

record EnvironmentRecord =
  er_id :: uuid
  er_project_id :: uuid
  er_name :: string
  er_status :: EnvironmentStatus
  er_revision :: int
  er_state_version :: int
  er_values :: "ConfigurationValue list"
  er_created_at :: time
  er_updated_at :: time

definition environment_update ::
  "EnvironmentRecord \<Rightarrow> string \<Rightarrow> EnvironmentStatus \<Rightarrow> ConfigurationValue list \<Rightarrow> time \<Rightarrow>
   EnvironmentRecord res" where
  "environment_update r name status values now =
     rbind (validate_environment_transition (er_status r) status) (\<lambda>_.
     Inr (r\<lparr>er_name := name, er_status := status, er_revision := er_revision r + 1,
            er_state_version := er_state_version r + 1, er_values := values, er_updated_at := now\<rparr>))"

record ConfigurationSnapshot =
  sn_environment_id :: uuid
  sn_revision :: int
  sn_environment_variables :: "(string, pyval) dict"
  sn_common_parameters :: "(string, pyval) dict"

section \<open>Encryption\<close>

record Crypto =
  cy_seal :: "string \<Rightarrow> string \<Rightarrow> string \<Rightarrow> string \<Rightarrow> string"
  cy_open :: "string \<Rightarrow> string \<Rightarrow> string \<Rightarrow> string \<Rightarrow> string option"
  cy_dumps :: "pyval \<Rightarrow> string"
  cy_size :: "pyval \<Rightarrow> int res"

text \<open>
  What the package documents: opening what was sealed with the same key, nonce and additional data
  returns the plaintext, and a sealed message is 16 bytes longer than its plaintext.
\<close>

definition aead_ok :: "Crypto \<Rightarrow> bool" where
  "aead_ok cy \<longleftrightarrow> (\<forall>k n p a. cy_open cy k n (cy_seal cy k n p a) a = Some p \<and>
     length (cy_seal cy k n p a) = length p + 16)"

text \<open>UTF-8 on the code points below 256; decoding refuses anything encoding does not produce.\<close>

definition utf8_char :: "char \<Rightarrow> string" where
  "utf8_char c = (let n = of_char c :: nat in
     if n < 128 then [c] else [char_of (192 + n div 64), char_of (128 + n mod 64)])"

definition utf8_encode :: "string \<Rightarrow> string" where
  "utf8_encode s = concat (map utf8_char s)"

fun utf8_decode :: "string \<Rightarrow> string option" where
  "utf8_decode [] = Some []"
| "utf8_decode (b # bs) = (let n = of_char b :: nat in
     if n < 128 then map_option ((#) b) (utf8_decode bs)
     else if n = 194 \<or> n = 195 then
       (case bs of
          [] \<Rightarrow> None
        | b' # bs' \<Rightarrow> (let m = of_char b' :: nat in
            if 128 \<le> m \<and> m < 192
            then map_option ((#) (char_of ((n - 192) * 64 + (m - 128)))) (utf8_decode bs')
            else None))
     else None)"

definition hex_digit :: "nat \<Rightarrow> char" where
  "hex_digit n = ''0123456789abcdef'' ! (n mod 16)"

primrec hex_digits :: "nat \<Rightarrow> nat \<Rightarrow> string" where
  "hex_digits 0 n = []"
| "hex_digits (Suc k) n = hex_digits k (n div 16) @ [hex_digit n]"

definition uuid_str :: "uuid \<Rightarrow> string" where
  "uuid_str u = (let h = hex_digits 32 u in
     take 8 h @ ''-'' @ take 4 (drop 8 h) @ ''-'' @ take 4 (drop 12 h) @ ''-'' @ take 4 (drop 16 h) @
     ''-'' @ drop 20 h)"

definition ALGORITHM :: string where
  "ALGORITHM = ''AES-256-GCM''"

definition canonical_aad ::
  "Crypto \<Rightarrow> uuid \<Rightarrow> uuid \<Rightarrow> int \<Rightarrow> ConfigurationCategory \<Rightarrow> string \<Rightarrow> string" where
  "canonical_aad cy project_id environment_id revision category name =
     utf8_encode (cy_dumps cy (PDict
       [(PStr ''aad_version'', PInt 1),
        (PStr ''category'', PStr (category_value category)),
        (PStr ''environment_id'', PStr (uuid_str environment_id)),
        (PStr ''name'', PStr name),
        (PStr ''project_id'', PStr (uuid_str project_id)),
        (PStr ''revision'', PInt revision)]))"

definition canonical_connector_aad :: "Crypto \<Rightarrow> uuid \<Rightarrow> int \<Rightarrow> string" where
  "canonical_connector_aad cy connector_id secret_revision =
     utf8_encode (cy_dumps cy (PDict
       [(PStr ''aad_version'', PInt 1),
        (PStr ''connector_id'', PStr (uuid_str connector_id)),
        (PStr ''purpose'', PStr ''connector-credential''),
        (PStr ''secret_revision'', PInt secret_revision)]))"

record SecretEncryptor =
  se_key :: "string option"
  se_key_id :: "string option"

definition make_encryptor :: "string option \<Rightarrow> string option \<Rightarrow> SecretEncryptor res" where
  "make_encryptor key key_id =
     rbind (guard ((key = None) \<noteq> (key_id = None)) ValueError) (\<lambda>_.
     rbind (guard (case key of None \<Rightarrow> False | Some k \<Rightarrow> length k \<noteq> 32) ValueError) (\<lambda>_.
     rbind (guard (case key_id of None \<Rightarrow> False | Some i \<Rightarrow> strip i = [] \<or> length i > 255) ValueError) (\<lambda>_.
     Inr \<lparr>se_key = key, se_key_id = key_id\<rparr>)))"

definition require_key :: "SecretEncryptor \<Rightarrow> (string \<times> string) res" where
  "require_key se = (case se_key se of
     None \<Rightarrow> Inl SecretEncryptionUnavailable
   | Some k \<Rightarrow> (case se_key_id se of
       None \<Rightarrow> Inl SecretEncryptionUnavailable | Some i \<Rightarrow> Inr (k, i)))"

text \<open>The random data of one encryption: the data key and the two nonces.\<close>

type_synonym entropy = "string \<times> string \<times> string"

definition seal_with ::
  "Crypto \<Rightarrow> SecretEncryptor \<Rightarrow> entropy \<Rightarrow> string \<Rightarrow> string \<Rightarrow> EncryptedSecret res" where
  "seal_with cy se ent value aad =
     rbind (require_key se) (\<lambda>(key, key_id).
     let (dek, nonce, wrap_nonce) = ent;
         sealed = cy_seal cy dek nonce (utf8_encode value) aad;
         wrapped = cy_seal cy key wrap_nonce dek (aad @ ''|dek-wrap'')
     in Inr \<lparr>es_ciphertext = take (length sealed - 16) sealed, es_tag = drop (length sealed - 16) sealed,
             es_nonce = nonce, es_wrapped_dek = wrapped, es_wrap_nonce = wrap_nonce,
             es_key_id = key_id, es_algorithm = ALGORITHM\<rparr>)"

definition open_with :: "Crypto \<Rightarrow> SecretEncryptor \<Rightarrow> EncryptedSecret \<Rightarrow> string \<Rightarrow> string res" where
  "open_with cy se encrypted aad =
     rbind (require_key se) (\<lambda>(key, key_id).
     if es_key_id encrypted \<noteq> key_id \<or> es_algorithm encrypted \<noteq> ALGORITHM then Inl SecretDecryptionError
     else (case cy_open cy key (es_wrap_nonce encrypted) (es_wrapped_dek encrypted) (aad @ ''|dek-wrap'') of
        None \<Rightarrow> Inl SecretDecryptionError
      | Some dek \<Rightarrow> (case cy_open cy dek (es_nonce encrypted) (es_ciphertext encrypted @ es_tag encrypted) aad of
          None \<Rightarrow> Inl SecretDecryptionError
        | Some plaintext \<Rightarrow> (case utf8_decode plaintext of
            None \<Rightarrow> Inl SecretDecryptionError | Some v \<Rightarrow> Inr v))))"

definition encrypt ::
  "Crypto \<Rightarrow> SecretEncryptor \<Rightarrow> entropy \<Rightarrow> string \<Rightarrow> uuid \<Rightarrow> uuid \<Rightarrow> int \<Rightarrow> ConfigurationCategory \<Rightarrow>
   string \<Rightarrow> EncryptedSecret res" where
  "encrypt cy se ent value project_id environment_id revision category name =
     seal_with cy se ent value (canonical_aad cy project_id environment_id revision category name)"

definition decrypt ::
  "Crypto \<Rightarrow> SecretEncryptor \<Rightarrow> EncryptedSecret \<Rightarrow> uuid \<Rightarrow> uuid \<Rightarrow> int \<Rightarrow> ConfigurationCategory \<Rightarrow>
   string \<Rightarrow> string res" where
  "decrypt cy se encrypted project_id environment_id revision category name =
     open_with cy se encrypted (canonical_aad cy project_id environment_id revision category name)"

definition encrypt_connector ::
  "Crypto \<Rightarrow> SecretEncryptor \<Rightarrow> entropy \<Rightarrow> string \<Rightarrow> uuid \<Rightarrow> int \<Rightarrow> EncryptedSecret res" where
  "encrypt_connector cy se ent value connector_id secret_revision =
     seal_with cy se ent value (canonical_connector_aad cy connector_id secret_revision)"

definition decrypt_connector ::
  "Crypto \<Rightarrow> SecretEncryptor \<Rightarrow> EncryptedSecret \<Rightarrow> uuid \<Rightarrow> int \<Rightarrow> string res" where
  "decrypt_connector cy se encrypted connector_id secret_revision =
     open_with cy se encrypted (canonical_connector_aad cy connector_id secret_revision)"

lemma utf8_round_trip [simp]: "utf8_decode (utf8_encode s) = Some s"
proof (induction s)
  case (Cons c s)
  define n where "n = (of_char c :: nat)"
  have n: "n < 256" unfolding n_def by (rule nat_of_char_less_256)
  have c: "char_of n = c" by (simp add: n_def)
  show ?case
  proof (cases "n < 128")
    case True
    with Cons show ?thesis by (simp add: utf8_encode_def utf8_char_def n_def Let_def)
  next
    case False
    then have d: "n div 64 = 2 \<or> n div 64 = 3" using n by auto
    then have "192 + n div 64 = 194 \<or> 192 + n div 64 = 195" by auto
    moreover have "(192 + n div 64 - 192) * 64 + (128 + n mod 64 - 128) = n" by simp
    moreover have "128 \<le> 128 + n mod 64" "128 + n mod 64 < 192" by simp_all
    ultimately show ?thesis
      using Cons False n d c
      by (auto simp: utf8_encode_def utf8_char_def n_def [symmetric] Let_def of_char_of)
  qed
qed (simp add: utf8_encode_def)

lemma open_seal:
  assumes "aead_ok cy" "seal_with cy se ent v aad = Inr e"
  shows "open_with cy se e aad = Inr v"
proof -
  obtain key key_id where k: "require_key se = Inr (key, key_id)"
    using assms(2) by (auto simp: seal_with_def)
  obtain dek nonce wn where ent: "ent = (dek, nonce, wn)" by (cases ent)
  from assms(2) k ent have e: "e = \<lparr>es_ciphertext = take (length (cy_seal cy dek nonce (utf8_encode v) aad) - 16)
          (cy_seal cy dek nonce (utf8_encode v) aad),
        es_tag = drop (length (cy_seal cy dek nonce (utf8_encode v) aad) - 16) (cy_seal cy dek nonce (utf8_encode v) aad),
        es_nonce = nonce, es_wrapped_dek = cy_seal cy key wn dek (aad @ ''|dek-wrap''),
        es_wrap_nonce = wn, es_key_id = key_id, es_algorithm = ALGORITHM\<rparr>"
    by (simp add: seal_with_def Let_def)
  from assms(1) show ?thesis
    by (simp add: open_with_def k e aead_ok_def)
qed

end
