(* ===== verification/Environment_Repo.thy ===== *)
theory Environment_Repo
  imports Environment
begin

text \<open>
  The environment repository and the configuration resolver of
  \<^verbatim>\<open>services/api/environment_repository.py\<close>. A secret is stored encrypted under additional data that
  names its project, environment, revision, category and key, so an update that keeps a secret by
  reference decrypts it from the current revision and encrypts it again for the next one.
\<close>

section \<open>Validation\<close>

definition MAX_VALUES_PER_CATEGORY :: nat where
  "MAX_VALUES_PER_CATEGORY = 100"

definition MAX_VALUE_BYTES :: int where
  "MAX_VALUE_BYTES = 65536"

definition key_matches :: "string \<Rightarrow> string \<Rightarrow> bool" where
  "key_matches extra s = (case s of
     [] \<Rightarrow> False
   | c # cs \<Rightarrow> (ascii_letter c \<or> c = CHR ''_'') \<and> length cs \<le> 127 \<and>
       list_all (\<lambda>d. ascii_letter d \<or> ascii_digit d \<or> d = CHR ''_'' \<or> d \<in> set extra) cs)"

definition KEY_PATTERN :: "string \<Rightarrow> bool" where
  "KEY_PATTERN = key_matches ''.-''"

definition ENV_KEY_PATTERN :: "string \<Rightarrow> bool" where
  "ENV_KEY_PATTERN = key_matches []"

fun distinct_keys :: "'a list \<Rightarrow> bool" where
  "distinct_keys [] = True"
| "distinct_keys (x # xs) \<longleftrightarrow> x \<notin> set xs \<and> distinct_keys xs"

definition reference_key :: "SecretReference \<Rightarrow> string \<times> string \<times> uuid" where
  "reference_key r = (category_value (sr_category r), sr_name r, sr_secret_ref r)"

text \<open>\<open>str(uuid)\<close> has a fixed length in lower case hexadecimal, so it sorts as the number does.\<close>

definition canonical_secret_references :: "SecretReference list \<Rightarrow> SecretReference list res" where
  "canonical_secret_references references =
     (if \<not> distinct_keys (map reference_key references) then Inl EnvironmentConflict
      else Inr (sort_key reference_key references))"

definition validate_environment_name :: "string \<Rightarrow> string res" where
  "validate_environment_name name =
     (let normalized = strip name in
      if normalized = [] \<or> length normalized > 255 then Inl ValueError else Inr normalized)"

definition is_str :: "pyval \<Rightarrow> bool" where
  "is_str v = (case v of PStr _ \<Rightarrow> True | _ \<Rightarrow> False)"

definition validate_input ::
  "Crypto \<Rightarrow> ConfigurationCategory \<Rightarrow> ConfigurationValueInput \<Rightarrow> unit res" where
  "validate_input cy category item =
     rbind (if ci_secret item
            then
              (if ci_secret_ref item = None \<and> \<not> is_str (ci_value item) then Inl ValueError
               else if ci_secret_ref item \<noteq> None \<and> ci_value item \<noteq> PNone then Inl ValueError
               else Inr ())
            else
              (if ci_secret_ref item \<noteq> None then Inl ValueError
               else if category = ENVIRONMENT_VARIABLE \<and> \<not> is_str (ci_value item) then Inl ValueError
               else Inr ())) (\<lambda>_.
     case cy_size cy (ci_value item) of
       Inl e \<Rightarrow> Inl (if e = TypeError \<or> e = ValueError then ValueError else e)
     | Inr n \<Rightarrow> guard (n > MAX_VALUE_BYTES) ValueError)"

fun validate_input_loop ::
  "Crypto \<Rightarrow> ConfigurationCategory \<Rightarrow> string list \<Rightarrow> ConfigurationValueInput list \<Rightarrow> unit res" where
  "validate_input_loop cy category names [] = Inr ()"
| "validate_input_loop cy category names (item # rest) =
     rbind (guard (\<not> (if category = ENVIRONMENT_VARIABLE then ENV_KEY_PATTERN (ci_name item)
                       else KEY_PATTERN (ci_name item))) ValueError) (\<lambda>_.
     rbind (guard (ci_name item \<in> set names) ValueError) (\<lambda>_.
     rbind (validate_input cy category item) (\<lambda>_.
     validate_input_loop cy category (ci_name item # names) rest)))"

definition validate_inputs ::
  "Crypto \<Rightarrow> ConfigurationCategory \<Rightarrow> ConfigurationValueInput list \<Rightarrow> unit res" where
  "validate_inputs cy category values =
     rbind (guard (length values > MAX_VALUES_PER_CATEGORY) ValueError) (\<lambda>_.
     validate_input_loop cy category [] values)"

section \<open>Building the values of a revision\<close>

text \<open>The draws of one call: the identifiers of new secrets and the entropy of each encryption.\<close>

record Draws =
  dr_ref :: "nat \<Rightarrow> uuid"
  dr_entropy :: "nat \<Rightarrow> entropy"

definition find_source ::
  "ConfigurationCategory \<Rightarrow> ConfigurationValueInput \<Rightarrow> EnvironmentRecord \<Rightarrow> ConfigurationValue option" where
  "find_source category item previous =
     find (\<lambda>v. cv_category v = category \<and> cv_name v = ci_name item \<and>
               cv_secret_ref v = ci_secret_ref item \<and> cv_secret v) (er_values previous)"

text \<open>The plaintext of a secret input: its own value, or the one its reference names.\<close>

definition secret_plaintext ::
  "Crypto \<Rightarrow> SecretEncryptor \<Rightarrow> ConfigurationCategory \<Rightarrow> ConfigurationValueInput \<Rightarrow>
   EnvironmentRecord option \<Rightarrow> string res" where
  "secret_plaintext cy se category item previous =
     (case ci_secret_ref item of
        None \<Rightarrow> (case ci_value item of PStr v \<Rightarrow> Inr v | _ \<Rightarrow> Inl (OtherException ''AttributeError''))
      | Some _ \<Rightarrow> (case previous of
          None \<Rightarrow> Inl EnvironmentConflict
        | Some prev \<Rightarrow> (case find_source category item prev of
            None \<Rightarrow> Inl EnvironmentConflict
          | Some source \<Rightarrow> (case cv_encrypted source of
              None \<Rightarrow> Inl EnvironmentConflict
            | Some enc \<Rightarrow> decrypt cy se enc (er_project_id prev) (er_id prev) (er_revision prev)
                            (cv_category source) (cv_name source)))))"

fun build_category ::
  "Crypto \<Rightarrow> SecretEncryptor \<Rightarrow> Draws \<Rightarrow> uuid \<Rightarrow> uuid \<Rightarrow> int \<Rightarrow> EnvironmentRecord option \<Rightarrow>
   ConfigurationCategory \<Rightarrow> nat \<Rightarrow> ConfigurationValueInput list \<Rightarrow> (ConfigurationValue list \<times> nat) res" where
  "build_category cy se dr project_id environment_id revision previous category n [] = Inr ([], n)"
| "build_category cy se dr project_id environment_id revision previous category n (item # rest) =
     (if \<not> ci_secret item
      then
        rbind (build_category cy se dr project_id environment_id revision previous category n rest) (\<lambda>(vs, k).
        Inr (\<lparr>cv_category = category, cv_name = ci_name item, cv_secret = False, cv_value = ci_value item,
              cv_secret_ref = None, cv_encrypted = None\<rparr> # vs, k))
      else
        rbind (secret_plaintext cy se category item previous) (\<lambda>plaintext.
        rbind (encrypt cy se (dr_entropy dr n) plaintext project_id environment_id revision category
                 (ci_name item)) (\<lambda>encrypted.
        rbind (build_category cy se dr project_id environment_id revision previous category (Suc n) rest) (\<lambda>(vs, k).
        Inr (\<lparr>cv_category = category, cv_name = ci_name item, cv_secret = True, cv_value = PNone,
              cv_secret_ref = Some (dr_ref dr n), cv_encrypted = Some encrypted\<rparr> # vs, k)))))"

definition build_configuration_values ::
  "Crypto \<Rightarrow> SecretEncryptor \<Rightarrow> Draws \<Rightarrow> uuid \<Rightarrow> uuid \<Rightarrow> int \<Rightarrow> ConfigurationValueInput list \<Rightarrow>
   ConfigurationValueInput list \<Rightarrow> EnvironmentRecord option \<Rightarrow> ConfigurationValue list res" where
  "build_configuration_values cy se dr project_id environment_id revision environment_variables
     common_parameters previous =
     rbind (validate_inputs cy ENVIRONMENT_VARIABLE environment_variables) (\<lambda>_.
     rbind (build_category cy se dr project_id environment_id revision previous ENVIRONMENT_VARIABLE 0
              environment_variables) (\<lambda>(variables, n).
     rbind (validate_inputs cy COMMON_PARAMETER common_parameters) (\<lambda>_.
     rbind (build_category cy se dr project_id environment_id revision previous COMMON_PARAMETER n
              common_parameters) (\<lambda>(parameters, _).
     Inr (variables @ parameters)))))"

section \<open>Repository\<close>

record EnvironmentRepo =
  vr_environments :: "(uuid, EnvironmentRecord) dict"
  vr_revisions :: "(uuid, EnvironmentRecord list) dict"
  vr_names :: "(uuid \<times> string, uuid) dict"

definition empty_environments :: EnvironmentRepo where
  "empty_environments = \<lparr>vr_environments = [], vr_revisions = [], vr_names = []\<rparr>"

definition create_environment ::
  "Crypto \<Rightarrow> SecretEncryptor \<Rightarrow> Draws \<Rightarrow> uuid \<Rightarrow> string \<Rightarrow> ConfigurationValueInput list \<Rightarrow>
   ConfigurationValueInput list \<Rightarrow> uuid \<Rightarrow> time \<Rightarrow> (EnvironmentRepo, EnvironmentRecord) pyop" where
  "create_environment cy se dr project_id name environment_variables common_parameters environment_id now =
     bind (lift (validate_environment_name name)) (\<lambda>normalized_name.
     let key = (project_id, normalized_name) in
     bind (reads (\<lambda>s. dget (vr_names s) key)) (\<lambda>found.
     if found \<noteq> None then raise EnvironmentConflict
     else
       bind (lift (build_configuration_values cy se dr project_id environment_id 1 environment_variables
                     common_parameters None)) (\<lambda>values.
       let rec = \<lparr>er_id = environment_id, er_project_id = project_id, er_name = normalized_name,
                  er_status = EN_DRAFT, er_revision = 1, er_state_version = 0, er_values = values,
                  er_created_at = now, er_updated_at = now\<rparr> in
       bind (writes (\<lambda>s. s\<lparr>vr_environments := dset environment_id rec (vr_environments s),
                           vr_revisions := dset environment_id [rec] (vr_revisions s),
                           vr_names := dset key environment_id (vr_names s)\<rparr>)) (\<lambda>_.
       ret rec))))"

definition get_environment :: "uuid \<Rightarrow> (EnvironmentRepo, EnvironmentRecord) pyop" where
  "get_environment environment_id s = (case dget (vr_environments s) environment_id of
     None \<Rightarrow> (Inl EnvironmentNotFound, s) | Some r \<Rightarrow> (Inr r, s))"

definition list_environments :: "uuid \<Rightarrow> (EnvironmentRepo, EnvironmentRecord list) pyop" where
  "list_environments project_id = reads (\<lambda>s. sort_key er_created_at
     (filter (\<lambda>r. er_project_id r = project_id) (dvalues (vr_environments s))))"

text \<open>\<open>del self._names[...]\<close> raises \<open>KeyError\<close> for a missing key.\<close>

definition rename_environment ::
  "EnvironmentRecord \<Rightarrow> string \<Rightarrow> uuid \<Rightarrow> (EnvironmentRepo, unit) pyop" where
  "rename_environment current normalized_name environment_id =
     (if normalized_name \<noteq> er_name current
      then
        bind (reads (\<lambda>s. dget (vr_names s) (er_project_id current, er_name current))) (\<lambda>found.
        case found of
          None \<Rightarrow> raise KeyError
        | Some _ \<Rightarrow> writes (\<lambda>s. s\<lparr>vr_names := dset (er_project_id current, normalized_name) environment_id
                                 (ddel (er_project_id current, er_name current) (vr_names s))\<rparr>))
      else ret ())"

definition update_environment ::
  "Crypto \<Rightarrow> SecretEncryptor \<Rightarrow> Draws \<Rightarrow> uuid \<Rightarrow> int \<Rightarrow> string \<Rightarrow> EnvironmentStatus \<Rightarrow>
   ConfigurationValueInput list \<Rightarrow> ConfigurationValueInput list \<Rightarrow> time \<Rightarrow>
   (EnvironmentRepo, EnvironmentRecord) pyop" where
  "update_environment cy se dr environment_id expected_version name status environment_variables
     common_parameters now =
     bind (lift (validate_environment_name name)) (\<lambda>normalized_name.
     bind (get_environment environment_id) (\<lambda>current.
     if er_state_version current \<noteq> expected_version then raise EnvironmentVersionConflict
     else
       bind (lift (validate_environment_transition (er_status current) status)) (\<lambda>_.
       bind (reads (\<lambda>s. dget (vr_names s) (er_project_id current, normalized_name))) (\<lambda>owner.
       if owner \<noteq> None \<and> owner \<noteq> Some environment_id then raise EnvironmentConflict
       else
         bind (lift (build_configuration_values cy se dr (er_project_id current) (er_id current)
                       (er_revision current + 1) environment_variables common_parameters (Some current))) (\<lambda>values.
         bind (lift (environment_update current normalized_name status values now)) (\<lambda>updated.
         bind (rename_environment current normalized_name environment_id) (\<lambda>_.
         bind (writes (\<lambda>s. s\<lparr>vr_environments := dset environment_id updated (vr_environments s)\<rparr>)) (\<lambda>_.
         bind (reads vr_revisions) (\<lambda>logs.
         bind (lift (append_revision environment_id updated logs)) (\<lambda>logs'.
         bind (writes (\<lambda>s. s\<lparr>vr_revisions := logs'\<rparr>)) (\<lambda>_.
         ret updated)))))))))))"

definition list_environment_revisions :: "uuid \<Rightarrow> (EnvironmentRepo, EnvironmentRecord list) pyop" where
  "list_environment_revisions environment_id =
     bind (get_environment environment_id) (\<lambda>_.
     bind (reads (\<lambda>s. dget (vr_revisions s) environment_id)) (\<lambda>found.
     case found of None \<Rightarrow> raise KeyError | Some revisions \<Rightarrow> ret revisions))"

definition get_environment_revision :: "uuid \<Rightarrow> int \<Rightarrow> (EnvironmentRepo, EnvironmentRecord) pyop" where
  "get_environment_revision environment_id revision =
     bind (get_environment environment_id) (\<lambda>_.
     bind (reads (\<lambda>s. dget (vr_revisions s) environment_id)) (\<lambda>found.
     case found of
       None \<Rightarrow> raise KeyError
     | Some revisions \<Rightarrow>
         (if revision < 1 \<or> revision > int (length revisions) then raise EnvironmentNotFound
          else ret (revisions ! nat (revision - 1)))))"

section \<open>Resolver\<close>

text \<open>\<open>reader\<close> is \<open>get_revision\<close> of the repository the resolver is built with.\<close>

type_synonym revision_reader = "uuid \<Rightarrow> int \<Rightarrow> EnvironmentRecord res"

definition active_record :: "revision_reader \<Rightarrow> uuid \<Rightarrow> uuid \<Rightarrow> int \<Rightarrow> EnvironmentRecord res" where
  "active_record reader project_id environment_id revision =
     rbind (reader environment_id revision) (\<lambda>record.
     if er_project_id record \<noteq> project_id then Inl EnvironmentNotFound
     else if er_status record \<noteq> EN_ACTIVE then Inl EnvironmentConflict
     else Inr record)"

definition open_value :: "Crypto \<Rightarrow> SecretEncryptor \<Rightarrow> EnvironmentRecord \<Rightarrow> ConfigurationValue \<Rightarrow>
   EncryptedSecret \<Rightarrow> string res" where
  "open_value cy se record value encrypted =
     decrypt cy se encrypted (er_project_id record) (er_id record) (er_revision record)
       (cv_category value) (cv_name value)"

record SnapshotState =
  ss_variables :: "(string, pyval) dict"
  ss_parameters :: "(string, pyval) dict"
  ss_matched :: "(ConfigurationCategory \<times> string \<times> uuid) list"

definition assign_target :: "ConfigurationValue \<Rightarrow> pyval \<Rightarrow> SnapshotState \<Rightarrow> SnapshotState" where
  "assign_target value x st =
     (if cv_category value = ENVIRONMENT_VARIABLE
      then st\<lparr>ss_variables := dset (cv_name value) x (ss_variables st)\<rparr>
      else st\<lparr>ss_parameters := dset (cv_name value) x (ss_parameters st)\<rparr>)"

fun snapshot_loop ::
  "Crypto \<Rightarrow> SecretEncryptor \<Rightarrow> EnvironmentRecord \<Rightarrow> (ConfigurationCategory \<times> string \<times> uuid) list \<Rightarrow>
   ConfigurationValue list \<Rightarrow> SnapshotState \<Rightarrow> SnapshotState res" where
  "snapshot_loop cy se record requested [] st = Inr st"
| "snapshot_loop cy se record requested (value # rest) st =
     (if \<not> cv_secret value
      then snapshot_loop cy se record requested rest (assign_target value (cv_value value) st)
      else (case cv_secret_ref value of
         None \<Rightarrow> snapshot_loop cy se record requested rest st
       | Some ref \<Rightarrow>
           if (cv_category value, cv_name value, ref) \<notin> set requested
           then snapshot_loop cy se record requested rest st
           else (case cv_encrypted value of
              None \<Rightarrow> Inl EnvironmentConflict
            | Some encrypted \<Rightarrow>
                rbind (open_value cy se record value encrypted) (\<lambda>plaintext.
                snapshot_loop cy se record requested rest
                  ((assign_target value (PStr plaintext) st)
                     \<lparr>ss_matched := (cv_category value, cv_name value, ref) # ss_matched st\<rparr>)))))"

definition snapshot ::
  "Crypto \<Rightarrow> SecretEncryptor \<Rightarrow> revision_reader \<Rightarrow> uuid \<Rightarrow> uuid \<Rightarrow> int \<Rightarrow> SecretReference list \<Rightarrow>
   ConfigurationSnapshot res" where
  "snapshot cy se reader project_id environment_id revision secret_references =
     rbind (active_record reader project_id environment_id revision) (\<lambda>record.
     let requested = map (\<lambda>r. (sr_category r, sr_name r, sr_secret_ref r)) secret_references in
     rbind (snapshot_loop cy se record requested (er_values record)
              \<lparr>ss_variables = [], ss_parameters = [], ss_matched = []\<rparr>) (\<lambda>st.
     if set (ss_matched st) \<noteq> set requested then Inl EnvironmentConflict
     else Inr \<lparr>sn_environment_id = er_id record, sn_revision = er_revision record,
               sn_environment_variables = ss_variables st, sn_common_parameters = ss_parameters st\<rparr>))"

definition validated_record ::
  "revision_reader \<Rightarrow> uuid \<Rightarrow> uuid \<Rightarrow> int \<Rightarrow> SecretReference list \<Rightarrow>
   (EnvironmentRecord \<times> SecretReference list) res" where
  "validated_record reader project_id environment_id revision secret_references =
     rbind (active_record reader project_id environment_id revision) (\<lambda>record.
     rbind (canonical_secret_references secret_references) (\<lambda>canonical.
     Inr (record, canonical)))"

definition usable_secrets :: "EnvironmentRecord \<Rightarrow> ((string \<times> string \<times> uuid) \<times> ConfigurationValue \<times> EncryptedSecret) list" where
  "usable_secrets record = List.map_filter (\<lambda>v.
     case cv_secret_ref v of
       None \<Rightarrow> None
     | Some ref \<Rightarrow> (case cv_encrypted v of
         None \<Rightarrow> None
       | Some enc \<Rightarrow> if cv_secret v then Some ((category_value (cv_category v), cv_name v, ref), v, enc) else None))
     (er_values record)"

definition validate_secret_references ::
  "revision_reader \<Rightarrow> uuid \<Rightarrow> uuid \<Rightarrow> int \<Rightarrow> SecretReference list \<Rightarrow> SecretReference list res" where
  "validate_secret_references reader project_id environment_id revision secret_references =
     rbind (validated_record reader project_id environment_id revision secret_references) (\<lambda>(record, canonical).
     let available = map fst (usable_secrets record);
         requested = map reference_key canonical
     in if \<not> set requested \<subseteq> set available \<or> card (set requested) \<noteq> length canonical
        then Inl EnvironmentConflict else Inr canonical)"

record ResolvedSecretValue =
  rv_category :: ConfigurationCategory
  rv_name :: string
  rv_secret_ref :: uuid
  rv_value :: string

fun resolve_loop ::
  "Crypto \<Rightarrow> SecretEncryptor \<Rightarrow> EnvironmentRecord \<Rightarrow>
   ((string \<times> string \<times> uuid), ConfigurationValue \<times> EncryptedSecret) dict \<Rightarrow> SecretReference list \<Rightarrow>
   ResolvedSecretValue list res" where
  "resolve_loop cy se record values [] = Inr []"
| "resolve_loop cy se record values (reference # rest) =
     (case dget values (reference_key reference) of
        None \<Rightarrow> Inl KeyError
      | Some (value, encrypted) \<Rightarrow>
          rbind (open_value cy se record value encrypted) (\<lambda>plaintext.
          rbind (resolve_loop cy se record values rest) (\<lambda>resolved.
          Inr (\<lparr>rv_category = cv_category value, rv_name = cv_name value,
                rv_secret_ref = sr_secret_ref reference, rv_value = plaintext\<rparr> # resolved))))"

text \<open>The dictionary comprehension keeps the last value of a repeated key.\<close>

definition resolve_secret_values ::
  "Crypto \<Rightarrow> SecretEncryptor \<Rightarrow> revision_reader \<Rightarrow> uuid \<Rightarrow> uuid \<Rightarrow> int \<Rightarrow> SecretReference list \<Rightarrow>
   ResolvedSecretValue list res" where
  "resolve_secret_values cy se reader project_id environment_id revision secret_references =
     rbind (validated_record reader project_id environment_id revision secret_references) (\<lambda>(record, canonical).
     let values = dmerge [] (usable_secrets record) in
     if \<not> list_all (\<lambda>r. dget values (reference_key r) \<noteq> None) canonical then Inl EnvironmentConflict
     else resolve_loop cy se record values canonical)"

end
