(* ===== verification/Environment_Facts.thy ===== *)
theory Environment_Facts
  imports Environment_Repo
begin

text \<open>
  Properties of the environment repository: it is a repository of versioned assets, its name index
  is exact, every stored secret opens under the key in use, a secret kept by reference keeps its
  plaintext, and references that validate resolve.
\<close>

section \<open>Effect of the operations\<close>

definition new_environment ::
  "uuid \<Rightarrow> uuid \<Rightarrow> string \<Rightarrow> ConfigurationValue list \<Rightarrow> time \<Rightarrow> EnvironmentRecord" where
  "new_environment i p name vals now = \<lparr>er_id = i, er_project_id = p, er_name = name,
     er_status = EN_DRAFT, er_revision = 1, er_state_version = 0, er_values = vals,
     er_created_at = now, er_updated_at = now\<rparr>"

lemma create_environment_Inr:
  "create_environment cy se dr p name vars params i now s = (Inr r, t) \<longleftrightarrow>
     (\<exists>nm vals. validate_environment_name name = Inr nm \<and> dget (vr_names s) (p, nm) = None \<and>
        build_configuration_values cy se dr p i 1 vars params None = Inr vals \<and>
        r = new_environment i p nm vals now \<and>
        t = s\<lparr>vr_environments := dset i r (vr_environments s), vr_revisions := dset i [r] (vr_revisions s),
               vr_names := dset (p, nm) i (vr_names s)\<rparr>)"
  by (auto simp: create_environment_def new_environment_def bind_def Let_def split: sum.splits if_splits)

lemma create_environment_Inl:
  "create_environment cy se dr p name vars params i now s = (Inl e, t) \<Longrightarrow> t = s"
  by (auto simp: create_environment_def bind_def Let_def split: sum.splits if_splits)

definition next_environment ::
  "EnvironmentRecord \<Rightarrow> string \<Rightarrow> EnvironmentStatus \<Rightarrow> ConfigurationValue list \<Rightarrow> time \<Rightarrow> EnvironmentRecord" where
  "next_environment r name st vals now =
     r\<lparr>er_name := name, er_status := st, er_revision := er_revision r + 1,
       er_state_version := er_state_version r + 1, er_values := vals, er_updated_at := now\<rparr>"

lemma next_environment_fields [simp]:
  "er_id (next_environment r name st vals now) = er_id r"
  "er_project_id (next_environment r name st vals now) = er_project_id r"
  "er_name (next_environment r name st vals now) = name"
  "er_status (next_environment r name st vals now) = st"
  "er_revision (next_environment r name st vals now) = er_revision r + 1"
  "er_state_version (next_environment r name st vals now) = er_state_version r + 1"
  "er_values (next_environment r name st vals now) = vals"
  by (simp_all add: next_environment_def)

text \<open>The guards of an update that is accepted, and the record it builds.\<close>

definition update_accepts ::
  "Crypto \<Rightarrow> SecretEncryptor \<Rightarrow> Draws \<Rightarrow> uuid \<Rightarrow> int \<Rightarrow> string \<Rightarrow> EnvironmentStatus \<Rightarrow>
   ConfigurationValueInput list \<Rightarrow> ConfigurationValueInput list \<Rightarrow> time \<Rightarrow> EnvironmentRepo \<Rightarrow>
   EnvironmentRecord \<Rightarrow> EnvironmentRecord \<Rightarrow> bool" where
  "update_accepts cy se dr i v name st vars params now s r r' \<longleftrightarrow>
     (\<exists>nm vals. validate_environment_name name = Inr nm \<and> dget (vr_environments s) i = Some r \<and>
        er_state_version r = v \<and> (dget (vr_names s) (er_project_id r, nm) = None \<or>
          dget (vr_names s) (er_project_id r, nm) = Some i) \<and>
        build_configuration_values cy se dr (er_project_id r) (er_id r) (er_revision r + 1) vars params (Some r) =
          Inr vals \<and>
        r' = next_environment r nm st vals now)"

definition renamed :: "EnvironmentRecord \<Rightarrow> EnvironmentRecord \<Rightarrow> uuid \<Rightarrow> (uuid \<times> string, uuid) dict \<Rightarrow>
    (uuid \<times> string, uuid) dict" where
  "renamed r r' i names =
     (if er_name r' \<noteq> er_name r
      then dset (er_project_id r, er_name r') i (ddel (er_project_id r, er_name r) names) else names)"

lemma update_environment_cases:
  assumes "dget (vr_environments s) i = Some r \<Longrightarrow> dget (vr_revisions s) i = Some hist"
    and "dget (vr_environments s) i = Some r \<Longrightarrow> dget (vr_names s) (er_project_id r, er_name r) \<noteq> None"
    and "dget (vr_environments s) i = Some r \<or> dget (vr_environments s) i = None"
  shows "(\<exists>e. update_environment cy se dr i v name st vars params now s = (Inl e, s)) \<or>
     (\<exists>r'. update_accepts cy se dr i v name st vars params now s r r' \<and>
        update_environment cy se dr i v name st vars params now s =
          (Inr r', s\<lparr>vr_environments := dset i r' (vr_environments s),
                      vr_revisions := dset i (hist @ [r']) (vr_revisions s),
                      vr_names := renamed r r' i (vr_names s)\<rparr>))"
proof (cases "\<exists>e. update_environment cy se dr i v name st vars params now s = (Inl e, s)")
  case False
  obtain nm where nm: "validate_environment_name name = Inr nm"
    using False by (cases "validate_environment_name name") (auto simp: update_environment_def bind_def)
  have r: "dget (vr_environments s) i = Some r"
    using False nm assms(3) by (auto simp: update_environment_def bind_def get_environment_def)
  have v: "er_state_version r = v"
    using False nm r by (auto simp: update_environment_def bind_def get_environment_def split: if_splits)
  have tr: "validate_environment_transition (er_status r) st = Inr ()"
    using False nm r v
    by (cases "validate_environment_transition (er_status r) st")
      (auto simp: update_environment_def bind_def get_environment_def)
  have own: "dget (vr_names s) (er_project_id r, nm) = None \<or> dget (vr_names s) (er_project_id r, nm) = Some i"
    using False nm r v tr
    by (auto simp: update_environment_def bind_def get_environment_def split: if_splits)
  obtain vals where vals: "build_configuration_values cy se dr (er_project_id r) (er_id r)
      (er_revision r + 1) vars params (Some r) = Inr vals"
    using False nm r v tr own
    by (cases "build_configuration_values cy se dr (er_project_id r) (er_id r) (er_revision r + 1) vars params (Some r)")
      (auto simp: update_environment_def bind_def get_environment_def)
  have u: "environment_update r nm st vals now = Inr (next_environment r nm st vals now)"
    by (simp add: environment_update_def tr next_environment_def)
  have "update_accepts cy se dr i v name st vars params now s r (next_environment r nm st vals now)"
    unfolding update_accepts_def using nm r v own vals by blast
  moreover have "update_environment cy se dr i v name st vars params now s =
          (Inr (next_environment r nm st vals now),
           s\<lparr>vr_environments := dset i (next_environment r nm st vals now) (vr_environments s),
              vr_revisions := dset i (hist @ [next_environment r nm st vals now]) (vr_revisions s),
              vr_names := renamed r (next_environment r nm st vals now) i (vr_names s)\<rparr>)"
    using own assms(1,2) [OF r]
    by (auto simp: update_environment_def bind_def get_environment_def nm r v tr vals u
        rename_environment_def append_revision_def renamed_def)
  ultimately show ?thesis by blast
qed blast

section \<open>Steps\<close>

inductive env_step :: "Crypto \<Rightarrow> SecretEncryptor \<Rightarrow> EnvironmentRepo \<Rightarrow> EnvironmentRepo \<Rightarrow> bool"
  for cy se where
  e_create: "dget (vr_environments s) i = None \<Longrightarrow>
     env_step cy se s (snd (create_environment cy se dr p name vars params i now s))"
| e_update: "env_step cy se s (snd (update_environment cy se dr i v name st vars params now s))"

text \<open>The name index holds exactly the current names.\<close>

definition label_of :: "EnvironmentRepo \<Rightarrow> uuid \<Rightarrow> (uuid \<times> string) option" where
  "label_of s i = map_option (\<lambda>r. (er_project_id r, er_name r)) (dget (vr_environments s) i)"

definition names_ok :: "EnvironmentRepo \<Rightarrow> bool" where
  "names_ok s \<longleftrightarrow> (\<forall>k i. dget (vr_names s) k = Some i \<longleftrightarrow> label_of s i = Some k)"

abbreviation env_versioned :: "EnvironmentRepo \<Rightarrow> bool" where
  "env_versioned s \<equiv> versioned er_id er_revision er_state_version (vr_environments s) (vr_revisions s)"

definition env_inv :: "EnvironmentRepo \<Rightarrow> bool" where
  "env_inv s \<longleftrightarrow> env_versioned s \<and> names_ok s"

lemma update_environment_effect:
  assumes "env_inv s"
  obtains (fails) e where "update_environment cy se dr i v name st vars params now s = (Inl e, s)"
  | (updates) r hist r' where "dget (vr_revisions s) i = Some hist" "last hist = r"
      "update_accepts cy se dr i v name st vars params now s r r'"
      "update_environment cy se dr i v name st vars params now s =
          (Inr r', s\<lparr>vr_environments := dset i r' (vr_environments s),
                      vr_revisions := dset i (hist @ [r']) (vr_revisions s),
                      vr_names := renamed r r' i (vr_names s)\<rparr>)"
proof (cases "dget (vr_environments s) i")
  case None
  with update_environment_cases [of s i undefined undefined cy se dr v name st vars params now]
  show ?thesis by (auto simp: update_accepts_def intro: fails)
next
  case (Some r)
  obtain hist where hist: "dget (vr_revisions s) i = Some hist" "last hist = r"
    using assms versioned_get [OF _ Some, of er_id er_revision er_state_version "vr_revisions s"]
    by (auto simp: env_inv_def)
  have "dget (vr_names s) (er_project_id r, er_name r) \<noteq> None"
    using assms Some by (auto simp: env_inv_def names_ok_def label_of_def)
  with update_environment_cases [of s i r hist cy se dr v name st vars params now] hist Some
  show ?thesis using fails updates by blast
qed

lemma update_accepts_fields:
  "update_accepts cy se dr i v name st vars params now s r r' \<Longrightarrow>
     dget (vr_environments s) i = Some r \<and> er_state_version r = v \<and> er_id r' = er_id r \<and>
     er_project_id r' = er_project_id r \<and> er_revision r' = er_revision r + 1 \<and>
     er_state_version r' = er_state_version r + 1 \<and>
     (dget (vr_names s) (er_project_id r, er_name r') = None \<or>
      dget (vr_names s) (er_project_id r, er_name r') = Some i)"
  by (auto simp: update_accepts_def)

lemma names_ok_create:
  assumes "names_ok s" "dget (vr_environments s) i = None" "dget (vr_names s) (p, n) = None"
    "er_project_id r = p" "er_name r = n"
  shows "names_ok (s\<lparr>vr_environments := dset i r (vr_environments s), vr_revisions := l,
            vr_names := dset (p, n) i (vr_names s)\<rparr>)"
proof -
  have "label_of s i = None" using assms(2) by (simp add: label_of_def)
  moreover have "label_of (s\<lparr>vr_environments := dset i r (vr_environments s), vr_revisions := l,
      vr_names := dset (p, n) i (vr_names s)\<rparr>) = (label_of s)(i \<mapsto> (p, n))"
    using assms(4,5) by (simp add: label_of_def fun_eq_iff dget_dset)
  moreover have "dget (vr_names s) k = Some j \<longleftrightarrow> label_of s j = Some k" for k j
    using assms(1) unfolding names_ok_def by blast
  ultimately show ?thesis
    using assms(3) by (auto simp: names_ok_def dget_dset) (metis option.distinct(1))+
qed

lemma names_ok_update:
  assumes "names_ok s" "dget (vr_environments s) i = Some r" "er_project_id r' = er_project_id r"
    and "dget (vr_names s) (er_project_id r, er_name r') = None \<or>
      dget (vr_names s) (er_project_id r, er_name r') = Some i"
  shows "names_ok (s\<lparr>vr_environments := dset i r' (vr_environments s), vr_revisions := l,
            vr_names := renamed r r' i (vr_names s)\<rparr>)"
proof -
  have l: "label_of s i = Some (er_project_id r, er_name r)" using assms(2) by (simp add: label_of_def)
  have "label_of (s\<lparr>vr_environments := dset i r' (vr_environments s), vr_revisions := l,
      vr_names := renamed r r' i (vr_names s)\<rparr>) = (label_of s)(i \<mapsto> (er_project_id r, er_name r'))"
    using assms(3) by (simp add: label_of_def fun_eq_iff dget_dset)
  moreover have "dget (vr_names s) k = Some j \<longleftrightarrow> label_of s j = Some k" for k j
    using assms(1) unfolding names_ok_def by blast
  ultimately show ?thesis
    using l assms(4)
    by (auto simp: names_ok_def renamed_def dget_dset delete_conv') (metis option.distinct(1) option.inject)+
qed

lemma env_step_inv:
  assumes "env_step cy se s t" "env_inv s"
  shows "env_inv t \<and> versioned_step er_id er_revision er_state_version
     (vr_environments s) (vr_revisions s) (vr_environments t) (vr_revisions t)"
  using assms
proof (induction rule: env_step.induct)
  case (e_create s i dr p name vars params now)
  show ?case
  proof (cases "create_environment cy se dr p name vars params i now s")
    case (Pair x t)
    show ?thesis
    proof (cases x)
      case (Inl e)
      with create_environment_Inl [of cy se dr p name vars params i now s] Pair e_create(2) show ?thesis
        by (simp add: versioned_step_same)
    next
      case (Inr r)
      then obtain nm vals where "dget (vr_names s) (p, nm) = None" "r = new_environment i p nm vals now"
        "t = s\<lparr>vr_environments := dset i r (vr_environments s), vr_revisions := dset i [r] (vr_revisions s),
               vr_names := dset (p, nm) i (vr_names s)\<rparr>"
        using Pair by (auto simp: create_environment_Inr)
      with e_create Pair show ?thesis
        by (simp add: env_inv_def versioned_create versioned_step_create names_ok_create new_environment_def)
    qed
  qed
next
  case (e_update s dr i v name st vars params now)
  from e_update show ?case
  proof (cases rule: update_environment_effect [of s cy se dr i v name st vars params now])
    case (updates r hist r')
    with update_accepts_fields [OF updates(3)] e_update show ?thesis
      by (simp add: env_inv_def versioned_update versioned_step_update names_ok_update)
  qed (use e_update in \<open>simp_all add: versioned_step_same\<close>)
qed

lemma empty_env_inv: "env_inv empty_environments"
  by (simp add: env_inv_def versioned_def empty_environments_def names_ok_def label_of_def)

text \<open>
  The contract of versioned assets, for environments. Steps start in states whose name index is
  exact: outside them a rename could fail half way.
\<close>

definition env_good_step :: "Crypto \<Rightarrow> SecretEncryptor \<Rightarrow> EnvironmentRepo \<Rightarrow> EnvironmentRepo \<Rightarrow> bool" where
  "env_good_step cy se s t \<longleftrightarrow> env_inv s \<and> env_step cy se s t"

lemma env_good_steps:
  assumes "(env_step cy se)\<^sup>*\<^sup>* s t" "env_inv s"
  shows "(env_good_step cy se)\<^sup>*\<^sup>* s t \<and> env_inv t"
  using assms
proof (induction rule: rtranclp_induct)
  case (step t u)
  then have "env_good_step cy se t u" "env_inv u"
    using env_step_inv by (auto simp: env_good_step_def)
  with step show ?case by (auto intro: rtranclp.rtrancl_into_rtrancl)
qed simp

interpretation environments: versioned_repository
  vr_environments vr_revisions er_id er_revision er_state_version "env_good_step cy se" empty_environments
  for cy se
  by unfold_locales (auto simp: empty_environments_def env_good_step_def dest: env_step_inv)

lemma get_environment_revision_at:
  assumes "env_versioned s"
  shows "get_environment_revision i n s =
     (case revision_at (vr_revisions s) i n of None \<Rightarrow> (Inl EnvironmentNotFound, s) | Some r \<Rightarrow> (Inr r, s))"
proof (cases "dget (vr_environments s) i")
  case None
  moreover have "dget (vr_revisions s) i = None"
    using versioned_log [OF assms] None by (cases "dget (vr_revisions s) i") auto
  ultimately show ?thesis
    by (simp add: get_environment_revision_def get_environment_def bind_def revision_at_def)
next
  case (Some r)
  with versioned_get [OF assms Some] show ?thesis
    by (auto simp: get_environment_revision_def get_environment_def bind_def revision_at_def)
qed

section \<open>Secrets\<close>

definition built ::
  "Crypto \<Rightarrow> SecretEncryptor \<Rightarrow> uuid \<Rightarrow> uuid \<Rightarrow> int \<Rightarrow> EnvironmentRecord option \<Rightarrow> ConfigurationCategory \<Rightarrow>
   ConfigurationValueInput \<Rightarrow> ConfigurationValue \<Rightarrow> bool" where
  "built cy se p i n prev cat item v \<longleftrightarrow>
     cv_category v = cat \<and> cv_name v = ci_name item \<and> cv_secret v = ci_secret item \<and>
     (ci_secret item \<longrightarrow> (\<exists>plain ref e. secret_plaintext cy se cat item prev = Inr plain \<and>
        cv_secret_ref v = Some ref \<and> cv_encrypted v = Some e \<and>
        decrypt cy se e p i n cat (ci_name item) = Inr plain)) \<and>
     (\<not> ci_secret item \<longrightarrow> cv_value v = ci_value item)"

lemma build_category_built:
  assumes "aead_ok cy" "build_category cy se dr p i n prev cat k items = Inr (vs, m)"
  shows "list_all2 (built cy se p i n prev cat) items vs"
  using assms(2)
proof (induction items arbitrary: k vs m)
  case (Cons item rest)
  show ?case
  proof (cases "ci_secret item")
    case True
    with Cons(2) obtain plain e vs' where
      "secret_plaintext cy se cat item prev = Inr plain"
      "encrypt cy se (dr_entropy dr k) plain p i n cat (ci_name item) = Inr e"
      "build_category cy se dr p i n prev cat (Suc k) rest = Inr (vs', m)"
      "vs = \<lparr>cv_category = cat, cv_name = ci_name item, cv_secret = True, cv_value = PNone,
              cv_secret_ref = Some (dr_ref dr k), cv_encrypted = Some e\<rparr> # vs'"
      by auto
    with True Cons(1) open_seal [OF assms(1)] show ?thesis
      by (auto simp: built_def encrypt_def decrypt_def)
  next
    case False
    with Cons show ?thesis by (auto simp: built_def)
  qed
qed simp

lemma validate_loop_distinct:
  "validate_input_loop cy cat names items = Inr () \<Longrightarrow>
     distinct (map ci_name items) \<and> set (map ci_name items) \<inter> set names = {}"
proof (induction items arbitrary: names)
  case (Cons item items)
  from Cons(1) [of "ci_name item # names"] Cons(2) show ?case by auto
qed simp

text \<open>A record is sound when keys are unique in each category and every secret opens.\<close>

definition value_key :: "ConfigurationValue \<Rightarrow> ConfigurationCategory \<times> string" where
  "value_key v = (cv_category v, cv_name v)"

definition opens :: "Crypto \<Rightarrow> SecretEncryptor \<Rightarrow> EnvironmentRecord \<Rightarrow> ConfigurationValue \<Rightarrow> bool" where
  "opens cy se r v \<longleftrightarrow> (\<exists>ref e plain. cv_secret_ref v = Some ref \<and> cv_encrypted v = Some e \<and>
     open_value cy se r v e = Inr plain)"

definition sound_record :: "Crypto \<Rightarrow> SecretEncryptor \<Rightarrow> EnvironmentRecord \<Rightarrow> bool" where
  "sound_record cy se r \<longleftrightarrow> distinct (map value_key (er_values r)) \<and>
     (\<forall>v \<in> set (er_values r). cv_secret v \<longrightarrow> opens cy se r v)"

lemma built_keys: "list_all2 (built cy se p i n prev cat) items vs \<Longrightarrow>
    map value_key vs = map (\<lambda>item. (cat, ci_name item)) items"
  by (induction rule: list_all2_induct) (auto simp: built_def value_key_def)

lemma built_opens:
  "list_all2 (built cy se p i n prev cat) items vs \<Longrightarrow> er_project_id r = p \<Longrightarrow> er_id r = i \<Longrightarrow>
     er_revision r = n \<Longrightarrow> v \<in> set vs \<Longrightarrow> cv_secret v \<Longrightarrow> opens cy se r v"
  by (induction rule: list_all2_induct) (auto simp: built_def opens_def open_value_def)

lemma build_values_parts:
  assumes "aead_ok cy" "build_configuration_values cy se dr p i n vars params prev = Inr vals"
  obtains vs ps where "vals = vs @ ps"
    "list_all2 (built cy se p i n prev ENVIRONMENT_VARIABLE) vars vs"
    "list_all2 (built cy se p i n prev COMMON_PARAMETER) params ps"
    "distinct (map ci_name vars)" "distinct (map ci_name params)"
proof -
  from assms(2) obtain vs k ps m where
    "validate_inputs cy ENVIRONMENT_VARIABLE vars = Inr ()" "validate_inputs cy COMMON_PARAMETER params = Inr ()"
    "build_category cy se dr p i n prev ENVIRONMENT_VARIABLE 0 vars = Inr (vs, k)"
    "build_category cy se dr p i n prev COMMON_PARAMETER k params = Inr (ps, m)" "vals = vs @ ps"
    by (auto simp: build_configuration_values_def)
  with that build_category_built [OF assms(1)] validate_loop_distinct show ?thesis
    by (auto simp: validate_inputs_def)
qed

lemma build_values_sound:
  assumes "aead_ok cy"
    "build_configuration_values cy se dr (er_project_id r) (er_id r) (er_revision r) vars params prev = Inr (er_values r)"
  shows "sound_record cy se r"
  using assms
proof (cases rule: build_values_parts)
  case (1 vs ps)
  have "distinct (map value_key (er_values r))"
    using 1(4,5) by (auto simp: 1(1) built_keys [OF 1(2)] built_keys [OF 1(3)] distinct_map inj_on_def)
  moreover have "opens cy se r v" if "v \<in> set (er_values r)" "cv_secret v" for v
    using that built_opens [OF 1(2)] built_opens [OF 1(3)] by (auto simp: 1(1))
  ultimately show ?thesis by (simp add: sound_record_def)
qed

definition all_sound :: "Crypto \<Rightarrow> SecretEncryptor \<Rightarrow> EnvironmentRepo \<Rightarrow> bool" where
  "all_sound cy se s \<longleftrightarrow> (\<forall>i hist. dget (vr_revisions s) i = Some hist \<longrightarrow> (\<forall>r \<in> set hist. sound_record cy se r))"

lemma env_step_sound:
  assumes "env_step cy se s t" "env_inv s" "aead_ok cy" "all_sound cy se s"
  shows "all_sound cy se t"
  using assms
proof (induction rule: env_step.induct)
  case (e_create s i dr p name vars params now)
  show ?case
  proof (cases "create_environment cy se dr p name vars params i now s")
    case (Pair x t)
    show ?thesis
    proof (cases x)
      case (Inl e)
      with create_environment_Inl [of cy se dr p name vars params i now s] Pair e_create show ?thesis by simp
    next
      case (Inr r)
      then obtain nm vals where "build_configuration_values cy se dr p i 1 vars params None = Inr vals"
        "r = new_environment i p nm vals now" "vr_revisions t = dset i [r] (vr_revisions s)"
        using Pair by (auto simp: create_environment_Inr)
      with build_values_sound [of cy se dr r vars params None] e_create Pair show ?thesis
        by (auto simp: all_sound_def dget_dset new_environment_def)
    qed
  qed
next
  case (e_update s dr i v name st vars params now)
  from e_update(1) show ?case
  proof (cases rule: update_environment_effect [of s cy se dr i v name st vars params now])
    case (updates r hist r')
    from updates(3) obtain vals where
      "build_configuration_values cy se dr (er_project_id r) (er_id r) (er_revision r + 1) vars params (Some r) = Inr vals"
      "er_project_id r' = er_project_id r" "er_id r' = er_id r" "er_revision r' = er_revision r + 1" "er_values r' = vals"
      by (auto simp: update_accepts_def)
    then have "sound_record cy se r'" using e_update(2) by (intro build_values_sound) auto
    with updates(1,4) e_update(3) show ?thesis by (auto simp: all_sound_def dget_dset)
  qed (use e_update in simp)
qed

lemma reachable_environments:
  assumes "(env_step cy se)\<^sup>*\<^sup>* empty_environments s" "aead_ok cy"
  shows "env_inv s \<and> all_sound cy se s"
  using assms(1)
proof (induction rule: rtranclp_induct)
  case base
  show ?case by (simp add: empty_env_inv all_sound_def) (simp add: empty_environments_def)
next
  case (step t u)
  then show ?case using env_step_inv env_step_sound assms(2) by blast
qed

text \<open>The plaintext a record holds under a category and a key.\<close>

definition reveal ::
  "Crypto \<Rightarrow> SecretEncryptor \<Rightarrow> EnvironmentRecord \<Rightarrow> ConfigurationCategory \<Rightarrow> string \<Rightarrow> string option" where
  "reveal cy se r cat name =
     (case find (\<lambda>v. cv_category v = cat \<and> cv_name v = name \<and> cv_secret v) (er_values r) of
        None \<Rightarrow> None
      | Some v \<Rightarrow> (case cv_encrypted v of
          None \<Rightarrow> None
        | Some e \<Rightarrow> (case open_value cy se r v e of Inl _ \<Rightarrow> None | Inr plain \<Rightarrow> Some plain)))"

lemma find_unique: "x \<in> set xs \<Longrightarrow> P x \<Longrightarrow> (\<And>y. y \<in> set xs \<Longrightarrow> P y \<Longrightarrow> y = x) \<Longrightarrow> find P xs = Some x"
proof (induction xs)
  case (Cons a xs)
  show ?case
  proof (cases "P a")
    case True
    with Cons(4) [of a] show ?thesis by simp
  next
    case False
    with Cons(2,3) have "x \<in> set xs" by auto
    with Cons(1) [OF this Cons(3)] Cons(4) False show ?thesis by simp
  qed
qed simp

lemma distinct_map_eq: "distinct (map f xs) \<Longrightarrow> x \<in> set xs \<Longrightarrow> y \<in> set xs \<Longrightarrow> f x = f y \<Longrightarrow> x = y"
  by (auto simp: distinct_map inj_on_def)

lemma find_value:
  assumes "sound_record cy se r" "v \<in> set (er_values r)" "cv_secret v"
  shows "find (\<lambda>w. cv_category w = cv_category v \<and> cv_name w = cv_name v \<and> cv_secret w) (er_values r) = Some v"
proof (rule find_unique [OF assms(2)])
  fix w assume "w \<in> set (er_values r)" "cv_category w = cv_category v \<and> cv_name w = cv_name v \<and> cv_secret w"
  then show "w = v"
    using assms(1,2) by (intro distinct_map_eq [of value_key]) (simp_all add: sound_record_def value_key_def)
qed (simp add: assms(3))

lemma reveal_value:
  assumes "sound_record cy se r" "v \<in> set (er_values r)" "cv_secret v" "cv_encrypted v = Some e"
  shows "reveal cy se r (cv_category v) (cv_name v) =
    (case open_value cy se r v e of Inl _ \<Rightarrow> None | Inr plain \<Rightarrow> Some plain)"
  by (simp add: reveal_def find_value [OF assms(1-3)] assms(4))

lemma secret_plaintext_reveals:
  assumes "sound_record cy se r" "secret_plaintext cy se cat item (Some r) = Inr plain"
    and "ci_secret_ref item \<noteq> None"
  shows "reveal cy se r cat (ci_name item) = Some plain"
proof -
  obtain v e where v: "find_source cat item r = Some v" "cv_encrypted v = Some e"
    "decrypt cy se e (er_project_id r) (er_id r) (er_revision r) (cv_category v) (cv_name v) = Inr plain"
    using assms(2,3) by (auto simp: secret_plaintext_def split: option.splits)
  from v(1) have "v \<in> set (er_values r)" "cv_category v = cat" "cv_name v = ci_name item" "cv_secret v"
    by (auto simp: find_source_def find_Some_iff)
  with reveal_value [OF assms(1) this(1,4) v(2)] v(3) show ?thesis by (simp add: open_value_def)
qed

lemma update_reveals:
  assumes "aead_ok cy" "sound_record cy se r'" "er_project_id r' = p" "er_id r' = i" "er_revision r' = n"
    and "list_all2 (built cy se p i n prev cat) items vs" "set vs \<subseteq> set (er_values r')"
    and "item \<in> set items" "ci_secret item"
  shows "\<exists>plain. secret_plaintext cy se cat item prev = Inr plain \<and>
     reveal cy se r' cat (ci_name item) = Some plain"
proof -
  obtain v where "v \<in> set vs" "built cy se p i n prev cat item v"
    using assms(6,8) by (metis in_set_conv_nth list_all2_conv_all_nth)
  moreover from this assms(9) obtain plain ref e where b: "secret_plaintext cy se cat item prev = Inr plain"
      "cv_encrypted v = Some e" "decrypt cy se e p i n cat (ci_name item) = Inr plain"
      "cv_category v = cat" "cv_name v = ci_name item" "cv_secret v"
    by (auto simp: built_def)
  ultimately have "v \<in> set (er_values r')" using assms(7) by auto
  from reveal_value [OF assms(2) this b(6,2)] b assms(3-5) show ?thesis
    by (auto simp: open_value_def)
qed

lemma update_keeps_secrets:
  assumes reach: "(env_step cy se)\<^sup>*\<^sup>* empty_environments s" "aead_ok cy"
    and upd: "update_environment cy se dr i v name st vars params now s = (Inr r', t)"
    and item: "cat = ENVIRONMENT_VARIABLE \<and> item \<in> set vars \<or> cat = COMMON_PARAMETER \<and> item \<in> set params"
      "ci_secret item"
  shows "\<exists>r plain. dget (vr_environments s) i = Some r \<and>
     reveal cy se r' cat (ci_name item) = Some plain \<and>
     (ci_secret_ref item \<noteq> None \<longrightarrow> reveal cy se r cat (ci_name item) = Some plain) \<and>
     (ci_secret_ref item = None \<longrightarrow> ci_value item = PStr plain)"
proof -
  have inv: "env_inv s" "all_sound cy se s" using reachable_environments [OF reach] by auto
  from inv(1) show ?thesis
  proof (cases rule: update_environment_effect [of s cy se dr i v name st vars params now])
    case (updates r hist r1)
    have "r1 = r'" using updates(4) upd by simp
    then obtain vals where a: "dget (vr_environments s) i = Some r"
      "build_configuration_values cy se dr (er_project_id r) (er_id r) (er_revision r + 1) vars params (Some r) = Inr vals"
      "er_project_id r' = er_project_id r" "er_id r' = er_id r" "er_revision r' = er_revision r + 1" "er_values r' = vals"
      using updates(3) by (auto simp: update_accepts_def)
    have "hist \<noteq> []" using versioned_log [OF _ updates(1)] inv(1) by (fastforce simp: env_inv_def log_ok_def)
    with updates(1,2) inv(2) have sr: "sound_record cy se r" by (auto simp: all_sound_def)
    have sr': "sound_record cy se r'" using a reach(2) by (intro build_values_sound) auto
    from reach(2) a(2) obtain plain where "secret_plaintext cy se cat item (Some r) = Inr plain"
      "reveal cy se r' cat (ci_name item) = Some plain"
    proof (cases rule: build_values_parts)
      case (1 vs ps)
      with that item a update_reveals [OF reach(2) sr' a(3-5) 1(2)] update_reveals [OF reach(2) sr' a(3-5) 1(3)]
      show ?thesis by auto
    qed
    with a(1) secret_plaintext_reveals [OF sr this(1)] show ?thesis
      by (auto simp: secret_plaintext_def split: option.splits pyval.splits)
  qed (use upd in simp)
qed

section \<open>Resolving references\<close>

lemma in_map_filter: "y \<in> set (List.map_filter f xs) \<longleftrightarrow> (\<exists>x \<in> set xs. f x = Some y)"
  by (induction xs) (auto simp: map_filter_simps split: option.split)

lemma usable_secrets_iff:
  "(k, v, e) \<in> set (usable_secrets r) \<longleftrightarrow> v \<in> set (er_values r) \<and> cv_secret v \<and> cv_encrypted v = Some e \<and>
     (\<exists>ref. cv_secret_ref v = Some ref \<and> k = (category_value (cv_category v), cv_name v, ref))"
  by (auto simp: usable_secrets_def in_map_filter split: option.splits if_splits)

lemma dget_merge_all:
  "k \<in> set (map fst d) \<Longrightarrow> \<exists>v. dget (dmerge [] d) k = Some v \<and> (k, v) \<in> set d"
proof -
  assume "k \<in> set (map fst d)"
  then obtain v where v: "dget (rev d) k = Some v"
    using map_of_eq_None_iff [of "rev d" k] by auto
  then have "(k, v) \<in> set d" using map_of_SomeD [OF v] by simp
  with v show ?thesis by (simp add: dget_dmerge)
qed

lemma category_value_inj [simp]: "category_value a = category_value b \<longleftrightarrow> a = b"
  by (cases a; cases b) auto

definition resolved_key :: "ResolvedSecretValue \<Rightarrow> string \<times> string \<times> uuid" where
  "resolved_key v = (category_value (rv_category v), rv_name v, rv_secret_ref v)"

lemma resolve_loop_complete:
  assumes "sound_record cy se r" "set (map reference_key refs) \<subseteq> set (map fst (usable_secrets r))"
  shows "\<exists>vs. resolve_loop cy se r (dmerge [] (usable_secrets r)) refs = Inr vs \<and>
     map resolved_key vs = map reference_key refs \<and>
     list_all (\<lambda>v. reveal cy se r (rv_category v) (rv_name v) = Some (rv_value v)) vs"
  using assms(2)
proof (induction refs)
  case (Cons ref refs)
  then obtain vs where vs: "resolve_loop cy se r (dmerge [] (usable_secrets r)) refs = Inr vs"
    "map resolved_key vs = map reference_key refs"
    "list_all (\<lambda>v. reveal cy se r (rv_category v) (rv_name v) = Some (rv_value v)) vs" by auto
  have "reference_key ref \<in> set (map fst (usable_secrets r))" using Cons(2) by auto
  then obtain v e where ve: "dget (dmerge [] (usable_secrets r)) (reference_key ref) = Some (v, e)"
    "(reference_key ref, v, e) \<in> set (usable_secrets r)"
    using dget_merge_all by (metis prod.exhaust)
  then obtain plain where plain: "open_value cy se r v e = Inr plain"
    using assms(1) by (auto simp: usable_secrets_iff sound_record_def opens_def)
  have k: "v \<in> set (er_values r)" "cv_secret v" "cv_encrypted v = Some e"
    "cv_category v = sr_category ref" "cv_name v = sr_name ref"
    using ve(2) by (auto simp: usable_secrets_iff reference_key_def)
  have "resolved_key \<lparr>rv_category = cv_category v, rv_name = cv_name v, rv_secret_ref = sr_secret_ref ref,
      rv_value = plain\<rparr> = reference_key ref"
    using k by (simp add: resolved_key_def reference_key_def)
  with reveal_value [OF assms(1) k(1-3)] plain ve(1) vs show ?case by simp
qed simp

abbreviation revisions_of :: "EnvironmentRepo \<Rightarrow> revision_reader" where
  "revisions_of s \<equiv> \<lambda>i n. fst (get_environment_revision i n s)"

lemma revision_sound:
  assumes "(env_step cy se)\<^sup>*\<^sup>* empty_environments s" "aead_ok cy"
    and "fst (get_environment_revision i n s) = Inr r"
  shows "sound_record cy se r \<and> revision_at (vr_revisions s) i n = Some r"
proof -
  have inv: "env_inv s" "all_sound cy se s" using reachable_environments [OF assms(1,2)] by auto
  have r: "revision_at (vr_revisions s) i n = Some r"
    using assms(3) inv(1)
    by (simp add: get_environment_revision_at env_inv_def split: option.splits)
  then obtain hist where "dget (vr_revisions s) i = Some hist" "r \<in> set hist"
    by (auto simp: revision_at_def split: option.splits if_splits)
  with inv(2) r show ?thesis by (auto simp: all_sound_def)
qed

section \<open>Properties\<close>

text \<open>A transparent stand-in for the primitive, a key, and one environment with a secret.\<close>

definition demo_crypto :: Crypto where
  "demo_crypto = \<lparr>cy_seal = (\<lambda>k n p a. p @ replicate 16 CHR ''t''),
     cy_open = (\<lambda>k n c a. if length c < 16 then None else Some (take (length c - 16) c)),
     cy_dumps = (\<lambda>_. ''{}''), cy_size = (\<lambda>_. Inr 2)\<rparr>"

definition demo_encryptor :: SecretEncryptor where
  "demo_encryptor = \<lparr>se_key = Some (replicate 32 CHR ''k''), se_key_id = Some ''k1''\<rparr>"

definition demo_draws :: Draws where
  "demo_draws = \<lparr>dr_ref = (\<lambda>n. 100 + n), dr_entropy = (\<lambda>_. (''d'', ''n'', ''w''))\<rparr>"

definition demo_secret :: ConfigurationValueInput where
  "demo_secret = \<lparr>ci_name = ''TOKEN'', ci_value = PStr ''hunter2'', ci_secret = True, ci_secret_ref = None\<rparr>"

definition kept_secret :: ConfigurationValueInput where
  "kept_secret = \<lparr>ci_name = ''TOKEN'', ci_value = PNone, ci_secret = True, ci_secret_ref = Some 100\<rparr>"

definition demo_environments :: EnvironmentRepo where
  "demo_environments = snd (create_environment demo_crypto demo_encryptor demo_draws 7 ''staging''
     [demo_secret] [] 1 0 empty_environments)"

definition demo_environments2 :: "EnvironmentRecord res \<times> EnvironmentRepo" where
  "demo_environments2 = update_environment demo_crypto demo_encryptor demo_draws 1 0 ''prod'' EN_ACTIVE
     [kept_secret] [] 5 demo_environments"

lemma demo_aead: "aead_ok demo_crypto"
  by (simp add: aead_ok_def demo_crypto_def)

lemma demo_environments_reach:
  "(env_step demo_crypto demo_encryptor)\<^sup>*\<^sup>* empty_environments demo_environments"
  "(env_step demo_crypto demo_encryptor)\<^sup>*\<^sup>* empty_environments (snd demo_environments2)"
proof -
  have a: "env_step demo_crypto demo_encryptor empty_environments demo_environments"
    unfolding demo_environments_def by (rule e_create) (simp add: empty_environments_def)
  moreover have "env_step demo_crypto demo_encryptor demo_environments (snd demo_environments2)"
    unfolding demo_environments2_def by (rule e_update)
  ultimately show "(env_step demo_crypto demo_encryptor)\<^sup>*\<^sup>* empty_environments demo_environments"
    "(env_step demo_crypto demo_encryptor)\<^sup>*\<^sup>* empty_environments (snd demo_environments2)"
    by (auto intro: rtranclp.rtrancl_into_rtrancl)
qed

text \<open>C26. An update keeps the secrets it is asked to keep. In every reachable state, when an update
  of an environment succeeds, each secret input that refers to the current revision still reveals
  the very plaintext it had before, re-encrypted for the new revision, and each secret input with a new value
  reveals that value.\<close>

theorem secret_survives_update:
  assumes "(env_step cy se)\<^sup>*\<^sup>* empty_environments s" "aead_ok cy"
    and "update_environment cy se dr i v name st vars params now s = (Inr r', t)"
    and "cat = ENVIRONMENT_VARIABLE \<and> item \<in> set vars \<or> cat = COMMON_PARAMETER \<and> item \<in> set params"
    and "ci_secret item"
  shows "\<exists>r plain. dget (vr_environments s) i = Some r \<and>
     reveal cy se r' cat (ci_name item) = Some plain \<and>
     (ci_secret_ref item \<noteq> None \<longrightarrow> reveal cy se r cat (ci_name item) = Some plain) \<and>
     (ci_secret_ref item = None \<longrightarrow> ci_value item = PStr plain)"
  by (rule update_keeps_secrets [OF assms])

theorem secret_survives_update_witness:
  "\<exists>r'. fst demo_environments2 = Inr r' \<and> er_revision r' = 2 \<and>
     reveal demo_crypto demo_encryptor r' ENVIRONMENT_VARIABLE ''TOKEN'' = Some ''hunter2''"
proof -
  have "case fst demo_environments2 of Inl _ \<Rightarrow> False | Inr r \<Rightarrow> er_revision r = 2"
    by code_simp
  then obtain r' where r': "fst demo_environments2 = Inr r'" "er_revision r' = 2"
    by (auto split: sum.splits)
  then have u: "update_environment demo_crypto demo_encryptor demo_draws 1 0 ''prod'' EN_ACTIVE
     [kept_secret] [] 5 demo_environments = (Inr r', snd demo_environments2)"
    by (simp add: demo_environments2_def prod_eq_iff)
  have old: "map_option (\<lambda>r. reveal demo_crypto demo_encryptor r ENVIRONMENT_VARIABLE ''TOKEN'')
      (dget (vr_environments demo_environments) 1) = Some (Some ''hunter2'')" by code_simp
  have "ci_secret kept_secret" "ci_secret_ref kept_secret \<noteq> None" "ci_name kept_secret = ''TOKEN''"
    by (simp_all add: kept_secret_def)
  with secret_survives_update [OF demo_environments_reach(1) demo_aead u, of ENVIRONMENT_VARIABLE kept_secret] old r'
  show ?thesis by auto
qed

lemma accepted_references_resolve:
  assumes "(env_step cy se)\<^sup>*\<^sup>* empty_environments s" "aead_ok cy"
    and "validate_secret_references (revisions_of s) p i n refs = Inr canonical"
  shows "\<exists>r vs. revision_at (vr_revisions s) i n = Some r \<and> er_project_id r = p \<and> er_status r = EN_ACTIVE \<and>
     resolve_secret_values cy se (revisions_of s) p i n refs = Inr vs \<and>
     map resolved_key vs = map reference_key canonical \<and> set canonical = set refs \<and>
     list_all (\<lambda>v. reveal cy se r (rv_category v) (rv_name v) = Some (rv_value v)) vs"
proof -
  obtain r where r: "fst (get_environment_revision i n s) = Inr r" "er_project_id r = p" "er_status r = EN_ACTIVE"
    "canonical_secret_references refs = Inr canonical"
    "set (map reference_key canonical) \<subseteq> set (map fst (usable_secrets r))"
    using assms(3)
    by (auto simp: validate_secret_references_def validated_record_def active_record_def Let_def split: if_splits)
  note sound = revision_sound [OF assms(1,2) r(1)]
  have "dget (dmerge [] (usable_secrets r)) (reference_key ref) \<noteq> None" if "ref \<in> set canonical" for ref
  proof -
    have "reference_key ref \<in> set (map fst (usable_secrets r))" using r(5) that by auto
    from dget_merge_all [OF this] show ?thesis by auto
  qed
  then have "list_all (\<lambda>ref. dget (dmerge [] (usable_secrets r)) (reference_key ref) \<noteq> None) canonical"
    by (simp add: list_all_iff)
  with resolve_loop_complete [OF _ r(5)] sound r show ?thesis
    by (auto simp: resolve_secret_values_def validated_record_def active_record_def Let_def
        canonical_secret_references_def split: if_splits)
qed

text \<open>References that validate resolve: in every reachable state, when the resolver accepts a
  list of secret references for a revision, resolving them for the same revision succeeds and yields,
  in canonical order, exactly one value per reference, each the plaintext that revision holds.\<close>

theorem validated_references_resolve:
  assumes "(env_step cy se)\<^sup>*\<^sup>* empty_environments s" "aead_ok cy"
    and "validate_secret_references (revisions_of s) p i n refs = Inr canonical"
  shows "\<exists>r vs. revision_at (vr_revisions s) i n = Some r \<and> er_project_id r = p \<and> er_status r = EN_ACTIVE \<and>
     resolve_secret_values cy se (revisions_of s) p i n refs = Inr vs \<and>
     map resolved_key vs = map reference_key canonical \<and> set canonical = set refs \<and>
     list_all (\<lambda>v. reveal cy se r (rv_category v) (rv_name v) = Some (rv_value v)) vs"
  by (rule accepted_references_resolve [OF assms])

definition demo_reference :: SecretReference where
  "demo_reference = \<lparr>sr_category = ENVIRONMENT_VARIABLE, sr_name = ''TOKEN'', sr_secret_ref = 100\<rparr>"

theorem validated_references_resolve_witness:
  "\<exists>vs. resolve_secret_values demo_crypto demo_encryptor (revisions_of (snd demo_environments2)) 7 1 2
       [demo_reference] = Inr vs \<and> map rv_value vs = [''hunter2'']"
proof -
  have "validate_secret_references (revisions_of (snd demo_environments2)) 7 1 2 [demo_reference] =
      Inr [demo_reference]" by code_simp
  from validated_references_resolve [OF demo_environments_reach(2) demo_aead this]
  obtain vs where vs: "resolve_secret_values demo_crypto demo_encryptor (revisions_of (snd demo_environments2)) 7 1 2
       [demo_reference] = Inr vs" by blast
  moreover have "(case resolve_secret_values demo_crypto demo_encryptor (revisions_of (snd demo_environments2)) 7 1 2
       [demo_reference] of Inl _ \<Rightarrow> [] | Inr vs \<Rightarrow> map rv_value vs) = [''hunter2'']" by code_simp
  ultimately show ?thesis by simp
qed

text \<open>The name index is exact and every revision is immutable: in every reachable state two
  environments of a project never share a name, the index maps each (project, name) to the environment that
  carries it and to nothing else, and a revision that could be read earlier reads the same now.\<close>

theorem environment_names_are_unique:
  assumes "(env_step cy se)\<^sup>*\<^sup>* empty_environments s" "(env_step cy se)\<^sup>*\<^sup>* s t"
  shows "(dget (vr_environments t) i = Some r \<and> dget (vr_environments t) j = Some r2 \<and>
      er_project_id r = er_project_id r2 \<and> er_name r = er_name r2 \<longrightarrow> i = j) \<and>
    (dget (vr_names t) (p, name) = Some i \<longleftrightarrow>
      map_option (\<lambda>r. (er_project_id r, er_name r)) (dget (vr_environments t) i) = Some (p, name)) \<and>
    (get_environment_revision k n s = (Inr q, s) \<longrightarrow> get_environment_revision k n t = (Inr q, t))"
proof -
  note s = env_good_steps [OF assms(1) empty_env_inv]
  then have t: "(env_good_step cy se)\<^sup>*\<^sup>* s t" "env_inv t"
    using env_good_steps [OF assms(2)] by auto
  have n: "dget (vr_names t) key = Some i \<longleftrightarrow> label_of t i = Some key" for key i
    using t(2) unfolding env_inv_def names_ok_def by blast
  have "dget (vr_environments t) i = Some r \<and> dget (vr_environments t) j = Some r2 \<and>
      er_project_id r = er_project_id r2 \<and> er_name r = er_name r2 \<longrightarrow> i = j"
    using n [of "(er_project_id r, er_name r)" i] n [of "(er_project_id r, er_name r)" j]
    by (auto simp: label_of_def)
  moreover have "get_environment_revision k n s = (Inr q, s) \<longrightarrow> get_environment_revision k n t = (Inr q, t)"
    using environments.revision_stable [of cy se s t k n q] s t
    by (auto simp: env_inv_def get_environment_revision_at split: option.splits)
  ultimately show ?thesis using n by (auto simp: label_of_def)
qed

theorem environment_names_are_unique_witness:
  "dget (vr_names (snd demo_environments2)) (7, ''prod'') = Some 1 \<and>
   dget (vr_names (snd demo_environments2)) (7, ''staging'') = None"
proof -
  have "map_option (\<lambda>r. (er_project_id r, er_name r)) (dget (vr_environments (snd demo_environments2)) 1) =
      Some (7, ''prod'')" by code_simp
  with environment_names_are_unique [OF demo_environments_reach(2) rtranclp.rtrancl_refl, of 1 undefined 1 undefined 7 "''prod''"]
  have "dget (vr_names (snd demo_environments2)) (7, ''prod'') = Some 1" by blast
  moreover have "dget (vr_names (snd demo_environments2)) (7, ''staging'') = None" by code_simp
  ultimately show ?thesis by blast
qed

end
