(* ===== verification/Test_Plan.thy ===== *)
theory Test_Plan
  imports Automation Environment_Repo Run_Repo
begin

text \<open>
  Test plans: \<^verbatim>\<open>services/api/test_plan_domain.py\<close> and the in-memory repository of
  \<^verbatim>\<open>services/api/test_plan_repository.py\<close>. A plan pins script and environment revisions; executing
  it expands every data row of every item into one run and its run specification, and a batch hands
  runs out within its parallelism.

  The readers of script and environment revisions are arguments (\<open>get_script_revision\<close> and
  \<open>get_environment_revision\<close> of their repositories in a given state), the plan repository and the
  run repository it writes to form one state, and identifiers, clock and the size of an encoded JSON
  value are arguments as in the other theories.
\<close>

section \<open>Domain\<close>

datatype TestPlanStatus = PL_DRAFT | PL_ACTIVE | PL_ARCHIVED

definition PLAN_TRANSITIONS :: "(TestPlanStatus, TestPlanStatus list) dict" where
  [table_simps]: "PLAN_TRANSITIONS = [(PL_DRAFT, [PL_ACTIVE]), (PL_ACTIVE, [PL_ARCHIVED])]"

definition validate_plan_transition :: "TestPlanStatus \<Rightarrow> TestPlanStatus \<Rightarrow> unit res" where
  "validate_plan_transition current target =
     rbind (guard (current = PL_ARCHIVED) InvalidTestPlanTransition) (\<lambda>_.
     if target = current then Inr ()
     else (case dget PLAN_TRANSITIONS current of
        None \<Rightarrow> Inl KeyError
      | Some ts \<Rightarrow> guard (target \<notin> set ts) InvalidTestPlanTransition))"

record TestPlanDataRow =
  dw_row_key :: string
  dw_values :: params

record TestPlanItem =
  pi_item_id :: uuid
  pi_script_id :: uuid
  pi_script_revision :: int
  pi_environment_id :: "uuid option"
  pi_environment_revision :: "int option"
  pi_default_parameters :: params
  pi_data_rows :: "TestPlanDataRow list"
  pi_execution_policy :: ExecutionPolicy

record TestPlanRecord =
  pl_id :: uuid
  pl_tenant_id :: uuid
  pl_project_id :: uuid
  pl_name :: string
  pl_description :: string
  pl_items :: "TestPlanItem list"
  pl_max_parallel :: int
  pl_status :: TestPlanStatus
  pl_revision :: int
  pl_state_version :: int
  pl_created_at :: time
  pl_updated_at :: time

definition plan_update ::
  "TestPlanRecord \<Rightarrow> string \<Rightarrow> string \<Rightarrow> TestPlanItem list \<Rightarrow> int \<Rightarrow> TestPlanStatus \<Rightarrow> time \<Rightarrow>
   TestPlanRecord res" where
  "plan_update r name description items max_parallel status now =
     rbind (validate_plan_transition (pl_status r) status) (\<lambda>_.
     Inr (r\<lparr>pl_name := name, pl_description := description, pl_items := items,
            pl_max_parallel := max_parallel, pl_status := status, pl_revision := pl_revision r + 1,
            pl_state_version := pl_state_version r + 1, pl_updated_at := now\<rparr>))"

record RunSpecRecord =
  sp_id :: uuid
  sp_run_id :: uuid
  sp_batch_id :: uuid
  sp_tenant_id :: uuid
  sp_project_id :: uuid
  sp_plan_id :: uuid
  sp_plan_revision :: int
  sp_item_id :: uuid
  sp_row_key :: string
  sp_engine :: Engine
  sp_script_id :: uuid
  sp_script_revision :: int
  sp_source_ref :: string
  sp_content_digest :: string
  sp_entrypoint :: string
  sp_timeout_seconds :: int
  sp_environment_id :: "uuid option"
  sp_environment_revision :: "int option"
  sp_environment_variables :: params
  sp_parameters :: params
  sp_secret_references :: "SecretReference list"
  sp_execution_policy :: ExecutionPolicy
  sp_created_at :: time

record ExecutionBatchRecord =
  eb_id :: uuid
  eb_tenant_id :: uuid
  eb_project_id :: uuid
  eb_plan_id :: uuid
  eb_plan_revision :: int
  eb_idempotency_key :: string
  eb_max_parallel :: int
  eb_run_ids :: "uuid list"
  eb_created_at :: time

section \<open>Normalisation\<close>

definition MAX_PLAN_ITEMS :: nat where "MAX_PLAN_ITEMS = 100"
definition MAX_PLAN_ROWS :: nat where "MAX_PLAN_ROWS = 1000"
definition MAX_JSON_MAP_BYTES :: int where "MAX_JSON_MAP_BYTES = 65536"

text \<open>The nested \<open>validate\<close> of \<open>_json_object\<close>: \<open>isinstance(item, dict)\<close> excludes a \<open>FrozenMapping\<close>.\<close>

fun json_plain :: "pyval \<Rightarrow> bool" where
  "json_plain PNone = True"
| "json_plain (PStr _) = True"
| "json_plain (PBool _) = True"
| "json_plain (PInt _) = True"
| "json_plain (PFloat f) = (f \<noteq> NaN \<and> f \<noteq> PosInf \<and> f \<noteq> NegInf)"
| "json_plain (PList xs) = list_all json_plain xs"
| "json_plain (PDict d) = list_all (\<lambda>(k, v). is_text k \<and> json_plain v) d"
| "json_plain _ = False"

definition json_object :: "(pyval \<Rightarrow> int res) \<Rightarrow> params \<Rightarrow> params res" where
  "json_object json_size value =
     (if \<not> list_all (\<lambda>(k, v). json_plain v) value then Inl ValueError
      else (case json_size (PDict (map (\<lambda>(k, v). (PStr k, v)) value)) of
         Inl e \<Rightarrow> Inl (if e = TypeError \<or> e = ValueError \<or> e = OtherException ''RecursionError''
                        then ValueError else e)
       | Inr n \<Rightarrow> if n > MAX_JSON_MAP_BYTES then Inl ValueError else Inr value))"

fun normalize_rows ::
  "(pyval \<Rightarrow> int res) \<Rightarrow> string list \<Rightarrow> TestPlanDataRow list \<Rightarrow> TestPlanDataRow list res" where
  "normalize_rows json_size row_keys [] = Inr []"
| "normalize_rows json_size row_keys (row # rest) =
     (let key = strip (dw_row_key row) in
      if key = [] \<or> length key > 255 then Inl ValueError
      else if key \<in> set row_keys then Inl ValueError
      else
        rbind (json_object json_size (dw_values row)) (\<lambda>vals.
        rbind (normalize_rows json_size (key # row_keys) rest) (\<lambda>rows.
        Inr (\<lparr>dw_row_key = key, dw_values = vals\<rparr> # rows))))"

definition default_rows :: "TestPlanDataRow list \<Rightarrow> TestPlanDataRow list" where
  "default_rows rows = (if rows = [] then [\<lparr>dw_row_key = ''default'', dw_values = []\<rparr>] else rows)"

definition normalize_item :: "(pyval \<Rightarrow> int res) \<Rightarrow> TestPlanItem \<Rightarrow> TestPlanItem res" where
  "normalize_item json_size item =
     rbind (guard (pi_script_revision item < 1) ValueError) (\<lambda>_.
     rbind (guard ((pi_environment_id item = None) \<noteq> (pi_environment_revision item = None)) ValueError) (\<lambda>_.
     rbind (guard (case pi_environment_revision item of None \<Rightarrow> False | Some n \<Rightarrow> n < 1) ValueError) (\<lambda>_.
     rbind (normalize_rows json_size [] (default_rows (pi_data_rows item))) (\<lambda>rows.
     rbind (json_object json_size (pi_default_parameters item)) (\<lambda>defaults.
     Inr (item\<lparr>pi_default_parameters := defaults, pi_data_rows := rows\<rparr>))))))"

fun normalize_items ::
  "(pyval \<Rightarrow> int res) \<Rightarrow> uuid list \<Rightarrow> TestPlanItem list \<Rightarrow> TestPlanItem list res" where
  "normalize_items json_size item_ids [] = Inr []"
| "normalize_items json_size item_ids (item # rest) =
     (if pi_item_id item \<in> set item_ids then Inl ValueError
      else
        rbind (normalize_item json_size item) (\<lambda>normalized.
        rbind (normalize_items json_size (pi_item_id item # item_ids) rest) (\<lambda>others.
        Inr (normalized # others))))"

definition total_rows :: "TestPlanItem list \<Rightarrow> nat" where
  "total_rows items = sum_list (map (\<lambda>item. length (pi_data_rows item)) items)"

definition normalize_plan_items :: "(pyval \<Rightarrow> int res) \<Rightarrow> TestPlanItem list \<Rightarrow> TestPlanItem list res" where
  "normalize_plan_items json_size items =
     rbind (guard (items = []) ValueError) (\<lambda>_.
     rbind (guard (length items > MAX_PLAN_ITEMS) ValueError) (\<lambda>_.
     rbind (normalize_items json_size [] items) (\<lambda>normalized.
     rbind (guard (total_rows normalized > MAX_PLAN_ROWS) ValueError) (\<lambda>_.
     Inr normalized))))"

definition normalize_plan_text :: "string \<Rightarrow> string \<Rightarrow> (string \<times> string) res" where
  "normalize_plan_text name description =
     (let normalized = strip name in
      if normalized = [] \<or> length normalized > 255 then Inl ValueError
      else if length description > 100000 then Inl ValueError
      else Inr (normalized, description))"

definition check_max_parallel :: "int \<Rightarrow> int res" where
  "check_max_parallel v = (if v < 1 \<or> v > 100 then Inl ValueError else Inr v)"

section \<open>Repository\<close>

record PlanSys =
  pr_plans :: "(uuid, TestPlanRecord) dict"
  pr_revisions :: "(uuid, TestPlanRecord list) dict"
  pr_batches :: "(uuid, ExecutionBatchRecord) dict"
  pr_specs_by_run :: "(uuid, RunSpecRecord) dict"
  pr_idempotency :: "(uuid \<times> uuid \<times> string, uuid \<times> int \<times> uuid) dict"
  pr_runs :: RunRepo

definition empty_plans :: PlanSys where
  "empty_plans = \<lparr>pr_plans = [], pr_revisions = [], pr_batches = [], pr_specs_by_run = [],
     pr_idempotency = [], pr_runs = empty_repo\<rparr>"

text \<open>An operation of the run repository, on the run repository of the system.\<close>

definition on_runs :: "(RunRepo, 'a) pyop \<Rightarrow> (PlanSys, 'a) pyop" where
  "on_runs m s = (let (x, r) = m (pr_runs s) in (x, s\<lparr>pr_runs := r\<rparr>))"

type_synonym script_reader = "uuid \<Rightarrow> int \<Rightarrow> AutomationScriptRecord res"

text \<open>The collaborators of the repository and the draws of one call.\<close>

record PlanEnv =
  pe_scripts :: script_reader
  pe_environments :: revision_reader
  pe_size :: "pyval \<Rightarrow> int res"
  pe_ids :: "nat \<Rightarrow> uuid \<times> uuid"

definition http_only_parts :: "ExecutionPolicy \<Rightarrow> bool" where
  "http_only_parts p \<longleftrightarrow> xp_before_steps p \<noteq> [] \<or> xp_after_steps p \<noteq> [] \<or> xp_assertions p \<noteq> [] \<or>
     xp_extractions p \<noteq> []"

definition validate_reference :: "PlanEnv \<Rightarrow> uuid \<Rightarrow> TestPlanItem \<Rightarrow> unit res" where
  "validate_reference pe project_id item =
     rbind (pe_scripts pe (pi_script_id item) (pi_script_revision item)) (\<lambda>script.
     rbind (guard (sc_project_id script \<noteq> project_id) TestPlanConflict) (\<lambda>_.
     rbind (guard (sc_status script \<noteq> AS_ACTIVE) TestPlanConflict) (\<lambda>_.
     rbind (guard (sc_engine script \<noteq> E_HTTP \<and> http_only_parts (pi_execution_policy item)) TestPlanConflict) (\<lambda>_.
     case (pi_environment_id item, pi_environment_revision item) of
       (Some e, Some n) \<Rightarrow>
         rbind (pe_environments pe e n) (\<lambda>environment.
         rbind (guard (er_project_id environment \<noteq> project_id) TestPlanConflict) (\<lambda>_.
         guard (er_status environment \<noteq> EN_ACTIVE) TestPlanConflict))
     | _ \<Rightarrow> Inr ()))))"

fun validate_references :: "PlanEnv \<Rightarrow> uuid \<Rightarrow> TestPlanItem list \<Rightarrow> unit res" where
  "validate_references pe project_id [] = Inr ()"
| "validate_references pe project_id (item # rest) =
     rbind (validate_reference pe project_id item) (\<lambda>_. validate_references pe project_id rest)"

definition new_plan ::
  "uuid \<Rightarrow> uuid \<Rightarrow> uuid \<Rightarrow> string \<Rightarrow> string \<Rightarrow> TestPlanItem list \<Rightarrow> int \<Rightarrow> time \<Rightarrow> TestPlanRecord" where
  "new_plan fresh tenant_id project_id name description items max_parallel now =
     \<lparr>pl_id = fresh, pl_tenant_id = tenant_id, pl_project_id = project_id, pl_name = name,
      pl_description = description, pl_items = items, pl_max_parallel = max_parallel,
      pl_status = PL_DRAFT, pl_revision = 1, pl_state_version = 0, pl_created_at = now, pl_updated_at = now\<rparr>"

definition create_plan ::
  "PlanEnv \<Rightarrow> uuid \<Rightarrow> uuid \<Rightarrow> string \<Rightarrow> string \<Rightarrow> TestPlanItem list \<Rightarrow> int \<Rightarrow> uuid \<Rightarrow> time \<Rightarrow>
   (PlanSys, TestPlanRecord) pyop" where
  "create_plan pe tenant_id project_id name description items max_parallel fresh now =
     bind (lift (normalize_plan_text name description)) (\<lambda>(name, description).
     bind (lift (normalize_plan_items (pe_size pe) items)) (\<lambda>normalized.
     bind (lift (check_max_parallel max_parallel)) (\<lambda>max_parallel.
     bind (lift (validate_references pe project_id normalized)) (\<lambda>_.
     let rec = new_plan fresh tenant_id project_id name description normalized max_parallel now in
     bind (writes (\<lambda>s. s\<lparr>pr_plans := dset (pl_id rec) rec (pr_plans s)\<rparr>)) (\<lambda>_.
     bind (writes (\<lambda>s. s\<lparr>pr_revisions := dset (pl_id rec) [rec] (pr_revisions s)\<rparr>)) (\<lambda>_.
     ret rec))))))"

definition get_plan :: "uuid \<Rightarrow> (PlanSys, TestPlanRecord) pyop" where
  "get_plan plan_id s = (case dget (pr_plans s) plan_id of
     None \<Rightarrow> (Inl TestPlanNotFound, s) | Some r \<Rightarrow> (Inr r, s))"

definition list_plans :: "uuid \<Rightarrow> (PlanSys, TestPlanRecord list) pyop" where
  "list_plans project_id = reads (\<lambda>s. sort_key (\<lambda>r. (pl_created_at r, pl_id r))
     (filter (\<lambda>r. pl_project_id r = project_id) (dvalues (pr_plans s))))"

definition update_plan ::
  "PlanEnv \<Rightarrow> uuid \<Rightarrow> int \<Rightarrow> string \<Rightarrow> string \<Rightarrow> TestPlanItem list \<Rightarrow> TestPlanStatus \<Rightarrow> int \<Rightarrow> time \<Rightarrow>
   (PlanSys, TestPlanRecord) pyop" where
  "update_plan pe plan_id expected_version name description items status max_parallel now =
     bind (lift (normalize_plan_text name description)) (\<lambda>(name, description).
     bind (lift (normalize_plan_items (pe_size pe) items)) (\<lambda>normalized.
     bind (lift (check_max_parallel max_parallel)) (\<lambda>max_parallel.
     bind (get_plan plan_id) (\<lambda>current.
     if pl_state_version current \<noteq> expected_version then raise TestPlanVersionConflict
     else
       bind (lift (validate_references pe (pl_project_id current) normalized)) (\<lambda>_.
       bind (lift (plan_update current name description normalized max_parallel status now)) (\<lambda>updated.
       bind (writes (\<lambda>s. s\<lparr>pr_plans := dset plan_id updated (pr_plans s)\<rparr>)) (\<lambda>_.
       bind (reads pr_revisions) (\<lambda>logs.
       bind (lift (append_revision plan_id updated logs)) (\<lambda>logs'.
       bind (writes (\<lambda>s. s\<lparr>pr_revisions := logs'\<rparr>)) (\<lambda>_.
       ret updated))))))))))"

definition list_plan_revisions :: "uuid \<Rightarrow> (PlanSys, TestPlanRecord list) pyop" where
  "list_plan_revisions plan_id =
     bind (get_plan plan_id) (\<lambda>_.
     bind (reads (\<lambda>s. dget (pr_revisions s) plan_id)) (\<lambda>found.
     case found of None \<Rightarrow> raise KeyError | Some revisions \<Rightarrow> ret revisions))"

definition get_plan_revision :: "uuid \<Rightarrow> int \<Rightarrow> (PlanSys, TestPlanRecord) pyop" where
  "get_plan_revision plan_id revision =
     bind (get_plan plan_id) (\<lambda>_.
     bind (reads (\<lambda>s. dget (pr_revisions s) plan_id)) (\<lambda>found.
     case found of
       None \<Rightarrow> raise KeyError
     | Some revisions \<Rightarrow>
         (if revision < 1 \<or> revision > int (length revisions) then raise TestPlanNotFound
          else ret (revisions ! nat (revision - 1)))))"

section \<open>Expansion of a plan\<close>

record Configuration =
  cf_variables :: params
  cf_common :: params
  cf_secrets :: "SecretReference list"

fun configuration_loop :: "ConfigurationValue list \<Rightarrow> Configuration \<Rightarrow> Configuration res" where
  "configuration_loop [] c = Inr c"
| "configuration_loop (value # rest) c =
     (if cv_secret value
      then (case cv_secret_ref value of
         None \<Rightarrow> Inl TestPlanConflict
       | Some ref \<Rightarrow>
           rbind (validate_SecretReference
             \<lparr>sr_category = cv_category value, sr_name = cv_name value, sr_secret_ref = ref\<rparr>) (\<lambda>reference.
           configuration_loop rest (c\<lparr>cf_secrets := cf_secrets c @ [reference]\<rparr>)))
      else if cv_category value = ENVIRONMENT_VARIABLE
      then configuration_loop rest (c\<lparr>cf_variables := dset (cv_name value) (cv_value value) (cf_variables c)\<rparr>)
      else configuration_loop rest (c\<lparr>cf_common := dset (cv_name value) (cv_value value) (cf_common c)\<rparr>))"

definition item_configuration :: "PlanEnv \<Rightarrow> TestPlanItem \<Rightarrow> Configuration res" where
  "item_configuration pe item =
     (let none = \<lparr>cf_variables = [], cf_common = [], cf_secrets = []\<rparr> in
      case (pi_environment_id item, pi_environment_revision item) of
        (Some e, Some n) \<Rightarrow> rbind (pe_environments pe e n) (\<lambda>environment.
           configuration_loop (er_values environment) none)
      | _ \<Rightarrow> Inr none)"

text \<open>\<open>{**common, **default_parameters, **row.values}\<close>.\<close>

definition row_parameters :: "params \<Rightarrow> params \<Rightarrow> params \<Rightarrow> params" where
  "row_parameters common defaults row = dmerge (dmerge (dmerge [] common) defaults) row"

definition row_spec ::
  "TestPlanRecord \<Rightarrow> uuid \<Rightarrow> time \<Rightarrow> (string \<times> string) option \<Rightarrow> TestPlanItem \<Rightarrow> AutomationScriptRecord \<Rightarrow>
   Configuration \<Rightarrow> uuid \<times> uuid \<Rightarrow> string \<Rightarrow> params \<Rightarrow> RunSpecRecord" where
  "row_spec plan batch_id now source_override item script conf ids row_key parameters =
     (let (source_ref, content_digest) =
            (case source_override of None \<Rightarrow> (sc_source_ref script, sc_content_digest script) | Some o' \<Rightarrow> o')
      in \<lparr>sp_id = snd ids, sp_run_id = fst ids, sp_batch_id = batch_id, sp_tenant_id = pl_tenant_id plan,
          sp_project_id = pl_project_id plan, sp_plan_id = pl_id plan, sp_plan_revision = pl_revision plan,
          sp_item_id = pi_item_id item, sp_row_key = row_key, sp_engine = sc_engine script,
          sp_script_id = sc_id script, sp_script_revision = sc_revision script,
          sp_source_ref = source_ref, sp_content_digest = content_digest,
          sp_entrypoint = sc_entrypoint script, sp_timeout_seconds = sc_timeout_seconds script,
          sp_environment_id = pi_environment_id item, sp_environment_revision = pi_environment_revision item,
          sp_environment_variables = cf_variables conf, sp_parameters = parameters,
          sp_secret_references = cf_secrets conf, sp_execution_policy = pi_execution_policy item,
          sp_created_at = now\<rparr>)"

fun expand_rows ::
  "PlanEnv \<Rightarrow> TestPlanRecord \<Rightarrow> uuid \<Rightarrow> time \<Rightarrow> (string \<times> string) option \<Rightarrow> TestPlanItem \<Rightarrow>
   AutomationScriptRecord \<Rightarrow> Configuration \<Rightarrow> nat \<Rightarrow> TestPlanDataRow list \<Rightarrow>
   (RunRecord \<times> RunSpecRecord) list res" where
  "expand_rows pe plan batch_id now source_override item script conf n [] = Inr []"
| "expand_rows pe plan batch_id now source_override item script conf n (row # rest) =
     rbind (json_object (pe_size pe)
              (row_parameters (cf_common conf) (pi_default_parameters item) (dw_values row))) (\<lambda>parameters.
     rbind (expand_rows pe plan batch_id now source_override item script conf (Suc n) rest) (\<lambda>others.
     Inr ((new_run (fst (pe_ids pe n)) (sc_engine script) parameters now,
           row_spec plan batch_id now source_override item script conf (pe_ids pe n) (dw_row_key row) parameters)
          # others)))"

fun expand_items ::
  "PlanEnv \<Rightarrow> TestPlanRecord \<Rightarrow> uuid \<Rightarrow> time \<Rightarrow> (string \<times> string) option \<Rightarrow> nat \<Rightarrow> TestPlanItem list \<Rightarrow>
   (RunRecord \<times> RunSpecRecord) list res" where
  "expand_items pe plan batch_id now source_override n [] = Inr []"
| "expand_items pe plan batch_id now source_override n (item # rest) =
     rbind (pe_scripts pe (pi_script_id item) (pi_script_revision item)) (\<lambda>script.
     rbind (item_configuration pe item) (\<lambda>conf.
     rbind (expand_rows pe plan batch_id now source_override item script conf n (pi_data_rows item)) (\<lambda>rows.
     rbind (expand_items pe plan batch_id now source_override (n + length rows) rest) (\<lambda>others.
     Inr (rows @ others)))))"

definition expand ::
  "PlanEnv \<Rightarrow> TestPlanRecord \<Rightarrow> uuid \<Rightarrow> time \<Rightarrow> (string \<times> string) option \<Rightarrow>
   (RunRecord \<times> RunSpecRecord) list res" where
  "expand pe plan batch_id now source_override =
     expand_items pe plan batch_id now source_override 0 (pl_items plan)"

text \<open>The writes of an execution: the runs, the batch, the specifications, the key.\<close>

definition record_batch ::
  "uuid \<times> uuid \<times> string \<Rightarrow> ExecutionBatchRecord \<Rightarrow> (RunRecord \<times> RunSpecRecord) list \<Rightarrow> PlanSys \<Rightarrow> PlanSys" where
  "record_batch scope batch runs s =
     s\<lparr>pr_runs := foldl (\<lambda>r (run, _). set_run (rr_id run) run r) (pr_runs s) runs,
        pr_batches := dset (eb_id batch) batch (pr_batches s),
        pr_specs_by_run := dmerge (pr_specs_by_run s) (map (\<lambda>(_, spec). (sp_run_id spec, spec)) runs),
        pr_idempotency := dset scope (eb_plan_id batch, eb_plan_revision batch, eb_id batch) (pr_idempotency s)\<rparr>"

definition execute_plan ::
  "PlanEnv \<Rightarrow> uuid \<Rightarrow> string \<Rightarrow> (string \<times> string) option \<Rightarrow> uuid \<Rightarrow> time \<Rightarrow>
   (PlanSys, ExecutionBatchRecord \<times> bool) pyop" where
  "execute_plan pe plan_id idempotency_key source_override batch_id now =
     (let key = strip idempotency_key in
      if key = [] \<or> length key > 255 then raise ValueError
      else
        bind (get_plan plan_id) (\<lambda>plan.
        let scope = (pl_tenant_id plan, pl_project_id plan, key) in
        bind (reads (\<lambda>s. dget (pr_idempotency s) scope)) (\<lambda>existing.
        case existing of
          Some (saved_plan, saved_revision, saved_batch) \<Rightarrow>
            (if (saved_plan, saved_revision) \<noteq> (pl_id plan, pl_revision plan) then raise TestPlanConflict
             else bind (reads (\<lambda>s. dget (pr_batches s) saved_batch)) (\<lambda>found.
               case found of None \<Rightarrow> raise KeyError | Some batch \<Rightarrow> ret (batch, True)))
        | None \<Rightarrow>
            if pl_status plan \<noteq> PL_ACTIVE then raise TestPlanConflict
            else
              bind (lift (expand pe plan batch_id now source_override)) (\<lambda>runs.
              let batch = \<lparr>eb_id = batch_id, eb_tenant_id = pl_tenant_id plan, eb_project_id = pl_project_id plan,
                           eb_plan_id = pl_id plan, eb_plan_revision = pl_revision plan,
                           eb_idempotency_key = key, eb_max_parallel = pl_max_parallel plan,
                           eb_run_ids = map (\<lambda>(run, _). rr_id run) runs, eb_created_at = now\<rparr> in
              bind (writes (record_batch scope batch runs)) (\<lambda>_.
              ret (batch, False))))))"

definition get_execution_batch :: "uuid \<Rightarrow> (PlanSys, ExecutionBatchRecord) pyop" where
  "get_execution_batch batch_id s = (case dget (pr_batches s) batch_id of
     None \<Rightarrow> (Inl TestPlanNotFound, s) | Some b \<Rightarrow> (Inr b, s))"

definition get_run_spec :: "uuid \<Rightarrow> (PlanSys, RunSpecRecord) pyop" where
  "get_run_spec run_id s = (case dget (pr_specs_by_run s) run_id of
     None \<Rightarrow> (Inl RunSpecNotFound, s) | Some b \<Rightarrow> (Inr b, s))"

section \<open>Handing out runs\<close>

definition OCCUPIED_STATES :: "RunState list" where
  "OCCUPIED_STATES = [R_QUEUED, R_DISPATCHING, R_RUNNING, R_CANCELLING, R_RETRY_WAIT]"

fun get_all_locked :: "uuid list \<Rightarrow> (RunRepo, RunRecord list) pyop" where
  "get_all_locked [] = ret []"
| "get_all_locked (i # is) =
     bind (get_locked i) (\<lambda>r. bind (get_all_locked is) (\<lambda>rs. ret (r # rs)))"

definition occupied :: "RunRecord list \<Rightarrow> nat" where
  "occupied records = length (filter (\<lambda>r. rr_state r \<in> set OCCUPIED_STATES) records)"

text \<open>\<open>tick\<close> numbers the clock readings of \<open>with_state\<close>.\<close>

fun claim_loop :: "(nat \<Rightarrow> time) \<Rightarrow> nat \<Rightarrow> RunRecord list \<Rightarrow> (RunRepo, uuid list) pyop" where
  "claim_loop tick available [] = ret []"
| "claim_loop tick available (record # rest) =
     (if available = 0 then ret []
      else if rr_state record \<noteq> R_CREATED then claim_loop tick available rest
      else
        bind (lift (run_with_state record R_QUEUED (tick available))) (\<lambda>queued.
        bind (writes (set_run (rr_id record) queued)) (\<lambda>_.
        bind (claim_loop tick (available - 1) rest) (\<lambda>claimed.
        ret (rr_id record # claimed)))))"

definition claim_available_runs :: "(nat \<Rightarrow> time) \<Rightarrow> uuid \<Rightarrow> (PlanSys, uuid list) pyop" where
  "claim_available_runs tick batch_id =
     bind (get_execution_batch batch_id) (\<lambda>batch.
     on_runs (
       bind (get_all_locked (eb_run_ids batch)) (\<lambda>records.
       claim_loop tick (nat (eb_max_parallel batch - int (occupied records))) records)))"

section \<open>Materialising a task\<close>

text \<open>
  \<open>task_id\<close> is \<open>uuid5\<close> of the specification and the attempt; \<open>uuid_text\<close> is \<open>str\<close> of an identifier.
\<close>

definition materialize ::
  "(string \<Rightarrow> uuid) \<Rightarrow> uuid \<Rightarrow> uuid \<Rightarrow> time \<Rightarrow> (PlanSys, TaskEnvelope) pyop" where
  "materialize uuid5_url run_id attempt_id created_at =
     bind (get_run_spec run_id) (\<lambda>spec.
     lift (validate_TaskEnvelope
       \<lparr>en_run_id = run_id, en_attempt_id = attempt_id, en_engine = sp_engine spec,
        tk_task_id = uuid5_url (uuid_str (sp_id spec) @ '':'' @ uuid_str attempt_id),
        tk_tenant_id = sp_tenant_id spec, tk_project_id = sp_project_id spec,
        tk_idempotency_key =
          ''run-spec:'' @ uuid_str (sp_id spec) @ '':attempt:'' @ uuid_str attempt_id,
        tk_created_at = created_at, tk_deadline = created_at + seconds (sp_timeout_seconds spec),
        tk_entrypoint = sp_entrypoint spec, tk_parameters = sp_parameters spec,
        tk_run_spec_id = Some (sp_id spec), tk_source_ref = Some (sp_source_ref spec),
        tk_content_digest = Some (sp_content_digest spec),
        tk_environment_variables = sp_environment_variables spec,
        tk_environment_id = sp_environment_id spec,
        tk_environment_revision = sp_environment_revision spec,
        tk_secret_references = sp_secret_references spec,
        tk_execution_policy = sp_execution_policy spec\<rparr>))"

end
