(* ===== verification/Dispatch.thy ===== *)
theory Dispatch
  imports Test_Plan Run_Repo_Facts
begin

text \<open>
  Moving runs towards execution: the dispatchers of \<^verbatim>\<open>services/api/dispatcher.py\<close>, the worker tasks of
  \<^verbatim>\<open>workers/tasks.py\<close>, the run creation route of \<^verbatim>\<open>services/api/routes.py\<close> and the batch coordinator
  of \<^verbatim>\<open>services/api/execution_coordinator.py\<close>.

  A dispatcher makes several calls of the run repository; \<open>race\<close> is what other threads do between
  them. The locale \<open>run_dispatcher\<close> is what the coordinator relies on: a dispatch touches no other run
  and leaves its run queued or dispatching.
\<close>

section \<open>Dispatchers and worker tasks\<close>

definition interfere :: "(RunRepo \<Rightarrow> RunRepo) \<Rightarrow> (RunRepo, unit) pyop" where
  "interfere race = writes race"

definition db_dispatch :: "(RunRepo \<Rightarrow> RunRepo) \<Rightarrow> time \<Rightarrow> uuid \<Rightarrow> (RunRepo, unit) pyop" where
  "db_dispatch race now run_id =
     bind (get run_id) (\<lambda>current.
     if rr_state current = R_CREATED then raise InvalidTransition
     else if rr_state current \<noteq> R_QUEUED then ret ()
     else
       bind (interfere race) (\<lambda>_.
       catch (bind (transition run_id R_DISPATCHING now) (\<lambda>_. ret ()))
         (\<lambda>e. if e = InvalidTransition
              then bind (get run_id) (\<lambda>current. if rr_state current \<noteq> R_QUEUED then ret () else raise e)
              else raise e)))"

text \<open>\<open>send_task\<close> of the Celery client is a parameter: it returns or raises.\<close>

definition celery_dispatch :: "(uuid \<Rightarrow> unit res) \<Rightarrow> uuid \<Rightarrow> (RunRepo, unit) pyop" where
  "celery_dispatch send_task run_id = lift (send_task run_id)"

definition prepare_run :: "(RunRepo \<Rightarrow> RunRepo) \<Rightarrow> time \<Rightarrow> uuid \<Rightarrow> (RunRepo, RunRecord) pyop" where
  "prepare_run race now run_id =
     bind (get run_id) (\<lambda>current.
     if rr_state current = R_CREATED then raise InvalidTransition
     else if rr_state current \<noteq> R_QUEUED then ret current
     else
       bind (interfere race) (\<lambda>_.
       catch (transition run_id R_DISPATCHING now)
         (\<lambda>e. if e = InvalidTransition
              then bind (get run_id) (\<lambda>current. if rr_state current \<noteq> R_QUEUED then ret current else raise e)
              else raise e)))"

definition retry_run :: "(RunRepo \<Rightarrow> RunRepo) \<Rightarrow> time \<Rightarrow> time \<Rightarrow> uuid \<Rightarrow> (RunRepo, RunRecord) pyop" where
  "retry_run race tick now run_id =
     bind (get run_id) (\<lambda>current.
     if rr_state current \<noteq> R_RETRY_WAIT then ret current
     else
       bind (transition run_id R_QUEUED tick) (\<lambda>_.
       prepare_run race now run_id))"

definition recover_lost_attempts ::
  "time option \<Rightarrow> time \<Rightarrow> (nat \<Rightarrow> time) \<Rightarrow> (RunRepo, nat) pyop" where
  "recover_lost_attempts now clock tick =
     bind (expire_attempt_leases now clock tick) (\<lambda>expired. ret (length expired))"

text \<open>The route that creates a run; the flag tells whether the response says it was replayed.\<close>

definition create_run ::
  "bool \<Rightarrow> (uuid \<Rightarrow> (RunRepo, unit) pyop) \<Rightarrow> (pyval \<Rightarrow> string res) \<Rightarrow> (string \<Rightarrow> string) \<Rightarrow> Engine \<Rightarrow>
   params \<Rightarrow> string option \<Rightarrow> uuid \<Rightarrow> time \<Rightarrow> time \<Rightarrow> time \<Rightarrow> (RunRepo, RunRecord \<times> bool) pyop" where
  "create_run auto_dispatch dispatch dumps sha256 eng parameters idempotency_key fresh now tick tick' =
     (if (case idempotency_key of None \<Rightarrow> False | Some k \<Rightarrow> strip k = [])
      then raise (OtherException ''RequestValidationError'')
      else
        bind (create_or_get dumps sha256 eng parameters idempotency_key fresh now) (\<lambda>(run, replayed).
        if replayed then ret (run, True)
        else if auto_dispatch
        then
          bind (transition (rr_id run) R_QUEUED tick) (\<lambda>run.
          bind (catch (dispatch (rr_id run))
            (\<lambda>_. bind (transition (rr_id run) R_INFRA_ERROR tick') (\<lambda>_. raise DispatchUnavailable))) (\<lambda>_.
          ret (run, False)))
        else ret (run, False)))"

section \<open>The batch coordinator\<close>

record DispatchResult =
  dp_dispatched :: "uuid list"
  dp_failed :: "uuid list"

definition no_dispatch :: DispatchResult where
  "no_dispatch = \<lparr>dp_dispatched = [], dp_failed = []\<rparr>"

definition add_dispatched :: "uuid \<Rightarrow> DispatchResult \<Rightarrow> DispatchResult" where
  "add_dispatched i r = r\<lparr>dp_dispatched := i # dp_dispatched r\<rparr>"

definition add_failed :: "uuid \<Rightarrow> DispatchResult \<Rightarrow> DispatchResult" where
  "add_failed i r = r\<lparr>dp_failed := i # dp_failed r\<rparr>"

definition join_results :: "DispatchResult \<Rightarrow> DispatchResult \<Rightarrow> DispatchResult" where
  "join_results a b = \<lparr>dp_dispatched = dp_dispatched a @ dp_dispatched b, dp_failed = dp_failed a @ dp_failed b\<rparr>"

primrec dispatch_claimed ::
  "(uuid \<Rightarrow> (RunRepo, unit) pyop) \<Rightarrow> time \<Rightarrow> uuid list \<Rightarrow> (PlanSys, DispatchResult) pyop" where
  "dispatch_claimed dispatch now [] = ret no_dispatch"
| "dispatch_claimed dispatch now (run_id # rest) =
     bind (catch (bind (on_runs (dispatch run_id)) (\<lambda>_. ret True))
             (\<lambda>_. bind (on_runs (transition run_id R_INFRA_ERROR now)) (\<lambda>_. ret False))) (\<lambda>sent.
     bind (dispatch_claimed dispatch now rest) (\<lambda>r.
     ret (if sent then add_dispatched run_id r else add_failed run_id r)))"

text \<open>
  The \<open>while True\<close> loop, with fuel: \<open>None\<close> when the fuel runs out. Every round that goes on claims at
  least one \<open>CREATED\<close> run, so one more than the number of runs of the batch is enough.
\<close>

primrec dispatch_loop ::
  "(uuid \<Rightarrow> (RunRepo, unit) pyop) \<Rightarrow> (nat \<Rightarrow> time) \<Rightarrow> uuid \<Rightarrow> nat \<Rightarrow> (PlanSys, DispatchResult option) pyop" where
  "dispatch_loop dispatch tick batch_id 0 = ret None"
| "dispatch_loop dispatch tick batch_id (Suc fuel) =
     bind (claim_available_runs tick batch_id) (\<lambda>claimed.
     if claimed = [] then ret (Some no_dispatch)
     else
       bind (dispatch_claimed dispatch (tick 0) claimed) (\<lambda>r.
       if dp_failed r = [] then ret (Some r)
       else
         bind (dispatch_loop dispatch tick batch_id fuel) (\<lambda>more.
         ret (map_option (join_results r) more))))"

definition batch_size :: "uuid \<Rightarrow> PlanSys \<Rightarrow> nat" where
  "batch_size batch_id s = (case dget (pr_batches s) batch_id of None \<Rightarrow> 0 | Some b \<Rightarrow> length (eb_run_ids b))"

definition dispatch_available ::
  "(uuid \<Rightarrow> (RunRepo, unit) pyop) \<Rightarrow> (nat \<Rightarrow> time) \<Rightarrow> uuid \<Rightarrow> (PlanSys, DispatchResult option) pyop" where
  "dispatch_available dispatch tick batch_id s =
     dispatch_loop dispatch tick batch_id (Suc (batch_size batch_id s)) s"

definition on_run_finished ::
  "(uuid \<Rightarrow> (RunRepo, unit) pyop) \<Rightarrow> (nat \<Rightarrow> time) \<Rightarrow> uuid \<Rightarrow> (PlanSys, DispatchResult option) pyop" where
  "on_run_finished dispatch tick run_id =
     bind (get_run_spec run_id) (\<lambda>spec. dispatch_available dispatch tick (sp_batch_id spec))"

section \<open>Claiming runs\<close>

definition run_state :: "RunRepo \<Rightarrow> uuid \<Rightarrow> RunState option" where
  "run_state r i = map_option rr_state (dget (q_runs r) i)"

definition occupies :: "RunRepo \<Rightarrow> uuid \<Rightarrow> bool" where
  "occupies r i \<longleftrightarrow> (case run_state r i of None \<Rightarrow> False | Some st \<Rightarrow> st \<in> set OCCUPIED_STATES)"

definition occupancy :: "RunRepo \<Rightarrow> uuid list \<Rightarrow> nat" where
  "occupancy r is = length (filter (occupies r) is)"

definition waiting :: "RunRepo \<Rightarrow> uuid list \<Rightarrow> uuid list" where
  "waiting r is = filter (\<lambda>i. run_state r i = Some R_CREATED) is"

text \<open>A batch whose runs exist, each once.\<close>

definition ids_ok :: "RunRepo \<Rightarrow> bool" where
  "ids_ok r \<longleftrightarrow> (\<forall>i x. dget (q_runs r) i = Some x \<longrightarrow> rr_id x = i)"

definition batch_ready :: "uuid \<Rightarrow> ExecutionBatchRecord \<Rightarrow> PlanSys \<Rightarrow> bool" where
  "batch_ready b batch s \<longleftrightarrow> dget (pr_batches s) b = Some batch \<and> distinct (eb_run_ids batch) \<and>
     (\<forall>i \<in> set (eb_run_ids batch). run_state (pr_runs s) i \<noteq> None) \<and> ids_ok (pr_runs s)"

lemma get_all_locked_Inr:
  "(\<forall>i \<in> set is. dget (q_runs r) i \<noteq> None) \<Longrightarrow>
     get_all_locked is r = (Inr (map (\<lambda>i. the (dget (q_runs r) i)) is), r)"
  by (induction "is") (auto simp: bind_def get_locked_def)

lemma queue_created: "rr_state x = R_CREATED \<Longrightarrow>
    \<exists>y. run_with_state x R_QUEUED t = Inr y \<and> rr_state y = R_QUEUED \<and> rr_id y = rr_id x"
  by (auto simp: run_with_state_def transition_run_def table_simps)

lemma run_state_set_run: "run_state (set_run i x r) = (run_state r)(i := Some (rr_state x))"
  by (simp add: run_state_def fun_eq_iff set_run_def dget_dset)

lemma ids_ok_set_run: "ids_ok r \<Longrightarrow> rr_id x = i \<Longrightarrow> ids_ok (set_run i x r)"
  by (simp add: ids_ok_def set_run_def dget_dset)

definition created_ids :: "RunRecord list \<Rightarrow> uuid list" where
  "created_ids records = map rr_id (filter (\<lambda>x. rr_state x = R_CREATED) records)"

definition queued :: "uuid list \<Rightarrow> (uuid \<Rightarrow> RunState option) \<Rightarrow> uuid \<Rightarrow> RunState option" where
  "queued is f = (\<lambda>i. if i \<in> set is then Some R_QUEUED else f i)"

lemma queued_simps [simp]: "queued [] f = f" "queued (i # is) f = queued is (f(i := Some R_QUEUED))"
  by (auto simp: queued_def fun_eq_iff)

lemma claim_loop_spec:
  "\<exists>r'. claim_loop tick n records r = (Inr (take n (created_ids records)), r') \<and>
     run_state r' = queued (take n (created_ids records)) (run_state r) \<and> (ids_ok r \<longrightarrow> ids_ok r')"
proof (induction records arbitrary: n r)
  case (Cons x records)
  show ?case
  proof (cases "n = 0 \<or> rr_state x \<noteq> R_CREATED")
    case True
    with Cons [of n r] show ?thesis by (cases "n = 0") (auto simp: created_ids_def)
  next
    case False
    then obtain m where n: "n = Suc m" by (cases n) auto
    obtain y where y: "run_with_state x R_QUEUED (tick n) = Inr y" "rr_state y = R_QUEUED" "rr_id y = rr_id x"
      using queue_created [of x "tick n"] False by blast
    obtain r' where "claim_loop tick m records (set_run (rr_id x) y r) = (Inr (take m (created_ids records)), r')"
      "run_state r' = queued (take m (created_ids records)) (run_state (set_run (rr_id x) y r))"
      "ids_ok (set_run (rr_id x) y r) \<longrightarrow> ids_ok r'"
      using Cons [of m "set_run (rr_id x) y r"] by blast
    with y False n ids_ok_set_run [of r y "rr_id x"] show ?thesis
      by (auto simp: bind_def run_state_set_run created_ids_def)
  qed
qed (simp add: created_ids_def)

lemma ready_records:
  assumes "batch_ready b batch s"
  shows "\<exists>records. get_all_locked (eb_run_ids batch) (pr_runs s) = (Inr records, pr_runs s) \<and>
     occupied records = occupancy (pr_runs s) (eb_run_ids batch) \<and>
     created_ids records = waiting (pr_runs s) (eb_run_ids batch)"
proof -
  define rec where "rec = (\<lambda>i. the (dget (q_runs (pr_runs s)) i))"
  have some: "dget (q_runs (pr_runs s)) i = Some (rec i)" "rr_id (rec i) = i" if "i \<in> set (eb_run_ids batch)" for i
    using assms that by (auto simp: batch_ready_def run_state_def ids_ok_def rec_def)
  have "get_all_locked (eb_run_ids batch) (pr_runs s) = (Inr (map rec (eb_run_ids batch)), pr_runs s)"
    unfolding rec_def using some(1) by (intro get_all_locked_Inr) auto
  moreover have "filter (\<lambda>i. rr_state (rec i) \<in> set OCCUPIED_STATES) (eb_run_ids batch) =
      filter (occupies (pr_runs s)) (eb_run_ids batch)"
    using some(1) by (intro filter_cong) (auto simp: occupies_def run_state_def)
  moreover have "filter (\<lambda>i. rr_state (rec i) = R_CREATED) (eb_run_ids batch) = waiting (pr_runs s) (eb_run_ids batch)"
    unfolding waiting_def using some(1) by (intro filter_cong) (auto simp: run_state_def)
  moreover have "map (\<lambda>i. rr_id (rec i)) (waiting (pr_runs s) (eb_run_ids batch)) = waiting (pr_runs s) (eb_run_ids batch)"
    using some(2) by (intro map_idI) (auto simp: waiting_def)
  ultimately show ?thesis
    by (auto simp: occupied_def occupancy_def created_ids_def filter_map o_def)
qed

definition capacity :: "ExecutionBatchRecord \<Rightarrow> PlanSys \<Rightarrow> nat" where
  "capacity batch s = nat (eb_max_parallel batch - int (occupancy (pr_runs s) (eb_run_ids batch)))"

lemma claim_spec:
  assumes "batch_ready b batch s"
  shows "\<exists>r'. claim_available_runs tick b s =
      (Inr (take (capacity batch s) (waiting (pr_runs s) (eb_run_ids batch))), s\<lparr>pr_runs := r'\<rparr>) \<and>
     run_state r' = queued (take (capacity batch s) (waiting (pr_runs s) (eb_run_ids batch))) (run_state (pr_runs s)) \<and>
     ids_ok r'"
proof -
  obtain records where "get_all_locked (eb_run_ids batch) (pr_runs s) = (Inr records, pr_runs s)"
     "occupied records = occupancy (pr_runs s) (eb_run_ids batch)"
     "created_ids records = waiting (pr_runs s) (eb_run_ids batch)"
    using ready_records [OF assms] by blast
  moreover have "dget (pr_batches s) b = Some batch" "ids_ok (pr_runs s)"
    using assms by (auto simp: batch_ready_def)
  ultimately show ?thesis
    using claim_loop_spec [of tick "capacity batch s" records "pr_runs s"]
    by (auto simp: claim_available_runs_def get_execution_batch_def bind_def on_runs_def capacity_def Let_def)
qed

section \<open>What the coordinator relies on\<close>

definition in_flight :: "RunState option \<Rightarrow> bool" where
  "in_flight st \<longleftrightarrow> st = Some R_QUEUED \<or> st = Some R_DISPATCHING"

locale run_dispatcher =
  fixes dispatch :: "uuid \<Rightarrow> (RunRepo, unit) pyop"
  assumes leaves_others: "j \<noteq> i \<Longrightarrow> run_state (snd (dispatch i r)) j = run_state r j"
    and stays_in_flight: "run_state r i = Some R_QUEUED \<Longrightarrow> in_flight (run_state (snd (dispatch i r)) i)"
    and keeps_ids: "ids_ok r \<Longrightarrow> ids_ok (snd (dispatch i r))"

text \<open>The effect of a round: what was sent is in flight, what failed is closed, the rest untouched.\<close>

definition sent_or_closed :: "DispatchResult \<Rightarrow> RunRepo \<Rightarrow> RunRepo \<Rightarrow> bool" where
  "sent_or_closed res r r' \<longleftrightarrow>
     (\<forall>i \<in> set (dp_dispatched res). in_flight (run_state r' i)) \<and>
     (\<forall>i \<in> set (dp_failed res). run_state r' i = Some R_INFRA_ERROR) \<and>
     (\<forall>i. i \<notin> set (dp_dispatched res) \<union> set (dp_failed res) \<longrightarrow> run_state r' i = run_state r i)"

lemma transition_infra:
  assumes "in_flight (run_state r i)" "ids_ok r"
  shows "\<exists>x r'. transition i R_INFRA_ERROR now r = (Inr x, r') \<and> ids_ok r' \<and>
     run_state r' = (run_state r)(i := Some R_INFRA_ERROR)"
proof -
  obtain x where x: "dget (q_runs r) i = Some x" "rr_state x = R_QUEUED \<or> rr_state x = R_DISPATCHING"
    using assms(1) by (auto simp: in_flight_def run_state_def)
  then obtain y where "run_with_state x R_INFRA_ERROR now = Inr y" "rr_state y = R_INFRA_ERROR" "rr_id y = rr_id x"
    by (auto simp: run_with_state_def transition_run_def table_simps)
  with x assms(2) ids_ok_set_run [of r y i] show ?thesis
    by (auto simp: transition_unfold run_state_set_run ids_ok_def)
qed

context run_dispatcher
begin

lemma dispatch_one:
  assumes "run_state (pr_runs s) i = Some R_QUEUED" "ids_ok (pr_runs s)"
  shows "\<exists>sent r'. catch (bind (on_runs (dispatch i)) (\<lambda>_. ret True))
             (\<lambda>_. bind (on_runs (transition i R_INFRA_ERROR now)) (\<lambda>_. ret False)) s = (Inr sent, s\<lparr>pr_runs := r'\<rparr>) \<and>
     ids_ok r' \<and> (\<forall>j. j \<noteq> i \<longrightarrow> run_state r' j = run_state (pr_runs s) j) \<and>
     (if sent then in_flight (run_state r' i) else run_state r' i = Some R_INFRA_ERROR)"
proof -
  obtain x r where d: "dispatch i (pr_runs s) = (x, r)" by (cases "dispatch i (pr_runs s)")
  have r: "ids_ok r" "in_flight (run_state r i)" "\<And>j. j \<noteq> i \<Longrightarrow> run_state r j = run_state (pr_runs s) j"
    using keeps_ids [OF assms(2), of i] stays_in_flight [OF assms(1)] leaves_others [of _ i "pr_runs s"] d by auto
  show ?thesis
  proof (cases x)
    case (Inl e)
    obtain y r' where "transition i R_INFRA_ERROR now r = (Inr y, r')" "ids_ok r'"
      "run_state r' = (run_state r)(i := Some R_INFRA_ERROR)"
      using transition_infra [OF r(2,1)] by blast
    with Inl d r show ?thesis
      by (intro exI [of _ False] exI [of _ r']) (simp add: catch_def bind_def on_runs_def)
  next
    case (Inr u)
    with d r show ?thesis
      by (intro exI [of _ True] exI [of _ r]) (simp add: catch_def bind_def on_runs_def)
  qed
qed

lemma dispatch_round:
  assumes "distinct is" "\<forall>i \<in> set is. run_state (pr_runs s) i = Some R_QUEUED" "ids_ok (pr_runs s)"
  shows "\<exists>res r'. dispatch_claimed dispatch now is s = (Inr res, s\<lparr>pr_runs := r'\<rparr>) \<and> ids_ok r' \<and>
     set (dp_dispatched res) \<union> set (dp_failed res) = set is \<and> sent_or_closed res (pr_runs s) r'"
  using assms
proof (induction "is" arbitrary: s)
  case Nil
  then show ?case by (intro exI [of _ no_dispatch] exI [of _ "pr_runs s"]) (auto simp: sent_or_closed_def no_dispatch_def)
next
  case (Cons i js)
  obtain sent r1 where r1: "catch (bind (on_runs (dispatch i)) (\<lambda>_. ret True))
             (\<lambda>_. bind (on_runs (transition i R_INFRA_ERROR now)) (\<lambda>_. ret False)) s = (Inr sent, s\<lparr>pr_runs := r1\<rparr>)"
     "ids_ok r1" "\<forall>j. j \<noteq> i \<longrightarrow> run_state r1 j = run_state (pr_runs s) j"
     "if sent then in_flight (run_state r1 i) else run_state r1 i = Some R_INFRA_ERROR"
    using dispatch_one [of s i now] Cons(3,4) by auto
  have "distinct js" "\<forall>i \<in> set js. run_state (pr_runs (s\<lparr>pr_runs := r1\<rparr>)) i = Some R_QUEUED" "ids_ok (pr_runs (s\<lparr>pr_runs := r1\<rparr>))"
    using Cons(2,3) r1(2,3) by auto
  from Cons(1) [OF this] obtain res r2 where r2:
     "dispatch_claimed dispatch now js (s\<lparr>pr_runs := r1\<rparr>) = (Inr res, s\<lparr>pr_runs := r2\<rparr>)" "ids_ok r2"
     "set (dp_dispatched res) \<union> set (dp_failed res) = set js" "sent_or_closed res r1 r2"
    by auto
  have "run_state r2 i = run_state r1 i" using r2(3,4) Cons(2) by (auto simp: sent_or_closed_def)
  with r1 r2 show ?case
    by (intro exI [of _ "if sent then add_dispatched i res else add_failed i res"] exI [of _ r2])
      (auto simp: bind_def sent_or_closed_def add_dispatched_def add_failed_def)
qed

end

section \<open>Counting\<close>

lemma occupancy_card: "distinct is \<Longrightarrow> occupancy r is = card {i \<in> set is. occupies r i}"
  by (simp add: occupancy_def distinct_card [symmetric])

lemma occupies_state: "occupies r i \<longleftrightarrow> run_state r i \<in> Some ` set OCCUPIED_STATES"
  by (auto simp: occupies_def split: option.split)

lemma occupies_simps:
  "in_flight (run_state r i) \<Longrightarrow> occupies r i"
  "run_state r i = Some R_CREATED \<Longrightarrow> \<not> occupies r i"
  "run_state r i = Some R_INFRA_ERROR \<Longrightarrow> \<not> occupies r i"
  by (auto simp: occupies_state in_flight_def OCCUPIED_STATES_def)

lemma occupancy_queued:
  assumes "distinct is" "distinct js" "set js \<subseteq> set (waiting r is)" "run_state r' = queued js (run_state r)"
  shows "occupancy r' is = occupancy r is + length js"
proof -
  have js: "set js \<subseteq> set is" "\<And>i. i \<in> set js \<Longrightarrow> run_state r i = Some R_CREATED"
    using assms(3) by (auto simp: waiting_def)
  have "{i \<in> set is. occupies r' i} = {i \<in> set is. occupies r i} \<union> set js"
    using js assms(4) by (auto simp: occupies_state queued_def OCCUPIED_STATES_def)
  moreover have "{i \<in> set is. occupies r i} \<inter> set js = {}"
    using js(2) by (auto dest: occupies_simps(2))
  ultimately show ?thesis
    using assms(1,2) by (simp add: occupancy_card card_Un_disjoint distinct_card)
qed

lemma occupancy_mono:
  assumes "distinct is" "\<And>i. i \<in> set is \<Longrightarrow> occupies r' i \<Longrightarrow> occupies r i"
  shows "occupancy r' is \<le> occupancy r is"
  using assms by (auto simp: occupancy_card intro: card_mono)

lemma round_occupancy:
  assumes "distinct is" "run_state r1 = queued js f" "sent_or_closed res r1 r2"
    "set (dp_dispatched res) \<union> set (dp_failed res) = set js"
  shows "occupancy r2 is \<le> occupancy r1 is" "dp_failed res = [] \<Longrightarrow> occupancy r2 is = occupancy r1 is"
proof -
  have js: "occupies r1 i" if "i \<in> set js" for i
    using assms(2) that by (intro occupies_simps(1)) (simp add: queued_def in_flight_def)
  have other: "occupies r2 i \<longleftrightarrow> occupies r1 i" if "i \<notin> set js" for i
    using assms(3,4) that by (simp add: sent_or_closed_def occupies_state)
  show "occupancy r2 is \<le> occupancy r1 is" using js other by (intro occupancy_mono [OF assms(1)]) blast
  show "occupancy r2 is = occupancy r1 is" if "dp_failed res = []"
  proof -
    have "occupies r2 i" if "i \<in> set js" for i
      using assms(3,4) that \<open>dp_failed res = []\<close> by (intro occupies_simps(1)) (simp add: sent_or_closed_def)
    with js other have "occupies r2 = occupies r1" by (intro ext) blast
    then show ?thesis by (simp add: occupancy_def)
  qed
qed

lemma waiting_queued:
  "run_state r' = queued js (run_state r) \<Longrightarrow> waiting r' is = filter (\<lambda>i. i \<notin> set js) (waiting r is)"
  by (auto simp: waiting_def queued_def intro: filter_cong)

lemma filter_not_take: "distinct xs \<Longrightarrow> filter (\<lambda>x. x \<notin> set (take n xs)) xs = drop n xs"
proof -
  assume "distinct xs"
  then have d: "set (take n xs) \<inter> set (drop n xs) = {}" by (simp add: set_take_disj_set_drop_if_distinct)
  have "filter (\<lambda>x. x \<notin> set (take n xs)) (take n xs @ drop n xs) = drop n xs"
    using d by (subst filter_append) (auto simp: filter_empty_conv filter_id_conv)
  then show ?thesis by simp
qed

section \<open>The loop ends with the batch full or empty\<close>

definition batch_settled :: "ExecutionBatchRecord \<Rightarrow> PlanSys \<Rightarrow> bool" where
  "batch_settled batch s \<longleftrightarrow> waiting (pr_runs s) (eb_run_ids batch) = [] \<or>
     eb_max_parallel batch \<le> int (occupancy (pr_runs s) (eb_run_ids batch))"

definition bounded :: "ExecutionBatchRecord \<Rightarrow> PlanSys \<Rightarrow> PlanSys \<Rightarrow> bool" where
  "bounded batch s t \<longleftrightarrow> int (occupancy (pr_runs t) (eb_run_ids batch)) \<le>
     max (eb_max_parallel batch) (int (occupancy (pr_runs s) (eb_run_ids batch)))"

lemma batch_ready_runs:
  assumes "batch_ready b batch s" "ids_ok r" "\<And>i. run_state (pr_runs s) i \<noteq> None \<Longrightarrow> run_state r i \<noteq> None"
  shows "batch_ready b batch (s\<lparr>pr_runs := r\<rparr>)"
  using assms by (auto simp: batch_ready_def)

lemma sent_or_closed_join:
  assumes "sent_or_closed a r r1" "sent_or_closed b r1 r2"
    "(set (dp_dispatched a) \<union> set (dp_failed a)) \<inter> (set (dp_dispatched b) \<union> set (dp_failed b)) = {}"
  shows "sent_or_closed (join_results a b) r r2"
  using assms unfolding sent_or_closed_def join_results_def by (auto simp: disjoint_iff)

context run_dispatcher
begin

text \<open>One round: the runs claimed, the state after it, and the counts.\<close>

lemma round:
  assumes "batch_ready b batch s"
  shows "\<exists>claimed res r'. claim_available_runs tick b s = (Inr claimed, s\<lparr>pr_runs := r'\<rparr>) \<and>
     claimed = take (capacity batch s) (waiting (pr_runs s) (eb_run_ids batch)) \<and>
     (claimed = [] \<longrightarrow> batch_settled batch s \<and> run_state r' = run_state (pr_runs s) \<and> ids_ok r') \<and>
     (\<exists>r''. dispatch_claimed dispatch (tick 0) claimed (s\<lparr>pr_runs := r'\<rparr>) = (Inr res, s\<lparr>pr_runs := r''\<rparr>) \<and>
        batch_ready b batch (s\<lparr>pr_runs := r''\<rparr>) \<and> sent_or_closed res (pr_runs s) r'' \<and>
        set (dp_dispatched res) \<union> set (dp_failed res) = set claimed \<and>
        waiting r'' (eb_run_ids batch) = drop (capacity batch s) (waiting (pr_runs s) (eb_run_ids batch)) \<and>
        bounded batch s (s\<lparr>pr_runs := r''\<rparr>) \<and>
        (dp_failed res = [] \<longrightarrow> batch_settled batch (s\<lparr>pr_runs := r''\<rparr>)))"
proof -
  let ?is = "eb_run_ids batch"
  let ?W = "waiting (pr_runs s) ?is"
  let ?claimed = "take (capacity batch s) ?W"
  have dis: "distinct ?is" using assms by (simp add: batch_ready_def)
  then have dW: "distinct ?W" by (simp add: waiting_def)
  obtain r1 where r1: "claim_available_runs tick b s = (Inr ?claimed, s\<lparr>pr_runs := r1\<rparr>)"
    "run_state r1 = queued ?claimed (run_state (pr_runs s))" "ids_ok r1"
    using claim_spec [OF assms] by blast
  have "\<forall>i \<in> set ?claimed. run_state (pr_runs (s\<lparr>pr_runs := r1\<rparr>)) i = Some R_QUEUED"
    using r1(2) by (simp add: queued_def)
  from dispatch_round [OF distinct_take [OF dW] this, of "tick 0"] r1(3)
  obtain res r2 where r2: "dispatch_claimed dispatch (tick 0) ?claimed (s\<lparr>pr_runs := r1\<rparr>) = (Inr res, s\<lparr>pr_runs := r2\<rparr>)"
    "ids_ok r2" "set (dp_dispatched res) \<union> set (dp_failed res) = set ?claimed" "sent_or_closed res r1 r2"
    by auto
  have sc: "sent_or_closed res (pr_runs s) r2"
    using r2(3,4) r1(2) unfolding sent_or_closed_def by (auto simp: queued_def)
  have state: "run_state r2 i = run_state (pr_runs s) i" if "i \<notin> set ?claimed" for i
    using sc r2(3) that unfolding sent_or_closed_def by auto
  have not_created: "run_state r2 i \<noteq> Some R_CREATED \<and> run_state r2 i \<noteq> None" if "i \<in> set ?claimed" for i
  proof -
    have "i \<in> set (dp_dispatched res) \<or> i \<in> set (dp_failed res)" using r2(3) that by blast
    then have "run_state r2 i = Some R_QUEUED \<or> run_state r2 i = Some R_DISPATCHING \<or> run_state r2 i = Some R_INFRA_ERROR"
      using sc unfolding sent_or_closed_def in_flight_def by blast
    then show ?thesis by auto
  qed
  have ready: "batch_ready b batch (s\<lparr>pr_runs := r2\<rparr>)"
    using assms r2(2) state not_created by (intro batch_ready_runs) metis+
  have "waiting r2 ?is = filter (\<lambda>i. i \<notin> set ?claimed) ?W"
  proof -
    have "run_state r2 i = Some R_CREATED \<longleftrightarrow> run_state (pr_runs s) i = Some R_CREATED \<and> i \<notin> set ?claimed" for i
      using state [of i] not_created [of i] by (cases "i \<in> set ?claimed") auto
    then show ?thesis by (simp add: waiting_def [of r2]) (simp add: waiting_def conj_commute)
  qed
  then have w: "waiting r2 ?is = drop (capacity batch s) ?W"
    by (simp add: filter_not_take [OF dW])
  have o1: "occupancy r1 ?is = occupancy (pr_runs s) ?is + length ?claimed"
    by (rule occupancy_queued [OF dis distinct_take [OF dW] set_take_subset r1(2)])
  note o2 = round_occupancy [OF dis r1(2) r2(4,3)]
  have b: "bounded batch s (s\<lparr>pr_runs := r2\<rparr>)"
    using o1 o2(1) by (simp add: bounded_def capacity_def)
  have full: "waiting r2 ?is = [] \<or> eb_max_parallel batch \<le> int (occupancy r1 ?is)"
    using o1 w by (auto simp: capacity_def)
  have settled: "dp_failed res = [] \<Longrightarrow> batch_settled batch (s\<lparr>pr_runs := r2\<rparr>)"
    using full o2(2) by (auto simp: batch_settled_def)
  have "batch_settled batch s" if "?claimed = []"
    using that by (auto simp: batch_settled_def capacity_def)
  moreover have "run_state r1 = run_state (pr_runs s)" if c: "?claimed = []"
    using r1(2) unfolding c by simp
  ultimately show ?thesis
    using r1 r2 ready sc w b settled by blast
qed

lemma loop_settles:
  assumes "batch_ready b batch s" "length (waiting (pr_runs s) (eb_run_ids batch)) < fuel"
  shows "\<exists>res r'. dispatch_loop dispatch tick b fuel s = (Inr (Some res), s\<lparr>pr_runs := r'\<rparr>) \<and>
     batch_ready b batch (s\<lparr>pr_runs := r'\<rparr>) \<and> batch_settled batch (s\<lparr>pr_runs := r'\<rparr>) \<and>
     bounded batch s (s\<lparr>pr_runs := r'\<rparr>) \<and> sent_or_closed res (pr_runs s) r' \<and>
     set (dp_dispatched res) \<union> set (dp_failed res) \<subseteq> set (waiting (pr_runs s) (eb_run_ids batch))"
  using assms
proof (induction fuel arbitrary: s)
  case (Suc fuel)
  let ?W = "waiting (pr_runs s) (eb_run_ids batch)"
  obtain claimed res r1 where r1: "claim_available_runs tick b s = (Inr claimed, s\<lparr>pr_runs := r1\<rparr>)"
    "claimed = take (capacity batch s) ?W"
    "claimed = [] \<Longrightarrow> batch_settled batch s \<and> run_state r1 = run_state (pr_runs s) \<and> ids_ok r1"
    and ex: "\<exists>r''. dispatch_claimed dispatch (tick 0) claimed (s\<lparr>pr_runs := r1\<rparr>) = (Inr res, s\<lparr>pr_runs := r''\<rparr>) \<and>
        batch_ready b batch (s\<lparr>pr_runs := r''\<rparr>) \<and> sent_or_closed res (pr_runs s) r'' \<and>
        set (dp_dispatched res) \<union> set (dp_failed res) = set claimed \<and>
        waiting r'' (eb_run_ids batch) = drop (capacity batch s) ?W \<and>
        bounded batch s (s\<lparr>pr_runs := r''\<rparr>) \<and>
        (dp_failed res = [] \<longrightarrow> batch_settled batch (s\<lparr>pr_runs := r''\<rparr>))"
    using round [OF Suc(2), of tick] by blast
  show ?case
  proof (cases "claimed = []")
    case True
    with r1 have same: "batch_settled batch s" "run_state r1 = run_state (pr_runs s)" "ids_ok r1" by auto
    have "batch_ready b batch (s\<lparr>pr_runs := r1\<rparr>)" using same by (intro batch_ready_runs [OF Suc(2)]) auto
    moreover have "occupies r1 = occupies (pr_runs s)" using same(2) by (simp add: occupies_def fun_eq_iff)
    ultimately show ?thesis
      using True r1(1) same
      by (intro exI [of _ no_dispatch] exI [of _ r1])
        (auto simp: bind_def batch_settled_def bounded_def occupancy_def waiting_def
          sent_or_closed_def no_dispatch_def)
  next
    case False
    from ex obtain r2 where r2: "dispatch_claimed dispatch (tick 0) claimed (s\<lparr>pr_runs := r1\<rparr>) = (Inr res, s\<lparr>pr_runs := r2\<rparr>)"
        "batch_ready b batch (s\<lparr>pr_runs := r2\<rparr>)" "sent_or_closed res (pr_runs s) r2"
        "set (dp_dispatched res) \<union> set (dp_failed res) = set claimed"
        "waiting r2 (eb_run_ids batch) = drop (capacity batch s) ?W"
        "bounded batch s (s\<lparr>pr_runs := r2\<rparr>)"
        "dp_failed res = [] \<Longrightarrow> batch_settled batch (s\<lparr>pr_runs := r2\<rparr>)"
      by blast
    have sub: "set claimed \<subseteq> set ?W" using r1(2) by (simp add: set_take_subset)
    show ?thesis
    proof (cases "dp_failed res = []")
      case True
      with False r1(1) r2 sub show ?thesis by (intro exI [of _ res] exI [of _ r2]) (auto simp: bind_def)
    next
      case fail: False
      have "capacity batch s \<noteq> 0" "?W \<noteq> []" using False r1(2) by auto
      then have "length (waiting (pr_runs (s\<lparr>pr_runs := r2\<rparr>)) (eb_run_ids batch)) < fuel"
        using Suc(3) r2(5) by (cases ?W) auto
      from Suc(1) [OF r2(2) this] obtain res' r3 where r3:
        "dispatch_loop dispatch tick b fuel (s\<lparr>pr_runs := r2\<rparr>) = (Inr (Some res'), s\<lparr>pr_runs := r3\<rparr>)"
        "batch_ready b batch (s\<lparr>pr_runs := r3\<rparr>)" "batch_settled batch (s\<lparr>pr_runs := r3\<rparr>)"
        "bounded batch (s\<lparr>pr_runs := r2\<rparr>) (s\<lparr>pr_runs := r3\<rparr>)" "sent_or_closed res' r2 r3"
        "set (dp_dispatched res') \<union> set (dp_failed res') \<subseteq> set (drop (capacity batch s) ?W)"
        using r2(5) by auto
      have "distinct ?W" using Suc(2) by (simp add: batch_ready_def waiting_def)
      then have "set claimed \<inter> set (drop (capacity batch s) ?W) = {}"
        using r1(2) by (simp add: set_take_disj_set_drop_if_distinct)
      then have "sent_or_closed (join_results res res') (pr_runs s) r3"
        using r2(4) r3(6) by (intro sent_or_closed_join [OF r2(3) r3(5)]) blast
      moreover have "bounded batch s (s\<lparr>pr_runs := r3\<rparr>)" using r2(6) r3(4) by (auto simp: bounded_def)
      moreover have "set (dp_dispatched (join_results res res')) \<union> set (dp_failed (join_results res res')) \<subseteq> set ?W"
        using r2(4) r3(6) sub set_drop_subset [of "capacity batch s" ?W] by (auto simp: join_results_def)
      ultimately show ?thesis
        using False fail r1(1) r2(1) r3
        by (intro exI [of _ "join_results res res'"] exI [of _ r3]) (simp add: bind_def)
    qed
  qed
qed simp

lemma coordinator_settles:
  assumes "batch_ready b batch s"
  shows "\<exists>res r'. dispatch_available dispatch tick b s = (Inr (Some res), s\<lparr>pr_runs := r'\<rparr>) \<and>
     batch_settled batch (s\<lparr>pr_runs := r'\<rparr>) \<and>
     bounded batch s (s\<lparr>pr_runs := r'\<rparr>) \<and> sent_or_closed res (pr_runs s) r' \<and>
     set (dp_dispatched res) \<union> set (dp_failed res) \<subseteq> set (waiting (pr_runs s) (eb_run_ids batch))"
proof -
  have "length (waiting (pr_runs s) (eb_run_ids batch)) < Suc (batch_size b s)"
    using assms by (simp add: batch_ready_def batch_size_def waiting_def le_imp_less_Suc)
  from loop_settles [OF assms this] show ?thesis unfolding dispatch_available_def by blast
qed

end

section \<open>The dispatchers keep the contract\<close>

lemma run_state_get: "run_state r i = Some st \<Longrightarrow> \<exists>x. get i r = (Inr x, r) \<and> rr_state x = st"
  by (auto simp: run_state_def get_def get_locked_def)

definition dispatching :: "RunRecord \<Rightarrow> time \<Rightarrow> RunRecord" where
  "dispatching x now = x\<lparr>rr_state := R_DISPATCHING, rr_updated_at := now, rr_state_version := rr_state_version x + 1\<rparr>"

lemma dispatch_queued: "rr_state x = R_QUEUED \<Longrightarrow> run_with_state x R_DISPATCHING now = Inr (dispatching x now)"
  by (simp add: run_with_state_def transition_run_def table_simps dispatching_def)

lemma db_dispatch_unfold:
  "db_dispatch (\<lambda>r. r) now i r =
     (case dget (q_runs r) i of
        None \<Rightarrow> (Inl RunNotFound, r)
      | Some x \<Rightarrow>
          if rr_state x = R_CREATED then (Inl InvalidTransition, r)
          else if rr_state x \<noteq> R_QUEUED then (Inr (), r)
          else (Inr (), set_run i (dispatching x now) r))"
  by (auto simp: db_dispatch_def bind_def get_def get_locked_def interfere_def catch_def transition_unfold
      dispatch_queued split: option.split)

lemma db_dispatch_effect:
  "ids_ok r \<Longrightarrow> ids_ok (snd (db_dispatch (\<lambda>r. r) now i r))"
  "run_state (snd (db_dispatch (\<lambda>r. r) now i r)) j =
     (if j = i \<and> run_state r i = Some R_QUEUED then Some R_DISPATCHING else run_state r j)"
  by (auto simp: db_dispatch_unfold run_state_def set_run_def dget_dset ids_ok_def dispatching_def
      split: option.split)

interpretation db: run_dispatcher "db_dispatch (\<lambda>r. r) now" for now
  by unfold_locales (auto simp: db_dispatch_effect in_flight_def)

interpretation celery: run_dispatcher "celery_dispatch send_task" for send_task
  by unfold_locales (auto simp: celery_dispatch_def in_flight_def)

section \<open>Races between dispatchers\<close>

lemma queued_dispatch_fails:
  "transition i R_DISPATCHING now r = (Inl InvalidTransition, r') \<Longrightarrow> r' = r \<and> run_state r i \<noteq> Some R_QUEUED"
  by (auto simp: transition_unfold run_state_def dispatch_queued split: option.splits sum.splits)

lemma transition_Inl:
  "transition i t now r = (Inl e, r') \<Longrightarrow> run_state r i \<noteq> None \<Longrightarrow> e = InvalidTransition \<and> r' = r"
  by (auto simp: transition_unfold run_state_def run_with_state_Inl split: option.splits sum.splits)

text \<open>
  Whatever other threads do between the read and the transition, as long as runs are not deleted,
  the dispatcher raises only for a run that is missing or not yet queued.
\<close>

lemma prepare_run_race:
  assumes "run_state r i = Some st" "st \<noteq> R_CREATED" "run_state (race r) i \<noteq> None"
  shows "\<exists>x r'. prepare_run race now i r = (Inr x, r') \<and>
     (st = R_QUEUED \<longrightarrow> run_state r' i \<noteq> Some R_QUEUED \<and> rr_state x \<noteq> R_QUEUED) \<and>
     (st \<noteq> R_QUEUED \<longrightarrow> r' = r \<and> rr_state x = st)"
proof -
  obtain x where x: "get i r = (Inr x, r)" "rr_state x = st" using run_state_get [OF assms(1)] by blast
  show ?thesis
  proof (cases "st = R_QUEUED")
    case True
    obtain y where y: "dget (q_runs (race r)) i = Some y" using assms(3) by (auto simp: run_state_def)
    show ?thesis
    proof (cases "rr_state y = R_QUEUED")
      case yq: True
      have "run_state (set_run i (dispatching y now) (race r)) i = Some R_DISPATCHING"
        by (simp add: run_state_set_run dispatching_def)
      with x True y yq show ?thesis
        by (simp add: prepare_run_def bind_def interfere_def catch_def transition_unfold dispatch_queued)
          (simp add: dispatching_def)
    next
      case False
      with x True y show ?thesis
        by (auto simp: prepare_run_def bind_def interfere_def catch_def transition_unfold get_def get_locked_def
            run_state_def run_with_state_Inr dest: run_with_state_Inl split: sum.split)
    qed
  next
    case False
    with x assms(2) show ?thesis by (simp add: prepare_run_def bind_def)
  qed
qed

section \<open>Demonstration\<close>

text \<open>A batch of three runs with room for one.\<close>

definition demo_run :: "uuid \<Rightarrow> RunState \<Rightarrow> RunRecord" where
  "demo_run i st = (new_run i E_PYTEST [] 0)\<lparr>rr_state := st\<rparr>"

definition demo_batch :: ExecutionBatchRecord where
  "demo_batch = \<lparr>eb_id = 9, eb_tenant_id = 6, eb_project_id = 7, eb_plan_id = 8, eb_plan_revision = 2,
     eb_idempotency_key = ''k'', eb_max_parallel = 1, eb_run_ids = [1, 2, 3], eb_created_at = 0\<rparr>"

definition demo_sys :: "RunState \<Rightarrow> PlanSys" where
  "demo_sys st = empty_plans\<lparr>pr_batches := [(9, demo_batch)],
     pr_runs := empty_repo\<lparr>q_runs := [(1, demo_run 1 st), (2, demo_run 2 R_CREATED), (3, demo_run 3 R_CREATED)]\<rparr>\<rparr>"

lemma demo_batch_ready: "batch_ready 9 demo_batch (demo_sys st)"
  by (auto simp: batch_ready_def demo_sys_def demo_batch_def run_state_def ids_ok_def demo_run_def new_run_def
      empty_repo_def split: if_splits)

section \<open>Properties\<close>

text \<open>C20. Dispatching a batch always returns and leaves no usable capacity idle: the loop ends within
  one round more than the batch has runs; afterwards no run of the batch is still waiting or all \<open>max_parallel\<close>
  slots are occupied; the occupancy never grows beyond the limit; every run reported as dispatched is now in flight
  and was waiting, every run reported as failed is closed as \<open>INFRA_ERROR\<close>, and every other run keeps its
  state. This holds for the database dispatcher and for the Celery dispatcher, whose every send may raise.\<close>

theorem batch_dispatch_fills_capacity:
  assumes "batch_ready b batch s"
    and "dispatch = db_dispatch (\<lambda>r. r) now \<or> dispatch = celery_dispatch send_task"
  shows "\<exists>res r'. dispatch_available dispatch tick b s = (Inr (Some res), s\<lparr>pr_runs := r'\<rparr>) \<and>
     (waiting r' (eb_run_ids batch) = [] \<or> eb_max_parallel batch \<le> int (occupancy r' (eb_run_ids batch))) \<and>
     int (occupancy r' (eb_run_ids batch)) \<le>
       max (eb_max_parallel batch) (int (occupancy (pr_runs s) (eb_run_ids batch))) \<and>
     sent_or_closed res (pr_runs s) r' \<and>
     set (dp_dispatched res) \<union> set (dp_failed res) \<subseteq> set (waiting (pr_runs s) (eb_run_ids batch))"
  using assms(2) db.coordinator_settles [OF assms(1), of now tick]
    celery.coordinator_settles [OF assms(1), of send_task tick]
  by (auto simp: batch_settled_def bounded_def)

theorem batch_dispatch_fills_capacity_witness:
  "\<exists>res r'. dispatch_available (celery_dispatch (\<lambda>i. if i = 1 then Inl RuntimeError else Inr ())) (\<lambda>_. 0) 9
       (demo_sys R_CREATED) = (Inr (Some res), (demo_sys R_CREATED)\<lparr>pr_runs := r'\<rparr>) \<and>
     dp_failed res = [1] \<and> dp_dispatched res = [2] \<and> occupancy r' [1, 2, 3] = 1"
proof -
  let ?d = "dispatch_available (celery_dispatch (\<lambda>i. if i = 1 then Inl RuntimeError else Inr ())) (\<lambda>_. 0) 9
       (demo_sys R_CREATED)"
  obtain res r' where r: "?d = (Inr (Some res), (demo_sys R_CREATED)\<lparr>pr_runs := r'\<rparr>)"
    using batch_dispatch_fills_capacity [OF demo_batch_ready [of R_CREATED]] by blast
  have "case ?d of (Inr (Some res), t) \<Rightarrow> dp_failed res = [1] \<and> dp_dispatched res = [2] \<and>
      occupancy (pr_runs t) [1, 2, 3] = 1 | _ \<Rightarrow> False"
    by code_simp
  with r show ?thesis by auto
qed

text \<open>Preparing a run is safe under races: whatever other threads do between reading a run that is not
  \<open>CREATED\<close> and moving it, the worker task returns; a run that was queued is no longer queued
  afterwards, and a run in any other state is returned untouched.\<close>

theorem prepare_run_survives_races:
  assumes "run_state r i = Some st" "st \<noteq> R_CREATED" "run_state (race r) i \<noteq> None"
  shows "\<exists>x r'. prepare_run race now i r = (Inr x, r') \<and>
     (st = R_QUEUED \<longrightarrow> run_state r' i \<noteq> Some R_QUEUED \<and> rr_state x \<noteq> R_QUEUED) \<and>
     (st \<noteq> R_QUEUED \<longrightarrow> r' = r \<and> rr_state x = st)"
  using assms by (rule prepare_run_race)

theorem prepare_run_survives_races_witness:
  "\<exists>x r'. prepare_run (\<lambda>r. snd (cancel 1 0 r)) 5 1 (pr_runs (demo_sys R_QUEUED)) = (Inr x, r') \<and>
     rr_state x = R_CANCELLING"
proof -
  let ?r = "pr_runs (demo_sys R_QUEUED)"
  have "run_state ?r 1 = Some R_QUEUED" "run_state (snd (cancel 1 0 ?r)) 1 \<noteq> None" by code_simp+
  then obtain x r' where "prepare_run (\<lambda>r. snd (cancel 1 0 r)) 5 1 ?r = (Inr x, r')"
    using prepare_run_survives_races [of ?r 1 R_QUEUED "\<lambda>r. snd (cancel 1 0 r)" 5] by auto
  moreover have "case prepare_run (\<lambda>r. snd (cancel 1 0 r)) 5 1 ?r of (Inr x, _) \<Rightarrow> rr_state x = R_CANCELLING | _ \<Rightarrow> False"
    by code_simp
  ultimately show ?thesis by auto
qed


end
