(* ===== verification/Plan_Facts.thy ===== *)
theory Plan_Facts
  imports Dispatch
begin

text \<open>
  What executing test plans guarantees: an execution is idempotent under its key, it expands every data row into one run
  and one specification that pins the revisions, and in every reachable state of plans and runs together the batches are
  complete and ready for the dispatcher of \<^verbatim>\<open>Dispatch\<close>. The step relation joins the operations of the plan repository
  with those of the run repository they share; creating and claiming runs are shown to be steps of the run repository.
\<close>

section \<open>The rows of a plan and what they expand to\<close>

definition plan_rows :: "TestPlanItem list \<Rightarrow> (TestPlanItem \<times> TestPlanDataRow) list" where
  "plan_rows items = concat (map (\<lambda>item. map (Pair item) (pi_data_rows item)) items)"

text \<open>What row number \<open>n\<close> of a plan has to become.\<close>

definition expanded ::
  "PlanEnv \<Rightarrow> TestPlanRecord \<Rightarrow> uuid \<Rightarrow> time \<Rightarrow> (string \<times> string) option \<Rightarrow> nat \<Rightarrow>
   TestPlanItem \<times> TestPlanDataRow \<Rightarrow> RunRecord \<times> RunSpecRecord \<Rightarrow> bool" where
  "expanded pe plan b now ov n = (\<lambda>(item, row) (run, spec).
     \<exists>script conf. pe_scripts pe (pi_script_id item) (pi_script_revision item) = Inr script \<and>
       item_configuration pe item = Inr conf \<and>
       (let ps = row_parameters (cf_common conf) (pi_default_parameters item) (dw_values row) in
        run = new_run (fst (pe_ids pe n)) (sc_engine script) ps now \<and>
        spec = row_spec plan b now ov item script conf (pe_ids pe n) (dw_row_key row) ps))"

lemma json_object_same: "json_object f v = Inr w \<Longrightarrow> w = v"
  by (auto simp: json_object_def split: if_splits sum.splits)

lemma expand_rows_expanded:
  assumes "pe_scripts pe (pi_script_id item) (pi_script_revision item) = Inr script"
    and "item_configuration pe item = Inr conf"
    and "expand_rows pe plan b now ov item script conf n rows = Inr rs"
  shows "list_all2 (\<lambda>(n, ir). expanded pe plan b now ov n ir) (enumerate n (map (Pair item) rows)) rs"
  using assms(3)
  by (induction rows arbitrary: n rs)
    (auto simp: expanded_def Let_def assms(1,2) dest!: json_object_same)

lemma expand_items_expanded:
  "expand_items pe plan b now ov n items = Inr rs \<Longrightarrow>
     list_all2 (\<lambda>(n, ir). expanded pe plan b now ov n ir) (enumerate n (plan_rows items)) rs"
proof (induction items arbitrary: n rs)
  case (Cons item items)
  then obtain script conf rows others where
    *: "pe_scripts pe (pi_script_id item) (pi_script_revision item) = Inr script"
       "item_configuration pe item = Inr conf"
       "expand_rows pe plan b now ov item script conf n (pi_data_rows item) = Inr rows"
       "expand_items pe plan b now ov (n + length rows) items = Inr others" "rs = rows @ others"
    by auto
  have rows: "list_all2 (\<lambda>(n, ir). expanded pe plan b now ov n ir)
      (enumerate n (map (Pair item) (pi_data_rows item))) rows"
    by (rule expand_rows_expanded [OF *(1-3)])
  then have "length rows = length (pi_data_rows item)"
    by (simp add: list_all2_lengthD [symmetric])
  with rows Cons.IH [OF *(4)] *(5) show ?case
    by (simp add: plan_rows_def enumerate_append_eq list_all2_appendI)
qed (simp add: plan_rows_def)

lemma expand_nth:
  assumes "expand pe plan b now ov = Inr runs"
  shows "length runs = length (plan_rows (pl_items plan))"
    and "n < length runs \<Longrightarrow> expanded pe plan b now ov n (plan_rows (pl_items plan) ! n) (runs ! n)"
proof -
  have *: "list_all2 (\<lambda>(n, ir). expanded pe plan b now ov n ir) (enumerate 0 (plan_rows (pl_items plan))) runs"
    using assms unfolding expand_def by (rule expand_items_expanded)
  show len: "length runs = length (plan_rows (pl_items plan))"
    using list_all2_lengthD [OF *] by simp
  show "n < length runs \<Longrightarrow> expanded pe plan b now ov n (plan_rows (pl_items plan) ! n) (runs ! n)"
    using list_all2_nthD2 [OF *, of n] len by (simp add: nth_enumerate_eq)
qed

lemma row_spec_fields [simp]:
  "sp_id (row_spec plan b now ov item script conf ids key ps) = snd ids"
  "sp_run_id (row_spec plan b now ov item script conf ids key ps) = fst ids"
  "sp_batch_id (row_spec plan b now ov item script conf ids key ps) = b"
  "sp_plan_id (row_spec plan b now ov item script conf ids key ps) = pl_id plan"
  "sp_plan_revision (row_spec plan b now ov item script conf ids key ps) = pl_revision plan"
  "sp_engine (row_spec plan b now ov item script conf ids key ps) = sc_engine script"
  "sp_parameters (row_spec plan b now ov item script conf ids key ps) = ps"
  by (simp_all add: row_spec_def split: prod.split)

lemma expanded_fields:
  "expanded pe plan b now ov n ir rs \<Longrightarrow>
     rr_id (fst rs) = fst (pe_ids pe n) \<and> rr_state (fst rs) = R_CREATED \<and>
     sp_run_id (snd rs) = rr_id (fst rs) \<and> sp_batch_id (snd rs) = b \<and>
     sp_engine (snd rs) = rr_engine (fst rs) \<and> sp_parameters (snd rs) = rr_parameters (fst rs) \<and>
     sp_plan_id (snd rs) = pl_id plan \<and> sp_plan_revision (snd rs) = pl_revision plan"
  by (cases ir; cases rs) (auto simp: expanded_def Let_def new_run_def)

lemma expand_ids:
  assumes "expand pe plan b now ov = Inr runs"
  shows "map (\<lambda>(run, _). rr_id run) runs = map (\<lambda>n. fst (pe_ids pe n)) [0..<length runs]"
proof (rule nth_equalityI)
  fix n assume "n < length (map (\<lambda>(run, _). rr_id run) runs)"
  then have n: "n < length runs" by simp
  with expanded_fields [OF expand_nth(2) [OF assms n]]
  show "map (\<lambda>(run, _). rr_id run) runs ! n = map (\<lambda>n. fst (pe_ids pe n)) [0..<length runs] ! n"
    by (simp add: split_beta)
qed simp

lemma length_plan_rows: "length (plan_rows items) = total_rows items"
  by (simp add: plan_rows_def total_rows_def length_concat comp_def)

section \<open>The writes of an execution\<close>

lemma foldl_set_run:
  "q_runs (foldl (\<lambda>r (run, _). set_run (rr_id run) run r) r runs) =
     dmerge (q_runs r) (map (\<lambda>(run, _). (rr_id run, run)) runs)"
  by (induction runs arbitrary: r) auto

lemma dget_dmerge_nth:
  assumes "distinct (map fst kvs)" "n < length kvs" "kvs ! n = (k, v)"
  shows "dget (dmerge d kvs) k = Some v"
proof -
  have "dget (rev kvs) k = Some v"
    using assms dget_rev [of kvs k] by (simp add: wf_dict_def) (metis nth_mem)
  then show ?thesis by (simp add: dget_dmerge)
qed

lemma dget_dmerge_other: "k \<notin> fst ` set kvs \<Longrightarrow> dget (dmerge d kvs) k = dget d k"
  by (simp add: dget_dmerge map_of_eq_None_iff [symmetric] split: option.split)
     (metis map_of_eq_None_iff option.distinct(1) set_rev)

section \<open>Steps of plans and runs together\<close>

inductive plan_step :: "PlanSys \<Rightarrow> PlanSys \<Rightarrow> bool" where
  p_create: "dget (pr_plans s) fresh = None \<Longrightarrow>
     plan_step s (snd (create_plan pe tenant project name descr items par fresh now s))"
| p_update: "plan_step s (snd (update_plan pe i v name descr items status par now s))"
| p_execute: "dget (pr_batches s) b = None \<Longrightarrow> inj (\<lambda>n. fst (pe_ids pe n)) \<Longrightarrow>
     (\<forall>n. dget (q_runs (pr_runs s)) (fst (pe_ids pe n)) = None) \<Longrightarrow>
     plan_step s (snd (execute_plan pe i key ov b now s))"
| p_claim: "plan_step s (snd (claim_available_runs tick b s))"
| p_runs: "repo_step (pr_runs s) r \<Longrightarrow> plan_step s (s\<lparr>pr_runs := r\<rparr>)"

abbreviation plan_versioned :: "PlanSys \<Rightarrow> bool" where
  "plan_versioned s \<equiv> versioned pl_id pl_revision pl_state_version (pr_plans s) (pr_revisions s)"

lemma create_plan_cases:
  "(\<exists>e. create_plan pe tenant project name descr items par fresh now s = (Inl e, s)) \<or>
   (\<exists>name' descr' items' par'. create_plan pe tenant project name descr items par fresh now s =
      (Inr (new_plan fresh tenant project name' descr' items' par' now),
       s\<lparr>pr_plans := dset fresh (new_plan fresh tenant project name' descr' items' par' now) (pr_plans s),
         pr_revisions := dset fresh [new_plan fresh tenant project name' descr' items' par' now] (pr_revisions s)\<rparr>))"
  by (auto simp: create_plan_def bind_def Let_def new_plan_def split: sum.splits prod.splits)

lemma plan_update_Inr:
  "plan_update r n d its p st now = Inr r' \<Longrightarrow>
     pl_id r' = pl_id r \<and> pl_revision r' = pl_revision r + 1 \<and> pl_state_version r' = pl_state_version r + 1 \<and>
     pl_tenant_id r' = pl_tenant_id r \<and> pl_project_id r' = pl_project_id r"
  by (auto simp: plan_update_def)

lemma update_plan_cases:
  assumes "plan_versioned s"
  shows "(\<exists>e. update_plan pe i v name descr items status par now s = (Inl e, s)) \<or>
    (\<exists>r r' hist. dget (pr_plans s) i = Some r \<and> dget (pr_revisions s) i = Some hist \<and> pl_state_version r = v \<and>
       pl_id r' = pl_id r \<and> pl_revision r' = pl_revision r + 1 \<and> pl_state_version r' = pl_state_version r + 1 \<and>
       pl_tenant_id r' = pl_tenant_id r \<and> pl_project_id r' = pl_project_id r \<and>
       update_plan pe i v name descr items status par now s =
         (Inr r', s\<lparr>pr_plans := dset i r' (pr_plans s), pr_revisions := dset i (hist @ [r']) (pr_revisions s)\<rparr>))"
proof (cases "update_plan pe i v name descr items status par now s")
  case (Pair res t)
  have hist: "dget (pr_revisions s) i \<noteq> None" if "dget (pr_plans s) i = Some r" for r
    using versioned_get [OF assms that] by blast
  show ?thesis
  proof (cases res)
    case (Inl e)
    with Pair have "t = s"
      by (auto simp: update_plan_def bind_Inl_iff get_plan_def append_revision_def dest!: hist
          split: option.splits if_splits prod.splits)
    with Pair Inl show ?thesis by blast
  next
    case (Inr r')
    with Pair obtain r hist n d its p where *: "dget (pr_plans s) i = Some r" "pl_state_version r = v"
      "plan_update r n d its p status now = Inr r'" "dget (pr_revisions s) i = Some hist"
      "t = s\<lparr>pr_plans := dset i r' (pr_plans s), pr_revisions := dset i (hist @ [r']) (pr_revisions s)\<rparr>"
      by (auto simp: update_plan_def bind_Inr_iff get_plan_def append_revision_def
          split: option.splits if_splits prod.splits)
    from plan_update_Inr [OF *(3)] *(1,2,4,5) Pair Inr show ?thesis
      by (intro disjI2 exI [of _ r] exI [of _ r'] exI [of _ hist]) simp
  qed
qed

lemma transition_step: "repo_steps r (snd (transition i st now r))"
  by (rule steps_step [OF steps_refl step_transition])

lemma set_run_by_transition:
  "dget (q_runs r) i = Some x \<Longrightarrow> run_with_state x st now = Inr y \<Longrightarrow> repo_steps r (set_run i y r)"
  using transition_step [of r i st now] by (simp add: transition_unfold)

lemma claim_loop_steps:
  "\<forall>x \<in> set records. dget (q_runs r) (rr_id x) = Some x \<Longrightarrow> distinct (map rr_id records) \<Longrightarrow>
     repo_steps r (snd (claim_loop tick n records r))"
proof (induction records arbitrary: n r)
  case (Cons x xs)
  show ?case
  proof (cases "n = 0 \<or> rr_state x \<noteq> R_CREATED")
    case True
    with Cons.prems Cons.IH [of r n] show ?thesis by (cases "n = 0") simp_all
  next
    case False
    then obtain y where y: "run_with_state x R_QUEUED (tick n) = Inr y"
      using queue_created [of x "tick n"] by auto
    have "repo_steps r (set_run (rr_id x) y r)" 
      using Cons.prems(1) by (intro set_run_by_transition [OF _ y]) simp
    moreover have "repo_steps (set_run (rr_id x) y r) (snd (claim_loop tick (n - 1) xs (set_run (rr_id x) y r)))"
    proof (rule Cons.IH)
      have "rr_id z \<noteq> rr_id x" if "z \<in> set xs" for z
        using Cons.prems(2) that by (force simp: image_iff)
      with Cons.prems(1) show "\<forall>z \<in> set xs. dget (q_runs (set_run (rr_id x) y r)) (rr_id z) = Some z"
        by (simp add: dget_dset_other)
    qed (use Cons.prems(2) in simp)
    ultimately have "repo_steps r (snd (claim_loop tick (n - 1) xs (set_run (rr_id x) y r)))"
      by (rule repo_steps_trans)
    moreover have "snd (claim_loop tick n (x # xs) r) = snd (claim_loop tick (n - 1) xs (set_run (rr_id x) y r))"
      using False y by (simp add: bind_def split: prod.split sum.split)
    ultimately show ?thesis by simp
  qed
qed simp

lemma new_run_by_create:
  assumes "dget (q_runs r) i = None"
  shows "repo_steps r (set_run i (new_run i eng ps now) r)"
proof -
  have "repo_steps r (snd (create_or_get (\<lambda>_. Inr []) (\<lambda>x. x) eng ps None i now r))"
    by (rule steps_step [OF steps_refl step_create [OF assms]])
  then show ?thesis
    by (simp add: create_or_get_unfold normalize_key_def fingerprint_def saved_request_def save_request_def Let_def
       new_run_def)
qed

lemma foldl_runs_steps:
  assumes "\<forall>(run, spec) \<in> set runs. \<exists>i eng ps now. run = new_run i eng ps now"
    and "distinct (map (\<lambda>(run, _). rr_id run) runs)"
    and "\<forall>(run, _) \<in> set runs. dget (q_runs r) (rr_id run) = None"
  shows "repo_steps r (foldl (\<lambda>r (run, _). set_run (rr_id run) run r) r runs)"
  using assms
proof (induction runs arbitrary: r)
  case (Cons x runs)
  obtain run spec where x: "x = (run, spec)" by (cases x)
  then obtain i eng ps now where run: "run = new_run i eng ps now" using Cons.prems(1) by auto
  then have i: "rr_id run = i" by (simp add: new_run_def)
  have "repo_steps r (set_run i run r)"
    unfolding run using Cons.prems(3) i by (intro new_run_by_create) (simp add: x)
  moreover have "repo_steps (set_run i run r)
      (foldl (\<lambda>r (run, _). set_run (rr_id run) run r) (set_run i run r) runs)"
  proof (rule Cons.IH)
    have "rr_id z \<noteq> i" if "(z, w) \<in> set runs" for z w
      using Cons.prems(2) that by (force simp: x i)
    with Cons.prems(3) show "\<forall>(z, _) \<in> set runs. dget (q_runs (set_run i run r)) (rr_id z) = None"
      by (auto simp: dget_dset)
  qed (use Cons.prems in \<open>auto simp: x\<close>)
  ultimately show ?case by (auto simp: x i intro: repo_steps_trans)
qed simp

text \<open>The batch an execution of a plan records.\<close>

definition batch_of :: "TestPlanRecord \<Rightarrow> string \<Rightarrow> uuid \<Rightarrow> time \<Rightarrow> (RunRecord \<times> RunSpecRecord) list \<Rightarrow> ExecutionBatchRecord" where
  "batch_of plan key b now runs =
     \<lparr>eb_id = b, eb_tenant_id = pl_tenant_id plan, eb_project_id = pl_project_id plan,
      eb_plan_id = pl_id plan, eb_plan_revision = pl_revision plan,
      eb_idempotency_key = key, eb_max_parallel = pl_max_parallel plan,
      eb_run_ids = map (\<lambda>(run, _). rr_id run) runs, eb_created_at = now\<rparr>"

abbreviation plan_scope :: "TestPlanRecord \<Rightarrow> string \<Rightarrow> uuid \<times> uuid \<times> string" where
  "plan_scope plan key \<equiv> (pl_tenant_id plan, pl_project_id plan, key)"

definition first_execution ::
  "PlanEnv \<Rightarrow> uuid \<Rightarrow> string \<Rightarrow> (string \<times> string) option \<Rightarrow> uuid \<Rightarrow> time \<Rightarrow> PlanSys \<Rightarrow>
   TestPlanRecord \<Rightarrow> (RunRecord \<times> RunSpecRecord) list \<Rightarrow> bool" where
  "first_execution pe i key ov b now s plan runs \<longleftrightarrow>
     strip key \<noteq> [] \<and> length (strip key) \<le> 255 \<and> dget (pr_plans s) i = Some plan \<and> pl_status plan = PL_ACTIVE \<and>
     dget (pr_idempotency s) (plan_scope plan (strip key)) = None \<and> expand pe plan b now ov = Inr runs"

lemma execute_plan_unfold:
  "execute_plan pe i key ov b now s =
     (if strip key = [] \<or> length (strip key) > 255 then (Inl ValueError, s)
      else case dget (pr_plans s) i of
        None \<Rightarrow> (Inl TestPlanNotFound, s)
      | Some plan \<Rightarrow> (case dget (pr_idempotency s) (plan_scope plan (strip key)) of
          Some (p, n, b') \<Rightarrow>
            if (p, n) \<noteq> (pl_id plan, pl_revision plan) then (Inl TestPlanConflict, s)
            else (case dget (pr_batches s) b' of None \<Rightarrow> (Inl KeyError, s) | Some batch \<Rightarrow> (Inr (batch, True), s))
        | None \<Rightarrow>
            if pl_status plan \<noteq> PL_ACTIVE then (Inl TestPlanConflict, s)
            else (case expand pe plan b now ov of
               Inl e \<Rightarrow> (Inl e, s)
             | Inr runs \<Rightarrow> (Inr (batch_of plan (strip key) b now runs, False),
                 record_batch (plan_scope plan (strip key)) (batch_of plan (strip key) b now runs) runs s))))"
  by (simp add: execute_plan_def bind_def Let_def get_plan_def batch_of_def split: option.split sum.split prod.split)

lemma execute_plan_cases:
  "snd (execute_plan pe i key ov b now s) = s \<or>
   (\<exists>plan runs. first_execution pe i key ov b now s plan runs \<and>
      execute_plan pe i key ov b now s = (Inr (batch_of plan (strip key) b now runs, False),
        record_batch (plan_scope plan (strip key)) (batch_of plan (strip key) b now runs) runs s))"
  by (auto simp: execute_plan_unfold first_execution_def not_less split: option.split sum.split)

lemma claim_unfold:
  "claim_available_runs tick b s = (case dget (pr_batches s) b of
     None \<Rightarrow> (Inl TestPlanNotFound, s)
   | Some batch \<Rightarrow> on_runs (bind (get_all_locked (eb_run_ids batch)) (\<lambda>records.
       claim_loop tick (nat (eb_max_parallel batch - int (occupied records))) records)) s)"
  by (simp add: claim_available_runs_def get_execution_batch_def bind_def split: option.split)

section \<open>Invariant\<close>

definition batch_complete :: "uuid \<Rightarrow> ExecutionBatchRecord \<Rightarrow> PlanSys \<Rightarrow> bool" where
  "batch_complete b batch s \<longleftrightarrow> eb_id batch = b \<and> distinct (eb_run_ids batch) \<and>
     (\<forall>i \<in> set (eb_run_ids batch). \<exists>run spec. dget (q_runs (pr_runs s)) i = Some run \<and>
        dget (pr_specs_by_run s) i = Some spec \<and> sp_run_id spec = i \<and> sp_batch_id spec = b \<and>
        sp_plan_id spec = eb_plan_id batch \<and> sp_plan_revision spec = eb_plan_revision batch \<and>
        sp_engine spec = rr_engine run \<and> sp_parameters spec = rr_parameters run)"

definition key_ok :: "uuid \<times> uuid \<times> string \<Rightarrow> uuid \<times> int \<times> uuid \<Rightarrow> PlanSys \<Rightarrow> bool" where
  "key_ok sc entry s = (case entry of (p, n, b) \<Rightarrow> \<exists>batch. dget (pr_batches s) b = Some batch \<and>
     eb_plan_id batch = p \<and> eb_plan_revision batch = n \<and>
     sc = (eb_tenant_id batch, eb_project_id batch, eb_idempotency_key batch))"

definition plan_inv :: "PlanSys \<Rightarrow> bool" where
  "plan_inv s \<longleftrightarrow> plan_versioned s \<and> repo_steps empty_repo (pr_runs s) \<and>
     (\<forall>b batch. dget (pr_batches s) b = Some batch \<longrightarrow> batch_complete b batch s) \<and>
     (\<forall>i. dget (pr_specs_by_run s) i \<noteq> None \<longrightarrow> dget (q_runs (pr_runs s)) i \<noteq> None) \<and>
     (\<forall>sc entry. dget (pr_idempotency s) sc = Some entry \<longrightarrow> key_ok sc entry s)"

definition plan_grows :: "PlanSys \<Rightarrow> PlanSys \<Rightarrow> bool" where
  "plan_grows s t \<longleftrightarrow> repo_steps (pr_runs s) (pr_runs t) \<and>
     (\<forall>b x. dget (pr_batches s) b = Some x \<longrightarrow> dget (pr_batches t) b = Some x) \<and>
     (\<forall>i x. dget (pr_specs_by_run s) i = Some x \<longrightarrow> dget (pr_specs_by_run t) i = Some x) \<and>
     (\<forall>k x. dget (pr_idempotency s) k = Some x \<longrightarrow> dget (pr_idempotency t) k = Some x) \<and>
     (\<forall>i p. dget (pr_plans s) i = Some p \<longrightarrow> (\<exists>p'. dget (pr_plans t) i = Some p' \<and>
        pl_tenant_id p' = pl_tenant_id p \<and> pl_project_id p' = pl_project_id p))"

lemma plan_grows_refl [simp]: "plan_grows s s"
  by (simp add: plan_grows_def)

lemma plan_grows_trans: "plan_grows s t \<Longrightarrow> plan_grows t u \<Longrightarrow> plan_grows s u"
  unfolding plan_grows_def by (elim conjE, intro conjI) (blast intro: repo_steps_trans, metis+)

lemma reach_inv: "repo_steps empty_repo r \<Longrightarrow> repo_inv r"
  by (rule repo_steps_inv [OF _ repo_inv_empty])

lemma batch_complete_grows:
  assumes "plan_grows s t" "repo_inv (pr_runs s)" "batch_complete b batch s"
  shows "batch_complete b batch t"
proof -
  have "repo_evolves (pr_runs s) (pr_runs t)"
    using assms(1,2) by (auto simp: plan_grows_def intro: repo_steps_evolves)
  note keep = repo_evolves_runD [OF this]
  have "\<exists>run spec. dget (q_runs (pr_runs t)) i = Some run \<and>
        dget (pr_specs_by_run t) i = Some spec \<and> sp_run_id spec = i \<and> sp_batch_id spec = b \<and>
        sp_plan_id spec = eb_plan_id batch \<and> sp_plan_revision spec = eb_plan_revision batch \<and>
        sp_engine spec = rr_engine run \<and> sp_parameters spec = rr_parameters run"
    if i: "i \<in> set (eb_run_ids batch)" for i
  proof -
    obtain run spec where *: "dget (q_runs (pr_runs s)) i = Some run" "dget (pr_specs_by_run s) i = Some spec"
      "sp_run_id spec = i" "sp_batch_id spec = b" "sp_plan_id spec = eb_plan_id batch"
      "sp_plan_revision spec = eb_plan_revision batch" "sp_engine spec = rr_engine run"
      "sp_parameters spec = rr_parameters run"
      using assms(3) i unfolding batch_complete_def by blast
    obtain run' where "dget (q_runs (pr_runs t)) i = Some run'" "rr_engine run' = rr_engine run"
      "rr_parameters run' = rr_parameters run"
      using keep [OF *(1)] by (auto simp: run_evolves_def)
    moreover have "dget (pr_specs_by_run t) i = Some spec"
      using assms(1) *(2) by (simp add: plan_grows_def)
    ultimately show ?thesis using * by auto
  qed
  with assms(3) show ?thesis by (simp add: batch_complete_def)
qed

lemma plan_inv_grows:
  assumes "plan_inv s" "plan_grows s t" "plan_versioned t"
    and "pr_batches t = pr_batches s" "pr_specs_by_run t = pr_specs_by_run s" "pr_idempotency t = pr_idempotency s"
  shows "plan_inv t"
proof -
  have steps: "repo_steps (pr_runs s) (pr_runs t)" using assms(2) by (simp add: plan_grows_def)
  have inv: "repo_inv (pr_runs s)" using assms(1) by (auto simp: plan_inv_def intro: reach_inv)
  have runs: "dget (q_runs (pr_runs s)) i \<noteq> None \<Longrightarrow> dget (q_runs (pr_runs t)) i \<noteq> None" for i
    using repo_evolves_runD [OF repo_steps_evolves [OF steps inv]] by fastforce
  have "key_ok sc entry t" if "key_ok sc entry s" for sc entry
    using that assms(4) by (simp add: key_ok_def split: prod.splits)
  with assms(1,3-6) steps batch_complete_grows [OF assms(2) inv] runs show ?thesis
    unfolding plan_inv_def by (metis repo_steps_trans)
qed

definition fresh_ids :: "PlanEnv \<Rightarrow> uuid \<Rightarrow> PlanSys \<Rightarrow> bool" where
  "fresh_ids pe b s \<longleftrightarrow> dget (pr_batches s) b = None \<and> inj (\<lambda>n. fst (pe_ids pe n)) \<and>
     (\<forall>n. dget (q_runs (pr_runs s)) (fst (pe_ids pe n)) = None)"

lemma expand_members:
  assumes "expand pe plan b now ov = Inr runs" "rs \<in> set runs"
  shows "\<exists>n ir. expanded pe plan b now ov n ir rs"
proof -
  obtain n where "n < length runs" "rs = runs ! n" using assms(2) by (auto simp: in_set_conv_nth)
  with expand_nth(2) [OF assms(1)] show ?thesis by blast
qed

lemma expand_distinct:
  "expand pe plan b now ov = Inr runs \<Longrightarrow> inj (\<lambda>n. fst (pe_ids pe n)) \<Longrightarrow>
     distinct (map (\<lambda>(run, _). rr_id run) runs)"
  by (simp add: expand_ids distinct_map inj_on_def)

text \<open>What a first execution leaves in the system, row by row.\<close>

lemma record_batch_stores:
  assumes "expand pe plan b now ov = Inr runs" "fresh_ids pe b s" "n < length runs" "runs ! n = (run, spec)"
  shows "dget (q_runs (pr_runs (record_batch sc batch runs s))) (rr_id run) = Some run"
    and "dget (pr_specs_by_run (record_batch sc batch runs s)) (rr_id run) = Some spec"
proof -
  have d: "distinct (map (\<lambda>(run, _). rr_id run) runs)"
    using expand_distinct [OF assms(1)] assms(2) by (simp add: fresh_ids_def)
  then have d': "distinct (map (\<lambda>x. rr_id (fst x)) runs)" by (simp add: case_prod_unfold)
  have spec: "sp_run_id spec = rr_id run" if "(run, spec) \<in> set runs" for run spec
    using expand_members [OF assms(1) that] expanded_fields by fastforce
  have keys: "map (fst \<circ> (\<lambda>(_, spec). (sp_run_id spec, spec))) runs = map (\<lambda>(run, _). rr_id run) runs"
    using spec by (auto simp: split_beta)
  show "dget (q_runs (pr_runs (record_batch sc batch runs s))) (rr_id run) = Some run"
    unfolding record_batch_def using d assms(3,4)
    by (simp add: foldl_set_run) (rule dget_dmerge_nth [of _ n], simp_all add: comp_def split_beta d')
  show "dget (pr_specs_by_run (record_batch sc batch runs s)) (rr_id run) = Some spec"
    unfolding record_batch_def using d assms(3,4) spec [of run spec] nth_mem [OF assms(3)]
    by simp (rule dget_dmerge_nth [of _ n], simp_all add: keys split_beta d')
qed

lemma record_batch_steps:
  assumes "expand pe plan b now ov = Inr runs" "fresh_ids pe b s"
  shows "repo_steps (pr_runs s) (pr_runs (record_batch sc batch runs s))"
proof -
  have "\<exists>i eng ps now. run = new_run i eng ps now" "dget (q_runs (pr_runs s)) (rr_id run) = None"
    if m: "(run, spec) \<in> set runs" for run spec
  proof -
    obtain n ir where "expanded pe plan b now ov n ir (run, spec)" using expand_members [OF assms(1) m] by blast
    then show "\<exists>i eng ps now. run = new_run i eng ps now" "dget (q_runs (pr_runs s)) (rr_id run) = None"
      using assms(2) by (auto simp: expanded_def Let_def fresh_ids_def new_run_def split: prod.splits)
  qed
  moreover have "distinct (map (\<lambda>(run, _). rr_id run) runs)"
    using expand_distinct [OF assms(1)] assms(2) by (simp add: fresh_ids_def)
  ultimately show ?thesis
    unfolding record_batch_def by (simp, intro foldl_runs_steps) auto
qed

lemma record_batch_grows:
  assumes "plan_inv s" "fresh_ids pe b s" "first_execution pe i key ov b now s plan runs"
  shows "plan_grows s (record_batch (plan_scope plan (strip key)) (batch_of plan (strip key) b now runs) runs s)"
    (is "plan_grows s ?t")
proof -
  have ex: "expand pe plan b now ov = Inr runs" using assms(3) by (simp add: first_execution_def)
  have "dget (pr_specs_by_run ?t) j = Some x" if "dget (pr_specs_by_run s) j = Some x" for j x
  proof -
    have "dget (q_runs (pr_runs s)) j \<noteq> None" using assms(1) that by (auto simp: plan_inv_def)
    moreover have "dget (q_runs (pr_runs s)) (sp_run_id spec) = None" if "(run, spec) \<in> set runs" for run spec
      using expand_members [OF ex that] expanded_fields assms(2) by (fastforce simp: fresh_ids_def)
    ultimately have "j \<notin> fst ` set (map (\<lambda>(_, spec). (sp_run_id spec, spec)) runs)" by force
    from dget_dmerge_other [OF this] that show ?thesis by (simp add: record_batch_def)
  qed
  moreover have "pr_batches ?t = dset b (batch_of plan (strip key) b now runs) (pr_batches s)"
    "pr_idempotency ?t = dset (plan_scope plan (strip key)) (pl_id plan, pl_revision plan, b) (pr_idempotency s)"
    "pr_plans ?t = pr_plans s"
    by (simp_all add: record_batch_def batch_of_def)
  ultimately show ?thesis
    using record_batch_steps [OF ex assms(2)] assms(2,3)
    unfolding plan_grows_def by (auto simp: dget_dset fresh_ids_def first_execution_def)
qed

lemma record_batch_complete:
  assumes "fresh_ids pe b s" "first_execution pe i key ov b now s plan runs"
  shows "batch_complete b (batch_of plan (strip key) b now runs)
     (record_batch (plan_scope plan (strip key)) (batch_of plan (strip key) b now runs) runs s)"
proof -
  have ex: "expand pe plan b now ov = Inr runs" using assms(2) by (simp add: first_execution_def)
  have "distinct (map (\<lambda>(run, _). rr_id run) runs)"
    using expand_distinct [OF ex] assms(1) by (simp add: fresh_ids_def)
  moreover have "\<exists>run spec. dget (q_runs (pr_runs t)) j = Some run \<and>
        dget (pr_specs_by_run t) j = Some spec \<and> sp_run_id spec = j \<and> sp_batch_id spec = b \<and>
        sp_plan_id spec = pl_id plan \<and> sp_plan_revision spec = pl_revision plan \<and>
        sp_engine spec = rr_engine run \<and> sp_parameters spec = rr_parameters run"
    if j: "j \<in> set (map (\<lambda>(run, _). rr_id run) runs)"
      and t: "t = record_batch (plan_scope plan (strip key)) (batch_of plan (strip key) b now runs) runs s" for j t
  proof -
    obtain n run spec where n: "n < length runs" "runs ! n = (run, spec)" "j = rr_id run"
      using j by (auto simp: in_set_conv_nth split_beta)
    from expand_nth(2) [OF ex n(1)] n(2)
    have "expanded pe plan b now ov n (plan_rows (pl_items plan) ! n) (run, spec)" by simp
    from expanded_fields [OF this] record_batch_stores [OF ex assms(1) n(1,2)] n(3) show ?thesis
      unfolding t by auto
  qed
  ultimately show ?thesis by (simp add: batch_complete_def batch_of_def)
qed

lemma plan_inv_record:
  assumes "plan_inv s" "fresh_ids pe b s" "first_execution pe i key ov b now s plan runs"
  shows "plan_inv (record_batch (plan_scope plan (strip key)) (batch_of plan (strip key) b now runs) runs s)"
    (is "plan_inv ?t")
proof -
  have ex: "expand pe plan b now ov = Inr runs" using assms(3) by (simp add: first_execution_def)
  note grows = record_batch_grows [OF assms]
  have inv: "repo_inv (pr_runs s)" using assms(1) by (auto simp: plan_inv_def intro: reach_inv)
  have steps: "repo_steps (pr_runs s) (pr_runs ?t)" by (rule record_batch_steps [OF ex assms(2)])
  have batches: "pr_batches ?t = dset b (batch_of plan (strip key) b now runs) (pr_batches s)"
    by (simp add: record_batch_def batch_of_def)
  have keys: "pr_idempotency ?t = dset (plan_scope plan (strip key)) (pl_id plan, pl_revision plan, b) (pr_idempotency s)"
    by (simp add: record_batch_def batch_of_def)
  have "plan_versioned ?t" using assms(1) by (simp add: plan_inv_def record_batch_def)
  moreover have "repo_steps empty_repo (pr_runs ?t)"
    using assms(1) steps by (auto simp: plan_inv_def intro: repo_steps_trans)
  moreover have "batch_complete b' batch ?t" if "dget (pr_batches ?t) b' = Some batch" for b' batch
  proof (cases "b' = b")
    case True
    with that batches show ?thesis using record_batch_complete [OF assms(2,3)] by (simp add: dget_dset)
  next
    case False
    with that batches have "dget (pr_batches s) b' = Some batch" by (simp add: dget_dset)
    with assms(1) show ?thesis by (intro batch_complete_grows [OF grows inv]) (simp add: plan_inv_def)
  qed
  moreover have "dget (q_runs (pr_runs ?t)) j \<noteq> None" if "dget (pr_specs_by_run ?t) j \<noteq> None" for j
  proof (cases "j \<in> fst ` set (map (\<lambda>(_, spec). (sp_run_id spec, spec)) runs)")
    case True
    then obtain n run spec where n: "n < length runs" "runs ! n = (run, spec)" "j = sp_run_id spec"
      by (auto simp: in_set_conv_nth split_beta)
    with expanded_fields [OF expand_nth(2) [OF ex n(1)]] record_batch_stores(1) [OF ex assms(2) n(1,2)]
    show ?thesis by auto
  next
    case False
    from dget_dmerge_other [OF this] that have "dget (pr_specs_by_run s) j \<noteq> None" by (simp add: record_batch_def)
    then have "dget (q_runs (pr_runs s)) j \<noteq> None" using assms(1) by (simp add: plan_inv_def)
    then show ?thesis using repo_evolves_runD [OF repo_steps_evolves [OF steps inv]] by fastforce
  qed
  moreover have "key_ok sc entry ?t" if "dget (pr_idempotency ?t) sc = Some entry" for sc entry
  proof (cases "sc = plan_scope plan (strip key)")
    case True
    with that have "entry = (pl_id plan, pl_revision plan, b)" unfolding keys by (simp add: dget_dset)
    with True show ?thesis by (simp add: key_ok_def batches dget_dset) (simp add: batch_of_def)
  next
    case False
    with that have "dget (pr_idempotency s) sc = Some entry" unfolding keys by (simp add: dget_dset)
    then have "key_ok sc entry s" using assms(1) unfolding plan_inv_def by blast
    then show ?thesis using grows by (auto simp: key_ok_def plan_grows_def)
  qed
  ultimately show ?thesis unfolding plan_inv_def by blast
qed

lemma plan_grows_runs: "repo_steps (pr_runs s) r \<Longrightarrow> plan_grows s (s\<lparr>pr_runs := r\<rparr>)"
  by (simp add: plan_grows_def)

lemma plan_grows_plans:
  "(\<And>i p. dget (pr_plans s) i = Some p \<Longrightarrow> \<exists>p'. dget ps i = Some p' \<and>
      pl_tenant_id p' = pl_tenant_id p \<and> pl_project_id p' = pl_project_id p) \<Longrightarrow>
   plan_grows s (s\<lparr>pr_plans := ps, pr_revisions := rs\<rparr>)"
  by (simp add: plan_grows_def)

lemma claim_steps:
  assumes "plan_inv s"
  shows "\<exists>r. repo_steps (pr_runs s) r \<and> snd (claim_available_runs tick b s) = s\<lparr>pr_runs := r\<rparr>"
proof (cases "dget (pr_batches s) b")
  case None
  then show ?thesis by (intro exI [of _ "pr_runs s"]) (simp add: claim_unfold)
next
  case (Some batch)
  have c: "batch_complete b batch s" and inv: "repo_inv (pr_runs s)"
    using assms Some by (auto simp: plan_inv_def intro: reach_inv)
  define records where "records = map (\<lambda>i. the (dget (q_runs (pr_runs s)) i)) (eb_run_ids batch)"
  have stored: "\<forall>i \<in> set (eb_run_ids batch). dget (q_runs (pr_runs s)) i \<noteq> None"
    using c by (auto simp: batch_complete_def)
  have ids: "rr_id (the (dget (q_runs (pr_runs s)) i)) = i" if "i \<in> set (eb_run_ids batch)" for i
    using repo_inv_runD [OF inv] stored that by force
  have "map rr_id records = eb_run_ids batch"
    unfolding records_def using ids by (simp add: map_idI)
  then have d: "distinct (map rr_id records)" using c by (simp add: batch_complete_def)
  have "\<forall>x \<in> set records. dget (q_runs (pr_runs s)) (rr_id x) = Some x"
    unfolding records_def using ids stored by auto
  note steps = claim_loop_steps [OF this d]
  have "snd (claim_available_runs tick b s) = s\<lparr>pr_runs :=
      snd (claim_loop tick (nat (eb_max_parallel batch - int (occupied records))) records (pr_runs s))\<rparr>"
    using get_all_locked_Inr [OF stored]
    by (simp add: claim_unfold Some on_runs_def bind_def records_def [symmetric] split: prod.split)
  with steps show ?thesis by blast
qed

lemma plan_step_shape:
  assumes "plan_step s t" "plan_versioned s"
  shows "versioned_step pl_id pl_revision pl_state_version (pr_plans s) (pr_revisions s) (pr_plans t) (pr_revisions t)"
  using assms
proof (induction rule: plan_step.induct)
  case (p_create s fresh pe tenant project name descr items par now)
  with create_plan_cases [of pe tenant project name descr items par fresh now s] show ?case
    by (auto simp: versioned_step_same new_plan_def intro!: versioned_step_create)
next
  case (p_update s pe i v name descr items status par now)
  from update_plan_cases [OF p_update, of pe i v name descr items status par now] show ?case
    by (auto simp: versioned_step_same intro: versioned_step_update)
next
  case (p_execute s b pe i key ov now)
  from execute_plan_cases [of pe i key ov b now s] show ?case
    by (auto simp: versioned_step_same record_batch_def)
next
  case (p_claim s tick b)
  show ?case
    by (simp add: claim_unfold on_runs_def versioned_step_same split: option.split prod.split)
qed (simp add: versioned_step_same)

interpretation plans: versioned_repository
  pr_plans pr_revisions pl_id pl_revision pl_state_version plan_step empty_plans
  by unfold_locales (auto simp: empty_plans_def intro: plan_step_shape)

lemma plan_step_grows:
  assumes "plan_step s t" "plan_inv s"
  shows "plan_grows s t \<and> plan_inv t"
  using assms
proof (induction rule: plan_step.induct)
  case (p_create s fresh pe tenant project name descr items par now)
  let ?t = "snd (create_plan pe tenant project name descr items par fresh now s)"
  have same: "pr_batches ?t = pr_batches s" "pr_specs_by_run ?t = pr_specs_by_run s" "pr_idempotency ?t = pr_idempotency s"
    and "plan_grows s ?t"
    using create_plan_cases [of pe tenant project name descr items par fresh now s] p_create(1)
    by (auto simp: dget_dset intro!: plan_grows_plans)
  moreover have "plan_versioned ?t"
    using plan_step_shape [OF plan_step.p_create [OF p_create(1)]] p_create(2)
    by (auto simp: plan_inv_def intro: versioned_step_inv)
  ultimately show ?case using plan_inv_grows [OF p_create(2)] by blast
next
  case (p_update s pe i v name descr items status par now)
  let ?t = "snd (update_plan pe i v name descr items status par now s)"
  have ver: "plan_versioned s" using p_update by (simp add: plan_inv_def)
  have same: "pr_batches ?t = pr_batches s" "pr_specs_by_run ?t = pr_specs_by_run s" "pr_idempotency ?t = pr_idempotency s"
    and "plan_grows s ?t"
    using update_plan_cases [OF ver, of pe i v name descr items status par now]
    by (auto simp: dget_dset intro!: plan_grows_plans)
  moreover have "plan_versioned ?t"
    by (rule versioned_step_inv [OF ver plan_step_shape [OF plan_step.p_update ver]])
  ultimately show ?case using plan_inv_grows [OF p_update] by blast
next
  case (p_execute s b pe i key ov now)
  then have fresh: "fresh_ids pe b s" by (simp add: fresh_ids_def)
  from execute_plan_cases [of pe i key ov b now s] show ?case
    using record_batch_grows [OF p_execute(4) fresh] plan_inv_record [OF p_execute(4) fresh] p_execute(4) by auto
next
  case (p_claim s tick b)
  obtain r where r: "repo_steps (pr_runs s) r" "snd (claim_available_runs tick b s) = s\<lparr>pr_runs := r\<rparr>"
    using claim_steps [OF p_claim] by blast
  have "plan_inv (s\<lparr>pr_runs := r\<rparr>)"
    using p_claim by (intro plan_inv_grows [OF p_claim plan_grows_runs [OF r(1)]]) (simp_all add: plan_inv_def)
  with r plan_grows_runs [OF r(1)] show ?case by simp
next
  case (p_runs s r)
  then have g: "plan_grows s (s\<lparr>pr_runs := r\<rparr>)" by (auto intro: plan_grows_runs steps_step)
  have "plan_inv (s\<lparr>pr_runs := r\<rparr>)"
    using p_runs by (intro plan_inv_grows [OF p_runs(2) g]) (simp_all add: plan_inv_def)
  with g show ?case by simp
qed

lemma plan_steps_grow: "plan_step\<^sup>*\<^sup>* s t \<Longrightarrow> plan_inv s \<Longrightarrow> plan_grows s t \<and> plan_inv t"
  by (induction rule: rtranclp_induct) (auto dest: plan_step_grows intro: plan_grows_trans)

lemma plan_inv_empty: "plan_inv empty_plans"
  by (simp add: plan_inv_def empty_plans_def versioned_def)

lemma plan_inv_reachable: "plan_step\<^sup>*\<^sup>* empty_plans s \<Longrightarrow> plan_inv s"
  using plan_steps_grow plan_inv_empty by blast

lemma configuration_loop_wf:
  "configuration_loop vs c = Inr c' \<Longrightarrow> wf_dict (cf_common c) \<Longrightarrow> wf_dict (cf_common c')"
  by (induction vs arbitrary: c) (auto split: if_splits option.splits)

lemma item_configuration_wf: "item_configuration pe item = Inr conf \<Longrightarrow> wf_dict (cf_common conf)"
  by (auto simp: item_configuration_def Let_def split: option.splits intro: configuration_loop_wf)

lemma dget_row_parameters:
  assumes "wf_dict common" "wf_dict defaults" "wf_dict row"
  shows "dget (row_parameters common defaults row) k =
    (case dget row k of Some v \<Rightarrow> Some v | None \<Rightarrow>
       (case dget defaults k of Some v \<Rightarrow> Some v | None \<Rightarrow> dget common k))"
  using assms by (simp add: row_parameters_def dget_dmerge dget_rev split: option.split)

lemma first_execution_result:
  "execute_plan pe i key ov b now s = (Inr (batch, False), t) \<Longrightarrow>
     \<exists>plan runs. first_execution pe i key ov b now s plan runs \<and> batch = batch_of plan (strip key) b now runs \<and>
       t = record_batch (plan_scope plan (strip key)) batch runs s"
  by (auto simp: execute_plan_unfold first_execution_def not_less split: option.splits sum.splits if_splits prod.splits)

lemma replay_result:
  assumes "execute_plan pe i key ov b now s = (Inr (batch, True), t)"
  shows "\<exists>plan b'. dget (pr_plans s) i = Some plan \<and> strip key \<noteq> [] \<and> length (strip key) \<le> 255 \<and>
     dget (pr_idempotency s) (plan_scope plan (strip key)) = Some (pl_id plan, pl_revision plan, b') \<and>
     dget (pr_batches s) b' = Some batch \<and> t = s"
proof (cases "dget (pr_plans s) i")
  case None
  with assms show ?thesis by (simp add: execute_plan_unfold split: if_splits)
next
  case (Some plan)
  show ?thesis
  proof (cases "dget (pr_idempotency s) (plan_scope plan (strip key))")
    case None
    with assms Some show ?thesis by (simp add: execute_plan_unfold split: if_splits sum.splits)
  next
    case (Some entry)
    obtain p n b' where "entry = (p, n, b')" by (cases entry)
    with assms Some \<open>dget (pr_plans s) i = Some plan\<close> show ?thesis
      by (simp add: execute_plan_unfold split: if_splits option.splits)
  qed
qed

lemma execute_keeps_plans: "pr_plans (snd (execute_plan pe i key ov b now s)) = pr_plans s"
  using execute_plan_cases [of pe i key ov b now s] by (auto simp: record_batch_def)

text \<open>
  What the run and the specification of a data row have to say: they agree on engine and parameters, name batch, plan
  revision, item and row, pin the script revision and the environment revision of the item, and a row value comes before the
  item's default and that before the environment's common parameter.
\<close>

definition pins_row ::
  "PlanEnv \<Rightarrow> TestPlanRecord \<Rightarrow> uuid \<Rightarrow> (string \<times> string) option \<Rightarrow> TestPlanItem \<Rightarrow> TestPlanDataRow \<Rightarrow>
   RunRecord \<Rightarrow> RunSpecRecord \<Rightarrow> bool" where
  "pins_row pe plan b ov item row run spec \<longleftrightarrow> (\<exists>script conf.
     pe_scripts pe (pi_script_id item) (pi_script_revision item) = Inr script \<and>
     item_configuration pe item = Inr conf \<and>
     rr_engine run = sc_engine script \<and> rr_parameters run = sp_parameters spec \<and>
     sp_batch_id spec = b \<and> sp_plan_id spec = pl_id plan \<and> sp_plan_revision spec = pl_revision plan \<and>
     sp_item_id spec = pi_item_id item \<and> sp_row_key spec = dw_row_key row \<and>
     sp_script_id spec = sc_id script \<and> sp_script_revision spec = sc_revision script \<and>
     sp_engine spec = sc_engine script \<and> sp_entrypoint spec = sc_entrypoint script \<and>
     sp_timeout_seconds spec = sc_timeout_seconds script \<and>
     (sp_source_ref spec, sp_content_digest spec) =
       (case ov of None \<Rightarrow> (sc_source_ref script, sc_content_digest script) | Some over \<Rightarrow> over) \<and>
     sp_environment_id spec = pi_environment_id item \<and> sp_environment_revision spec = pi_environment_revision item \<and>
     sp_environment_variables spec = cf_variables conf \<and> sp_secret_references spec = cf_secrets conf \<and>
     (\<forall>k. dget (sp_parameters spec) k =
        (case dget (dw_values row) k of Some v \<Rightarrow> Some v | None \<Rightarrow>
           (case dget (pi_default_parameters item) k of Some v \<Rightarrow> Some v | None \<Rightarrow> dget (cf_common conf) k))))"

lemma expanded_pins_row:
  assumes "expanded pe plan b now ov n (item, row) (run, spec)"
    and "wf_dict (pi_default_parameters item)" "wf_dict (dw_values row)"
  shows "pins_row pe plan b ov item row run spec"
proof -
  from assms(1) obtain script conf where
    *: "pe_scripts pe (pi_script_id item) (pi_script_revision item) = Inr script" "item_configuration pe item = Inr conf"
      "run = new_run (fst (pe_ids pe n)) (sc_engine script)
         (row_parameters (cf_common conf) (pi_default_parameters item) (dw_values row)) now"
      "spec = row_spec plan b now ov item script conf (pe_ids pe n) (dw_row_key row)
         (row_parameters (cf_common conf) (pi_default_parameters item) (dw_values row))"
    by (auto simp: expanded_def Let_def)
  with dget_row_parameters [OF item_configuration_wf [OF *(2)] assms(2,3)] show ?thesis
    unfolding pins_row_def
    by (intro exI [of _ script] exI [of _ conf]) (simp add: new_run_def row_spec_def split: prod.split)
qed

lemma execute_plan_entry:
  assumes "plan_inv s" "execute_plan pe i key ov b now s = (Inr (batch, again), t)"
  shows "\<exists>plan. dget (pr_plans s) i = Some plan \<and> strip key \<noteq> [] \<and> length (strip key) \<le> 255 \<and>
     eb_tenant_id batch = pl_tenant_id plan \<and> eb_project_id batch = pl_project_id plan \<and>
     eb_plan_id batch = i \<and> eb_plan_revision batch = pl_revision plan \<and>
     dget (pr_idempotency t) (plan_scope plan (strip key)) = Some (i, pl_revision plan, eb_id batch) \<and>
     dget (pr_batches t) (eb_id batch) = Some batch"
proof -
  have ids: "pl_id plan = i" if "dget (pr_plans s) i = Some plan" for plan
    using versioned_get [of pl_id pl_revision pl_state_version "pr_plans s" "pr_revisions s" i plan] that assms(1)
      log_ok_last(1) by (fastforce simp: plan_inv_def)
  show ?thesis
  proof (cases again)
    case False
    with assms(2) have "execute_plan pe i key ov b now s = (Inr (batch, False), t)" by simp
    from first_execution_result [OF this]
    obtain plan runs where *: "first_execution pe i key ov b now s plan runs"
      "batch = batch_of plan (strip key) b now runs" "t = record_batch (plan_scope plan (strip key)) batch runs s" by blast
    then have "dget (pr_plans s) i = Some plan" by (simp add: first_execution_def)
    with * ids [OF this] show ?thesis
      by (auto simp: first_execution_def record_batch_def batch_of_def dget_dset)
  next
    case True
    with assms(2) have "execute_plan pe i key ov b now s = (Inr (batch, True), t)" by simp
    from replay_result [OF this] obtain plan b' where *: "dget (pr_plans s) i = Some plan" "strip key \<noteq> []" "length (strip key) \<le> 255"
      "dget (pr_idempotency s) (plan_scope plan (strip key)) = Some (pl_id plan, pl_revision plan, b')"
      "dget (pr_batches s) b' = Some batch" "t = s" by blast
    moreover have "key_ok (plan_scope plan (strip key)) (pl_id plan, pl_revision plan, b') s"
      using assms(1) *(4) unfolding plan_inv_def by blast
    moreover have "batch_complete b' batch s" using assms(1) *(5) unfolding plan_inv_def by blast
    ultimately show ?thesis using ids [OF *(1)] by (auto simp: key_ok_def batch_complete_def)
  qed
qed

lemma execute_plan_step:
  "fresh_ids pe b s \<Longrightarrow> execute_plan pe i key ov b now s = (r, t) \<Longrightarrow> plan_step s t"
  using plan_step.p_execute [of s b pe i key ov now] by (simp add: fresh_ids_def)

section \<open>Demonstration\<close>

text \<open>A plan with one script and two data rows, one of which overrides a default.\<close>

definition plan_demo_env :: PlanEnv where
  "plan_demo_env = \<lparr>pe_scripts = (\<lambda>i n. fst (get_script_revision i n demo_scripts2)),
     pe_environments = (\<lambda>_ _. Inl EnvironmentNotFound), pe_size = (\<lambda>_. Inr 40),
     pe_ids = (\<lambda>n. (20 + 2 * n, 21 + 2 * n))\<rparr>"

definition plan_demo_item :: TestPlanItem where
  "plan_demo_item = \<lparr>pi_item_id = 3, pi_script_id = 1, pi_script_revision = 2, pi_environment_id = None,
     pi_environment_revision = None, pi_default_parameters = [(''user'', PStr ''a''), (''lang'', PStr ''en'')],
     pi_data_rows = [\<lparr>dw_row_key = ''one'', dw_values = []\<rparr>, \<lparr>dw_row_key = ''two'', dw_values = [(''user'', PStr ''b'')]\<rparr>],
     pi_execution_policy = default_policy\<rparr>"

definition plan_demo_plan :: "TestPlanStatus \<Rightarrow> int \<Rightarrow> time \<Rightarrow> TestPlanRecord" where
  "plan_demo_plan status revision now = \<lparr>pl_id = 8, pl_tenant_id = 6, pl_project_id = 7, pl_name = ''nightly'',
     pl_description = [], pl_items = [plan_demo_item], pl_max_parallel = 1, pl_status = status,
     pl_revision = revision, pl_state_version = revision - 1, pl_created_at = 0, pl_updated_at = now\<rparr>"

definition plan_demo_active :: PlanSys where
  "plan_demo_active = empty_plans\<lparr>pr_plans := [(8, plan_demo_plan PL_ACTIVE 2 5)],
     pr_revisions := [(8, [plan_demo_plan PL_DRAFT 1 0, plan_demo_plan PL_ACTIVE 2 5])]\<rparr>"

definition plan_demo_executed :: PlanSys where
  "plan_demo_executed = snd (execute_plan plan_demo_env 8 '' k '' None 9 6 plan_demo_active)"

definition plan_demo_batch :: ExecutionBatchRecord where
  "plan_demo_batch = \<lparr>eb_id = 9, eb_tenant_id = 6, eb_project_id = 7, eb_plan_id = 8, eb_plan_revision = 2,
     eb_idempotency_key = ''k'', eb_max_parallel = 1, eb_run_ids = [20, 22], eb_created_at = 6\<rparr>"

lemma plan_demo_script:
  "\<exists>script. get_script_revision 1 2 demo_scripts2 = (Inr script, demo_scripts2) \<and> sc_project_id script = 7 \<and>
     sc_status script = AS_ACTIVE \<and> sc_engine script = E_PYTEST \<and> sc_revision script = 2"
  by (simp add: demo_scripts2_def demo_changes_def demo_scripts_def create_script_unfold update_script_unfold
      script_update_def new_script_def get_script_revision_def get_script_def bind_def Let_def empty_automation_def
      table_simps next_script_status_def)

lemma plan_demo_strip:
  "strip ''nightly'' = ''nightly''" "strip ''one'' = ''one''" "strip ''two'' = ''two''" "strip '' k '' = ''k''" "strip ''k'' = ''k''"
  by code_simp+

lemma plan_demo_items: "normalize_plan_items (pe_size plan_demo_env) [plan_demo_item] = Inr [plan_demo_item]"
  by (simp add: normalize_plan_items_def normalize_item_def default_rows_def plan_demo_item_def plan_demo_env_def
      plan_demo_strip Let_def json_object_def MAX_JSON_MAP_BYTES_def MAX_PLAN_ITEMS_def MAX_PLAN_ROWS_def total_rows_def)

lemma plan_demo_refs: "validate_references plan_demo_env 7 [plan_demo_item] = Inr ()"
  using plan_demo_script
  by (auto simp: validate_reference_def plan_demo_env_def plan_demo_item_def http_only_parts_def default_policy_def)

lemma plan_demo_reach: "plan_step\<^sup>*\<^sup>* empty_plans plan_demo_active"
proof -
  let ?draft = "empty_plans\<lparr>pr_plans := [(8, plan_demo_plan PL_DRAFT 1 0)], pr_revisions := [(8, [plan_demo_plan PL_DRAFT 1 0])]\<rparr>"
  have "create_plan plan_demo_env 6 7 ''nightly'' [] [plan_demo_item] 1 8 0 empty_plans = (Inr (plan_demo_plan PL_DRAFT 1 0), ?draft)"
    by (simp add: create_plan_def bind_def normalize_plan_text_def plan_demo_strip Let_def plan_demo_items
        check_max_parallel_def plan_demo_refs new_plan_def plan_demo_plan_def empty_plans_def del: validate_references.simps)
  with p_create [of empty_plans 8 plan_demo_env 6 7 "''nightly''" "[]" "[plan_demo_item]" 1 0]
  have "plan_step empty_plans ?draft" by (simp add: empty_plans_def)
  moreover have "update_plan plan_demo_env 8 0 ''nightly'' [] [plan_demo_item] PL_ACTIVE 1 5 ?draft =
      (Inr (plan_demo_plan PL_ACTIVE 2 5), plan_demo_active)"
    by (simp add: update_plan_def bind_def normalize_plan_text_def plan_demo_strip Let_def plan_demo_items get_plan_def
        check_max_parallel_def plan_demo_refs plan_demo_plan_def empty_plans_def plan_update_def validate_plan_transition_def
        table_simps append_revision_def plan_demo_active_def del: validate_references.simps)
  with p_update [of ?draft plan_demo_env 8 0 "''nightly''" "[]" "[plan_demo_item]" PL_ACTIVE 1 5]
  have "plan_step ?draft plan_demo_active" by simp
  ultimately show ?thesis by (rule converse_rtranclp_into_rtranclp [OF _ r_into_rtranclp])
qed

lemma plan_demo_fresh: "fresh_ids plan_demo_env 9 plan_demo_active"
  by (simp add: fresh_ids_def plan_demo_env_def plan_demo_active_def empty_plans_def empty_repo_def inj_def)

lemma plan_demo_executes:
  "execute_plan plan_demo_env 8 '' k '' None 9 6 plan_demo_active = (Inr (plan_demo_batch, False), plan_demo_executed)"
proof -
  have "fst (execute_plan plan_demo_env 8 '' k '' None 9 6 plan_demo_active) = Inr (plan_demo_batch, False)"
    using plan_demo_script
    by (auto simp: execute_plan_unfold plan_demo_strip plan_demo_active_def empty_plans_def plan_demo_plan_def
      expand_def plan_demo_item_def plan_demo_env_def item_configuration_def json_object_def Let_def MAX_JSON_MAP_BYTES_def
      row_parameters_def batch_of_def plan_demo_batch_def new_run_def)
  then show ?thesis by (simp add: plan_demo_executed_def prod_eq_iff)
qed

section \<open>Properties\<close>

text \<open>Executing a plan is idempotent per tenant, project and key: once an execution returned a batch, any later
  execution with the same stripped key by a plan of the same tenant and project, whatever happened to plans and
  runs in between, returns that very batch, marked as a replay, if it is the same plan at the same revision, and raises
  \<open>TestPlanConflict\<close> otherwise; it never changes the state.\<close>

theorem plan_execution_is_idempotent:
  assumes "plan_step\<^sup>*\<^sup>* empty_plans s" "fresh_ids pe b s"
    and "execute_plan pe i key ov b now s = (Inr (batch, again), t)"
    and "plan_step\<^sup>*\<^sup>* t u" "strip key' = strip key" "dget (pr_plans u) j = Some plan"
    and "pl_tenant_id plan = eb_tenant_id batch" "pl_project_id plan = eb_project_id batch"
  shows "execute_plan pe' j key' ov' b' now' u =
    (if j = i \<and> pl_revision plan = eb_plan_revision batch then Inr (batch, True) else Inl TestPlanConflict, u)"
proof -
  have reach_t: "plan_step\<^sup>*\<^sup>* empty_plans t"
    using assms(1) execute_plan_step [OF assms(2,3)] by (rule rtranclp.rtrancl_into_rtrancl)
  then have reach_u: "plan_step\<^sup>*\<^sup>* empty_plans u" using assms(4) by simp
  obtain plan0 where *: "strip key \<noteq> []" "length (strip key) \<le> 255" "eb_tenant_id batch = pl_tenant_id plan0"
      "eb_project_id batch = pl_project_id plan0" "eb_plan_revision batch = pl_revision plan0"
      "dget (pr_idempotency t) (plan_scope plan0 (strip key)) = Some (i, pl_revision plan0, eb_id batch)"
      "dget (pr_batches t) (eb_id batch) = Some batch"
    using execute_plan_entry [OF plan_inv_reachable [OF assms(1)] assms(3)] by blast
  moreover have "plan_grows t u" using plan_steps_grow [OF assms(4) plan_inv_reachable [OF reach_t]] by simp
  ultimately have "dget (pr_idempotency u) (plan_scope plan (strip key')) = Some (i, pl_revision plan0, eb_id batch)"
      "dget (pr_batches u) (eb_id batch) = Some batch"
    using assms(5,7,8) by (simp_all add: plan_grows_def)
  moreover have "pl_id plan = j" by (rule plans.current_is_last_revision(1) [OF reach_u assms(6)])
  ultimately show ?thesis using * assms(5,6) by (auto simp: execute_plan_unfold)
qed

theorem plan_execution_is_idempotent_witness:
  "execute_plan plan_demo_env 8 ''k'' None 11 7 plan_demo_executed = (Inr (plan_demo_batch, True), plan_demo_executed)"
proof -
  have plan: "dget (pr_plans plan_demo_executed) 8 = Some (plan_demo_plan PL_ACTIVE 2 5)"
    by (simp add: plan_demo_executed_def execute_keeps_plans) (simp add: plan_demo_active_def)
  have key: "strip ''k'' = strip '' k ''" by (simp add: plan_demo_strip)
  from plan_execution_is_idempotent [OF plan_demo_reach plan_demo_fresh plan_demo_executes rtranclp.rtrancl_refl key plan,
      of plan_demo_env None 11 7]
  show ?thesis by (simp add: plan_demo_batch_def plan_demo_plan_def)
qed

text \<open>C22. The first execution of a plan expands every data row of every item, in order, into one stored run in state
  \<open>CREATED\<close> and one run specification. The specification pins the script revision the item names (engine, entrypoint,
  timeout and, unless overridden, source and digest), the item's environment revision with its secret references, the
  plan revision and the batch; its parameters are the run's parameters, and a row value takes
  precedence over the item's default, which takes precedence over the environment's common parameter. (\<open>wf_dict\<close>: the
  plan's parameters are dictionaries, no key twice.)\<close>

theorem plan_expands_every_row:
  assumes "fresh_ids pe b s" "execute_plan pe i key ov b now s = (Inr (batch, False), t)"
    and "dget (pr_plans s) i = Some plan"
    and "\<forall>(item, row) \<in> set (plan_rows (pl_items plan)). wf_dict (pi_default_parameters item) \<and> wf_dict (dw_values row)"
  shows "length (eb_run_ids batch) = total_rows (pl_items plan) \<and> distinct (eb_run_ids batch) \<and>
    (\<forall>n < total_rows (pl_items plan). \<exists>item row run spec. plan_rows (pl_items plan) ! n = (item, row) \<and>
       get (eb_run_ids batch ! n) (pr_runs t) = (Inr run, pr_runs t) \<and> rr_state run = R_CREATED \<and>
       get_run_spec (eb_run_ids batch ! n) t = (Inr spec, t) \<and> pins_row pe plan b ov item row run spec)"
proof -
  obtain runs where fe: "first_execution pe i key ov b now s plan runs" "batch = batch_of plan (strip key) b now runs"
      "t = record_batch (plan_scope plan (strip key)) batch runs s"
    using first_execution_result [OF assms(2)] assms(3) by (auto simp: first_execution_def)
  then have ex: "expand pe plan b now ov = Inr runs" by (simp add: first_execution_def)
  have len: "length runs = total_rows (pl_items plan)" using expand_nth(1) [OF ex] by (simp add: length_plan_rows)
  have ids: "eb_run_ids batch = map (\<lambda>(run, _). rr_id run) runs" by (simp add: fe(2) batch_of_def)
  have d: "distinct (eb_run_ids batch)"
    unfolding ids using expand_distinct [OF ex] assms(1) by (simp add: fresh_ids_def)
  show ?thesis
  proof (intro conjI allI impI)
    fix n assume "n < total_rows (pl_items plan)"
    then have n: "n < length runs" by (simp add: len)
    obtain item row run spec where pair: "plan_rows (pl_items plan) ! n = (item, row)" "runs ! n = (run, spec)"
      by (metis surj_pair)
    have "(item, row) \<in> set (plan_rows (pl_items plan))"
      using n expand_nth(1) [OF ex] pair(1) by (metis nth_mem)
    then have wf: "wf_dict (pi_default_parameters item)" "wf_dict (dw_values row)" using assms(4) by auto
    have e: "expanded pe plan b now ov n (item, row) (run, spec)" using expand_nth(2) [OF ex n] pair by simp
    have "eb_run_ids batch ! n = rr_id run" using n pair by (simp add: ids)
    with record_batch_stores [OF ex assms(1) n pair(2), of "plan_scope plan (strip key)" batch] fe(3)
    have "get (eb_run_ids batch ! n) (pr_runs t) = (Inr run, pr_runs t)"
      "get_run_spec (eb_run_ids batch ! n) t = (Inr spec, t)"
      by (simp_all add: get_def get_locked_def get_run_spec_def)
    with pair(1) expanded_fields [OF e] expanded_pins_row [OF e wf]
    show "\<exists>item row run spec. plan_rows (pl_items plan) ! n = (item, row) \<and>
       get (eb_run_ids batch ! n) (pr_runs t) = (Inr run, pr_runs t) \<and> rr_state run = R_CREATED \<and>
       get_run_spec (eb_run_ids batch ! n) t = (Inr spec, t) \<and> pins_row pe plan b ov item row run spec"
      by auto
  qed (simp_all add: ids len d [unfolded ids])
qed

theorem plan_expands_every_row_witness:
  "\<exists>run spec. get 22 (pr_runs plan_demo_executed) = (Inr run, pr_runs plan_demo_executed) \<and>
     get_run_spec 22 plan_demo_executed = (Inr spec, plan_demo_executed) \<and> rr_state run = R_CREATED \<and>
     sp_row_key spec = ''two'' \<and> sp_script_revision spec = 2 \<and>
     dget (rr_parameters run) ''user'' = Some (PStr ''b'') \<and> dget (rr_parameters run) ''lang'' = Some (PStr ''en'')"
proof -
  let ?plan = "plan_demo_plan PL_ACTIVE 2 5"
  have plan: "dget (pr_plans plan_demo_active) 8 = Some ?plan" by (simp add: plan_demo_active_def)
  have rows: "plan_rows (pl_items ?plan) = map (Pair plan_demo_item) (pi_data_rows plan_demo_item)" "total_rows (pl_items ?plan) = 2"
    by (simp_all add: plan_rows_def plan_demo_plan_def total_rows_def) (simp add: plan_demo_item_def)
  have wf: "\<forall>(item, row) \<in> set (plan_rows (pl_items ?plan)). wf_dict (pi_default_parameters item) \<and> wf_dict (dw_values row)"
    by (simp add: rows plan_demo_item_def wf_dict_def)
  have "eb_run_ids plan_demo_batch ! 1 = 22" by (simp add: plan_demo_batch_def)
  with plan_expands_every_row [OF plan_demo_fresh plan_demo_executes plan wf] rows
  obtain run spec where "get 22 (pr_runs plan_demo_executed) = (Inr run, pr_runs plan_demo_executed)"
    "rr_state run = R_CREATED" "get_run_spec 22 plan_demo_executed = (Inr spec, plan_demo_executed)"
    "pins_row plan_demo_env ?plan 9 None plan_demo_item (pi_data_rows plan_demo_item ! 1) run spec"
    by (auto dest!: spec [of _ 1] simp: plan_demo_item_def)
  then show ?thesis
    by (intro exI [of _ run] exI [of _ spec])
       (use plan_demo_script in \<open>auto simp: pins_row_def plan_demo_item_def plan_demo_env_def\<close>)
qed

text \<open>C23. Plans and runs together: in every state that creations, updates and executions of plans, claims of runs and any
  operations of the run repository can reach, the run repository has only taken steps of its own, every stored batch lists
  distinct runs, each of them stored and described by a specification of that batch, plan and plan revision with the engine
  and the parameters of the run, and the batch is ready to be dispatched.\<close>

theorem reachable_batches_are_complete:
  assumes "plan_step\<^sup>*\<^sup>* empty_plans s" "dget (pr_batches s) b = Some batch"
  shows "batch_complete b batch s \<and> batch_ready b batch s \<and> repo_steps empty_repo (pr_runs s)"
proof -
  have inv: "plan_inv s" by (rule plan_inv_reachable [OF assms(1)])
  then have c: "batch_complete b batch s" and r: "repo_steps empty_repo (pr_runs s)"
    using assms(2) by (auto simp: plan_inv_def)
  moreover have "ids_ok (pr_runs s)"
    using repo_inv_runD [OF reach_inv [OF r]] by (simp add: ids_ok_def)
  ultimately show ?thesis using assms(2) by (auto simp: batch_ready_def batch_complete_def run_state_def)
qed

theorem reachable_batches_are_complete_witness: "batch_ready 9 plan_demo_batch plan_demo_executed"
proof -
  have "plan_step\<^sup>*\<^sup>* empty_plans plan_demo_executed"
    using plan_demo_reach execute_plan_step [OF plan_demo_fresh plan_demo_executes] by (rule rtranclp.rtrancl_into_rtrancl)
  moreover have "dget (pr_batches plan_demo_executed) 9 = Some plan_demo_batch"
    using execute_plan_entry [OF plan_inv_reachable [OF plan_demo_reach] plan_demo_executes]
    by (auto simp: plan_demo_batch_def)
  ultimately show ?thesis using reachable_batches_are_complete by blast
qed

end
