(* ===== verification/Workflow.thy ===== *)
theory Workflow
  imports Environment_Repo
begin

text \<open>
  Data Factory workflows: the records and the graph checks of \<^verbatim>\<open>services/api/data_factory_domain.py\<close>.

  The validation ends with a topological traversal that pops nodes off a stack of ready nodes and counts
  them. The main result is that the validation accepts exactly the well-formed acyclic graphs; the executor
  relies on it to make progress.
\<close>

section \<open>Records\<close>

definition MAX_WORKFLOW_NODES :: nat where "MAX_WORKFLOW_NODES = 100"

definition MAX_WORKFLOW_EDGES :: nat where "MAX_WORKFLOW_EDGES = 500"

definition IDENTIFIER_PATTERN :: "string \<Rightarrow> bool" where
  "IDENTIFIER_PATTERN s = (case s of
     [] \<Rightarrow> False
   | c # cs \<Rightarrow> (ascii_letter c \<or> ascii_digit c) \<and> length cs \<le> 254 \<and>
       list_all (\<lambda>d. ascii_letter d \<or> ascii_digit d \<or> d \<in> set ''._:-'') cs)"

datatype WorkflowNodeType = NT_HTTP | NT_CONDITION | NT_PARALLEL

datatype WorkflowEdgeOutcome = EO_ALWAYS | EO_SUCCESS | EO_FAILURE | EO_TRUE | EO_FALSE

record WorkflowNode =
  wn_id :: string
  wn_name :: string
  wn_type :: WorkflowNodeType
  wn_x :: pyfloat
  wn_y :: pyfloat
  wn_config :: params

record WorkflowEdge =
  we_id :: string
  we_source :: string
  we_target :: string
  we_outcome :: WorkflowEdgeOutcome

record WorkflowDefinition =
  wd_nodes :: "WorkflowNode list"
  wd_edges :: "WorkflowEdge list"
  wd_variables :: params
  wd_id :: string

fun COMPATIBLE_OUTCOMES :: "WorkflowNodeType \<Rightarrow> WorkflowEdgeOutcome list" where
  "COMPATIBLE_OUTCOMES NT_HTTP = [EO_ALWAYS, EO_SUCCESS, EO_FAILURE]"
| "COMPATIBLE_OUTCOMES NT_CONDITION = [EO_ALWAYS, EO_TRUE, EO_FALSE]"
| "COMPATIBLE_OUTCOMES NT_PARALLEL = [EO_ALWAYS]"

section \<open>Validation\<close>

definition validate_identifier :: "string \<Rightarrow> unit res" where
  "validate_identifier s = guard (\<not> IDENTIFIER_PATTERN s) WorkflowValidationError"

fun index_nodes :: "WorkflowNode list \<Rightarrow> (string, WorkflowNode) dict \<Rightarrow> (string, WorkflowNode) dict res" where
  "index_nodes [] nodes = Inr nodes"
| "index_nodes (node # rest) nodes =
     rbind (validate_identifier (wn_id node)) (\<lambda>_.
     if wn_id node \<in> set (dkeys nodes) then Inl WorkflowValidationError
     else index_nodes rest (dset (wn_id node) node nodes))"

record EdgeIndex =
  ei_ids :: "string list"
  ei_incoming :: "(string, int) dict"
  ei_outgoing :: "(string, string list) dict"

definition add_edge :: "WorkflowEdge \<Rightarrow> EdgeIndex \<Rightarrow> EdgeIndex res" where
  "add_edge edge ix =
     (case (dget (ei_incoming ix) (we_target edge), dget (ei_outgoing ix) (we_source edge)) of
        (Some n, Some targets) \<Rightarrow>
          Inr (ix\<lparr>ei_incoming := dset (we_target edge) (n + 1) (ei_incoming ix),
                  ei_outgoing := dset (we_source edge) (targets @ [we_target edge]) (ei_outgoing ix)\<rparr>)
      | _ \<Rightarrow> Inl KeyError)"

fun index_edges :: "(string, WorkflowNode) dict \<Rightarrow> WorkflowEdge list \<Rightarrow> EdgeIndex \<Rightarrow> EdgeIndex res" where
  "index_edges nodes [] ix = Inr ix"
| "index_edges nodes (edge # rest) ix =
     rbind (validate_identifier (we_id edge)) (\<lambda>_.
     if we_id edge \<in> set (ei_ids ix) then Inl WorkflowValidationError
     else (case (dget nodes (we_source edge), dget nodes (we_target edge)) of
         (Some source, Some _) \<Rightarrow>
           if we_outcome edge \<notin> set (COMPATIBLE_OUTCOMES (wn_type source)) then Inl WorkflowValidationError
           else rbind (add_edge edge (ix\<lparr>ei_ids := we_id edge # ei_ids ix\<rparr>)) (index_edges nodes rest)
       | _ \<Rightarrow> Inl WorkflowValidationError))"

text \<open>The body of the traversal: one visited node releases its targets.\<close>

fun relax :: "string list \<Rightarrow> (string, int) dict \<Rightarrow> string list \<Rightarrow> ((string, int) dict \<times> string list) res" where
  "relax [] remaining ready = Inr (remaining, ready)"
| "relax (target # rest) remaining ready =
     (case dget remaining target of
        None \<Rightarrow> Inl KeyError
      | Some n \<Rightarrow> relax rest (dset target (n - 1) remaining)
          (if n - 1 = 0 then ready @ [target] else ready))"

text \<open>
  The traversal ends for every input: a node enters the stack when its counter drops to zero, which it
  does at most once, so the positive counters plus the stack shrink with each visit.
\<close>

definition positive :: "(string, int) dict \<Rightarrow> string set" where
  "positive remaining = {k. \<exists>n. dget remaining k = Some n \<and> n > 0}"

lemma finite_positive [simp]: "finite (positive remaining)"
  by (rule finite_subset [of _ "dom (map_of remaining)"]) (auto simp: positive_def finite_dom_map_of)

lemma relax_measure:
  "relax ts remaining ready = Inr (remaining', ready') \<Longrightarrow>
     card (positive remaining') + length ready' \<le> card (positive remaining) + length ready"
proof (induction ts remaining ready rule: relax.induct)
  case (2 t rest remaining ready)
  then obtain n where n: "dget remaining t = Some n" by (auto split: option.splits)
  let ?r = "dset t (n - 1) remaining"
  have "positive ?r = (if n - 1 > 0 then positive remaining else positive remaining - {t})"
    using n by (auto simp: positive_def dget_dset split: if_splits)
  moreover have "n - 1 = 0 \<Longrightarrow> t \<in> positive remaining" using n by (simp add: positive_def)
  ultimately have "card (positive ?r) + length (if n - 1 = 0 then ready @ [t] else ready)
      \<le> card (positive remaining) + length ready"
    by (auto simp: card_Diff_singleton card_Diff1_le intro: card_gt_0_iff [THEN iffD2])
      (metis One_nat_def Suc_leI card_gt_0_iff empty_iff finite_positive le_refl Suc_pred)
  with 2 n show ?case by fastforce
qed auto

function traverse :: "(string, string list) dict \<Rightarrow> (string, int) dict \<Rightarrow> string list \<Rightarrow> nat \<Rightarrow> nat res" where
  "traverse outgoing remaining ready visited =
     (if ready = [] then Inr visited
      else (case dget outgoing (last ready) of
          None \<Rightarrow> Inl KeyError
        | Some targets \<Rightarrow> (case relax targets remaining (butlast ready) of
            Inl e \<Rightarrow> Inl e
          | Inr (remaining', ready') \<Rightarrow> traverse outgoing remaining' ready' (visited + 1))))"
  by auto
termination
proof (relation "measure (\<lambda>(_, remaining, ready, _). card (positive remaining) + length ready)", goal_cases)
  case (2 outgoing remaining ready visited targets p remaining' ready')
  then have "card (positive remaining') + length ready' \<le> card (positive remaining) + length (butlast ready)"
    by (auto dest: relax_measure)
  moreover have "length (butlast ready) < length ready" using 2 by (cases ready) auto
  ultimately show ?case by simp
qed simp

declare traverse.simps [simp del]

definition roots_of :: "(string, int) dict \<Rightarrow> string list" where
  "roots_of incoming = map fst (filter (\<lambda>(_, n). n = 0) incoming)"

definition validate_workflow_graph :: "WorkflowDefinition \<Rightarrow> unit res" where
  "validate_workflow_graph definition =
     (if length (wd_nodes definition) > MAX_WORKFLOW_NODES then Inl WorkflowValidationError
      else if length (wd_edges definition) > MAX_WORKFLOW_EDGES then Inl WorkflowValidationError
      else
        rbind (index_nodes (wd_nodes definition) []) (\<lambda>nodes.
        rbind (index_edges nodes (wd_edges definition)
                 \<lparr>ei_ids = [], ei_incoming = map (\<lambda>k. (k, 0)) (dkeys nodes),
                  ei_outgoing = map (\<lambda>k. (k, [])) (dkeys nodes)\<rparr>) (\<lambda>ix.
        if nodes = []
        then (if wd_edges definition \<noteq> [] then Inl WorkflowValidationError else Inr ())
        else if roots_of (ei_incoming ix) = [] then Inl WorkflowValidationError
        else
          rbind (traverse (ei_outgoing ix) (ei_incoming ix) (roots_of (ei_incoming ix)) 0) (\<lambda>visited.
          if visited \<noteq> length nodes then Inl WorkflowValidationError else Inr ()))))"

section \<open>What a valid workflow is\<close>

definition edge_pairs :: "WorkflowEdge list \<Rightarrow> (string \<times> string) set" where
  "edge_pairs es = set (map (\<lambda>e. (we_source e, we_target e)) es)"

definition edge_ok :: "(string, WorkflowNode) dict \<Rightarrow> WorkflowEdge \<Rightarrow> bool" where
  "edge_ok nodes e \<longleftrightarrow> IDENTIFIER_PATTERN (we_id e) \<and> we_target e \<in> set (dkeys nodes) \<and>
     (case dget nodes (we_source e) of
        None \<Rightarrow> False
      | Some source \<Rightarrow> we_outcome e \<in> set (COMPATIBLE_OUTCOMES (wn_type source)))"

definition node_index :: "WorkflowNode list \<Rightarrow> (string, WorkflowNode) dict" where
  "node_index ns = map (\<lambda>n. (wn_id n, n)) ns"

definition valid_workflow :: "WorkflowDefinition \<Rightarrow> bool" where
  "valid_workflow d \<longleftrightarrow>
     length (wd_nodes d) \<le> MAX_WORKFLOW_NODES \<and> length (wd_edges d) \<le> MAX_WORKFLOW_EDGES \<and>
     list_all (IDENTIFIER_PATTERN \<circ> wn_id) (wd_nodes d) \<and> distinct (map wn_id (wd_nodes d)) \<and>
     list_all (edge_ok (node_index (wd_nodes d))) (wd_edges d) \<and> distinct (map we_id (wd_edges d)) \<and>
     acyclic (edge_pairs (wd_edges d))"

section \<open>The indices the validation builds\<close>

lemma dkeys_node_index [simp]: "dkeys (node_index ns) = map wn_id ns"
  by (simp add: node_index_def)

lemma index_nodes_result:
  assumes "distinct (map wn_id before)"
  shows "index_nodes ns (node_index before) =
     (if list_all (IDENTIFIER_PATTERN \<circ> wn_id) ns \<and> distinct (map wn_id (before @ ns))
      then Inr (node_index (before @ ns)) else Inl WorkflowValidationError)"
  using assms
proof (induction ns arbitrary: before)
  case (Cons n ns)
  have new: "wn_id n \<notin> wn_id ` set before \<Longrightarrow>
      dset (wn_id n) n (node_index before) = node_index (before @ [n])"
    by (subst dset_new) (auto simp: node_index_def map_of_eq_None_iff)
  from Cons.IH [of "before @ [n]"] Cons.prems show ?case
    by (auto simp: validate_identifier_def new guard_def rbind_def)
qed simp

definition targets_of :: "WorkflowEdge list \<Rightarrow> string \<Rightarrow> string list" where
  "targets_of es k = map we_target (filter (\<lambda>e. we_source e = k) es)"

text \<open>How many edges into \<open>k\<close> come from nodes that are not visited.\<close>

definition open_edges :: "WorkflowEdge list \<Rightarrow> string set \<Rightarrow> string \<Rightarrow> nat" where
  "open_edges es V k = length (filter (\<lambda>e. we_target e = k \<and> we_source e \<notin> V) es)"

definition counters :: "string list \<Rightarrow> (string \<Rightarrow> 'v) \<Rightarrow> (string, 'v) dict" where
  "counters N f = map (\<lambda>k. (k, f k)) N"

lemma counters_simps [simp]:
  "dkeys (counters N f) = N" "length (counters N f) = length N"
  "dget (counters N f) k = (if k \<in> set N then Some (f k) else None)"
  by (simp_all add: counters_def comp_def map_of_map_restrict restrict_map_def)

lemma dset_counters: "distinct N \<Longrightarrow> k \<in> set N \<Longrightarrow> dset k v (counters N f) = counters N (f(k := v))"
  by (induction N) (auto simp: counters_def)

definition edge_index :: "string list \<Rightarrow> WorkflowEdge list \<Rightarrow> EdgeIndex" where
  "edge_index N es = \<lparr>ei_ids = rev (map we_id es), ei_incoming = counters N (\<lambda>k. int (open_edges es {} k)),
     ei_outgoing = counters N (targets_of es)\<rparr>"

lemma edge_index_empty:
  "edge_index N [] = \<lparr>ei_ids = [], ei_incoming = map (\<lambda>k. (k, 0)) N, ei_outgoing = map (\<lambda>k. (k, [])) N\<rparr>"
  by (simp add: edge_index_def counters_def open_edges_def targets_of_def)

lemma add_edge_index:
  assumes "distinct N" "we_source e \<in> set N" "we_target e \<in> set N"
  shows "add_edge e ((edge_index N es)\<lparr>ei_ids := we_id e # rev (map we_id es)\<rparr>) = Inr (edge_index N (es @ [e]))"
  using assms
  by (simp add: add_edge_def edge_index_def dset_counters)
    (auto simp: counters_def open_edges_def targets_of_def)

lemma index_edges_result:
  assumes "distinct (dkeys nodes)" "distinct (map we_id before)"
  shows "index_edges nodes es (edge_index (dkeys nodes) before) =
     (if list_all (edge_ok nodes) es \<and> distinct (map we_id (before @ es))
      then Inr (edge_index (dkeys nodes) (before @ es)) else Inl WorkflowValidationError)"
  using assms(2)
proof (induction es arbitrary: before)
  case (Cons e es)
  have ids: "ei_ids (edge_index (dkeys nodes) before) = rev (map we_id before)"
    by (simp add: edge_index_def)
  note add = add_edge_index [OF assms(1), of e before]
  have key: "dget nodes k = Some n \<Longrightarrow> k \<in> set (dkeys nodes)" for k n
    by (force dest: map_of_SomeD)
  show ?case
  proof (cases "edge_ok nodes e \<and> we_id e \<notin> set (map we_id before)")
    case True
    then obtain n where n: "dget nodes (we_source e) = Some n" "we_target e \<in> set (dkeys nodes)"
      "IDENTIFIER_PATTERN (we_id e)" "we_outcome e \<in> set (COMPATIBLE_OUTCOMES (wn_type n))"
      by (auto simp: edge_ok_def split: option.splits)
    obtain m where m: "dget nodes (we_target e) = Some m"
      using n(2) by (cases "dget nodes (we_target e)") (auto simp: map_of_eq_None_iff)
    then have "index_edges nodes (e # es) (edge_index (dkeys nodes) before) =
        index_edges nodes es (edge_index (dkeys nodes) (before @ [e]))"
      using True add n m key [OF n(1)] by (simp add: validate_identifier_def ids)
    then show ?thesis using Cons.IH [of "before @ [e]"] Cons.prems True by auto
  next
    case False
    then have "index_edges nodes (e # es) (edge_index (dkeys nodes) before) = Inl WorkflowValidationError"
      by (auto simp: validate_identifier_def ids edge_ok_def guard_def rbind_def map_of_eq_None_iff
          split: option.split)
        (metis image_eqI map_of_SomeD fst_conv)+
    then show ?thesis using False by auto
  qed
qed simp

section \<open>The traversal visits exactly the nodes that are not behind a cycle\<close>

lemma relax_counters:
  assumes "distinct N" "set ts \<subseteq> set N" "\<And>k. int (count_list ts k) \<le> f k"
  shows "\<exists>zs. relax ts (counters N f) ready = Inr (counters N (\<lambda>k. f k - int (count_list ts k)), ready @ zs) \<and>
     distinct zs \<and> set zs = {k \<in> set ts. f k - int (count_list ts k) = 0}"
  using assms(2,3)
proof (induction ts arbitrary: f ready)
  case (Cons t ts)
  let ?f = "f(t := f t - 1)"
  let ?r = "if f t - 1 = 0 then ready @ [t] else ready"
  have le: "int (count_list ts k) \<le> ?f k" for k using Cons.prems(2) [of k] by auto
  have "set ts \<subseteq> set N" using Cons.prems by simp
  from Cons.IH [OF this le, of ?r] obtain zs where
    zs: "relax ts (counters N ?f) ?r = Inr (counters N (\<lambda>k. ?f k - int (count_list ts k)), ?r @ zs)"
    "distinct zs" "set zs = {k \<in> set ts. ?f k - int (count_list ts k) = 0}" by blast
  have eq: "?f k - int (count_list ts k) = f k - int (count_list (t # ts) k)" for k by simp
  have "relax (t # ts) (counters N f) ready = Inr (counters N (\<lambda>k. f k - int (count_list (t # ts) k)), ?r @ zs)"
    using Cons.prems(1) zs(1) by (simp only: relax.simps counters_simps eq) (simp add: dset_counters assms(1))
  moreover have "f t - 1 = 0 \<Longrightarrow> t \<notin> set ts"
    using le [of t] by (auto simp: count_list_0_iff [symmetric])
  moreover have "set zs = {k \<in> set ts. f k - int (count_list (t # ts) k) = 0}"
    using zs(3) unfolding eq .
  ultimately show ?case
    using zs(2)
    by (cases "f t - 1 = 0")
      (intro exI [of _ "t # zs"], force, intro exI [of _ zs], force simp: count_list_0_iff)
qed simp

lemma count_targets: "count_list (targets_of es n) k = length (filter (\<lambda>e. we_source e = n \<and> we_target e = k) es)"
  by (induction es) (auto simp: targets_of_def)

lemma open_edges_visit:
  "n \<notin> V \<Longrightarrow> open_edges es V k = open_edges es (insert n V) k + count_list (targets_of es n) k"
  unfolding count_targets by (induction es) (auto simp: open_edges_def)

lemma open_edges_0: "open_edges es V k = 0 \<longleftrightarrow> (\<forall>s. (s, k) \<in> edge_pairs es \<longrightarrow> s \<in> V)"
  by (auto simp: open_edges_def edge_pairs_def filter_empty_conv)

lemma targets_pairs: "k \<in> set (targets_of es n) \<longleftrightarrow> (n, k) \<in> edge_pairs es"
  by (auto simp: targets_of_def edge_pairs_def)

lemma finite_edge_pairs [simp]: "finite (edge_pairs es)"
  by (simp add: edge_pairs_def)

text \<open>\<open>V\<close> is closed under predecessors and the edges into it can be ranked.\<close>

definition settled_nodes :: "WorkflowEdge list \<Rightarrow> string set \<Rightarrow> bool" where
  "settled_nodes es V \<longleftrightarrow> (\<forall>k \<in> V. open_edges es V k = 0) \<and>
     (\<exists>f :: string \<Rightarrow> nat. \<forall>s t. (s, t) \<in> edge_pairs es \<and> t \<in> V \<longrightarrow> f s < f t)"

lemma settled_insert:
  assumes "settled_nodes es V" "n \<notin> V" "open_edges es V n = 0"
  shows "settled_nodes es (insert n V)"
proof -
  obtain f :: "string \<Rightarrow> nat" where f: "\<And>s t. (s, t) \<in> edge_pairs es \<Longrightarrow> t \<in> V \<Longrightarrow> f s < f t"
    using assms(1) by (auto simp: settled_nodes_def)
  have closed: "(s, t) \<in> edge_pairs es \<Longrightarrow> t \<in> insert n V \<Longrightarrow> s \<in> V" for s t
    using assms(1,3) by (auto simp: settled_nodes_def open_edges_0)
  let ?b = "Suc (Max (f ` fst ` edge_pairs es))"
  have "(f(n := ?b)) s < (f(n := ?b)) t" if "(s, t) \<in> edge_pairs es" "t \<in> insert n V" for s t
  proof (cases "t = n")
    case True
    have "f s \<le> Max (f ` fst ` edge_pairs es)" using that by (force intro: Max_ge)
    then show ?thesis using True closed [OF that] assms(2) by auto
  next
    case False
    then show ?thesis using that closed [OF that] f [of s t] assms(2) by auto
  qed
  moreover have "\<forall>k \<in> insert n V. open_edges es (insert n V) k = 0"
    using closed unfolding open_edges_0 by blast
  ultimately show ?thesis unfolding settled_nodes_def by blast
qed

lemma traverse_visits:
  assumes "distinct N" "edge_pairs es \<subseteq> set N \<times> set N"
    and "settled_nodes es V" "V \<subseteq> set N" "distinct ready"
    and "set ready = {k \<in> set N - V. open_edges es V k = 0}"
  shows "\<exists>W. traverse (counters N (targets_of es)) (counters N (\<lambda>k. int (open_edges es V k))) ready (card V)
      = Inr (card W) \<and> W \<subseteq> set N \<and> settled_nodes es W \<and> (\<forall>k \<in> set N - W. open_edges es W k \<noteq> 0)"
  using assms(3-)
proof (induction "card (set N - V)" arbitrary: V ready rule: less_induct)
  case less
  show ?case
  proof (cases "ready = []")
    case True
    then show ?thesis using less.prems by (intro exI [of _ V]) (auto simp: traverse.simps)
  next
    case False
    define n where "n = last ready"
    have n: "n \<in> set N" "n \<notin> V" "open_edges es V n = 0"
      using less.prems(4) last_in_set [OF False] by (auto simp: n_def)
    have "ready = butlast ready @ [n]" using False by (simp add: n_def)
    with less.prems(3) have dis: "distinct (butlast ready)" "n \<notin> set (butlast ready)"
      "set ready = insert n (set (butlast ready))"
      by (metis distinct_butlast, metis distinct.simps(2) distinct_append disjoint_insert(1) list.set_intros(1) list.simps(15),
          metis Un_insert_right list.simps(15) empty_set set_append sup_bot_right)
    have rest: "k \<in> set (butlast ready) \<Longrightarrow> k \<in> set N - insert n V \<and> open_edges es V k = 0" for k
      using less.prems(4) dis by auto
    have step: "open_edges es V k = open_edges es (insert n V) k + count_list (targets_of es n) k" for k
      by (rule open_edges_visit [OF n(2)])
    have "set (targets_of es n) \<subseteq> set N" using assms(2) by (auto simp: targets_pairs)
    from relax_counters [OF assms(1) this, of "\<lambda>k. int (open_edges es V k)" "butlast ready"] step
    obtain zs where zs: "relax (targets_of es n) (counters N (\<lambda>k. int (open_edges es V k))) (butlast ready) =
        Inr (counters N (\<lambda>k. int (open_edges es (insert n V) k)), butlast ready @ zs)" "distinct zs"
      "set zs = {k \<in> set (targets_of es n). open_edges es (insert n V) k = 0}"
      by auto
    have closed: "(n, k) \<in> edge_pairs es \<Longrightarrow> k \<notin> insert n V" for k
      using less.prems(1) n by (auto simp: settled_nodes_def open_edges_0)
    have "set (butlast ready @ zs) = {k \<in> set N - insert n V. open_edges es (insert n V) k = 0}"
    proof (intro equalityI subsetI)
      fix k assume "k \<in> set (butlast ready @ zs)"
      then show "k \<in> {k \<in> set N - insert n V. open_edges es (insert n V) k = 0}"
        using rest [of k] zs(3) closed [of k] step [of k] assms(2) by (auto simp: targets_pairs)
    next
      fix k assume k: "k \<in> {k \<in> set N - insert n V. open_edges es (insert n V) k = 0}"
      show "k \<in> set (butlast ready @ zs)"
      proof (cases "open_edges es V k = 0")
        case True
        then show ?thesis using k less.prems(4) dis by auto
      next
        case False
        then have "k \<in> set (targets_of es n)" using k step [of k] by (auto simp: count_list_0_iff)
        then show ?thesis using k zs(3) by auto
      qed
    qed
    moreover have "distinct (butlast ready @ zs)"
      using dis zs(2,3) less.prems(4) step by (auto simp: count_list_0_iff)
    moreover have "card (set N - insert n V) < card (set N - V)"
      using n by (intro psubset_card_mono) auto
    ultimately obtain W where W: "traverse (counters N (targets_of es))
        (counters N (\<lambda>k. int (open_edges es (insert n V) k))) (butlast ready @ zs) (card (insert n V)) = Inr (card W)"
      "W \<subseteq> set N" "settled_nodes es W" "\<forall>k \<in> set N - W. open_edges es W k \<noteq> 0"
      using less.hyps [of "insert n V" "butlast ready @ zs"] less.prems(1,2) n
        settled_insert [OF less.prems(1) n(2,3)] by auto
    have "card (insert n V) = card V + 1"
      using n(2) finite_subset [OF less.prems(2)] by simp
    then have "traverse (counters N (targets_of es)) (counters N (\<lambda>k. int (open_edges es V k))) ready (card V)
        = Inr (card W)"
      using False n(1) zs(1) W(1) by (subst traverse.simps) (simp add: n_def [symmetric])
    with W show ?thesis by blast
  qed
qed

lemma settled_all_iff_acyclic:
  assumes "edge_pairs es \<subseteq> set N \<times> set N" "W \<subseteq> set N" "settled_nodes es W"
    and "\<forall>k \<in> set N - W. open_edges es W k \<noteq> 0"
  shows "W = set N \<longleftrightarrow> acyclic (edge_pairs es)"
proof
  assume "W = set N"
  obtain f :: "string \<Rightarrow> nat" where f: "\<And>s t. (s, t) \<in> edge_pairs es \<Longrightarrow> t \<in> W \<Longrightarrow> f s < f t"
    using assms(3) by (auto simp: settled_nodes_def)
  have "edge_pairs es \<subseteq> measure f"
  proof
    fix p assume "p \<in> edge_pairs es"
    with assms(1) f [of "fst p" "snd p"] \<open>W = set N\<close> show "p \<in> measure f" by (cases p) auto
  qed
  then show "acyclic (edge_pairs es)" by (metis acyclic_subset wf_acyclic wf_measure)
next
  assume "acyclic (edge_pairs es)"
  then have wf: "wf (edge_pairs es)" by (simp add: finite_acyclic_wf)
  show "W = set N"
  proof (rule ccontr)
    assume "W \<noteq> set N"
    with assms(2) obtain x where "x \<in> set N - W" by blast
    with wf obtain k where k: "k \<in> set N - W" "\<And>s. (s, k) \<in> edge_pairs es \<Longrightarrow> s \<notin> set N - W"
      by (rule wfE_min) blast
    then have "open_edges es W k = 0" using assms(1) by (auto simp: open_edges_0)
    with assms(4) k(1) show False by blast
  qed
qed

lemma validate_workflow_graph_result:
  "validate_workflow_graph d = (if valid_workflow d then Inr () else Inl WorkflowValidationError)"
proof -
  let ?es = "wd_edges d" and ?N = "map wn_id (wd_nodes d)"
  have nodes: "index_nodes (wd_nodes d) [] =
      (if list_all (IDENTIFIER_PATTERN \<circ> wn_id) (wd_nodes d) \<and> distinct ?N
       then Inr (node_index (wd_nodes d)) else Inl WorkflowValidationError)"
    using index_nodes_result [of "[]" "wd_nodes d"] by (simp add: node_index_def)
  show ?thesis
  proof (cases "distinct ?N \<and> list_all (edge_ok (node_index (wd_nodes d))) ?es \<and> distinct (map we_id ?es)")
    case True
    then have pairs: "edge_pairs ?es \<subseteq> set ?N \<times> set ?N"
      by (force simp: edge_pairs_def edge_ok_def list_all_iff node_index_def
          dest: map_of_SomeD split: option.splits)
    have roots: "roots_of (counters ?N (\<lambda>k. int (open_edges ?es {} k))) =
        filter (\<lambda>k. open_edges ?es {} k = 0) ?N"
      by (simp add: roots_of_def counters_def filter_map comp_def)
    have "settled_nodes ?es {}" by (simp add: settled_nodes_def)
    with traverse_visits [OF _ pairs this, of "filter (\<lambda>k. open_edges ?es {} k = 0) ?N"] True
    obtain W where W: "traverse (counters ?N (targets_of ?es)) (counters ?N (\<lambda>k. int (open_edges ?es {} k)))
        (filter (\<lambda>k. open_edges ?es {} k = 0) ?N) 0 = Inr (card W)"
      "W \<subseteq> set ?N" "settled_nodes ?es W" "\<forall>k \<in> set ?N - W. open_edges ?es W k \<noteq> 0"
      by auto
    have "card W = length (wd_nodes d) \<longleftrightarrow> W = set ?N"
      using True W(2) distinct_card [of ?N] by (metis card_subset_eq finite_set length_map)
    then have visited: "card W = length (wd_nodes d) \<longleftrightarrow> acyclic (edge_pairs ?es)"
      using settled_all_iff_acyclic [OF pairs W(2-4)] by simp
    have none: "filter (\<lambda>k. open_edges ?es {} k = 0) ?N = [] \<Longrightarrow> card W = 0"
      using W(1) by (simp add: traverse.simps)
    have "index_edges (node_index (wd_nodes d)) ?es (edge_index ?N []) = Inr (edge_index ?N ?es)"
      using index_edges_result [of "node_index (wd_nodes d)" "[]" ?es] True by simp
    moreover have "valid_workflow d \<longleftrightarrow> length (wd_nodes d) \<le> MAX_WORKFLOW_NODES \<and>
        length ?es \<le> MAX_WORKFLOW_EDGES \<and> list_all (IDENTIFIER_PATTERN \<circ> wn_id) (wd_nodes d) \<and>
        card W = length (wd_nodes d)"
      using True visited by (auto simp: valid_workflow_def)
    moreover have "node_index (wd_nodes d) = [] \<Longrightarrow> ?es = [] \<and> card W = length (wd_nodes d)"
      using pairs W(2) by (simp add: node_index_def edge_pairs_def)
    ultimately show ?thesis
      using True W(1) none
      unfolding validate_workflow_graph_def nodes edge_index_empty [symmetric]
      by (simp add: edge_index_def roots) (simp add: node_index_def)
  next
    case False
    then have "distinct ?N \<Longrightarrow>
        index_edges (node_index (wd_nodes d)) ?es (edge_index ?N []) = Inl WorkflowValidationError"
      using index_edges_result [of "node_index (wd_nodes d)" "[]" ?es] by auto
    moreover have "\<not> valid_workflow d" using False by (auto simp: valid_workflow_def)
    ultimately show ?thesis
      unfolding validate_workflow_graph_def nodes edge_index_empty [symmetric]
      by (cases "list_all (IDENTIFIER_PATTERN \<circ> wn_id) (wd_nodes d) \<and> distinct ?N") simp_all
  qed
qed

end
