(* ===== verification/Workflow_Executor.thy ===== *)
theory Workflow_Executor
  imports Workflow
begin

text \<open>
  The synchronous workflow executor of \<^verbatim>\<open>services/api/data_factory_executor.py\<close>: templates, JSON paths,
  conditions, HTTP nodes with their destination check, and the wave scheduler \<open>_run_graph\<close>.

  What is outside the repository enters through the record \<open>Net\<close>: \<open>str\<close>, \<open>json\<close>, \<open>urlsplit\<close>,
  \<open>ipaddress\<close>, the resolver and the HTTP client. A node runs at most once in an execution, so an answer
  of the network is a function of the node. Values are the ones JSON can hold.
\<close>

section \<open>Templates\<close>

definition identifier_char :: "char \<Rightarrow> bool" where
  "identifier_char c \<longleftrightarrow> ascii_letter c \<or> ascii_digit c \<or> c = CHR ''_''"

text \<open>
  A match of \<open>_TEMPLATE\<close> at the start of a string: the name and what follows. The name is the longest run
  of identifier characters, since the closing braces cannot start inside it.
\<close>

definition match_template :: "string \<Rightarrow> (string \<times> string) option" where
  "match_template s =
     (let name = takeWhile identifier_char (drop 2 s); rest = drop (2 + length name) s in
      if take 2 s = ''{{'' \<and> ENV_KEY_PATTERN name \<and> take 2 rest = ''}}''
      then Some (name, drop 2 rest) else None)"

definition whole_template :: "string \<Rightarrow> string option" where
  "whole_template s = (case match_template s of Some (name, []) \<Rightarrow> Some name | _ \<Rightarrow> None)"

lemma match_template_shorter: "match_template s = Some (name, rest) \<Longrightarrow> length rest < length s"
  by (cases s) (auto simp: match_template_def Let_def split: if_splits)

definition stringify_template_value :: "(pyval \<Rightarrow> string res) \<Rightarrow> pyval \<Rightarrow> string res" where
  "stringify_template_value dumps v = (case v of PStr s \<Rightarrow> Inr s | _ \<Rightarrow> dumps v)"

function substitute :: "(pyval \<Rightarrow> string res) \<Rightarrow> params \<Rightarrow> string \<Rightarrow> string res" where
  "substitute dumps variables s =
     (if s = [] then Inr []
      else (case match_template s of
          Some (name, rest) \<Rightarrow> (case dget variables name of
              None \<Rightarrow> Inl WorkflowExecutionError
            | Some v \<Rightarrow>
                rbind (stringify_template_value dumps v) (\<lambda>t.
                rbind (substitute dumps variables rest) (\<lambda>u. Inr (t @ u))))
        | None \<Rightarrow> rbind (substitute dumps variables (tl s)) (\<lambda>u. Inr (hd s # u))))"
  by auto
termination
  by (relation "measure (\<lambda>(_, _, s). length s)") (auto dest: match_template_shorter)

declare substitute.simps [simp del]

definition render_string :: "(pyval \<Rightarrow> string res) \<Rightarrow> params \<Rightarrow> string \<Rightarrow> pyval res" where
  "render_string dumps variables s =
     (case whole_template s of
        Some name \<Rightarrow> (case dget variables name of None \<Rightarrow> Inl WorkflowExecutionError | Some v \<Rightarrow> Inr v)
      | None \<Rightarrow> rbind (substitute dumps variables s) (\<lambda>t. Inr (PStr t)))"

primrec collect :: "'a res list \<Rightarrow> 'a list res" where
  "collect [] = Inr []"
| "collect (r # rs) = rbind r (\<lambda>x. rbind (collect rs) (\<lambda>xs. Inr (x # xs)))"

fun render_templates :: "(pyval \<Rightarrow> string res) \<Rightarrow> params \<Rightarrow> pyval \<Rightarrow> pyval res" where
  "render_templates dumps variables (PStr s) = render_string dumps variables s"
| "render_templates dumps variables (PList xs) =
     rbind (collect (map (render_templates dumps variables) xs)) (\<lambda>ys. Inr (PList ys))"
| "render_templates dumps variables (PDict d) =
     rbind (collect (map (\<lambda>(k, v). rbind (render_templates dumps variables v) (\<lambda>w. Inr (k, w))) d)) (\<lambda>e.
     Inr (PDict e))"
| "render_templates dumps variables (PFrozen d) =
     rbind (collect (map (\<lambda>(k, v). rbind (render_templates dumps variables v) (\<lambda>w. Inr (k, w))) d)) (\<lambda>e.
     Inr (PDict e))"
| "render_templates dumps variables v = Inr v"

text \<open>The configuration of a node is a mapping with string keys.\<close>

definition render_config :: "(pyval \<Rightarrow> string res) \<Rightarrow> params \<Rightarrow> params \<Rightarrow> params res" where
  "render_config dumps variables config =
     collect (map (\<lambda>(k, v). rbind (render_templates dumps variables v) (\<lambda>w. Inr (k, w))) config)"

section \<open>JSON paths\<close>

fun split_on :: "char \<Rightarrow> string \<Rightarrow> string list" where
  "split_on sep [] = [[]]"
| "split_on sep (c # cs) =
     (if c = sep then [] # split_on sep cs
      else (case split_on sep cs of [] \<Rightarrow> [[c]] | w # ws \<Rightarrow> (c # w) # ws))"

definition number_of :: "string \<Rightarrow> nat" where
  "number_of ds = foldl (\<lambda>n c. 10 * n + (of_char c - 48)) 0 ds"

definition parse_token :: "string \<Rightarrow> (string \<times> nat option) option" where
  "parse_token token =
     (let name = takeWhile (\<lambda>c. c \<noteq> CHR ''['' \<and> c \<noteq> CHR '']'') token; rest = drop (length name) token in
      if name = [] then None
      else (case rest of
          [] \<Rightarrow> Some (name, None)
        | c # cs \<Rightarrow>
            if c = CHR ''['' \<and> cs \<noteq> [] \<and> last cs = CHR '']'' \<and> butlast cs \<noteq> [] \<and> list_all ascii_digit (butlast cs)
            then Some (name, Some (number_of (butlast cs))) else None))"

fun extract_tokens :: "string list \<Rightarrow> pyval \<Rightarrow> pyval res" where
  "extract_tokens [] current = Inr current"
| "extract_tokens (token # rest) current =
     (case (parse_token token, map_items current) of
        (Some (name, index), Some items) \<Rightarrow> (case dget items (PStr name) of
            None \<Rightarrow> Inl KeyError
          | Some v \<Rightarrow> (case index of
              None \<Rightarrow> extract_tokens rest v
            | Some i \<Rightarrow> (case v of
                PList xs \<Rightarrow> if i < length xs then extract_tokens rest (xs ! i) else Inl IndexError
              | _ \<Rightarrow> Inl ValueError)))
      | _ \<Rightarrow> Inl ValueError)"

definition extract_json_path :: "pyval \<Rightarrow> string \<Rightarrow> pyval res" where
  "extract_json_path v path =
     (if path = ''$'' then Inr v
      else if take 2 path \<noteq> ''$.'' then Inl ValueError
      else extract_tokens (split_on (CHR ''.'') (drop 2 path)) v)"

section \<open>Conditions\<close>

fun float_less :: "pyfloat \<Rightarrow> pyfloat \<Rightarrow> bool" where
  "float_less (Finite a) (Finite b) = (a < b)"
| "float_less NegInf (Finite b) = True"
| "float_less NegInf PosInf = True"
| "float_less (Finite a) PosInf = True"
| "float_less _ _ = False"

text \<open>Python's \<open><\<close>; \<open>None\<close> is the \<open>TypeError\<close> of values that have no order.\<close>

definition scalar_less :: "pyval \<Rightarrow> pyval \<Rightarrow> bool option" where
  "scalar_less v w =
     (case (num_of v, num_of w) of
        (Some a, Some b) \<Rightarrow> Some (float_less a b)
      | _ \<Rightarrow> (case (text_of v, text_of w) of
          (Some (a, s), Some (b, t)) \<Rightarrow> if a = b then Some (s < t) else None
        | _ \<Rightarrow> None))"

fun py_less :: "pyval \<Rightarrow> pyval \<Rightarrow> bool option" and list_less :: "pyval list \<Rightarrow> pyval list \<Rightarrow> bool option" where
  "py_less v w = (case v of
     PList xs \<Rightarrow> (case w of PList ys \<Rightarrow> list_less xs ys | _ \<Rightarrow> None)
   | _ \<Rightarrow> scalar_less v w)"
| "list_less [] ys = Some (ys \<noteq> [])"
| "list_less (x # xs) [] = Some False"
| "list_less (x # xs) (y # ys) = (if py_eq x y then list_less xs ys else py_less x y)"

definition py_less_eq :: "pyval \<Rightarrow> pyval \<Rightarrow> bool option" where
  "py_less_eq v w = map_option (\<lambda>b. b \<or> py_eq v w) (py_less v w)"

fun hashable :: "pyval \<Rightarrow> bool" where
  "hashable (PList _) = False"
| "hashable (PDict _) = False"
| "hashable (PSet _) = False"
| "hashable (PByteArray _) = False"
| "hashable (PTuple xs) = list_all hashable xs"
| "hashable _ = True"

definition substring :: "string \<Rightarrow> string \<Rightarrow> bool" where
  "substring r l \<longleftrightarrow> list_ex (\<lambda>i. take (length r) (drop i l) = r) [0..<Suc (length l)]"

text \<open>\<open>right in left\<close>.\<close>

definition py_in :: "pyval \<Rightarrow> pyval \<Rightarrow> bool option" where
  "py_in right left = (case left of
     PStr l \<Rightarrow> (case right of PStr r \<Rightarrow> Some (substring r l) | _ \<Rightarrow> None)
   | PList xs \<Rightarrow> Some (list_ex (py_eq right) xs)
   | _ \<Rightarrow> (case map_items left of
       None \<Rightarrow> None
     | Some d \<Rightarrow> if hashable right then Some (list_ex (\<lambda>(k, _). py_eq right k) d) else None))"

definition truth :: "bool option \<Rightarrow> bool" where
  "truth b = (b = Some True)"

definition compare_values :: "pyval \<Rightarrow> pyval \<Rightarrow> string \<Rightarrow> bool res" where
  "compare_values left right operator =
     (if operator = ''equals'' then Inr (py_eq left right)
      else if operator = ''not_equals'' then Inr (\<not> py_eq left right)
      else if operator = ''contains'' then Inr (truth (py_in right left))
      else if operator = ''gt'' then Inr (truth (py_less right left))
      else if operator = ''gte'' then Inr (truth (py_less_eq right left))
      else if operator = ''lt'' then Inr (truth (py_less left right))
      else if operator = ''lte'' then Inr (truth (py_less_eq left right))
      else Inl WorkflowExecutionError)"

section \<open>Node executions\<close>

datatype NodeStatus = NS_SUCCEEDED | NS_FAILED | NS_SKIPPED

fun status_value :: "NodeStatus \<Rightarrow> string" where
  "status_value NS_SUCCEEDED = ''SUCCEEDED''"
| "status_value NS_FAILED = ''FAILED''"
| "status_value NS_SKIPPED = ''SKIPPED''"

fun node_type_value :: "WorkflowNodeType \<Rightarrow> string" where
  "node_type_value NT_HTTP = ''http''"
| "node_type_value NT_CONDITION = ''condition''"
| "node_type_value NT_PARALLEL = ''parallel''"

record NodeExecution =
  nx_status :: NodeStatus
  nx_details :: params
  nx_extracted :: params
  nx_branch :: "bool option"

record WorkflowRunRecord =
  wr_id :: string
  wr_workflow_id :: string
  wr_status :: string
  wr_node_results :: "(string, params) dict"
  wr_variables :: params
  wr_started_at :: string
  wr_finished_at :: "string option"

record ParsedUrl =
  pu_scheme :: string
  pu_hostname :: "string option"
  pu_username :: "string option"
  pu_password :: "string option"
  pu_port :: "int option res"
  pu_netloc :: string
  pu_path :: string
  pu_query :: string

record HttpRequest =
  hq_method :: string
  hq_url :: string
  hq_path :: string
  hq_headers :: "(string, string) dict"
  hq_raw_headers :: "(pyval \<times> pyval) list"
  hq_body :: "string option"
  hq_params :: "(pyval \<times> pyval) list"
  hq_json :: pyval
  hq_timeout :: pyfloat
  hq_https :: bool
  hq_port :: int
  hq_server_hostname :: "string option"

text \<open>A response streams its body in chunks; \<open>hr_broken\<close> is the exception that ends the stream early.\<close>

record HttpResponse =
  hr_status :: int
  hr_chunks :: "string list"
  hr_broken :: "exn option"
  hr_encoding :: "string option"

text \<open>
  \<open>net_str\<close>, \<open>net_parse_int\<close> and \<open>net_parse_float\<close> are \<open>str\<close> of a value that is not a string and \<open>int\<close>, \<open>float\<close>
  of a string; \<open>net_request\<close> is the injected request callable, \<open>net_urlopen\<close> a request of a connection
  pool that is bound to one address. The string argument of the last two is the node that asks.
\<close>

record Net =
  net_str :: "pyval \<Rightarrow> string"
  net_dumps :: "pyval \<Rightarrow> string res"
  net_loads :: "string \<Rightarrow> string \<Rightarrow> pyval res"
  net_parse_int :: "string \<Rightarrow> int res"
  net_parse_float :: "string \<Rightarrow> pyfloat res"
  net_urlsplit :: "string \<Rightarrow> ParsedUrl res"
  net_urlencode :: "(pyval \<times> pyval) list \<Rightarrow> string res"
  net_ip_address :: "string \<Rightarrow> string res"
  net_is_global :: "string \<Rightarrow> bool"
  net_resolver :: "string \<Rightarrow> string list res"
  net_request :: "(string \<Rightarrow> HttpRequest \<Rightarrow> HttpResponse res) option"
  net_urlopen :: "string \<Rightarrow> string \<Rightarrow> HttpRequest \<Rightarrow> HttpResponse res"

definition py_int :: "Net \<Rightarrow> pyval \<Rightarrow> int res" where
  "py_int net v = (case v of
     PInt i \<Rightarrow> Inr i
   | PBool b \<Rightarrow> Inr (if b then 1 else 0)
   | PFloat f \<Rightarrow> (case f of
       Finite r \<Rightarrow> Inr (if r < 0 then - \<lfloor>- r\<rfloor> else \<lfloor>r\<rfloor>)
     | NaN \<Rightarrow> Inl ValueError
     | _ \<Rightarrow> Inl OverflowError)
   | PStr s \<Rightarrow> net_parse_int net s
   | _ \<Rightarrow> Inl TypeError)"

definition py_float :: "Net \<Rightarrow> pyval \<Rightarrow> pyfloat res" where
  "py_float net v = (case v of
     PInt i \<Rightarrow> if \<bar>i\<bar> \<ge> 2 ^ 1024 - 2 ^ 970 then Inl OverflowError else Inr (Finite (of_int i))
   | PBool b \<Rightarrow> Inr (Finite (if b then 1 else 0))
   | PFloat f \<Rightarrow> Inr f
   | PStr s \<Rightarrow> net_parse_float net s
   | _ \<Rightarrow> Inl TypeError)"

definition py_iter :: "pyval \<Rightarrow> pyval list res" where
  "py_iter v = (case v of
     PList xs \<Rightarrow> Inr xs
   | PStr s \<Rightarrow> Inr (map (\<lambda>c. PStr [c]) s)
   | _ \<Rightarrow> (case map_items v of Some d \<Rightarrow> Inr (map fst d) | None \<Rightarrow> Inl TypeError))"

text \<open>\<open>dict(value)\<close> of a mapping; the node schema admits nothing else in these places.\<close>

definition py_dict :: "pyval \<Rightarrow> (pyval \<times> pyval) list res" where
  "py_dict v = (case map_items v of Some d \<Rightarrow> Inr d | None \<Rightarrow> Inl TypeError)"

definition get_or :: "params \<Rightarrow> string \<Rightarrow> pyval \<Rightarrow> pyval" where
  "get_or config key fallback = (case dget config key of None \<Rightarrow> fallback | Some v \<Rightarrow> v)"

section \<open>HTTP nodes\<close>

definition MAX_RESPONSE_BYTES :: nat where "MAX_RESPONSE_BYTES = 1024 * 1024"

definition MAX_HTTP_TIMEOUT_SECONDS :: rat where "MAX_HTTP_TIMEOUT_SECONDS = 120"

definition resolve_addresses :: "Net \<Rightarrow> string \<Rightarrow> string list res" where
  "resolve_addresses net hostname =
     (case net_ip_address net hostname of
        Inr a \<Rightarrow> Inr [a]
      | Inl e \<Rightarrow>
          if e = ValueError
          then rbind (net_resolver net hostname) (\<lambda>names. collect (map (net_ip_address net) names))
          else Inl e)"

definition checked_url :: "Net \<Rightarrow> string \<Rightarrow> (ParsedUrl \<times> string list) res" where
  "checked_url net url =
     rbind (net_urlsplit net url) (\<lambda>parsed.
     case pu_hostname parsed of
       None \<Rightarrow> Inl ValueError
     | Some hostname \<Rightarrow>
         if lower (pu_scheme parsed) \<notin> {''http'', ''https''} \<or> hostname = [] then Inl ValueError
         else if pu_username parsed \<noteq> None \<or> pu_password parsed \<noteq> None then Inl ValueError
         else
           rbind (pu_port parsed) (\<lambda>_.
           rbind (resolve_addresses net hostname) (\<lambda>addresses.
           if addresses = [] \<or> \<not> list_all (net_is_global net) addresses then Inl ValueError
           else Inr (parsed, addresses))))"

definition validate_public_url :: "Net \<Rightarrow> string \<Rightarrow> (ParsedUrl \<times> string list) res" where
  "validate_public_url net url =
     (case checked_url net url of Inl _ \<Rightarrow> Inl WorkflowExecutionError | Inr r \<Rightarrow> Inr r)"

definition is_https :: "ParsedUrl \<Rightarrow> bool" where
  "is_https parsed \<longleftrightarrow> lower (pu_scheme parsed) = ''https''"

definition request_target :: "ParsedUrl \<Rightarrow> string \<Rightarrow> string" where
  "request_target parsed query =
     (let path = if pu_path parsed = [] then ''/'' else pu_path parsed;
          query = if pu_query parsed \<noteq> [] \<and> query \<noteq> [] then pu_query parsed @ ''&'' @ query
                  else if pu_query parsed \<noteq> [] then pu_query parsed else query
      in if query \<noteq> [] then path @ ''?'' @ query else path)"

definition has_header :: "string \<Rightarrow> (string, string) dict \<Rightarrow> bool" where
  "has_header name headers \<longleftrightarrow> list_ex (\<lambda>(k, _). lower k = name) headers"

definition text_headers :: "Net \<Rightarrow> (pyval \<times> pyval) list \<Rightarrow> (string, string) dict" where
  "text_headers net d = dmerge [] (map (\<lambda>(k, v). (py_str (net_str net) k, py_str (net_str net) v)) d)"

definition config_method :: "Net \<Rightarrow> params \<Rightarrow> string" where
  "config_method net config = upper (py_str (net_str net) (get_or config ''method'' (PStr ''GET'')))"

fun try_addresses :: "Net \<Rightarrow> string \<Rightarrow> string list \<Rightarrow> HttpRequest \<Rightarrow> HttpResponse res" where
  "try_addresses net node [] request = Inl HTTPError"
| "try_addresses net node (address # rest) request =
     (case net_urlopen net node address request of
        Inr response \<Rightarrow> Inr response
      | Inl e \<Rightarrow> if e = HTTPError then try_addresses net node rest request else Inl e)"

definition request_body :: "Net \<Rightarrow> pyval \<Rightarrow> string option res" where
  "request_body net v = (if v = PNone then Inr None else rbind (net_dumps net v) (\<lambda>t. Inr (Some (utf8_encode t))))"

definition request_pinned ::
  "Net \<Rightarrow> string \<Rightarrow> ParsedUrl \<Rightarrow> string list \<Rightarrow> params \<Rightarrow> pyfloat \<Rightarrow> HttpResponse res" where
  "request_pinned net node parsed addresses config timeout =
     rbind (pu_port parsed) (\<lambda>port.
     let port = (case port of Some p \<Rightarrow> if p = 0 then None else Some p | None \<Rightarrow> None) in
     rbind (py_dict (get_or config ''query'' (PDict []))) (\<lambda>query.
     rbind (net_urlencode net query) (\<lambda>query.
     rbind (py_dict (get_or config ''headers'' (PDict []))) (\<lambda>headers.
     let headers = text_headers net headers;
         headers = (if has_header ''host'' headers then headers else dset ''Host'' (pu_netloc parsed) headers);
         body_value = get_or config ''body'' PNone
     in
     rbind (request_body net body_value) (\<lambda>body.
     try_addresses net node addresses
       \<lparr>hq_method = config_method net config, hq_url = [], hq_path = request_target parsed query,
        hq_headers = (if body \<noteq> None \<and> \<not> has_header ''content-type'' headers
                      then dset ''Content-Type'' ''application/json'' headers else headers),
        hq_raw_headers = [], hq_body = body, hq_params = [], hq_json = PNone, hq_timeout = timeout, hq_https = is_https parsed,
        hq_port = (case port of Some p \<Rightarrow> p | None \<Rightarrow> if is_https parsed then 443 else 80),
        hq_server_hostname = (if is_https parsed then pu_hostname parsed else None)\<rparr>)))))"

definition request_injected ::
  "Net \<Rightarrow> string \<Rightarrow> (string \<Rightarrow> HttpRequest \<Rightarrow> HttpResponse res) \<Rightarrow> string \<Rightarrow> params \<Rightarrow> pyfloat \<Rightarrow> HttpResponse res" where
  "request_injected net node request url config timeout =
     rbind (py_dict (get_or config ''headers'' (PDict []))) (\<lambda>headers.
     rbind (py_dict (get_or config ''query'' (PDict []))) (\<lambda>query.
     request node
       \<lparr>hq_method = config_method net config, hq_url = url, hq_path = [], hq_headers = [], hq_raw_headers = headers,
        hq_body = None, hq_params = query, hq_json = get_or config ''body'' PNone, hq_timeout = timeout,
        hq_https = False, hq_port = 0, hq_server_hostname = None\<rparr>))"

fun read_chunks :: "nat \<Rightarrow> string list \<Rightarrow> exn option \<Rightarrow> string \<Rightarrow> string res" where
  "read_chunks n [] broken body = (case broken of None \<Rightarrow> Inr body | Some e \<Rightarrow> Inl e)"
| "read_chunks n (chunk # rest) broken body =
     (if chunk = [] then read_chunks n rest broken body
      else if n + length chunk > MAX_RESPONSE_BYTES then Inl ValueError
      else read_chunks (n + length chunk) rest broken (body @ chunk))"

definition read_bounded_body :: "HttpResponse \<Rightarrow> string res" where
  "read_bounded_body response = read_chunks 0 (hr_chunks response) (hr_broken response) []"

fun extract_rules :: "Net \<Rightarrow> pyval \<Rightarrow> (pyval \<times> pyval) list \<Rightarrow> params \<Rightarrow> params res" where
  "extract_rules net payload [] extracted = Inr extracted"
| "extract_rules net payload ((name, path) # rest) extracted =
     (case path of
        PStr p \<Rightarrow>
          rbind (extract_json_path payload p) (\<lambda>v.
          extract_rules net payload rest (dset (py_str (net_str net) name) v extracted))
      | _ \<Rightarrow> Inl (OtherException ''AttributeError''))"

definition node_result :: "NodeStatus \<Rightarrow> params \<Rightarrow> params \<Rightarrow> NodeExecution" where
  "node_result status details extracted =
     \<lparr>nx_status = status, nx_details = details, nx_extracted = extracted, nx_branch = None\<rparr>"

definition http_exchange ::
  "Net \<Rightarrow> string \<Rightarrow> string \<Rightarrow> ParsedUrl \<Rightarrow> string list \<Rightarrow> params \<Rightarrow> pyfloat \<Rightarrow> int list \<Rightarrow> NodeExecution res" where
  "http_exchange net node url parsed addresses rendered timeout expected =
     rbind (case net_request net of
              None \<Rightarrow> request_pinned net node parsed addresses rendered timeout
            | Some request \<Rightarrow> request_injected net node request url rendered timeout) (\<lambda>response.
     rbind (read_bounded_body response) (\<lambda>body.
     rbind (py_dict (get_or rendered ''extractions'' (PDict []))) (\<lambda>rules.
     rbind (if rules = [] then Inr []
            else rbind (net_loads net (case hr_encoding response of Some e \<Rightarrow> if e = [] then ''utf-8'' else e
                                       | None \<Rightarrow> ''utf-8'') body) (\<lambda>payload.
              extract_rules net payload rules [])) (\<lambda>extracted.
     Inr (node_result (if hr_status response \<in> set expected then NS_SUCCEEDED else NS_FAILED)
       [(''status_code'', PInt (hr_status response)), (''response_size_bytes'', PInt (int (length body))),
        (''extractions'', PDict (map (\<lambda>(k, v). (PStr k, v)) extracted))] extracted)))))"

definition caught_by_http :: "exn \<Rightarrow> bool" where
  "caught_by_http e \<longleftrightarrow> e \<in> {HTTPError, UnicodeError, KeyError, IndexError, TypeError, ValueError,
     WorkflowExecutionError, WorkflowValidationError}"

definition guarded_exchange ::
  "Net \<Rightarrow> string \<Rightarrow> string \<Rightarrow> ParsedUrl \<Rightarrow> string list \<Rightarrow> params \<Rightarrow> pyfloat \<Rightarrow> int list \<Rightarrow> NodeExecution res" where
  "guarded_exchange net node url parsed addresses rendered timeout expected =
     (case http_exchange net node url parsed addresses rendered timeout expected of
        Inr x \<Rightarrow> Inr x
      | Inl e \<Rightarrow> if caught_by_http e
          then Inr (node_result NS_FAILED [(''error'', PStr ''HTTP request failed'')] []) else Inl e)"

definition timeout_ok :: "pyfloat \<Rightarrow> bool" where
  "timeout_ok t \<longleftrightarrow> float_less (Finite 0) t \<and> (float_less t (Finite MAX_HTTP_TIMEOUT_SECONDS) \<or>
     t = Finite MAX_HTTP_TIMEOUT_SECONDS)"

definition default_statuses :: pyval where
  "default_statuses = PList (map PInt [200..299])"

definition execute_http :: "Net \<Rightarrow> string \<Rightarrow> params \<Rightarrow> params \<Rightarrow> NodeExecution res" where
  "execute_http net node config variables =
     rbind (render_config (net_dumps net) variables config) (\<lambda>rendered.
     case dget rendered ''url'' of
       None \<Rightarrow> Inl KeyError
     | Some u \<Rightarrow>
         (let url = py_str (net_str net) u in
          rbind (validate_public_url net url) (\<lambda>(parsed, addresses).
          rbind (py_float net (get_or rendered ''timeout_seconds'' (PInt 30))) (\<lambda>timeout.
          if \<not> timeout_ok timeout then Inl WorkflowExecutionError
          else
            rbind (py_iter (get_or rendered ''expected_statuses'' default_statuses)) (\<lambda>statuses.
            rbind (collect (map (py_int net) statuses)) (\<lambda>expected.
            if expected = [] \<or> list_ex (\<lambda>c. c < 100 \<or> c > 599) expected then Inl WorkflowExecutionError
            else guarded_exchange net node url parsed addresses rendered timeout expected))))))"

section \<open>One node\<close>

definition execute_condition :: "Net \<Rightarrow> params \<Rightarrow> params \<Rightarrow> NodeExecution res" where
  "execute_condition net config variables =
     (case dget config ''operator'' of
        None \<Rightarrow> Inl KeyError
      | Some op \<Rightarrow>
          (let operator = py_str (net_str net) op; raw_left = get_or config ''left'' PNone in
           rbind
             (if operator = ''exists''
              then Inr (case raw_left of
                  PStr s \<Rightarrow> (case whole_template s of Some name \<Rightarrow> name | None \<Rightarrow> s) \<in> set (dkeys variables)
                | _ \<Rightarrow> False)
              else
                rbind (render_templates (net_dumps net) variables raw_left) (\<lambda>left.
                rbind (render_templates (net_dumps net) variables (get_or config ''right'' PNone)) (\<lambda>right.
                compare_values left right operator))) (\<lambda>outcome.
           Inr \<lparr>nx_status = NS_SUCCEEDED, nx_details = [(''outcome'', PBool outcome)], nx_extracted = [],
                nx_branch = Some outcome\<rparr>)))"

definition execute_parallel :: "Net \<Rightarrow> params \<Rightarrow> NodeExecution res" where
  "execute_parallel net config =
     rbind (py_int net (get_or config ''max_concurrency'' (PInt 2))) (\<lambda>n.
     Inr (node_result NS_SUCCEEDED [(''max_concurrency'', PInt n)] []))"

definition caught_by_node :: "exn \<Rightarrow> bool" where
  "caught_by_node e \<longleftrightarrow> e \<in> {KeyError, TypeError, ValueError, UnicodeError, WorkflowExecutionError,
     WorkflowValidationError}"

text \<open>\<open>clock\<close> gives the timestamps of a node: when it starts (0) and when it ends (1).\<close>

definition result_entry :: "(string \<Rightarrow> nat \<Rightarrow> string) \<Rightarrow> nat \<Rightarrow> WorkflowNode \<Rightarrow> NodeExecution \<Rightarrow> params" where
  "result_entry clock finish node execution =
     dmerge [(''node_id'', PStr (wn_id node)), (''name'', PStr (wn_name node)),
       (''type'', PStr (node_type_value (wn_type node))), (''status'', PStr (status_value (nx_status execution))),
       (''started_at'', PStr (clock (wn_id node) 0)), (''finished_at'', PStr (clock (wn_id node) finish))]
       (nx_details execution)"

definition execute_node ::
  "Net \<Rightarrow> (string \<Rightarrow> nat \<Rightarrow> string) \<Rightarrow> WorkflowNode \<Rightarrow> params \<Rightarrow> (NodeExecution \<times> params) res" where
  "execute_node net clock node variables =
     rbind (case (case wn_type node of
                    NT_HTTP \<Rightarrow> execute_http net (wn_id node) (wn_config node) variables
                  | NT_CONDITION \<Rightarrow> execute_condition net (wn_config node) variables
                  | NT_PARALLEL \<Rightarrow> execute_parallel net (wn_config node)) of
              Inr x \<Rightarrow> Inr x
            | Inl e \<Rightarrow> if caught_by_node e
                then Inr (node_result NS_FAILED [(''error'', PStr ''node execution failed'')] []) else Inl e)
       (\<lambda>execution. Inr (execution, result_entry clock 1 node execution))"

section \<open>The scheduler\<close>

definition edge_active :: "WorkflowEdge \<Rightarrow> NodeExecution \<Rightarrow> bool" where
  "edge_active edge source =
     (if nx_status source = NS_SKIPPED then False
      else (case we_outcome edge of
          EO_ALWAYS \<Rightarrow> True
        | EO_SUCCESS \<Rightarrow> nx_status source = NS_SUCCEEDED
        | EO_FAILURE \<Rightarrow> nx_status source = NS_FAILED
        | EO_TRUE \<Rightarrow> nx_branch source = Some True
        | EO_FALSE \<Rightarrow> nx_branch source = Some False))"

definition incoming_edges :: "WorkflowDefinition \<Rightarrow> WorkflowNode \<Rightarrow> WorkflowEdge list" where
  "incoming_edges workflow node = filter (\<lambda>e. we_target e = wn_id node) (wd_edges workflow)"

record GraphState =
  gt_pending :: "string list"
  gt_executions :: "(string, NodeExecution) dict"
  gt_raw_results :: "(string, params) dict"
  gt_context :: params

definition source_done :: "GraphState \<Rightarrow> WorkflowEdge \<Rightarrow> bool" where
  "source_done st edge \<longleftrightarrow> we_source edge \<in> set (dkeys (gt_executions st))"

definition source_active :: "GraphState \<Rightarrow> WorkflowEdge \<Rightarrow> bool" where
  "source_active st edge =
     (case dget (gt_executions st) (we_source edge) of None \<Rightarrow> False | Some x \<Rightarrow> edge_active edge x)"

definition record_node :: "WorkflowNode \<Rightarrow> NodeExecution \<Rightarrow> params \<Rightarrow> GraphState \<Rightarrow> GraphState" where
  "record_node node execution result st =
     st\<lparr>gt_executions := dset (wn_id node) execution (gt_executions st),
        gt_raw_results := dset (wn_id node) result (gt_raw_results st),
        gt_pending := removeAll (wn_id node) (gt_pending st)\<rparr>"

definition skippable :: "WorkflowDefinition \<Rightarrow> GraphState \<Rightarrow> WorkflowNode \<Rightarrow> bool" where
  "skippable workflow st node \<longleftrightarrow>
     (let edges = incoming_edges workflow node in
      wn_id node \<in> set (gt_pending st) \<and> edges \<noteq> [] \<and>
      list_all (source_done st) edges \<and> \<not> list_ex (source_active st) edges)"

definition skipped :: NodeExecution where
  "skipped = node_result NS_SKIPPED [] []"

fun skip_pass ::
  "(string \<Rightarrow> nat \<Rightarrow> string) \<Rightarrow> WorkflowDefinition \<Rightarrow> WorkflowNode list \<Rightarrow> GraphState \<Rightarrow> GraphState \<times> bool" where
  "skip_pass clock workflow [] st = (st, False)"
| "skip_pass clock workflow (node # rest) st =
     (if skippable workflow st node
      then (fst (skip_pass clock workflow rest (record_node node skipped (result_entry clock 0 node skipped) st)), True)
      else skip_pass clock workflow rest st)"

lemma record_node_pending:
  "wn_id node \<in> set (gt_pending st) \<Longrightarrow> length (gt_pending (record_node node x y st)) < length (gt_pending st)"
  by (simp add: record_node_def length_removeAll_less)

lemma skippable_pending: "skippable workflow st node \<Longrightarrow> wn_id node \<in> set (gt_pending st)"
  by (simp add: skippable_def Let_def)

lemma skip_pass_pending_le:
  "length (gt_pending (fst (skip_pass clock workflow nodes st))) \<le> length (gt_pending st)"
proof (induction clock workflow nodes st rule: skip_pass.induct)
  case (2 clock workflow node rest st)
  then show ?case
    using record_node_pending [OF skippable_pending, of workflow st node skipped "result_entry clock 0 node skipped"]
    by (cases "skippable workflow st node") simp_all
qed simp

lemma skip_pass_pending_less:
  "snd (skip_pass clock workflow nodes st) \<Longrightarrow>
     length (gt_pending (fst (skip_pass clock workflow nodes st))) < length (gt_pending st)"
proof (induction clock workflow nodes st rule: skip_pass.induct)
  case (2 clock workflow node rest st)
  let ?st = "record_node node skipped (result_entry clock 0 node skipped) st"
  show ?case
    using 2 record_node_pending [OF skippable_pending, of workflow st node skipped "result_entry clock 0 node skipped"]
      skip_pass_pending_le [of clock workflow rest ?st]
    by (cases "skippable workflow st node") simp_all
qed simp

lemma skip_pass_less:
  "(st', True) = skip_pass clock workflow nodes st \<Longrightarrow> length (gt_pending st') < length (gt_pending st)"
  using skip_pass_pending_less [of clock workflow nodes st] by (metis fst_conv snd_conv)

function skip_all :: "(string \<Rightarrow> nat \<Rightarrow> string) \<Rightarrow> WorkflowDefinition \<Rightarrow> GraphState \<Rightarrow> GraphState" where
  "skip_all clock workflow st =
     (case skip_pass clock workflow (wd_nodes workflow) st of
        (st', changed) \<Rightarrow> if changed then skip_all clock workflow st' else st')"
  by auto
termination
  by (relation "measure (\<lambda>(_, _, st). length (gt_pending st))") (auto dest: skip_pass_less)

declare skip_all.simps [simp del]

definition is_ready :: "WorkflowDefinition \<Rightarrow> GraphState \<Rightarrow> WorkflowNode \<Rightarrow> bool" where
  "is_ready workflow st node \<longleftrightarrow>
     (let edges = incoming_edges workflow node in
      wn_id node \<in> set (gt_pending st) \<and>
      (edges = [] \<or> list_all (source_done st) edges \<and> list_ex (source_active st) edges))"

definition ready_nodes :: "WorkflowDefinition \<Rightarrow> GraphState \<Rightarrow> WorkflowNode list" where
  "ready_nodes workflow st = filter (is_ready workflow st) (wd_nodes workflow)"

definition parallel_sources :: "WorkflowDefinition \<Rightarrow> GraphState \<Rightarrow> WorkflowNode list \<Rightarrow> WorkflowNode list" where
  "parallel_sources workflow st ready =
     concat (map (\<lambda>node. List.map_filter (\<lambda>edge.
       case dget (node_index (wd_nodes workflow)) (we_source edge) of
         None \<Rightarrow> None
       | Some source \<Rightarrow>
           if wn_type source = NT_PARALLEL \<and> source_active st edge then Some source else None)
       (incoming_edges workflow node)) ready)"

definition wave_limit ::
  "Net \<Rightarrow> int \<Rightarrow> WorkflowDefinition \<Rightarrow> GraphState \<Rightarrow> WorkflowNode list \<Rightarrow> int res" where
  "wave_limit net max_concurrency workflow st ready =
     rbind (collect (map (\<lambda>source. py_int net (get_or (wn_config source) ''max_concurrency'' (PInt 2)))
        (parallel_sources workflow st ready))) (\<lambda>limits.
     Inr (max 1 (foldl min (int (length ready)) (max_concurrency # limits))))"

primrec record_wave :: "(WorkflowNode \<times> NodeExecution \<times> params) list \<Rightarrow> GraphState \<Rightarrow> GraphState" where
  "record_wave [] st = st"
| "record_wave (c # cs) st = (case c of (node, execution, result) \<Rightarrow>
     record_wave cs (record_node node execution result st))"

definition extend_context :: "WorkflowNode list \<Rightarrow> WorkflowNode list \<Rightarrow> GraphState \<Rightarrow> GraphState" where
  "extend_context nodes ready st =
     st\<lparr>gt_context := foldl (\<lambda>context node.
       case dget (gt_executions st) (wn_id node) of
         None \<Rightarrow> context
       | Some x \<Rightarrow> dmerge context (nx_extracted x)) (gt_context st) (filter (\<lambda>n. n \<in> set ready) nodes)\<rparr>"

text \<open>One wave: all ready nodes run on the same snapshot of the context, \<open>run\<close> executes one.\<close>

definition wave ::
  "(GraphState \<Rightarrow> WorkflowNode list \<Rightarrow> int res) \<Rightarrow> (WorkflowNode \<Rightarrow> params \<Rightarrow> (NodeExecution \<times> params) res) \<Rightarrow>
   WorkflowDefinition \<Rightarrow> (GraphState, unit) pyop" where
  "wave limit run workflow st =
     (let ready = ready_nodes workflow st in
      if ready = [] then (Inl WorkflowExecutionError, st)
      else (case rbind (limit st ready) (\<lambda>_. collect (map (\<lambda>node. run node (gt_context st)) ready)) of
          Inl e \<Rightarrow> (Inl e, st)
        | Inr completed \<Rightarrow>
            (Inr (), extend_context (wd_nodes workflow) ready (record_wave (zip ready completed) st))))"

lemma record_wave_pending:
  "gt_pending (record_wave cs st) = filter (\<lambda>i. i \<notin> (wn_id \<circ> fst) ` set cs) (gt_pending st)"
proof (induction cs arbitrary: st)
  case (Cons c cs)
  then show ?case
    by (cases c) (auto simp: record_node_def removeAll_filter_not_eq intro!: filter_cong)
qed simp

lemma skip_all_pending: "length (gt_pending (skip_all clock workflow st)) \<le> length (gt_pending st)"
proof (induction clock workflow st rule: skip_all.induct)
  case (1 clock workflow st)
  obtain x b where p: "skip_pass clock workflow (wd_nodes workflow) st = (x, b)" by (cases "skip_pass clock workflow (wd_nodes workflow) st")
  then have "b \<Longrightarrow> length (gt_pending (skip_all clock workflow x)) \<le> length (gt_pending x)"
    using 1 by simp
  then show ?case
    using skip_pass_pending_le [of clock workflow "wd_nodes workflow" st] p
    by (subst skip_all.simps) (cases b; simp)
qed

lemma collect_length: "collect rs = Inr xs \<Longrightarrow> length xs = length rs"
  by (induction rs arbitrary: xs) auto

lemma wave_pending:
  assumes "wave limit run workflow st = (Inr u, st')"
  shows "length (gt_pending st') < length (gt_pending st)"
proof -
  let ?ready = "ready_nodes workflow st"
  obtain completed where c: "?ready \<noteq> []" "collect (map (\<lambda>node. run node (gt_context st)) ?ready) = Inr completed"
    "st' = extend_context (wd_nodes workflow) ?ready (record_wave (zip ?ready completed) st)"
    using assms by (auto simp: wave_def Let_def split: if_splits sum.splits)
  then have len: "length completed = length ?ready" by (auto dest: collect_length)
  obtain node where node: "node \<in> set ?ready" using c(1) by (metis last_in_set)
  with len have "wn_id node \<in> (wn_id \<circ> fst) ` set (zip ?ready completed)"
    by (force simp: in_set_conv_nth set_zip)
  moreover have "wn_id node \<in> set (gt_pending st)"
    using node by (simp add: ready_nodes_def is_ready_def Let_def)
  ultimately show ?thesis
    using c(3) by (auto simp: extend_context_def record_wave_pending intro!: length_filter_less)
qed

function run_loop ::
  "(string \<Rightarrow> nat \<Rightarrow> string) \<Rightarrow> (GraphState \<Rightarrow> WorkflowNode list \<Rightarrow> int res) \<Rightarrow>
   (WorkflowNode \<Rightarrow> params \<Rightarrow> (NodeExecution \<times> params) res) \<Rightarrow> WorkflowDefinition \<Rightarrow> (GraphState, unit) pyop" where
  "run_loop clock limit run workflow st =
     (if gt_pending st = [] then (Inr (), st)
      else (case wave limit run workflow (skip_all clock workflow st) of
          (Inl e, st') \<Rightarrow> (Inl e, st')
        | (Inr _, st') \<Rightarrow> run_loop clock limit run workflow st'))"
  by auto
termination
proof (relation "measure (\<lambda>(_, _, _, _, st). length (gt_pending st))", goal_cases)
  case (2 clock limit run workflow st)
  then show ?case
    using wave_pending [of limit run workflow "skip_all clock workflow st"] skip_all_pending [of clock workflow st]
    by (metis (no_types, lifting) case_prod_conv in_measure le_less_trans not_le order.trans less_le_trans)
qed simp

declare run_loop.simps [simp del]

definition start_graph :: "WorkflowDefinition \<Rightarrow> params \<Rightarrow> GraphState" where
  "start_graph workflow context =
     \<lparr>gt_pending = remdups (map wn_id (wd_nodes workflow)), gt_executions = [], gt_raw_results = [],
      gt_context = context\<rparr>"

definition ordered_results :: "WorkflowDefinition \<Rightarrow> GraphState \<Rightarrow> (string, params) dict" where
  "ordered_results workflow st = dmerge [] (List.map_filter (\<lambda>node.
     map_option (\<lambda>r. (wn_id node, r)) (dget (gt_raw_results st) (wn_id node))) (wd_nodes workflow))"

definition any_failed :: "GraphState \<Rightarrow> bool" where
  "any_failed st \<longleftrightarrow> list_ex (\<lambda>x. nx_status x = NS_FAILED) (dvalues (gt_executions st))"

definition run_graph ::
  "Net \<Rightarrow> (string \<Rightarrow> nat \<Rightarrow> string) \<Rightarrow> int \<Rightarrow> WorkflowDefinition \<Rightarrow> params \<Rightarrow>
   ((string, params) dict \<times> bool \<times> params) res" where
  "run_graph net clock max_concurrency workflow context =
     (case run_loop clock (wave_limit net max_concurrency workflow) (execute_node net clock) workflow
             (start_graph workflow context) of
        (Inl e, _) \<Rightarrow> Inl e
      | (Inr _, st) \<Rightarrow> Inr (ordered_results workflow st, any_failed st, gt_context st))"

section \<open>The executor\<close>

definition make_executor :: "int \<Rightarrow> int res" where
  "make_executor max_concurrency =
     (if \<not> (1 \<le> max_concurrency \<and> max_concurrency \<le> 100) then Inl ValueError else Inr max_concurrency)"

definition run_workflow_id :: "string option \<Rightarrow> WorkflowDefinition \<Rightarrow> string" where
  "run_workflow_id workflow_id workflow =
     (case workflow_id of None \<Rightarrow> wd_id workflow | Some i \<Rightarrow> if i = [] then wd_id workflow else i)"

text \<open>\<open>fresh\<close> is the identifier of the run, \<open>started\<close> and \<open>finished\<close> the readings of the clock.\<close>

definition execute_workflow ::
  "Net \<Rightarrow> (string \<Rightarrow> nat \<Rightarrow> string) \<Rightarrow> int \<Rightarrow> string \<Rightarrow> string \<Rightarrow> string \<Rightarrow> WorkflowDefinition \<Rightarrow> params option \<Rightarrow>
   string option \<Rightarrow> WorkflowRunRecord res" where
  "execute_workflow net clock max_concurrency fresh started finished workflow variables workflow_id =
     rbind (validate_workflow_graph workflow) (\<lambda>_.
     if wd_nodes workflow = [] then Inl WorkflowExecutionError
     else
       rbind (run_graph net clock max_concurrency workflow
                (dmerge (wd_variables workflow) (case variables of None \<Rightarrow> [] | Some v \<Rightarrow> v)))
         (\<lambda>(results, failed, context).
       Inr \<lparr>wr_id = fresh, wr_workflow_id = run_workflow_id workflow_id workflow,
            wr_status = (if failed then ''FAILED'' else ''SUCCEEDED''), wr_node_results = results,
            wr_variables = context, wr_started_at = started, wr_finished_at = Some finished\<rparr>))"

definition debug_workflow ::
  "Net \<Rightarrow> (string \<Rightarrow> nat \<Rightarrow> string) \<Rightarrow> string \<Rightarrow> string \<Rightarrow> string \<Rightarrow> WorkflowDefinition \<Rightarrow> string \<Rightarrow> params option \<Rightarrow>
   string option \<Rightarrow> WorkflowRunRecord res" where
  "debug_workflow net clock fresh started finished workflow node_id variables workflow_id =
     rbind (validate_workflow_graph workflow) (\<lambda>_.
     case find (\<lambda>n. wn_id n = node_id) (wd_nodes workflow) of
       None \<Rightarrow> Inl WorkflowExecutionError
     | Some node \<Rightarrow>
         (let context = dmerge (wd_variables workflow) (case variables of None \<Rightarrow> [] | Some v \<Rightarrow> v) in
          rbind (execute_node net clock node context) (\<lambda>(execution, result).
          Inr \<lparr>wr_id = fresh, wr_workflow_id = run_workflow_id workflow_id workflow,
               wr_status = (if nx_status execution = NS_SUCCEEDED then ''SUCCEEDED'' else ''FAILED''),
               wr_node_results = [(wn_id node, result)],
               wr_variables = dmerge context (nx_extracted execution), wr_started_at = started,
               wr_finished_at = Some finished\<rparr>)))"

end
