(* ===== verification/Workflow_Facts.thy ===== *)
theory Workflow_Facts
  imports Workflow_Executor
begin

text \<open>
  What the workflow engine guarantees: validation accepts exactly the acyclic well-formed graphs, the wave
  scheduler settles every node of a valid graph, and an HTTP node reaches public addresses only.

  The scheduler lemmas are proved for any way to execute a node (\<open>run\<close>) and any limit computation.
\<close>

section \<open>The scheduler invariant\<close>

text \<open>
  \<open>decided\<close>: the sources of the node are settled, and its execution is a skip exactly when it has
  incoming edges and none of them is active.
\<close>

definition decided ::
  "(WorkflowNode \<Rightarrow> params \<Rightarrow> (NodeExecution \<times> params) res) \<Rightarrow> WorkflowDefinition \<Rightarrow> GraphState \<Rightarrow>
   WorkflowNode \<Rightarrow> NodeExecution \<Rightarrow> bool" where
  "decided run workflow st node x \<longleftrightarrow>
     (let edges = incoming_edges workflow node in
      list_all (source_done st) edges \<and>
      (if edges \<noteq> [] \<and> \<not> list_ex (source_active st) edges then nx_status x = NS_SKIPPED
       else \<exists>context result. run node context = Inr (x, result)))"

definition node_settled ::
  "(WorkflowNode \<Rightarrow> params \<Rightarrow> (NodeExecution \<times> params) res) \<Rightarrow> WorkflowDefinition \<Rightarrow> GraphState \<Rightarrow>
   WorkflowNode \<Rightarrow> bool" where
  "node_settled run workflow st node \<longleftrightarrow>
     (\<exists>x. dget (gt_executions st) (wn_id node) = Some x \<and> decided run workflow st node x)"

abbreviation done_ids :: "GraphState \<Rightarrow> string set" where
  "done_ids st \<equiv> set (dkeys (gt_executions st))"

definition graph_inv ::
  "(WorkflowNode \<Rightarrow> params \<Rightarrow> (NodeExecution \<times> params) res) \<Rightarrow> WorkflowDefinition \<Rightarrow> GraphState \<Rightarrow> bool" where
  "graph_inv run workflow st \<longleftrightarrow>
     set (gt_pending st) \<inter> done_ids st = {} \<and>
     set (gt_pending st) \<union> done_ids st = wn_id ` set (wd_nodes workflow) \<and>
     set (dkeys (gt_raw_results st)) = done_ids st \<and>
     (\<forall>node \<in> set (wd_nodes workflow). wn_id node \<in> done_ids st \<longrightarrow> node_settled run workflow st node)"

lemma record_node_simps [simp]:
  "gt_executions (record_node n x r st) = dset (wn_id n) x (gt_executions st)"
  "gt_raw_results (record_node n x r st) = dset (wn_id n) r (gt_raw_results st)"
  "gt_pending (record_node n x r st) = removeAll (wn_id n) (gt_pending st)"
  "gt_context (record_node n x r st) = gt_context st"
  by (simp_all add: record_node_def)

lemma keys_dset [simp]: "fst ` set (dset k v d) = insert k (fst ` set d)"
  using arg_cong [OF dkeys_dset, of set k v d] by (auto split: if_splits)

lemma source_active_stable:
  "wn_id n \<notin> done_ids st \<Longrightarrow> source_done st e \<Longrightarrow> source_active (record_node n x r st) e = source_active st e"
  by (cases "we_source e = wn_id n") (auto simp: source_active_def source_done_def)

lemma source_done_stable: "source_done st e \<Longrightarrow> source_done (record_node n x r st) e"
  by (auto simp: source_done_def)

lemma decided_stable:
  assumes "decided run workflow st node y" "wn_id n \<notin> done_ids st"
  shows "decided run workflow (record_node n x r st) node y"
proof -
  let ?es = "incoming_edges workflow node"
  have d: "list_all (source_done st) ?es" using assms(1) by (simp add: decided_def Let_def)
  then have "list_all (source_done (record_node n x r st)) ?es"
    by (auto simp: list_all_iff intro: source_done_stable)
  moreover have "list_ex (source_active (record_node n x r st)) ?es = list_ex (source_active st) ?es"
    using d source_active_stable [OF assms(2)] by (auto simp: list_all_iff list_ex_iff)
  ultimately show ?thesis using assms(1) by (simp add: decided_def Let_def)
qed

lemma graph_inv_record:
  assumes "graph_inv run workflow st" "distinct (map wn_id (wd_nodes workflow))"
    and "n \<in> set (wd_nodes workflow)" "wn_id n \<in> set (gt_pending st)" "decided run workflow st n x"
  shows "graph_inv run workflow (record_node n x r st)"
proof -
  have new: "wn_id n \<notin> done_ids st" using assms(1,4) by (auto simp: graph_inv_def)
  have same: "m = n" if "m \<in> set (wd_nodes workflow)" "wn_id m = wn_id n" for m
    using that assms(2,3) by (auto simp: distinct_map dest: inj_onD)
  have "node_settled run workflow (record_node n x r st) m"
    if m: "m \<in> set (wd_nodes workflow)" "wn_id m \<in> insert (wn_id n) (done_ids st)" for m
  proof (cases "wn_id m = wn_id n")
    case True
    then show ?thesis using same [OF m(1)] decided_stable [OF assms(5) new] by (simp add: node_settled_def)
  next
    case False
    then have "node_settled run workflow st m" using m assms(1) by (auto simp: graph_inv_def)
    then show ?thesis using False decided_stable [OF _ new] by (auto simp: node_settled_def)
  qed
  then have "\<forall>m \<in> set (wd_nodes workflow). wn_id m \<in> done_ids (record_node n x r st) \<longrightarrow>
      node_settled run workflow (record_node n x r st) m" by simp
  moreover have p: "set (gt_pending st) \<inter> done_ids st = {}" "set (dkeys (gt_raw_results st)) = done_ids st"
    "set (gt_pending st) \<union> done_ids st = wn_id ` set (wd_nodes workflow)"
    using assms(1) by (simp_all add: graph_inv_def)
  moreover have "set (removeAll (wn_id n) (gt_pending st)) \<inter> insert (wn_id n) (done_ids st) = {}"
    using p(1) by auto
  moreover have "set (removeAll (wn_id n) (gt_pending st)) \<union> insert (wn_id n) (done_ids st) =
      wn_id ` set (wd_nodes workflow)"
    using p(3) assms(4) by auto
  ultimately show ?thesis unfolding graph_inv_def by simp
qed

lemma decided_skipped: "skippable workflow st node \<Longrightarrow> decided run workflow st node skipped"
  by (auto simp: skippable_def decided_def skipped_def node_result_def Let_def)

lemma skip_pass_inv:
  "graph_inv run workflow st \<Longrightarrow> distinct (map wn_id (wd_nodes workflow)) \<Longrightarrow>
   set nodes \<subseteq> set (wd_nodes workflow) \<Longrightarrow> graph_inv run workflow (fst (skip_pass clock workflow nodes st))"
proof (induction clock workflow nodes st rule: skip_pass.induct)
  case (2 clock workflow node rest st)
  show ?case
  proof (cases "skippable workflow st node")
    case True
    from 2(3-5) have "graph_inv run workflow (record_node node skipped (result_entry clock 0 node skipped) st)"
      by (intro graph_inv_record skippable_pending [OF True] decided_skipped [OF True]) auto
    then show ?thesis using True 2(1) 2(4,5) by simp
  next
    case False
    then show ?thesis using 2 by simp
  qed
qed simp

lemma skip_pass_unchanged:
  "\<not> snd (skip_pass clock workflow nodes st) \<Longrightarrow>
     fst (skip_pass clock workflow nodes st) = st \<and> (\<forall>node \<in> set nodes. \<not> skippable workflow st node)"
  by (induction clock workflow nodes st rule: skip_pass.induct) (auto split: if_splits)

lemma skip_all_inv:
  "graph_inv run workflow st \<Longrightarrow> distinct (map wn_id (wd_nodes workflow)) \<Longrightarrow>
   graph_inv run workflow (skip_all clock workflow st) \<and>
   (\<forall>node \<in> set (wd_nodes workflow). \<not> skippable workflow (skip_all clock workflow st) node)"
proof (induction clock workflow st rule: skip_all.induct)
  case (1 clock workflow st)
  obtain x b where p: "skip_pass clock workflow (wd_nodes workflow) st = (x, b)"
    by (cases "skip_pass clock workflow (wd_nodes workflow) st")
  have x: "graph_inv run workflow x"
    using skip_pass_inv [OF 1(2,3), of "wd_nodes workflow" clock] p by simp
  show ?case
  proof (cases b)
    case True
    then show ?thesis using 1(1) [OF p [symmetric] _ x 1(3)] p by (subst (1 2) skip_all.simps) simp
  next
    case False
    then show ?thesis
      using x p skip_pass_unchanged [of clock workflow "wd_nodes workflow" st]
      by (subst (1 2) skip_all.simps) simp
  qed
qed

lemma collect_Inl: "collect (map f xs) = Inl e \<Longrightarrow> \<exists>x \<in> set xs. f x = Inl e"
  by (induction xs) (auto simp: rbind_def split: sum.splits)

lemma collect_Inr: "collect (map f xs) = Inr ys \<Longrightarrow> (x, y) \<in> set (zip xs ys) \<Longrightarrow> f x = Inr y"
  by (induction xs arbitrary: ys) auto

lemma record_wave_inv:
  assumes "distinct (map wn_id (wd_nodes workflow))"
  shows "graph_inv run workflow st \<Longrightarrow> distinct (map (wn_id \<circ> fst) cs) \<Longrightarrow>
    (\<And>n x r. (n, x, r) \<in> set cs \<Longrightarrow> n \<in> set (wd_nodes workflow) \<and> wn_id n \<in> set (gt_pending st) \<and>
       decided run workflow st n x) \<Longrightarrow> graph_inv run workflow (record_wave cs st)"
proof (induction cs arbitrary: st)
  case (Cons c cs)
  obtain n x r where c: "c = (n, x, r)" by (cases c)
  have n: "n \<in> set (wd_nodes workflow)" "wn_id n \<in> set (gt_pending st)" "decided run workflow st n x"
    using Cons.prems(3) [of n x r] c by auto
  then have "wn_id n \<notin> done_ids st" using Cons.prems(1) by (auto simp: graph_inv_def)
  then have "decided run workflow (record_node n x r st) m y" if "(m, y, q) \<in> set cs" for m y q
    using Cons.prems(3) [of m y q] that by (auto intro: decided_stable)
  moreover have "wn_id m \<noteq> wn_id n" if "(m, y, q) \<in> set cs" for m y q
    using Cons.prems(2) that c by force
  ultimately have "graph_inv run workflow (record_wave cs (record_node n x r st))"
    using Cons.prems(2,3) c
    by (intro Cons.IH graph_inv_record [OF Cons.prems(1) assms n]) (auto, blast+)
  then show ?case using c by simp
qed simp

lemma graph_inv_context [simp]: "graph_inv run workflow (extend_context nodes ready st) = graph_inv run workflow st"
  "gt_pending (extend_context nodes ready st) = gt_pending st"
  by (simp_all add: extend_context_def graph_inv_def node_settled_def decided_def source_done_def [abs_def]
      source_active_def [abs_def] Let_def)

lemma wave_inv:
  assumes "distinct (map wn_id (wd_nodes workflow))" "graph_inv run workflow st"
    and "wave limit run workflow st = (x, st')"
  shows "graph_inv run workflow st' \<and> (case x of
       Inr _ \<Rightarrow> True
     | Inl e \<Rightarrow> st' = st \<and> (e = WorkflowExecutionError \<and> ready_nodes workflow st = [] \<or>
         (\<exists>node \<in> set (wd_nodes workflow). run node (gt_context st) = Inl e) \<or>
         limit st (ready_nodes workflow st) = Inl e))"
proof (cases x)
  case (Inl e)
  then show ?thesis using assms(2,3)
    by (auto simp: wave_def Let_def rbind_def ready_nodes_def split: if_splits sum.splits dest!: collect_Inl)
next
  case (Inr u)
  let ?ready = "ready_nodes workflow st"
  obtain completed where c: "collect (map (\<lambda>node. run node (gt_context st)) ?ready) = Inr completed"
    "st' = extend_context (wd_nodes workflow) ?ready (record_wave (zip ?ready completed) st)"
    using assms(3) Inr by (auto simp: wave_def Let_def split: if_splits sum.splits)
  have "map (wn_id \<circ> fst) (zip ?ready completed) = map wn_id ?ready"
    using collect_length [OF c(1)] by (simp flip: map_map)
  then have "distinct (map (wn_id \<circ> fst) (zip ?ready completed))"
    using assms(1) by (simp add: ready_nodes_def distinct_map_filter)
  moreover have "n \<in> set (wd_nodes workflow) \<and> wn_id n \<in> set (gt_pending st) \<and> decided run workflow st n y"
    if "(n, y, r) \<in> set (zip ?ready completed)" for n y r
  proof -
    have "n \<in> set ?ready" "run n (gt_context st) = Inr (y, r)"
      using that collect_Inr [OF c(1)] by (auto dest: set_zip_leftD)
    then show ?thesis by (fastforce simp: ready_nodes_def is_ready_def decided_def Let_def)
  qed
  ultimately show ?thesis using record_wave_inv [OF assms(1,2)] c(2) Inr by simp
qed

lemma progress:
  assumes "valid_workflow workflow" "graph_inv run workflow st" "gt_pending st \<noteq> []"
    and "\<forall>node \<in> set (wd_nodes workflow). \<not> skippable workflow st node"
  shows "ready_nodes workflow st \<noteq> []"
proof -
  have "wf (edge_pairs (wd_edges workflow))"
    using assms(1) by (simp add: valid_workflow_def finite_acyclic_wf)
  moreover obtain q where "q \<in> set (gt_pending st)" using assms(3) by (metis last_in_set)
  ultimately obtain k where k: "k \<in> set (gt_pending st)"
    "\<And>s. (s, k) \<in> edge_pairs (wd_edges workflow) \<Longrightarrow> s \<notin> set (gt_pending st)"
    by (rule wfE_min) blast
  then have "k \<in> wn_id ` set (wd_nodes workflow)" using assms(2) by (auto simp: graph_inv_def)
  then obtain node where node: "node \<in> set (wd_nodes workflow)" "wn_id node = k" by auto
  have "source_done st e" if "e \<in> set (incoming_edges workflow node)" for e
  proof -
    have e: "e \<in> set (wd_edges workflow)" "we_target e = k" using that node by (auto simp: incoming_edges_def)
    then have "edge_ok (node_index (wd_nodes workflow)) e" using assms(1) by (auto simp: valid_workflow_def list_all_iff)
    then have "we_source e \<in> wn_id ` set (wd_nodes workflow)"
      by (auto simp: edge_ok_def node_index_def split: option.splits dest!: map_of_SomeD)
    moreover have "we_source e \<notin> set (gt_pending st)" using k(2) e by (auto simp: edge_pairs_def)
    ultimately show ?thesis using assms(2) by (auto simp: graph_inv_def source_done_def)
  qed
  then have "is_ready workflow st node"
    using assms(4) node k(1) by (auto simp: is_ready_def skippable_def Let_def list_all_iff)
  then show ?thesis using node(1) by (auto simp: ready_nodes_def filter_empty_conv)
qed

lemma run_loop_settles:
  assumes "valid_workflow workflow" "graph_inv run workflow st"
    and "run_loop clock limit run workflow st = (x, st')"
  shows "graph_inv run workflow st' \<and>
    (gt_pending st' = [] \<and> (x = Inr () \<or> x = Inl WorkflowExecutionError) \<or>
     (\<exists>e. x = Inl e \<and> ((\<exists>node \<in> set (wd_nodes workflow). \<exists>context. run node context = Inl e) \<or>
        (\<exists>st ready. limit st ready = Inl e))))"
  using assms
proof (induction clock limit run workflow st rule: run_loop.induct)
  case (1 clock limit run workflow st)
  let ?st = "skip_all clock workflow st"
  have dis: "distinct (map wn_id (wd_nodes workflow))" using 1(2) by (simp add: valid_workflow_def)
  show ?case
  proof (cases "gt_pending st = []")
    case True
    then show ?thesis using 1(3,4) by (simp add: run_loop.simps)
  next
    case False
    obtain y t where w: "wave limit run workflow ?st = (y, t)" by (cases "wave limit run workflow ?st")
    note skip = skip_all_inv [OF 1(3) dis, of clock]
    note wv = wave_inv [OF dis conjunct1 [OF skip] w]
    show ?thesis
    proof (cases y)
      case (Inl e)
      then have "x = Inl e" "st' = t" using 1(4) False w by (simp_all add: run_loop.simps)
      moreover have "ready_nodes workflow ?st = [] \<Longrightarrow> gt_pending ?st = []"
        using progress [OF 1(2) conjunct1 [OF skip]] skip by blast
      ultimately show ?thesis using wv Inl by auto
    next
      case (Inr u)
      then have "run_loop clock limit run workflow t = (x, st')"
        using 1(4) False w by (simp add: run_loop.simps [of clock limit run workflow st])
      then show ?thesis using 1(1) [OF False w [symmetric] Inr 1(2)] wv Inr by simp
    qed
  qed
qed

lemma graph_inv_start: "graph_inv run workflow (start_graph workflow context)"
  by (simp add: graph_inv_def start_graph_def)

section \<open>Workflows without conditional edges\<close>

lemma unconditional_not_skippable:
  assumes "list_all (\<lambda>e. we_outcome e = EO_ALWAYS) (wd_edges workflow)" "graph_inv run workflow st"
    and "list_all (\<lambda>x. nx_status x \<noteq> NS_SKIPPED) (dvalues (gt_executions st))"
  shows "\<not> skippable workflow st node"
proof
  assume s: "skippable workflow st node"
  then obtain e where e: "e \<in> set (incoming_edges workflow node)" "source_done st e" "\<not> source_active st e"
    by (cases "incoming_edges workflow node") (auto simp: skippable_def Let_def)
  then obtain x where "dget (gt_executions st) (we_source e) = Some x"
    by (cases "dget (gt_executions st) (we_source e)") (auto simp: source_done_def map_of_eq_None_iff)
  moreover from this have "nx_status x \<noteq> NS_SKIPPED"
    using assms(3) by (force simp: list_all_iff dest: map_of_SomeD)
  moreover have "we_outcome e = EO_ALWAYS"
    using assms(1) e(1) by (auto simp: incoming_edges_def list_all_iff)
  ultimately show False using e(3) by (simp add: source_active_def edge_active_def)
qed

lemma skip_pass_none: "(\<And>node. \<not> skippable workflow st node) \<Longrightarrow> skip_pass clock workflow nodes st = (st, False)"
  by (induction nodes) simp_all

lemma skip_all_none: "(\<And>node. \<not> skippable workflow st node) \<Longrightarrow> skip_all clock workflow st = st"
  by (subst skip_all.simps) (simp add: skip_pass_none)

lemma record_wave_executions:
  "set (dvalues (gt_executions (record_wave cs st))) \<subseteq> set (dvalues (gt_executions st)) \<union> (fst \<circ> snd) ` set cs"
proof (induction cs arbitrary: st)
  case (Cons c cs)
  obtain n x r where c: "c = (n, x, r)" by (cases c)
  have "set (dvalues (dset k v d)) \<subseteq> insert v (set (dvalues d))" for k and v :: NodeExecution and d
    by (induction d) auto
  from this [of "wn_id n" x "gt_executions st"]
  have "set (dvalues (gt_executions (record_node n x r st))) \<subseteq> insert x (set (dvalues (gt_executions st)))"
    unfolding record_node_simps .
  with Cons.IH [of "record_node n x r st"]
  have "set (dvalues (gt_executions (record_wave cs (record_node n x r st)))) \<subseteq>
      insert x (set (dvalues (gt_executions st))) \<union> (fst \<circ> snd) ` set cs" by blast
  then show ?case using c by simp
qed simp

lemma wave_executions:
  assumes "wave limit run workflow st = (Inr u, st')" "x \<in> set (dvalues (gt_executions st'))"
  shows "x \<in> set (dvalues (gt_executions st)) \<or>
    (\<exists>node \<in> set (wd_nodes workflow). \<exists>context r. run node context = Inr (x, r))"
proof -
  let ?ready = "ready_nodes workflow st"
  obtain completed where c: "collect (map (\<lambda>node. run node (gt_context st)) ?ready) = Inr completed"
    "st' = extend_context (wd_nodes workflow) ?ready (record_wave (zip ?ready completed) st)"
    using assms(1) by (auto simp: wave_def Let_def split: if_splits sum.splits)
  then have "gt_executions st' = gt_executions (record_wave (zip ?ready completed) st)"
    by (simp add: extend_context_def)
  then consider "x \<in> set (dvalues (gt_executions st))" | "x \<in> (fst \<circ> snd) ` set (zip ?ready completed)"
    using assms(2) record_wave_executions [of "zip ?ready completed" st] by auto
  then show ?thesis
  proof cases
    case 2
    then obtain n r where "(n, x, r) \<in> set (zip ?ready completed)" by auto
    moreover from this have "n \<in> set (wd_nodes workflow)"
      by (auto simp: ready_nodes_def dest: set_zip_leftD)
    ultimately show ?thesis using collect_Inr [OF c(1)] by blast
  qed simp
qed

lemma unconditional_completes:
  assumes "valid_workflow workflow" "graph_inv run workflow st"
    and "list_all (\<lambda>e. we_outcome e = EO_ALWAYS) (wd_edges workflow)"
    and "list_all (\<lambda>x. nx_status x \<noteq> NS_SKIPPED) (dvalues (gt_executions st))"
    and "\<And>node context. node \<in> set (wd_nodes workflow) \<Longrightarrow>
      \<exists>x r. run node context = Inr (x, r) \<and> nx_status x \<noteq> NS_SKIPPED"
    and "\<And>st ready. \<exists>n. limit st ready = Inr n"
  shows "\<exists>st'. run_loop clock limit run workflow st = (Inr (), st') \<and>
     list_all (\<lambda>x. nx_status x \<noteq> NS_SKIPPED) (dvalues (gt_executions st'))"
  using assms
proof (induction clock limit run workflow st rule: run_loop.induct)
  case (1 clock limit run workflow st)
  show ?case
  proof (cases "gt_pending st = []")
    case True
    then show ?thesis using 1(5) by (simp add: run_loop.simps)
  next
    case False
    note none = unconditional_not_skippable [OF 1(4) 1(3) 1(5)]
    have skip: "skip_all clock workflow st = st" by (rule skip_all_none [OF none])
    obtain y t where w: "wave limit run workflow st = (y, t)" by (cases "wave limit run workflow st")
    have dis: "distinct (map wn_id (wd_nodes workflow))" using 1(2) by (simp add: valid_workflow_def)
    note wv = wave_inv [OF dis 1(3) w]
    have ready: "ready_nodes workflow st \<noteq> []" using progress [OF 1(2,3) False] none by blast
    obtain u where y: "y = Inr u"
    proof (cases y)
      case (Inl e)
      have "node \<in> set (wd_nodes workflow) \<Longrightarrow> run node ctx \<noteq> Inl e" "limit st r \<noteq> Inl e" for node ctx r
        using 1(6) [of node ctx] 1(7) [of st r] by auto
      then show ?thesis using wv ready Inl by auto
    qed blast
    have "nx_status x \<noteq> NS_SKIPPED" if "x \<in> set (dvalues (gt_executions t))" for x
      using wave_executions [OF w [unfolded y] that]
    proof
      assume "x \<in> set (dvalues (gt_executions st))"
      then show ?thesis using 1(5) by (auto simp: list_all_iff)
    next
      assume "\<exists>node \<in> set (wd_nodes workflow). \<exists>context r. run node context = Inr (x, r)"
      then obtain node ctx r where "node \<in> set (wd_nodes workflow)" "run node ctx = Inr (x, r)" by blast
      then show ?thesis using 1(6) [of node ctx] by auto
    qed
    then have t: "list_all (\<lambda>x. nx_status x \<noteq> NS_SKIPPED) (dvalues (gt_executions t))"
      by (simp add: list_all_iff)
    have "run_loop clock limit run workflow st = run_loop clock limit run workflow t"
      using False w y by (subst run_loop.simps) (simp add: skip)
    then show ?thesis
      using 1(1) [OF False _ y 1(2) _ 1(4) t 1(6,7)] w wv y by (simp add: skip)
  qed
qed

section \<open>What a finished run reports\<close>

lemma map_filter_member: "y \<in> set (List.map_filter f xs) \<longleftrightarrow> (\<exists>x \<in> set xs. f x = Some y)"
  by (induction xs) (auto simp: List.map_filter_simps split: option.splits)

lemma map_filter_all: "(\<And>x. x \<in> set xs \<Longrightarrow> f x = Some (g x)) \<Longrightarrow> List.map_filter f xs = map g xs"
  by (induction xs) (auto simp: List.map_filter_simps)

lemma dmerge_distinct: "distinct (dkeys e) \<Longrightarrow> set (dkeys d) \<inter> set (dkeys e) = {} \<Longrightarrow> dmerge d e = d @ e"
proof (induction e arbitrary: d)
  case (Cons p e)
  obtain k v where p: "p = (k, v)" by (cases p)
  have "dset k v d = d @ [(k, v)]" using Cons.prems p by (intro dset_new) (auto simp: map_of_eq_None_iff)
  then show ?case using Cons p by auto
qed simp

lemma ordered_results_keys:
  assumes "graph_inv run workflow st" "gt_pending st = []" "distinct (map wn_id (wd_nodes workflow))"
  shows "dkeys (ordered_results workflow st) = map wn_id (wd_nodes workflow)"
proof -
  have "\<exists>r. dget (gt_raw_results st) (wn_id node) = Some r" if "node \<in> set (wd_nodes workflow)" for node
    using assms(1,2) that
    by (cases "dget (gt_raw_results st) (wn_id node)") (auto simp: graph_inv_def map_of_eq_None_iff)
  then have "List.map_filter (\<lambda>node. map_option (\<lambda>r. (wn_id node, r)) (dget (gt_raw_results st) (wn_id node)))
      (wd_nodes workflow) = map (\<lambda>node. (wn_id node, the (dget (gt_raw_results st) (wn_id node)))) (wd_nodes workflow)"
    by (intro map_filter_all) force
  then show ?thesis
    using assms(3) by (simp add: ordered_results_def dmerge_distinct comp_def)
qed

lemma http_exchange_not_skipped:
  "http_exchange net n url parsed addresses rendered timeout expected = Inr x \<Longrightarrow> nx_status x \<noteq> NS_SKIPPED"
  by (auto simp: http_exchange_def node_result_def split: if_splits)

lemma guarded_exchange_not_skipped:
  "guarded_exchange net n url parsed addresses rendered timeout expected = Inr x \<Longrightarrow> nx_status x \<noteq> NS_SKIPPED"
  by (auto simp: guarded_exchange_def node_result_def dest: http_exchange_not_skipped split: sum.splits if_splits)

lemma execute_http_not_skipped: "execute_http net n config variables = Inr x \<Longrightarrow> nx_status x \<noteq> NS_SKIPPED"
  by (auto simp: execute_http_def Let_def dest: guarded_exchange_not_skipped
      split: option.splits if_splits prod.splits)

lemma execute_node_not_skipped:
  assumes "execute_node net clock node variables = Inr (x, r)"
  shows "nx_status x \<noteq> NS_SKIPPED"
proof (cases "wn_type node")
  case NT_HTTP
  then show ?thesis using assms
    by (auto simp: execute_node_def node_result_def dest: execute_http_not_skipped split: sum.splits if_splits)
next
  case NT_CONDITION
  then show ?thesis using assms
    by (auto simp: execute_node_def node_result_def execute_condition_def Let_def
        split: sum.splits if_splits option.splits)
next
  case NT_PARALLEL
  then show ?thesis using assms
    by (auto simp: execute_node_def node_result_def execute_parallel_def split: sum.splits if_splits)
qed

section \<open>Concurrency of a wave\<close>

lemma foldl_min_le: "foldl min (a :: int) xs \<le> a \<and> (\<forall>x \<in> set xs. foldl min a xs \<le> x)"
proof (induction xs arbitrary: a)
  case (Cons x xs)
  from Cons.IH [of "min a x"] show ?case by auto
qed simp

lemma collect_total: "(\<And>x. x \<in> set xs \<Longrightarrow> \<exists>y. f x = Inr y) \<Longrightarrow> \<exists>ys. collect (map f xs) = Inr ys"
  by (induction xs) force+

lemma collect_member: "collect (map f xs) = Inr ys \<Longrightarrow> x \<in> set xs \<Longrightarrow> f x = Inr y \<Longrightarrow> y \<in> set ys"
  by (induction xs arbitrary: ys) auto

section \<open>Destinations\<close>

lemma try_addresses_public:
  "list_all (net_is_global net) addresses \<Longrightarrow>
   (\<And>n a q. net_is_global net a \<Longrightarrow> f n a q = net_urlopen net n a q) \<Longrightarrow>
   try_addresses (net\<lparr>net_urlopen := f\<rparr>) node addresses request = try_addresses net node addresses request"
  by (induction addresses) (auto split: sum.split)

lemma net_numbers [simp]:
  "py_int (net\<lparr>net_urlopen := f\<rparr>) = py_int net" "py_float (net\<lparr>net_urlopen := f\<rparr>) = py_float net"
  by (auto simp: fun_eq_iff py_int_def py_float_def split: pyval.split)

lemma net_resolution [simp]: "resolve_addresses (net\<lparr>net_urlopen := f\<rparr>) = resolve_addresses net"
  by (auto simp: fun_eq_iff resolve_addresses_def split: sum.split)

lemma net_checked_url [simp]: "checked_url (net\<lparr>net_urlopen := f\<rparr>) = checked_url net"
  by (auto simp: fun_eq_iff checked_url_def rbind_def split: option.split sum.split)

lemma net_irrelevant [simp]:
  "validate_public_url (net\<lparr>net_urlopen := f\<rparr>) = validate_public_url net"
  "text_headers (net\<lparr>net_urlopen := f\<rparr>) = text_headers net"
  "config_method (net\<lparr>net_urlopen := f\<rparr>) = config_method net"
  "request_body (net\<lparr>net_urlopen := f\<rparr>) = request_body net"
  "wave_limit (net\<lparr>net_urlopen := f\<rparr>) = wave_limit net"
  by (simp_all add: fun_eq_iff validate_public_url_def text_headers_def config_method_def request_body_def
      wave_limit_def)

lemma net_local_nodes [simp]:
  "execute_condition (net\<lparr>net_urlopen := f\<rparr>) = execute_condition net"
  "execute_parallel (net\<lparr>net_urlopen := f\<rparr>) = execute_parallel net"
  by (auto simp: fun_eq_iff execute_condition_def execute_parallel_def Let_def split: option.split)

lemma extract_rules_net [simp]: "extract_rules (net\<lparr>net_urlopen := f\<rparr>) payload rules acc = extract_rules net payload rules acc"
  by (induction net payload rules acc rule: extract_rules.induct) (auto split: pyval.split)

lemma validated_addresses_public:
  "validate_public_url net url = Inr (parsed, addresses) \<Longrightarrow> list_all (net_is_global net) addresses"
  by (auto simp: validate_public_url_def checked_url_def split: sum.splits option.splits if_splits)

lemma request_pinned_public:
  "list_all (net_is_global net) addresses \<Longrightarrow>
   (\<And>n a q. net_is_global net a \<Longrightarrow> f n a q = net_urlopen net n a q) \<Longrightarrow>
   request_pinned (net\<lparr>net_urlopen := f\<rparr>) node parsed addresses config timeout =
     request_pinned net node parsed addresses config timeout"
  by (simp add: request_pinned_def try_addresses_public Let_def)

lemma execute_node_public:
  assumes "\<And>n a q. net_is_global net a \<Longrightarrow> f n a q = net_urlopen net n a q"
  shows "execute_node (net\<lparr>net_urlopen := f\<rparr>) clock node variables = execute_node net clock node variables"
proof -
  have x: "guarded_exchange (net\<lparr>net_urlopen := f\<rparr>) n url parsed addresses rendered timeout expected =
      guarded_exchange net n url parsed addresses rendered timeout expected"
    if "validate_public_url net url = Inr (parsed, addresses)" for n url parsed addresses rendered timeout expected
    using request_pinned_public [OF validated_addresses_public [OF that] assms]
    by (cases "net_request net") (simp_all add: guarded_exchange_def http_exchange_def request_injected_def cong: if_cong)
  have "execute_http (net\<lparr>net_urlopen := f\<rparr>) n config variables = execute_http net n config variables" for n config
    by (auto simp: execute_http_def Let_def rbind_def x split: option.split sum.split)
  then show ?thesis by (cases "wn_type node") (simp_all add: execute_node_def)
qed

section \<open>Examples\<close>

definition still :: "string \<Rightarrow> nat \<Rightarrow> string" where
  "still node k = ''2026-01-01T00:00:00+00:00''"

text \<open>A network with one public address that answers 200 and one private address.\<close>

definition demo_net :: Net where
  "demo_net = \<lparr>net_str = (\<lambda>_. []), net_dumps = (\<lambda>_. Inl TypeError), net_loads = (\<lambda>_ _. Inl ValueError),
     net_parse_int = (\<lambda>_. Inl ValueError), net_parse_float = (\<lambda>_. Inl ValueError),
     net_urlsplit = (\<lambda>u. Inr \<lparr>pu_scheme = ''http'', pu_hostname = Some u, pu_username = None, pu_password = None,
        pu_port = Inr None, pu_netloc = u, pu_path = [], pu_query = []\<rparr>),
     net_urlencode = (\<lambda>_. Inr []), net_ip_address = Inr,
     net_is_global = (\<lambda>a. a = ''1.1.1.1''), net_resolver = (\<lambda>_. Inr []), net_request = None,
     net_urlopen = (\<lambda>_ _ _. Inr \<lparr>hr_status = 200, hr_chunks = [], hr_broken = None, hr_encoding = None\<rparr>)\<rparr>"

definition demo_node :: "string \<Rightarrow> WorkflowNodeType \<Rightarrow> params \<Rightarrow> WorkflowNode" where
  "demo_node i t config =
     \<lparr>wn_id = i, wn_name = i, wn_type = t, wn_x = Finite 0, wn_y = Finite 0, wn_config = config\<rparr>"

text \<open>A condition with one conditional successor.\<close>

definition one_sided :: "bool \<Rightarrow> WorkflowEdgeOutcome \<Rightarrow> WorkflowDefinition" where
  "one_sided flag outcome = \<lparr>
     wd_nodes = [demo_node ''check'' NT_CONDITION
         [(''left'', PStr ''{{flag}}''), (''operator'', PStr ''equals''), (''right'', PBool True)],
       demo_node ''then'' NT_PARALLEL [(''max_concurrency'', PInt 2)]],
     wd_edges = [\<lparr>we_id = ''e'', we_source = ''check'', we_target = ''then'', we_outcome = outcome\<rparr>],
     wd_variables = [(''flag'', PBool flag)], wd_id = ''debug''\<rparr>"

definition one_request :: "string \<Rightarrow> WorkflowDefinition" where
  "one_request url = \<lparr>wd_nodes = [demo_node ''call'' NT_HTTP [(''url'', PStr url)]], wd_edges = [],
     wd_variables = [], wd_id = ''debug''\<rparr>"

lemma valid_by_validation: "validate_workflow_graph workflow = Inr () \<Longrightarrow> valid_workflow workflow"
  by (simp add: validate_workflow_graph_result split: if_splits)

lemma parallel_sources_nodes:
  assumes "source \<in> set (parallel_sources workflow st ready)"
  shows "source \<in> set (wd_nodes workflow)"
proof -
  obtain e where "(case dget (node_index (wd_nodes workflow)) (we_source e) of
      None \<Rightarrow> None
    | Some n \<Rightarrow> if wn_type n = NT_PARALLEL \<and> source_active st e then Some n else None) = Some source"
    using assms by (auto simp: parallel_sources_def map_filter_member)
  then show ?thesis
    by (cases "dget (node_index (wd_nodes workflow)) (we_source e)")
      (auto simp: node_index_def split: if_splits dest!: map_of_SomeD)
qed

lemma demo_limit: "\<exists>n. wave_limit demo_net 20 (one_sided flag outcome) st ready = Inr n"
proof -
  have "\<exists>k. py_int demo_net (get_or (wn_config source) ''max_concurrency'' (PInt 2)) = Inr k"
    if "source \<in> set (parallel_sources (one_sided flag outcome) st ready)" for source
    using parallel_sources_nodes [OF that] by (auto simp: one_sided_def demo_node_def get_or_def py_int_def)
  then have "\<exists>ks. collect (map (\<lambda>source. py_int demo_net (get_or (wn_config source) ''max_concurrency'' (PInt 2)))
      (parallel_sources (one_sided flag outcome) st ready)) = Inr ks"
    by (rule collect_total)
  then show ?thesis by (auto simp: wave_limit_def)
qed

lemma execute_node_error: "execute_node net clock node variables = Inl e \<Longrightarrow> \<not> caught_by_node e"
  by (auto simp: execute_node_def rbind_def split: sum.splits if_splits)

lemma demo_nodes_run:
  "node \<in> set (wd_nodes (one_sided flag outcome)) \<Longrightarrow> \<exists>r. execute_node demo_net still node variables = Inr r"
proof -
  assume n: "node \<in> set (wd_nodes (one_sided flag outcome))"
  have w: "whole_template ''{{flag}}'' = Some ''flag''" by code_simp
  have "caught_by_node WorkflowExecutionError" by (simp add: caught_by_node_def)
  with n show ?thesis
    by (auto simp: one_sided_def demo_node_def execute_node_def execute_condition_def execute_parallel_def get_or_def
        py_int_def py_str_def render_string_def w compare_values_def Let_def split: option.split)
qed

lemma one_sided_valid: "valid_workflow (one_sided False EO_TRUE)" "valid_workflow (one_sided False EO_ALWAYS)"
  by (rule valid_by_validation, code_simp)+

section \<open>Properties\<close>

text \<open>C27. Workflow validation accepts exactly the well-formed acyclic graphs: within the size limits, valid
  and unique identifiers, edges between existing nodes with an outcome their source can have, and no cycle. Every
  other definition is rejected with \<open>WorkflowValidationError\<close>, never with another exception.\<close>

theorem workflow_validation_accepts_exactly_dags:
  "validate_workflow_graph workflow = (if valid_workflow workflow then Inr () else Inl WorkflowValidationError)"
  by (rule validate_workflow_graph_result)

text \<open>C28. The wave scheduler always ends, and unless a node or the limit computation raises, it settles every
  node of a valid workflow: all sources of a node are settled before it, it is skipped exactly when it
  has incoming edges of which none is active, and otherwise it was executed. The only exception of the
  scheduler itself is \<open>WorkflowExecutionError\<close>, and at that point nothing is pending any more.\<close>

theorem workflow_scheduler_settles_every_node:
  assumes "valid_workflow workflow"
    and "run_loop clock (wave_limit net m workflow) (execute_node net clock) workflow (start_graph workflow variables) = (x, st)"
  shows "(\<exists>e. x = Inl e \<and> ((\<exists>node \<in> set (wd_nodes workflow). \<exists>context. execute_node net clock node context = Inl e) \<or>
      (\<exists>st ready. wave_limit net m workflow st ready = Inl e))) \<or>
    gt_pending st = [] \<and> (x = Inr () \<or> x = Inl WorkflowExecutionError) \<and>
    list_all (node_settled (execute_node net clock) workflow st) (wd_nodes workflow)"
proof -
  note r = run_loop_settles [OF assms(1) graph_inv_start assms(2)]
  then have "gt_pending st = [] \<Longrightarrow> list_all (node_settled (execute_node net clock) workflow st) (wd_nodes workflow)"
    by (auto simp: graph_inv_def list_all_iff)
  with r show ?thesis by blast
qed

theorem workflow_scheduler_settles_every_node_witness:
  "\<exists>x st. run_loop still (wave_limit demo_net 20 (one_sided False EO_TRUE)) (execute_node demo_net still)
       (one_sided False EO_TRUE) (start_graph (one_sided False EO_TRUE) [(''flag'', PBool False)]) = (x, st) \<and>
     x = Inl WorkflowExecutionError \<and> gt_pending st = [] \<and>
     list_all (node_settled (execute_node demo_net still) (one_sided False EO_TRUE) st)
       (wd_nodes (one_sided False EO_TRUE))"
proof -
  let ?w = "one_sided False EO_TRUE"
  obtain x st where r: "run_loop still (wave_limit demo_net 20 ?w) (execute_node demo_net still) ?w
      (start_graph ?w [(''flag'', PBool False)]) = (x, st)" by (metis surj_pair)
  have x: "fst (run_loop still (wave_limit demo_net 20 ?w) (execute_node demo_net still) ?w
      (start_graph ?w [(''flag'', PBool False)])) = Inl WorkflowExecutionError"
    and p: "gt_pending (snd (run_loop still (wave_limit demo_net 20 ?w) (execute_node demo_net still) ?w
      (start_graph ?w [(''flag'', PBool False)]))) = []"
    by code_simp+
  have "wave_limit demo_net 20 ?w st ready \<noteq> Inl WorkflowExecutionError" for st ready
    using demo_limit [of False EO_TRUE st ready] by auto
  moreover have "execute_node demo_net still node vars \<noteq> Inl WorkflowExecutionError" for node vars
    using execute_node_error [of demo_net still node vars WorkflowExecutionError] by (auto simp: caught_by_node_def)
  ultimately show ?thesis
    using workflow_scheduler_settles_every_node [OF one_sided_valid(1) r] r x p by auto
qed

text \<open>A valid workflow whose edges are all unconditional completes, provided its nodes can be executed: the
  run reports one result per node, in the order of the definition.\<close>

theorem unconditional_workflow_completes:
  assumes "valid_workflow workflow" "wd_nodes workflow \<noteq> []"
    and "list_all (\<lambda>e. we_outcome e = EO_ALWAYS) (wd_edges workflow)"
    and "\<forall>node \<in> set (wd_nodes workflow). \<forall>context. \<exists>r. execute_node net clock node context = Inr r"
    and "\<forall>st ready. \<exists>n. wave_limit net m workflow st ready = Inr n"
  shows "\<exists>r. execute_workflow net clock m fresh started finished workflow variables i = Inr r \<and>
     dkeys (wr_node_results r) = map wn_id (wd_nodes workflow)"
proof -
  let ?c = "dmerge (wd_variables workflow) (case variables of None \<Rightarrow> [] | Some v \<Rightarrow> v)"
  have run: "\<exists>x r. execute_node net clock node context = Inr (x, r) \<and> nx_status x \<noteq> NS_SKIPPED"
    if "node \<in> set (wd_nodes workflow)" for node "context"
    using assms(4) that execute_node_not_skipped by (metis surj_pair)
  have start: "list_all (\<lambda>x. nx_status x \<noteq> NS_SKIPPED) (dvalues (gt_executions (start_graph workflow ?c)))"
    by (simp add: start_graph_def)
  have "\<And>st ready. \<exists>n. wave_limit net m workflow st ready = Inr n" using assms(5) by blast
  from unconditional_completes [where run = "execute_node net clock" and limit = "wave_limit net m workflow"
      and clock = clock, OF assms(1) graph_inv_start assms(3) start run this]
  obtain st where st: "run_loop clock (wave_limit net m workflow) (execute_node net clock) workflow
      (start_graph workflow ?c) = (Inr (), st)" by blast
  have "graph_inv (execute_node net clock) workflow st" "gt_pending st = []"
    using run_loop_settles [OF assms(1) graph_inv_start st] by auto
  then have "dkeys (ordered_results workflow st) = map wn_id (wd_nodes workflow)"
    using assms(1) by (intro ordered_results_keys) (auto simp: valid_workflow_def)
  then show ?thesis
    using assms(1,2) st by (simp add: execute_workflow_def validate_workflow_graph_result run_graph_def)
qed

theorem unconditional_workflow_completes_witness:
  "\<exists>r. execute_workflow demo_net still 20 ''run'' [] [] (one_sided False EO_ALWAYS) None None = Inr r \<and>
     dkeys (wr_node_results r) = [''check'', ''then'']"
proof -
  let ?w = "one_sided False EO_ALWAYS"
  have "list_all (\<lambda>e. we_outcome e = EO_ALWAYS) (wd_edges ?w)" "wd_nodes ?w \<noteq> []"
    "map wn_id (wd_nodes ?w) = [''check'', ''then'']"
    by (simp_all add: one_sided_def demo_node_def)
  with unconditional_workflow_completes [OF one_sided_valid(2), of demo_net still 20 "''run''" "[]" "[]" None None]
    demo_limit [of False EO_ALWAYS] demo_nodes_run [of _ False EO_ALWAYS]
  show ?thesis by auto
qed


text \<open>C31. Requests of HTTP nodes open connections to public addresses only: what a connection to an address that
  is not global would answer has no influence on the outcome of a workflow or of a debugged node, for any template,
  variable, host name and resolver.\<close>

theorem http_nodes_connect_to_public_addresses_only:
  assumes "\<forall>node address request. net_is_global net address \<longrightarrow> f node address request = net_urlopen net node address request"
  shows "execute_workflow (net\<lparr>net_urlopen := f\<rparr>) clock m fresh started finished workflow variables i =
      execute_workflow net clock m fresh started finished workflow variables i \<and>
    debug_workflow (net\<lparr>net_urlopen := f\<rparr>) clock fresh started finished workflow node_id variables i =
      debug_workflow net clock fresh started finished workflow node_id variables i"
proof -
  have "execute_node (net\<lparr>net_urlopen := f\<rparr>) clock = execute_node net clock"
    using assms by (simp add: fun_eq_iff execute_node_public)
  then show ?thesis
    by (auto simp: execute_workflow_def debug_workflow_def run_graph_def rbind_def Let_def split: option.split sum.split)
qed

theorem http_nodes_connect_to_public_addresses_only_witness:
  "execute_workflow (demo_net\<lparr>net_urlopen := (\<lambda>n a q. if a = ''1.1.1.1'' then net_urlopen demo_net n a q else Inl HTTPError)\<rparr>)
       still 20 ''run'' [] [] (one_request ''10.0.0.1'') None None =
     execute_workflow demo_net still 20 ''run'' [] [] (one_request ''10.0.0.1'') None None"
  using http_nodes_connect_to_public_addresses_only [of demo_net
      "\<lambda>n a q. if a = ''1.1.1.1'' then net_urlopen demo_net n a q else Inl HTTPError" still 20 "''run''" "[]" "[]"
      "one_request ''10.0.0.1''" None None]
  by (simp add: demo_net_def)

text \<open>A wave runs at least one node at a time and never more than the executor allows, than there are ready
  nodes, or than any parallel node that activated one of them allows.\<close>

theorem wave_concurrency_is_bounded:
  assumes "wave_limit net m workflow st ready = Inr n" "1 \<le> m"
  shows "1 \<le> n \<and> n \<le> m \<and> n \<le> max 1 (int (length ready)) \<and>
    (\<forall>source \<in> set (parallel_sources workflow st ready). \<forall>k.
       py_int net (get_or (wn_config source) ''max_concurrency'' (PInt 2)) = Inr k \<longrightarrow> n \<le> max 1 k)"
proof -
  let ?f = "\<lambda>source. py_int net (get_or (wn_config source) ''max_concurrency'' (PInt 2))"
  obtain limits where l: "collect (map ?f (parallel_sources workflow st ready)) = Inr limits"
    "n = max 1 (foldl min (int (length ready)) (m # limits))"
    using assms(1) by (auto simp: wave_limit_def)
  define F where "F = foldl min (int (length ready)) (m # limits)"
  have le: "F \<le> int (length ready)" "\<And>k. k \<in> set (m # limits) \<Longrightarrow> F \<le> k"
    using foldl_min_le [of "int (length ready)" "m # limits"] unfolding F_def by blast+
  have n: "n = max 1 F" using l(2) unfolding F_def .
  have "n \<le> max 1 k" if "source \<in> set (parallel_sources workflow st ready)" "?f source = Inr k" for source k
  proof -
    have "k \<in> set (m # limits)" using collect_member [where f = ?f, OF l(1) that] by simp
    then show ?thesis using le(2) n by fastforce
  qed
  moreover have "F \<le> m" using le(2) by simp
  ultimately show ?thesis using assms(2) le(1) n by (intro conjI ballI allI impI) auto
qed

theorem wave_concurrency_is_bounded_witness:
  "\<exists>n. wave_limit demo_net 20 (one_sided False EO_TRUE) (start_graph (one_sided False EO_TRUE) [])
       (wd_nodes (one_sided False EO_TRUE)) = Inr n \<and> 1 \<le> n \<and> n \<le> 2"
proof -
  let ?w = "one_sided False EO_TRUE"
  have "wave_limit demo_net 20 ?w (start_graph ?w []) (wd_nodes ?w) = Inr 2" by code_simp
  from wave_concurrency_is_bounded [OF this] this show ?thesis by simp
qed

end
