(* ===== verification/Secret_Broker.thy ===== *)
theory Secret_Broker
  imports Environment_Repo Run_Repo
begin

text \<open>
  The secret broker of \<^verbatim>\<open>services/secret_broker.py\<close> and its two grant stores: the one in memory and the SQL one
  of \<^verbatim>\<open>services/api/secret_grant_sql_repository.py\<close>.

  A store is the record of its operations, as the broker holds it. \<open>attempts\<close> is \<open>get_attempt\<close> of the run
  repository at the moment of the call. The SQL store works on the rows of one table: columns that hold
  \<open>str(uuid)\<close> are written as the identifier, an \<open>UPDATE\<close> is checked against the constraints of the table, and
  a transaction that raises leaves the table as it was.
\<close>

section \<open>Grants\<close>

type_synonym attempt_reader = "uuid \<Rightarrow> AttemptRecord res"

definition ACTIVE_SECRET_STATES :: "AttemptState list" where
  "ACTIVE_SECRET_STATES = [A_PREPARING, A_RUNNING]"

record SecretGrantBinding =
  gb_task_id :: uuid
  gb_tenant_id :: uuid
  gb_project_id :: uuid
  gb_run_id :: uuid
  gb_attempt_id :: uuid
  gb_runner_id :: string
  gb_environment_id :: uuid
  gb_environment_revision :: int
  gb_secret_references :: "SecretReference list"

record SecretGrantRecord =
  gr_id :: uuid
  gr_token_digest :: string
  gr_binding :: SecretGrantBinding
  gr_issued_at :: time
  gr_expires_at :: time
  gr_consumed_at :: "time option"
  gr_revoked_at :: "time option"

record 's GrantStore =
  st_issue :: "attempt_reader \<Rightarrow> SecretGrantRecord \<Rightarrow> time \<Rightarrow> ('s, SecretGrantRecord) pyop"
  st_consume :: "attempt_reader \<Rightarrow> string \<Rightarrow> SecretGrantBinding \<Rightarrow> time \<Rightarrow> ('s, SecretGrantRecord) pyop"
  st_revoke :: "string \<Rightarrow> time \<Rightarrow> ('s, unit) pyop"
  st_revoke_attempt :: "uuid \<Rightarrow> time \<Rightarrow> ('s, nat) pyop"

section \<open>The store in memory\<close>

type_synonym grant_dict = "(string, SecretGrantRecord) dict"

definition valid_attempt :: "attempt_reader \<Rightarrow> SecretGrantBinding \<Rightarrow> time \<Rightarrow> AttemptRecord res" where
  "valid_attempt attempts binding now =
     (case attempts (gb_attempt_id binding) of
        Inl _ \<Rightarrow> Inl CapabilityRejected
      | Inr attempt \<Rightarrow>
          if at_run_id attempt \<noteq> gb_run_id binding \<or> at_runner_id attempt \<noteq> Some (gb_runner_id binding) \<or>
             at_state attempt \<notin> set ACTIVE_SECRET_STATES \<or>
             (case at_lease_expires_at attempt of None \<Rightarrow> True | Some lease \<Rightarrow> lease \<le> now)
          then Inl CapabilityRejected else Inr attempt)"

definition usable :: "SecretGrantRecord \<Rightarrow> bool" where
  "usable r \<longleftrightarrow> gr_consumed_at r = None \<and> gr_revoked_at r = None"

definition mem_issue :: "attempt_reader \<Rightarrow> SecretGrantRecord \<Rightarrow> time \<Rightarrow> (grant_dict, SecretGrantRecord) pyop" where
  "mem_issue attempts record now =
     bind (lift (valid_attempt attempts (gr_binding record) now)) (\<lambda>attempt.
     case at_lease_expires_at attempt of
       None \<Rightarrow> raise CapabilityRejected
     | Some lease \<Rightarrow>
         (let expires_at = min (gr_expires_at record) lease in
          bind (reads (\<lambda>records. gr_token_digest record \<in> set (dkeys records))) (\<lambda>known.
          if expires_at \<le> now \<or> known then raise CapabilityRejected
          else
            (let stored = record\<lparr>gr_expires_at := expires_at\<rparr> in
             bind (writes (dset (gr_token_digest record) stored)) (\<lambda>_. ret stored)))))"

definition mem_consume ::
  "attempt_reader \<Rightarrow> string \<Rightarrow> SecretGrantBinding \<Rightarrow> time \<Rightarrow> (grant_dict, SecretGrantRecord) pyop" where
  "mem_consume attempts token_digest binding now =
     bind (lift (valid_attempt attempts binding now)) (\<lambda>_.
     bind (reads (\<lambda>records. dget records token_digest)) (\<lambda>found.
     case found of
       None \<Rightarrow> raise CapabilityRejected
     | Some record \<Rightarrow>
         if gr_binding record \<noteq> binding \<or> gr_expires_at record \<le> now \<or> \<not> usable record
         then raise CapabilityRejected
         else
           (let consumed = record\<lparr>gr_consumed_at := Some now\<rparr> in
            bind (writes (dset token_digest consumed)) (\<lambda>_. ret consumed))))"

definition mem_revoke :: "string \<Rightarrow> time \<Rightarrow> (grant_dict, unit) pyop" where
  "mem_revoke token_digest now =
     bind (reads (\<lambda>records. dget records token_digest)) (\<lambda>found.
     case found of
       None \<Rightarrow> ret ()
     | Some record \<Rightarrow>
         if usable record then writes (dset token_digest (record\<lparr>gr_revoked_at := Some now\<rparr>)) else ret ())"

definition revokes :: "uuid \<Rightarrow> SecretGrantRecord \<Rightarrow> bool" where
  "revokes attempt_id record \<longleftrightarrow> gb_attempt_id (gr_binding record) = attempt_id \<and> usable record"

fun mem_revoke_loop :: "uuid \<Rightarrow> time \<Rightarrow> (string \<times> SecretGrantRecord) list \<Rightarrow> (grant_dict, nat) pyop" where
  "mem_revoke_loop attempt_id now [] = ret 0"
| "mem_revoke_loop attempt_id now ((digest, record) # rest) =
     (if revokes attempt_id record
      then
        bind (writes (dset digest (record\<lparr>gr_revoked_at := Some now\<rparr>))) (\<lambda>_.
        bind (mem_revoke_loop attempt_id now rest) (\<lambda>n. ret (n + 1)))
      else mem_revoke_loop attempt_id now rest)"

definition mem_revoke_attempt :: "uuid \<Rightarrow> time \<Rightarrow> (grant_dict, nat) pyop" where
  "mem_revoke_attempt attempt_id now =
     bind (reads (\<lambda>records. records)) (\<lambda>items. mem_revoke_loop attempt_id now items)"

definition mem_store :: "grant_dict GrantStore" where
  "mem_store = \<lparr>st_issue = mem_issue, st_consume = mem_consume, st_revoke = mem_revoke,
     st_revoke_attempt = mem_revoke_attempt\<rparr>"

section \<open>The SQL store\<close>

type_synonym manifest = "(string \<times> string \<times> uuid) list"

record GrantRow =
  gw_id :: uuid
  gw_token_digest :: string
  gw_task_id :: uuid
  gw_tenant_id :: uuid
  gw_project_id :: uuid
  gw_run_id :: uuid
  gw_attempt_id :: uuid
  gw_runner_id :: string
  gw_environment_id :: uuid
  gw_environment_revision :: int
  gw_reference_manifest :: manifest
  gw_issued_at :: time
  gw_expires_at :: time
  gw_consumed_at :: "time option"
  gw_revoked_at :: "time option"

definition grant_manifest :: "SecretGrantBinding \<Rightarrow> manifest" where
  "grant_manifest binding = map reference_key (gb_secret_references binding)"

definition to_model :: "SecretGrantRecord \<Rightarrow> GrantRow" where
  "to_model record =
     (let binding = gr_binding record in
      \<lparr>gw_id = gr_id record, gw_token_digest = gr_token_digest record, gw_task_id = gb_task_id binding,
       gw_tenant_id = gb_tenant_id binding, gw_project_id = gb_project_id binding, gw_run_id = gb_run_id binding,
       gw_attempt_id = gb_attempt_id binding, gw_runner_id = gb_runner_id binding,
       gw_environment_id = gb_environment_id binding, gw_environment_revision = gb_environment_revision binding,
       gw_reference_manifest = grant_manifest binding, gw_issued_at = gr_issued_at record,
       gw_expires_at = gr_expires_at record, gw_consumed_at = gr_consumed_at record,
       gw_revoked_at = gr_revoked_at record\<rparr>)"

text \<open>\<open>SecretReference.model_validate\<close> of one entry of the manifest.\<close>

definition parse_category :: "string \<Rightarrow> ConfigurationCategory res" where
  "parse_category s =
     (if s = category_value ENVIRONMENT_VARIABLE then Inr ENVIRONMENT_VARIABLE
      else if s = category_value COMMON_PARAMETER then Inr COMMON_PARAMETER else Inl ValueError)"

definition parse_reference :: "string \<times> string \<times> uuid \<Rightarrow> SecretReference res" where
  "parse_reference entry = (case entry of (category, name, ref) \<Rightarrow>
     rbind (parse_category category) (\<lambda>c.
     validate_SecretReference \<lparr>sr_category = c, sr_name = name, sr_secret_ref = ref\<rparr>))"

fun parse_manifest :: "manifest \<Rightarrow> SecretReference list res" where
  "parse_manifest [] = Inr []"
| "parse_manifest (entry # rest) =
     rbind (parse_reference entry) (\<lambda>r. rbind (parse_manifest rest) (\<lambda>rs. Inr (r # rs)))"

definition to_record :: "GrantRow \<Rightarrow> SecretGrantRecord res" where
  "to_record row =
     (case parse_manifest (gw_reference_manifest row) of
        Inl _ \<Rightarrow> Inl CapabilityRejected
      | Inr references \<Rightarrow>
          Inr \<lparr>gr_id = gw_id row, gr_token_digest = gw_token_digest row,
               gr_binding = \<lparr>gb_task_id = gw_task_id row, gb_tenant_id = gw_tenant_id row,
                 gb_project_id = gw_project_id row, gb_run_id = gw_run_id row, gb_attempt_id = gw_attempt_id row,
                 gb_runner_id = gw_runner_id row, gb_environment_id = gw_environment_id row,
                 gb_environment_revision = gw_environment_revision row, gb_secret_references = references\<rparr>,
               gr_issued_at = gw_issued_at row, gr_expires_at = gw_expires_at row,
               gr_consumed_at = gw_consumed_at row, gr_revoked_at = gw_revoked_at row\<rparr>)"

text \<open>The check constraints of the table, and a transaction that rolls back when it raises.\<close>

definition row_constraints :: "GrantRow \<Rightarrow> bool" where
  "row_constraints row \<longleftrightarrow> gw_expires_at row > gw_issued_at row \<and>
     (case gw_consumed_at row of None \<Rightarrow> True | Some c \<Rightarrow> c \<ge> gw_issued_at row) \<and>
     (case gw_revoked_at row of None \<Rightarrow> True | Some c \<Rightarrow> c \<ge> gw_issued_at row) \<and>
     (gw_consumed_at row = None \<or> gw_revoked_at row = None)"

definition transaction :: "('s, 'a) pyop \<Rightarrow> ('s, 'a) pyop" where
  "transaction m s = (case m s of (Inl e, _) \<Rightarrow> (Inl e, s) | (Inr x, t) \<Rightarrow> (Inr x, t))"

definition rejecting :: "('s, 'a) pyop \<Rightarrow> ('s, 'a) pyop" where
  "rejecting m = catch (transaction m) (\<lambda>_. raise CapabilityRejected)"

definition insert_row :: "(uuid \<Rightarrow> int \<Rightarrow> bool) \<Rightarrow> GrantRow \<Rightarrow> (GrantRow list, unit) pyop" where
  "insert_row revision_exists row =
     bind (reads (\<lambda>table. gw_token_digest row \<in> set (map gw_token_digest table) \<or> gw_id row \<in> set (map gw_id table))) (\<lambda>known.
     if known \<or> \<not> row_constraints row \<or> \<not> revision_exists (gw_environment_id row) (gw_environment_revision row)
     then raise (OtherException ''IntegrityError'')
     else writes (\<lambda>table. table @ [row]))"

definition update_rows :: "(GrantRow \<Rightarrow> bool) \<Rightarrow> (GrantRow \<Rightarrow> GrantRow) \<Rightarrow> (GrantRow list, nat) pyop" where
  "update_rows matches change table =
     (let changed = map (\<lambda>row. if matches row then change row else row) table in
      if list_all row_constraints changed then (Inr (length (filter matches table)), changed)
      else (Inl (OtherException ''IntegrityError''), table))"

definition sql_issue ::
  "(uuid \<Rightarrow> int \<Rightarrow> bool) \<Rightarrow> attempt_reader \<Rightarrow> SecretGrantRecord \<Rightarrow> time \<Rightarrow> (GrantRow list, SecretGrantRecord) pyop" where
  "sql_issue revision_exists attempts record now =
     rejecting
       (bind (lift (valid_attempt attempts (gr_binding record) now)) (\<lambda>attempt.
        case at_lease_expires_at attempt of
          None \<Rightarrow> raise CapabilityRejected
        | Some lease \<Rightarrow>
            (let expires_at = min (gr_expires_at record) lease in
             if expires_at \<le> now then raise CapabilityRejected
             else
               (let stored = \<lparr>gr_id = gr_id record, gr_token_digest = gr_token_digest record,
                      gr_binding = gr_binding record, gr_issued_at = gr_issued_at record, gr_expires_at = expires_at,
                      gr_consumed_at = None, gr_revoked_at = None\<rparr> in
                bind (insert_row revision_exists (to_model stored)) (\<lambda>_. ret stored)))))"

definition row_open :: "GrantRow \<Rightarrow> bool" where
  "row_open row \<longleftrightarrow> gw_consumed_at row = None \<and> gw_revoked_at row = None"

definition row_matches :: "string \<Rightarrow> SecretGrantBinding \<Rightarrow> time \<Rightarrow> GrantRow \<Rightarrow> bool" where
  "row_matches token_digest binding now row \<longleftrightarrow>
     gw_token_digest row = token_digest \<and> gw_task_id row = gb_task_id binding \<and>
     gw_tenant_id row = gb_tenant_id binding \<and> gw_project_id row = gb_project_id binding \<and>
     gw_run_id row = gb_run_id binding \<and> gw_attempt_id row = gb_attempt_id binding \<and>
     gw_runner_id row = gb_runner_id binding \<and> gw_environment_id row = gb_environment_id binding \<and>
     gw_environment_revision row = gb_environment_revision binding \<and>
     gw_reference_manifest row = grant_manifest binding \<and> gw_expires_at row > now \<and> row_open row"

definition sql_consume ::
  "attempt_reader \<Rightarrow> string \<Rightarrow> SecretGrantBinding \<Rightarrow> time \<Rightarrow> (GrantRow list, SecretGrantRecord) pyop" where
  "sql_consume attempts token_digest binding now =
     rejecting
       (bind (lift (valid_attempt attempts binding now)) (\<lambda>_.
        bind (update_rows (row_matches token_digest binding now) (\<lambda>row. row\<lparr>gw_consumed_at := Some now\<rparr>)) (\<lambda>rowcount.
        if rowcount \<noteq> 1 then raise CapabilityRejected
        else
          bind (reads (find (\<lambda>row. gw_token_digest row = token_digest))) (\<lambda>model.
          case model of None \<Rightarrow> raise CapabilityRejected | Some row \<Rightarrow> lift (to_record row)))))"

definition sql_revoke :: "string \<Rightarrow> time \<Rightarrow> (GrantRow list, unit) pyop" where
  "sql_revoke token_digest now =
     rejecting
       (bind (update_rows (\<lambda>row. gw_token_digest row = token_digest \<and> row_open row)
                (\<lambda>row. row\<lparr>gw_revoked_at := Some now\<rparr>)) (\<lambda>_. ret ()))"

definition sql_revoke_attempt :: "uuid \<Rightarrow> time \<Rightarrow> (GrantRow list, nat) pyop" where
  "sql_revoke_attempt attempt_id now =
     rejecting
       (update_rows (\<lambda>row. gw_attempt_id row = attempt_id \<and> row_open row) (\<lambda>row. row\<lparr>gw_revoked_at := Some now\<rparr>))"

definition sql_store :: "(uuid \<Rightarrow> int \<Rightarrow> bool) \<Rightarrow> GrantRow list GrantStore" where
  "sql_store revision_exists = \<lparr>st_issue = sql_issue revision_exists, st_consume = sql_consume, st_revoke = sql_revoke,
     st_revoke_attempt = sql_revoke_attempt\<rparr>"

section \<open>The broker\<close>

text \<open>\<open>sha256_hex\<close> is the digest of a UTF-8 token; \<open>token\<close>, \<open>fresh\<close> and \<open>now\<close> are the random and clock readings.\<close>

definition make_broker :: "int \<Rightarrow> int res" where
  "make_broker ttl_seconds = (if ttl_seconds \<le> 0 then Inl ValueError else Inr (seconds ttl_seconds))"

definition grant_binding :: "TaskEnvelope \<Rightarrow> string \<Rightarrow> SecretReference list \<Rightarrow> SecretGrantBinding res" where
  "grant_binding task runner_id references =
     (case (tk_environment_id task, tk_environment_revision task) of
        (Some environment_id, Some revision) \<Rightarrow>
          Inr \<lparr>gb_task_id = tk_task_id task, gb_tenant_id = tk_tenant_id task, gb_project_id = tk_project_id task,
               gb_run_id = en_run_id task, gb_attempt_id = en_attempt_id task, gb_runner_id = runner_id,
               gb_environment_id = environment_id, gb_environment_revision = revision,
               gb_secret_references = references\<rparr>
      | _ \<Rightarrow> Inl CapabilityRejected)"

definition rejected :: "'a res \<Rightarrow> 'a res" where
  "rejected r = (case r of Inl _ \<Rightarrow> Inl CapabilityRejected | Inr x \<Rightarrow> Inr x)"

definition broker_issue ::
  "'s GrantStore \<Rightarrow> attempt_reader \<Rightarrow> revision_reader \<Rightarrow> (string \<Rightarrow> string) \<Rightarrow> time \<Rightarrow> time \<Rightarrow> string \<Rightarrow> uuid \<Rightarrow>
   TaskEnvelope \<Rightarrow> string \<Rightarrow> ('s, string) pyop" where
  "broker_issue store attempts reader sha256_hex ttl now token fresh task runner_id =
     (case (tk_environment_id task, tk_environment_revision task) of
        (Some environment_id, Some revision) \<Rightarrow>
          if tk_secret_references task = [] \<or> runner_id = [] then raise CapabilityRejected
          else
            bind (lift (rejected (validate_secret_references reader (tk_project_id task) environment_id revision
                                    (tk_secret_references task)))) (\<lambda>references.
            bind (lift (grant_binding task runner_id references)) (\<lambda>binding.
            bind (catch (st_issue store attempts
                     \<lparr>gr_id = fresh, gr_token_digest = sha256_hex (utf8_encode token), gr_binding = binding,
                      gr_issued_at = now, gr_expires_at = min (now + ttl) (tk_deadline task),
                      gr_consumed_at = None, gr_revoked_at = None\<rparr> now)
                   (\<lambda>_. raise CapabilityRejected)) (\<lambda>_.
            ret token)))
      | _ \<Rightarrow> raise CapabilityRejected)"

definition redeem ::
  "'s GrantStore \<Rightarrow> attempt_reader \<Rightarrow> Crypto \<Rightarrow> SecretEncryptor \<Rightarrow> revision_reader \<Rightarrow> (string \<Rightarrow> string) \<Rightarrow> time \<Rightarrow>
   string \<Rightarrow> TaskEnvelope \<Rightarrow> string \<Rightarrow> ('s, ResolvedSecretValue list) pyop" where
  "redeem store attempts cy se reader sha256_hex now token task runner_id =
     bind (catch
       (bind (lift (canonical_secret_references (tk_secret_references task))) (\<lambda>references.
        bind (lift (grant_binding task runner_id references)) (\<lambda>binding.
        bind (st_consume store attempts (sha256_hex (utf8_encode token)) binding now) (\<lambda>_.
        ret binding))))
       (\<lambda>_. raise CapabilityRejected)) (\<lambda>binding.
     lift (rejected (resolve_secret_values cy se reader (gb_project_id binding) (gb_environment_id binding)
       (gb_environment_revision binding) (gb_secret_references binding))))"

definition broker_revoke :: "'s GrantStore \<Rightarrow> (string \<Rightarrow> string) \<Rightarrow> time \<Rightarrow> string \<Rightarrow> ('s, unit) pyop" where
  "broker_revoke store sha256_hex now token =
     catch (st_revoke store (sha256_hex (utf8_encode token)) now) (\<lambda>_. raise CapabilityRejected)"

definition broker_revoke_attempt :: "'s GrantStore \<Rightarrow> time \<Rightarrow> uuid \<Rightarrow> ('s, nat) pyop" where
  "broker_revoke_attempt store now attempt_id =
     catch (st_revoke_attempt store attempt_id now) (\<lambda>_. raise CapabilityRejected)"

end
