(* ===== verification/Broker_Facts.thy ===== *)
theory Broker_Facts
  imports Secret_Broker Environment_Facts Retry_Decision
begin

text \<open>
  What secret capabilities guarantee. The locale \<open>grant_store\<close> is the contract the broker needs from a store:
  each operation behaves as the store in memory does on the grants the state represents, or refuses and changes
  nothing. Both stores are instances; that a capability is redeemed at most once is proved in the locale.
\<close>

section \<open>The store in memory\<close>

definition grants_ok :: "grant_dict \<Rightarrow> bool" where
  "grants_ok d \<longleftrightarrow> wf_dict d \<and> list_all (\<lambda>(k, r). gr_token_digest r = k) d"

lemma dset_in_place:
  "wf_dict d \<Longrightarrow> k \<in> fst ` set d \<Longrightarrow> dset k v d = map (\<lambda>(k', r). (k', if k' = k then v else r)) d"
proof (induction d)
  case (Cons p d)
  obtain a b where p: "p = (a, b)" by (cases p)
  have "map (\<lambda>(k', r). (k', if k' = a then v else r)) d = d"
    using Cons.prems(1) p by (intro map_idI) (force simp: wf_dict_def)
  then show ?case using Cons p by (auto simp: wf_dict_def)
qed simp

definition revoked_by :: "uuid \<Rightarrow> time \<Rightarrow> SecretGrantRecord \<Rightarrow> SecretGrantRecord" where
  "revoked_by attempt_id now r = (if revokes attempt_id r then r\<lparr>gr_revoked_at := Some now\<rparr> else r)"

lemma mem_revoke_loop_result:
  "wf_dict (xs @ ys) \<Longrightarrow>
   mem_revoke_loop a now ys (map (apsnd (revoked_by a now)) xs @ ys) =
     (Inr (length (filter (revokes a \<circ> snd) ys)), map (apsnd (revoked_by a now)) (xs @ ys))"
proof (induction ys arbitrary: xs)
  case (Cons p ys)
  obtain k r where p: "p = (k, r)" by (cases p)
  have k: "k \<notin> fst ` set xs" using Cons.prems p by (auto simp: wf_dict_def)
  have upd: "dset k v (map (apsnd (revoked_by a now)) xs @ (k, r) # ys) =
      map (apsnd (revoked_by a now)) xs @ (k, v) # ys" for v
    using k by (induction xs) auto
  have "wf_dict ((xs @ [p]) @ ys)" using Cons.prems by simp
  note ih = Cons.IH [OF this]
  have r: "revokes a r \<Longrightarrow> revoked_by a now r = r\<lparr>gr_revoked_at := Some now\<rparr>" "\<not> revokes a r \<Longrightarrow> revoked_by a now r = r"
    by (simp_all add: revoked_by_def)
  show ?case
  proof (cases "revokes a r")
    case True
    then show ?thesis using ih r(1) p by (simp add: bind_def upd)
  next
    case False
    then show ?thesis using ih r(2) p by simp
  qed
qed simp

lemma mem_revoke_attempt_result:
  "wf_dict d \<Longrightarrow> mem_revoke_attempt a now d =
     (Inr (length (filter (revokes a \<circ> snd) d)), map (apsnd (revoked_by a now)) d)"
  using mem_revoke_loop_result [of "[]" d a now] by (simp add: mem_revoke_attempt_def bind_def)

lemma mem_issue_cases:
  obtains (refused) "mem_issue a rec now d = (Inl CapabilityRejected, d)"
  | (issued) lease att where "valid_attempt a (gr_binding rec) now = Inr att" "at_lease_expires_at att = Some lease"
      "now < min (gr_expires_at rec) lease" "gr_token_digest rec \<notin> fst ` set d"
      "mem_issue a rec now d = (Inr (rec\<lparr>gr_expires_at := min (gr_expires_at rec) lease\<rparr>),
         dset (gr_token_digest rec) (rec\<lparr>gr_expires_at := min (gr_expires_at rec) lease\<rparr>) d)"
proof (cases "valid_attempt a (gr_binding rec) now")
  case (Inl e)
  then have "e = CapabilityRejected" by (auto simp: valid_attempt_def split: sum.splits if_splits)
  then show thesis using Inl refused by (simp add: mem_issue_def bind_def)
next
  case (Inr att)
  show thesis
  proof (cases "at_lease_expires_at att")
    case None
    then show thesis using Inr refused by (simp add: mem_issue_def bind_def)
  next
    case (Some lease)
    show thesis
    proof (cases "min (gr_expires_at rec) lease \<le> now \<or> gr_token_digest rec \<in> fst ` set d")
      case True
      then show thesis using Inr Some refused by (simp add: mem_issue_def bind_def Let_def)
    next
      case False
      then have "mem_issue a rec now d = (Inr (rec\<lparr>gr_expires_at := min (gr_expires_at rec) lease\<rparr>),
         dset (gr_token_digest rec) (rec\<lparr>gr_expires_at := min (gr_expires_at rec) lease\<rparr>) d)"
        using Inr Some by (simp add: mem_issue_def bind_def Let_def)
      moreover have "now < min (gr_expires_at rec) lease" "gr_token_digest rec \<notin> fst ` set d"
        using False by auto
      ultimately show thesis using issued [OF Inr Some] by blast
    qed
  qed
qed

definition consumable :: "attempt_reader \<Rightarrow> SecretGrantBinding \<Rightarrow> time \<Rightarrow> SecretGrantRecord \<Rightarrow> bool" where
  "consumable a b now r \<longleftrightarrow> gr_binding r = b \<and> now < gr_expires_at r \<and> usable r"

lemma mem_consume_result:
  "mem_consume a k b now d =
     (if (\<exists>att. valid_attempt a b now = Inr att) then
        (case dget d k of
           None \<Rightarrow> (Inl CapabilityRejected, d)
         | Some r \<Rightarrow> if consumable a b now r
             then (Inr (r\<lparr>gr_consumed_at := Some now\<rparr>), dset k (r\<lparr>gr_consumed_at := Some now\<rparr>) d)
             else (Inl CapabilityRejected, d))
      else (Inl CapabilityRejected, d))"
proof (cases "valid_attempt a b now")
  case (Inl e)
  then have "e = CapabilityRejected" by (auto simp: valid_attempt_def split: sum.splits if_splits)
  then show ?thesis using Inl by (simp add: mem_consume_def bind_def)
next
  case (Inr att)
  then show ?thesis
    by (auto simp: mem_consume_def bind_def consumable_def Let_def not_le split: option.split)
qed

text \<open>A grant that was consumed or revoked.\<close>

definition spent :: "string \<Rightarrow> grant_dict \<Rightarrow> bool" where
  "spent k d \<longleftrightarrow> (case dget d k of None \<Rightarrow> False | Some r \<Rightarrow> \<not> usable r)"

lemma spent_dset: "spent k d \<Longrightarrow> k \<noteq> k' \<or> \<not> usable v \<Longrightarrow> spent k (dset k' v d)"
  by (cases "k = k'") (auto simp: spent_def)

lemma mem_spent:
  assumes "wf_dict d" "spent k d"
  shows "spent k (snd (mem_issue a rec now d))" "spent k (snd (mem_consume a k' b now d))"
    "spent k (snd (mem_revoke k' now d))" "spent k (snd (mem_revoke_attempt i now d))"
proof -
  have key: "k \<in> fst ` set d" using assms(2)
    by (cases "k \<in> fst ` set d") (auto simp: spent_def map_of_eq_None_iff [symmetric] split: option.splits)
  show "spent k (snd (mem_issue a rec now d))"
  proof (cases a rec now d rule: mem_issue_cases)
    case (issued lease att)
    then have "k \<noteq> gr_token_digest rec" using key by metis
    then show ?thesis using issued(5) assms(2) by (simp add: spent_dset)
  qed (use assms(2) in simp)
  show "spent k (snd (mem_consume a k' b now d))"
    using assms(2)
    by (auto simp: mem_consume_result spent_def usable_def dget_dset split: option.splits)
  show "spent k (snd (mem_revoke k' now d))"
    using assms(2) by (auto simp: mem_revoke_def bind_def spent_def usable_def dget_dset split: option.splits)
  have "dget (map (apsnd f) d) k = map_option f (dget d k)" for f :: "SecretGrantRecord \<Rightarrow> SecretGrantRecord"
    by (induction d) auto
  then show "spent k (snd (mem_revoke_attempt i now d))"
    using assms by (auto simp: mem_revoke_attempt_result spent_def revoked_by_def usable_def split: option.splits)
qed

lemma mem_grants_ok:
  assumes "grants_ok d"
  shows "grants_ok (snd (mem_issue a rec now d))" "grants_ok (snd (mem_consume a k b now d))"
    "grants_ok (snd (mem_revoke k now d))" "grants_ok (snd (mem_revoke_attempt i now d))"
proof -
  have wf: "wf_dict d" and keys: "\<And>k r. (k, r) \<in> set d \<Longrightarrow> gr_token_digest r = k"
    using assms by (auto simp: grants_ok_def list_all_iff)
  have upd: "grants_ok (dset k v d)" if "gr_token_digest v = k" for k v
    using wf keys that by (auto simp: grants_ok_def list_all_iff dset_entries)
  have got: "dget d k = Some r \<Longrightarrow> gr_token_digest r = k" for k r using keys by (auto dest: map_of_SomeD)
  show "grants_ok (snd (mem_issue a rec now d))"
    by (cases a rec now d rule: mem_issue_cases) (use assms in \<open>auto intro!: upd\<close>)
  show "grants_ok (snd (mem_consume a k b now d))"
    using assms got by (auto simp: mem_consume_result intro!: upd split: option.splits)
  show "grants_ok (snd (mem_revoke k now d))"
    using assms got by (auto simp: mem_revoke_def bind_def intro!: upd split: option.splits)
  show "grants_ok (snd (mem_revoke_attempt i now d))"
    using wf keys by (auto simp: mem_revoke_attempt_result grants_ok_def list_all_iff wf_dict_def revoked_by_def comp_def)
qed

section \<open>The contract of a store\<close>

text \<open>References that passed the checks of \<open>SecretReference\<close>, in a grant that was not used yet.\<close>

definition references_ok :: "SecretGrantRecord \<Rightarrow> bool" where
  "references_ok r \<longleftrightarrow> list_all (\<lambda>x. validate_SecretReference x = Inr x) (gb_secret_references (gr_binding r))"

definition fresh_grant :: "SecretGrantRecord \<Rightarrow> bool" where
  "fresh_grant r \<longleftrightarrow> usable r \<and> references_ok r"

text \<open>\<open>mem\<close> is what the operation does in memory; \<open>view\<close> reads the grants off a state.\<close>

definition agrees :: "('s \<Rightarrow> grant_dict) \<Rightarrow> ('s, 'a) pyop \<Rightarrow> (grant_dict, 'a) pyop \<Rightarrow> 's \<Rightarrow> bool" where
  "agrees view m mem s \<longleftrightarrow> map_prod id view (m s) = mem (view s)"

definition refuses :: "('s, 'a) pyop \<Rightarrow> 's \<Rightarrow> bool" where
  "refuses m s \<longleftrightarrow> m s = (Inl CapabilityRejected, s)"

text \<open>No grant was issued after \<open>now\<close>: the clock did not go back.\<close>

definition timely :: "time \<Rightarrow> grant_dict \<Rightarrow> bool" where
  "timely now d \<longleftrightarrow> list_all (\<lambda>(_, r). gr_issued_at r \<le> now) d"

inductive grant_step :: "'s GrantStore \<Rightarrow> 's \<Rightarrow> 's \<Rightarrow> bool" for store where
  g_issue: "fresh_grant rec \<Longrightarrow> grant_step store s (snd (st_issue store a rec now s))"
| g_consume: "grant_step store s (snd (st_consume store a k b now s))"
| g_revoke: "grant_step store s (snd (st_revoke store k now s))"
| g_revoke_attempt: "grant_step store s (snd (st_revoke_attempt store i now s))"

locale grant_store =
  fixes store :: "'s GrantStore" and view :: "'s \<Rightarrow> grant_dict" and good :: "'s \<Rightarrow> bool"
  assumes good_view: "good s \<Longrightarrow> grants_ok (view s)"
    and good_step: "good s \<Longrightarrow> grant_step store s t \<Longrightarrow> good t"
    and issue_safe: "good s \<Longrightarrow> fresh_grant rec \<Longrightarrow>
      refuses (st_issue store a rec now) s \<or> agrees view (st_issue store a rec now) (mem_issue a rec now) s"
    and consume_safe: "good s \<Longrightarrow>
      refuses (st_consume store a k b now) s \<or> agrees view (st_consume store a k b now) (mem_consume a k b now) s"
    and revoke_safe: "good s \<Longrightarrow>
      refuses (st_revoke store k now) s \<or> agrees view (st_revoke store k now) (mem_revoke k now) s"
    and revoke_attempt_safe: "good s \<Longrightarrow>
      refuses (st_revoke_attempt store i now) s \<or>
      agrees view (st_revoke_attempt store i now) (mem_revoke_attempt i now) s"
begin

lemma agreed_state: "refuses m s \<or> agrees view m mem s \<Longrightarrow> view (snd (m s)) = view s \<or> view (snd (m s)) = snd (mem (view s))"
  unfolding refuses_def agrees_def by (metis map_prod_simp prod.collapse snd_conv)

lemma step_spent:
  assumes "good s" "grant_step store s t" "spent k (view s)"
  shows "spent k (view t)"
proof -
  have wf: "wf_dict (view s)" using good_view [OF assms(1)] by (simp add: grants_ok_def)
  note mem = mem_spent [OF wf assms(3)]
  from assms(2) show ?thesis
  proof cases
    case (g_issue rec a now)
    then show ?thesis using agreed_state [OF issue_safe [OF assms(1)]] mem(1) assms(3) by metis
  next
    case (g_consume a k b now)
    then show ?thesis using agreed_state [OF consume_safe [OF assms(1)]] mem(2) assms(3) by metis
  next
    case (g_revoke k now)
    then show ?thesis using agreed_state [OF revoke_safe [OF assms(1)]] mem(3) assms(3) by metis
  next
    case (g_revoke_attempt i now)
    then show ?thesis using agreed_state [OF revoke_attempt_safe [OF assms(1)]] mem(4) assms(3) by metis
  qed
qed

lemma steps_spent:
  "(grant_step store)\<^sup>*\<^sup>* s t \<Longrightarrow> good s \<Longrightarrow> good t \<and> (spent k (view s) \<longrightarrow> spent k (view t))"
  by (induction rule: rtranclp_induct) (auto intro: good_step step_spent)

lemma spent_refused:
  assumes "good s" "spent k (view s)"
  shows "\<not> (\<exists>r t. st_consume store a k b now s = (Inr r, t))"
proof -
  have "fst (mem_consume a k b now (view s)) = Inl CapabilityRejected"
    using assms(2) by (auto simp: mem_consume_result spent_def consumable_def split: option.splits)
  then show ?thesis
    using consume_safe [OF assms(1), of a k b now] unfolding refuses_def agrees_def
    by (metis Inr_Inl_False fst_conv id_apply map_prod_simp)
qed

lemma consume_spends:
  assumes "good s" "st_consume store a k b now s = (Inr r, t)"
  shows "spent k (view t) \<and> good t"
proof -
  have "mem_consume a k b now (view s) = (Inr r, view t)"
    using consume_safe [OF assms(1), of a k b now] assms(2) by (auto simp: refuses_def agrees_def)
  then have "\<exists>q. dset k (q\<lparr>gr_consumed_at := Some now\<rparr>) (view s) = view t"
    by (auto simp: mem_consume_result split: if_splits option.splits)
  then obtain q where "dset k (q\<lparr>gr_consumed_at := Some now\<rparr>) (view s) = view t" ..
  from this [symmetric] have "spent k (view t)" by (simp add: spent_def usable_def)
  moreover have "good t" using good_step [OF assms(1) g_consume, of a k b now] assms(2) by simp
  ultimately show ?thesis by simp
qed

lemma consumed_once:
  assumes "good s" "st_consume store a k b now s = (Inr r, t)" "(grant_step store)\<^sup>*\<^sup>* t u"
  shows "\<not> (\<exists>r' v. st_consume store a' k b' now' u = (Inr r', v))"
  using consume_spends [OF assms(1,2)] steps_spent [OF assms(3)] spent_refused by blast

end

lemma mem_good_step: "grants_ok s \<Longrightarrow> grant_step mem_store s t \<Longrightarrow> grants_ok t"
  by (auto simp: mem_store_def elim!: grant_step.cases intro: mem_grants_ok)

lemma map_prod_id [simp]: "map_prod id (\<lambda>d. d) p = p"
  by (cases p) simp

interpretation memory: grant_store mem_store "\<lambda>d. d" grants_ok
  by unfold_locales (auto simp: mem_store_def agrees_def mem_good_step [unfolded mem_store_def])

section \<open>The SQL store implements the contract\<close>

abbreviation row_record :: "GrantRow \<Rightarrow> SecretGrantRecord" where
  "row_record row \<equiv> projr (to_record row)"

definition sql_view :: "GrantRow list \<Rightarrow> grant_dict" where
  "sql_view table = map (\<lambda>row. (gw_token_digest row, row_record row)) table"

definition row_ok :: "GrantRow \<Rightarrow> bool" where
  "row_ok row \<longleftrightarrow> row_constraints row \<and> (case parse_manifest (gw_reference_manifest row) of Inl _ \<Rightarrow> False | Inr _ \<Rightarrow> True)"

definition sql_good :: "GrantRow list \<Rightarrow> bool" where
  "sql_good table \<longleftrightarrow> distinct (map gw_token_digest table) \<and> list_all row_ok table"

lemma parse_reference_iff:
  "parse_reference e = Inr r \<longleftrightarrow> reference_key r = e \<and> validate_SecretReference r = Inr r"
proof (cases e)
  case (fields c n i)
  have "parse_category c = Inr x \<longleftrightarrow> category_value x = c" for x
    by (cases x) (auto simp: parse_category_def)
  then show ?thesis
    using fields
    by (cases r) (auto simp: parse_reference_def reference_key_def validate_SecretReference_def guard_def split: if_splits)
qed

lemma parse_manifest_iff:
  "parse_manifest ms = Inr rs \<longleftrightarrow> map reference_key rs = ms \<and> list_all (\<lambda>r. validate_SecretReference r = Inr r) rs"
proof (induction ms arbitrary: rs)
  case (Cons e ms)
  have "parse_manifest (e # ms) = Inr rs \<longleftrightarrow>
      (\<exists>r rs'. rs = r # rs' \<and> parse_reference e = Inr r \<and> parse_manifest ms = Inr rs')" by auto
  then show ?case by (cases rs) (auto simp: parse_reference_iff Cons.IH)
qed auto

lemma reference_key_inj: "inj reference_key"
  by (auto intro!: injI simp: reference_key_def category_value_inj)

lemma manifest_inj: "map reference_key xs = map reference_key ys \<longleftrightarrow> xs = ys"
  using inj_map_eq_map [OF reference_key_inj] .

text \<open>Writing a grant into its row and reading it back.\<close>

lemma to_record_to_model: "references_ok r \<Longrightarrow> to_record (to_model r) = Inr r"
proof -
  assume "references_ok r"
  then have "parse_manifest (grant_manifest (gr_binding r)) = Inr (gb_secret_references (gr_binding r))"
    by (simp add: parse_manifest_iff grant_manifest_def references_ok_def)
  then show ?thesis by (simp add: to_record_def to_model_def Let_def)
qed

lemma row_okE:
  assumes "row_ok row"
  obtains r where "to_record row = Inr r" "references_ok r" "row = to_model r"
proof -
  obtain rs where rs: "parse_manifest (gw_reference_manifest row) = Inr rs"
    using assms by (auto simp: row_ok_def split: sum.splits)
  define q where "q = row_record row"
  have tr: "to_record row = Inr q" using rs by (simp add: q_def to_record_def)
  have "map reference_key rs = gw_reference_manifest row" "list_all (\<lambda>r. validate_SecretReference r = Inr r) rs"
    using rs [unfolded parse_manifest_iff] by auto
  then have "references_ok q" "row = to_model q"
    using tr rs by (auto simp: to_record_def references_ok_def to_model_def grant_manifest_def)
  with tr show thesis using that by blast
qed

lemma rejecting_apply:
  "rejecting m s = (case m s of (Inl _, _) \<Rightarrow> (Inl CapabilityRejected, s) | (Inr x, t) \<Rightarrow> (Inr x, t))"
  by (auto simp: rejecting_def transaction_def catch_def split: prod.split sum.split)

lemma sql_good_view: "sql_good table \<Longrightarrow> grants_ok (sql_view table)"
proof -
  assume good: "sql_good table"
  have "gr_token_digest (row_record row) = gw_token_digest row" if "row \<in> set table" for row
    using good that by (auto simp: sql_good_def list_all_iff to_model_def Let_def elim!: row_okE [of row])
  then show ?thesis using good by (auto simp: grants_ok_def sql_view_def sql_good_def wf_dict_def list_all_iff comp_def)
qed

lemma dget_sql_view: "dget (sql_view table) k = map_option row_record (find (\<lambda>row. gw_token_digest row = k) table)"
  by (induction table) (auto simp: sql_view_def)

lemma row_record_update:
  "row_ok row \<Longrightarrow> row_record (row\<lparr>gw_consumed_at := c\<rparr>) = (row_record row)\<lparr>gr_consumed_at := c\<rparr>"
  "row_ok row \<Longrightarrow> row_record (row\<lparr>gw_revoked_at := c\<rparr>) = (row_record row)\<lparr>gr_revoked_at := c\<rparr>"
  by (auto simp: row_ok_def to_record_def split: sum.splits)

lemma row_open_usable: "row_ok row \<Longrightarrow> row_open row \<longleftrightarrow> usable (row_record row)"
  by (auto simp: row_ok_def to_record_def row_open_def usable_def split: sum.splits)

lemma row_attempt: "row_ok row \<Longrightarrow> gw_attempt_id row = gb_attempt_id (gr_binding (row_record row))"
  by (auto simp: row_ok_def to_record_def split: sum.splits)

lemma row_matches_iff:
  assumes "row_ok row"
  shows "row_matches k b now row \<longleftrightarrow> gw_token_digest row = k \<and> consumable a b now (row_record row)"
proof -
  obtain r where r: "to_record row = Inr r" "row = to_model r" using assms by (rule row_okE)
  have "gr_binding r = b \<longleftrightarrow> gb_task_id (gr_binding r) = gb_task_id b \<and> gb_tenant_id (gr_binding r) = gb_tenant_id b \<and>
      gb_project_id (gr_binding r) = gb_project_id b \<and> gb_run_id (gr_binding r) = gb_run_id b \<and>
      gb_attempt_id (gr_binding r) = gb_attempt_id b \<and> gb_runner_id (gr_binding r) = gb_runner_id b \<and>
      gb_environment_id (gr_binding r) = gb_environment_id b \<and>
      gb_environment_revision (gr_binding r) = gb_environment_revision b \<and>
      grant_manifest (gr_binding r) = grant_manifest b"
    by (cases "gr_binding r", cases b) (auto simp: grant_manifest_def manifest_inj)
  moreover have "row_open row \<longleftrightarrow> usable r" using row_open_usable [OF assms] r by simp
  ultimately show ?thesis
    using r by (auto simp: row_matches_def consumable_def to_model_def Let_def)
qed

lemma length_filter_key:
  "distinct (map g xs) \<Longrightarrow> length (filter (\<lambda>x. g x = k \<and> P x) xs) =
     (case find (\<lambda>x. g x = k) xs of None \<Rightarrow> 0 | Some x \<Rightarrow> if P x then 1 else 0)"
proof (induction xs)
  case (Cons x xs)
  have "g x = k \<Longrightarrow> filter (\<lambda>x. g x = k \<and> P x) xs = []"
    using Cons.prems by (simp add: filter_empty_conv) (metis imageI)
  then show ?case using Cons by auto
qed simp

lemma find_map_key: "(\<And>x. g (h x) = g x) \<Longrightarrow> find (\<lambda>x. g x = k) (map h xs) = map_option h (find (\<lambda>x. g x = k) xs)"
  by (induction xs) auto

lemma find_key: "find (\<lambda>x. g x = k) xs = Some x \<Longrightarrow> x \<in> set xs \<and> g x = k"
  by (auto simp: find_Some_iff)

lemma key_unique: "distinct (map g xs) \<Longrightarrow> x \<in> set xs \<Longrightarrow> y \<in> set xs \<Longrightarrow> g x = g y \<Longrightarrow> x = y"
  by (auto simp: distinct_map dest: inj_onD)

lemma update_rows_view:
  assumes "list_all row_ok table"
    and "\<And>row. row_ok row \<Longrightarrow> row_record (change row) = f (row_record row) \<and> gw_token_digest (change row) = gw_token_digest row"
    and "\<And>row. row \<in> set table \<Longrightarrow> matches row \<longleftrightarrow> P (gw_token_digest row) (row_record row)"
  shows "sql_view (map (\<lambda>row. if matches row then change row else row) table) =
     map (\<lambda>(k, r). (k, if P k r then f r else r)) (sql_view table)"
  using assms by (auto simp: sql_view_def list_all_iff)

text \<open>Each statement, when the constraints of the table accept what it writes.\<close>

lemma sql_consume_agrees:
  assumes "sql_good table"
  shows "refuses (sql_consume a k b now) table \<and>
       \<not> list_all row_constraints (map (\<lambda>row. if row_matches k b now row then row\<lparr>gw_consumed_at := Some now\<rparr> else row) table) \<or>
     agrees sql_view (sql_consume a k b now) (mem_consume a k b now) table"
proof (cases "valid_attempt a b now")
  case (Inl e)
  then show ?thesis
    by (simp add: agrees_def mem_consume_result sql_consume_def rejecting_apply bind_def)
next
  case (Inr att)
  let ?h = "\<lambda>row. if row_matches k b now row then row\<lparr>gw_consumed_at := Some now\<rparr> else row"
  let ?find = "find (\<lambda>row. gw_token_digest row = k)"
  have ok: "row \<in> set table \<Longrightarrow> row_ok row" for row using assms by (simp add: sql_good_def list_all_iff)
  have dis: "distinct (map gw_token_digest table)" using assms by (simp add: sql_good_def)
  have m: "row \<in> set table \<Longrightarrow> row_matches k b now row \<longleftrightarrow> gw_token_digest row = k \<and> consumable a b now (row_record row)" for row
    using row_matches_iff [OF ok] by blast
  have "filter (row_matches k b now) table =
      filter (\<lambda>row. gw_token_digest row = k \<and> consumable a b now (row_record row)) table"
    using m by (intro filter_cong) auto
  then have count: "length (filter (row_matches k b now) table) =
      (case ?find table of None \<Rightarrow> 0 | Some row \<Rightarrow> if consumable a b now (row_record row) then 1 else 0)"
    using length_filter_key [OF dis] by simp
  show ?thesis
  proof (cases "list_all row_constraints (map ?h table)")
    case False
    then show ?thesis
      using Inr by (simp add: refuses_def sql_consume_def rejecting_apply bind_def update_rows_def)
  next
    case cons: True
    have upd: "update_rows (row_matches k b now) (\<lambda>row. row\<lparr>gw_consumed_at := Some now\<rparr>) table =
        (Inr (length (filter (row_matches k b now) table)), map ?h table)"
      using cons by (simp add: update_rows_def)
    show ?thesis
    proof (cases "\<exists>row. ?find table = Some row \<and> consumable a b now (row_record row)")
      case False
      then have "length (filter (row_matches k b now) table) = 0" unfolding count by (auto split: option.split)
      then have "sql_consume a k b now table = (Inl CapabilityRejected, table)"
        using Inr by (simp add: sql_consume_def rejecting_apply bind_def upd)
      moreover have "mem_consume a k b now (sql_view table) = (Inl CapabilityRejected, sql_view table)"
        using False Inr by (auto simp: mem_consume_result dget_sql_view split: option.split)
      ultimately show ?thesis by (simp add: agrees_def)
    next
      case True
      then obtain row where row: "?find table = Some row" "consumable a b now (row_record row)" by blast
      let ?r = "(row_record row)\<lparr>gr_consumed_at := Some now\<rparr>"
      have mem: "row \<in> set table" "gw_token_digest row = k" using find_key [OF row(1)] by auto
      have one: "length (filter (row_matches k b now) table) = 1" unfolding count using row by simp
      have found: "?find (map ?h table) = Some (row\<lparr>gw_consumed_at := Some now\<rparr>)"
        using find_map_key [of gw_token_digest ?h k table] row m [OF mem(1)] mem(2) by simp
      have rec: "to_record (row\<lparr>gw_consumed_at := Some now\<rparr>) = Inr ?r"
        using ok [OF mem(1)] by (auto simp: row_ok_def to_record_def split: sum.splits)
      have "sql_consume a k b now table = (Inr ?r, map ?h table)"
        using Inr found rec one by (simp add: sql_consume_def rejecting_apply bind_def upd)
      moreover have "mem_consume a k b now (sql_view table) = (Inr ?r, dset k ?r (sql_view table))"
        using Inr row by (simp add: mem_consume_result dget_sql_view)
      moreover have "sql_view (map ?h table) = dset k ?r (sql_view table)"
      proof -
        have "wf_dict (sql_view table)" "k \<in> fst ` set (sql_view table)"
          using sql_good_view [OF assms] mem by (auto simp: grants_ok_def sql_view_def image_image)
        then have "dset k ?r (sql_view table) = map (\<lambda>(k', r). (k', if k' = k then ?r else r)) (sql_view table)"
          by (rule dset_in_place)
        moreover have "?h x = (if gw_token_digest x = k then row\<lparr>gw_consumed_at := Some now\<rparr> else x)"
          if "x \<in> set table" for x
          using m [OF that] row(2) key_unique [OF dis that mem(1)] mem(2) by auto
        ultimately show ?thesis using rec mem(2) by (auto simp: sql_view_def)
      qed
      ultimately show ?thesis by (simp add: agrees_def)
    qed
  qed
qed

lemma sql_revoke_agrees:
  assumes "sql_good table"
  shows "refuses (sql_revoke k now) table \<and>
       \<not> list_all row_constraints (map (\<lambda>row. if gw_token_digest row = k \<and> row_open row
            then row\<lparr>gw_revoked_at := Some now\<rparr> else row) table) \<or>
     agrees sql_view (sql_revoke k now) (mem_revoke k now) table"
proof -
  let ?m = "\<lambda>row. gw_token_digest row = k \<and> row_open row"
  let ?h = "\<lambda>row. if ?m row then row\<lparr>gw_revoked_at := Some now\<rparr> else row"
  have ok: "list_all row_ok table" using assms by (simp add: sql_good_def)
  have wf: "wf_dict (sql_view table)" using sql_good_view [OF assms] by (simp add: grants_ok_def)
  have view: "sql_view (map ?h table) =
      map (\<lambda>(k', r). (k', if k' = k \<and> usable r then r\<lparr>gr_revoked_at := Some now\<rparr> else r)) (sql_view table)"
    using ok by (intro update_rows_view [OF ok]) (auto simp: row_record_update list_all_iff row_open_usable)
  have "snd (mem_revoke k now (sql_view table)) = sql_view (map ?h table) \<and> fst (mem_revoke k now (sql_view table)) = Inr ()"
  proof (cases "\<exists>r. dget (sql_view table) k = Some r \<and> usable r")
    case True
    then obtain r where r: "dget (sql_view table) k = Some r" "usable r" by blast
    have "dset k (r\<lparr>gr_revoked_at := Some now\<rparr>) (sql_view table) =
        map (\<lambda>(k', r'). (k', if k' = k then r\<lparr>gr_revoked_at := Some now\<rparr> else r')) (sql_view table)"
      using dget_in [OF r(1)] by (intro dset_in_place [OF wf]) force
    also have "\<dots> = sql_view (map ?h table)"
      unfolding view using r wf by (intro map_cong) (auto simp: wf_dget_iff [OF wf, symmetric])
    finally show ?thesis using r by (simp add: mem_revoke_def bind_def)
  next
    case False
    then have "sql_view (map ?h table) = sql_view table"
      unfolding view by (intro map_idI) (auto simp: wf_dget_iff [OF wf, symmetric])
    then show ?thesis using False by (auto simp: mem_revoke_def bind_def split: option.split)
  qed
  then have mem: "mem_revoke k now (sql_view table) = (Inr (), sql_view (map ?h table))"
    by (metis prod.collapse)
  show ?thesis
  proof (cases "list_all row_constraints (map ?h table)")
    case True
    then have "sql_revoke k now table = (Inr (), map ?h table)"
      by (simp add: sql_revoke_def rejecting_apply bind_def update_rows_def)
    then show ?thesis using mem by (simp add: agrees_def)
  next
    case False
    then show ?thesis by (simp add: refuses_def sql_revoke_def rejecting_apply bind_def update_rows_def)
  qed
qed

lemma sql_revoke_attempt_agrees:
  assumes "sql_good table"
  shows "refuses (sql_revoke_attempt i now) table \<and>
       \<not> list_all row_constraints (map (\<lambda>row. if gw_attempt_id row = i \<and> row_open row
            then row\<lparr>gw_revoked_at := Some now\<rparr> else row) table) \<or>
     agrees sql_view (sql_revoke_attempt i now) (mem_revoke_attempt i now) table"
proof -
  let ?m = "\<lambda>row. gw_attempt_id row = i \<and> row_open row"
  let ?h = "\<lambda>row. if ?m row then row\<lparr>gw_revoked_at := Some now\<rparr> else row"
  have ok: "list_all row_ok table" using assms by (simp add: sql_good_def)
  have wf: "wf_dict (sql_view table)" using sql_good_view [OF assms] by (simp add: grants_ok_def)
  have m: "row \<in> set table \<Longrightarrow> ?m row \<longleftrightarrow> revokes i (row_record row)" for row
    using ok by (auto simp: list_all_iff revokes_def row_open_usable row_attempt)
  have "sql_view (map ?h table) =
      map (\<lambda>(k, r). (k, if revokes i r then r\<lparr>gr_revoked_at := Some now\<rparr> else r)) (sql_view table)"
    by (rule update_rows_view [OF ok]) (use m in \<open>auto simp: row_record_update\<close>)
  also have "\<dots> = map (apsnd (revoked_by i now)) (sql_view table)" by (auto simp: revoked_by_def)
  finally have view: "sql_view (map ?h table) = map (apsnd (revoked_by i now)) (sql_view table)" .
  have "filter (revokes i \<circ> snd) (sql_view table) =
      map (\<lambda>row. (gw_token_digest row, row_record row)) (filter (\<lambda>row. revokes i (row_record row)) table)"
    by (simp add: sql_view_def filter_map comp_def)
  then have count: "length (filter (revokes i \<circ> snd) (sql_view table)) = length (filter ?m table)"
    using m filter_cong [of table table ?m "\<lambda>row. revokes i (row_record row)"] by simp
  show ?thesis
  proof (cases "list_all row_constraints (map ?h table)")
    case True
    then have "sql_revoke_attempt i now table = (Inr (length (filter ?m table)), map ?h table)"
      by (simp add: sql_revoke_attempt_def rejecting_apply update_rows_def)
    then show ?thesis using view count by (simp add: agrees_def mem_revoke_attempt_result [OF wf])
  next
    case False
    then show ?thesis by (simp add: refuses_def sql_revoke_attempt_def rejecting_apply update_rows_def)
  qed
qed

definition insertable :: "(uuid \<Rightarrow> int \<Rightarrow> bool) \<Rightarrow> SecretGrantRecord \<Rightarrow> GrantRow list \<Rightarrow> bool" where
  "insertable revision_exists rec table \<longleftrightarrow> gr_id rec \<notin> set (map gw_id table) \<and>
     revision_exists (gb_environment_id (gr_binding rec)) (gb_environment_revision (gr_binding rec))"

lemma sql_issue_agrees:
  assumes "fresh_grant rec"
  shows "refuses (sql_issue ex a rec now) table \<and> \<not> (insertable ex rec table \<and> gr_issued_at rec \<le> now) \<or>
     agrees sql_view (sql_issue ex a rec now) (mem_issue a rec now) table"
proof (cases a rec now "sql_view table" rule: mem_issue_cases)
  case refused
  have "\<not> (\<exists>x t. sql_issue ex a rec now table = (Inr x, t))"
  proof
    assume "\<exists>x t. sql_issue ex a rec now table = (Inr x, t)"
    then show False using refused
      by (auto simp: sql_issue_def rejecting_apply mem_issue_def bind_def insert_row_def to_model_def Let_def sql_view_def
          image_image split: sum.splits prod.splits option.splits if_splits)
  qed
  moreover have "sql_issue ex a rec now table = (Inl CapabilityRejected, table) \<or> (\<exists>x t. sql_issue ex a rec now table = (Inr x, t))"
    by (auto simp: sql_issue_def rejecting_apply split: prod.splits sum.splits)
  ultimately show ?thesis using refused by (auto simp: agrees_def)
next
  case (issued lease att)
  let ?r = "rec\<lparr>gr_expires_at := min (gr_expires_at rec) lease\<rparr>"
  have r: "\<lparr>gr_id = gr_id rec, gr_token_digest = gr_token_digest rec, gr_binding = gr_binding rec,
      gr_issued_at = gr_issued_at rec, gr_expires_at = min (gr_expires_at rec) lease, gr_consumed_at = None,
      gr_revoked_at = None\<rparr> = ?r"
    using assms by (cases rec) (simp add: fresh_grant_def usable_def)
  have row: "gw_token_digest (to_model ?r) = gr_token_digest rec" "gw_id (to_model ?r) = gr_id rec"
    "gw_environment_id (to_model ?r) = gb_environment_id (gr_binding rec)"
    "gw_environment_revision (to_model ?r) = gb_environment_revision (gr_binding rec)"
    by (simp_all add: to_model_def Let_def)
  have new: "gr_token_digest rec \<notin> gw_token_digest ` set table"
    using issued(4) by (simp add: sql_view_def image_image)
  show ?thesis
  proof (cases "row_constraints (to_model ?r) \<and> insertable ex rec table")
    case True
    then have "sql_issue ex a rec now table = (Inr ?r, table @ [to_model ?r])"
      using issued(1-3) new
      by (simp add: sql_issue_def rejecting_apply bind_def Let_def r insert_row_def row insertable_def not_le)
    moreover have "to_record (to_model ?r) = Inr ?r"
      using assms by (intro to_record_to_model) (simp add: fresh_grant_def references_ok_def)
    moreover have "dset (gr_token_digest rec) ?r (sql_view table) = sql_view table @ [(gr_token_digest rec, ?r)]"
      using issued(4) by (intro dset_new) (simp add: map_of_eq_None_iff)
    ultimately show ?thesis using issued(5) row(1) by (simp add: agrees_def sql_view_def)
  next
    case False
    then have "sql_issue ex a rec now table = (Inl CapabilityRejected, table)"
      using issued(1-3) by (auto simp: sql_issue_def rejecting_apply bind_def Let_def r insert_row_def row insertable_def)
    moreover have "gr_issued_at rec \<le> now \<Longrightarrow> row_constraints (to_model ?r)"
      using issued(3) assms by (simp add: row_constraints_def to_model_def Let_def fresh_grant_def usable_def)
    ultimately show ?thesis using False by (auto simp: refuses_def)
  qed
qed

lemma keeps_rejecting [keeps_rules]: "keeps P m \<Longrightarrow> keeps P (rejecting m)"
  by (auto simp: keeps_def rejecting_apply split: prod.split sum.split)

lemma keeps_update_rows:
  assumes "\<And>row. gw_token_digest (change row) = gw_token_digest row \<and>
    gw_reference_manifest (change row) = gw_reference_manifest row"
  shows "keeps sql_good (update_rows matches change)"
proof (rule keepsI)
  fix table assume good: "sql_good table"
  let ?t = "map (\<lambda>row. if matches row then change row else row) table"
  have "map gw_token_digest ?t = map gw_token_digest table" using assms by auto
  moreover have "list_all row_constraints ?t \<Longrightarrow> list_all row_ok ?t"
    using good assms by (auto simp: sql_good_def list_all_iff row_ok_def)
  ultimately show "sql_good (snd (update_rows matches change table))"
    using good by (simp add: update_rows_def Let_def sql_good_def del: map_map)
qed

lemma keeps_insert_row: "row_constraints row \<longrightarrow> row_ok row \<Longrightarrow> keeps sql_good (insert_row ex row)"
  by (auto simp: keeps_def insert_row_def bind_def sql_good_def)

lemma to_model_row_ok: "references_ok r \<Longrightarrow> row_constraints (to_model r) \<longrightarrow> row_ok (to_model r)"
  using to_record_to_model [of r] by (auto simp: row_ok_def to_record_def split: sum.splits)

lemma sql_keeps:
  "keeps sql_good (sql_consume a k b now)" "keeps sql_good (sql_revoke k now)" "keeps sql_good (sql_revoke_attempt i now)"
  "fresh_grant rec \<Longrightarrow> keeps sql_good (sql_issue ex a rec now)"
  unfolding sql_consume_def sql_revoke_def sql_revoke_attempt_def sql_issue_def Let_def
  by (intro keeps_rules keeps_update_rows keeps_insert_row to_model_row_ok;
      simp add: fresh_grant_def references_ok_def)+

lemma sql_good_step: "sql_good s \<Longrightarrow> grant_step (sql_store ex) s t \<Longrightarrow> sql_good t"
  by (auto simp: sql_store_def elim!: grant_step.cases intro: keepsD [OF sql_keeps(1)] keepsD [OF sql_keeps(2)]
      keepsD [OF sql_keeps(3)] keepsD [OF sql_keeps(4)])

interpretation sql: grant_store "sql_store ex" sql_view sql_good for ex
proof unfold_locales
  fix s t rec a now k b i
  assume good: "sql_good s"
  show "grants_ok (sql_view s)" by (rule sql_good_view [OF good])
  show "grant_step (sql_store ex) s t \<Longrightarrow> sql_good t" by (rule sql_good_step [OF good])
  show "fresh_grant rec \<Longrightarrow> refuses (st_issue (sql_store ex) a rec now) s \<or>
      agrees sql_view (st_issue (sql_store ex) a rec now) (mem_issue a rec now) s"
    using sql_issue_agrees [of rec ex a now s] by (auto simp: sql_store_def)
  show "refuses (st_consume (sql_store ex) a k b now) s \<or>
      agrees sql_view (st_consume (sql_store ex) a k b now) (mem_consume a k b now) s"
    using sql_consume_agrees [OF good, of a k b now] by (auto simp: sql_store_def)
  show "refuses (st_revoke (sql_store ex) k now) s \<or> agrees sql_view (st_revoke (sql_store ex) k now) (mem_revoke k now) s"
    using sql_revoke_agrees [OF good, of k now] by (auto simp: sql_store_def)
  show "refuses (st_revoke_attempt (sql_store ex) i now) s \<or>
      agrees sql_view (st_revoke_attempt (sql_store ex) i now) (mem_revoke_attempt i now) s"
    using sql_revoke_attempt_agrees [OF good, of i now] by (auto simp: sql_store_def)
qed

section \<open>Redeeming\<close>

lemma redeem_Inr:
  assumes "redeem store a cy se rd sha now token task runner s = (Inr vs, t)"
  obtains references b r where "canonical_secret_references (tk_secret_references task) = Inr references"
    "grant_binding task runner references = Inr b"
    "st_consume store a (sha (utf8_encode token)) b now s = (Inr r, t)"
    "resolve_secret_values cy se rd (gb_project_id b) (gb_environment_id b) (gb_environment_revision b)
       (gb_secret_references b) = Inr vs"
  using assms
  by (auto simp: redeem_def bind_def catch_def rejected_def split: sum.splits prod.splits)

lemma redeem_Inl: "fst (redeem store a cy se rd sha now token task runner s) = Inl e \<Longrightarrow> e = CapabilityRejected"
  by (auto simp: redeem_def bind_def catch_def rejected_def split: sum.splits prod.splits)

context grant_store
begin

lemma redeemed_once:
  assumes "good s" "redeem store a cy se rd sha now token task runner s = (Inr vs, t)" "(grant_step store)\<^sup>*\<^sup>* t u"
  shows "fst (redeem store a' cy' se' rd' sha now' token task' runner' u) = Inl CapabilityRejected"
proof -
  obtain b r where "st_consume store a (sha (utf8_encode token)) b now s = (Inr r, t)"
    using assms(2) by (rule redeem_Inr)
  note once = consumed_once [OF assms(1) this assms(3)]
  show ?thesis
  proof (cases "redeem store a' cy' se' rd' sha now' token task' runner' u")
    case (Pair x v)
    show ?thesis
    proof (cases x)
      case (Inl e)
      then show ?thesis using redeem_Inl [of store a' cy' se' rd' sha now' token task' runner' u e] Pair by simp
    next
      case (Inr vs')
      then show ?thesis using Pair once by (auto elim: redeem_Inr)
    qed
  qed
qed

end

lemma steps_good:
  "(grant_step mem_store)\<^sup>*\<^sup>* [] s \<Longrightarrow> grants_ok s" "(grant_step (sql_store ex))\<^sup>*\<^sup>* [] table \<Longrightarrow> sql_good table"
  using memory.steps_spent [of "[]" s] sql.steps_spent [of ex "[]" table]
  by (auto simp: grants_ok_def sql_good_def)

lemma timely_constraints:
  assumes "sql_good table" "timely now (sql_view table)"
  shows "list_all row_constraints (map (\<lambda>row. if P row \<and> row_open row then row\<lparr>gw_consumed_at := Some now\<rparr> else row) table)"
    "list_all row_constraints (map (\<lambda>row. if P row \<and> row_open row then row\<lparr>gw_revoked_at := Some now\<rparr> else row) table)"
proof -
  have "row_constraints (if P row \<and> row_open row then row\<lparr>gw_consumed_at := Some now\<rparr> else row) \<and>
      row_constraints (if P row \<and> row_open row then row\<lparr>gw_revoked_at := Some now\<rparr> else row)"
    if "row \<in> set table" for row
  proof -
    have ok: "row_ok row" using assms(1) that by (simp add: sql_good_def list_all_iff)
    then have "gr_issued_at (row_record row) = gw_issued_at row"
      by (auto simp: row_ok_def to_record_def split: sum.splits)
    then have "row_constraints row \<and> gw_issued_at row \<le> now"
      using ok assms(2) that by (auto simp: timely_def sql_view_def list_all_iff row_ok_def)
    then show ?thesis by (auto simp: row_constraints_def row_open_def)
  qed
  then show "list_all row_constraints (map (\<lambda>row. if P row \<and> row_open row then row\<lparr>gw_consumed_at := Some now\<rparr> else row) table)"
    "list_all row_constraints (map (\<lambda>row. if P row \<and> row_open row then row\<lparr>gw_revoked_at := Some now\<rparr> else row) table)"
    unfolding list_all_iff set_map by blast+
qed

lemma distinct_keys_distinct: "distinct_keys xs \<longleftrightarrow> distinct xs"
  by (induction xs) auto

lemma canonical_again:
  assumes "canonical_secret_references refs = Inr canonical"
  shows "canonical_secret_references canonical = Inr canonical"
proof -
  have c: "canonical = sort_key reference_key refs" "distinct (map reference_key refs)"
    using assms by (auto simp: canonical_secret_references_def distinct_keys_distinct split: if_splits)
  have "distinct (map reference_key canonical)" using c by (simp add: distinct_map)
  moreover have "sort_key reference_key canonical = canonical"
    using c(1) by (simp add: sort_key_id_if_sorted)
  ultimately show ?thesis by (simp add: canonical_secret_references_def distinct_keys_distinct)
qed

lemma resolve_canonical:
  "canonical_secret_references refs = Inr canonical \<Longrightarrow>
   resolve_secret_values cy se rd p i n canonical = resolve_secret_values cy se rd p i n refs"
  by (auto simp: resolve_secret_values_def validated_record_def canonical_again)

lemma catch_reject_Inr: "catch m (\<lambda>_. raise e) s = (Inr x, t) \<longleftrightarrow> m s = (Inr x, t)"
  by (auto simp: catch_def split: prod.split sum.split)

lemma issue_steps:
  assumes "broker_issue store a rd sha ttl now token fresh task runner s = (Inr token', t)"
    and "tk_environment_id task = Some i" "tk_environment_revision task = Some n"
  shows "\<exists>canonical b r. validate_secret_references rd (tk_project_id task) i n (tk_secret_references task) = Inr canonical \<and>
    grant_binding task runner canonical = Inr b \<and> token' = token \<and>
    st_issue store a \<lparr>gr_id = fresh, gr_token_digest = sha (utf8_encode token), gr_binding = b, gr_issued_at = now,
       gr_expires_at = min (now + ttl) (tk_deadline task), gr_consumed_at = None, gr_revoked_at = None\<rparr> now s = (Inr r, t)"
proof -
  have "rejected x = Inr y \<longleftrightarrow> x = Inr y" for x and y :: "SecretReference list"
    by (cases x) (simp_all add: rejected_def)
  then show ?thesis
    using assms by (auto simp: broker_issue_def bind_Inr_iff catch_reject_Inr split: if_splits)
qed

section \<open>Examples\<close>

definition demo_reader :: attempt_reader where
  "demo_reader i = Inr \<lparr>at_id = i, at_run_id = 1, at_state = A_RUNNING, at_created_at = 0, at_updated_at = 0,
     at_state_version = 3, at_outcome = None, at_duration_ms = None, at_summary = None, at_completed_at = None,
     at_runner_id = Some ''r1'', at_heartbeat_at = Some 0, at_lease_expires_at = Some 100\<rparr>"

definition demo_secret_task :: TaskEnvelope where
  "demo_secret_task = demo_retry_task\<lparr>tk_project_id := 7, tk_environment_id := Some 1,
     tk_environment_revision := Some 2, tk_deadline := 60, tk_secret_references := [demo_reference]\<rparr>"

definition demo_issue :: "'s GrantStore \<Rightarrow> 's \<Rightarrow> string res \<times> 's" where
  "demo_issue store = broker_issue store demo_reader (revisions_of (snd demo_environments2)) (\<lambda>t. t) 50 5 ''tok'' 9
     demo_secret_task ''r1''"

definition demo_redeem :: "'s GrantStore \<Rightarrow> time \<Rightarrow> 's \<Rightarrow> ResolvedSecretValue list res \<times> 's" where
  "demo_redeem store now = redeem store demo_reader demo_crypto demo_encryptor (revisions_of (snd demo_environments2))
     (\<lambda>t. t) now ''tok'' demo_secret_task ''r1''"

definition demo_sql :: "GrantRow list GrantStore" where
  "demo_sql = sql_store (\<lambda>i n. i = 1 \<and> n = 2)"

definition secrets_of :: "ResolvedSecretValue list res \<Rightarrow> string list" where
  "secrets_of r = (case r of Inl _ \<Rightarrow> [] | Inr vs \<Rightarrow> map rv_value vs)"

definition demo_grant :: SecretGrantRecord where
  "demo_grant = \<lparr>gr_id = 9, gr_token_digest = ''tok'',
     gr_binding = \<lparr>gb_task_id = 3, gb_tenant_id = 4, gb_project_id = 7, gb_run_id = 1, gb_attempt_id = 2,
       gb_runner_id = ''r1'', gb_environment_id = 1, gb_environment_revision = 2,
       gb_secret_references = [demo_reference]\<rparr>,
     gr_issued_at = 5, gr_expires_at = 55, gr_consumed_at = None, gr_revoked_at = None\<rparr>"

lemma demo_grant_fresh: "fresh_grant demo_grant"
  by (simp add: fresh_grant_def usable_def references_ok_def demo_grant_def demo_reference_def
      validate_SecretReference_def)

lemma demo_steps:
  "(grant_step mem_store)\<^sup>*\<^sup>* [] (snd (demo_issue mem_store []))"
  "(grant_step demo_sql)\<^sup>*\<^sup>* [] (snd (demo_issue demo_sql []))"
proof -
  have "snd (demo_issue mem_store []) = snd (st_issue mem_store demo_reader demo_grant 5 [])" by code_simp
  then show "(grant_step mem_store)\<^sup>*\<^sup>* [] (snd (demo_issue mem_store []))"
    using g_issue [OF demo_grant_fresh, of mem_store "[]" demo_reader 5] by simp
  have "snd (demo_issue demo_sql []) = snd (st_issue demo_sql demo_reader demo_grant 5 [])" by code_simp
  then show "(grant_step demo_sql)\<^sup>*\<^sup>* [] (snd (demo_issue demo_sql []))"
    using g_issue [OF demo_grant_fresh, of demo_sql "[]" demo_reader 5] by simp
qed

section \<open>Properties\<close>

text \<open>C32. A secret capability is redeemed at most once, with the store in memory and with the SQL store: after a
  redemption that succeeded, every later redemption of the same token is rejected, for any task, runner, time, state of
  the attempts and environments, and after any sequence of operations of the store.\<close>

theorem capability_redeems_at_most_once:
  assumes "(grant_step mem_store)\<^sup>*\<^sup>* [] s" "(grant_step (sql_store ex))\<^sup>*\<^sup>* [] table"
  shows "(redeem mem_store a cy se rd sha now token task runner s = (Inr vs, t) \<and> (grant_step mem_store)\<^sup>*\<^sup>* t u \<longrightarrow>
      fst (redeem mem_store a' cy' se' rd' sha now' token task' runner' u) = Inl CapabilityRejected) \<and>
    (redeem (sql_store ex) a cy se rd sha now token task runner table = (Inr vs, table1) \<and>
      (grant_step (sql_store ex))\<^sup>*\<^sup>* table1 table2 \<longrightarrow>
      fst (redeem (sql_store ex) a' cy' se' rd' sha now' token task' runner' table2) = Inl CapabilityRejected)"
proof (intro conjI impI; elim conjE)
  assume "redeem mem_store a cy se rd sha now token task runner s = (Inr vs, t)" "(grant_step mem_store)\<^sup>*\<^sup>* t u"
  then show "fst (redeem mem_store a' cy' se' rd' sha now' token task' runner' u) = Inl CapabilityRejected"
    by (rule memory.redeemed_once [OF steps_good(1) [OF assms(1)]])
next
  assume "redeem (sql_store ex) a cy se rd sha now token task runner table = (Inr vs, table1)"
    "(grant_step (sql_store ex))\<^sup>*\<^sup>* table1 table2"
  then show "fst (redeem (sql_store ex) a' cy' se' rd' sha now' token task' runner' table2) = Inl CapabilityRejected"
    by (rule sql.redeemed_once [OF steps_good(2) [OF assms(2)]])
qed

theorem capability_redeems_at_most_once_witness:
  "secrets_of (fst (demo_redeem mem_store 7 (snd (demo_issue mem_store [])))) = [''hunter2''] \<and>
   fst (demo_redeem mem_store 8 (snd (demo_redeem mem_store 7 (snd (demo_issue mem_store []))))) = Inl CapabilityRejected \<and>
   secrets_of (fst (demo_redeem demo_sql 7 (snd (demo_issue demo_sql [])))) = [''hunter2''] \<and>
   fst (demo_redeem demo_sql 8 (snd (demo_redeem demo_sql 7 (snd (demo_issue demo_sql []))))) = Inl CapabilityRejected"
proof -
  have m: "secrets_of (fst (demo_redeem mem_store 7 (snd (demo_issue mem_store [])))) = [''hunter2'']"
    and q: "secrets_of (fst (demo_redeem demo_sql 7 (snd (demo_issue demo_sql [])))) = [''hunter2'']"
    by code_simp+
  obtain vs where vs: "demo_redeem mem_store 7 (snd (demo_issue mem_store [])) =
      (Inr vs, snd (demo_redeem mem_store 7 (snd (demo_issue mem_store []))))"
    using m by (cases "demo_redeem mem_store 7 (snd (demo_issue mem_store []))")
      (auto simp: secrets_of_def split: sum.splits)
  obtain ws where ws: "demo_redeem demo_sql 7 (snd (demo_issue demo_sql [])) =
      (Inr ws, snd (demo_redeem demo_sql 7 (snd (demo_issue demo_sql []))))"
    using q by (cases "demo_redeem demo_sql 7 (snd (demo_issue demo_sql []))")
      (auto simp: secrets_of_def split: sum.splits)
  note once = capability_redeems_at_most_once [OF demo_steps(1) demo_steps(2) [unfolded demo_sql_def]]
  have "fst (demo_redeem mem_store 8 (snd (demo_redeem mem_store 7 (snd (demo_issue mem_store []))))) = Inl CapabilityRejected"
    using once [THEN conjunct1, rule_format, OF conjI [OF vs [unfolded demo_redeem_def] rtranclp.rtrancl_refl]]
    unfolding demo_redeem_def .
  moreover have "fst (demo_redeem demo_sql 8 (snd (demo_redeem demo_sql 7 (snd (demo_issue demo_sql []))))) =
      Inl CapabilityRejected"
    using once [THEN conjunct2, rule_format, OF conjI [OF ws [unfolded demo_redeem_def demo_sql_def] rtranclp.rtrancl_refl]]
    unfolding demo_redeem_def demo_sql_def .
  ultimately show ?thesis using m q by blast
qed



text \<open>A capability only works for the attempt it was issued to, while that attempt is alive: when a redemption
  succeeds, the attempt of the task is preparing or running, is held by this runner, belongs to this run and its lease
  has not expired; and the stored grant has exactly this task, project, environment revision and these references, is
  neither used nor revoked, and has not expired.\<close>

theorem redeem_needs_the_live_attempt:
  assumes "redeem mem_store a cy se rd sha now token task runner s = (Inr vs, t)"
  shows "(\<exists>att lease. a (en_attempt_id task) = Inr att \<and> at_run_id att = en_run_id task \<and>
      at_runner_id att = Some runner \<and> at_state att \<in> {A_PREPARING, A_RUNNING} \<and>
      at_lease_expires_at att = Some lease \<and> now < lease) \<and>
    (\<exists>g references. dget s (sha (utf8_encode token)) = Some g \<and> usable g \<and> now < gr_expires_at g \<and>
      canonical_secret_references (tk_secret_references task) = Inr references \<and>
      grant_binding task runner references = Inr (gr_binding g))"
proof -
  obtain refs b r where c: "canonical_secret_references (tk_secret_references task) = Inr refs"
    "grant_binding task runner refs = Inr b" "mem_consume a (sha (utf8_encode token)) b now s = (Inr r, t)"
    using assms by (rule redeem_Inr) (auto simp: mem_store_def)
  have b: "gb_attempt_id b = en_attempt_id task" "gb_run_id b = en_run_id task" "gb_runner_id b = runner"
    using c(2) by (auto simp: grant_binding_def split: option.splits)
  obtain att where att: "valid_attempt a b now = Inr att" using c(3) by (auto simp: mem_consume_result split: if_splits)
  then have "a (en_attempt_id task) = Inr att \<and> at_run_id att = en_run_id task \<and> at_runner_id att = Some runner \<and>
      at_state att \<in> {A_PREPARING, A_RUNNING} \<and> (\<exists>lease. at_lease_expires_at att = Some lease \<and> now < lease)"
    using b by (auto simp: valid_attempt_def ACTIVE_SECRET_STATES_def split: sum.splits if_splits option.splits)
  moreover obtain g where "dget s (sha (utf8_encode token)) = Some g" "consumable a b now g"
    using c(3) att by (auto simp: mem_consume_result split: option.splits if_splits)
  ultimately show ?thesis using c(1,2) by (auto simp: consumable_def)
qed

theorem redeem_needs_the_live_attempt_witness:
  "\<exists>att. demo_reader 2 = Inr att \<and> at_state att = A_RUNNING \<and>
     secrets_of (fst (demo_redeem mem_store 7 (snd (demo_issue mem_store [])))) = [''hunter2'']"
proof -
  have m: "secrets_of (fst (demo_redeem mem_store 7 (snd (demo_issue mem_store [])))) = [''hunter2'']" by code_simp
  then obtain vs t where "demo_redeem mem_store 7 (snd (demo_issue mem_store [])) = (Inr vs, t)"
    by (cases "demo_redeem mem_store 7 (snd (demo_issue mem_store []))") (auto simp: secrets_of_def split: sum.splits)
  from redeem_needs_the_live_attempt [OF this [unfolded demo_redeem_def]] m show ?thesis
    by (simp add: demo_reader_def)
qed

text \<open>C34. An issued capability can be redeemed: when the broker issued one for a task, then at any later moment before
  the grant expires at which the attempt is still live, redeeming it yields one value per
  reference of the task, in canonical order, each the plaintext that the pinned environment revision holds.\<close>

theorem issued_capability_redeems:
  assumes "(env_step cy se)\<^sup>*\<^sup>* empty_environments e" "aead_ok cy"
    and "broker_issue mem_store a (revisions_of e) sha ttl now token fresh task runner s = (Inr token', t)"
    and "dget t (sha (utf8_encode token)) = Some g" "now' < gr_expires_at g"
    and "valid_attempt a' (gr_binding g) now' = Inr att"
  shows "token' = token \<and> gr_expires_at g \<le> now + ttl \<and> gr_expires_at g \<le> tk_deadline task \<and>
    (\<exists>r vs canonical. revision_at (vr_revisions e) (the (tk_environment_id task)) (the (tk_environment_revision task)) = Some r \<and>
       fst (redeem mem_store a' cy se (revisions_of e) sha now' token task runner t) = Inr vs \<and>
       canonical_secret_references (tk_secret_references task) = Inr canonical \<and>
       map resolved_key vs = map reference_key canonical \<and>
       list_all (\<lambda>v. reveal cy se r (rv_category v) (rv_name v) = Some (rv_value v)) vs)"
proof -
  let ?k = "sha (utf8_encode token)"
  obtain i n where task: "tk_environment_id task = Some i" "tk_environment_revision task = Some n"
    using assms(3) by (auto simp: broker_issue_def split: option.splits)
  define rec where "rec b = \<lparr>gr_id = fresh, gr_token_digest = ?k, gr_binding = b, gr_issued_at = now,
       gr_expires_at = min (now + ttl) (tk_deadline task), gr_consumed_at = None, gr_revoked_at = None\<rparr>" for b
  obtain canonical b r where
    v: "validate_secret_references (revisions_of e) (tk_project_id task) i n (tk_secret_references task) = Inr canonical"
    and b: "grant_binding task runner canonical = Inr b"
    and iss: "mem_issue a (rec b) now s = (Inr r, t)" "token' = token"
    using issue_steps [OF assms(3) task] unfolding mem_store_def rec_def by auto
  from iss(1) obtain lease where "t = dset ?k ((rec b)\<lparr>gr_expires_at := min (gr_expires_at (rec b)) lease\<rparr>) s"
    by (cases a "rec b" now s rule: mem_issue_cases) (auto simp: rec_def)
  then have g: "g = (rec b)\<lparr>gr_expires_at := min (gr_expires_at (rec b)) lease\<rparr>" using assms(4) by simp
  then have gb: "gr_binding g = b" "usable g" "gr_expires_at g \<le> now + ttl" "gr_expires_at g \<le> tk_deadline task"
    by (auto simp: rec_def usable_def)
  have cons: "mem_consume a' ?k b now' t = (Inr (g\<lparr>gr_consumed_at := Some now'\<rparr>), dset ?k (g\<lparr>gr_consumed_at := Some now'\<rparr>) t)"
    using assms(4-6) gb by (auto simp: mem_consume_result consumable_def)
  from accepted_references_resolve [OF assms(1,2) v] obtain q vs where
    q: "revision_at (vr_revisions e) i n = Some q"
    "resolve_secret_values cy se (revisions_of e) (tk_project_id task) i n (tk_secret_references task) = Inr vs"
    "map resolved_key vs = map reference_key canonical"
    "list_all (\<lambda>v. reveal cy se q (rv_category v) (rv_name v) = Some (rv_value v)) vs" by blast
  have can: "canonical_secret_references (tk_secret_references task) = Inr canonical"
    using v by (auto simp: validate_secret_references_def validated_record_def Let_def split: if_splits)
  have fields: "gb_project_id b = tk_project_id task" "gb_environment_id b = i" "gb_environment_revision b = n"
    "gb_secret_references b = canonical"
    using b task by (auto simp: grant_binding_def)
  have "fst (redeem mem_store a' cy se (revisions_of e) sha now' token task runner t) = Inr vs"
    using cons can b fields resolve_canonical [OF can] q(2)
    by (simp add: redeem_def bind_def catch_def mem_store_def rejected_def)
  with q can iss(2) gb task show ?thesis by auto
qed

theorem issued_capability_redeems_witness:
  "fst (demo_issue mem_store []) = Inr ''tok'' \<and>
   (\<exists>vs. fst (demo_redeem mem_store 7 (snd (demo_issue mem_store []))) = Inr vs \<and>
      map resolved_key vs = [reference_key demo_reference])"
proof -
  have f: "fst (demo_issue mem_store []) = Inr ''tok''"
    and k: "map_option (\<lambda>g. (gr_binding g, gr_expires_at g)) (dget (snd (demo_issue mem_store [])) ''tok'') =
      Some (gr_binding demo_grant, 55)"
    and u: "utf8_encode ''tok'' = ''tok''"
    and c: "canonical_secret_references (tk_secret_references demo_secret_task) = Inr [demo_reference]"
    by code_simp+
  then obtain g where g: "dget (snd (demo_issue mem_store [])) (utf8_encode ''tok'') = Some g"
    "gr_binding g = gr_binding demo_grant" "gr_expires_at g = 55" by auto
  obtain att where att: "valid_attempt demo_reader (gr_binding g) 7 = Inr att"
    by (auto simp: g(2) valid_attempt_def demo_reader_def demo_grant_def ACTIVE_SECRET_STATES_def)
  have i: "broker_issue mem_store demo_reader (revisions_of (snd demo_environments2)) (\<lambda>t. t) 50 5 ''tok'' 9
      demo_secret_task ''r1'' [] = (Inr ''tok'', snd (demo_issue mem_store []))"
    using f by (simp add: demo_issue_def prod_eq_iff)
  from issued_capability_redeems [OF demo_environments_reach(2) demo_aead i g(1) _ att] g(3) c f show ?thesis
    by (auto simp: demo_redeem_def)
qed

end
