(* ===== verification/Auth.thy ===== *)
theory Auth
  imports Environment
begin

text \<open>
  Authentication: \<^verbatim>\<open>services/api/auth_domain.py\<close>, the repository of \<^verbatim>\<open>services/api/auth_repository.py\<close>, the login throttle of
  \<^verbatim>\<open>services/api/auth_throttle.py\<close> and the routes of \<^verbatim>\<open>services/api/auth_routes.py\<close> that change state. Byte strings are
  strings. Unicode normalisation and case folding, PBKDF2 and SHA-256 are the fields of \<open>AuthLib\<close>; tokens, salts and clock readings are
  arguments.
\<close>

section \<open>Passwords, names and tokens\<close>

definition PASSWORD_ITERATIONS :: int where "PASSWORD_ITERATIONS = 600000"

datatype UserRole = ROLE_ADMIN

record PasswordDigest =
  pw_salt :: string
  pw_digest :: string
  pw_iterations :: int

text \<open>\<open>__post_init__\<close>.\<close>

definition validate_PasswordDigest :: "PasswordDigest \<Rightarrow> PasswordDigest res" where
  "validate_PasswordDigest p =
     rbind (guard (pw_iterations p < PASSWORD_ITERATIONS) ValueError) (\<lambda>_.
     rbind (guard (length (pw_salt p) < 16 \<or> length (pw_digest p) \<noteq> 32) ValueError) (\<lambda>_.
     Inr p))"

record UserRecord =
  us_id :: uuid
  us_username :: string
  us_display_name :: string
  us_role :: UserRole
  us_is_active :: bool
  us_created_at :: time
  us_updated_at :: time
  us_password :: PasswordDigest

record AuthLib =
  al_nfkc :: "string \<Rightarrow> string"
  al_casefold :: "string \<Rightarrow> string"
  al_pbkdf2 :: "string \<Rightarrow> string \<Rightarrow> int \<Rightarrow> string"
  al_sha256 :: "string \<Rightarrow> string"

definition username_char :: "char \<Rightarrow> bool" where
  "username_char c \<longleftrightarrow> ascii_letter c \<or> ascii_digit c \<or> c \<in> set ''._-''"

definition USERNAME_PATTERN :: "string \<Rightarrow> bool" where
  "USERNAME_PATTERN s \<longleftrightarrow> 3 \<le> length s \<and> length s \<le> 64 \<and> list_all username_char s"

definition normalize_username :: "AuthLib \<Rightarrow> string \<Rightarrow> string" where
  "normalize_username lib username = al_casefold lib (al_nfkc lib (strip username))"

definition validate_username :: "AuthLib \<Rightarrow> string \<Rightarrow> string res" where
  "validate_username lib username =
     (let normalized = normalize_username lib username in
      if \<not> USERNAME_PATTERN normalized then Inl ValueError else Inr normalized)"

text \<open>\<open>drawn\<close> is what \<open>secrets.token_bytes\<close> returns; an empty salt counts as none.\<close>

definition hash_password :: "AuthLib \<Rightarrow> string \<Rightarrow> string option \<Rightarrow> string \<Rightarrow> PasswordDigest res" where
  "hash_password lib password salt drawn =
     (let resolved_salt = (case salt of None \<Rightarrow> drawn | Some x \<Rightarrow> if x = [] then drawn else x);
          digest = al_pbkdf2 lib (utf8_encode password) resolved_salt PASSWORD_ITERATIONS
      in validate_PasswordDigest
           \<lparr>pw_salt = resolved_salt, pw_digest = digest, pw_iterations = PASSWORD_ITERATIONS\<rparr>)"

definition verify_password :: "AuthLib \<Rightarrow> string \<Rightarrow> PasswordDigest \<Rightarrow> bool" where
  "verify_password lib password expected \<longleftrightarrow>
     al_pbkdf2 lib (utf8_encode password) (pw_salt expected) (pw_iterations expected) = pw_digest expected"

definition session_token_digest :: "AuthLib \<Rightarrow> string \<Rightarrow> string" where
  "session_token_digest lib token = al_sha256 lib (utf8_encode token)"

section \<open>Repository\<close>

record Session =
  ss_user_id :: uuid
  ss_token_digest :: string
  ss_expires_at :: time
  ss_revoked_at :: "time option"

record AuthRepo =
  au_initialized :: bool
  au_users :: "(uuid, UserRecord) dict"
  au_usernames :: "(string, uuid) dict"
  au_sessions :: "Session list"

definition empty_auth :: AuthRepo where
  "empty_auth = \<lparr>au_initialized = False, au_users = [], au_usernames = [], au_sessions = []\<rparr>"

definition is_initialized :: "(AuthRepo, bool) pyop" where
  "is_initialized = reads au_initialized"

definition initialize_admin ::
  "AuthLib \<Rightarrow> string \<Rightarrow> string \<Rightarrow> PasswordDigest \<Rightarrow> uuid \<Rightarrow> time \<Rightarrow> (AuthRepo, UserRecord) pyop" where
  "initialize_admin lib username display_name password fresh now =
     bind (lift (validate_username lib username)) (\<lambda>normalized.
     bind (reads au_initialized) (\<lambda>initialized.
     if initialized then raise AuthAlreadyInitialized
     else
       bind (reads (\<lambda>s. dget (au_usernames s) normalized)) (\<lambda>owner.
       if owner \<noteq> None then raise UsernameConflict
       else
         (let user = \<lparr>us_id = fresh, us_username = normalized, us_display_name = display_name, us_role = ROLE_ADMIN,
                      us_is_active = True, us_created_at = now, us_updated_at = now, us_password = password\<rparr> in
          bind (writes (\<lambda>s. s\<lparr>au_users := dset (us_id user) user (au_users s)\<rparr>)) (\<lambda>_.
          bind (writes (\<lambda>s. s\<lparr>au_usernames := dset normalized (us_id user) (au_usernames s)\<rparr>)) (\<lambda>_.
          bind (writes (\<lambda>s. s\<lparr>au_initialized := True\<rparr>)) (\<lambda>_.
          ret user)))))))"

definition find_user :: "AuthLib \<Rightarrow> string \<Rightarrow> (AuthRepo, UserRecord option) pyop" where
  "find_user lib username = reads (\<lambda>s.
     case dget (au_usernames s) (normalize_username lib username) of
       None \<Rightarrow> None
     | Some user_id \<Rightarrow> dget (au_users s) user_id)"

definition create_session :: "uuid \<Rightarrow> string \<Rightarrow> time \<Rightarrow> time \<Rightarrow> (AuthRepo, unit) pyop" where
  "create_session user_id token_digest expires_at now = writes (\<lambda>s.
     s\<lparr>au_sessions := filter (\<lambda>item. ss_revoked_at item = None \<and> now < ss_expires_at item) (au_sessions s) @
        [\<lparr>ss_user_id = user_id, ss_token_digest = token_digest, ss_expires_at = expires_at, ss_revoked_at = None\<rparr>]\<rparr>)"

text \<open>The loop over the sessions ends at the first one with the digest.\<close>

definition session_user :: "AuthRepo \<Rightarrow> time \<Rightarrow> Session \<Rightarrow> UserRecord option" where
  "session_user s current session =
     (case dget (au_users s) (ss_user_id session) of
        None \<Rightarrow> None
      | Some user \<Rightarrow>
          if ss_revoked_at session = None \<and> current < ss_expires_at session \<and> us_is_active user
          then Some user else None)"

definition resolve_session :: "string \<Rightarrow> time \<Rightarrow> (AuthRepo, UserRecord option) pyop" where
  "resolve_session token_digest current = reads (\<lambda>s.
     case find (\<lambda>session. ss_token_digest session = token_digest) (au_sessions s) of
       None \<Rightarrow> None
     | Some session \<Rightarrow> session_user s current session)"

fun revoke_first :: "string \<Rightarrow> time \<Rightarrow> Session list \<Rightarrow> Session list" where
  "revoke_first token_digest current [] = []"
| "revoke_first token_digest current (session # rest) =
     (if ss_token_digest session = token_digest
      then session\<lparr>ss_revoked_at :=
             Some (case ss_revoked_at session of None \<Rightarrow> current | Some t \<Rightarrow> t)\<rparr> # rest
      else session # revoke_first token_digest current rest)"

definition revoke_session :: "string \<Rightarrow> time \<Rightarrow> (AuthRepo, unit) pyop" where
  "revoke_session token_digest current =
     writes (\<lambda>s. s\<lparr>au_sessions := revoke_first token_digest current (au_sessions s)\<rparr>)"

section \<open>Login throttle\<close>

text \<open>
  The free slots of the semaphore and, per key, the times of the failures. \<open>self._attempts[key]\<close> of a
  \<open>defaultdict\<close> stores the empty queue it creates.
\<close>

record LoginThrottle =
  th_max_failures :: int
  th_window :: time
  th_attempts :: "(string, time list) dict"
  th_slots :: nat

definition make_throttle :: "int \<Rightarrow> time \<Rightarrow> nat \<Rightarrow> LoginThrottle" where
  "make_throttle max_failures window max_concurrent =
     \<lparr>th_max_failures = max_failures, th_window = window, th_attempts = [], th_slots = max_concurrent\<rparr>"

definition attempts_of :: "LoginThrottle \<Rightarrow> string \<Rightarrow> time list" where
  "attempts_of th key = (case dget (th_attempts th) key of None \<Rightarrow> [] | Some ts \<Rightarrow> ts)"

definition release :: "LoginThrottle \<Rightarrow> LoginThrottle" where
  "release th = th\<lparr>th_slots := th_slots th + 1\<rparr>"

text \<open>\<open>attempt\<close> up to its \<open>yield\<close>: the \<open>finally\<close> gives the slot back when the key is limited.\<close>

definition throttle_enter :: "string \<Rightarrow> time \<Rightarrow> (LoginThrottle, unit) pyop" where
  "throttle_enter key now th =
     (if th_slots th = 0 then (Inl LoginRateLimited, th)
      else
        let acquired = th\<lparr>th_slots := th_slots th - 1\<rparr>;
            attempts = dropWhile (\<lambda>t. t \<le> now - th_window th) (attempts_of acquired key);
            pruned = acquired\<lparr>th_attempts := dset key attempts (th_attempts acquired)\<rparr>
        in if th_max_failures th \<le> int (length attempts)
           then (Inl LoginRateLimited, release pruned)
           else (Inr (), pruned))"

definition record_failure :: "string \<Rightarrow> time \<Rightarrow> LoginThrottle \<Rightarrow> LoginThrottle" where
  "record_failure key now th = th\<lparr>th_attempts := dset key (attempts_of th key @ [now]) (th_attempts th)\<rparr>"

definition record_success :: "string \<Rightarrow> LoginThrottle \<Rightarrow> LoginThrottle" where
  "record_success key th = th\<lparr>th_attempts := ddel key (th_attempts th)\<rparr>"

section \<open>Routes\<close>

record AuthSys =
  as_repo :: AuthRepo
  as_throttle :: LoginThrottle

definition on_auth :: "(AuthRepo, 'a) pyop \<Rightarrow> (AuthSys, 'a) pyop" where
  "on_auth m s = (let (x, r) = m (as_repo s) in (x, s\<lparr>as_repo := r\<rparr>))"

definition on_throttle :: "(LoginThrottle, 'a) pyop \<Rightarrow> (AuthSys, 'a) pyop" where
  "on_throttle m s = (let (x, r) = m (as_throttle s) in (x, s\<lparr>as_throttle := r\<rparr>))"

text \<open>\<open>with throttle.attempt(key): body\<close>.\<close>

definition with_attempt :: "string \<Rightarrow> time \<Rightarrow> (AuthSys, 'a) pyop \<Rightarrow> (AuthSys, 'a) pyop" where
  "with_attempt key now body =
     bind (on_throttle (throttle_enter key now)) (\<lambda>_ s.
       let (r, s') = body s in (r, s'\<lparr>as_throttle := release (as_throttle s')\<rparr>))"

text \<open>
  The readings of one request: the session token drawn, the salt drawn for the dummy hash, the wall clock and the readings
  of the monotonic clock.
\<close>

record AuthDraws =
  dr_token :: string
  dr_salt :: string
  dr_now :: time
  dr_enter :: time
  dr_failed :: time

definition set_session :: "AuthLib \<Rightarrow> int \<Rightarrow> AuthDraws \<Rightarrow> UserRecord \<Rightarrow> (AuthSys, string) pyop" where
  "set_session lib ttl dr user =
     bind (on_auth (create_session (us_id user) (session_token_digest lib (dr_token dr))
       (dr_now dr + seconds ttl) (dr_now dr))) (\<lambda>_. ret (dr_token dr))"

definition check_credentials :: "AuthLib \<Rightarrow> AuthDraws \<Rightarrow> string \<Rightarrow> string \<Rightarrow> string \<Rightarrow> (AuthSys, UserRecord) pyop" where
  "check_credentials lib dr throttle_key username password =
     bind (on_auth (find_user lib username)) (\<lambda>found.
     case found of
       None \<Rightarrow>
         bind (lift (hash_password lib password None (dr_salt dr))) (\<lambda>_.
         bind (on_throttle (writes (record_failure throttle_key (dr_failed dr)))) (\<lambda>_.
         raise InvalidCredentials))
     | Some user \<Rightarrow>
         if \<not> us_is_active user \<or> \<not> verify_password lib password (us_password user)
         then bind (on_throttle (writes (record_failure throttle_key (dr_failed dr)))) (\<lambda>_.
              raise InvalidCredentials)
         else bind (on_throttle (writes (record_success throttle_key))) (\<lambda>_. ret user))"

text \<open>The response carries the token as a cookie; the model returns both.\<close>

definition login ::
  "AuthLib \<Rightarrow> int \<Rightarrow> AuthDraws \<Rightarrow> string option \<Rightarrow> string \<Rightarrow> string \<Rightarrow> (AuthSys, UserRecord \<times> string) pyop" where
  "login lib ttl dr client username password =
     (let client_host = (case client of None \<Rightarrow> ''unknown'' | Some host \<Rightarrow> host);
          throttle_key = client_host @ '':'' @ username in
      bind (with_attempt throttle_key (dr_enter dr) (check_credentials lib dr throttle_key username password)) (\<lambda>user.
      bind (set_session lib ttl dr user) (\<lambda>token.
      ret (user, token))))"

definition setup_admin ::
  "AuthLib \<Rightarrow> int \<Rightarrow> AuthDraws \<Rightarrow> string \<Rightarrow> string \<Rightarrow> string \<Rightarrow> uuid \<Rightarrow> (AuthSys, UserRecord \<times> string) pyop" where
  "setup_admin lib ttl dr username display_name password fresh =
     bind (lift (hash_password lib password None (dr_salt dr))) (\<lambda>digest.
     bind (on_auth (initialize_admin lib username display_name digest fresh (dr_now dr))) (\<lambda>user.
     bind (set_session lib ttl dr user) (\<lambda>token.
     ret (user, token))))"

definition resolve_user :: "AuthLib \<Rightarrow> time \<Rightarrow> string option \<Rightarrow> (AuthSys, UserRecord) pyop" where
  "resolve_user lib now cookie =
     (case cookie of
        None \<Rightarrow> raise InvalidCredentials
      | Some token \<Rightarrow>
          if token = [] then raise InvalidCredentials
          else
            bind (on_auth (resolve_session (session_token_digest lib token) now)) (\<lambda>found.
            case found of None \<Rightarrow> raise InvalidCredentials | Some user \<Rightarrow> ret user))"

definition logout :: "AuthLib \<Rightarrow> time \<Rightarrow> string option \<Rightarrow> (AuthSys, unit) pyop" where
  "logout lib now cookie =
     (case cookie of
        None \<Rightarrow> ret ()
      | Some token \<Rightarrow>
          if token = [] then ret () else on_auth (revoke_session (session_token_digest lib token) now))"

end
