(* ===== verification/Auth_Facts.thy ===== *)
theory Auth_Facts
  imports Auth
begin

text \<open>
  What authentication guarantees: the throttle bounds guessing under every interleaving of concurrent logins, a login needs the password and
  adds exactly one session, and a session lives until it expires or is revoked.
\<close>

section \<open>Concurrent logins\<close>

text \<open>
  Any number of requests at once: those between entering \<open>attempt\<close> and recording their outcome, with
  their keys, those that have recorded it and still hold their slot, the monotonic clock, and, for the statement only, all
  failures recorded since the last success of their key. An outcome is a failure, a success, or an exception
  that is not recorded.
\<close>

record ThrottleSys =
  ts_throttle :: LoginThrottle
  ts_inside :: "string list"
  ts_leaving :: nat
  ts_clock :: time
  ts_failed :: "(string \<times> time) list"

inductive throttle_step :: "ThrottleSys \<Rightarrow> ThrottleSys \<Rightarrow> bool" where
  t_enter: "ts_clock x \<le> now \<Longrightarrow> throttle_enter k now (ts_throttle x) = (Inr (), th) \<Longrightarrow>
     throttle_step x (x\<lparr>ts_throttle := th, ts_inside := k # ts_inside x, ts_clock := now\<rparr>)"
| t_limited: "ts_clock x \<le> now \<Longrightarrow> throttle_enter k now (ts_throttle x) = (Inl e, th) \<Longrightarrow>
     throttle_step x (x\<lparr>ts_throttle := th, ts_clock := now\<rparr>)"
| t_fail: "ts_clock x \<le> now \<Longrightarrow> k \<in> set (ts_inside x) \<Longrightarrow>
     throttle_step x (x\<lparr>ts_throttle := record_failure k now (ts_throttle x), ts_inside := remove1 k (ts_inside x),
       ts_leaving := ts_leaving x + 1, ts_clock := now, ts_failed := ts_failed x @ [(k, now)]\<rparr>)"
| t_succeed: "k \<in> set (ts_inside x) \<Longrightarrow>
     throttle_step x (x\<lparr>ts_throttle := record_success k (ts_throttle x), ts_inside := remove1 k (ts_inside x),
       ts_leaving := ts_leaving x + 1, ts_failed := filter (\<lambda>(k', _). k' \<noteq> k) (ts_failed x)\<rparr>)"
| t_abort: "k \<in> set (ts_inside x) \<Longrightarrow>
     throttle_step x (x\<lparr>ts_inside := remove1 k (ts_inside x), ts_leaving := ts_leaving x + 1\<rparr>)"
| t_leave: "0 < ts_leaving x \<Longrightarrow>
     throttle_step x (x\<lparr>ts_throttle := release (ts_throttle x), ts_leaving := ts_leaving x - 1\<rparr>)"

definition start_throttle :: "int \<Rightarrow> time \<Rightarrow> nat \<Rightarrow> time \<Rightarrow> ThrottleSys" where
  "start_throttle max_failures window max_concurrent now =
     \<lparr>ts_throttle = make_throttle max_failures window max_concurrent, ts_inside = [], ts_leaving = 0,
      ts_clock = now, ts_failed = []\<rparr>"

text \<open>The failures of a key since its last success that lie within the window.\<close>

definition failures_of :: "ThrottleSys \<Rightarrow> string \<Rightarrow> time list" where
  "failures_of x k = map snd (filter (\<lambda>(k', _). k' = k) (ts_failed x))"

definition newer :: "time \<Rightarrow> time list \<Rightarrow> time list" where
  "newer c = filter (\<lambda>t. c < t)"

lemma newer_later: "c \<le> c' \<Longrightarrow> newer c' (newer c ts) = newer c' ts"
  by (induction ts) (auto simp: newer_def)

lemma newer_append [simp]: "newer c (xs @ ys) = newer c xs @ newer c ys"
  by (simp add: newer_def)

lemma dropWhile_newer: "sorted ts \<Longrightarrow> dropWhile (\<lambda>t. t \<le> c) ts = newer c ts"
proof (induction ts)
  case (Cons t ts)
  have "newer c (t # ts) = t # ts" if "c < t"
    using Cons.prems that by (auto simp: newer_def intro!: filter_True)
  with Cons show ?case by (auto simp: newer_def not_le)
qed (simp add: newer_def)

text \<open>What one key contributes, with \<open>inside\<close> requests of it under way.\<close>

definition key_bounded :: "int \<Rightarrow> time \<Rightarrow> time \<Rightarrow> time list \<Rightarrow> time list \<Rightarrow> nat \<Rightarrow> bool" where
  "key_bounded bound window clock stored failed inside \<longleftrightarrow> sorted stored \<and> (\<forall>t \<in> set stored. t \<le> clock) \<and>
     newer (clock - window) stored = newer (clock - window) failed \<and>
     int (length (newer (clock - window) stored) + inside) \<le> bound"

lemma key_bounded_later:
  assumes "key_bounded bound window clock stored failed inside" "clock \<le> now"
  shows "key_bounded bound window now stored failed inside"
proof -
  have le: "clock - window \<le> now - window" using assms(2) by simp
  have "newer (now - window) stored = newer (now - window) failed"
    using assms(1) newer_later [OF le, of stored] newer_later [OF le, of failed] by (simp add: key_bounded_def)
  moreover have "length (newer (now - window) stored) \<le> length (newer (clock - window) stored)"
    using newer_later [OF le, of stored] by (metis length_filter_le newer_def)
  ultimately show ?thesis using assms by (force simp: key_bounded_def)
qed

lemma key_bounded_prune:
  assumes "key_bounded bound window now stored failed inside"
  shows "key_bounded bound window now (newer (now - window) stored) failed inside"
proof -
  have *: "sorted stored" "\<forall>t \<in> set stored. t \<le> now" using assms by (simp_all add: key_bounded_def)
  have "sorted (newer (now - window) stored)" "\<forall>t \<in> set (newer (now - window) stored). t \<le> now"
    unfolding newer_def using * by (simp_all add: sorted_wrt_filter)
  with assms show ?thesis by (auto simp: key_bounded_def newer_later)
qed

lemma key_bounded_fail:
  assumes "key_bounded bound window now stored failed (Suc inside)"
  shows "key_bounded bound window now (stored @ [now]) (failed @ [now]) inside"
  using assms by (auto simp: key_bounded_def sorted_append) (auto simp: newer_def)

definition throttle_inv :: "int \<Rightarrow> time \<Rightarrow> nat \<Rightarrow> ThrottleSys \<Rightarrow> bool" where
  "throttle_inv M W C x \<longleftrightarrow> th_max_failures (ts_throttle x) = M \<and> th_window (ts_throttle x) = W \<and>
     th_slots (ts_throttle x) + length (ts_inside x) + ts_leaving x = C \<and>
     (\<forall>k. key_bounded (M - 1 + int C) W (ts_clock x) (attempts_of (ts_throttle x) k) (failures_of x k)
        (count_list (ts_inside x) k))"

lemma attempts_of_simps [simp]:
  "attempts_of (record_failure k now th) k' = (if k' = k then attempts_of th k @ [now] else attempts_of th k')"
  "attempts_of (record_success k th) k' = (if k' = k then [] else attempts_of th k')"
  "attempts_of (release th) = attempts_of th" "attempts_of (th\<lparr>th_slots := n\<rparr>) = attempts_of th"
  by (auto simp: attempts_of_def record_failure_def record_success_def release_def dget_dset fun_eq_iff
      delete_conv split: option.split)

lemma throttle_enter_Inr:
  "throttle_enter k now th = (Inr u, th') \<Longrightarrow> sorted (attempts_of th k) \<Longrightarrow>
     0 < th_slots th \<and> th_slots th' = th_slots th - 1 \<and> th_max_failures th' = th_max_failures th \<and>
     th_window th' = th_window th \<and> int (length (attempts_of th' k)) < th_max_failures th \<and>
     attempts_of th' = (attempts_of th)(k := newer (now - th_window th) (attempts_of th k))"
  by (auto simp: throttle_enter_def Let_def dropWhile_newer fun_eq_iff attempts_of_def dget_dset release_def
      split: if_splits)

lemma throttle_enter_Inl:
  "throttle_enter k now th = (Inl e, th') \<Longrightarrow> sorted (attempts_of th k) \<Longrightarrow>
     e = LoginRateLimited \<and> th_slots th' = th_slots th \<and> th_max_failures th' = th_max_failures th \<and>
     th_window th' = th_window th \<and>
     (attempts_of th' = attempts_of th \<or> attempts_of th' = (attempts_of th)(k := newer (now - th_window th) (attempts_of th k)))"
  by (auto simp: throttle_enter_def Let_def dropWhile_newer fun_eq_iff attempts_of_def dget_dset release_def
      split: if_splits)

lemma count_list_remove1:
  "k \<in> set xs \<Longrightarrow> count_list (remove1 k xs) k' = (if k' = k then count_list xs k - 1 else count_list xs k')"
  by (induction xs) (auto simp: count_list_0_iff count_notin)

lemma length_remove1_in: "k \<in> set xs \<Longrightarrow> length (remove1 k xs) + 1 = length xs"
  by (induction xs) auto

lemma count_list_pos: "k \<in> set xs \<Longrightarrow> 0 < count_list xs k"
  by (induction xs) auto

lemma throttle_invD:
  "throttle_inv M W C x \<Longrightarrow> key_bounded (M - 1 + int C) W (ts_clock x) (attempts_of (ts_throttle x) k) (failures_of x k)
     (count_list (ts_inside x) k)"
  by (simp add: throttle_inv_def)

lemma throttle_inv_later: "throttle_inv M W C x \<Longrightarrow> ts_clock x \<le> now \<Longrightarrow> throttle_inv M W C (x\<lparr>ts_clock := now\<rparr>)"
  by (auto simp: throttle_inv_def failures_of_def intro: key_bounded_later)

lemma throttle_inv_prune:
  assumes "throttle_inv M W C x" "th_slots th = th_slots (ts_throttle x)" "th_max_failures th = M" "th_window th = W"
    and "attempts_of th = (attempts_of (ts_throttle x))(k := newer (ts_clock x - W) (attempts_of (ts_throttle x) k))"
  shows "throttle_inv M W C (x\<lparr>ts_throttle := th\<rparr>)"
  using assms by (auto simp: throttle_inv_def failures_of_def dest: key_bounded_prune)

lemma throttle_step_inv:
  assumes "throttle_step x y" "throttle_inv M W C x"
  shows "throttle_inv M W C y"
  using assms
proof (induction rule: throttle_step.induct)
  case (t_enter x now k th)
  let ?y = "x\<lparr>ts_clock := now\<rparr>"
  have y: "throttle_inv M W C ?y" by (rule throttle_inv_later [OF t_enter(3,1)])
  have "sorted (attempts_of (ts_throttle x) k)" using throttle_invD [OF t_enter(3)] by (simp add: key_bounded_def)
  note th = throttle_enter_Inr [OF t_enter(2) this]
  have W: "th_window (ts_throttle x) = W" "th_max_failures (ts_throttle x) = M"
    "th_slots (ts_throttle x) + length (ts_inside x) + ts_leaving x = C"
    using t_enter(3) by (simp_all add: throttle_inv_def)
  have "key_bounded (M - 1 + int C) W now (attempts_of th k') (failures_of x k') (count_list (k # ts_inside x) k')" for k'
  proof (cases "k' = k")
    case True
    have b: "key_bounded (M - 1 + int C) W now (newer (now - W) (attempts_of (ts_throttle x) k)) (failures_of x k)
        (count_list (ts_inside x) k)"
      using key_bounded_prune [OF throttle_invD [OF y, of k, simplified]] by (simp add: failures_of_def)
    moreover have "count_list (ts_inside x) k < C"
      using count_le_length [of "ts_inside x" k] th W by linarith
    moreover have "int (length (newer (now - W) (attempts_of (ts_throttle x) k))) \<le> M - 1"
      using th W by (metis fun_upd_same zle_diff1_eq)
    ultimately show ?thesis using True th W by (auto simp: key_bounded_def newer_later)
  next
    case False
    with throttle_invD [OF y, of k'] th show ?thesis by (simp add: failures_of_def)
  qed
  with th W show ?case by (simp add: throttle_inv_def failures_of_def)
next
  case (t_limited x now k e th)
  let ?y = "x\<lparr>ts_clock := now\<rparr>"
  have y: "throttle_inv M W C ?y" by (rule throttle_inv_later [OF t_limited(3,1)])
  have "sorted (attempts_of (ts_throttle x) k)" using throttle_invD [OF t_limited(3)] by (simp add: key_bounded_def)
  note th = throttle_enter_Inl [OF t_limited(2) this]
  have W: "th_window (ts_throttle x) = W" "th_max_failures (ts_throttle x) = M"
    using t_limited(3) by (simp_all add: throttle_inv_def)
  show ?case
  proof (cases "attempts_of th = attempts_of (ts_throttle x)")
    case True
    with y th W show ?thesis by (simp add: throttle_inv_def failures_of_def)
  next
    case False
    with th W throttle_inv_prune [OF y, of th k] show ?thesis by (simp add: throttle_inv_def failures_of_def)
  qed
next
  case (t_fail x now k)
  have y: "throttle_inv M W C (x\<lparr>ts_clock := now\<rparr>)" by (rule throttle_inv_later [OF t_fail(3,1)])
  have "key_bounded (M - 1 + int C) W now (attempts_of (record_failure k now (ts_throttle x)) k')
      (failures_of (x\<lparr>ts_failed := ts_failed x @ [(k, now)]\<rparr>) k') (count_list (remove1 k (ts_inside x)) k')" for k'
    using throttle_invD [OF y, of k'] count_list_pos [OF t_fail(2)]
    by (auto simp: count_list_remove1 [OF t_fail(2)] failures_of_def intro!: key_bounded_fail)
  moreover have "length (remove1 k (ts_inside x)) + 1 = length (ts_inside x)"
    by (rule length_remove1_in [OF t_fail(2)])
  ultimately show ?case using t_fail(3) by (simp add: throttle_inv_def failures_of_def record_failure_def)
next
  case (t_succeed k x)
  have "key_bounded (M - 1 + int C) W (ts_clock x) (attempts_of (record_success k (ts_throttle x)) k')
      (failures_of (x\<lparr>ts_failed := filter (\<lambda>(k', _). k' \<noteq> k) (ts_failed x)\<rparr>) k') (count_list (remove1 k (ts_inside x)) k')" for k'
  proof (cases "k' = k")
    case True
    with throttle_invD [OF t_succeed(2), of k] show ?thesis
      by (auto simp: failures_of_def key_bounded_def newer_def count_list_remove1 [OF t_succeed(1)] split_def)
  next
    case False
    then have "filter (\<lambda>(k'', _). k'' = k') (filter (\<lambda>(k', _). k' \<noteq> k) (ts_failed x)) = filter (\<lambda>(k'', _). k'' = k') (ts_failed x)"
      by (induction "ts_failed x") (auto simp: split_def filter_filter intro!: filter_cong)
    with False throttle_invD [OF t_succeed(2), of k'] show ?thesis
      by (simp add: failures_of_def count_list_remove1 [OF t_succeed(1)])
  qed
  moreover have "length (remove1 k (ts_inside x)) + 1 = length (ts_inside x)"
    by (rule length_remove1_in [OF t_succeed(1)])
  ultimately show ?case using t_succeed(2) by (simp add: throttle_inv_def failures_of_def record_success_def)
next
  case (t_abort k x)
  have "key_bounded (M - 1 + int C) W (ts_clock x) (attempts_of (ts_throttle x) k') (failures_of x k')
      (count_list (remove1 k (ts_inside x)) k')" for k'
    using throttle_invD [OF t_abort(2), of k'] by (auto simp: key_bounded_def count_list_remove1 [OF t_abort(1)])
  moreover have "length (remove1 k (ts_inside x)) + 1 = length (ts_inside x)"
    by (rule length_remove1_in [OF t_abort(1)])
  ultimately show ?case using t_abort(2) by (simp add: throttle_inv_def failures_of_def)
next
  case (t_leave x)
  then show ?case by (auto simp: throttle_inv_def failures_of_def) (auto simp: release_def)
qed

lemma throttle_inv_start: "1 \<le> M \<Longrightarrow> throttle_inv M W C (start_throttle M W C now)"
  by (simp add: throttle_inv_def start_throttle_def make_throttle_def key_bounded_def attempts_of_def failures_of_def newer_def)

lemma throttle_steps_inv:
  "throttle_step\<^sup>*\<^sup>* x y \<Longrightarrow> throttle_inv M W C x \<Longrightarrow> throttle_inv M W C y"
  by (induction rule: rtranclp_induct) (auto dest: throttle_step_inv)

lemma set_session_unfold:
  "set_session lib ttl dr user s = (Inr (dr_token dr), s\<lparr>as_repo := snd (create_session (us_id user)
     (session_token_digest lib (dr_token dr)) (dr_now dr + seconds ttl) (dr_now dr) (as_repo s))\<rparr>)"
  by (simp add: set_session_def bind_def on_auth_def create_session_def)

text \<open>A login request is a sequence of these steps that gives its slot back.\<close>

lemma login_takes_throttle_steps:
  assumes "ts_throttle x = as_throttle s" "ts_clock x \<le> dr_enter dr" "dr_enter dr \<le> dr_failed dr"
  shows "\<exists>y. throttle_step\<^sup>*\<^sup>* x y \<and> ts_throttle y = as_throttle (snd (login lib ttl dr client username password s)) \<and>
    ts_inside y = ts_inside x \<and> ts_leaving y = ts_leaving x"
proof -
  define k where "k = (case client of None \<Rightarrow> ''unknown'' | Some host \<Rightarrow> host) @ '':'' @ username"
  have login: "login lib ttl dr client username password s =
      bind (with_attempt k (dr_enter dr) (check_credentials lib dr k username password)) (\<lambda>user.
      bind (set_session lib ttl dr user) (\<lambda>token. ret (user, token))) s"
    by (simp only: login_def Let_def k_def)
  obtain r th where e: "throttle_enter k (dr_enter dr) (as_throttle s) = (r, th)" by (cases "throttle_enter k (dr_enter dr) (as_throttle s)")
  show ?thesis
  proof (cases r)
    case (Inl ex)
    have "throttle_step x (x\<lparr>ts_throttle := th, ts_clock := dr_enter dr\<rparr>)"
      using t_limited [OF assms(2)] e Inl assms(1) by simp
    moreover have "as_throttle (snd (login lib ttl dr client username password s)) = th"
      using e Inl by (simp add: login with_attempt_def bind_def on_throttle_def)
    ultimately show ?thesis by (intro exI [of _ "x\<lparr>ts_throttle := th, ts_clock := dr_enter dr\<rparr>"]) simp
  next
    case (Inr u)
    define y where "y = x\<lparr>ts_throttle := th, ts_inside := k # ts_inside x, ts_clock := dr_enter dr\<rparr>"
    have y: "throttle_step x y" unfolding y_def using t_enter [OF assms(2)] e Inr assms(1) by simp
    define c where "c = check_credentials lib dr k username password (s\<lparr>as_throttle := th\<rparr>)"
    have out: "as_throttle (snd (login lib ttl dr client username password s)) = release (as_throttle (snd c))"
      using e Inr by (simp add: login with_attempt_def bind_def on_throttle_def c_def set_session_unfold
          split: prod.split sum.split)
    have "as_throttle (snd c) \<in> {th, record_failure k (dr_failed dr) th, record_success k th}"
      by (simp add: c_def check_credentials_def bind_def on_auth_def find_user_def on_throttle_def split: option.split sum.split)
    moreover have "k \<in> set (ts_inside y)" "ts_clock y \<le> dr_failed dr" using assms(3) by (simp_all add: y_def)
    ultimately obtain z where z: "throttle_step y z" "ts_throttle z = as_throttle (snd c)" "ts_inside z = ts_inside x"
        "ts_leaving z = ts_leaving x + 1"
      using t_abort [of k y] t_fail [of y "dr_failed dr" k] t_succeed [of k y] by (auto simp: y_def)
    have "throttle_step z (z\<lparr>ts_throttle := release (ts_throttle z), ts_leaving := ts_leaving z - 1\<rparr>)"
      by (rule t_leave) (simp add: z)
    with y z(1) have "throttle_step\<^sup>*\<^sup>* x (z\<lparr>ts_throttle := release (ts_throttle z), ts_leaving := ts_leaving z - 1\<rparr>)"
      by (blast intro: converse_rtranclp_into_rtranclp)
    with z out show ?thesis
      by (intro exI [of _ "z\<lparr>ts_throttle := release (ts_throttle z), ts_leaving := ts_leaving z - 1\<rparr>"]) simp
  qed
qed

section \<open>Sessions over time\<close>

text \<open>
  The operations of the repository, each at a reading of the clock, labelled with the digest of the session they touch. A new
  session has a digest that no stored session has: its token is drawn from 32 random bytes.
\<close>

inductive session_step :: "string option \<Rightarrow> time \<times> AuthRepo \<Rightarrow> time \<times> AuthRepo \<Rightarrow> bool" where
  s_init: "c \<le> now \<Longrightarrow>
     session_step None (c, s) (now, snd (initialize_admin lib username display password fresh now s))"
| s_create: "c \<le> now \<Longrightarrow> d \<notin> ss_token_digest ` set (au_sessions s) \<Longrightarrow>
     session_step (Some d) (c, s) (now, snd (create_session user_id d expires now s))"
| s_revoke: "c \<le> now \<Longrightarrow> session_step (Some d) (c, s) (now, snd (revoke_session d now s))"

abbreviation any_session_step :: "time \<times> AuthRepo \<Rightarrow> time \<times> AuthRepo \<Rightarrow> bool" where
  "any_session_step x y \<equiv> \<exists>l. session_step l x y"

text \<open>Steps that do not touch the session of a digest.\<close>

abbreviation other_step :: "string \<Rightarrow> time \<times> AuthRepo \<Rightarrow> time \<times> AuthRepo \<Rightarrow> bool" where
  "other_step d x y \<equiv> \<exists>l. session_step l x y \<and> l \<noteq> Some d"

inductive_cases session_stepE: "session_step l (c, s) y"

lemma revoke_first_other:
  "d \<noteq> d' \<Longrightarrow> find (\<lambda>x. ss_token_digest x = d) (revoke_first d' now ss) = find (\<lambda>x. ss_token_digest x = d) ss"
  by (induction ss) auto

lemma revoke_first_find:
  "find (\<lambda>x. ss_token_digest x = d) (revoke_first d now ss) =
     map_option (\<lambda>x. x\<lparr>ss_revoked_at := Some (case ss_revoked_at x of None \<Rightarrow> now | Some t \<Rightarrow> t)\<rparr>)
       (find (\<lambda>x. ss_token_digest x = d) ss)"
  by (induction ss) auto

lemma revoke_first_digests: "map ss_token_digest (revoke_first d now ss) = map ss_token_digest ss"
  by (induction ss) auto

lemma find_filter_distinct:
  assumes "distinct (map ss_token_digest ss)"
  shows "find (\<lambda>x. ss_token_digest x = d) (filter P ss) =
    (case find (\<lambda>x. ss_token_digest x = d) ss of None \<Rightarrow> None | Some x \<Rightarrow> if P x then Some x else None)"
  using assms
proof (induction ss)
  case (Cons x ss)
  then show ?case
  proof (cases "ss_token_digest x = d")
    case True
    have "ss_token_digest x \<notin> set (map ss_token_digest ss)" using Cons.prems by simp
    then have "\<forall>y \<in> set ss. ss_token_digest y \<noteq> d" unfolding True [symmetric] by (metis image_eqI list.set_map)
    then have "find (\<lambda>x. ss_token_digest x = d) (filter P ss) = None" by (simp add: find_None_iff)
    with True show ?thesis by simp
  qed auto
qed simp

definition auth_inv :: "AuthRepo \<Rightarrow> bool" where
  "auth_inv s \<longleftrightarrow> distinct (map ss_token_digest (au_sessions s)) \<and> (\<not> au_initialized s \<longrightarrow> au_users s = [])"

lemma distinct_map_filter_digest:
  "distinct (map ss_token_digest ss) \<Longrightarrow> distinct (map ss_token_digest (filter P ss))"
  by (simp add: distinct_map_filter)

lemma initialize_admin_cases:
  "snd (initialize_admin lib username display password fresh now s) = s \<or>
   \<not> au_initialized s \<and> au_initialized (snd (initialize_admin lib username display password fresh now s)) \<and>
   au_sessions (snd (initialize_admin lib username display password fresh now s)) = au_sessions s"
  by (simp add: initialize_admin_def bind_def Let_def split: sum.split)

lemma session_step_inv:
  assumes "session_step l x y" "auth_inv (snd x)"
  shows "auth_inv (snd y)"
  using assms
proof (induction rule: session_step.induct)
  case (s_init c now s lib username display password fresh)
  with initialize_admin_cases [of lib username display password fresh now s] show ?case
    by (auto simp: auth_inv_def)
next
  case (s_create c now d s user_id expires)
  have "d \<notin> ss_token_digest ` set (filter P (au_sessions s))" for P using s_create(2) by auto
  with s_create(3) show ?case
    by (auto simp: auth_inv_def create_session_def distinct_map_filter_digest)
next
  case (s_revoke c now d s)
  then show ?case by (simp add: auth_inv_def revoke_session_def revoke_first_digests)
qed

lemma steps_auth_inv: "any_session_step\<^sup>*\<^sup>* x y \<Longrightarrow> auth_inv (snd x) \<Longrightarrow> auth_inv (snd y)"
  by (induction rule: rtranclp_induct) (auto dest: session_step_inv)

lemma step_clock: "session_step l x y \<Longrightarrow> fst x \<le> fst y"
  by (induction rule: session_step.induct) auto

lemma find_append: "find P (xs @ ys) = (case find P xs of None \<Rightarrow> find P ys | Some x \<Rightarrow> Some x)"
  by (induction xs) auto

abbreviation session_of :: "string \<Rightarrow> AuthRepo \<Rightarrow> Session option" where
  "session_of d s \<equiv> find (\<lambda>x. ss_token_digest x = d) (au_sessions s)"

text \<open>
  The session of a digest as the others' steps leave it: it is still stored unless its time is over, and its user is unchanged.
\<close>

definition keeps_session :: "string \<Rightarrow> Session \<Rightarrow> UserRecord \<Rightarrow> time \<times> AuthRepo \<Rightarrow> bool" where
  "keeps_session d session user x \<longleftrightarrow> auth_inv (snd x) \<and>
     dget (au_users (snd x)) (ss_user_id session) = Some user \<and>
     (session_of d (snd x) = Some session \<or>
      session_of d (snd x) = None \<and> (ss_expires_at session \<le> fst x \<or> ss_revoked_at session \<noteq> None))"

lemma keeps_session_step:
  assumes "session_step l x y" "l \<noteq> Some d" "keeps_session d session user x"
  shows "keeps_session d session user y"
  using assms
proof (induction rule: session_step.induct)
  case (s_init c now s lib username display password fresh)
  let ?t = "snd (initialize_admin lib username display password fresh now s)"
  have "au_initialized s" using s_init(3) by (auto simp: keeps_session_def auth_inv_def)
  then have "?t = s" using initialize_admin_cases [of lib username display password fresh now s] by auto
  with s_init show ?case by (auto simp: keeps_session_def)
next
  case (s_create c now d' s user_id expires)
  have inv: "auth_inv (snd (create_session user_id d' expires now s))"
    using session_step_inv [OF session_step.s_create [OF s_create(1,2)]] s_create(4) by (simp add: keeps_session_def)
  have "distinct (map ss_token_digest (au_sessions s))" using s_create(4) by (simp add: keeps_session_def auth_inv_def)
  note f = find_filter_distinct [OF this, of d]
  have "session_of d (snd (create_session user_id d' expires now s)) =
      (case session_of d s of None \<Rightarrow> None | Some x \<Rightarrow> if ss_revoked_at x = None \<and> now < ss_expires_at x then Some x else None)"
    using s_create(3) by (simp add: create_session_def find_append f split: option.split)
  with s_create inv show ?case
    by (auto simp: keeps_session_def create_session_def split: option.splits)
next
  case (s_revoke c now d' s)
  have inv: "auth_inv (snd (revoke_session d' now s))"
    using session_step_inv [OF session_step.s_revoke [OF s_revoke(1)]] s_revoke(3) by (simp add: keeps_session_def)
  with s_revoke show ?case by (auto simp: keeps_session_def revoke_session_def revoke_first_other)
qed

lemma keeps_session_steps:
  "(other_step d)\<^sup>*\<^sup>* x y \<Longrightarrow> keeps_session d session user x \<Longrightarrow> keeps_session d session user y"
  by (induction rule: rtranclp_induct) (auto intro: keeps_session_step)

lemma resolve_kept:
  assumes "keeps_session d session user (c, s)" "c \<le> later"
  shows "resolve_session d later s =
    (Inr (if ss_revoked_at session = None \<and> later < ss_expires_at session \<and> us_is_active user then Some user else None), s)"
  using assms by (auto simp: keeps_session_def resolve_session_def session_user_def)

lemma keeps_new_session:
  assumes "auth_inv s" "d \<notin> ss_token_digest ` set (au_sessions s)" "dget (au_users s) u = Some user"
  shows "keeps_session d \<lparr>ss_user_id = u, ss_token_digest = d, ss_expires_at = expires, ss_revoked_at = None\<rparr> user
    (now, snd (create_session u d expires now s))"
proof -
  have "find (\<lambda>x. ss_token_digest x = d) (filter P (au_sessions s)) = None" for P
    using assms(2) by (auto simp: find_None_iff)
  moreover have "auth_inv (snd (create_session u d expires now s))"
    using session_step_inv [OF session_step.s_create [OF order_refl assms(2)], of now u expires] assms(1) by simp
  ultimately show ?thesis
    using assms(3) by (simp add: keeps_session_def create_session_def find_append)
qed

lemma keeps_revoked_session:
  assumes "keeps_session d session user (c, s)" "c \<le> now"
  shows "\<exists>session'. ss_revoked_at session' \<noteq> None \<and> keeps_session d session' user (now, snd (revoke_session d now s))"
proof -
  have inv: "auth_inv (snd (revoke_session d now s))"
    using session_step_inv [OF session_step.s_revoke [OF assms(2)]] assms(1) by (simp add: keeps_session_def)
  let ?r = "session\<lparr>ss_revoked_at := Some (case ss_revoked_at session of None \<Rightarrow> now | Some t \<Rightarrow> t)\<rparr>"
  have "keeps_session d ?r user (now, snd (revoke_session d now s))"
    using assms(1) inv by (auto simp: keeps_session_def revoke_session_def revoke_first_find)
  then show ?thesis by (intro exI [of _ ?r]) simp
qed

section \<open>Demonstration\<close>

definition demo_lib :: AuthLib where
  "demo_lib = \<lparr>al_nfkc = (\<lambda>s. s), al_casefold = lower, al_pbkdf2 = (\<lambda>p salt n. take 32 (p @ replicate 32 (CHR ''.''))),
     al_sha256 = (\<lambda>s. s)\<rparr>"

definition demo_draws :: "string \<Rightarrow> time \<Rightarrow> AuthDraws" where
  "demo_draws token now = \<lparr>dr_token = token, dr_salt = replicate 32 (CHR ''s''), dr_now = now, dr_enter = now, dr_failed = now\<rparr>"

definition demo_auth :: AuthSys where
  "demo_auth = snd (setup_admin demo_lib 60 (demo_draws ''t1'' 10) ''Root'' ''Admin'' ''secret'' 1
     \<lparr>as_repo = empty_auth, as_throttle = make_throttle 2 1000 1\<rparr>)"

lemma demo_auth_value:
  "demo_auth = \<lparr>as_repo = \<lparr>au_initialized = True, au_users = [(1, \<lparr>us_id = 1, us_username = ''root'', us_display_name = ''Admin'',
       us_role = ROLE_ADMIN, us_is_active = True, us_created_at = 10, us_updated_at = 10, us_password =
         \<lparr>pw_salt = replicate 32 (CHR ''s''), pw_digest = ''secret'' @ replicate 26 (CHR ''.''), pw_iterations = 600000\<rparr>\<rparr>)],
      au_usernames = [(''root'', 1)],
      au_sessions = [\<lparr>ss_user_id = 1, ss_token_digest = ''t1'', ss_expires_at = 60000010, ss_revoked_at = None\<rparr>]\<rparr>,
     as_throttle = make_throttle 2 1000 1\<rparr>"
  by code_simp

section \<open>Properties\<close>



text \<open>C36. A login that succeeds was asked for a stored, active user under the normalised name with the password whose key derivation equals
  the stored digest, and while a slot was free and the key below its limit; it adds exactly the session of the drawn token to the repository
  and forgets the key's failures. A login that fails leaves the repository unchanged. Either way the slot is returned.\<close>

theorem login_needs_the_password:
  assumes "login lib ttl dr client username password s = (r, t)"
    and "key = (case client of None \<Rightarrow> ''unknown'' | Some host \<Rightarrow> host) @ '':'' @ username"
  shows "th_slots (as_throttle t) = th_slots (as_throttle s) \<and>
    (case r of
       Inl e \<Rightarrow> as_repo t = as_repo s
     | Inr (user, token) \<Rightarrow>
         (\<exists>i. dget (au_usernames (as_repo s)) (normalize_username lib username) = Some i \<and>
            dget (au_users (as_repo s)) i = Some user) \<and>
         us_is_active user \<and>
         al_pbkdf2 lib (utf8_encode password) (pw_salt (us_password user)) (pw_iterations (us_password user)) =
           pw_digest (us_password user) \<and>
         0 < th_slots (as_throttle s) \<and>
         int (length (dropWhile (\<lambda>u. u \<le> dr_enter dr - th_window (as_throttle s)) (attempts_of (as_throttle s) key)))
           < th_max_failures (as_throttle s) \<and>
         token = dr_token dr \<and> attempts_of (as_throttle t) key = [] \<and>
         as_repo t = snd (create_session (us_id user) (session_token_digest lib token)
           (dr_now dr + seconds ttl) (dr_now dr) (as_repo s)))"
proof -
  define body where "body = check_credentials lib dr key username password"
  have login: "login lib ttl dr client username password s =
      bind (with_attempt key (dr_enter dr) body) (\<lambda>user.
      bind (set_session lib ttl dr user) (\<lambda>token. ret (user, token))) s"
    by (simp only: login_def Let_def assms(2) body_def)
  obtain er th where e: "throttle_enter key (dr_enter dr) (as_throttle s) = (er, th)"
    by (cases "throttle_enter key (dr_enter dr) (as_throttle s)")
  show ?thesis
  proof (cases er)
    case (Inl ex)
    then have "r = Inl ex" "t = s\<lparr>as_throttle := th\<rparr>"
      using assms(1) e by (simp_all add: login with_attempt_def bind_def on_throttle_def)
    moreover have "th_slots th = th_slots (as_throttle s)"
      using e Inl by (auto simp: throttle_enter_def Let_def release_def split: if_splits)
    ultimately show ?thesis by simp
  next
    case (Inr u)
    have th: "0 < th_slots (as_throttle s)" "th_slots th = th_slots (as_throttle s) - 1"
      "int (length (dropWhile (\<lambda>u. u \<le> dr_enter dr - th_window (as_throttle s)) (attempts_of (as_throttle s) key)))
        < th_max_failures (as_throttle s)"
      using e Inr by (auto simp: throttle_enter_def Let_def split: if_splits)
    obtain br s' where b: "body (s\<lparr>as_throttle := th\<rparr>) = (br, s')" by (cases "body (s\<lparr>as_throttle := th\<rparr>)")
    have s': "as_repo s' = as_repo s" "th_slots (as_throttle s') = th_slots th"
      using b by (auto simp: body_def check_credentials_def bind_def on_auth_def find_user_def on_throttle_def record_failure_def
          record_success_def split: option.splits sum.splits if_splits)
    show ?thesis
    proof (cases br)
      case (Inl ex)
      then have "r = Inl ex" "t = s'\<lparr>as_throttle := release (as_throttle s')\<rparr>"
        using assms(1) e b \<open>er = Inr u\<close> by (simp_all add: login with_attempt_def bind_def on_throttle_def)
      with s' th show ?thesis by (simp add: release_def)
    next
      case (Inr user)
      then have r: "r = Inr (user, dr_token dr)" and t: "as_throttle t = release (as_throttle s')"
          "as_repo t = snd (create_session (us_id user) (session_token_digest lib (dr_token dr))
             (dr_now dr + seconds ttl) (dr_now dr) (as_repo s))"
        using assms(1) e b \<open>er = Inr u\<close> s' by (auto simp: login with_attempt_def bind_def on_throttle_def set_session_unfold)
      have "as_throttle s' = record_success key th" "us_is_active user" "verify_password lib password (us_password user)"
        "\<exists>i. dget (au_usernames (as_repo s)) (normalize_username lib username) = Some i \<and> dget (au_users (as_repo s)) i = Some user"
        using b Inr by (auto simp: body_def check_credentials_def bind_def on_auth_def find_user_def on_throttle_def
            split: option.splits sum.splits if_splits)
      with r t th s' show ?thesis by (simp add: verify_password_def release_def)
    qed
  qed
qed

theorem login_needs_the_password_witness:
  "fst (login demo_lib 60 (demo_draws ''t2'' 20) None ''root'' ''secret'' demo_auth) =
     Inr (the (dget (au_users (as_repo demo_auth)) 1), ''t2'') \<and>
   (\<exists>t. login demo_lib 60 (demo_draws ''t2'' 20) None ''root'' ''guess'' demo_auth = (Inl InvalidCredentials, t) \<and>
     as_repo t = as_repo demo_auth)"
proof -
  have "fst (login demo_lib 60 (demo_draws ''t2'' 20) None ''root'' ''secret'' demo_auth) =
     Inr (the (dget (au_users (as_repo demo_auth)) 1), ''t2'')" by code_simp
  moreover have "fst (login demo_lib 60 (demo_draws ''t2'' 20) None ''root'' ''guess'' demo_auth) = Inl InvalidCredentials"
    by code_simp
  then obtain t where t: "login demo_lib 60 (demo_draws ''t2'' 20) None ''root'' ''guess'' demo_auth = (Inl InvalidCredentials, t)"
    by (metis prod.collapse)
  with login_needs_the_password [OF t refl] have "as_repo t = as_repo demo_auth" by simp
  ultimately show ?thesis using t by blast
qed

text \<open>A session lives exactly until it expires or is revoked: after \<open>create_session\<close> with a fresh digest, in any
  reachable repository and whatever set-ups, other sessions and other logouts follow, the digest resolves to the user (while the user is
  active) before the expiry and to nobody from then on; once it is revoked it resolves to nobody for ever.\<close>

theorem session_lives_until_expiry_or_logout:
  assumes "any_session_step\<^sup>*\<^sup>* (c0, empty_auth) (c, s)" "c \<le> now"
    and "d \<notin> ss_token_digest ` set (au_sessions s)" "dget (au_users s) i = Some user"
    and "create_session i d expires now s = (Inr (), t)"
    and "(other_step d)\<^sup>*\<^sup>* (now, t) (c1, u)" "c1 \<le> n1"
  shows "resolve_session d n1 u = (Inr (if n1 < expires \<and> us_is_active user then Some user else None), u) \<and>
    (\<forall>c2 w n2. (other_step d)\<^sup>*\<^sup>* (n1, snd (revoke_session d n1 u)) (c2, w) \<longrightarrow> c2 \<le> n2 \<longrightarrow>
      resolve_session d n2 w = (Inr None, w))"
proof -
  let ?x = "\<lparr>ss_user_id = i, ss_token_digest = d, ss_expires_at = expires, ss_revoked_at = None\<rparr>"
  have inv: "auth_inv s" using steps_auth_inv [OF assms(1)] by (simp add: auth_inv_def empty_auth_def)
  have "t = snd (create_session i d expires now s)" using assms(5) by simp
  then have "keeps_session d ?x user (now, t)"
    using keeps_new_session [OF inv assms(3,4)] by simp
  then have k: "keeps_session d ?x user (c1, u)" by (rule keeps_session_steps [OF assms(6)])
  have "resolve_session d n2 w = (Inr None, w)"
    if w: "(other_step d)\<^sup>*\<^sup>* (n1, snd (revoke_session d n1 u)) (c2, w)" "c2 \<le> n2" for c2 w n2
  proof -
    obtain y where y: "ss_revoked_at y \<noteq> None" "keeps_session d y user (n1, snd (revoke_session d n1 u))"
      using keeps_revoked_session [OF k assms(7)] by blast
    with resolve_kept [OF keeps_session_steps [OF w(1) y(2)] w(2)] show ?thesis by simp
  qed
  with resolve_kept [OF k assms(7)] show ?thesis by simp
qed

theorem session_lives_until_expiry_or_logout_witness:
  "\<exists>s user u. any_session_step\<^sup>*\<^sup>* (0, empty_auth) (10, s) \<and> create_session 1 ''t2'' 50 20 s = (Inr (), u) \<and>
     resolve_session ''t2'' 49 u = (Inr (Some user), u) \<and>
     resolve_session ''t2'' 50 u = (Inr None, u) \<and>
     resolve_session ''t2'' 60 (snd (revoke_session ''t2'' 40 u)) = (Inr None, snd (revoke_session ''t2'' 40 u))"
proof -
  let ?p = "\<lparr>pw_salt = replicate 32 (CHR ''s''), pw_digest = replicate 32 (CHR ''d''), pw_iterations = 600000\<rparr>"
  define s where "s = snd (initialize_admin demo_lib ''Root'' ''Admin'' ?p 1 10 empty_auth)"
  define u where "u = snd (create_session 1 ''t2'' 50 20 s)"
  have step: "any_session_step (0, empty_auth) (10, s)"
    unfolding s_def by (intro exI [of _ None] s_init) simp
  have "au_sessions s = [] \<and> (case dget (au_users s) 1 of None \<Rightarrow> False | Some user \<Rightarrow> us_is_active user)"
    unfolding s_def by code_simp
  then obtain user where user: "au_sessions s = []" "dget (au_users s) 1 = Some user" "us_is_active user"
    by (auto split: option.splits)
  have reach: "any_session_step\<^sup>*\<^sup>* (0, empty_auth) (10, s)" using step by (rule r_into_rtranclp)
  have create: "create_session 1 ''t2'' 50 20 s = (Inr (), u)" by (simp add: u_def create_session_def)
  have fresh: "''t2'' \<notin> ss_token_digest ` set (au_sessions s)" using user(1) by simp
  note T = session_lives_until_expiry_or_logout [OF reach _ fresh user(2) create rtranclp.rtrancl_refl]
  have "resolve_session ''t2'' 60 (snd (revoke_session ''t2'' 40 u)) = (Inr None, snd (revoke_session ''t2'' 40 u))"
    by (rule T [of 40, THEN conjunct2, rule_format, OF _ _ rtranclp.rtrancl_refl]) simp_all
  moreover have "resolve_session ''t2'' 49 u = (Inr (Some user), u)" "resolve_session ''t2'' 50 u = (Inr None, u)"
    using T [of 49] T [of 50] user(3) by simp_all
  ultimately show ?thesis using reach create by blast
qed

end
