(* ===== verification/Catalog.thy ===== *)
theory Catalog
  imports Versioned
begin

text \<open>
  Repositories whose records carry a name that is unique: the dictionary of records, the dictionary of names that finds them,
  the steps the operations may take, and the contract that follows. Projects, enumerations of parameters, connectors, load tests
  and data factory workflows provide it.
\<close>

section \<open>The index of names\<close>

definition index_ok ::
  "('r \<Rightarrow> uuid) \<Rightarrow> ('r \<Rightarrow> 'n) \<Rightarrow> (uuid, 'r) dict \<Rightarrow> ('n, uuid) dict \<Rightarrow> bool" where
  "index_ok rid nm recs names \<longleftrightarrow>
     (\<forall>k r. dget recs k = Some r \<longrightarrow> rid r = k \<and> dget names (nm r) = Some k) \<and>
     (\<forall>n k. dget names n = Some k \<longrightarrow> (\<exists>r. dget recs k = Some r \<and> nm r = n))"

lemma index_okD:
  "index_ok rid nm recs names \<Longrightarrow> dget recs k = Some r \<Longrightarrow> rid r = k \<and> dget names (nm r) = Some k"
  by (simp add: index_ok_def)

lemma index_ok_owner:
  "index_ok rid nm recs names \<Longrightarrow> dget names n = Some k \<Longrightarrow> \<exists>r. dget recs k = Some r \<and> nm r = n"
  by (simp add: index_ok_def)

text \<open>
  What an operation may do to the records and their index, seen through look-ups: nothing, add a record under a free
  name, replace a record by its next version under a name that is free or its own, or remove a record.
\<close>

definition named_step ::
  "('r \<Rightarrow> uuid) \<Rightarrow> ('r \<Rightarrow> 'n) \<Rightarrow> ('r \<Rightarrow> int) \<Rightarrow> (uuid, 'r) dict \<Rightarrow> ('n, uuid) dict \<Rightarrow>
   (uuid, 'r) dict \<Rightarrow> ('n, uuid) dict \<Rightarrow> bool" where
  "named_step rid nm ver recs names recs' names' \<longleftrightarrow>
     dget recs' = dget recs \<and> dget names' = dget names \<or>
     (\<exists>r. dget recs (rid r) = None \<and> dget names (nm r) = None \<and>
        dget recs' = (dget recs)(rid r \<mapsto> r) \<and> dget names' = (dget names)(nm r \<mapsto> rid r)) \<or>
     (\<exists>k r r'. dget recs k = Some r \<and> rid r' = rid r \<and> ver r' = ver r + 1 \<and>
        (dget names (nm r') = None \<or> dget names (nm r') = Some k) \<and>
        dget recs' = (dget recs)(k \<mapsto> r') \<and> dget names' = (dget names)(nm r := None, nm r' := Some k)) \<or>
     (\<exists>k r. dget recs k = Some r \<and> dget recs' = (dget recs)(k := None) \<and> dget names' = (dget names)(nm r := None))"

lemma named_step_same: "named_step rid nm ver recs names recs names"
  by (simp add: named_step_def)

lemma named_step_create:
  "rid r = k \<Longrightarrow> nm r = n \<Longrightarrow> dget recs k = None \<Longrightarrow> dget names n = None \<Longrightarrow>
     named_step rid nm ver recs names (dset k r recs) (dset n k names)"
  unfolding named_step_def by (intro disjI2 disjI1 exI [of _ r]) (auto simp: dget_dset fun_eq_iff)

lemma named_step_rename:
  "dget recs k = Some r \<Longrightarrow> rid r' = rid r \<Longrightarrow> ver r' = ver r + 1 \<Longrightarrow>
     (dget names (nm r') = None \<or> dget names (nm r') = Some k) \<Longrightarrow>
     dget names' = (dget names)(nm r := None, nm r' := Some k) \<Longrightarrow>
     named_step rid nm ver recs names (dset k r' recs) names'"
  unfolding named_step_def
  by (rule disjI2, rule disjI2, rule disjI1, rule exI [of _ k], rule exI [of _ r], rule exI [of _ r'])
     (auto simp: dget_dset fun_eq_iff)

lemma named_step_keep:
  assumes "index_ok rid nm recs names" "dget recs k = Some r" "rid r' = rid r" "ver r' = ver r + 1" "nm r' = nm r"
  shows "named_step rid nm ver recs names (dset k r' recs) names"
  using assms index_okD [OF assms(1,2)] by (intro named_step_rename) (auto simp: fun_eq_iff)

lemma named_step_delete:
  "dget recs k = Some r \<Longrightarrow> nm r = n \<Longrightarrow> named_step rid nm ver recs names (ddel k recs) (ddel n names)"
  unfolding named_step_def by (intro disjI2 exI [of _ k] exI [of _ r]) (auto simp: delete_conv fun_eq_iff)

lemma index_ok_step:
  assumes "index_ok rid nm recs names" "named_step rid nm ver recs names recs' names'"
  shows "index_ok rid nm recs' names'"
proof -
  have fwd: "\<And>k r. dget recs k = Some r \<Longrightarrow> rid r = k \<and> dget names (nm r) = Some k"
    and bwd: "\<And>n k. dget names n = Some k \<Longrightarrow> \<exists>r. dget recs k = Some r \<and> nm r = n"
    using assms(1) by (auto simp: index_ok_def)
  have rename: ?thesis
    if *: "dget recs k = Some r" "rid r' = rid r" "dget names (nm r') = None \<or> dget names (nm r') = Some k"
      "dget recs' = (dget recs)(k \<mapsto> r')" "dget names' = (dget names)(nm r := None, nm r' \<mapsto> k)" for k r r'
    unfolding index_ok_def
  proof (intro conjI allI impI)
    fix j x assume "dget recs' j = Some x"
    then show "rid x = j" "dget names' (nm x) = Some j"
      using * fwd by (auto split: if_splits) (metis option.distinct(1) option.inject)+
  next
    fix n j assume "dget names' n = Some j"
    then show "\<exists>x. dget recs' j = Some x \<and> nm x = n"
      using * fwd bwd by (auto split: if_splits) (metis option.inject)+
  qed
  from assms(2) show ?thesis
    unfolding named_step_def
  proof (elim disjE exE conjE)
    assume "dget recs' = dget recs" "dget names' = dget names"
    with assms(1) show ?thesis by (simp add: index_ok_def)
  next
    fix r assume "dget recs (rid r) = None" "dget names (nm r) = None"
      "dget recs' = (dget recs)(rid r \<mapsto> r)" "dget names' = (dget names)(nm r \<mapsto> rid r)"
    with fwd bwd show ?thesis unfolding index_ok_def by (auto split: if_splits) (metis option.distinct(1))+
  next
    fix k r assume "dget recs k = Some r" "dget recs' = (dget recs)(k := None)" "dget names' = (dget names)(nm r := None)"
    with fwd bwd show ?thesis unfolding index_ok_def by (auto split: if_splits) (metis option.inject)+
  qed (rule rename, assumption+, simp, assumption+)+
qed

lemma named_step_version:
  assumes "named_step rid nm ver recs names recs' names'" "dget recs k = Some r" "dget recs' k = Some r'"
  shows "ver r \<le> ver r'"
  using assms unfolding named_step_def by (auto split: if_splits)

text \<open>\<open>if new != old: names.pop(old); names[new] = key\<close>.\<close>

definition rename_index :: "'n \<Rightarrow> 'n \<Rightarrow> uuid \<Rightarrow> ('n, uuid) dict \<Rightarrow> ('n, uuid) dict" where
  "rename_index old new k names = (if new \<noteq> old then dset new k (ddel old names) else names)"

lemma dget_rename_index:
  "dget names old = Some k \<Longrightarrow> dget (rename_index old new k names) = (dget names)(old := None, new := Some k)"
  by (auto simp: rename_index_def dget_dset delete_conv fun_eq_iff)

text \<open>\<open>del names[old]\<close> and, where the source renames with it, the whole step; both raise when the name is missing.\<close>

definition del_name :: "'n \<Rightarrow> ('n, uuid) dict \<Rightarrow> ('n, uuid) dict res" where
  "del_name old names = (if dget names old = None then Inl KeyError else Inr (ddel old names))"

definition rename_name :: "'n \<Rightarrow> 'n \<Rightarrow> uuid \<Rightarrow> ('n, uuid) dict \<Rightarrow> ('n, uuid) dict res" where
  "rename_name old new k names =
     (if new \<noteq> old then rbind (del_name old names) (\<lambda>rest. Inr (dset new k rest)) else Inr names)"

lemma del_name_present: "dget names old = Some k \<Longrightarrow> del_name old names = Inr (ddel old names)"
  by (simp add: del_name_def)

lemma rename_name_present: "dget names old = Some k \<Longrightarrow> rename_name old new k names = Inr (rename_index old new k names)"
  by (simp add: rename_name_def rename_index_def del_name_def)

section \<open>The contract of a repository with named records\<close>

locale named_repository =
  fixes recs :: "'s \<Rightarrow> (uuid, 'r) dict" and names :: "'s \<Rightarrow> ('n, uuid) dict"
    and rid :: "'r \<Rightarrow> uuid" and nm :: "'r \<Rightarrow> 'n" and ver :: "'r \<Rightarrow> int"
    and step :: "'s \<Rightarrow> 's \<Rightarrow> bool" and initial :: 's
    and update :: "'c \<Rightarrow> uuid \<Rightarrow> int \<Rightarrow> ('s, 'r) pyop"
  assumes initial_empty: "recs initial = []" "names initial = []"
    and step_shape: "step s t \<Longrightarrow> index_ok rid nm (recs s) (names s) \<Longrightarrow>
      named_step rid nm ver (recs s) (names s) (recs t) (names t)"
    and update_success: "update c k v s = (Inr r', t) \<Longrightarrow> index_ok rid nm (recs s) (names s) \<Longrightarrow>
      \<exists>r. dget (recs s) k = Some r \<and> ver r = v \<and> ver r' = v + 1 \<and> dget (recs t) k = Some r' \<and> step s t"
    and update_failure: "update c k v s = (Inl e, t) \<Longrightarrow> index_ok rid nm (recs s) (names s) \<Longrightarrow> t = s"
begin

lemma steps_index:
  "step\<^sup>*\<^sup>* s t \<Longrightarrow> index_ok rid nm (recs s) (names s) \<Longrightarrow> index_ok rid nm (recs t) (names t)"
  by (induction rule: rtranclp_induct) (auto intro: index_ok_step step_shape)

lemma reachable_index: "step\<^sup>*\<^sup>* initial s \<Longrightarrow> index_ok rid nm (recs s) (names s)"
  by (erule steps_index) (simp add: index_ok_def initial_empty)

text \<open>No two records have the same name, and the index finds exactly the record with the name.\<close>

lemma names_unique:
  assumes "step\<^sup>*\<^sup>* initial s" "dget (recs s) k = Some r" "dget (recs s) k' = Some r'" "nm r = nm r'"
  shows "k = k'"
  using index_okD [OF reachable_index [OF assms(1)]] assms(2-4) by (metis option.inject)

lemma index_exact:
  assumes "step\<^sup>*\<^sup>* initial s"
  shows "dget (names s) n = Some k \<longleftrightarrow> (\<exists>r. dget (recs s) k = Some r \<and> nm r = n)"
  using index_okD [OF reachable_index [OF assms]] index_ok_owner [OF reachable_index [OF assms]] by metis

text \<open>Steps that leave a record stored; they never lower its version.\<close>

abbreviation alive_step :: "uuid \<Rightarrow> 's \<Rightarrow> 's \<Rightarrow> bool" where
  "alive_step k s t \<equiv> step s t \<and> dget (recs t) k \<noteq> None"

lemma alive_version:
  assumes "(alive_step k)\<^sup>*\<^sup>* s t" "index_ok rid nm (recs s) (names s)" "dget (recs s) k = Some r"
  shows "index_ok rid nm (recs t) (names t) \<and> (\<exists>r'. dget (recs t) k = Some r' \<and> ver r \<le> ver r')"
  using assms
proof (induction rule: rtranclp_induct)
  case (step t u)
  then obtain r' where r': "index_ok rid nm (recs t) (names t)" "dget (recs t) k = Some r'" "ver r \<le> ver r'" by blast
  have s: "named_step rid nm ver (recs t) (names t) (recs u) (names u)"
    using step.hyps(2) r'(1) by (blast intro: step_shape)
  from step.hyps(2) obtain r'' where "dget (recs u) k = Some r''" by blast
  with named_step_version [OF s r'(2) this] r'(3) index_ok_step [OF r'(1) s] show ?case by auto
qed auto

text \<open>
  Of two updates guarded by the same version only the first is accepted, whatever steps lie in between while the record exists;
  the second raises and changes nothing.
\<close>

lemma no_lost_update:
  assumes "step\<^sup>*\<^sup>* initial s" "update c k v s = (Inr r, t)" "(alive_step k)\<^sup>*\<^sup>* t u"
  shows "\<exists>e. update c' k v u = (Inl e, u)"
proof -
  have s: "index_ok rid nm (recs s) (names s)" by (rule reachable_index [OF assms(1)])
  from update_success [OF assms(2) s] have t: "ver r = v + 1" "dget (recs t) k = Some r" "step s t" by auto
  have "index_ok rid nm (recs t) (names t)" using s t(3) by (blast intro: index_ok_step step_shape)
  from alive_version [OF assms(3) this t(2)] t(1)
  obtain r' where u: "index_ok rid nm (recs u) (names u)" "dget (recs u) k = Some r'" "v < ver r'" by auto
  show ?thesis
  proof (cases "update c' k v u")
    case (Pair res w)
    then show ?thesis
      using update_success [of c' k v u _ w] update_failure [of c' k v u _ w] u by (cases res) force+
  qed
qed

end

end
