(* ===== verification/Projects.thy ===== *)
theory Projects
  imports Catalog
begin

text \<open>
  Projects: \<open>services/api/project_domain.py\<close> and \<open>services/api/project_repository.py\<close>.
\<close>

section \<open>Domain\<close>

datatype ProjectStatus = PJ_ACTIVE | PJ_ARCHIVED

definition PROJECT_TRANSITIONS :: "(ProjectStatus, ProjectStatus list) dict" where
  [table_simps]: "PROJECT_TRANSITIONS = [(PJ_ACTIVE, [PJ_ARCHIVED])]"

definition next_project_status :: "ProjectStatus \<Rightarrow> ProjectStatus \<Rightarrow> ProjectStatus res" where
  "next_project_status current target =
     (if current = target
      then (if dget PROJECT_TRANSITIONS current = None then Inl InvalidProjectTransition else Inr current)
      else if target \<notin> set (case dget PROJECT_TRANSITIONS current of None \<Rightarrow> [] | Some ts \<Rightarrow> ts)
      then Inl InvalidProjectTransition
      else Inr target)"

definition validate_project_name :: "string \<Rightarrow> string res" where
  "validate_project_name name =
     (let normalized = strip name in
      if normalized = [] \<or> length normalized > 255 then Inl ValueError else Inr normalized)"

record ProjectRecord =
  pj_id :: uuid
  pj_name :: string
  pj_description :: string
  pj_status :: ProjectStatus
  pj_state_version :: int
  pj_created_at :: time
  pj_updated_at :: time

definition project_update ::
  "ProjectRecord \<Rightarrow> string \<Rightarrow> string \<Rightarrow> ProjectStatus \<Rightarrow> time \<Rightarrow> ProjectRecord res" where
  "project_update r name description status now =
     rbind (next_project_status (pj_status r) status) (\<lambda>next_status.
     Inr (r\<lparr>pj_name := name, pj_description := description, pj_status := next_status,
            pj_state_version := pj_state_version r + 1, pj_updated_at := now\<rparr>))"

section \<open>Repository\<close>

record ProjectRepo =
  pp_projects :: "(uuid, ProjectRecord) dict"
  pp_names :: "(string, uuid) dict"

definition empty_projects :: ProjectRepo where
  "empty_projects = \<lparr>pp_projects = [], pp_names = []\<rparr>"

definition create_project :: "string \<Rightarrow> string \<Rightarrow> uuid \<Rightarrow> time \<Rightarrow> (ProjectRepo, ProjectRecord) pyop" where
  "create_project name description fresh now =
     bind (lift (validate_project_name name)) (\<lambda>normalized.
     bind (reads (\<lambda>s. dget (pp_names s) normalized)) (\<lambda>owner.
     if owner \<noteq> None then raise ProjectNameConflict
     else
       (let rec = \<lparr>pj_id = fresh, pj_name = normalized, pj_description = description, pj_status = PJ_ACTIVE,
                   pj_state_version = 0, pj_created_at = now, pj_updated_at = now\<rparr> in
        bind (writes (\<lambda>s. s\<lparr>pp_projects := dset fresh rec (pp_projects s)\<rparr>)) (\<lambda>_.
        bind (writes (\<lambda>s. s\<lparr>pp_names := dset normalized fresh (pp_names s)\<rparr>)) (\<lambda>_.
        ret rec)))))"

definition get_project :: "uuid \<Rightarrow> (ProjectRepo, ProjectRecord) pyop" where
  "get_project project_id s = (case dget (pp_projects s) project_id of
     None \<Rightarrow> (Inl ProjectNotFound, s) | Some r \<Rightarrow> (Inr r, s))"

definition list_projects :: "ProjectStatus option \<Rightarrow> (ProjectRepo, ProjectRecord list) pyop" where
  "list_projects status = reads (\<lambda>s. sort_key pj_created_at
     (case status of None \<Rightarrow> dvalues (pp_projects s)
      | Some st \<Rightarrow> filter (\<lambda>r. pj_status r = st) (dvalues (pp_projects s))))"

definition delete_project :: "uuid \<Rightarrow> (ProjectRepo, unit) pyop" where
  "delete_project project_id =
     bind (get_project project_id) (\<lambda>current.
     bind (writes (\<lambda>s. s\<lparr>pp_projects := ddel project_id (pp_projects s)\<rparr>)) (\<lambda>_.
     writes (\<lambda>s. s\<lparr>pp_names := ddel (pj_name current) (pp_names s)\<rparr>)))"

definition update_project ::
  "uuid \<Rightarrow> string \<Rightarrow> string \<Rightarrow> ProjectStatus \<Rightarrow> int \<Rightarrow> time \<Rightarrow> (ProjectRepo, ProjectRecord) pyop" where
  "update_project project_id name description status expected_version now =
     bind (lift (validate_project_name name)) (\<lambda>normalized.
     bind (get_project project_id) (\<lambda>current.
     if pj_state_version current \<noteq> expected_version then raise ProjectVersionConflict
     else
       bind (reads (\<lambda>s. dget (pp_names s) normalized)) (\<lambda>owner.
       if owner \<noteq> None \<and> owner \<noteq> Some project_id then raise ProjectNameConflict
       else
         bind (lift (project_update current normalized description status now)) (\<lambda>updated.
         bind (writes (\<lambda>s. s\<lparr>pp_projects := dset project_id updated (pp_projects s)\<rparr>)) (\<lambda>_.
         bind (writes (\<lambda>s. s\<lparr>pp_names := rename_index (pj_name current) normalized project_id (pp_names s)\<rparr>)) (\<lambda>_.
         ret updated))))))"

section \<open>Steps and the contract of named records\<close>

inductive project_step :: "ProjectRepo \<Rightarrow> ProjectRepo \<Rightarrow> bool" where
  j_create: "dget (pp_projects s) fresh = None \<Longrightarrow> project_step s (snd (create_project name descr fresh now s))"
| j_update: "project_step s (snd (update_project i name descr status v now s))"
| j_delete: "project_step s (snd (delete_project i s))"

lemma project_update_Inr:
  "project_update r n d st now = Inr r' \<Longrightarrow>
     pj_id r' = pj_id r \<and> pj_name r' = n \<and> pj_state_version r' = pj_state_version r + 1"
  by (auto simp: project_update_def)

lemma update_project_Inl: "update_project i name descr status v now s = (Inl e, t) \<Longrightarrow> t = s"
  by (auto simp: update_project_def bind_Inl_iff get_project_def split: option.splits if_splits)

lemma update_project_Inr:
  "update_project i name descr status v now s = (Inr r', t) \<Longrightarrow>
     \<exists>r. dget (pp_projects s) i = Some r \<and> pj_state_version r = v \<and> pj_id r' = pj_id r \<and>
       pj_state_version r' = pj_state_version r + 1 \<and>
       (dget (pp_names s) (pj_name r') = None \<or> dget (pp_names s) (pj_name r') = Some i) \<and>
       t = s\<lparr>pp_projects := dset i r' (pp_projects s), pp_names := rename_index (pj_name r) (pj_name r') i (pp_names s)\<rparr>"
  by (auto simp: update_project_def bind_Inr_iff get_project_def split: option.splits if_splits dest!: project_update_Inr)

lemma create_project_cases:
  "(\<exists>e. create_project name descr fresh now s = (Inl e, s)) \<or>
   (\<exists>r. pj_id r = fresh \<and> dget (pp_names s) (pj_name r) = None \<and> create_project name descr fresh now s =
      (Inr r, s\<lparr>pp_projects := dset fresh r (pp_projects s), pp_names := dset (pj_name r) fresh (pp_names s)\<rparr>))"
  by (cases "validate_project_name name") (auto simp: create_project_def bind_def Let_def)

lemma delete_project_cases:
  "(\<exists>e. delete_project i s = (Inl e, s)) \<or>
   (\<exists>r. dget (pp_projects s) i = Some r \<and> delete_project i s =
      (Inr (), s\<lparr>pp_projects := ddel i (pp_projects s), pp_names := ddel (pj_name r) (pp_names s)\<rparr>))"
  by (simp add: delete_project_def bind_def get_project_def split: option.split)

abbreviation project_index :: "ProjectRepo \<Rightarrow> bool" where
  "project_index s \<equiv> index_ok pj_id pj_name (pp_projects s) (pp_names s)"

lemma project_step_shape:
  assumes "project_step s t" "project_index s"
  shows "named_step pj_id pj_name pj_state_version (pp_projects s) (pp_names s) (pp_projects t) (pp_names t)"
  using assms
proof (induction rule: project_step.induct)
  case (j_create s fresh name descr now)
  with create_project_cases [of name descr fresh now s] show ?case
    by (auto simp: named_step_same intro: named_step_create)
next
  case (j_update s i name descr status v now)
  show ?case
  proof (cases "update_project i name descr status v now s")
    case (Pair res t)
    show ?thesis
    proof (cases res)
      case (Inl e)
      with Pair update_project_Inl show ?thesis by (metis named_step_same snd_conv)
    next
      case (Inr r')
      with Pair update_project_Inr obtain r where *: "dget (pp_projects s) i = Some r" "pj_id r' = pj_id r"
        "pj_state_version r' = pj_state_version r + 1"
        "dget (pp_names s) (pj_name r') = None \<or> dget (pp_names s) (pj_name r') = Some i"
        "t = s\<lparr>pp_projects := dset i r' (pp_projects s), pp_names := rename_index (pj_name r) (pj_name r') i (pp_names s)\<rparr>"
        by blast
      with Pair index_okD [OF j_update *(1)] show ?thesis
        by (auto intro!: named_step_rename dget_rename_index)
    qed
  qed
next
  case (j_delete s i)
  from delete_project_cases [of i s] show ?case by (auto simp: named_step_same intro: named_step_delete)
qed

interpretation projects: named_repository
  pp_projects pp_names pj_id pj_name pj_state_version project_step empty_projects
  "\<lambda>(name, descr, status, now) i v. update_project i name descr status v now"
proof unfold_locales
  fix c i v s r' t
  assume u: "(case c of (name, descr, status, now) \<Rightarrow> \<lambda>i v. update_project i name descr status v now) i v s = (Inr r', t)"
  obtain name descr status now where c: "c = (name, descr, status, now)" by (cases c)
  have "project_step s (snd (update_project i name descr status v now s))" by (rule j_update)
  with u update_project_Inr [of i name descr status v now s r' t]
  show "\<exists>r. dget (pp_projects s) i = Some r \<and> pj_state_version r = v \<and> pj_state_version r' = v + 1 \<and>
      dget (pp_projects t) i = Some r' \<and> project_step s t"
    by (auto simp: c dget_dset)
qed (auto simp: empty_projects_def split: prod.splits dest: update_project_Inl intro: project_step_shape)

end
