(* ===== verification/Parameters.thy ===== *)
theory Parameters
  imports Projects Automation
begin

text \<open>
  Parameters of scripts and the enumerations they choose from:
  \<open>services/api/parameter_domain.py\<close> and \<open>services/api/parameter_repository.py\<close>.
\<close>

section \<open>Domain\<close>

datatype ParameterInputType = IT_TEXT | IT_NUMBER | IT_INTEGER | IT_BOOLEAN | IT_ENUM

record ParameterEnumOption =
  eo_label :: string
  eo_value :: pyval

record ParameterEnumSetRecord =
  es_id :: uuid
  es_project_id :: uuid
  es_name :: string
  es_description :: string
  es_options :: "ParameterEnumOption list"
  es_state_version :: int
  es_created_at :: time
  es_updated_at :: time

definition enum_set_update ::
  "ParameterEnumSetRecord \<Rightarrow> string \<Rightarrow> string \<Rightarrow> ParameterEnumOption list \<Rightarrow> time \<Rightarrow> ParameterEnumSetRecord" where
  "enum_set_update r name description options now =
     r\<lparr>es_name := name, es_description := description, es_options := options,
       es_state_version := es_state_version r + 1, es_updated_at := now\<rparr>"

record ScriptParameterDefinition =
  sd_name :: string
  sd_label :: string
  sd_input_type :: ParameterInputType
  sd_required :: bool
  sd_enum_set_id :: "uuid option"
  sd_default_value :: pyval
  sd_position :: int

section \<open>Validation\<close>

definition PARAMETER_NAME_PATTERN :: "string \<Rightarrow> bool" where
  "PARAMETER_NAME_PATTERN s = (case s of
     [] \<Rightarrow> False
   | c # cs \<Rightarrow> (ascii_letter c \<or> c = CHR ''_'') \<and> length cs \<le> 127 \<and>
       list_all (\<lambda>c. ascii_letter c \<or> ascii_digit c \<or> c = CHR ''_'') cs)"

fun is_scalar :: "pyval \<Rightarrow> bool" where
  "is_scalar PNone = True"
| "is_scalar (PStr _) = True"
| "is_scalar (PInt _) = True"
| "is_scalar (PFloat _) = True"
| "is_scalar (PBool _) = True"
| "is_scalar _ = False"

text \<open>\<open>dumps\<close> is \<open>json.dumps\<close> with the options of the call, which raises for a float that is not finite.\<close>

definition json_identity :: "(pyval \<Rightarrow> string res) \<Rightarrow> pyval \<Rightarrow> string res" where
  "json_identity dumps v =
     (if \<not> is_scalar v then Inl ValueError
      else (case dumps v of
         Inl e \<Rightarrow> Inl (if e = TypeError \<or> e = ValueError then ValueError else e)
       | Inr text \<Rightarrow> Inr text))"

fun validate_options ::
  "(pyval \<Rightarrow> string res) \<Rightarrow> string list \<Rightarrow> ParameterEnumOption list \<Rightarrow> ParameterEnumOption list res" where
  "validate_options dumps identities [] = Inr []"
| "validate_options dumps identities (option # rest) =
     (let label = strip (eo_label option) in
      if label = [] \<or> length label > 255 then Inl ValueError
      else
        rbind (json_identity dumps (eo_value option)) (\<lambda>identity.
        if identity \<in> set identities then Inl ValueError
        else
          rbind (validate_options dumps (identity # identities) rest) (\<lambda>validated.
          Inr (\<lparr>eo_label = label, eo_value = eo_value option\<rparr> # validated))))"

definition validate_enum_values ::
  "(pyval \<Rightarrow> string res) \<Rightarrow> string \<Rightarrow> ParameterEnumOption list \<Rightarrow> (string \<times> ParameterEnumOption list) res" where
  "validate_enum_values dumps name options =
     (let normalized = strip name in
      if normalized = [] \<or> length normalized > 255 then Inl ValueError
      else rbind (validate_options dumps [] options) (\<lambda>validated. Inr (normalized, validated)))"

fun validate_definitions ::
  "(pyval \<Rightarrow> string res) \<Rightarrow> string list \<Rightarrow> int list \<Rightarrow> ScriptParameterDefinition list \<Rightarrow>
   ScriptParameterDefinition list res" where
  "validate_definitions dumps names positions [] = Inr []"
| "validate_definitions dumps names positions (item # rest) =
     (if \<not> PARAMETER_NAME_PATTERN (sd_name item) \<or> sd_name item \<in> set names then Inl ScriptParameterConflict
      else
        let label = strip (sd_label item) in
        if label = [] \<or> length label > 255 then Inl ScriptParameterConflict
        else if sd_position item < 0 \<or> sd_position item \<in> set positions then Inl ScriptParameterConflict
        else
          rbind (json_identity dumps (sd_default_value item)) (\<lambda>_.
          if sd_input_type item = IT_ENUM \<and> sd_enum_set_id item = None then Inl ScriptParameterConflict
          else if sd_input_type item \<noteq> IT_ENUM \<and> sd_enum_set_id item \<noteq> None then Inl ScriptParameterConflict
          else
            rbind (validate_definitions dumps (sd_name item # names) (sd_position item # positions) rest) (\<lambda>validated.
            Inr (item\<lparr>sd_label := label\<rparr> # validated))))"

definition validate_parameter_definitions ::
  "(pyval \<Rightarrow> string res) \<Rightarrow> ScriptParameterDefinition list \<Rightarrow> ScriptParameterDefinition list res" where
  "validate_parameter_definitions dumps definitions =
     rbind (validate_definitions dumps [] [] definitions) (\<lambda>validated. Inr (sort_key sd_position validated))"

section \<open>Repository\<close>

record ParameterRepo =
  pm_enums :: "(uuid, ParameterEnumSetRecord) dict"
  pm_names :: "(uuid \<times> string, uuid) dict"
  pm_parameters :: "(uuid, ScriptParameterDefinition list) dict"

definition empty_parameters :: ParameterRepo where
  "empty_parameters = \<lparr>pm_enums = [], pm_names = [], pm_parameters = []\<rparr>"

definition enum_key :: "ParameterEnumSetRecord \<Rightarrow> uuid \<times> string" where
  "enum_key r = (es_project_id r, es_name r)"

definition create_enum_set ::
  "(pyval \<Rightarrow> string res) \<Rightarrow> uuid \<Rightarrow> string \<Rightarrow> string \<Rightarrow> ParameterEnumOption list \<Rightarrow> uuid \<Rightarrow> time \<Rightarrow>
   (ParameterRepo, ParameterEnumSetRecord) pyop" where
  "create_enum_set dumps project_id name description options fresh now =
     bind (lift (validate_enum_values dumps name options)) (\<lambda>(normalized, validated).
     bind (reads (\<lambda>s. dget (pm_names s) (project_id, normalized))) (\<lambda>owner.
     if owner \<noteq> None then raise ParameterEnumConflict
     else
       (let rec = \<lparr>es_id = fresh, es_project_id = project_id, es_name = normalized, es_description = description,
                   es_options = validated, es_state_version = 0, es_created_at = now, es_updated_at = now\<rparr> in
        bind (writes (\<lambda>s. s\<lparr>pm_enums := dset (es_id rec) rec (pm_enums s)\<rparr>)) (\<lambda>_.
        bind (writes (\<lambda>s. s\<lparr>pm_names := dset (project_id, normalized) (es_id rec) (pm_names s)\<rparr>)) (\<lambda>_.
        ret rec)))))"

definition get_enum_set :: "uuid \<Rightarrow> (ParameterRepo, ParameterEnumSetRecord) pyop" where
  "get_enum_set enum_set_id s = (case dget (pm_enums s) enum_set_id of
     None \<Rightarrow> (Inl ParameterEnumNotFound, s) | Some r \<Rightarrow> (Inr r, s))"

definition list_enum_sets :: "uuid \<Rightarrow> (ParameterRepo, ParameterEnumSetRecord list) pyop" where
  "list_enum_sets project_id = reads (\<lambda>s. sort_key es_created_at
     (filter (\<lambda>r. es_project_id r = project_id) (dvalues (pm_enums s))))"

definition option_identities :: "(pyval \<Rightarrow> string res) \<Rightarrow> ParameterEnumOption list \<Rightarrow> string list res" where
  "option_identities dumps options = map_res (\<lambda>option. json_identity dumps (eo_value option)) options"

text \<open>The two nested loops of \<open>_validate_existing_defaults\<close>.\<close>

fun defaults_remain ::
  "(pyval \<Rightarrow> string res) \<Rightarrow> uuid \<Rightarrow> string list \<Rightarrow> ScriptParameterDefinition list \<Rightarrow> unit res" where
  "defaults_remain dumps enum_set_id identities [] = Inr ()"
| "defaults_remain dumps enum_set_id identities (item # rest) =
     (if sd_enum_set_id item = Some enum_set_id
      then rbind (json_identity dumps (sd_default_value item)) (\<lambda>identity.
        if identity \<notin> set identities then Inl ParameterEnumConflict
        else defaults_remain dumps enum_set_id identities rest)
      else defaults_remain dumps enum_set_id identities rest)"

definition validate_existing_defaults ::
  "(pyval \<Rightarrow> string res) \<Rightarrow> (uuid, ScriptParameterDefinition list) dict \<Rightarrow> uuid \<Rightarrow> ParameterEnumOption list \<Rightarrow> unit res" where
  "validate_existing_defaults dumps parameters enum_set_id options =
     rbind (option_identities dumps options) (\<lambda>identities.
     defaults_remain dumps enum_set_id identities (concat (dvalues parameters)))"

definition update_enum_set ::
  "(pyval \<Rightarrow> string res) \<Rightarrow> uuid \<Rightarrow> int \<Rightarrow> string \<Rightarrow> string \<Rightarrow> ParameterEnumOption list \<Rightarrow> time \<Rightarrow>
   (ParameterRepo, ParameterEnumSetRecord) pyop" where
  "update_enum_set dumps enum_set_id expected_version name description options now =
     bind (lift (validate_enum_values dumps name options)) (\<lambda>(normalized, validated).
     bind (get_enum_set enum_set_id) (\<lambda>current.
     if es_state_version current \<noteq> expected_version then raise ParameterEnumVersionConflict
     else
       bind (reads (\<lambda>s. dget (pm_names s) (es_project_id current, normalized))) (\<lambda>owner.
       if owner \<noteq> None \<and> owner \<noteq> Some enum_set_id then raise ParameterEnumConflict
       else
         bind (reads pm_parameters) (\<lambda>parameters.
         bind (lift (validate_existing_defaults dumps parameters enum_set_id validated)) (\<lambda>_.
         let updated = enum_set_update current normalized description validated now in
         bind (reads pm_names) (\<lambda>names.
         bind (lift (rename_name (es_project_id current, es_name current) (es_project_id current, normalized)
                       enum_set_id names)) (\<lambda>names'.
         bind (writes (\<lambda>s. s\<lparr>pm_names := names'\<rparr>)) (\<lambda>_.
         bind (writes (\<lambda>s. s\<lparr>pm_enums := dset enum_set_id updated (pm_enums s)\<rparr>)) (\<lambda>_.
         ret updated)))))))))"

definition delete_enum_set :: "uuid \<Rightarrow> (ParameterRepo, unit) pyop" where
  "delete_enum_set enum_set_id =
     bind (get_enum_set enum_set_id) (\<lambda>current.
     bind (reads pm_parameters) (\<lambda>parameters.
     if list_ex (\<lambda>item. sd_enum_set_id item = Some enum_set_id) (concat (dvalues parameters))
     then raise ParameterEnumConflict
     else
       bind (writes (\<lambda>s. s\<lparr>pm_enums := ddel enum_set_id (pm_enums s)\<rparr>)) (\<lambda>_.
       bind (reads pm_names) (\<lambda>names.
       bind (lift (del_name (es_project_id current, es_name current) names)) (\<lambda>names'.
       writes (\<lambda>s. s\<lparr>pm_names := names'\<rparr>))))))"

definition list_script_parameters ::
  "(uuid \<Rightarrow> AutomationScriptRecord res) \<Rightarrow> uuid \<Rightarrow> (ParameterRepo, ScriptParameterDefinition list) pyop" where
  "list_script_parameters scripts script_id =
     bind (lift (scripts script_id)) (\<lambda>_.
     reads (\<lambda>s. case dget (pm_parameters s) script_id of None \<Rightarrow> [] | Some ps \<Rightarrow> ps))"

fun validate_parameter_enums ::
  "(pyval \<Rightarrow> string res) \<Rightarrow> (uuid, ParameterEnumSetRecord) dict \<Rightarrow> uuid \<Rightarrow> ScriptParameterDefinition list \<Rightarrow> unit res" where
  "validate_parameter_enums dumps enums project_id [] = Inr ()"
| "validate_parameter_enums dumps enums project_id (item # rest) =
     (case sd_enum_set_id item of
        None \<Rightarrow> validate_parameter_enums dumps enums project_id rest
      | Some enum_set_id \<Rightarrow>
          (case dget enums enum_set_id of
             None \<Rightarrow> Inl ScriptParameterConflict
           | Some enum_set \<Rightarrow>
               if es_project_id enum_set \<noteq> project_id then Inl ScriptParameterConflict
               else
                 rbind (json_identity dumps (sd_default_value item)) (\<lambda>identity.
                 rbind (option_identities dumps (es_options enum_set)) (\<lambda>identities.
                 if identity \<notin> set identities then Inl ScriptParameterConflict
                 else validate_parameter_enums dumps enums project_id rest))))"

definition replace_script_parameters ::
  "(pyval \<Rightarrow> string res) \<Rightarrow> (uuid \<Rightarrow> AutomationScriptRecord res) \<Rightarrow> uuid \<Rightarrow> ScriptParameterDefinition list \<Rightarrow>
   (ParameterRepo, ScriptParameterDefinition list) pyop" where
  "replace_script_parameters dumps scripts script_id definitions =
     bind (lift (validate_parameter_definitions dumps definitions)) (\<lambda>validated.
     bind (lift (scripts script_id)) (\<lambda>script.
     bind (reads pm_enums) (\<lambda>enums.
     bind (lift (validate_parameter_enums dumps enums (sc_project_id script) validated)) (\<lambda>_.
     bind (writes (\<lambda>s. s\<lparr>pm_parameters := dset script_id validated (pm_parameters s)\<rparr>)) (\<lambda>_.
     ret validated)))))"

end
