(* ===== verification/Parameters_Facts.thy ===== *)
theory Parameters_Facts
  imports Parameters
begin

text \<open>
  The operations of the parameter repository as steps, its index of names as a named repository, and that the
  stored parameters stay valid whatever happens to the enumerations.
\<close>

section \<open>Steps\<close>

text \<open>
  The operations of the repository beside a script repository that keeps every script in its project, \<open>proj\<close>, as
  \<open>script_update\<close> does.
\<close>

inductive parameter_step :: "(pyval \<Rightarrow> string res) \<Rightarrow> (uuid \<Rightarrow> uuid) \<Rightarrow> ParameterRepo \<Rightarrow> ParameterRepo \<Rightarrow> bool"
  for dumps :: "pyval \<Rightarrow> string res" and proj :: "uuid \<Rightarrow> uuid" where
  m_create: "dget (pm_enums s) fresh = None \<Longrightarrow>
     parameter_step dumps proj s (snd (create_enum_set dumps p name descr options fresh now s))"
| m_update: "parameter_step dumps proj s (snd (update_enum_set dumps i v name descr options now s))"
| m_delete: "parameter_step dumps proj s (snd (delete_enum_set i s))"
| m_replace: "(\<forall>i script. scripts i = Inr script \<longrightarrow> sc_project_id script = proj i) \<Longrightarrow>
     parameter_step dumps proj s (snd (replace_script_parameters dumps scripts i definitions s))"

abbreviation enum_index :: "ParameterRepo \<Rightarrow> bool" where
  "enum_index s \<equiv> index_ok es_id enum_key (pm_enums s) (pm_names s)"

lemma create_enum_set_cases:
  "(\<exists>e. create_enum_set dumps p name descr options fresh now s = (Inl e, s)) \<or>
   (\<exists>r. es_id r = fresh \<and> dget (pm_names s) (enum_key r) = None \<and>
      create_enum_set dumps p name descr options fresh now s =
        (Inr r, s\<lparr>pm_enums := dset fresh r (pm_enums s), pm_names := dset (enum_key r) fresh (pm_names s)\<rparr>))"
proof (cases "validate_enum_values dumps name options")
  case (Inl e)
  then show ?thesis by (simp add: create_enum_set_def bind_def)
next
  case (Inr nv)
  obtain n validated where nv: "nv = (n, validated)" by (cases nv)
  let ?r = "\<lparr>es_id = fresh, es_project_id = p, es_name = n, es_description = descr, es_options = validated,
    es_state_version = 0, es_created_at = now, es_updated_at = now\<rparr>"
  show ?thesis
    using Inr nv by (cases "dget (pm_names s) (p, n)")
      (simp_all add: create_enum_set_def bind_def Let_def enum_key_def exI [of _ ?r])
qed

lemma update_enum_set_Inr:
  assumes "update_enum_set dumps i v name descr options now s = (Inr r', t)" "enum_index s"
  shows "\<exists>r validated. dget (pm_enums s) i = Some r \<and> es_state_version r = v \<and> es_id r' = es_id r \<and>
     es_project_id r' = es_project_id r \<and> es_state_version r' = es_state_version r + 1 \<and> es_options r' = validated \<and>
     (dget (pm_names s) (enum_key r') = None \<or> dget (pm_names s) (enum_key r') = Some i) \<and>
     validate_existing_defaults dumps (pm_parameters s) i validated = Inr () \<and>
     t = s\<lparr>pm_names := rename_index (enum_key r) (enum_key r') i (pm_names s), pm_enums := dset i r' (pm_enums s)\<rparr>"
proof -
  obtain r n validated names' where *: "dget (pm_enums s) i = Some r" "es_state_version r = v"
    "r' = enum_set_update r n descr validated now"
    "dget (pm_names s) (es_project_id r, n) = None \<or> dget (pm_names s) (es_project_id r, n) = Some i"
    "validate_existing_defaults dumps (pm_parameters s) i validated = Inr ()"
    "rename_name (es_project_id r, es_name r) (es_project_id r, n) i (pm_names s) = Inr names'"
    "t = s\<lparr>pm_names := names', pm_enums := dset i r' (pm_enums s)\<rparr>"
    using assms(1)
    by (auto simp: update_enum_set_def bind_Inr_iff get_enum_set_def Let_def split: option.splits if_splits prod.splits)
  have "dget (pm_names s) (enum_key r) = Some i" using index_okD [OF assms(2) *(1)] by simp
  with *(6) have "names' = rename_index (enum_key r) (es_project_id r, n) i (pm_names s)"
    by (simp add: rename_name_present enum_key_def)
  with * show ?thesis by (auto simp: enum_set_update_def enum_key_def)
qed

lemma update_enum_set_Inl:
  assumes "update_enum_set dumps i v name descr options now s = (Inl e, t)" "enum_index s"
  shows "t = s"
proof (cases "dget (pm_enums s) i")
  case None
  with assms(1) show ?thesis by (auto simp: update_enum_set_def bind_Inl_iff get_enum_set_def split: prod.splits)
next
  case (Some r)
  then have "dget (pm_names s) (es_project_id r, es_name r) = Some i"
    using index_okD [OF assms(2) Some] by (simp add: enum_key_def)
  note rename_name_present [OF this]
  with assms(1) Some show ?thesis
    by (auto simp: update_enum_set_def bind_Inl_iff get_enum_set_def Let_def split: prod.splits if_splits)
qed

lemma delete_enum_set_cases:
  assumes "enum_index s"
  shows "(\<exists>e. delete_enum_set i s = (Inl e, s)) \<or>
   (\<exists>r. dget (pm_enums s) i = Some r \<and> (\<forall>item \<in> set (concat (dvalues (pm_parameters s))). sd_enum_set_id item \<noteq> Some i) \<and>
      delete_enum_set i s = (Inr (), s\<lparr>pm_enums := ddel i (pm_enums s), pm_names := ddel (enum_key r) (pm_names s)\<rparr>))"
proof (cases "dget (pm_enums s) i")
  case None
  then show ?thesis by (simp add: delete_enum_set_def bind_def get_enum_set_def)
next
  case (Some r)
  then have "dget (pm_names s) (es_project_id r, es_name r) = Some i"
    using index_okD [OF assms Some] by (simp add: enum_key_def)
  note del_name_present [OF this]
  with Some show ?thesis
    by (cases "list_ex (\<lambda>item. sd_enum_set_id item = Some i) (concat (dvalues (pm_parameters s)))")
       (auto simp: delete_enum_set_def bind_def get_enum_set_def enum_key_def list_ex_iff)
qed

lemma replace_cases:
  "(\<exists>e. replace_script_parameters dumps scripts i definitions s = (Inl e, s)) \<or>
   (\<exists>script validated. scripts i = Inr script \<and> validate_parameter_definitions dumps definitions = Inr validated \<and>
      validate_parameter_enums dumps (pm_enums s) (sc_project_id script) validated = Inr () \<and>
      replace_script_parameters dumps scripts i definitions s =
        (Inr validated, s\<lparr>pm_parameters := dset i validated (pm_parameters s)\<rparr>))"
  by (simp add: replace_script_parameters_def bind_def split: sum.split)

lemma parameter_step_shape:
  assumes "parameter_step dumps proj s t" "enum_index s"
  shows "named_step es_id enum_key es_state_version (pm_enums s) (pm_names s) (pm_enums t) (pm_names t)"
  using assms
proof (induction rule: parameter_step.induct)
  case (m_create s fresh p name descr options now)
  with create_enum_set_cases [of dumps p name descr options fresh now s] show ?case
    by (auto simp: named_step_same intro: named_step_create)
next
  case (m_update s i v name descr options now)
  show ?case
  proof (cases "update_enum_set dumps i v name descr options now s")
    case (Pair res t)
    show ?thesis
    proof (cases res)
      case (Inl e)
      with Pair update_enum_set_Inl [OF _ m_update] show ?thesis by (metis named_step_same snd_conv)
    next
      case (Inr r')
      with Pair have "update_enum_set dumps i v name descr options now s = (Inr r', t)" by simp
      from update_enum_set_Inr [OF this m_update] obtain r where *: "dget (pm_enums s) i = Some r"
        "es_id r' = es_id r" "es_state_version r' = es_state_version r + 1"
        "dget (pm_names s) (enum_key r') = None \<or> dget (pm_names s) (enum_key r') = Some i"
        "t = s\<lparr>pm_names := rename_index (enum_key r) (enum_key r') i (pm_names s), pm_enums := dset i r' (pm_enums s)\<rparr>"
        by blast
      with Pair index_okD [OF m_update *(1)] show ?thesis
        by (auto intro!: named_step_rename dget_rename_index)
    qed
  qed
next
  case (m_delete s i)
  from delete_enum_set_cases [OF m_delete, of i] show ?case
    by (auto simp: named_step_same intro: named_step_delete)
next
  case (m_replace scripts s i definitions)
  from replace_cases [of dumps scripts i definitions s] show ?case by (auto simp: named_step_same)
qed

interpretation enum_sets: named_repository
  pm_enums pm_names es_id enum_key es_state_version "parameter_step dumps proj" empty_parameters
  "\<lambda>(name, descr, options, now) i v. update_enum_set dumps i v name descr options now" for dumps proj
proof unfold_locales
  fix c i v s r' t
  assume u: "(case c of (name, descr, options, now) \<Rightarrow> \<lambda>i v. update_enum_set dumps i v name descr options now) i v s = (Inr r', t)"
    and ix: "enum_index s"
  obtain name descr options now where c: "c = (name, descr, options, now)" by (cases c)
  with u have u': "update_enum_set dumps i v name descr options now s = (Inr r', t)" by simp
  have "parameter_step dumps proj s (snd (update_enum_set dumps i v name descr options now s))" by (rule m_update)
  with u' update_enum_set_Inr [OF u' ix]
  show "\<exists>r. dget (pm_enums s) i = Some r \<and> es_state_version r = v \<and> es_state_version r' = v + 1 \<and>
      dget (pm_enums t) i = Some r' \<and> parameter_step dumps proj s t"
    by (auto simp: dget_dset)
qed (auto simp: empty_parameters_def split: prod.splits dest: update_enum_set_Inl intro: parameter_step_shape)

section \<open>Parameters and their enumerations\<close>

text \<open>What a stored parameter list promises: distinct identifiers, positions in strictly increasing order, and every
  enumeration it names exists in the script's project and offers the default.\<close>

definition enum_default_ok :: "(pyval \<Rightarrow> string res) \<Rightarrow> uuid \<Rightarrow> ParameterRepo \<Rightarrow> ScriptParameterDefinition \<Rightarrow> bool" where
  "enum_default_ok dumps project s item \<longleftrightarrow> (sd_input_type item = IT_ENUM) = (sd_enum_set_id item \<noteq> None) \<and>
     (\<forall>e. sd_enum_set_id item = Some e \<longrightarrow> (\<exists>r identity identities. dget (pm_enums s) e = Some r \<and>
        es_project_id r = project \<and> json_identity dumps (sd_default_value item) = Inr identity \<and>
        option_identities dumps (es_options r) = Inr identities \<and> identity \<in> set identities))"

definition parameters_ok :: "(pyval \<Rightarrow> string res) \<Rightarrow> uuid \<Rightarrow> ParameterRepo \<Rightarrow> ScriptParameterDefinition list \<Rightarrow> bool" where
  "parameters_ok dumps project s items \<longleftrightarrow> distinct (map sd_name items) \<and>
     (\<forall>item \<in> set items. PARAMETER_NAME_PATTERN (sd_name item)) \<and> sorted_wrt (<) (map sd_position items) \<and>
     (\<forall>item \<in> set items. 0 \<le> sd_position item \<and> enum_default_ok dumps project s item)"

lemma validate_definitions_result:
  "validate_definitions dumps ns ps items = Inr vs \<Longrightarrow>
     distinct (map sd_name vs) \<and> set (map sd_name vs) \<inter> set ns = {} \<and>
     distinct (map sd_position vs) \<and> set (map sd_position vs) \<inter> set ps = {} \<and>
     (\<forall>v \<in> set vs. PARAMETER_NAME_PATTERN (sd_name v) \<and> 0 \<le> sd_position v \<and>
        (sd_input_type v = IT_ENUM) = (sd_enum_set_id v \<noteq> None))"
proof (induction items arbitrary: ns ps vs)
  case (Cons item items)
  then obtain ws where *: "validate_definitions dumps (sd_name item # ns) (sd_position item # ps) items = Inr ws"
    "vs = item\<lparr>sd_label := strip (sd_label item)\<rparr> # ws"
    "PARAMETER_NAME_PATTERN (sd_name item)" "sd_name item \<notin> set ns" "0 \<le> sd_position item" "sd_position item \<notin> set ps"
    "(sd_input_type item = IT_ENUM) = (sd_enum_set_id item \<noteq> None)"
    by (auto simp: Let_def not_less split: if_splits)
  from Cons.IH [OF *(1)] *(2-) show ?case by (auto simp: image_iff)
qed simp

lemma validated_parameters:
  assumes "validate_parameter_definitions dumps items = Inr vs"
  shows "distinct (map sd_name vs)" "sorted_wrt (<) (map sd_position vs)"
    "\<forall>v \<in> set vs. PARAMETER_NAME_PATTERN (sd_name v) \<and> 0 \<le> sd_position v \<and>
       (sd_input_type v = IT_ENUM) = (sd_enum_set_id v \<noteq> None)"
proof -
  obtain ws where ws: "validate_definitions dumps [] [] items = Inr ws" "vs = sort_key sd_position ws"
    using assms by (auto simp: validate_parameter_definitions_def)
  note r = validate_definitions_result [OF ws(1)]
  show "distinct (map sd_name vs)" using r ws(2) by (simp add: distinct_map)
  have "distinct (map sd_position vs)" using r ws(2) by (simp add: distinct_map)
  then show "sorted_wrt (<) (map sd_position vs)"
    using ws(2) by (simp add: strict_sorted_iff)
  show "\<forall>v \<in> set vs. PARAMETER_NAME_PATTERN (sd_name v) \<and> 0 \<le> sd_position v \<and>
       (sd_input_type v = IT_ENUM) = (sd_enum_set_id v \<noteq> None)"
    using r ws(2) by simp
qed

lemma validate_parameter_enums_sound:
  "validate_parameter_enums dumps enums p items = Inr () \<Longrightarrow> item \<in> set items \<Longrightarrow> sd_enum_set_id item = Some e \<Longrightarrow>
     \<exists>r identity identities. dget enums e = Some r \<and> es_project_id r = p \<and>
       json_identity dumps (sd_default_value item) = Inr identity \<and>
       option_identities dumps (es_options r) = Inr identities \<and> identity \<in> set identities"
  by (induction items) (auto split: option.splits if_splits)

lemma defaults_remain_sound:
  "defaults_remain dumps e identities items = Inr () \<Longrightarrow> item \<in> set items \<Longrightarrow> sd_enum_set_id item = Some e \<Longrightarrow>
     \<exists>identity. json_identity dumps (sd_default_value item) = Inr identity \<and> identity \<in> set identities"
  by (induction items) (auto split: if_splits)

definition parameters_inv :: "(pyval \<Rightarrow> string res) \<Rightarrow> (uuid \<Rightarrow> uuid) \<Rightarrow> ParameterRepo \<Rightarrow> bool" where
  "parameters_inv dumps proj s \<longleftrightarrow> enum_index s \<and>
     (\<forall>i items. dget (pm_parameters s) i = Some items \<longrightarrow> parameters_ok dumps (proj i) s items)"

lemma parameters_ok_enums:
  assumes "parameters_ok dumps p s items"
    and "\<And>item. item \<in> set items \<Longrightarrow> enum_default_ok dumps p s item \<Longrightarrow> enum_default_ok dumps p t item"
  shows "parameters_ok dumps p t items"
  using assms by (simp add: parameters_ok_def)

text \<open>The enumerations may change under the stored parameters in the ways the checks allow.\<close>

lemma parameters_inv_enums:
  assumes "parameters_inv dumps proj s" "enum_index t" "pm_parameters t = pm_parameters s"
    and "\<And>e item p. item \<in> set (concat (dvalues (pm_parameters s))) \<Longrightarrow> sd_enum_set_id item = Some e \<Longrightarrow>
      enum_default_ok dumps p s item \<Longrightarrow> enum_default_ok dumps p t item"
  shows "parameters_inv dumps proj t"
  unfolding parameters_inv_def
proof (intro conjI allI impI)
  fix i items assume i: "dget (pm_parameters t) i = Some items"
  then have "set items \<subseteq> set (concat (dvalues (pm_parameters s)))"
    using dget_value [of "pm_parameters s" i items] assms(3) by auto
  moreover have "parameters_ok dumps (proj i) s items" using i assms(1,3) by (simp add: parameters_inv_def)
  ultimately show "parameters_ok dumps (proj i) t items"
  proof (elim parameters_ok_enums)
    fix item assume "item \<in> set items" "set items \<subseteq> set (concat (dvalues (pm_parameters s)))"
      and ok: "enum_default_ok dumps (proj i) s item"
    then have item: "item \<in> set (concat (dvalues (pm_parameters s)))" by blast
    show "enum_default_ok dumps (proj i) t item"
    proof (cases "sd_enum_set_id item")
      case None
      with ok show ?thesis by (simp add: enum_default_ok_def)
    next
      case (Some e)
      show ?thesis by (rule assms(4) [OF item Some ok])
    qed
  qed
qed (rule assms(2))

lemma enum_default_ok_same:
  "enum_default_ok dumps p s item \<Longrightarrow> sd_enum_set_id item = Some e \<Longrightarrow> dget (pm_enums t) e = dget (pm_enums s) e \<Longrightarrow>
     enum_default_ok dumps p t item"
  by (simp add: enum_default_ok_def)

lemma parameter_step_inv:
  assumes "parameter_step dumps proj s t" "parameters_inv dumps proj s"
  shows "parameters_inv dumps proj t"
proof -
  have ix: "enum_index s" using assms(2) by (simp add: parameters_inv_def)
  have ix': "enum_index t" by (rule index_ok_step [OF ix parameter_step_shape [OF assms(1) ix]])
  from assms(1) show ?thesis
  proof cases
    case (m_create fresh p name descr options now)
    from create_enum_set_cases [of dumps p name descr options fresh now s] m_create(1) show ?thesis
    proof (elim disjE exE conjE)
      fix r assume r: "create_enum_set dumps p name descr options fresh now s =
        (Inr r, s\<lparr>pm_enums := dset fresh r (pm_enums s), pm_names := dset (enum_key r) fresh (pm_names s)\<rparr>)"
      have t: "pm_enums t = dset fresh r (pm_enums s)" "pm_parameters t = pm_parameters s" using r m_create(1) by simp_all
      show ?thesis
      proof (rule parameters_inv_enums [OF assms(2) ix' t(2)])
        fix e item q assume e: "sd_enum_set_id item = Some e" "enum_default_ok dumps q s item"
        then have "e \<noteq> fresh" using m_create(2) by (auto simp: enum_default_ok_def)
        then show "enum_default_ok dumps q t item" by (intro enum_default_ok_same [OF e(2,1)]) (simp add: t)
      qed
    qed (use assms(2) in simp)
  next
    case (m_update i v name descr options now)
    show ?thesis
    proof (cases "fst (update_enum_set dumps i v name descr options now s)")
      case (Inl e)
      with m_update have "update_enum_set dumps i v name descr options now s = (Inl e, t)" by (simp add: prod_eq_iff)
      from update_enum_set_Inl [OF this ix] assms(2) show ?thesis by simp
    next
      case (Inr r')
      with m_update have "update_enum_set dumps i v name descr options now s = (Inr r', t)" by (simp add: prod_eq_iff)
      from update_enum_set_Inr [OF this ix] obtain r where r: "dget (pm_enums s) i = Some r"
        "es_project_id r' = es_project_id r" "validate_existing_defaults dumps (pm_parameters s) i (es_options r') = Inr ()"
        "t = s\<lparr>pm_names := rename_index (enum_key r) (enum_key r') i (pm_names s), pm_enums := dset i r' (pm_enums s)\<rparr>"
        by blast
      then obtain identities where ids: "option_identities dumps (es_options r') = Inr identities"
        "defaults_remain dumps i identities (concat (dvalues (pm_parameters s))) = Inr ()"
        by (auto simp: validate_existing_defaults_def)
      show ?thesis
      proof (rule parameters_inv_enums [OF assms(2) ix'])
        fix e item q
        assume item: "item \<in> set (concat (dvalues (pm_parameters s)))" "sd_enum_set_id item = Some e"
          "enum_default_ok dumps q s item"
        show "enum_default_ok dumps q t item"
        proof (cases "e = i")
          case True
          with defaults_remain_sound [OF ids(2) item(1)] item r(1,2,4) ids(1) show ?thesis
            by (auto simp: enum_default_ok_def dget_dset)
        next
          case False
          then show ?thesis by (intro enum_default_ok_same [OF item(3,2)]) (simp add: r(4))
        qed
      qed (use r(4) in simp)
    qed
  next
    case (m_delete i)
    from delete_enum_set_cases [OF ix, of i] m_delete show ?thesis
    proof (elim disjE exE conjE)
      fix r assume r: "delete_enum_set i s = (Inr (), s\<lparr>pm_enums := ddel i (pm_enums s), pm_names := ddel (enum_key r) (pm_names s)\<rparr>)"
        and free: "\<forall>item \<in> set (concat (dvalues (pm_parameters s))). sd_enum_set_id item \<noteq> Some i"
      have t: "pm_enums t = ddel i (pm_enums s)" "pm_parameters t = pm_parameters s" using r m_delete by simp_all
      show ?thesis
      proof (rule parameters_inv_enums [OF assms(2) ix' t(2)])
        fix e item q
        assume item: "item \<in> set (concat (dvalues (pm_parameters s)))" "sd_enum_set_id item = Some e" "enum_default_ok dumps q s item"
        then have "e \<noteq> i" using free by blast
        then show "enum_default_ok dumps q t item"
          by (intro enum_default_ok_same [OF item(3,2)]) (simp add: t delete_conv)
      qed
    qed (use assms(2) in simp)
  next
    case (m_replace scripts i definitions)
    from replace_cases [of dumps scripts i definitions s] show ?thesis
    proof (elim disjE exE conjE)
      fix script validated
      assume r: "scripts i = Inr script" "validate_parameter_definitions dumps definitions = Inr validated"
        "validate_parameter_enums dumps (pm_enums s) (sc_project_id script) validated = Inr ()"
        "replace_script_parameters dumps scripts i definitions s =
          (Inr validated, s\<lparr>pm_parameters := dset i validated (pm_parameters s)\<rparr>)"
      have t: "t = s\<lparr>pm_parameters := dset i validated (pm_parameters s)\<rparr>" using r(4) m_replace(1) by simp
      have same: "enum_default_ok dumps q t item = enum_default_ok dumps q s item" for q item
        by (simp add: t enum_default_ok_def)
      have "parameters_ok dumps (proj i) t validated"
        using validated_parameters [OF r(2)] validate_parameter_enums_sound [OF r(3)] r(1) m_replace(2)
        by (auto simp: parameters_ok_def enum_default_ok_def t)
      moreover have "parameters_ok dumps q t items \<longleftrightarrow> parameters_ok dumps q s items" for q items
        by (simp add: parameters_ok_def same)
      ultimately show ?thesis
        using assms(2) ix' by (auto simp: parameters_inv_def t dget_dset)
    qed (use assms(2) m_replace in simp)
  qed
qed

lemma parameters_inv_reachable: "(parameter_step dumps proj)\<^sup>*\<^sup>* empty_parameters s \<Longrightarrow> parameters_inv dumps proj s"
proof (induction rule: rtranclp_induct)
  case base
  show ?case by (simp add: parameters_inv_def empty_parameters_def index_ok_def)
next
  case (step t u)
  show ?case by (rule parameter_step_inv [OF step.hyps(2) step.IH])
qed

section \<open>Demonstration\<close>

definition param_dumps :: "pyval \<Rightarrow> string res" where
  "param_dumps v = (case v of PStr t \<Rightarrow> Inr (CHR 0x22 # t @ [CHR 0x22]) | PNone \<Rightarrow> Inr ''null'' | _ \<Rightarrow> Inl ValueError)"

definition param_demo :: ParameterRepo where
  "param_demo = snd (replace_script_parameters param_dumps (\<lambda>_. fst (get_script 1 demo_scripts)) 1
     [\<lparr>sd_name = ''user'', sd_label = ''User'', sd_input_type = IT_TEXT, sd_required = True, sd_enum_set_id = None,
       sd_default_value = PStr ''bob'', sd_position = 3\<rparr>,
      \<lparr>sd_name = ''lang'', sd_label = ''Language'', sd_input_type = IT_ENUM, sd_required = False, sd_enum_set_id = Some 5,
       sd_default_value = PStr ''en'', sd_position = 1\<rparr>]
     (snd (create_enum_set param_dumps 7 ''langs'' [] [\<lparr>eo_label = ''English'', eo_value = PStr ''en''\<rparr>,
        \<lparr>eo_label = ''German'', eo_value = PStr ''de''\<rparr>] 5 0 empty_parameters)))"

text \<open>The stored parameters of a script always make sense. After any sequence of creations, updates and deletions of
  enumerations and of replacements of script parameters, the parameters of every script have distinct names and
  strictly increasing non-negative positions, an enumeration exactly when they are of enumeration type, and then that enumeration
  exists, belongs to the script's project and still offers the parameter's default value: no update of an enumeration takes
  a default away and no deletion leaves a reference behind.\<close>

theorem enum_defaults_stay_valid:
  assumes "(parameter_step dumps proj)\<^sup>*\<^sup>* empty_parameters s" "dget (pm_parameters s) i = Some items"
  shows "parameters_ok dumps (proj i) s items"
  using parameters_inv_reachable [OF assms(1)] assms(2) by (simp add: parameters_inv_def)

lemma demo_script_one: "fst (get_script 1 demo_scripts) = Inr script \<Longrightarrow> sc_project_id script = 7"
proof -
  have "map_sum (\<lambda>_. ()) sc_project_id (fst (get_script 1 demo_scripts)) = Inr 7" by code_simp
  then show "fst (get_script 1 demo_scripts) = Inr script \<Longrightarrow> sc_project_id script = 7" by simp
qed

theorem enum_defaults_stay_valid_witness:
  "\<exists>items. dget (pm_parameters param_demo) 1 = Some items \<and> map sd_name items = [''lang'', ''user''] \<and>
     parameters_ok param_dumps 7 param_demo items"
proof -
  let ?run = "parameter_step param_dumps (\<lambda>_. 7)"
  have demo: "map_option (map sd_name) (dget (pm_parameters param_demo) 1) = Some [''lang'', ''user'']" by code_simp
  then obtain items where items: "dget (pm_parameters param_demo) 1 = Some items" "map sd_name items = [''lang'', ''user'']" by auto
  have "?run\<^sup>*\<^sup>* empty_parameters param_demo"
    unfolding param_demo_def
    by (rule rtranclp.rtrancl_into_rtrancl, rule rtranclp.rtrancl_into_rtrancl, rule rtranclp.rtrancl_refl)
       (rule m_create, simp add: empty_parameters_def, rule m_replace, blast intro: demo_script_one)
  note enum_defaults_stay_valid [OF this items(1)]
  with items show ?thesis by (intro exI [of _ items] conjI)
qed

end
