(* ===== verification/Connectors.thy ===== *)
theory Connectors
  imports Catalog Environment
begin

text \<open>
  Connectors to external tools: \<open>services/api/connector_domain.py\<close> and \<open>services/api/connector_repository.py\<close>.
\<close>

section \<open>Domain\<close>

datatype ConnectorKind = CK_MCP | CK_HTTP

datatype ConnectorAuthType = CA_NONE | CA_BEARER | CA_API_KEY

record ConnectorTool =
  ct_name :: string
  ct_description :: string
  ct_input_schema :: params

record ConnectorRecord =
  cn_id :: uuid
  cn_name :: string
  cn_description :: string
  cn_kind :: ConnectorKind
  cn_base_url :: string
  cn_auth_type :: ConnectorAuthType
  cn_auth_header :: string
  cn_enabled :: bool
  cn_timeout_seconds :: int
  cn_state_version :: int
  cn_secret_revision :: int
  cn_credential :: "EncryptedSecret option"
  cn_tools :: "ConnectorTool list"
  cn_last_tested_at :: "time option"
  cn_last_test_success :: "bool option"
  cn_last_error :: "string option"
  cn_created_at :: time
  cn_updated_at :: time

definition credential_configured :: "ConnectorRecord \<Rightarrow> bool" where
  "credential_configured r \<longleftrightarrow> cn_credential r \<noteq> None"

text \<open>\<open>replace(self, **changes, state_version=..., updated_at=...)\<close>, the changes already applied.\<close>

definition connector_update :: "ConnectorRecord \<Rightarrow> time \<Rightarrow> ConnectorRecord" where
  "connector_update changed now =
     changed\<lparr>cn_state_version := cn_state_version changed + 1, cn_updated_at := now\<rparr>"

section \<open>Repository\<close>

definition validate_connector_name :: "string \<Rightarrow> string res" where
  "validate_connector_name name =
     (let normalized = strip name in
      if normalized = [] \<or> length normalized > 255 then Inl ValueError else Inr normalized)"

definition validate_credential :: "ConnectorAuthType \<Rightarrow> string option \<Rightarrow> unit res" where
  "validate_credential auth_type credential =
     (if auth_type = CA_NONE then Inr ()
      else (case credential of
         None \<Rightarrow> Inl ConnectorCredentialRequired
       | Some c \<Rightarrow> if c = [] \<or> length c > 65536 then Inl ConnectorCredentialRequired else Inr ()))"

record ConnectorRepo =
  cr_records :: "(uuid, ConnectorRecord) dict"
  cr_names :: "(string, uuid) dict"

definition empty_connectors :: ConnectorRepo where
  "empty_connectors = \<lparr>cr_records = [], cr_names = []\<rparr>"

text \<open>The encryptor of the repository, with the AEAD, \<open>str.casefold\<close> and the random data of one encryption.\<close>

record ConnectorEnv =
  ce_crypto :: Crypto
  ce_encryptor :: SecretEncryptor
  ce_casefold :: "string \<Rightarrow> string"

record ConnectorInput =
  cx_name :: string
  cx_description :: string
  cx_kind :: ConnectorKind
  cx_base_url :: string
  cx_auth_type :: ConnectorAuthType
  cx_auth_header :: string
  cx_credential :: "string option"
  cx_timeout_seconds :: int

definition encrypt_input ::
  "ConnectorEnv \<Rightarrow> entropy \<Rightarrow> string option \<Rightarrow> uuid \<Rightarrow> int \<Rightarrow> EncryptedSecret res" where
  "encrypt_input ce ent credential connector_id secret_revision =
     encrypt_connector (ce_crypto ce) (ce_encryptor ce) ent
       (case credential of None \<Rightarrow> [] | Some c \<Rightarrow> c) connector_id secret_revision"

definition create_connector ::
  "ConnectorEnv \<Rightarrow> entropy \<Rightarrow> ConnectorInput \<Rightarrow> bool \<Rightarrow> uuid \<Rightarrow> time \<Rightarrow> (ConnectorRepo, ConnectorRecord) pyop" where
  "create_connector ce ent inp enabled connector_id now =
     bind (lift (validate_connector_name (cx_name inp))) (\<lambda>normalized.
     bind (lift (validate_credential (cx_auth_type inp) (cx_credential inp))) (\<lambda>_.
     bind (lift (if cx_auth_type inp \<noteq> CA_NONE
                 then rbind (encrypt_input ce ent (cx_credential inp) connector_id 1) (\<lambda>e. Inr (Some e))
                 else Inr None)) (\<lambda>encrypted.
     let rec = \<lparr>cn_id = connector_id, cn_name = normalized, cn_description = cx_description inp, cn_kind = cx_kind inp,
                cn_base_url = cx_base_url inp, cn_auth_type = cx_auth_type inp, cn_auth_header = cx_auth_header inp,
                cn_enabled = enabled, cn_timeout_seconds = cx_timeout_seconds inp, cn_state_version = 0,
                cn_secret_revision = (if encrypted = None then 0 else 1), cn_credential = encrypted, cn_tools = [],
                cn_last_tested_at = None, cn_last_test_success = None, cn_last_error = None,
                cn_created_at = now, cn_updated_at = now\<rparr>;
         key = ce_casefold ce normalized in
     bind (reads (\<lambda>s. dget (cr_names s) key)) (\<lambda>owner.
     if owner \<noteq> None then raise ConnectorNameConflict
     else
       bind (writes (\<lambda>s. s\<lparr>cr_records := dset connector_id rec (cr_records s)\<rparr>)) (\<lambda>_.
       bind (writes (\<lambda>s. s\<lparr>cr_names := dset key connector_id (cr_names s)\<rparr>)) (\<lambda>_.
       ret rec))))))"

definition list_connectors :: "(ConnectorRepo, ConnectorRecord list) pyop" where
  "list_connectors = reads (\<lambda>s. sort_key cn_created_at (dvalues (cr_records s)))"

definition get_connector :: "uuid \<Rightarrow> (ConnectorRepo, ConnectorRecord) pyop" where
  "get_connector connector_id s = (case dget (cr_records s) connector_id of
     None \<Rightarrow> (Inl ConnectorNotFound, s) | Some r \<Rightarrow> (Inr r, s))"

definition check_connector_version :: "ConnectorRecord \<Rightarrow> int \<Rightarrow> unit res" where
  "check_connector_version r expected = guard (cn_state_version r \<noteq> expected) ConnectorVersionConflict"

text \<open>The credential and its revision after an update.\<close>

definition next_credential ::
  "ConnectorEnv \<Rightarrow> entropy \<Rightarrow> ConnectorRecord \<Rightarrow> ConnectorInput \<Rightarrow> bool \<Rightarrow> uuid \<Rightarrow> (EncryptedSecret option \<times> int) res" where
  "next_credential ce ent current inp credential_provided connector_id =
     (if cx_auth_type inp = CA_NONE
      then Inr (None, cn_secret_revision current + (if cn_credential current \<noteq> None then 1 else 0))
      else if credential_provided
      then
        rbind (validate_credential (cx_auth_type inp) (cx_credential inp)) (\<lambda>_.
        rbind (encrypt_input ce ent (cx_credential inp) connector_id (cn_secret_revision current + 1)) (\<lambda>e.
        Inr (Some e, cn_secret_revision current + 1)))
      else if cn_credential current = None then Inl ConnectorCredentialRequired
      else Inr (cn_credential current, cn_secret_revision current))"

definition apply_input ::
  "ConnectorRecord \<Rightarrow> string \<Rightarrow> ConnectorInput \<Rightarrow> EncryptedSecret option \<Rightarrow> int \<Rightarrow> bool option \<Rightarrow> ConnectorRecord" where
  "apply_input current normalized inp encrypted revision enabled =
     current\<lparr>cn_name := normalized, cn_description := cx_description inp,
       cn_kind := cx_kind inp, cn_base_url := cx_base_url inp, cn_auth_type := cx_auth_type inp,
       cn_auth_header := cx_auth_header inp, cn_credential := encrypted, cn_secret_revision := revision,
       cn_enabled := (case enabled of None \<Rightarrow> cn_enabled current | Some b \<Rightarrow> b),
       cn_timeout_seconds := cx_timeout_seconds inp\<rparr>"

definition update_connector ::
  "ConnectorEnv \<Rightarrow> entropy \<Rightarrow> uuid \<Rightarrow> int \<Rightarrow> ConnectorInput \<Rightarrow> bool \<Rightarrow> bool option \<Rightarrow> time \<Rightarrow>
   (ConnectorRepo, ConnectorRecord) pyop" where
  "update_connector ce ent connector_id expected_version inp credential_provided enabled now =
     bind (lift (validate_connector_name (cx_name inp))) (\<lambda>normalized.
     bind (get_connector connector_id) (\<lambda>current.
     bind (lift (check_connector_version current expected_version)) (\<lambda>_.
     bind (reads (\<lambda>s. dget (cr_names s) (ce_casefold ce normalized))) (\<lambda>owner.
     if owner \<noteq> None \<and> owner \<noteq> Some connector_id then raise ConnectorNameConflict
     else
       bind (lift (next_credential ce ent current inp credential_provided connector_id)) (\<lambda>(encrypted, revision).
       let updated = connector_update (apply_input current normalized inp encrypted revision enabled) now in
       bind (reads cr_names) (\<lambda>names.
       bind (lift (rename_name (ce_casefold ce (cn_name current)) (ce_casefold ce normalized) connector_id names)) (\<lambda>names'.
       bind (writes (\<lambda>s. s\<lparr>cr_names := names'\<rparr>)) (\<lambda>_.
       bind (writes (\<lambda>s. s\<lparr>cr_records := dset connector_id updated (cr_records s)\<rparr>)) (\<lambda>_.
       ret updated)))))))))"

definition set_enabled :: "uuid \<Rightarrow> bool \<Rightarrow> int \<Rightarrow> time \<Rightarrow> (ConnectorRepo, ConnectorRecord) pyop" where
  "set_enabled connector_id enabled expected_version now =
     bind (get_connector connector_id) (\<lambda>current.
     bind (lift (check_connector_version current expected_version)) (\<lambda>_.
     let updated = connector_update (current\<lparr>cn_enabled := enabled\<rparr>) now in
     bind (writes (\<lambda>s. s\<lparr>cr_records := dset connector_id updated (cr_records s)\<rparr>)) (\<lambda>_.
     ret updated)))"

definition record_test ::
  "uuid \<Rightarrow> int \<Rightarrow> bool \<Rightarrow> ConnectorTool list \<Rightarrow> string option \<Rightarrow> time \<Rightarrow> time \<Rightarrow>
   (ConnectorRepo, ConnectorRecord) pyop" where
  "record_test connector_id expected_version success tools error tested_at now =
     bind (get_connector connector_id) (\<lambda>current.
     bind (lift (check_connector_version current expected_version)) (\<lambda>_.
     let updated = connector_update (current\<lparr>cn_tools := tools, cn_last_tested_at := Some tested_at,
           cn_last_test_success := Some success, cn_last_error := error\<rparr>) now in
     bind (writes (\<lambda>s. s\<lparr>cr_records := dset connector_id updated (cr_records s)\<rparr>)) (\<lambda>_.
     ret updated)))"

definition delete_connector :: "ConnectorEnv \<Rightarrow> uuid \<Rightarrow> (ConnectorRepo, unit) pyop" where
  "delete_connector ce connector_id =
     bind (get_connector connector_id) (\<lambda>current.
     bind (writes (\<lambda>s. s\<lparr>cr_records := ddel connector_id (cr_records s)\<rparr>)) (\<lambda>_.
     bind (reads cr_names) (\<lambda>names.
     bind (lift (del_name (ce_casefold ce (cn_name current)) names)) (\<lambda>names'.
     writes (\<lambda>s. s\<lparr>cr_names := names'\<rparr>)))))"

definition credential_for :: "ConnectorEnv \<Rightarrow> ConnectorRecord \<Rightarrow> string option res" where
  "credential_for ce r =
     (case cn_credential r of
        None \<Rightarrow> Inr None
      | Some e \<Rightarrow> rbind (decrypt_connector (ce_crypto ce) (ce_encryptor ce) e (cn_id r) (cn_secret_revision r))
          (\<lambda>v. Inr (Some v)))"

section \<open>Steps\<close>

text \<open>
  Beside the repository, for the statement only, the credential last supplied for each connector.
\<close>

type_synonym supplied = "uuid \<Rightarrow> string option"

inductive connector_step :: "ConnectorEnv \<Rightarrow> supplied \<times> ConnectorRepo \<Rightarrow> supplied \<times> ConnectorRepo \<Rightarrow> bool"
  for ce :: ConnectorEnv where
  k_create: "dget (cr_records s) i = None \<Longrightarrow> create_connector ce ent inp enabled i now s = (Inr r, t) \<Longrightarrow>
     connector_step ce (g, s) (g(i := if cx_auth_type inp = CA_NONE then None else cx_credential inp), t)"
| k_create_error: "create_connector ce ent inp enabled i now s = (Inl e, t) \<Longrightarrow> connector_step ce (g, s) (g, t)"
| k_update: "update_connector ce ent i v inp provided enabled now s = (Inr r, t) \<Longrightarrow>
     connector_step ce (g, s)
       (g(i := if cx_auth_type inp = CA_NONE then None else if provided then cx_credential inp else g i), t)"
| k_update_error: "update_connector ce ent i v inp provided enabled now s = (Inl e, t) \<Longrightarrow> connector_step ce (g, s) (g, t)"
| k_enable: "connector_step ce (g, s) (g, snd (set_enabled i enabled v now s))"
| k_test: "connector_step ce (g, s) (g, snd (record_test i v success tools err tested now s))"
| k_delete: "connector_step ce (g, s) (g, snd (delete_connector ce i s))"

end
