(* ===== verification/Connectors_Facts.thy ===== *)
theory Connectors_Facts
  imports Connectors Environment_Facts
begin

text \<open>
  The connector repository as a named repository, and that the credential a connector decrypts to is the last one supplied.
\<close>

definition connector_key :: "ConnectorEnv \<Rightarrow> ConnectorRecord \<Rightarrow> string" where
  "connector_key ce r = ce_casefold ce (cn_name r)"

abbreviation connector_index :: "ConnectorEnv \<Rightarrow> ConnectorRepo \<Rightarrow> bool" where
  "connector_index ce s \<equiv> index_ok cn_id (connector_key ce) (cr_records s) (cr_names s)"

text \<open>What a credential is after an input has been encrypted for a connector at a revision.\<close>

lemma encrypt_input_opens:
  assumes "aead_ok (ce_crypto ce)" "encrypt_input ce ent (Some c) i n = Inr e"
  shows "decrypt_connector (ce_crypto ce) (ce_encryptor ce) e i n = Inr c"
  using assms(2) open_seal [OF assms(1)] by (simp add: encrypt_input_def encrypt_connector_def decrypt_connector_def)

lemma validate_credential_Inr:
  "validate_credential a c = Inr () \<Longrightarrow> a \<noteq> CA_NONE \<Longrightarrow> \<exists>v. c = Some v \<and> v \<noteq> [] \<and> length v \<le> 65536"
  by (auto simp: validate_credential_def not_less split: option.splits if_splits)

lemma create_connector_Inr:
  assumes "create_connector ce ent inp enabled i now s = (Inr r, t)"
  shows "cn_id r = i \<and> dget (cr_names s) (connector_key ce r) = None \<and> cn_auth_type r = cx_auth_type inp \<and>
    t = s\<lparr>cr_records := dset i r (cr_records s), cr_names := dset (connector_key ce r) i (cr_names s)\<rparr>"
  using assms
  by (auto simp: create_connector_def bind_Inr_iff Let_def connector_key_def split: if_splits)

lemma create_connector_credential:
  assumes "create_connector ce ent inp enabled i now s = (Inr r, t)" "aead_ok (ce_crypto ce)"
  shows "credential_for ce r = Inr (if cx_auth_type inp = CA_NONE then None else cx_credential inp) \<and>
    (cn_credential r = None \<longleftrightarrow> cn_auth_type r = CA_NONE)"
proof (cases "cx_auth_type inp = CA_NONE")
  case True
  with assms(1) show ?thesis
    by (auto simp: create_connector_def bind_Inr_iff Let_def credential_for_def split: if_splits)
next
  case False
  with assms(1) obtain c e where c: "cx_credential inp = Some c" "encrypt_input ce ent (Some c) i 1 = Inr e"
    "cn_credential r = Some e" "cn_id r = i" "cn_secret_revision r = 1" "cn_auth_type r = cx_auth_type inp"
    by (auto simp: create_connector_def bind_Inr_iff Let_def dest!: validate_credential_Inr split: if_splits)
  with False encrypt_input_opens [OF assms(2) c(2)] show ?thesis by (simp add: credential_for_def)
qed

lemma create_connector_Inl: "create_connector ce ent inp enabled i now s = (Inl e, t) \<Longrightarrow> t = s"
  by (auto simp: create_connector_def bind_Inl_iff Let_def split: if_splits)

lemma next_credential_credential:
  assumes "next_credential ce ent r inp provided i = Inr (enc, revision)" "aead_ok (ce_crypto ce)" "cn_id r = i"
    and "cn_id r' = i" "cn_credential r' = enc" "cn_secret_revision r' = revision" "cn_auth_type r' = cx_auth_type inp"
    and "credential_for ce r = Inr old"
  shows "credential_for ce r' =
      Inr (if cx_auth_type inp = CA_NONE then None else if provided then cx_credential inp else old) \<and>
    (cn_credential r' = None \<longleftrightarrow> cn_auth_type r' = CA_NONE)"
proof -
  consider "cx_auth_type inp = CA_NONE" | "cx_auth_type inp \<noteq> CA_NONE" "provided" | "cx_auth_type inp \<noteq> CA_NONE" "\<not> provided" by blast
  then show ?thesis
  proof cases
    case 1
    with assms show ?thesis by (simp add: next_credential_def credential_for_def)
  next
    case 2
    with assms(1) obtain c e where c: "cx_credential inp = Some c"
      "encrypt_input ce ent (Some c) i (cn_secret_revision r + 1) = Inr e" "enc = Some e" "revision = cn_secret_revision r + 1"
      by (auto simp: next_credential_def dest!: validate_credential_Inr)
    with 2 assms(3-7) encrypt_input_opens [OF assms(2) c(2)] show ?thesis by (simp add: credential_for_def)
  next
    case 3
    with assms show ?thesis by (auto simp: next_credential_def credential_for_def split: if_splits)
  qed
qed

lemma update_connector_Inr:
  assumes "update_connector ce ent i v inp provided enabled now s = (Inr r', t)" "connector_index ce s"
  shows "\<exists>r enc revision. dget (cr_records s) i = Some r \<and> cn_state_version r = v \<and> cn_id r' = cn_id r \<and>
    cn_state_version r' = cn_state_version r + 1 \<and>
    (dget (cr_names s) (connector_key ce r') = None \<or> dget (cr_names s) (connector_key ce r') = Some i) \<and>
    next_credential ce ent r inp provided i = Inr (enc, revision) \<and> cn_credential r' = enc \<and>
    cn_secret_revision r' = revision \<and> cn_auth_type r' = cx_auth_type inp \<and>
    t = s\<lparr>cr_names := rename_index (connector_key ce r) (connector_key ce r') i (cr_names s), cr_records := dset i r' (cr_records s)\<rparr>"
proof -
  obtain r n enc revision names' where *: "dget (cr_records s) i = Some r" "cn_state_version r = v"
    "dget (cr_names s) (ce_casefold ce n) = None \<or> dget (cr_names s) (ce_casefold ce n) = Some i"
    "next_credential ce ent r inp provided i = Inr (enc, revision)"
    "rename_name (ce_casefold ce (cn_name r)) (ce_casefold ce n) i (cr_names s) = Inr names'"
    "t = s\<lparr>cr_names := names', cr_records := dset i r' (cr_records s)\<rparr>"
    "r' = connector_update (apply_input r n inp enc revision enabled) now"
  proof -
    from assms(1) obtain n where n: "validate_connector_name (cx_name inp) = Inr n"
      by (auto simp: update_connector_def bind_Inr_iff)
    from assms(1) obtain r where r: "dget (cr_records s) i = Some r"
      by (auto simp: update_connector_def bind_Inr_iff get_connector_def split: option.splits)
    note run = assms(1) [unfolded update_connector_def]
    note ops = n r bind_def get_connector_def check_connector_version_def guard_def Let_def
    have v: "cn_state_version r = v"
      using run by (auto simp: ops split: if_splits)
    have owner: "dget (cr_names s) (ce_casefold ce n) = None \<or> dget (cr_names s) (ce_casefold ce n) = Some i"
      using run by (auto simp: ops split: if_splits)
    obtain enc revision where enc: "next_credential ce ent r inp provided i = Inr (enc, revision)"
      using run by (auto simp: ops split: if_splits sum.splits)
    obtain names' where "rename_name (ce_casefold ce (cn_name r)) (ce_casefold ce n) i (cr_names s) = Inr names'"
      using run owner by (auto simp: ops enc split: if_splits sum.splits)
    with run v owner enc r show thesis
      by (intro that) (auto simp: ops)
  qed
  have r': "cn_id r' = cn_id r" "cn_name r' = n" "cn_state_version r' = cn_state_version r + 1" "cn_credential r' = enc"
    "cn_secret_revision r' = revision" "cn_auth_type r' = cx_auth_type inp"
    by (simp_all add: *(7) connector_update_def apply_input_def)
  have "dget (cr_names s) (ce_casefold ce (cn_name r)) = Some i"
    using index_okD [OF assms(2) *(1)] by (simp add: connector_key_def)
  with *(5) have "names' = rename_index (ce_casefold ce (cn_name r)) (ce_casefold ce n) i (cr_names s)"
    by (simp add: rename_name_present)
  with *(1-4,6) r' show ?thesis
    by (intro exI [of _ r] exI [of _ enc] exI [of _ revision]) (simp add: connector_key_def)
qed

lemma update_connector_Inl:
  assumes "update_connector ce ent i v inp provided enabled now s = (Inl e, t)" "connector_index ce s"
  shows "t = s"
proof (cases "dget (cr_records s) i")
  case None
  with assms(1) show ?thesis by (auto simp: update_connector_def bind_Inl_iff get_connector_def)
next
  case (Some r)
  then have "dget (cr_names s) (ce_casefold ce (cn_name r)) = Some i"
    using index_okD [OF assms(2) Some] by (simp add: connector_key_def)
  note rename_name_present [OF this]
  with assms(1) Some show ?thesis
    by (auto simp: update_connector_def bind_Inl_iff get_connector_def Let_def split: prod.splits if_splits)
qed

text \<open>Switching and testing touch neither name nor credential.\<close>

definition touched :: "ConnectorRepo \<Rightarrow> ConnectorRepo \<Rightarrow> bool" where
  "touched s t \<longleftrightarrow> t = s \<or> (\<exists>i r r'. dget (cr_records s) i = Some r \<and> cn_id r' = cn_id r \<and> cn_name r' = cn_name r \<and>
     cn_state_version r' = cn_state_version r + 1 \<and> cn_credential r' = cn_credential r \<and>
     cn_secret_revision r' = cn_secret_revision r \<and> cn_auth_type r' = cn_auth_type r \<and>
     t = s\<lparr>cr_records := dset i r' (cr_records s)\<rparr>)"

lemma touched_ops:
  "touched s (snd (set_enabled i enabled v now s))" "touched s (snd (record_test i v success tools err tested now s))"
proof -
  show "touched s (snd (set_enabled i enabled v now s))"
  proof (cases "dget (cr_records s) i")
    case (Some r)
    then show ?thesis
      unfolding touched_def
      by (cases "cn_state_version r = v", intro disjI2 exI [of _ i] exI [of _ r] exI [of _ "connector_update (r\<lparr>cn_enabled := enabled\<rparr>) now"])
         (simp_all add: set_enabled_def bind_def get_connector_def check_connector_version_def connector_update_def guard_def Let_def)
  qed (simp add: touched_def set_enabled_def bind_def get_connector_def)
  show "touched s (snd (record_test i v success tools err tested now s))"
  proof (cases "dget (cr_records s) i")
    case (Some r)
    then show ?thesis
      unfolding touched_def
      by (cases "cn_state_version r = v", intro disjI2 exI [of _ i] exI [of _ r]
            exI [of _ "connector_update (r\<lparr>cn_tools := tools, cn_last_tested_at := Some tested,
              cn_last_test_success := Some success, cn_last_error := err\<rparr>) now"])
         (simp_all add: record_test_def bind_def get_connector_def check_connector_version_def connector_update_def guard_def Let_def)
  qed (simp add: touched_def record_test_def bind_def get_connector_def)
qed

lemma delete_connector_cases:
  assumes "connector_index ce s"
  shows "(\<exists>e. delete_connector ce i s = (Inl e, s)) \<or>
   (\<exists>r. dget (cr_records s) i = Some r \<and> delete_connector ce i s =
      (Inr (), s\<lparr>cr_records := ddel i (cr_records s), cr_names := ddel (connector_key ce r) (cr_names s)\<rparr>))"
proof (cases "dget (cr_records s) i")
  case None
  then show ?thesis by (simp add: delete_connector_def bind_def get_connector_def)
next
  case (Some r)
  then have "dget (cr_names s) (ce_casefold ce (cn_name r)) = Some i"
    using index_okD [OF assms Some] by (simp add: connector_key_def)
  note del_name_present [OF this]
  with Some show ?thesis by (simp add: delete_connector_def bind_def get_connector_def connector_key_def)
qed

lemma connector_step_shape:
  assumes "connector_step ce x y" "connector_index ce (snd x)"
  shows "named_step cn_id (connector_key ce) cn_state_version (cr_records (snd x)) (cr_names (snd x))
    (cr_records (snd y)) (cr_names (snd y))"
proof -
  have touch: "named_step cn_id (connector_key ce) cn_state_version (cr_records s) (cr_names s) (cr_records t) (cr_names t)"
    if "touched s t" "connector_index ce s" for s t
    using that(1) unfolding touched_def
  proof (elim disjE exE conjE)
    fix i r r' assume "dget (cr_records s) i = Some r" "cn_id r' = cn_id r" "cn_name r' = cn_name r"
      "cn_state_version r' = cn_state_version r + 1" "t = s\<lparr>cr_records := dset i r' (cr_records s)\<rparr>"
    then show ?thesis using named_step_keep [OF that(2)] by (simp add: connector_key_def)
  qed (simp add: named_step_same)
  show ?thesis
    using assms
  proof (induction rule: connector_step.induct)
    case (k_create s i ent inp enabled now r t g)
    from create_connector_Inr [OF k_create(2)] k_create(1) show ?case by (auto intro: named_step_create)
  next
    case (k_create_error ent inp enabled i now s e t g)
    then show ?case by (auto dest: create_connector_Inl simp: named_step_same)
  next
    case (k_update ent i v inp provided enabled now s r' t g)
    then have ix: "connector_index ce s" by simp
    from update_connector_Inr [OF k_update(1) ix] obtain r where *: "dget (cr_records s) i = Some r"
      "cn_id r' = cn_id r" "cn_state_version r' = cn_state_version r + 1"
      "dget (cr_names s) (connector_key ce r') = None \<or> dget (cr_names s) (connector_key ce r') = Some i"
      "t = s\<lparr>cr_names := rename_index (connector_key ce r) (connector_key ce r') i (cr_names s), cr_records := dset i r' (cr_records s)\<rparr>"
      by blast
    with index_okD [OF ix *(1)] show ?case by (auto intro!: named_step_rename dget_rename_index)
  next
    case (k_update_error ent i v inp provided enabled now s e t g)
    then have "t = s" using update_connector_Inl by auto
    then show ?case by (simp add: named_step_same)
  next
    case (k_enable g s i enabled v now)
    then show ?case by (auto intro: touch touched_ops)
  next
    case (k_test g s i v success tools err tested now)
    then show ?case by (auto intro: touch touched_ops)
  next
    case (k_delete g s i)
    then have "connector_index ce s" by simp
    from delete_connector_cases [OF this, of i] show ?case by (auto simp: named_step_same intro: named_step_delete)
  qed
qed

abbreviation connector_repo_step :: "ConnectorEnv \<Rightarrow> ConnectorRepo \<Rightarrow> ConnectorRepo \<Rightarrow> bool" where
  "connector_repo_step ce s t \<equiv> \<exists>g g'. connector_step ce (g, s) (g', t)"

interpretation connectors: named_repository
  cr_records cr_names cn_id "connector_key ce" cn_state_version "connector_repo_step ce" empty_connectors
  "\<lambda>(ent, inp, provided, enabled, now) i v. update_connector ce ent i v inp provided enabled now" for ce
proof unfold_locales
  fix c i v s r' t
  assume u: "(case c of (ent, inp, provided, enabled, now) \<Rightarrow> \<lambda>i v. update_connector ce ent i v inp provided enabled now) i v s = (Inr r', t)"
    and ix: "connector_index ce s"
  obtain ent inp provided enabled now where c: "c = (ent, inp, provided, enabled, now)" by (cases c)
  with u have u': "update_connector ce ent i v inp provided enabled now s = (Inr r', t)" by simp
  from k_update [OF this] have "connector_repo_step ce s t" by blast
  with update_connector_Inr [OF u' ix]
  show "\<exists>r. dget (cr_records s) i = Some r \<and> cn_state_version r = v \<and> cn_state_version r' = v + 1 \<and>
      dget (cr_records t) i = Some r' \<and> connector_repo_step ce s t"
    by (auto simp: dget_dset)
next
  fix s t assume "connector_repo_step ce s t" "connector_index ce s"
  then show "named_step cn_id (connector_key ce) cn_state_version (cr_records s) (cr_names s) (cr_records t) (cr_names t)"
    using connector_step_shape by fastforce
qed (auto simp: empty_connectors_def split: prod.splits dest: update_connector_Inl)

section \<open>Credentials\<close>

text \<open>
  Every stored connector opens to the credential that was last supplied for it, and has one exactly when it authenticates.
\<close>

definition credentials_ok :: "ConnectorEnv \<Rightarrow> supplied \<times> ConnectorRepo \<Rightarrow> bool" where
  "credentials_ok ce x \<longleftrightarrow> connector_index ce (snd x) \<and>
     (\<forall>i r. dget (cr_records (snd x)) i = Some r \<longrightarrow>
        credential_for ce r = Inr (fst x i) \<and> (cn_credential r = None \<longleftrightarrow> cn_auth_type r = CA_NONE))"

lemma credentials_okD:
  "credentials_ok ce (g, s) \<Longrightarrow> dget (cr_records s) i = Some r \<Longrightarrow>
     cn_id r = i \<and> credential_for ce r = Inr (g i) \<and> (cn_credential r = None \<longleftrightarrow> cn_auth_type r = CA_NONE)"
  by (auto simp: credentials_ok_def dest: index_okD)

lemma credentials_ok_stored:
  assumes "credentials_ok ce (g, s)" "connector_index ce t" "cr_records t = dset i r (cr_records s)"
    and "credential_for ce r = Inr c" "cn_credential r = None \<longleftrightarrow> cn_auth_type r = CA_NONE"
  shows "credentials_ok ce (g(i := c), t)"
  using assms by (auto simp: credentials_ok_def dget_dset)

lemma credentials_ok_touched:
  assumes "credentials_ok ce (g, s)" "touched s t" "connector_index ce t"
  shows "credentials_ok ce (g, t)"
  using assms(2) unfolding touched_def
proof (elim disjE exE conjE)
  fix i r r' assume r: "dget (cr_records s) i = Some r" "cn_id r' = cn_id r" "cn_credential r' = cn_credential r"
    "cn_secret_revision r' = cn_secret_revision r" "cn_auth_type r' = cn_auth_type r"
    "t = s\<lparr>cr_records := dset i r' (cr_records s)\<rparr>"
  from credentials_okD [OF assms(1) r(1)] r(2-5) have "credential_for ce r' = Inr (g i)"
    "cn_credential r' = None \<longleftrightarrow> cn_auth_type r' = CA_NONE" by (auto simp: credential_for_def cong: option.case_cong)
  from credentials_ok_stored [OF assms(1,3) _ this, of i] r(6) show ?thesis by simp
qed (use assms(1) in simp)

lemma connector_step_credentials:
  assumes "connector_step ce x y" "aead_ok (ce_crypto ce)" "credentials_ok ce x"
  shows "credentials_ok ce y"
proof -
  have ix: "connector_index ce (snd x)" using assms(3) by (simp add: credentials_ok_def)
  have ix': "connector_index ce (snd y)" by (rule index_ok_step [OF ix connector_step_shape [OF assms(1) ix]])
  from assms(1) show ?thesis
  proof cases
    case (k_create s i ent inp enabled now r t g)
    with assms(3) ix' create_connector_Inr [OF k_create(4)] create_connector_credential [OF k_create(4) assms(2)]
    show ?thesis by (auto intro!: credentials_ok_stored [of ce g s])
  next
    case (k_create_error ent inp enabled i now s e t g)
    with assms(3) create_connector_Inl [OF k_create_error(3)] show ?thesis by simp
  next
    case (k_update ent i v inp provided enabled now s r' t g)
    have ok: "credentials_ok ce (g, s)" "connector_index ce s" using assms(3) ix k_update(1) by simp_all
    from update_connector_Inr [OF k_update(3) ok(2)] obtain r enc revision where r: "dget (cr_records s) i = Some r"
      "cn_id r' = cn_id r" "next_credential ce ent r inp provided i = Inr (enc, revision)" "cn_credential r' = enc"
      "cn_secret_revision r' = revision" "cn_auth_type r' = cx_auth_type inp" "cr_records t = dset i r' (cr_records s)" by auto
    note old = credentials_okD [OF ok(1) r(1)]
    have "credential_for ce r' = Inr (if cx_auth_type inp = CA_NONE then None else if provided then cx_credential inp else g i) \<and>
      (cn_credential r' = None \<longleftrightarrow> cn_auth_type r' = CA_NONE)"
      using next_credential_credential [OF r(3) assms(2)] old r(2,4-6) by auto
    with credentials_ok_stored [OF ok(1) _ r(7)] ix' k_update(2) show ?thesis by simp
  next
    case (k_update_error ent i v inp provided enabled now s e t g)
    with assms(3) ix update_connector_Inl [OF k_update_error(3)] show ?thesis by simp
  next
    case (k_enable g s i enabled v now)
    with assms(3) ix' show ?thesis by (auto intro: credentials_ok_touched touched_ops)
  next
    case (k_test g s i v success tools err tested now)
    with assms(3) ix' show ?thesis by (auto intro: credentials_ok_touched touched_ops)
  next
    case (k_delete g s i)
    with ix have "connector_index ce s" by simp
    from delete_connector_cases [OF this, of i] assms(3) ix' show ?thesis
      by (auto simp: k_delete credentials_ok_def delete_conv split: if_splits)
  qed
qed

lemma credentials_reachable:
  assumes "aead_ok (ce_crypto ce)" "(connector_step ce)\<^sup>*\<^sup>* (\<lambda>_. None, empty_connectors) x"
  shows "credentials_ok ce x"
  using assms(2)
proof (induction rule: rtranclp_induct)
  case base
  show ?case by (simp add: credentials_ok_def empty_connectors_def index_ok_def)
next
  case (step y z)
  show ?case by (rule connector_step_credentials [OF step.hyps(2) assms(1) step.IH])
qed

section \<open>Properties\<close>

definition demo_connectors_env :: ConnectorEnv where
  "demo_connectors_env = \<lparr>ce_crypto = demo_crypto, ce_encryptor = demo_encryptor, ce_casefold = (\<lambda>s. s)\<rparr>"

definition demo_connector_input :: "string option \<Rightarrow> ConnectorInput" where
  "demo_connector_input c = \<lparr>cx_name = ''jira'', cx_description = [], cx_kind = CK_HTTP, cx_base_url = ''https://x'',
     cx_auth_type = CA_BEARER, cx_auth_header = ''Authorization'', cx_credential = c, cx_timeout_seconds = 30\<rparr>"

definition demo_connectors :: "ConnectorRecord res \<times> ConnectorRepo" where
  "demo_connectors = create_connector demo_connectors_env (''d'', ''n'', ''w'') (demo_connector_input (Some ''tok'')) True 4 0
     empty_connectors"

definition demo_connectors2 :: "ConnectorRecord res \<times> ConnectorRepo" where
  "demo_connectors2 = update_connector demo_connectors_env (''d'', ''n'', ''w'') 4 0 (demo_connector_input None) False None 9
     (snd demo_connectors)"

text \<open>C37. A connector's credential is the one that was last supplied for it. After any sequence of creations,
  updates, switches, recorded tests and deletions, accepted or refused, every stored connector decrypts to the
  credential of its creation or of the last update that supplied one (updates that keep it, switches and tests in
  between included), and to none exactly when it does not authenticate.\<close>

theorem connector_credential_is_the_last_supplied:
  assumes "aead_ok (ce_crypto ce)" "(connector_step ce)\<^sup>*\<^sup>* (\<lambda>_. None, empty_connectors) (g, s)"
    and "dget (cr_records s) i = Some r"
  shows "credential_for ce r = Inr (g i) \<and> (credential_configured r \<longleftrightarrow> cn_auth_type r \<noteq> CA_NONE)"
  using credentials_okD [OF credentials_reachable [OF assms(1,2)] assms(3)] by (simp add: credential_configured_def)

lemma strip_jira: "strip ''jira'' = ''jira''"
  by code_simp

lemma demo_credential_sealed: "\<not> isl (encrypt_input demo_connectors_env (''d'', ''n'', ''w'') (Some ''tok'') 4 1)"
  by code_simp

lemma demo_connectors_run:
  "fst demo_connectors = Inr (the (dget (cr_records (snd demo_connectors)) 4))"
  "fst demo_connectors2 = Inr (the (dget (cr_records (snd demo_connectors2)) 4))"
  "dget (cr_records (snd demo_connectors2)) 4 \<noteq> None"
proof -
  obtain e where e: "encrypt_input demo_connectors_env (''d'', ''n'', ''w'') (Some ''tok'') 4 1 = Inr e"
    using demo_credential_sealed by (cases "encrypt_input demo_connectors_env (''d'', ''n'', ''w'') (Some ''tok'') 4 1") auto
  have n: "validate_connector_name ''jira'' = Inr ''jira''"
    using strip_jira by (simp add: validate_connector_name_def)
  have demo: "demo_connector_input c = \<lparr>cx_name = ''jira'', cx_description = [], cx_kind = CK_HTTP, cx_base_url = ''https://x'',
     cx_auth_type = CA_BEARER, cx_auth_header = ''Authorization'', cx_credential = c, cx_timeout_seconds = 30\<rparr>" for c
    by (rule demo_connector_input_def)
  show "fst demo_connectors = Inr (the (dget (cr_records (snd demo_connectors)) 4))"
    "fst demo_connectors2 = Inr (the (dget (cr_records (snd demo_connectors2)) 4))"
    "dget (cr_records (snd demo_connectors2)) 4 \<noteq> None"
    by (simp_all add: demo_connectors2_def demo_connectors_def update_connector_def create_connector_def bind_def n demo e
        validate_credential_def empty_connectors_def Let_def get_connector_def check_connector_version_def next_credential_def
        rename_name_def connector_update_def apply_input_def guard_def)
qed

theorem connector_credential_is_the_last_supplied_witness:
  "credential_for demo_connectors_env (the (dget (cr_records (snd demo_connectors2)) 4)) = Inr (Some ''tok'')"
proof -
  let ?run = "connector_step demo_connectors_env" and ?g = "(\<lambda>_. None)(4 := Some ''tok'') :: supplied"
  have a: "?run (\<lambda>_. None, empty_connectors) (?g, snd demo_connectors)"
    using k_create [of empty_connectors 4 demo_connectors_env "(''d'', ''n'', ''w'')" "demo_connector_input (Some ''tok'')" True 0 _
        "snd demo_connectors" "\<lambda>_. None"] demo_connectors_run(1)
    by (simp add: demo_connectors_def demo_connector_input_def empty_connectors_def prod_eq_iff)
  have b: "?run (?g, snd demo_connectors) (?g, snd demo_connectors2)"
    using k_update [of demo_connectors_env "(''d'', ''n'', ''w'')" 4 0 "demo_connector_input None" False None 9
        "snd demo_connectors" _ "snd demo_connectors2" ?g] demo_connectors_run(2)
    by (simp add: demo_connectors2_def demo_connector_input_def prod_eq_iff)
  have "?run\<^sup>*\<^sup>* (\<lambda>_. None, empty_connectors) (?g, snd demo_connectors2)"
    using a b by (blast intro: converse_rtranclp_into_rtranclp)
  from connector_credential_is_the_last_supplied [OF _ this, of 4] demo_connectors_run(3) demo_aead show ?thesis
    by (auto simp: demo_connectors_env_def)
qed

end
