(* ===== verification/Local_Runner.thy ===== *)
theory Local_Runner
  imports Runner_Facts Plan_Facts
begin

text \<open>
  The node-local runner, \<^verbatim>\<open>services/local_runner_service.py\<close>: a poller that submits every dispatching run to a
  pool, and the execution of one run, which resolves its source, materialises the task, hands it to the runner manager with the batch
  coordinator as completion callback, and closes the run when anything fails.

  \<open>execute_run\<close> and \<open>converge_infra_error\<close> work on the state of the runner manager; \<open>poll_run\<close> is one round of
  \<open>poll_once\<close> and \<open>local_step\<close> interleaves the poller, the pool and the done callbacks.
\<close>

section \<open>One run\<close>

type_synonym runner_executor = "TaskEnvelope \<Rightarrow> exec_tree"

text \<open>
  Resolving the source of a run and building the executor for it: for a host project
  \<open>resolve_host_reference\<close> and the host executor factory, otherwise a temporary workspace, \<open>materialize\<close> of the source store
  and the executor factory.
\<close>

record LocalSources =
  so_host :: "RunSpecRecord \<Rightarrow> runner_executor res"
  so_container :: "RunSpecRecord \<Rightarrow> runner_executor res"

definition local_manager ::
  "(TaskEnvelope \<Rightarrow> EventEnvelope \<Rightarrow> (RunRepo, EventEnvelope) pyop) \<Rightarrow> (uuid \<Rightarrow> (RunRepo, unit) pyop) \<Rightarrow> Manager" where
  "local_manager collect callback =
     \<lparr>mg_runner_id = ''runner-local'', mg_lease_seconds = 300, mg_collector = Some collect, mg_scheduler = None,
      mg_callback = Some callback\<rparr>"

text \<open>The coordinator as a completion callback: \<open>plans\<close> are the test plans, whose specifications and batches do not change.\<close>

definition coordinator_callback ::
  "(uuid \<Rightarrow> (RunRepo, unit) pyop) \<Rightarrow> (nat \<Rightarrow> time) \<Rightarrow> PlanSys \<Rightarrow> uuid \<Rightarrow> (RunRepo, unit) pyop" where
  "coordinator_callback dispatch tick plans run_id repo =
     (case on_run_finished dispatch tick run_id (plans\<lparr>pr_runs := repo\<rparr>) of
        (Inl e, s) \<Rightarrow> (Inl e, pr_runs s) | (Inr _, s) \<Rightarrow> (Inr (), pr_runs s))"

definition converge_infra_error :: "Manager \<Rightarrow> Sched \<Rightarrow> uuid \<Rightarrow> (MState, unit) pyop" where
  "converge_infra_error mg sch run_id =
     bind (catch
       (bind (call sch (\<lambda>_. get run_id)) (\<lambda>current.
        if rr_state current \<notin> set RUN_TERMINAL \<and> rr_state current \<noteq> R_CREATED
        then bind (call sch (\<lambda>clk. transition run_id R_INFRA_ERROR (clk 0))) (\<lambda>_. ret ())
        else ret ()))
       (\<lambda>_. ret ())) (\<lambda>_.
     notify_completion mg sch run_id)"

definition prepare_executor :: "LocalSources \<Rightarrow> RunSpecRecord \<Rightarrow> runner_executor res" where
  "prepare_executor so spec =
     (if take (length ''host-source:'') (sp_source_ref spec) = ''host-source:''
      then
        if sp_engine spec \<notin> {E_PYTEST, E_PLAYWRIGHT} then Inl ValueError else so_host so spec
      else so_container so spec)"

definition execute_run ::
  "(exn \<Rightarrow> string) \<Rightarrow> (pyval \<Rightarrow> string) \<Rightarrow> (string \<Rightarrow> uuid) \<Rightarrow> LocalSources \<Rightarrow> Manager \<Rightarrow> Sched \<Rightarrow> PlanSys \<Rightarrow> uuid \<Rightarrow> uuid \<Rightarrow> time \<Rightarrow>
   (MState, unit) pyop" where
  "execute_run exn_name str_of uuid5_url so mg sch plans run_id attempt_id now =
     catch
       (bind (lift (fst (get_run_spec run_id plans))) (\<lambda>spec.
        bind (lift (prepare_executor so spec)) (\<lambda>executor.
        bind (lift (fst (materialize uuid5_url run_id attempt_id now plans))) (\<lambda>task.
        bind (execute exn_name str_of mg sch executor task) (\<lambda>_. ret ())))))
       (\<lambda>_. converge_infra_error mg sch run_id)"

section \<open>Closing the run\<close>

definition run_closed :: "uuid \<Rightarrow> MState \<Rightarrow> bool" where
  "run_closed i s \<longleftrightarrow> (\<exists>r. dget (q_runs (ms_repo s)) i = Some r \<and> rr_state r \<in> set RUN_TERMINAL)"

definition attempt_lost_in :: "uuid \<Rightarrow> MState \<Rightarrow> bool" where
  "attempt_lost_in j s \<longleftrightarrow> (\<exists>a. dget (q_attempts (ms_repo s)) j = Some a \<and> at_state a = A_LOST)"

lemma descends_refl: "repo_inv (ms_repo s) \<Longrightarrow> descends (ms_repo s) s"
  by (simp add: descends_def)

lemma run_closed_later:
  assumes "descends (ms_repo s) t" "repo_inv (ms_repo s)" "run_closed i s"
  shows "run_closed i t"
  using assms repo_evolves_runD [OF repo_steps_evolves [of "ms_repo s" "ms_repo t"], of i] run_evolves_terminal
  by (fastforce simp: run_closed_def descends_def)

lemma descends_inv: "descends (ms_repo s) t \<Longrightarrow> repo_inv (ms_repo s) \<Longrightarrow> repo_inv (ms_repo t)"
  by (auto simp: descends_def dest: repo_steps_inv)

lemma run_closed_keeps:
  assumes "\<And>r0. keeps (descends r0) m" "m s = (x, t)" "repo_inv (ms_repo s)"
  shows "repo_inv (ms_repo t) \<and> (run_closed i s \<longrightarrow> run_closed i t)"
  using keepsD [OF assms(1) descends_refl [OF assms(3)]] assms(2,3) run_closed_later [of s t i] descends_inv [of s t] by simp

text \<open>The moment after a transition has been accepted.\<close>

lemma call_transition_Inr:
  assumes "call sch (\<lambda>clk. transition i st (clk 0)) s = (Inr r, t)"
  shows "\<exists>r. dget (q_runs (ms_repo t)) i = Some r \<and> rr_state r = st"
  using assms by (auto simp: call_def transition_unfold Let_def set_run_def run_with_state_Inr split: prod.splits option.splits sum.splits)

lemma call_get_attempt_Inr:
  assumes "call sch (\<lambda>_. get_attempt j) s = (Inr a, t)"
  shows "dget (q_attempts (ms_repo t)) j = Some a"
  using assms by (auto simp: call_def get_attempt_def get_attempt_locked_def Let_def split: prod.splits option.splits)

lemma closing_transition:
  assumes "fair_env sch" "fair_manager mg" "st \<in> set RUN_TERMINAL" "repo_inv (ms_repo s)"
    and "bind (call sch (\<lambda>clk. transition i st (clk 0))) (\<lambda>_. notify_completion mg sch i) s = (Inr x, t)"
  shows "run_closed i t"
proof -
  from assms(5) obtain r u where u: "call sch (\<lambda>clk. transition i st (clk 0)) s = (Inr r, u)"
    "notify_completion mg sch i u = (Inr x, t)" by (auto simp: bind_Inr_iff)
  have keeps: "\<And>r0. keeps (descends r0) (call sch (\<lambda>clk. transition i st (clk 0)))" by (intro descends_rules assms(1))
  have "run_closed i u" using call_transition_Inr [OF u(1)] assms(3) by (auto simp: run_closed_def)
  moreover have "repo_inv (ms_repo u)" using run_closed_keeps [OF keeps u(1) assms(4)] by blast
  ultimately show ?thesis using run_closed_keeps [OF keeps_notify [OF assms(1,2)] u(2)] by blast
qed

lemma result_states_terminal: "snd (result_states x) \<in> set RUN_TERMINAL"
  by (cases x) (simp_all add: RUN_TERMINAL_def)

lemma settle_closes:
  assumes "fair_env sch" "fair_manager mg" "mg_scheduler mg = None" "repo_inv (ms_repo s)"
    and "settle str_of mg sch task result ie s = (Inr x, t)"
  shows "run_closed (en_run_id task) t"
proof -
  let ?i = "en_run_id task"
  from assms(5) obtain attempts u where u: "call sch (\<lambda>_. list_attempts ?i) s = (Inr attempts, u)"
    "(if rd_should_retry (decide_retry str_of task result (int (length attempts)))
      then bind (schedule_retry mg sch task (rd_delay_seconds (decide_retry str_of task result (int (length attempts))))) (\<lambda>_. ret result)
      else bind (finish_run mg sch task (snd (result_states (rs_outcome result)))) (\<lambda>_.
        case ie of Some e \<Rightarrow> raise e | None \<Rightarrow> ret result)) u = (Inr x, t)"
    by (auto simp: settle_def bind_Inr_iff Let_def)
  have "\<And>r0. keeps (descends r0) (call sch (\<lambda>_. list_attempts ?i))" by (intro descends_rules assms(1))
  from run_closed_keeps [OF this u(1) assms(4)] have inv: "repo_inv (ms_repo u)" by blast
  show ?thesis
  proof (cases "rd_should_retry (decide_retry str_of task result (int (length attempts)))")
    case True
    with u(2) assms(3) have "bind (call sch (\<lambda>clk. transition ?i R_INFRA_ERROR (clk 0))) (\<lambda>_. notify_completion mg sch ?i) u = (Inr (), t)"
      by (auto simp: schedule_retry_def bind_Inr_iff)
    from closing_transition [OF assms(1,2) _ inv this] show ?thesis by (simp add: RUN_TERMINAL_def)
  next
    case False
    with u(2) obtain v w where v: "bind (call sch (\<lambda>clk. transition ?i (snd (result_states (rs_outcome result))) (clk 0)))
        (\<lambda>_. notify_completion mg sch ?i) v = (Inr (), w)" "t = w"
      "(if snd (result_states (rs_outcome result)) = R_CANCELLED
           then bind (call sch (\<lambda>_. get ?i)) (\<lambda>current.
             if rr_state current \<noteq> R_CANCELLING
             then bind (call sch (\<lambda>clk. transition ?i R_CANCELLING (clk 0))) (\<lambda>_. ret ())
             else ret ())
           else ret ()) u = (Inr (), v)"
      by (auto simp: finish_run_def bind_Inr_iff split: option.splits)
    have "\<And>r0. keeps (descends r0) (if snd (result_states (rs_outcome result)) = R_CANCELLED
           then bind (call sch (\<lambda>_. get ?i)) (\<lambda>current.
             if rr_state current \<noteq> R_CANCELLING
             then bind (call sch (\<lambda>clk. transition ?i R_CANCELLING (clk 0))) (\<lambda>_. ret ())
             else ret ())
           else ret ())" by (intro descends_rules assms(1))
    from run_closed_keeps [OF this v(3) inv] have "repo_inv (ms_repo v)" by blast
    from closing_transition [OF assms(1,2) result_states_terminal this v(1)] v(2) show ?thesis by simp
  qed
qed

lemma record_attempt_lost:
  assumes "record_attempt sch task result s = (Inr False, t)"
  shows "attempt_lost_in (en_attempt_id task) t"
  using assms
  by (auto simp: record_attempt_def catch_def bind_def attempt_lost_in_def dest: call_get_attempt_Inr split: prod.splits sum.splits if_splits)

lemma conclude_closes:
  assumes "fair_env sch" "fair_manager mg" "mg_scheduler mg = None" "repo_inv (ms_repo s)"
    and "conclude_task str_of mg sch task result ie s = (Inr x, t)"
  shows "run_closed (en_run_id task) t \<or> attempt_lost_in (en_attempt_id task) t"
proof -
  from assms(5) obtain result' u a v where u: "honour_cancel sch task result s = (Inr result', u)"
    "call sch (\<lambda>_. get_attempt (en_attempt_id task)) u = (Inr a, v)"
    "(if at_state a = A_LOST then bind (clock_now sch) (\<lambda>now. ret (lost_result task now))
      else bind (record_attempt sch task result') (\<lambda>recorded.
       if \<not> recorded then bind (clock_now sch) (\<lambda>now. ret (lost_result task now))
       else settle str_of mg sch task result' ie)) v = (Inr x, t)"
    by (auto simp: conclude_task_def bind_Inr_iff)
  have "\<And>r0. keeps (descends r0) (honour_cancel sch task result)"
    unfolding honour_cancel_def by (intro descends_rules assms(1))
  from run_closed_keeps [OF this u(1) assms(4)] have inv: "repo_inv (ms_repo u)" by blast
  have "\<And>r0. keeps (descends r0) (call sch (\<lambda>_. get_attempt (en_attempt_id task)))" by (intro descends_rules assms(1))
  from run_closed_keeps [OF this u(2) inv] have v: "repo_inv (ms_repo v)" by blast
  show ?thesis
  proof (cases "at_state a = A_LOST")
    case True
    with u(3) call_get_attempt_Inr [OF u(2)] show ?thesis by (auto simp: attempt_lost_in_def clock_now_def bind_Inr_iff)
  next
    case False
    with u(3) obtain recorded w where w: "record_attempt sch task result' v = (Inr recorded, w)"
      "(if \<not> recorded then bind (clock_now sch) (\<lambda>now. ret (lost_result task now))
       else settle str_of mg sch task result' ie) w = (Inr x, t)" by (auto simp: bind_Inr_iff)
    have "\<And>r0. keeps (descends r0) (record_attempt sch task result')"
      unfolding record_attempt_def by (intro descends_rules assms(1))
    from run_closed_keeps [OF this w(1) v] have "repo_inv (ms_repo w)" by blast
    with w settle_closes [OF assms(1-3), of w str_of task result' ie x t] record_attempt_lost [of sch task result' v w]
    show ?thesis by (cases recorded) (auto simp: clock_now_def bind_Inr_iff)
  qed
qed

lemma execute_closes:
  assumes "fair_env sch" "fair_manager mg" "mg_scheduler mg = None" "repo_inv (ms_repo s)"
    and "execute exn_name str_of mg sch executor task s = (Inr x, t)"
  shows "run_closed (en_run_id task) t \<or> attempt_lost_in (en_attempt_id task) t"
proof -
  from assms(5) obtain u result ie v where u: "claim_task mg sch task s = (Inr (), u)"
    "run_executor exn_name mg sch (executor task) task u = (Inr (result, ie), v)"
    "conclude_task str_of mg sch task result ie v = (Inr x, t)" by (auto simp: execute_def bind_Inr_iff)
  have "\<And>r0. keeps (descends r0) (claim_task mg sch task)"
    unfolding claim_task_def by (intro descends_rules assms(1))
  from run_closed_keeps [OF this u(1) assms(4)] have inv: "repo_inv (ms_repo u)" by blast
  have "\<And>r0. keeps (descends r0) (run_executor exn_name mg sch (executor task) task)"
    unfolding run_executor_def clock_now_def by (intro descends_rules assms(1,2) keeps_persist_event)
  from run_closed_keeps [OF this u(2) inv] have "repo_inv (ms_repo v)" by blast
  from conclude_closes [OF assms(1-3) this u(3)] show ?thesis .
qed

lemma created_is_initial: "transition_run st a = Inr a \<Longrightarrow> st \<noteq> R_CREATED \<Longrightarrow> a \<noteq> R_CREATED"
  by (cases st) (auto simp: transition_run_def table_simps)

text \<open>A run that has left \<open>CREATED\<close> never returns to it.\<close>

lemma not_created_again:
  assumes "repo_steps r t" "repo_inv r" "dget (q_runs r) i = Some x" "rr_state x \<noteq> R_CREATED"
  shows "\<exists>y. dget (q_runs t) i = Some y \<and> rr_state y \<noteq> R_CREATED"
proof -
  from repo_evolves_runD [OF repo_steps_evolves [OF assms(1,2)] assms(3)] obtain y where y: "dget (q_runs t) i = Some y" "run_evolves x y"
    by blast
  then obtain ts where ts: "run_machine.history (rr_state x) ts" "rr_state y = last (rr_state x # ts)" by (auto simp: run_evolves_def)
  have "st \<noteq> R_CREATED \<Longrightarrow> run_machine.history st ts \<Longrightarrow> last (st # ts) \<noteq> R_CREATED" for st
  proof (induction ts arbitrary: st)
    case (Cons a ts)
    then show ?case using created_is_initial [of st a] by simp
  qed simp
  with ts assms(4) y(1) show ?thesis by auto
qed


lemma call_env:
  assumes "fair_env sch" "repo_inv (ms_repo s)"
  shows "call sch f s = (fst (f (sch_clock sch (ms_calls s)) (sch_env sch (ms_calls s) (ms_repo s))),
      s\<lparr>ms_repo := snd (f (sch_clock sch (ms_calls s)) (sch_env sch (ms_calls s) (ms_repo s))), ms_calls := Suc (ms_calls s)\<rparr>)"
    "repo_steps (ms_repo s) (sch_env sch (ms_calls s) (ms_repo s))"
  using assms by (simp_all add: call_def Let_def case_prod_beta fair_env_def)

lemma converge_transition:
  assumes "fair_env sch" "repo_inv (ms_repo s)" "dget (q_runs (ms_repo s)) i = Some x" "rr_state x \<noteq> R_CREATED"
  shows "run_closed i (snd (call sch (\<lambda>clk. transition i R_INFRA_ERROR (clk 0)) s))"
proof -
  let ?env = "sch_env sch (ms_calls s) (ms_repo s)"
  obtain y where y: "dget (q_runs ?env) i = Some y" "rr_state y \<noteq> R_CREATED"
    using not_created_again [OF call_env(2) [OF assms(1,2)] assms(2-4)] by blast
  show ?thesis
  proof (cases "rr_state y \<in> set RUN_TERMINAL")
    case True
    show ?thesis
    proof (cases "run_with_state y R_INFRA_ERROR (sch_clock sch (ms_calls s) 0)")
      case (Inl e)
      with y True show ?thesis by (simp add: run_closed_def call_env(1) [OF assms(1,2)] transition_unfold)
    next
      case (Inr z)
      then have "rr_state z = R_INFRA_ERROR" by (simp add: run_with_state_Inr)
      with y Inr show ?thesis
        by (simp add: run_closed_def call_env(1) [OF assms(1,2)] transition_unfold set_run_def RUN_TERMINAL_def)
    qed
  next
    case False
    with infra_error_reachable [of y] y show ?thesis
      by (simp add: run_closed_def call_env(1) [OF assms(1,2)] transition_unfold set_run_def RUN_TERMINAL_def)
  qed
qed

lemma converge_closes:
  assumes fair: "fair_env sch" "fair_manager mg" and run: "repo_inv (ms_repo s)" "dget (q_runs (ms_repo s)) i = Some x" "rr_state x \<noteq> R_CREATED"
  shows "run_closed i (snd (converge_infra_error mg sch i s)) \<and> isl (fst (converge_infra_error mg sch i s)) = False"
proof -
  let ?env = "sch_env sch (ms_calls s) (ms_repo s)"
  let ?u = "s\<lparr>ms_repo := ?env, ms_calls := Suc (ms_calls s)\<rparr>"
  obtain y where y: "dget (q_runs ?env) i = Some y" "rr_state y \<noteq> R_CREATED"
    using not_created_again [OF call_env(2) [OF fair(1) run(1)] run] by blast
  have inv: "repo_inv ?env" by (rule repo_steps_inv [OF call_env(2) [OF fair(1) run(1)] run(1)])
  have get: "call sch (\<lambda>_. get i) s = (Inr y, ?u)"
    using y(1) by (simp add: call_env(1) [OF fair(1) run(1)] get_def get_locked_def)
  define first where "first = catch
       (bind (call sch (\<lambda>_. get i)) (\<lambda>current.
        if rr_state current \<notin> set RUN_TERMINAL \<and> rr_state current \<noteq> R_CREATED
        then bind (call sch (\<lambda>clk. transition i R_INFRA_ERROR (clk 0))) (\<lambda>_. ret ())
        else ret ()))
       (\<lambda>_. ret ())"
  have keeps: "\<And>r0. keeps (descends r0) first" unfolding first_def by (intro descends_rules fair(1))
  have closed: "run_closed i (snd (first s)) \<and> fst (first s) = Inr ()"
  proof (cases "rr_state y \<in> set RUN_TERMINAL")
    case True
    with y(1) show ?thesis by (simp add: first_def catch_def bind_def get run_closed_def)
  next
    case False
    have "run_closed i (snd (call sch (\<lambda>clk. transition i R_INFRA_ERROR (clk 0)) ?u))"
      by (rule converge_transition [OF fair(1)]) (use inv y in simp_all)
    with False y(2) show ?thesis by (auto simp: first_def catch_def bind_def get split: prod.splits sum.splits)
  qed
  then obtain v where v: "first s = (Inr (), v)" "run_closed i v" by (cases "first s") auto
  have inv: "repo_inv (ms_repo v)" using run_closed_keeps [OF keeps v(1) run(1)] by blast
  have eq: "converge_infra_error mg sch i s = notify_completion mg sch i v"
    using v(1) by (simp add: converge_infra_error_def first_def [symmetric] bind_def)
  have "run_closed i (snd (notify_completion mg sch i v))"
    using run_closed_keeps [OF keeps_notify [OF fair], of i v _ _ i] inv v(2) by (cases "notify_completion mg sch i v") auto
  moreover have "isl (fst (notify_completion mg sch i v)) = False"
    by (auto simp: notify_completion_def bind_def catch_def split: option.splits prod.splits sum.splits)
  ultimately show ?thesis by (simp add: eq)
qed

lemma materialized_ids:
  "validate_TaskEnvelope t = Inr u \<Longrightarrow> en_run_id u = en_run_id t \<and> en_attempt_id u = en_attempt_id t"
  by (auto simp: validate_TaskEnvelope_def Let_def dest!: deadline_follows_creation_Inr split: if_splits)

lemma execute_run_closes:
  assumes fair: "fair_env sch" "fair_manager mg" "mg_scheduler mg = None"
    and run: "repo_inv (ms_repo s)" "dget (q_runs (ms_repo s)) i = Some x" "rr_state x \<noteq> R_CREATED"
    and eff: "execute_run exn_name str_of uuid5_url so mg sch plans i j now s = (res, t)"
  shows "(run_closed i t \<or> attempt_lost_in j t) \<and> res = Inr ()"
proof -
  define body where "body = bind (lift (fst (get_run_spec i plans))) (\<lambda>spec.
        bind (lift (prepare_executor so spec)) (\<lambda>executor.
        bind (lift (fst (materialize uuid5_url i j now plans))) (\<lambda>task.
        bind (execute exn_name str_of mg sch executor task) (\<lambda>_. ret ()))))"
  have eff': "catch body (\<lambda>_. converge_infra_error mg sch i) s = (res, t)" using eff by (simp add: execute_run_def body_def)
  have keeps: "\<And>r0. keeps (descends r0) body"
    unfolding body_def by (intro descends_rules keeps_execute fair)
  show ?thesis
  proof (cases "body s")
    case (Pair r u)
    show ?thesis
    proof (cases r)
      case (Inr y)
      with Pair obtain task spec executor w where task: "fst (materialize uuid5_url i j now plans) = Inr task"
        "execute exn_name str_of mg sch executor task s = (Inr w, u)"
        by (auto simp: body_def bind_Inr_iff)
      have ids: "en_run_id task = i" "en_attempt_id task = j"
        using task(1) by (auto simp: materialize_def bind_def get_run_spec_def dest!: materialized_ids split: option.splits)
      from execute_closes [OF fair run(1) task(2)] Pair Inr eff' show ?thesis by (simp add: ids catch_def)
    next
      case (Inl e)
      with Pair eff' have c: "converge_infra_error mg sch i u = (res, t)" by (simp add: catch_def)
      have steps: "repo_steps (ms_repo s) (ms_repo u)"
        using keepsD [OF keeps descends_refl [OF run(1)]] Pair by (simp add: descends_def)
      obtain y where "dget (q_runs (ms_repo u)) i = Some y" "rr_state y \<noteq> R_CREATED"
        using not_created_again [OF steps run] by blast
      from converge_closes [OF fair(1,2) repo_steps_inv [OF steps run(1)] this] c show ?thesis by (cases res) auto
    qed
  qed
qed

section \<open>The coordinator as completion callback\<close>

text \<open>Batches list each of their runs once: what \<open>plan_inv\<close> gives for every reachable state.\<close>

definition batches_distinct :: "PlanSys \<Rightarrow> bool" where
  "batches_distinct s \<longleftrightarrow> (\<forall>b batch. dget (pr_batches s) b = Some batch \<longrightarrow> distinct (eb_run_ids batch))"

lemma plan_inv_batches_distinct: "plan_inv s \<Longrightarrow> batches_distinct s"
  by (auto simp: plan_inv_def batch_complete_def batches_distinct_def)

definition plan_descends :: "RunRepo \<Rightarrow> PlanSys \<Rightarrow> bool" where
  "plan_descends r0 s \<longleftrightarrow> batches_distinct s \<and> repo_inv (pr_runs s) \<and> repo_steps r0 (pr_runs s)"

lemma keeps_on_runs:
  assumes "repo_op m"
  shows "keeps (plan_descends r0) (on_runs m)"
proof (rule keepsI)
  fix s assume *: "plan_descends r0 s"
  with assms have "repo_steps (pr_runs s) (snd (m (pr_runs s)))" by (simp add: repo_op_def plan_descends_def)
  with * show "plan_descends r0 (snd (on_runs m s))"
    by (auto simp: plan_descends_def on_runs_def batches_distinct_def case_prod_beta intro: repo_steps_trans repo_steps_inv)
qed

lemma get_all_locked_cases:
  "(\<exists>e. get_all_locked is r = (Inl e, r)) \<or>
   (\<exists>xs. get_all_locked is r = (Inr xs, r) \<and> list_all2 (\<lambda>i x. dget (q_runs r) i = Some x) is xs)"
proof (induction "is")
  case (Cons i "is")
  then show ?case by (cases "dget (q_runs r) i") (auto simp: bind_def get_locked_def)
qed simp

lemma repo_op_claim:
  assumes "distinct ids"
  shows "repo_op (bind (get_all_locked ids) (\<lambda>records. claim_loop tick (n records) records))"
  unfolding repo_op_def
proof (intro allI impI)
  fix r assume inv: "repo_inv r"
  consider e where "get_all_locked ids r = (Inl e, r)"
    | xs where "get_all_locked ids r = (Inr xs, r)" "list_all2 (\<lambda>i x. dget (q_runs r) i = Some x) ids xs"
    using get_all_locked_cases by blast
  then show "repo_steps r (snd (bind (get_all_locked ids) (\<lambda>records. claim_loop tick (n records) records) r))"
  proof cases
    case 2
    then have "list_all2 (\<lambda>i x. i = rr_id x \<and> dget (q_runs r) (rr_id x) = Some x) ids xs"
      by (auto simp: repo_inv_runD [OF inv] elim!: list_all2_mono)
    then have "map rr_id xs = ids" "\<forall>x \<in> set xs. dget (q_runs r) (rr_id x) = Some x"
      by (induction rule: list_all2_induct) auto
    with assms claim_loop_steps [of xs r tick "n xs"] 2(1) show ?thesis by (simp add: bind_def)
  qed (simp add: bind_def)
qed

lemma keeps_claim: "keeps (plan_descends r0) (claim_available_runs tick b)"
proof (rule keepsI)
  fix s assume *: "plan_descends r0 s"
  show "plan_descends r0 (snd (claim_available_runs tick b s))"
  proof (cases "dget (pr_batches s) b")
    case (Some batch)
    with * have "distinct (eb_run_ids batch)" by (auto simp: plan_descends_def batches_distinct_def)
    from keepsD [OF keeps_on_runs [OF repo_op_claim [OF this]] *] Some show ?thesis by (simp add: claim_unfold)
  qed (use * in \<open>simp add: claim_unfold\<close>)
qed

lemma keeps_dispatch_claimed:
  assumes "\<And>i. repo_op (dispatch i)"
  shows "keeps (plan_descends r0) (dispatch_claimed dispatch now ids)"
proof (induction ids)
  case (Cons i ids)
  then show ?case
    unfolding dispatch_claimed.simps by (intro keeps_rules keeps_on_runs assms repo_op_intros)
qed (simp add: keeps_def)

lemma keeps_dispatch_loop:
  assumes "\<And>i. repo_op (dispatch i)"
  shows "keeps (plan_descends r0) (dispatch_loop dispatch tick b n)"
proof (induction n)
  case (Suc n)
  then show ?case
    unfolding dispatch_loop.simps by (intro keeps_rules keeps_claim keeps_dispatch_claimed [OF assms])
qed (simp add: keeps_def)

lemma keeps_on_run_finished:
  assumes "\<And>i. repo_op (dispatch i)"
  shows "keeps (plan_descends r0) (on_run_finished dispatch tick i)"
proof -
  have "keeps (plan_descends r0) (dispatch_available dispatch tick b)" for b
    unfolding keeps_def dispatch_available_def
    by (intro allI impI, rule keepsD [OF keeps_dispatch_loop [where dispatch = dispatch, OF assms]])
  moreover have "keeps (plan_descends r0) (get_run_spec i)"
    by (auto simp: keeps_def get_run_spec_def split: option.splits)
  ultimately show ?thesis unfolding on_run_finished_def by (intro keeps_rules)
qed

lemma repo_op_coordinator:
  assumes "\<And>i. repo_op (dispatch i)" "batches_distinct plans"
  shows "repo_op (coordinator_callback dispatch tick plans i)"
  unfolding repo_op_def
proof (intro allI impI)
  fix r assume "repo_inv r"
  with assms(2) have "plan_descends r (plans\<lparr>pr_runs := r\<rparr>)" by (simp add: plan_descends_def batches_distinct_def)
  from keepsD [OF keeps_on_run_finished [OF assms(1)] this]
  have "repo_steps r (pr_runs (snd (on_run_finished dispatch tick i (plans\<lparr>pr_runs := r\<rparr>))))" by (simp add: plan_descends_def)
  then show "repo_steps r (snd (coordinator_callback dispatch tick plans i r))"
    by (cases "on_run_finished dispatch tick i (plans\<lparr>pr_runs := r\<rparr>)") (auto simp: coordinator_callback_def split: sum.split)
qed

lemma local_manager_fair:
  assumes "\<And>i. repo_op (dispatch i)" "batches_distinct plans" "\<And>task ev. repo_op (collect task ev)"
  shows "fair_manager (local_manager collect (coordinator_callback dispatch tick plans))"
  using assms(3) repo_op_coordinator [OF assms(1,2)] by (auto simp: fair_manager_def local_manager_def)

text \<open>The database dispatcher, whatever other threads do in between, is such a \<open>dispatch\<close>.\<close>

lemma repo_op_db_dispatch:
  assumes "\<And>r. repo_inv r \<Longrightarrow> repo_steps r (race r)"
  shows "repo_op (db_dispatch race now i)"
proof -
  let ?P = "\<lambda>r0 r. repo_inv r \<and> repo_steps r0 r"
  have get: "keeps (?P r0) (get i)" and race: "keeps (?P r0) (interfere race)"
    and move: "keeps (?P r0) (transition i R_DISPATCHING now)" for r0
    using repo_steps_inv [OF assms] repo_steps_trans [OF _ assms] repo_step_inv [OF step_transition] steps_step [OF _ step_transition]
    by (auto simp: keeps_def interfere_def)
  have "keeps (?P r0) (db_dispatch race now i)" for r0
    unfolding db_dispatch_def by (intro keeps_rules get race move)
  then show ?thesis unfolding repo_op_def by (blast dest: keepsD)
qed

section \<open>Polling\<close>

text \<open>
  The state of the service: whether there is a pool, \<open>_submitted\<close>, and of each accepted \<open>submit\<close> where its future
  stands: queued or running in the pool, or finished with its done callback still to come.
\<close>

record LocalRunner =
  lr_pool :: bool
  lr_submitted :: "uuid list"
  lr_executing :: "uuid list"
  lr_finished :: "uuid list"

definition make_local_runner :: "int \<Rightarrow> rat \<Rightarrow> LocalRunner res" where
  "make_local_runner max_workers poll_interval_seconds =
     (if \<not> (1 \<le> max_workers \<and> max_workers \<le> 16) then Inl ValueError
      else if poll_interval_seconds \<le> 0 then Inl ValueError
      else Inr \<lparr>lr_pool = False, lr_submitted = [], lr_executing = [], lr_finished = []\<rparr>)"

definition start_runner :: "LocalRunner \<Rightarrow> LocalRunner" where
  "start_runner lr = (if lr_pool lr then lr else lr\<lparr>lr_pool := True\<rparr>)"

text \<open>\<open>stop\<close> has joined the poller and the pool: no future is left without its callback.\<close>

definition stop_runner :: "LocalRunner \<Rightarrow> LocalRunner" where
  "stop_runner lr = lr\<lparr>lr_pool := False, lr_submitted := []\<rparr>"

text \<open>One round of the loop of \<open>poll_once\<close>; \<open>refuses\<close> says whether \<open>pool.submit\<close> raises.\<close>

definition poll_run ::
  "Manager \<Rightarrow> Sched \<Rightarrow> (uuid \<Rightarrow> bool) \<Rightarrow> uuid \<Rightarrow> nat \<times> LocalRunner \<times> MState \<Rightarrow> nat \<times> LocalRunner \<times> MState" where
  "poll_run mg sch refuses run_id = (\<lambda>(submitted, lr, s).
     if \<not> lr_pool lr \<or> run_id \<in> set (lr_submitted lr) then (submitted, lr, s)
     else if refuses run_id then (submitted, lr, snd (converge_infra_error mg sch run_id s))
     else (submitted + 1,
           lr\<lparr>lr_submitted := run_id # lr_submitted lr, lr_executing := run_id # lr_executing lr\<rparr>, s))"

definition poll_once ::
  "Manager \<Rightarrow> Sched \<Rightarrow> (uuid \<Rightarrow> bool) \<Rightarrow> LocalRunner \<times> MState \<Rightarrow> nat \<times> LocalRunner \<times> MState" where
  "poll_once mg sch refuses = (\<lambda>(lr, s).
     case call sch (\<lambda>_. list_runs) s of
       (Inl _, s) \<Rightarrow> (0, lr, s)
     | (Inr runs, s) \<Rightarrow>
         fold (poll_run mg sch refuses) (map rr_id (filter (\<lambda>run. rr_state run = R_DISPATCHING) runs)) (0, lr, s))"

definition execution_ends :: "uuid \<Rightarrow> LocalRunner \<Rightarrow> LocalRunner" where
  "execution_ends run_id lr = lr\<lparr>lr_executing := remove1 run_id (lr_executing lr), lr_finished := run_id # lr_finished lr\<rparr>"

definition run_completed :: "uuid \<Rightarrow> LocalRunner \<Rightarrow> LocalRunner" where
  "run_completed run_id lr =
     lr\<lparr>lr_finished := remove1 run_id (lr_finished lr), lr_submitted := removeAll run_id (lr_submitted lr)\<rparr>"

text \<open>What the threads of the service do, in any order; \<open>poll_once\<close> is a sequence of \<open>l_poll\<close> steps.\<close>

inductive local_step :: "LocalRunner \<Rightarrow> LocalRunner \<Rightarrow> bool" where
  l_start: "local_step lr (start_runner lr)"
| l_poll: "poll_run mg sch refuses i (n, lr, s) = (m, lr', s') \<Longrightarrow> local_step lr lr'"
| l_end: "i \<in> set (lr_executing lr) \<Longrightarrow> local_step lr (execution_ends i lr)"
| l_completed: "i \<in> set (lr_finished lr) \<Longrightarrow> local_step lr (run_completed i lr)"
| l_stop: "lr_executing lr = [] \<Longrightarrow> lr_finished lr = [] \<Longrightarrow> local_step lr (stop_runner lr)"

definition local_inv :: "LocalRunner \<Rightarrow> bool" where
  "local_inv lr \<longleftrightarrow> distinct (lr_executing lr @ lr_finished lr) \<and>
     set (lr_submitted lr) = set (lr_executing lr) \<union> set (lr_finished lr)"

lemma local_step_inv: "local_step lr lr' \<Longrightarrow> local_inv lr \<Longrightarrow> local_inv lr'"
proof (induction rule: local_step.induct)
  case (l_poll mg sch refuses i n lr s m lr' s')
  then show ?case by (auto simp: poll_run_def local_inv_def split: if_splits)
next
  case (l_end i lr)
  then show ?case by (auto simp: execution_ends_def local_inv_def)
next
  case (l_completed i lr)
  then show ?case by (auto simp: run_completed_def local_inv_def)
qed (auto simp: start_runner_def stop_runner_def local_inv_def)

lemma local_steps_inv: "local_step\<^sup>*\<^sup>* lr lr' \<Longrightarrow> local_inv lr \<Longrightarrow> local_inv lr'"
  by (induction rule: rtranclp_induct) (auto dest: local_step_inv)

lemma poll_once_steps:
  assumes "poll_once mg sch refuses (lr, s) = (n, lr', s')"
  shows "local_step\<^sup>*\<^sup>* lr lr'"
proof -
  have "local_step\<^sup>*\<^sup>* lr (fst (snd (fold (poll_run mg sch refuses) ids (k, lr, t))))" for ids k t
  proof (induction ids arbitrary: k lr t)
    case (Cons i ids)
    obtain m lr1 t1 where p: "poll_run mg sch refuses i (k, lr, t) = (m, lr1, t1)" by (cases "poll_run mg sch refuses i (k, lr, t)")
    from converse_rtranclp_into_rtranclp [where r = local_step, OF l_poll [OF p] Cons.IH] show ?case by (simp add: p)
  qed simp
  with assms show ?thesis by (auto simp: poll_once_def split: prod.splits sum.splits) (metis fst_conv snd_conv rtranclp.rtrancl_refl)+
qed

lemma poll_once_new:
  assumes "poll_once mg sch refuses (lr, s) = (n, lr', s')"
  shows "\<exists>new. length new = n \<and> lr_executing lr' = new @ lr_executing lr"
proof -
  have "fold (poll_run mg sch refuses) ids (k, lr, t) = (n, lr', s') \<Longrightarrow>
      \<exists>new. k + length new = n \<and> lr_executing lr' = new @ lr_executing lr" for ids k t
  proof (induction ids arbitrary: k lr t)
    case (Cons i ids)
    obtain m lr1 t1 where p: "poll_run mg sch refuses i (k, lr, t) = (m, lr1, t1)" by (cases "poll_run mg sch refuses i (k, lr, t)")
    then consider "m = k" "lr1 = lr" | "m = Suc k" "lr_executing lr1 = i # lr_executing lr"
      by (auto simp: poll_run_def split: if_splits)
    then show ?case
    proof cases
      case 2
      from Cons.IH [of m lr1 t1] Cons.prems p obtain new where "m + length new = n" "lr_executing lr' = new @ lr_executing lr1" by auto
      with 2 show ?thesis by (intro exI [of _ "new @ [i]"]) simp
    qed (use Cons p in simp)
  qed auto
  from this [of _ 0] assms show ?thesis by (auto simp: poll_once_def split: prod.splits sum.splits)
qed

section \<open>Demonstration\<close>

text \<open>The first run of the demonstration batch, claimed and dispatched, and sources that always provide an executor.\<close>

definition local_sources :: LocalSources where
  "local_sources = \<lparr>so_host = (\<lambda>_. Inl ValueError), so_container = (\<lambda>_. Inr slow_executor)\<rparr>"

definition local_repo :: RunRepo where
  "local_repo = snd (transition 20 R_DISPATCHING 8 (snd (transition 20 R_QUEUED 7 (pr_runs plan_demo_executed))))"

definition local_start :: MState where
  "local_start = \<lparr>ms_repo = local_repo, ms_calls = 0, ms_scheduled = [], ms_notified = []\<rparr>"

lemma local_plans_reachable: "plan_step\<^sup>*\<^sup>* empty_plans plan_demo_executed"
  using plan_demo_reach execute_plan_step [OF plan_demo_fresh plan_demo_executes] by (rule rtranclp.rtrancl_into_rtrancl)

lemma local_demo_created: "run_state (pr_runs plan_demo_executed) 20 = Some R_CREATED"
  using plan_demo_script
  by (auto simp: plan_demo_executed_def execute_plan_unfold plan_demo_strip plan_demo_active_def empty_plans_def plan_demo_plan_def
      expand_def plan_demo_item_def plan_demo_env_def item_configuration_def json_object_def Let_def MAX_JSON_MAP_BYTES_def
      row_parameters_def batch_of_def plan_demo_batch_def new_run_def run_state_def record_batch_def set_run_def dget_dset)

lemma local_demo_steps: "repo_steps empty_repo local_repo"
  unfolding local_repo_def using local_plans_reachable
  by (intro steps_step [OF steps_step [OF _ step_transition] step_transition])
     (auto dest: plan_inv_reachable simp: plan_inv_def)

lemma transition_moves:
  "run_state r i = Some st \<Longrightarrow> transition_run st st' = Inr st' \<Longrightarrow> run_state (snd (transition i st' now r)) i = Some st'"
  by (auto simp: run_state_def transition_unfold run_with_state_def set_run_def dget_dset)

lemma local_demo_dispatching: "run_state local_repo 20 = Some R_DISPATCHING"
  unfolding local_repo_def
  by (rule transition_moves [OF transition_moves [OF local_demo_created]]) (simp_all add: transition_run_def table_simps)

lemma demo_sched_fair: "fair_env demo_sched"
  by (simp add: fair_env_def demo_sched_def)

section \<open>Properties\<close>

text \<open>C16. The local runner never leaves a run behind. Whatever the source store, the executors, the artifact collector
  and other threads do, \<open>_execute_run\<close> of a run that has left \<open>CREATED\<close> returns without raising, and then
  the run is in a terminal state, or its attempt was declared \<open>LOST\<close> by the lease recovery,
  which takes over the run.\<close>

theorem local_run_always_closes:
  assumes "fair_env sch" "\<And>task ev. repo_op (collect task ev)" "\<And>r. repo_inv r \<Longrightarrow> repo_steps r (race r)"
    and "plan_step\<^sup>*\<^sup>* empty_plans plans" "repo_steps empty_repo (ms_repo s)"
    and "run_state (ms_repo s) run_id = Some st" "st \<noteq> R_CREATED"
    and "execute_run exn_name str_of uuid5_url so
           (local_manager collect (coordinator_callback (db_dispatch race now) tick plans)) sch plans run_id attempt_id created s = (res, t)"
  shows "res = Inr () \<and>
     ((\<exists>st. run_state (ms_repo t) run_id = Some st \<and> st \<in> set RUN_TERMINAL) \<or>
      (\<exists>a. dget (q_attempts (ms_repo t)) attempt_id = Some a \<and> at_state a = A_LOST))"
proof -
  obtain x where x: "dget (q_runs (ms_repo s)) run_id = Some x" "rr_state x \<noteq> R_CREATED"
    using assms(6,7) by (auto simp: run_state_def)
  have fair: "fair_manager (local_manager collect (coordinator_callback (db_dispatch race now) tick plans))"
    by (rule local_manager_fair [OF repo_op_db_dispatch [OF assms(3)] plan_inv_batches_distinct [OF plan_inv_reachable [OF assms(4)]] assms(2)])
  have none: "mg_scheduler (local_manager collect (coordinator_callback (db_dispatch race now) tick plans)) = None"
    by (simp add: local_manager_def)
  from execute_run_closes [OF assms(1) fair none reachable_inv [OF assms(5)] x assms(8)]
  show ?thesis by (auto simp: run_closed_def attempt_lost_in_def run_state_def)
qed

theorem local_run_always_closes_witness:
  "fst (execute_run (\<lambda>_. []) (\<lambda>_. []) (\<lambda>_. 5) local_sources
     (local_manager (\<lambda>_. ret) (coordinator_callback (db_dispatch (\<lambda>r. r) 9) int plan_demo_executed))
     demo_sched plan_demo_executed 20 30 9 local_start) = Inr ()"
proof -
  have "repo_op (ret ev)" for ev :: EventEnvelope by (simp add: repo_op_def)
  from local_run_always_closes [OF demo_sched_fair this _ local_plans_reachable _ _ _ prod.collapse [symmetric],
      where s = local_start and race = "\<lambda>r. r" and run_id = 20 and st = R_DISPATCHING]
  show ?thesis using local_demo_steps local_demo_dispatching by (simp add: local_start_def)
qed



end
