(* ===== verification/Json_Schema.thy ===== *)
theory Json_Schema
  imports Catalog Workflow_Executor
begin

text \<open>
  Bounded JSON values: \<open>_validate_json\<close> and \<open>_bounded_json\<close> of \<open>services/api/data_factory_schemas.py\<close>.
\<close>

section \<open>Bounded JSON\<close>

definition MAX_JSON_BYTES :: int where "MAX_JSON_BYTES = 1024 * 1024"

definition MAX_JSON_DEPTH :: nat where "MAX_JSON_DEPTH = 32"

definition MAX_OBJECT_ITEMS :: nat where "MAX_OBJECT_ITEMS = 1000"

fun validate_json :: "nat \<Rightarrow> pyval \<Rightarrow> pyval res"
  and validate_json_items :: "nat \<Rightarrow> pyval list \<Rightarrow> pyval list res"
  and validate_json_entries :: "nat \<Rightarrow> (pyval \<times> pyval) list \<Rightarrow> (pyval \<times> pyval) list res" where
  "validate_json depth v =
     (if depth > MAX_JSON_DEPTH then Inl ValueError
      else (case v of
         PNone \<Rightarrow> Inr v
       | PStr _ \<Rightarrow> Inr v
       | PBool _ \<Rightarrow> Inr v
       | PInt _ \<Rightarrow> Inr v
       | PFloat f \<Rightarrow> (case f of Finite _ \<Rightarrow> Inr v | _ \<Rightarrow> Inl ValueError)
       | PList xs \<Rightarrow>
           if length xs > MAX_OBJECT_ITEMS then Inl ValueError
           else rbind (validate_json_items (depth + 1) xs) (\<lambda>ys. Inr (PList ys))
       | PDict d \<Rightarrow>
           if length d > MAX_OBJECT_ITEMS \<or> \<not> list_all (\<lambda>(k, _). is_text k) d then Inl ValueError
           else rbind (validate_json_entries (depth + 1) d) (\<lambda>e. Inr (PDict e))
       | _ \<Rightarrow> Inl ValueError))"
| "validate_json_items depth [] = Inr []"
| "validate_json_items depth (x # xs) =
     rbind (validate_json depth x) (\<lambda>y. rbind (validate_json_items depth xs) (\<lambda>ys. Inr (y # ys)))"
| "validate_json_entries depth [] = Inr []"
| "validate_json_entries depth ((k, x) # d) =
     rbind (validate_json depth x) (\<lambda>y. rbind (validate_json_entries depth d) (\<lambda>e. Inr ((k, y) # e)))"

declare validate_json.simps [simp del]

text \<open>\<open>len(json.dumps(value, ensure_ascii=False, separators=(",", ":")).encode())\<close> is the argument \<open>json_bytes\<close>.\<close>

definition bounded_json :: "(pyval \<Rightarrow> int) \<Rightarrow> pyval \<Rightarrow> pyval res" where
  "bounded_json json_bytes v =
     rbind (validate_json 0 v) (\<lambda>validated.
     rbind (guard (json_bytes validated > MAX_JSON_BYTES) ValueError) (\<lambda>_. Inr validated))"

text \<open>The nesting of a value, and the values the validator lets through.\<close>

fun json_depth :: "pyval \<Rightarrow> nat" where
  "json_depth (PList xs) = foldr max (map (\<lambda>v. json_depth v + 1) xs) 0"
| "json_depth (PDict d) = foldr max (map (\<lambda>(_, v). json_depth v + 1) d) 0"
| "json_depth _ = 0"

lemma foldr_max_le: "n + foldr max (map f xs) 0 \<le> b \<longleftrightarrow> n \<le> b \<and> (\<forall>x \<in> set xs. n + f x \<le> (b::nat))"
  by (induction xs) auto

fun json_narrow :: "pyval \<Rightarrow> bool" where
  "json_narrow (PList xs) = (length xs \<le> MAX_OBJECT_ITEMS \<and> list_all json_narrow xs)"
| "json_narrow (PDict d) = (length d \<le> MAX_OBJECT_ITEMS \<and> list_all (\<lambda>(_, v). json_narrow v) d)"
| "json_narrow _ = True"

lemma validate_json_exact:
  "validate_json depth v = (if json_value v \<and> json_narrow v \<and> depth + json_depth v \<le> MAX_JSON_DEPTH then Inr v else Inl ValueError)"
  "validate_json_items depth xs =
     (if list_all (\<lambda>v. json_value v \<and> json_narrow v \<and> depth + json_depth v \<le> MAX_JSON_DEPTH) xs then Inr xs else Inl ValueError)"
  "validate_json_entries depth d =
     (if list_all (\<lambda>(_, v). json_value v \<and> json_narrow v \<and> depth + json_depth v \<le> MAX_JSON_DEPTH) d then Inr d else Inl ValueError)"
proof (induction depth v and depth xs and depth d rule: validate_json_validate_json_items_validate_json_entries.induct)
  case (1 depth v)
  show ?case
  proof (cases v)
    case (PList xs)
    with 1 foldr_max_le [of depth "\<lambda>v. json_depth v + 1" xs MAX_JSON_DEPTH] show ?thesis
      by (simp add: validate_json.simps(1)) (auto simp: list_all_iff)
  next
    case (PDict d)
    with 1 foldr_max_le [of depth "\<lambda>(_, v). json_depth v + 1" d MAX_JSON_DEPTH] show ?thesis
      by (simp add: validate_json.simps(1) case_prod_beta) (auto simp: list_all_iff)
  qed (auto simp: validate_json.simps(1) split: pyfloat.splits)
qed auto

end
