(* ===== verification/Load_Tests.thy ===== *)
theory Load_Tests
  imports Json_Schema
begin

text \<open>
  Load tests: \<open>services/api/load_test_domain.py\<close>, the target schema of \<open>services/api/load_test_schemas.py\<close> and
  \<open>services/api/load_test_repository.py\<close>.
\<close>

section \<open>Domain\<close>

datatype LoadTestMode = LM_COUNT | LM_DURATION

datatype LoadTestTrafficMode = TM_REQUESTS | TM_SCENARIO

datatype LoadTestRunStatus = LR_RUNNING | LR_SUCCEEDED | LR_FAILED

abbreviation text_entries :: "params \<Rightarrow> pyval" where
  "text_entries d \<equiv> PDict (map (\<lambda>(k, v). (PStr k, v)) d)"

definition empty_summary :: params where
  "empty_summary =
     [(''total_requests'', PInt 0), (''successful_requests'', PInt 0), (''failed_requests'', PInt 0),
      (''requests_per_second'', PFloat (Finite 0)), (''average_ms'', PFloat (Finite 0)), (''min_ms'', PFloat (Finite 0)),
      (''max_ms'', PFloat (Finite 0)), (''p50_ms'', PFloat (Finite 0)), (''p95_ms'', PFloat (Finite 0)),
      (''p99_ms'', PFloat (Finite 0)), (''status_counts'', PDict []), (''error_counts'', PDict [])]"

definition empty_metrics :: "string list \<Rightarrow> params" where
  "empty_metrics target_names =
     empty_summary @
     [(''target_metrics'', text_entries (map (\<lambda>name. (name, text_entries (empty_summary @ [(''target_metrics'', PDict [])])))
        target_names)),
      (''scenario_metrics'', text_entries
        [(''total_scenarios'', PInt 0), (''successful_scenarios'', PInt 0), (''failed_scenarios'', PInt 0),
         (''scenarios_per_second'', PFloat (Finite 0)), (''average_ms'', PFloat (Finite 0)), (''p50_ms'', PFloat (Finite 0)),
         (''p95_ms'', PFloat (Finite 0)), (''p99_ms'', PFloat (Finite 0)), (''min_ms'', PFloat (Finite 0)),
         (''max_ms'', PFloat (Finite 0))]),
      (''response_samples'', text_entries [(''successful'', PList []), (''failed'', PList [])])]"

text \<open>
  \<open>LoadTestTarget\<close>, a field per attribute in the type of its annotation (reading the fields out of a request is the
  schema library's work); a target of a record is the dump of a validated one, the same fields.
\<close>

record LoadTestTarget =
  tg_name :: string
  tg_method :: string
  tg_url :: string
  tg_headers :: params
  tg_query :: params
  tg_body :: pyval
  tg_expected_statuses :: "int list"
  tg_extractors :: "(string, string) dict"
  tg_think_time_ms :: int

record LoadTestRecord =
  lt_id :: uuid
  lt_project_id :: uuid
  lt_name :: string
  lt_description :: string
  lt_targets :: "LoadTestTarget list"
  lt_mode :: LoadTestMode
  lt_request_count :: int
  lt_duration_seconds :: int
  lt_concurrency :: int
  lt_interval_ms :: int
  lt_timeout_seconds :: rat
  lt_state_version :: int
  lt_created_at :: time
  lt_updated_at :: time
  lt_environment_id :: "uuid option"
  lt_traffic_mode :: LoadTestTrafficMode
  lt_initial_variables :: params
  lt_stop_on_failure :: bool
  lt_category :: string

text \<open>\<open>updated\<close>, the changes already applied.\<close>

definition load_test_updated :: "LoadTestRecord \<Rightarrow> time \<Rightarrow> LoadTestRecord" where
  "load_test_updated changed now =
     changed\<lparr>lt_state_version := lt_state_version changed + 1, lt_updated_at := now\<rparr>"

record LoadTestRunRecord =
  lr_id :: uuid
  lr_load_test_id :: uuid
  lr_status :: LoadTestRunStatus
  lr_mode :: LoadTestMode
  lr_started_at :: time
  lr_finished_at :: "time option"
  lr_metrics :: params
  lr_error_message :: "string option"

text \<open>What the executor reports of a request; the stored record adds an identifier, the run and the time.\<close>

record ResponseItem =
  ri_sequence :: int
  ri_target :: string
  ri_successful :: bool
  ri_status :: "int option"
  ri_latency_ms :: pyfloat
  ri_error :: "string option"
  ri_body :: "string option"
  ri_body_kind :: string
  ri_truncated :: bool
  ri_body_bytes :: int

record LoadTestResponseRecord =
  rr_id :: uuid
  rr_run_id :: uuid
  rr_item :: ResponseItem
  rr_created_at :: time

section \<open>Validation of targets\<close>

definition HTTP_METHODS :: "string list" where
  "HTTP_METHODS = [''GET'', ''POST'', ''PUT'', ''PATCH'', ''DELETE'', ''HEAD'', ''OPTIONS'']"

definition VARIABLE_PATTERN :: "string \<Rightarrow> bool" where
  "VARIABLE_PATTERN s = (case s of
     [] \<Rightarrow> False
   | c # cs \<Rightarrow> (ascii_letter c \<or> c = CHR ''_'') \<and> length cs \<le> 127 \<and>
       list_all (\<lambda>c. ascii_letter c \<or> ascii_digit c \<or> c = CHR ''_'') cs)"

definition target_name :: "string \<Rightarrow> string res" where
  "target_name value =
     rbind (guard (\<not> (1 \<le> length value \<and> length value \<le> 255)) ValueError) (\<lambda>_.
     let value = strip value in rbind (guard (value = []) ValueError) (\<lambda>_. Inr value))"

definition validate_method :: "string \<Rightarrow> string res" where
  "validate_method value =
     (let value = upper value in rbind (guard (value \<notin> set HTTP_METHODS) ValueError) (\<lambda>_. Inr value))"

definition validate_statuses :: "int list \<Rightarrow> int list res" where
  "validate_statuses value =
     rbind (guard (\<not> (1 \<le> length value \<and> length value \<le> 500)) ValueError) (\<lambda>_.
     rbind (guard (list_ex (\<lambda>code. code < 100 \<or> code > 599) value \<or> \<not> distinct value) ValueError) (\<lambda>_. Inr value))"

definition validate_extractors :: "(string, string) dict \<Rightarrow> (string, string) dict res" where
  "validate_extractors value =
     rbind (guard (length value > 100) ValueError) (\<lambda>_.
     rbind (guard (list_ex (\<lambda>(name, path). \<not> VARIABLE_PATTERN name \<or> length path > 1024 \<or> path = [] \<or>
       list_ex (\<lambda>part. part = []) (split_on (CHR ''.'') path)) value) ValueError) (\<lambda>_. Inr value))"

definition validate_fields :: "(pyval \<Rightarrow> int) \<Rightarrow> params \<Rightarrow> params res" where
  "validate_fields json_bytes value =
     rbind (guard (length value > 100) ValueError) (\<lambda>_. rbind (bounded_json json_bytes (text_entries value)) (\<lambda>_. Inr value))"

definition validate_target :: "(pyval \<Rightarrow> int) \<Rightarrow> LoadTestTarget \<Rightarrow> LoadTestTarget res" where
  "validate_target json_bytes tg =
     rbind (target_name (tg_name tg)) (\<lambda>name.
     rbind (validate_method (tg_method tg)) (\<lambda>method.
     rbind (guard (\<not> (1 \<le> length (tg_url tg) \<and> length (tg_url tg) \<le> 8192)) ValueError) (\<lambda>_.
     rbind (validate_fields json_bytes (tg_headers tg)) (\<lambda>headers.
     rbind (validate_fields json_bytes (tg_query tg)) (\<lambda>query.
     rbind (bounded_json json_bytes (tg_body tg)) (\<lambda>body.
     rbind (validate_statuses (tg_expected_statuses tg)) (\<lambda>statuses.
     rbind (validate_extractors (tg_extractors tg)) (\<lambda>extractors.
     rbind (guard (\<not> (0 \<le> tg_think_time_ms tg \<and> tg_think_time_ms tg \<le> 60000)) ValueError) (\<lambda>_.
     Inr \<lparr>tg_name = name, tg_method = method, tg_url = tg_url tg, tg_headers = headers, tg_query = query, tg_body = body,
          tg_expected_statuses = statuses, tg_extractors = extractors, tg_think_time_ms = tg_think_time_ms tg\<rparr>)))))))))"

text \<open>\<open>model_dump(mode="json")\<close>.\<close>

definition target_value :: "LoadTestTarget \<Rightarrow> pyval" where
  "target_value tg = text_entries
     [(''name'', PStr (tg_name tg)), (''method'', PStr (tg_method tg)), (''url'', PStr (tg_url tg)),
      (''headers'', text_entries (tg_headers tg)), (''query'', text_entries (tg_query tg)), (''body'', tg_body tg),
      (''expected_statuses'', PList (map PInt (tg_expected_statuses tg))),
      (''extractors'', text_entries (map (\<lambda>(k, v). (k, PStr v)) (tg_extractors tg))),
      (''think_time_ms'', PInt (tg_think_time_ms tg))]"

fun validate_targets :: "(pyval \<Rightarrow> int) \<Rightarrow> LoadTestTarget list \<Rightarrow> LoadTestTarget list res" where
  "validate_targets json_bytes [] = Inr []"
| "validate_targets json_bytes (tg # tgs) =
     rbind (validate_target json_bytes tg) (\<lambda>t. rbind (validate_targets json_bytes tgs) (\<lambda>ts. Inr (t # ts)))"

section \<open>Validation of the settings\<close>

definition normalize_name :: "string \<Rightarrow> string res" where
  "normalize_name name =
     (let normalized = strip name in
      rbind (guard (normalized = [] \<or> length normalized > 255) ValueError) (\<lambda>_. Inr normalized))"

definition normalize_category :: "string \<Rightarrow> string res" where
  "normalize_category category =
     (let normalized = strip category in rbind (guard (length normalized > 100) ValueError) (\<lambda>_. Inr normalized))"

definition normalize_targets ::
  "(pyval \<Rightarrow> int) \<Rightarrow> LoadTestTarget list \<Rightarrow> LoadTestTrafficMode \<Rightarrow> LoadTestTarget list res" where
  "normalize_targets json_bytes targets traffic_mode =
     rbind (guard (\<not> (1 \<le> length targets \<and> length targets \<le> 20)) ValueError) (\<lambda>_.
     rbind (validate_targets json_bytes targets) (\<lambda>normalized.
     rbind (guard (\<not> distinct (map tg_name normalized)) ValueError) (\<lambda>_.
     rbind (guard (traffic_mode \<noteq> TM_SCENARIO \<and> list_ex (\<lambda>tg. tg_extractors tg \<noteq> []) normalized) ValueError) (\<lambda>_.
     rbind (bounded_json json_bytes (PList (map target_value normalized))) (\<lambda>_.
     Inr normalized)))))"

definition normalize_scenario_settings ::
  "(pyval \<Rightarrow> int) \<Rightarrow> LoadTestTrafficMode \<Rightarrow> params option \<Rightarrow> bool \<Rightarrow> (LoadTestTrafficMode \<times> params \<times> bool) res" where
  "normalize_scenario_settings json_bytes traffic_mode initial_variables stop_on_failure =
     (let variables = (case initial_variables of None \<Rightarrow> [] | Some vs \<Rightarrow> vs) in
      rbind (bounded_json json_bytes (text_entries variables)) (\<lambda>_.
      Inr (traffic_mode, variables, stop_on_failure)))"

text \<open>
  The numbers of a definition arrive as Python values; a valid combination is returned as the numbers it denotes.
\<close>

record LoadSettings =
  st_mode :: LoadTestMode
  st_request_count :: pyval
  st_duration_seconds :: pyval
  st_concurrency :: pyval
  st_interval_ms :: pyval
  st_timeout_seconds :: pyval

record ValidSettings =
  vs_mode :: LoadTestMode
  vs_request_count :: int
  vs_duration_seconds :: int
  vs_concurrency :: int
  vs_interval_ms :: int
  vs_timeout_seconds :: rat

fun int_setting :: "pyval \<Rightarrow> int res" where
  "int_setting (PInt n) = Inr n"
| "int_setting _ = Inl ValueError"

fun timeout_setting :: "pyval \<Rightarrow> rat res" where
  "timeout_setting (PInt n) = (if 0 < n \<and> n \<le> 120 then Inr (of_int n) else Inl ValueError)"
| "timeout_setting (PFloat (Finite q)) = (if 0 < q \<and> q \<le> 120 then Inr q else Inl ValueError)"
| "timeout_setting _ = Inl ValueError"

definition validate_settings :: "LoadSettings \<Rightarrow> ValidSettings res" where
  "validate_settings st =
     rbind (int_setting (st_request_count st)) (\<lambda>request_count.
     rbind (int_setting (st_duration_seconds st)) (\<lambda>duration_seconds.
     rbind (int_setting (st_concurrency st)) (\<lambda>concurrency.
     rbind (int_setting (st_interval_ms st)) (\<lambda>interval_ms.
     rbind (guard (\<not> (1 \<le> request_count \<and> request_count \<le> 10000)) ValueError) (\<lambda>_.
     rbind (guard (\<not> (1 \<le> duration_seconds \<and> duration_seconds \<le> 1800)) ValueError) (\<lambda>_.
     rbind (guard (\<not> (1 \<le> concurrency \<and> concurrency \<le> 100)) ValueError) (\<lambda>_.
     rbind (guard (\<not> (0 \<le> interval_ms \<and> interval_ms \<le> 60000)) ValueError) (\<lambda>_.
     rbind (timeout_setting (st_timeout_seconds st)) (\<lambda>timeout_seconds.
     Inr \<lparr>vs_mode = st_mode st, vs_request_count = request_count, vs_duration_seconds = duration_seconds,
          vs_concurrency = concurrency, vs_interval_ms = interval_ms, vs_timeout_seconds = timeout_seconds\<rparr>)))))))))"

section \<open>Repository\<close>

record LoadTestRepo =
  lo_definitions :: "(uuid, LoadTestRecord) dict"
  lo_names :: "(uuid \<times> string, uuid) dict"
  lo_runs :: "(uuid, LoadTestRunRecord) dict"
  lo_responses :: "(uuid, LoadTestResponseRecord list) dict"

definition empty_load_tests :: LoadTestRepo where
  "empty_load_tests = \<lparr>lo_definitions = [], lo_names = [], lo_runs = [], lo_responses = []\<rparr>"

record LoadTestInput =
  li_name :: string
  li_description :: string
  li_targets :: "LoadTestTarget list"
  li_settings :: LoadSettings
  li_environment_id :: "uuid option"
  li_traffic_mode :: LoadTestTrafficMode
  li_initial_variables :: "params option"
  li_stop_on_failure :: bool
  li_category :: string

text \<open>The checks at the head of \<open>create_load_test\<close> and \<open>update_load_test\<close>, in their order.\<close>

definition normalize_input ::
  "(pyval \<Rightarrow> int) \<Rightarrow> LoadTestInput \<Rightarrow> (params \<times> string \<times> string \<times> LoadTestTarget list \<times> ValidSettings) res" where
  "normalize_input json_bytes inp =
     rbind (normalize_scenario_settings json_bytes (li_traffic_mode inp) (li_initial_variables inp) (li_stop_on_failure inp))
       (\<lambda>(_, variables, _).
     rbind (normalize_name (li_name inp)) (\<lambda>name.
     rbind (normalize_category (li_category inp)) (\<lambda>category.
     rbind (normalize_targets json_bytes (li_targets inp) (li_traffic_mode inp)) (\<lambda>targets.
     rbind (validate_settings (li_settings inp)) (\<lambda>settings.
     Inr (variables, name, category, targets, settings))))))"

definition create_load_test ::
  "(pyval \<Rightarrow> int) \<Rightarrow> uuid \<Rightarrow> LoadTestInput \<Rightarrow> uuid \<Rightarrow> time \<Rightarrow> (LoadTestRepo, LoadTestRecord) pyop" where
  "create_load_test json_bytes project_id inp fresh now =
     bind (lift (normalize_input json_bytes inp)) (\<lambda>(variables, name, category, targets, settings).
     bind (reads (\<lambda>s. dget (lo_names s) (project_id, name))) (\<lambda>owner.
     if owner \<noteq> None then raise LoadTestNameConflict
     else
       (let rec = \<lparr>lt_id = fresh, lt_project_id = project_id, lt_name = name, lt_description = li_description inp,
                   lt_targets = targets, lt_mode = vs_mode settings, lt_request_count = vs_request_count settings,
                   lt_duration_seconds = vs_duration_seconds settings, lt_concurrency = vs_concurrency settings,
                   lt_interval_ms = vs_interval_ms settings, lt_timeout_seconds = vs_timeout_seconds settings,
                   lt_state_version = 0, lt_created_at = now, lt_updated_at = now,
                   lt_environment_id = li_environment_id inp, lt_traffic_mode = li_traffic_mode inp,
                   lt_initial_variables = variables, lt_stop_on_failure = li_stop_on_failure inp, lt_category = category\<rparr> in
        bind (writes (\<lambda>s. s\<lparr>lo_definitions := dset fresh rec (lo_definitions s)\<rparr>)) (\<lambda>_.
        bind (writes (\<lambda>s. s\<lparr>lo_names := dset (project_id, name) fresh (lo_names s)\<rparr>)) (\<lambda>_.
        ret rec)))))"

definition get_load_test :: "uuid \<Rightarrow> (LoadTestRepo, LoadTestRecord) pyop" where
  "get_load_test load_test_id s = (case dget (lo_definitions s) load_test_id of
     None \<Rightarrow> (Inl LoadTestNotFound, s) | Some r \<Rightarrow> (Inr r, s))"

definition list_load_tests :: "uuid \<Rightarrow> (LoadTestRepo, LoadTestRecord list) pyop" where
  "list_load_tests project_id = reads (\<lambda>s. sort_key lt_created_at
     (filter (\<lambda>r. lt_project_id r = project_id) (dvalues (lo_definitions s))))"

definition apply_load_input ::
  "LoadTestRecord \<Rightarrow> LoadTestInput \<Rightarrow> params \<Rightarrow> string \<Rightarrow> string \<Rightarrow> LoadTestTarget list \<Rightarrow> ValidSettings \<Rightarrow> LoadTestRecord" where
  "apply_load_input current inp variables name category targets settings =
     current\<lparr>lt_name := name, lt_description := li_description inp,
       lt_targets := targets, lt_mode := vs_mode settings, lt_request_count := vs_request_count settings,
       lt_duration_seconds := vs_duration_seconds settings, lt_concurrency := vs_concurrency settings,
       lt_interval_ms := vs_interval_ms settings, lt_timeout_seconds := vs_timeout_seconds settings,
       lt_environment_id := li_environment_id inp, lt_traffic_mode := li_traffic_mode inp,
       lt_initial_variables := variables, lt_stop_on_failure := li_stop_on_failure inp,
       lt_category := category\<rparr>"

definition update_load_test ::
  "(pyval \<Rightarrow> int) \<Rightarrow> uuid \<Rightarrow> LoadTestInput \<Rightarrow> int \<Rightarrow> time \<Rightarrow> (LoadTestRepo, LoadTestRecord) pyop" where
  "update_load_test json_bytes load_test_id inp expected_version now =
     bind (lift (normalize_input json_bytes inp)) (\<lambda>(variables, name, category, targets, settings).
     bind (get_load_test load_test_id) (\<lambda>current.
     if lt_state_version current \<noteq> expected_version then raise LoadTestVersionConflict
     else
       (let key = (lt_project_id current, name) in
        bind (reads (\<lambda>s. dget (lo_names s) key)) (\<lambda>owner.
        if owner \<noteq> None \<and> owner \<noteq> Some load_test_id then raise LoadTestNameConflict
        else
          (let updated = load_test_updated (apply_load_input current inp variables name category targets settings) now in
           bind (writes (\<lambda>s. s\<lparr>lo_definitions := dset load_test_id updated (lo_definitions s)\<rparr>)) (\<lambda>_.
           bind (writes (\<lambda>s. s\<lparr>lo_names := ddel (lt_project_id current, lt_name current) (lo_names s)\<rparr>)) (\<lambda>_.
           bind (writes (\<lambda>s. s\<lparr>lo_names := dset key load_test_id (lo_names s)\<rparr>)) (\<lambda>_.
           ret updated))))))))"

definition active_run :: "uuid \<Rightarrow> LoadTestRepo \<Rightarrow> LoadTestRunRecord option" where
  "active_run load_test_id s =
     find (\<lambda>run. lr_load_test_id run = load_test_id \<and> lr_status run = LR_RUNNING) (dvalues (lo_runs s))"

definition delete_load_test :: "uuid \<Rightarrow> (LoadTestRepo, unit) pyop" where
  "delete_load_test load_test_id =
     bind (get_load_test load_test_id) (\<lambda>current.
     bind (reads (active_run load_test_id)) (\<lambda>active.
     if active \<noteq> None then raise LoadTestActiveRunConflict
     else
       bind (writes (\<lambda>s. s\<lparr>lo_definitions := ddel load_test_id (lo_definitions s)\<rparr>)) (\<lambda>_.
       bind (writes (\<lambda>s. s\<lparr>lo_names := ddel (lt_project_id current, lt_name current) (lo_names s)\<rparr>)) (\<lambda>_.
       bind (reads (\<lambda>s. dkeys (filter (\<lambda>(_, run). lr_load_test_id run = load_test_id) (lo_runs s)))) (\<lambda>removed.
       bind (writes (\<lambda>s. s\<lparr>lo_runs := filter (\<lambda>(_, run). lr_load_test_id run \<noteq> load_test_id) (lo_runs s)\<rparr>)) (\<lambda>_.
       writes (\<lambda>s. s\<lparr>lo_responses := filter (\<lambda>(key, _). key \<notin> set removed) (lo_responses s)\<rparr>)))))))"

definition get_load_run :: "uuid \<Rightarrow> (LoadTestRepo, LoadTestRunRecord) pyop" where
  "get_load_run run_id s = (case dget (lo_runs s) run_id of
     None \<Rightarrow> (Inl LoadTestRunNotFound, s) | Some r \<Rightarrow> (Inr r, s))"

definition create_load_run :: "uuid \<Rightarrow> uuid \<Rightarrow> time \<Rightarrow> (LoadTestRepo, LoadTestRunRecord) pyop" where
  "create_load_run load_test_id fresh now =
     bind (get_load_test load_test_id) (\<lambda>definition.
     bind (reads (active_run load_test_id)) (\<lambda>active.
     if active \<noteq> None then raise LoadTestActiveRunConflict
     else
       (let rec = \<lparr>lr_id = fresh, lr_load_test_id = load_test_id, lr_status = LR_RUNNING, lr_mode = lt_mode definition,
                   lr_started_at = now, lr_finished_at = None,
                   lr_metrics = empty_metrics (map tg_name (lt_targets definition)), lr_error_message = None\<rparr> in
        bind (writes (\<lambda>s. s\<lparr>lo_runs := dset fresh rec (lo_runs s)\<rparr>)) (\<lambda>_.
        bind (writes (\<lambda>s. s\<lparr>lo_responses := dset fresh [] (lo_responses s)\<rparr>)) (\<lambda>_.
        ret rec)))))"

text \<open>\<open>ids n\<close> is the identifier drawn for the \<open>n\<close>th response of the batch.\<close>

definition add_run_responses ::
  "uuid \<Rightarrow> ResponseItem list \<Rightarrow> (nat \<Rightarrow> uuid) \<Rightarrow> time \<Rightarrow> (LoadTestRepo, LoadTestResponseRecord list) pyop" where
  "add_run_responses run_id responses ids now =
     bind (get_load_run run_id) (\<lambda>_.
     let records = map (\<lambda>(n, item). \<lparr>rr_id = ids n, rr_run_id = run_id, rr_item = item, rr_created_at = now\<rparr>)
           (enumerate 0 responses) in
     bind (writes (\<lambda>s. s\<lparr>lo_responses := dset run_id
        (sort_key (\<lambda>r. ri_sequence (rr_item r))
           ((case dget (lo_responses s) run_id of None \<Rightarrow> [] | Some old \<Rightarrow> old) @ records)) (lo_responses s)\<rparr>)) (\<lambda>_.
     ret records))"

definition list_run_responses ::
  "uuid \<Rightarrow> nat \<Rightarrow> nat \<Rightarrow> bool option \<Rightarrow> (LoadTestRepo, LoadTestResponseRecord list \<times> nat) pyop" where
  "list_run_responses run_id offset limit successful =
     bind (get_load_run run_id) (\<lambda>_.
     bind (reads (\<lambda>s. case dget (lo_responses s) run_id of None \<Rightarrow> [] | Some items \<Rightarrow> items)) (\<lambda>items.
     let items = (case successful of None \<Rightarrow> items
           | Some b \<Rightarrow> filter (\<lambda>r. ri_successful (rr_item r) = b) items) in
     ret (take limit (drop offset items), length items)))"

definition update_load_run ::
  "uuid \<Rightarrow> LoadTestRunStatus \<Rightarrow> params \<Rightarrow> string option \<Rightarrow> time option \<Rightarrow> (LoadTestRepo, LoadTestRunRecord) pyop" where
  "update_load_run run_id status metrics error_message finished_at =
     bind (get_load_run run_id) (\<lambda>current.
     if lr_status current \<noteq> LR_RUNNING then ret current
     else
       (let updated = \<lparr>lr_id = lr_id current, lr_load_test_id = lr_load_test_id current, lr_status = status,
              lr_mode = lr_mode current, lr_started_at = lr_started_at current, lr_finished_at = finished_at,
              lr_metrics = metrics, lr_error_message = error_message\<rparr> in
        bind (writes (\<lambda>s. s\<lparr>lo_runs := dset run_id updated (lo_runs s)\<rparr>)) (\<lambda>_. ret updated)))"

definition recover_running_runs :: "string \<Rightarrow> time \<Rightarrow> (LoadTestRepo, nat) pyop" where
  "recover_running_runs message now =
     bind (reads (\<lambda>s. length (filter (\<lambda>(_, run). lr_status run = LR_RUNNING) (lo_runs s)))) (\<lambda>n.
     bind (writes (\<lambda>s. s\<lparr>lo_runs := map (\<lambda>(key, run). (key,
        if lr_status run = LR_RUNNING
        then run\<lparr>lr_status := LR_FAILED, lr_finished_at := Some now, lr_error_message := Some message\<rparr> else run)) (lo_runs s)\<rparr>)) (\<lambda>_.
     ret n))"

definition list_load_runs :: "uuid \<Rightarrow> (LoadTestRepo, LoadTestRunRecord list) pyop" where
  "list_load_runs load_test_id =
     bind (get_load_test load_test_id) (\<lambda>_.
     reads (\<lambda>s. sort_key (\<lambda>r. - lr_started_at r) (filter (\<lambda>run. lr_load_test_id run = load_test_id) (dvalues (lo_runs s)))))"

end
