(* ===== verification/Load_Test_Facts.thy ===== *)
theory Load_Test_Facts
  imports Load_Tests
begin

text \<open>
  The operations of the load test repository as steps, what each does, the named repository it is, and its invariant.
\<close>

section \<open>Steps\<close>

inductive load_step :: "(pyval \<Rightarrow> int) \<Rightarrow> LoadTestRepo \<Rightarrow> LoadTestRepo \<Rightarrow> bool" for jb :: "pyval \<Rightarrow> int" where
  l_create: "dget (lo_definitions s) fresh = None \<Longrightarrow> load_step jb s (snd (create_load_test jb p inp fresh now s))"
| l_update: "load_step jb s (snd (update_load_test jb i inp v now s))"
| l_delete: "load_step jb s (snd (delete_load_test i s))"
| l_run: "dget (lo_runs s) fresh = None \<Longrightarrow> load_step jb s (snd (create_load_run i fresh now s))"
| l_responses: "load_step jb s (snd (add_run_responses k items ids now s))"
| l_update_run: "load_step jb s (snd (update_load_run k st metrics err fin s))"
| l_recover: "load_step jb s (snd (recover_running_runs message now s))"

definition load_key :: "LoadTestRecord \<Rightarrow> uuid \<times> string" where
  "load_key r = (lt_project_id r, lt_name r)"

abbreviation load_index :: "LoadTestRepo \<Rightarrow> bool" where
  "load_index s \<equiv> index_ok lt_id load_key (lo_definitions s) (lo_names s)"

text \<open>What the validation guarantees of a stored definition.\<close>

definition target_ok :: "LoadTestTarget \<Rightarrow> bool" where
  "target_ok tg \<longleftrightarrow> tg_name tg \<noteq> [] \<and> tg_method tg \<in> set HTTP_METHODS \<and> tg_url tg \<noteq> [] \<and> tg_expected_statuses tg \<noteq> [] \<and>
     list_all (\<lambda>code. 100 \<le> code \<and> code \<le> 599) (tg_expected_statuses tg) \<and> 0 \<le> tg_think_time_ms tg"

definition definition_ok :: "LoadTestRecord \<Rightarrow> bool" where
  "definition_ok r \<longleftrightarrow> lt_name r \<noteq> [] \<and> length (lt_name r) \<le> 255 \<and> length (lt_category r) \<le> 100 \<and>
     1 \<le> length (lt_targets r) \<and> length (lt_targets r) \<le> 20 \<and> distinct (map tg_name (lt_targets r)) \<and>
     (lt_traffic_mode r = TM_SCENARIO \<or> list_all (\<lambda>tg. tg_extractors tg = []) (lt_targets r)) \<and>
     list_all target_ok (lt_targets r) \<and>
     1 \<le> lt_request_count r \<and> lt_request_count r \<le> 10000 \<and> 1 \<le> lt_duration_seconds r \<and> lt_duration_seconds r \<le> 1800 \<and>
     1 \<le> lt_concurrency r \<and> lt_concurrency r \<le> 100 \<and> 0 \<le> lt_interval_ms r \<and> lt_interval_ms r \<le> 60000 \<and>
     0 < lt_timeout_seconds r \<and> lt_timeout_seconds r \<le> 120"

lemma validate_target_ok: "validate_target jb tg = Inr tg' \<Longrightarrow> target_ok tg'"
  by (auto simp: validate_target_def target_ok_def target_name_def validate_method_def validate_statuses_def Let_def
      list_all_iff list_ex_iff not_less)

lemma validate_targets_ok:
  "validate_targets jb tgs = Inr tgs' \<Longrightarrow> list_all target_ok tgs' \<and> length tgs' = length tgs"
  by (induction tgs arbitrary: tgs') (auto dest: validate_target_ok)

lemma normalize_targets_ok:
  "normalize_targets jb tgs mode = Inr tgs' \<Longrightarrow> list_all target_ok tgs' \<and> 1 \<le> length tgs' \<and> length tgs' \<le> 20 \<and>
     distinct (map tg_name tgs') \<and> (mode = TM_SCENARIO \<or> list_all (\<lambda>tg. tg_extractors tg = []) tgs')"
  by (auto simp: normalize_targets_def list_all_iff list_ex_iff dest: validate_targets_ok)

lemma int_setting_Inr [simp]: "int_setting v = Inr n \<longleftrightarrow> v = PInt n"
  by (cases v) auto

lemma timeout_setting_Inr: "timeout_setting v = Inr q \<Longrightarrow> 0 < q \<and> q \<le> 120"
  by (induction v rule: timeout_setting.induct) (auto split: if_splits)

lemma validate_settings_ok:
  "validate_settings st = Inr vs \<Longrightarrow>
     1 \<le> vs_request_count vs \<and> vs_request_count vs \<le> 10000 \<and> 1 \<le> vs_duration_seconds vs \<and> vs_duration_seconds vs \<le> 1800 \<and>
     1 \<le> vs_concurrency vs \<and> vs_concurrency vs \<le> 100 \<and> 0 \<le> vs_interval_ms vs \<and> vs_interval_ms vs \<le> 60000 \<and>
     0 < vs_timeout_seconds vs \<and> vs_timeout_seconds vs \<le> 120"
  by (auto simp: validate_settings_def dest: timeout_setting_Inr)

lemma normalize_input_ok:
  assumes "normalize_input jb inp = Inr (variables, name, category, targets, vs)"
  shows "name \<noteq> [] \<and> length name \<le> 255 \<and> length category \<le> 100 \<and> validate_settings (li_settings inp) = Inr vs \<and>
    normalize_targets jb (li_targets inp) (li_traffic_mode inp) = Inr targets"
  using assms by (auto simp: normalize_input_def normalize_name_def normalize_category_def Let_def)

section \<open>What each operation does\<close>

lemma create_load_test_cases:
  "(\<exists>e. create_load_test jb p inp fresh now s = (Inl e, s)) \<or>
   (\<exists>r. lt_id r = fresh \<and> definition_ok r \<and> dget (lo_names s) (load_key r) = None \<and>
      create_load_test jb p inp fresh now s = (Inr r, s\<lparr>lo_definitions := dset fresh r (lo_definitions s),
        lo_names := dset (load_key r) fresh (lo_names s)\<rparr>))"
proof (cases "normalize_input jb inp")
  case (Inr x)
  then obtain variables name category targets vs where x: "normalize_input jb inp = Inr (variables, name, category, targets, vs)"
    by (cases x) auto
  note ok = normalize_input_ok [OF x]
  show ?thesis
    using ok validate_settings_ok [of "li_settings inp" vs] normalize_targets_ok [of jb "li_targets inp" "li_traffic_mode inp" targets]
    by (cases "dget (lo_names s) (p, name)") (simp_all add: create_load_test_def bind_def x Let_def load_key_def definition_ok_def)
qed (simp add: create_load_test_def bind_def)

lemma update_load_test_Inl: "update_load_test jb i inp v now s = (Inl e, t) \<Longrightarrow> t = s"
  by (auto simp: update_load_test_def bind_Inl_iff get_load_test_def Let_def split: option.splits if_splits prod.splits)

lemma update_load_test_Inr:
  assumes "update_load_test jb i inp v now s = (Inr r', t)"
  shows "\<exists>r. dget (lo_definitions s) i = Some r \<and> lt_state_version r = v \<and> lt_id r' = lt_id r \<and>
    lt_state_version r' = lt_state_version r + 1 \<and> definition_ok r' \<and>
    (dget (lo_names s) (load_key r') = None \<or> dget (lo_names s) (load_key r') = Some i) \<and>
    t = s\<lparr>lo_definitions := dset i r' (lo_definitions s),
      lo_names := dset (load_key r') i (ddel (load_key r) (lo_names s))\<rparr>"
proof -
  from assms obtain variables name category targets vs where x: "normalize_input jb inp = Inr (variables, name, category, targets, vs)"
    by (auto simp: update_load_test_def bind_Inr_iff)
  from assms obtain r where r: "dget (lo_definitions s) i = Some r"
    by (auto simp: update_load_test_def bind_Inr_iff get_load_test_def split: option.splits)
  note ok = normalize_input_ok [OF x]
  have settings: "validate_settings (li_settings inp) = Inr vs" "normalize_targets jb (li_targets inp) (li_traffic_mode inp) = Inr targets"
    using ok by simp_all
  let ?r' = "load_test_updated (apply_load_input r inp variables name category targets vs) now"
  have fields: "lt_id ?r' = lt_id r" "lt_state_version ?r' = lt_state_version r + 1" "load_key ?r' = (lt_project_id r, name)"
    by (simp_all add: load_test_updated_def apply_load_input_def load_key_def)
  have good: "definition_ok ?r'"
    using ok validate_settings_ok [OF settings(1)] normalize_targets_ok [OF settings(2)]
    by (simp add: definition_ok_def load_test_updated_def apply_load_input_def)
  have run: "lt_state_version r = v" "r' = ?r'"
    "dget (lo_names s) (lt_project_id r, name) = None \<or> dget (lo_names s) (lt_project_id r, name) = Some i"
    "t = s\<lparr>lo_definitions := dset i ?r' (lo_definitions s),
      lo_names := dset (lt_project_id r, name) i (ddel (load_key r) (lo_names s))\<rparr>"
    using assms by (auto simp: update_load_test_def bind_def x r get_load_test_def Let_def load_key_def split: if_splits)
  show ?thesis using r run(1,3,4) fields good unfolding run(2) by (intro exI [of _ r]) simp
qed

lemma active_run_None:
  "wf_dict (lo_runs s) \<Longrightarrow> active_run i s = None \<longleftrightarrow>
     (\<forall>k run. dget (lo_runs s) k = Some run \<longrightarrow> lr_load_test_id run = i \<longrightarrow> lr_status run \<noteq> LR_RUNNING)"
  by (force simp: active_run_def find_None_iff wf_dget_iff)

lemma delete_load_test_cases:
  "(\<exists>e. delete_load_test i s = (Inl e, s)) \<or>
   (\<exists>r. dget (lo_definitions s) i = Some r \<and> active_run i s = None \<and>
      delete_load_test i s = (Inr (), s\<lparr>lo_definitions := ddel i (lo_definitions s),
        lo_names := ddel (load_key r) (lo_names s),
        lo_runs := filter (\<lambda>(_, run). lr_load_test_id run \<noteq> i) (lo_runs s),
        lo_responses := filter (\<lambda>(key, _). key \<notin> set (dkeys (filter (\<lambda>(_, run). lr_load_test_id run = i) (lo_runs s)))) (lo_responses s)\<rparr>))"
  by (simp add: delete_load_test_def bind_def get_load_test_def load_key_def split: option.split)

lemma create_load_run_cases:
  "(\<exists>e. create_load_run i fresh now s = (Inl e, s)) \<or>
   (\<exists>r run. dget (lo_definitions s) i = Some r \<and> active_run i s = None \<and> lr_id run = fresh \<and> lr_load_test_id run = i \<and>
      lr_status run = LR_RUNNING \<and> create_load_run i fresh now s =
        (Inr run, s\<lparr>lo_runs := dset fresh run (lo_runs s), lo_responses := dset fresh [] (lo_responses s)\<rparr>))"
  by (simp add: create_load_run_def bind_def get_load_test_def Let_def split: option.split)

lemma add_run_responses_cases:
  "(\<exists>e. add_run_responses k items ids now s = (Inl e, s)) \<or>
   (\<exists>run records. dget (lo_runs s) k = Some run \<and> map rr_item records = items \<and> (\<forall>r \<in> set records. rr_run_id r = k) \<and>
      add_run_responses k items ids now s = (Inr records, s\<lparr>lo_responses := dset k
        (sort_key (\<lambda>r. ri_sequence (rr_item r)) ((case dget (lo_responses s) k of None \<Rightarrow> [] | Some old \<Rightarrow> old) @ records)) (lo_responses s)\<rparr>))"
proof (cases "dget (lo_runs s) k")
  case (Some run)
  then show ?thesis
    by (simp add: add_run_responses_def bind_def get_load_run_def Let_def comp_def case_prod_beta)
qed (simp add: add_run_responses_def bind_def get_load_run_def)

lemma update_load_run_cases:
  "snd (update_load_run k st metrics err fin s) = s \<or>
   (\<exists>run. dget (lo_runs s) k = Some run \<and> lr_status run = LR_RUNNING \<and> update_load_run k st metrics err fin s =
      (Inr (run\<lparr>lr_status := st, lr_finished_at := fin, lr_metrics := metrics, lr_error_message := err\<rparr>),
       s\<lparr>lo_runs := dset k (run\<lparr>lr_status := st, lr_finished_at := fin, lr_metrics := metrics, lr_error_message := err\<rparr>) (lo_runs s)\<rparr>))"
proof (cases "dget (lo_runs s) k")
  case (Some run)
  then show ?thesis by (cases run) (simp add: update_load_run_def bind_def get_load_run_def Let_def)
qed (simp add: update_load_run_def bind_def get_load_run_def)

definition recovered :: "string \<Rightarrow> time \<Rightarrow> LoadTestRunRecord \<Rightarrow> LoadTestRunRecord" where
  "recovered message now run = (if lr_status run = LR_RUNNING
     then run\<lparr>lr_status := LR_FAILED, lr_finished_at := Some now, lr_error_message := Some message\<rparr> else run)"

lemma recover_running_runs_result:
  "snd (recover_running_runs message now s) = s\<lparr>lo_runs := map (\<lambda>(key, run). (key, recovered message now run)) (lo_runs s)\<rparr>"
  by (simp add: recover_running_runs_def bind_def recovered_def)

lemma recovered_fields [simp]:
  "lr_id (recovered message now run) = lr_id run" "lr_load_test_id (recovered message now run) = lr_load_test_id run"
  "lr_status (recovered message now run) \<noteq> LR_RUNNING"
  by (simp_all add: recovered_def)

section \<open>Invariant\<close>

definition runs_ok :: "LoadTestRepo \<Rightarrow> bool" where
  "runs_ok s \<longleftrightarrow> wf_dict (lo_runs s) \<and>
     (\<forall>k run. dget (lo_runs s) k = Some run \<longrightarrow>
        lr_id run = k \<and> dget (lo_definitions s) (lr_load_test_id run) \<noteq> None \<and> dget (lo_responses s) k \<noteq> None) \<and>
     (\<forall>k k' run run'. dget (lo_runs s) k = Some run \<longrightarrow> dget (lo_runs s) k' = Some run' \<longrightarrow>
        lr_status run = LR_RUNNING \<longrightarrow> lr_status run' = LR_RUNNING \<longrightarrow> lr_load_test_id run = lr_load_test_id run' \<longrightarrow> k = k')"

definition responses_ok :: "LoadTestRepo \<Rightarrow> bool" where
  "responses_ok s \<longleftrightarrow> wf_dict (lo_responses s) \<and> (\<forall>k rs. dget (lo_responses s) k = Some rs \<longrightarrow>
     dget (lo_runs s) k \<noteq> None \<and> sorted (map (\<lambda>r. ri_sequence (rr_item r)) rs) \<and> (\<forall>r \<in> set rs. rr_run_id r = k))"

definition load_inv :: "LoadTestRepo \<Rightarrow> bool" where
  "load_inv s \<longleftrightarrow> load_index s \<and> (\<forall>i r. dget (lo_definitions s) i = Some r \<longrightarrow> definition_ok r) \<and> runs_ok s \<and> responses_ok s"

lemma dget_filter_values:
  "wf_dict d \<Longrightarrow> dget (filter (\<lambda>(_, v). P v) d) k = (case dget d k of None \<Rightarrow> None | Some v \<Rightarrow> if P v then Some v else None)"
  by (induction d) (auto simp: wf_dict_def map_of_eq_None_iff split: option.splits dest: map_of_SomeD)

lemma dget_filter_keys: "dget (filter (\<lambda>(k, _). P k) d) k = (if P k then dget d k else None)"
  by (induction d) auto

lemma wf_dict_filter: "wf_dict d \<Longrightarrow> wf_dict (filter P d)"
  by (simp add: wf_dict_def distinct_map_filter)

lemma dget_map_values: "dget (map (\<lambda>(k, v). (k, f v)) d) k = map_option f (dget d k)"
  by (induction d) auto

lemma wf_dict_map_values: "wf_dict d \<Longrightarrow> wf_dict (map (\<lambda>(k, v). (k, f v)) d)"
  by (simp add: wf_dict_def comp_def case_prod_beta)

lemma load_step_shape:
  assumes "load_step jb s t" "load_index s"
  shows "named_step lt_id load_key lt_state_version (lo_definitions s) (lo_names s) (lo_definitions t) (lo_names t)"
  using assms
proof (induction rule: load_step.induct)
  case (l_create s fresh p inp now)
  with create_load_test_cases [of jb p inp fresh now s] show ?case by (auto simp: named_step_same intro: named_step_create)
next
  case (l_update s i inp v now)
  show ?case
  proof (cases "update_load_test jb i inp v now s")
    case (Pair res t)
    show ?thesis
    proof (cases res)
      case (Inl e)
      with Pair update_load_test_Inl show ?thesis by (metis named_step_same snd_conv)
    next
      case (Inr r')
      with Pair update_load_test_Inr obtain r where *: "dget (lo_definitions s) i = Some r" "lt_id r' = lt_id r"
        "lt_state_version r' = lt_state_version r + 1"
        "dget (lo_names s) (load_key r') = None \<or> dget (lo_names s) (load_key r') = Some i"
        "t = s\<lparr>lo_definitions := dset i r' (lo_definitions s), lo_names := dset (load_key r') i (ddel (load_key r) (lo_names s))\<rparr>"
        by blast
      with Pair show ?thesis
        by (auto intro!: named_step_rename simp: dget_dset delete_conv fun_eq_iff)
    qed
  qed
next
  case (l_delete s i)
  from delete_load_test_cases [of i s] show ?case by (auto simp: named_step_same intro: named_step_delete)
next
  case (l_run s fresh i now)
  from create_load_run_cases [of i fresh now s] show ?case by (auto simp: named_step_same)
next
  case (l_responses s k items ids now)
  from add_run_responses_cases [of k items ids now s] show ?case by (auto simp: named_step_same)
next
  case (l_update_run s k st metrics err fin)
  from update_load_run_cases [of k st metrics err fin s] show ?case by (auto simp: named_step_same)
next
  case (l_recover s message now)
  show ?case by (simp add: recover_running_runs_result named_step_same)
qed

interpretation load_tests: named_repository
  lo_definitions lo_names lt_id load_key lt_state_version "load_step jb" empty_load_tests
  "\<lambda>(inp, now) i v. update_load_test jb i inp v now" for jb
proof unfold_locales
  fix c i v s r' t
  assume u: "(case c of (inp, now) \<Rightarrow> \<lambda>i v. update_load_test jb i inp v now) i v s = (Inr r', t)"
  obtain inp now where c: "c = (inp, now)" by (cases c)
  have "load_step jb s (snd (update_load_test jb i inp v now s))" by (rule l_update)
  with u update_load_test_Inr [of jb i inp v now s r' t]
  show "\<exists>r. dget (lo_definitions s) i = Some r \<and> lt_state_version r = v \<and> lt_state_version r' = v + 1 \<and>
      dget (lo_definitions t) i = Some r' \<and> load_step jb s t"
    by (auto simp: c dget_dset)
qed (auto simp: empty_load_tests_def split: prod.splits dest: update_load_test_Inl intro: load_step_shape)

lemma runs_okD:
  assumes "runs_ok s" "dget (lo_runs s) k = Some run"
  shows "lr_id run = k" "dget (lo_definitions s) (lr_load_test_id run) \<noteq> None" "dget (lo_responses s) k \<noteq> None"
  using assms by (simp_all add: runs_ok_def)

lemma runs_ok_single:
  assumes "runs_ok s" "dget (lo_runs s) k = Some run" "dget (lo_runs s) k' = Some run'"
    and "lr_status run = LR_RUNNING" "lr_status run' = LR_RUNNING" "lr_load_test_id run = lr_load_test_id run'"
  shows "k = k'"
  using assms by (simp add: runs_ok_def)

lemma runs_okI:
  assumes "wf_dict (lo_runs s)"
    and "\<And>k run. dget (lo_runs s) k = Some run \<Longrightarrow> lr_id run = k"
    and "\<And>k run. dget (lo_runs s) k = Some run \<Longrightarrow> dget (lo_definitions s) (lr_load_test_id run) \<noteq> None"
    and "\<And>k run. dget (lo_runs s) k = Some run \<Longrightarrow> dget (lo_responses s) k \<noteq> None"
    and "\<And>k k' run run'. dget (lo_runs s) k = Some run \<Longrightarrow> dget (lo_runs s) k' = Some run' \<Longrightarrow>
      lr_status run = LR_RUNNING \<Longrightarrow> lr_status run' = LR_RUNNING \<Longrightarrow> lr_load_test_id run = lr_load_test_id run' \<Longrightarrow> k = k'"
  shows "runs_ok s"
  unfolding runs_ok_def using assms by simp

lemma runs_ok_definitions:
  assumes "runs_ok s" "lo_runs t = lo_runs s" "lo_responses t = lo_responses s"
    and "\<And>i. dget (lo_definitions s) i \<noteq> None \<Longrightarrow> dget (lo_definitions t) i \<noteq> None"
  shows "runs_ok t"
proof (rule runs_okI)
  show "wf_dict (lo_runs t)" using assms(1,2) by (simp add: runs_ok_def)
  fix k run assume "dget (lo_runs t) k = Some run"
  then have "dget (lo_runs s) k = Some run" by (simp add: assms(2))
  note * = runs_okD [OF assms(1) this]
  show "lr_id run = k" "dget (lo_definitions t) (lr_load_test_id run) \<noteq> None" "dget (lo_responses t) k \<noteq> None"
    by (rule *(1), rule assms(4) [OF *(2)], simp only: assms(3) *(3) not_False_eq_True)
qed (use runs_ok_single [OF assms(1)] assms(2) in simp)

lemma runs_ok_update:
  assumes ok: "runs_ok s" and run: "dget (lo_runs s) k = Some run"
    and same: "lr_id run' = lr_id run" "lr_load_test_id run' = lr_load_test_id run" "lr_status run = LR_RUNNING"
  shows "runs_ok (s\<lparr>lo_runs := dset k run' (lo_runs s)\<rparr>)"
proof (rule runs_okI)
  let ?t = "s\<lparr>lo_runs := dset k run' (lo_runs s)\<rparr>"
  show "wf_dict (lo_runs ?t)" using ok by (simp add: runs_ok_def)
  fix j x assume "dget (lo_runs ?t) j = Some x"
  then show "lr_id x = j" "dget (lo_definitions ?t) (lr_load_test_id x) \<noteq> None" "dget (lo_responses ?t) j \<noteq> None"
    using runs_okD [OF ok run] runs_okD [OF ok, of j x] same by (auto simp: dget_dset split: if_splits)
next
  let ?t = "s\<lparr>lo_runs := dset k run' (lo_runs s)\<rparr>"
  fix i j x y assume *: "dget (lo_runs ?t) i = Some x" "dget (lo_runs ?t) j = Some y" "lr_status x = LR_RUNNING"
    "lr_status y = LR_RUNNING" "lr_load_test_id x = lr_load_test_id y"
  have old: "\<exists>z. dget (lo_runs s) n = Some z \<and> lr_status z = LR_RUNNING \<and> lr_load_test_id z = lr_load_test_id w"
    if "dget (lo_runs ?t) n = Some w" "lr_status w = LR_RUNNING" for n w
    using that run same by (cases "n = k") (auto simp: dget_dset)
  from old [OF *(1,3)] obtain a where a: "dget (lo_runs s) i = Some a" "lr_status a = LR_RUNNING" "lr_load_test_id a = lr_load_test_id x"
    by (elim exE conjE)
  from old [OF *(2,4)] obtain b where b: "dget (lo_runs s) j = Some b" "lr_status b = LR_RUNNING" "lr_load_test_id b = lr_load_test_id y"
    by (elim exE conjE)
  show "i = j" by (rule runs_ok_single [OF ok a(1) b(1) a(2) b(2)]) (simp add: a b *(5))
qed

lemma runs_ok_create:
  assumes ok: "runs_ok s" and new: "dget (lo_definitions s) i = Some r" "active_run i s = None" "lr_id run = k"
    "lr_load_test_id run = i"
  shows "runs_ok (s\<lparr>lo_runs := dset k run (lo_runs s), lo_responses := dset k [] (lo_responses s)\<rparr>)"
proof -
  let ?t = "s\<lparr>lo_runs := dset k run (lo_runs s), lo_responses := dset k [] (lo_responses s)\<rparr>"
  have wf: "wf_dict (lo_runs s)" using ok by (simp add: runs_ok_def)
  note idle = active_run_None [OF wf, THEN iffD1, OF new(2), rule_format]
  show ?thesis
  proof (rule runs_okI)
    show "wf_dict (lo_runs ?t)" using wf by simp
    fix j x assume "dget (lo_runs ?t) j = Some x"
    then show "lr_id x = j" "dget (lo_definitions ?t) (lr_load_test_id x) \<noteq> None" "dget (lo_responses ?t) j \<noteq> None"
      using runs_okD [OF ok, of j x] new by (auto simp: dget_dset split: if_splits)
  next
    fix j j' x y assume *: "dget (lo_runs ?t) j = Some x" "dget (lo_runs ?t) j' = Some y" "lr_status x = LR_RUNNING"
      "lr_status y = LR_RUNNING" "lr_load_test_id x = lr_load_test_id y"
    show "j = j'"
    proof (rule ccontr)
      assume "j \<noteq> j'"
      then consider "j = k" "dget (lo_runs s) j' = Some y" | "j' = k" "dget (lo_runs s) j = Some x"
        | "dget (lo_runs s) j = Some x" "dget (lo_runs s) j' = Some y"
        using *(1,2) by (cases "j = k"; cases "j' = k") simp_all
      then show False
      proof cases
        case 1
        with *(1) have "x = run" by simp
        with idle [OF 1(2)] *(4,5) new(4) show False by simp
      next
        case 2
        with *(2) have "y = run" by simp
        with idle [OF 2(2)] *(3,5) new(4) show False by simp
      next
        case 3
        from runs_ok_single [OF ok 3 *(3-5)] \<open>j \<noteq> j'\<close> show False by simp
      qed
    qed
  qed
qed

lemma responses_okD:
  assumes "responses_ok s" "dget (lo_responses s) k = Some rs"
  shows "dget (lo_runs s) k \<noteq> None" "sorted (map (\<lambda>r. ri_sequence (rr_item r)) rs)" "\<forall>r \<in> set rs. rr_run_id r = k"
  using assms by (simp_all add: responses_ok_def)

lemma responses_okI:
  assumes "wf_dict (lo_responses s)"
    and "\<And>k rs. dget (lo_responses s) k = Some rs \<Longrightarrow> dget (lo_runs s) k \<noteq> None"
    and "\<And>k rs. dget (lo_responses s) k = Some rs \<Longrightarrow> sorted (map (\<lambda>r. ri_sequence (rr_item r)) rs)"
    and "\<And>k rs. dget (lo_responses s) k = Some rs \<Longrightarrow> \<forall>r \<in> set rs. rr_run_id r = k"
  shows "responses_ok s"
  unfolding responses_ok_def using assms by simp

lemma responses_ok_runs:
  assumes "responses_ok s" "lo_responses t = lo_responses s"
    and "\<And>k. dget (lo_runs s) k \<noteq> None \<Longrightarrow> dget (lo_runs t) k \<noteq> None"
  shows "responses_ok t"
proof (rule responses_okI)
  show "wf_dict (lo_responses t)" using assms(1,2) by (simp add: responses_ok_def)
  fix k rs assume "dget (lo_responses t) k = Some rs"
  then have "dget (lo_responses s) k = Some rs" by (simp add: assms(2))
  note * = responses_okD [OF assms(1) this]
  show "dget (lo_runs t) k \<noteq> None" by (rule assms(3) [OF *(1)])
  show "sorted (map (\<lambda>r. ri_sequence (rr_item r)) rs)" "\<forall>r \<in> set rs. rr_run_id r = k" by (rule *(2), rule *(3))
qed

lemma responses_ok_store:
  assumes "responses_ok s" "dget (lo_runs s) k \<noteq> None" "sorted (map (\<lambda>r. ri_sequence (rr_item r)) rs)" "\<forall>r \<in> set rs. rr_run_id r = k"
  shows "responses_ok (s\<lparr>lo_responses := dset k rs (lo_responses s)\<rparr>)"
proof (rule responses_okI)
  let ?t = "s\<lparr>lo_responses := dset k rs (lo_responses s)\<rparr>"
  show "wf_dict (lo_responses ?t)" using assms(1) by (simp add: responses_ok_def)
  fix j xs assume *: "dget (lo_responses ?t) j = Some xs"
  have "dget (lo_runs s) j \<noteq> None \<and> sorted (map (\<lambda>r. ri_sequence (rr_item r)) xs) \<and> (\<forall>r \<in> set xs. rr_run_id r = j)"
  proof (cases "j = k")
    case True
    with * assms(2-4) show ?thesis by simp
  next
    case False
    with * have "dget (lo_responses s) j = Some xs" by simp
    from responses_okD [OF assms(1) this] show ?thesis by simp
  qed
  then show "dget (lo_runs ?t) j \<noteq> None" "sorted (map (\<lambda>r. ri_sequence (rr_item r)) xs)" "\<forall>r \<in> set xs. rr_run_id r = j" by simp_all
qed

lemma delete_keeps_ok:
  assumes "runs_ok s" "responses_ok s" "active_run i s = None"
    and t: "lo_definitions t = ddel i (lo_definitions s)" "lo_runs t = filter (\<lambda>(_, run). lr_load_test_id run \<noteq> i) (lo_runs s)"
    "lo_responses t = filter (\<lambda>(key, _). key \<notin> set (dkeys (filter (\<lambda>(_, run). lr_load_test_id run = i) (lo_runs s)))) (lo_responses s)"
  shows "runs_ok t" "responses_ok t"
proof -
  have wf: "wf_dict (lo_runs s)" using assms(1) by (simp add: runs_ok_def)
  have runs: "dget (lo_runs t) k = Some run \<longleftrightarrow> dget (lo_runs s) k = Some run \<and> lr_load_test_id run \<noteq> i" for k run
    by (simp add: t(2) dget_filter_values [OF wf, of "\<lambda>run. lr_load_test_id run \<noteq> i"] split: option.splits) auto
  have gone: "k \<in> set (dkeys (filter (\<lambda>(_, run). lr_load_test_id run = i) (lo_runs s))) \<longleftrightarrow>
      (\<exists>run. dget (lo_runs s) k = Some run \<and> lr_load_test_id run = i)" for k
    by (force simp: wf_dget_iff [OF wf])
  have responses: "dget (lo_responses t) k = (if \<exists>run. dget (lo_runs s) k = Some run \<and> lr_load_test_id run = i then None else dget (lo_responses s) k)" for k
    by (simp only: t(3) dget_filter_keys gone) auto
  show "runs_ok t"
  proof (rule runs_okI)
    show "wf_dict (lo_runs t)" using wf by (simp add: t(2) wf_dict_filter)
    fix k run assume "dget (lo_runs t) k = Some run"
    then have *: "dget (lo_runs s) k = Some run" "lr_load_test_id run \<noteq> i" by (simp_all add: runs)
    from runs_okD [OF assms(1) *(1)] * show "lr_id run = k" "dget (lo_definitions t) (lr_load_test_id run) \<noteq> None"
      "dget (lo_responses t) k \<noteq> None"
      by (simp_all add: t(1) delete_conv responses)
  next
    fix k k' run run' assume "dget (lo_runs t) k = Some run" "dget (lo_runs t) k' = Some run'"
      and *: "lr_status run = LR_RUNNING" "lr_status run' = LR_RUNNING" "lr_load_test_id run = lr_load_test_id run'"
    then have "dget (lo_runs s) k = Some run" "dget (lo_runs s) k' = Some run'" by (simp_all add: runs)
    from runs_ok_single [OF assms(1) this *] show "k = k'" .
  qed
  show "responses_ok t"
  proof (rule responses_okI)
    show "wf_dict (lo_responses t)" using assms(2) by (simp add: t(3) wf_dict_filter responses_ok_def)
    fix k rs assume "dget (lo_responses t) k = Some rs"
    then have *: "dget (lo_responses s) k = Some rs" "\<not> (\<exists>run. dget (lo_runs s) k = Some run \<and> lr_load_test_id run = i)"
      by (simp_all add: responses split: if_splits)
    note old = responses_okD [OF assms(2) *(1)]
    from old(1) obtain run where "dget (lo_runs s) k = Some run" by blast
    with *(2) have "dget (lo_runs t) k = Some run" by (simp add: runs)
    then show "dget (lo_runs t) k \<noteq> None" by simp
    show "sorted (map (\<lambda>r. ri_sequence (rr_item r)) rs)" "\<forall>r \<in> set rs. rr_run_id r = k" by (rule old(2), rule old(3))
  qed
qed

lemma load_step_definitions:
  assumes "load_step jb s t" "\<forall>i r. dget (lo_definitions s) i = Some r \<longrightarrow> definition_ok r"
  shows "\<forall>i r. dget (lo_definitions t) i = Some r \<longrightarrow> definition_ok r"
  using assms
proof (induction rule: load_step.induct)
  case (l_create s fresh p inp now)
  with create_load_test_cases [of jb p inp fresh now s] show ?case by (auto simp: dget_dset split: if_splits)
next
  case (l_update s i inp v now)
  show ?case
  proof (cases "fst (update_load_test jb i inp v now s)")
    case (Inl e)
    then have "snd (update_load_test jb i inp v now s) = s" by (intro update_load_test_Inl) (simp add: prod_eq_iff)
    with l_update show ?thesis by simp
  next
    case (Inr r')
    then have "update_load_test jb i inp v now s = (Inr r', snd (update_load_test jb i inp v now s))" by (simp add: prod_eq_iff)
    from update_load_test_Inr [OF this] have "definition_ok r'"
      "lo_definitions (snd (update_load_test jb i inp v now s)) = dset i r' (lo_definitions s)" by auto
    with l_update show ?thesis by (auto simp: dget_dset split: if_splits)
  qed
next
  case (l_delete s i)
  with delete_load_test_cases [of i s] show ?case by (auto simp: delete_conv split: if_splits)
next
  case (l_run s fresh i now)
  with create_load_run_cases [of i fresh now s] show ?case by auto
next
  case (l_responses s k items ids now)
  with add_run_responses_cases [of k items ids now s] show ?case by auto
next
  case (l_update_run s k st metrics err fin)
  with update_load_run_cases [of k st metrics err fin s] show ?case by auto
next
  case (l_recover s message now)
  then show ?case by (simp add: recover_running_runs_result)
qed

lemma stored_responses_sorted:
  "sorted (map (\<lambda>r. ri_sequence (rr_item r)) (sort_key (\<lambda>r. ri_sequence (rr_item r)) rs))"
  by simp

lemma load_step_runs:
  assumes "load_step jb s t" "load_index s" "runs_ok s" "responses_ok s"
  shows "runs_ok t \<and> responses_ok t"
  using assms
proof (induction rule: load_step.induct)
  case (l_create s fresh p inp now)
  with create_load_test_cases [of jb p inp fresh now s] show ?case
    by (elim disjE exE conjE) (auto intro!: runs_ok_definitions [of s] responses_ok_runs [of s] simp: dget_dset)
next
  case (l_update s i inp v now)
  show ?case
  proof (cases "fst (update_load_test jb i inp v now s)")
    case (Inl e)
    then have "snd (update_load_test jb i inp v now s) = s" by (intro update_load_test_Inl) (simp add: prod_eq_iff)
    with l_update show ?thesis by simp
  next
    case (Inr r')
    then have "update_load_test jb i inp v now s = (Inr r', snd (update_load_test jb i inp v now s))" by (simp add: prod_eq_iff)
    from update_load_test_Inr [OF this] obtain names where "snd (update_load_test jb i inp v now s) =
      s\<lparr>lo_definitions := dset i r' (lo_definitions s), lo_names := names\<rparr>" by blast
    with l_update show ?thesis
      by (auto intro!: runs_ok_definitions [of s] responses_ok_runs [of s] simp: dget_dset)
  qed
next
  case (l_delete s i)
  from delete_load_test_cases [of i s] show ?case
  proof (elim disjE exE conjE)
    fix r assume "active_run i s = None" and t: "delete_load_test i s = (Inr (), s\<lparr>lo_definitions := ddel i (lo_definitions s),
        lo_names := ddel (load_key r) (lo_names s),
        lo_runs := filter (\<lambda>(_, run). lr_load_test_id run \<noteq> i) (lo_runs s),
        lo_responses := filter (\<lambda>(key, _). key \<notin> set (dkeys (filter (\<lambda>(_, run). lr_load_test_id run = i) (lo_runs s)))) (lo_responses s)\<rparr>)"
    then show ?thesis using delete_keeps_ok [OF l_delete(2,3), of i "snd (delete_load_test i s)"] by simp
  qed (use l_delete in simp)
next
  case (l_run s fresh i now)
  from create_load_run_cases [of i fresh now s] show ?case
  proof (elim disjE exE conjE)
    fix r run assume r: "dget (lo_definitions s) i = Some r" "active_run i s = None" "lr_id run = fresh" "lr_load_test_id run = i"
      and t: "create_load_run i fresh now s =
        (Inr run, s\<lparr>lo_runs := dset fresh run (lo_runs s), lo_responses := dset fresh [] (lo_responses s)\<rparr>)"
    have "responses_ok (s\<lparr>lo_runs := dset fresh run (lo_runs s)\<rparr>)"
      by (rule responses_ok_runs [OF l_run(4)]) (simp_all add: dget_dset)
    from responses_ok_store [OF this, of fresh "[]"] runs_ok_create [OF l_run(3) r] t show ?thesis by simp
  qed (use l_run in simp)
next
  case (l_responses s k items ids now)
  from add_run_responses_cases [of k items ids now s] show ?case
  proof (elim disjE exE conjE)
    fix run records
    assume run: "dget (lo_runs s) k = Some run" and records: "\<forall>r \<in> set records. rr_run_id r = k"
      and t: "add_run_responses k items ids now s = (Inr records, s\<lparr>lo_responses := dset k
        (sort_key (\<lambda>r. ri_sequence (rr_item r)) ((case dget (lo_responses s) k of None \<Rightarrow> [] | Some old \<Rightarrow> old) @ records)) (lo_responses s)\<rparr>)"
    have old: "\<forall>r \<in> set (case dget (lo_responses s) k of None \<Rightarrow> [] | Some old \<Rightarrow> old). rr_run_id r = k"
      using responses_okD(3) [OF l_responses(3), of k] by (cases "dget (lo_responses s) k") auto
    have "responses_ok (snd (add_run_responses k items ids now s))"
      unfolding t snd_conv using old records run by (intro responses_ok_store [OF l_responses(3)]) auto
    moreover have "runs_ok (snd (add_run_responses k items ids now s))"
      unfolding t snd_conv using runs_okD [OF l_responses(2)] runs_ok_single [OF l_responses(2)] l_responses(2)
      by (intro runs_okI) (auto simp: dget_dset runs_ok_def)
    ultimately show ?thesis by simp
  qed (use l_responses in simp)
next
  case (l_update_run s k st metrics err fin)
  from update_load_run_cases [of k st metrics err fin s] show ?case
  proof (elim disjE exE conjE)
    fix run assume run: "dget (lo_runs s) k = Some run" "lr_status run = LR_RUNNING"
      and t: "update_load_run k st metrics err fin s =
      (Inr (run\<lparr>lr_status := st, lr_finished_at := fin, lr_metrics := metrics, lr_error_message := err\<rparr>),
       s\<lparr>lo_runs := dset k (run\<lparr>lr_status := st, lr_finished_at := fin, lr_metrics := metrics, lr_error_message := err\<rparr>) (lo_runs s)\<rparr>)"
    show ?thesis
      unfolding t snd_conv using runs_ok_update [OF l_update_run(2) run(1) _ _ run(2)] responses_ok_runs [OF l_update_run(3)]
      by (simp add: dget_dset)
  qed (use l_update_run in simp)
next
  case (l_recover s message now)
  have runs: "dget (lo_runs (snd (recover_running_runs message now s))) k = map_option (recovered message now) (dget (lo_runs s) k)" for k
    by (simp add: recover_running_runs_result dget_map_values)
  have "runs_ok (snd (recover_running_runs message now s))"
  proof (rule runs_okI)
    show "wf_dict (lo_runs (snd (recover_running_runs message now s)))"
      using l_recover(2) by (simp add: recover_running_runs_result wf_dict_map_values runs_ok_def)
    fix k run assume "dget (lo_runs (snd (recover_running_runs message now s))) k = Some run"
    then obtain old where *: "dget (lo_runs s) k = Some old" "run = recovered message now old" by (auto simp: runs)
    from runs_okD [OF l_recover(2) *(1)] show "lr_id run = k" 
      "dget (lo_definitions (snd (recover_running_runs message now s))) (lr_load_test_id run) \<noteq> None"
      "dget (lo_responses (snd (recover_running_runs message now s))) k \<noteq> None"
      by (simp_all add: *(2) recover_running_runs_result)
  qed (auto simp: runs)
  moreover have "responses_ok (snd (recover_running_runs message now s))"
    by (rule responses_ok_runs [OF l_recover(3)]) (simp_all add: runs, simp add: recover_running_runs_result)
  ultimately show ?case by simp
qed

lemma load_inv_step: "load_step jb s t \<Longrightarrow> load_inv s \<Longrightarrow> load_inv t"
  using load_step_runs [of jb s t] load_step_definitions [of jb s t] load_step_shape [of jb s t]
  by (auto simp: load_inv_def intro: index_ok_step)

lemma load_inv_empty: "load_inv empty_load_tests"
  by (simp add: load_inv_def empty_load_tests_def index_ok_def runs_ok_def responses_ok_def)

lemma load_inv_steps: "(load_step jb)\<^sup>*\<^sup>* s t \<Longrightarrow> load_inv s \<Longrightarrow> load_inv t"
  by (induction rule: rtranclp_induct) (auto intro: load_inv_step)

end
