(* ===== verification/Load_Executor.thy ===== *)
theory Load_Executor
  imports Load_Test_Facts "HOL-Library.Multiset"
begin

text \<open>
  Metrics and the concurrent workers of a load test in request mode: \<open>services/api/load_test_executor.py\<close>.
\<close>

section \<open>Metrics\<close>

definition SAMPLE_LIMIT :: nat where "SAMPLE_LIMIT = 10000"

definition SUCCESS_RESPONSE_SAMPLES :: nat where "SUCCESS_RESPONSE_SAMPLES = 5"

definition FAILED_RESPONSE_SAMPLES :: nat where "FAILED_RESPONSE_SAMPLES = 10"

text \<open>
  A latency is a finite float, the rational it denotes. The operations that round are arguments: addition,
  \<open>x / y\<close>, \<open>round(x, 3)\<close> and \<open>round(n * ratio)\<close> for the three ratios.
\<close>

record Floats =
  fl_add :: "rat \<Rightarrow> rat \<Rightarrow> rat"
  fl_div :: "rat \<Rightarrow> rat \<Rightarrow> rat"
  fl_round3 :: "rat \<Rightarrow> rat"
  fl_scale :: "nat \<Rightarrow> rat \<Rightarrow> int"

record MetricValues =
  mv_latencies :: "rat list"
  mv_total :: nat
  mv_latency_sum :: rat
  mv_minimum :: "rat option"
  mv_maximum :: "rat option"
  mv_successful :: nat
  mv_failed :: nat
  mv_statuses :: "(int, nat) dict"
  mv_errors :: "(string, nat) dict"

definition no_values :: MetricValues where
  "no_values = \<lparr>mv_latencies = [], mv_total = 0, mv_latency_sum = 0, mv_minimum = None, mv_maximum = None,
     mv_successful = 0, mv_failed = 0, mv_statuses = [], mv_errors = []\<rparr>"

definition tally :: "'k option \<Rightarrow> ('k, nat) dict \<Rightarrow> ('k, nat) dict" where
  "tally key counts = (case key of None \<Rightarrow> counts
     | Some k \<Rightarrow> dset k ((case dget counts k of None \<Rightarrow> 0 | Some n \<Rightarrow> n) + 1) counts)"

text \<open>\<open>draw\<close> is the value of \<open>randrange(self.total)\<close>.\<close>

definition values_add ::
  "Floats \<Rightarrow> nat \<Rightarrow> rat \<Rightarrow> bool \<Rightarrow> int option \<Rightarrow> string option \<Rightarrow> MetricValues \<Rightarrow> MetricValues" where
  "values_add fl draw latency success status error mv =
     \<lparr>mv_latencies = (if length (mv_latencies mv) < SAMPLE_LIMIT then mv_latencies mv @ [latency]
        else if draw < SAMPLE_LIMIT then (mv_latencies mv)[draw := latency] else mv_latencies mv),
      mv_total = mv_total mv + 1,
      mv_latency_sum = fl_add fl (mv_latency_sum mv) latency,
      mv_minimum = Some (case mv_minimum mv of None \<Rightarrow> latency | Some m \<Rightarrow> min m latency),
      mv_maximum = Some (case mv_maximum mv of None \<Rightarrow> latency | Some m \<Rightarrow> max m latency),
      mv_successful = mv_successful mv + (if success then 1 else 0),
      mv_failed = mv_failed mv + (if success then 0 else 1),
      mv_statuses = tally status (mv_statuses mv),
      mv_errors = tally error (mv_errors mv)\<rparr>"

record ResponseDetails =
  rd_body :: "string option"
  rd_sample_body :: pyval
  rd_body_kind :: string
  rd_truncated :: bool
  rd_body_bytes :: int

record ResponseSample =
  sm_target :: string
  sm_status :: "int option"
  sm_latency_ms :: rat
  sm_error :: "string option"
  sm_body :: pyval
  sm_body_kind :: string
  sm_truncated :: bool

record Metrics =
  mx_started :: rat
  mx_all :: MetricValues
  mx_targets :: "(string, MetricValues) dict"
  mx_scenarios :: MetricValues
  mx_successful_samples :: "ResponseSample list"
  mx_failed_samples :: "ResponseSample list"
  mx_last_snapshot :: rat

definition make_metrics :: "string list \<Rightarrow> rat \<Rightarrow> Metrics" where
  "make_metrics target_names started =
     \<lparr>mx_started = started, mx_all = no_values, mx_targets = map (\<lambda>name. (name, no_values)) target_names,
      mx_scenarios = no_values, mx_successful_samples = [], mx_failed_samples = [], mx_last_snapshot = started\<rparr>"

definition response_sample ::
  "Floats \<Rightarrow> string \<Rightarrow> rat \<Rightarrow> int option \<Rightarrow> string option \<Rightarrow> ResponseDetails option \<Rightarrow> ResponseSample" where
  "response_sample fl name latency status error response =
     (let details = (case response of Some d \<Rightarrow> d
        | None \<Rightarrow> \<lparr>rd_body = None, rd_sample_body = PNone, rd_body_kind = ''unavailable'', rd_truncated = False, rd_body_bytes = 0\<rparr>) in
      \<lparr>sm_target = name, sm_status = status, sm_latency_ms = fl_round3 fl latency, sm_error = error,
       sm_body = rd_sample_body details,
       sm_body_kind = (if rd_body_kind details \<in> {''json'', ''empty''} then rd_body_kind details
         else if rd_truncated details then ''truncated'' else ''non_json''),
       sm_truncated = rd_truncated details\<rparr>)"

text \<open>\<open>draws\<close> are the random indexes of the two reservoirs.\<close>

definition metrics_add ::
  "Floats \<Rightarrow> nat \<times> nat \<Rightarrow> string \<Rightarrow> rat \<Rightarrow> bool \<Rightarrow> int option \<Rightarrow> string option \<Rightarrow> ResponseDetails option \<Rightarrow> (Metrics, nat) pyop" where
  "metrics_add fl draws name latency success status error response =
     bind (writes (\<lambda>m. m\<lparr>mx_all := values_add fl (fst draws) latency success status error (mx_all m)\<rparr>)) (\<lambda>_.
     bind (reads (\<lambda>m. dget (mx_targets m) name)) (\<lambda>target.
     case target of
       None \<Rightarrow> raise KeyError
     | Some mv \<Rightarrow>
         bind (writes (\<lambda>m. m\<lparr>mx_targets := dset name (values_add fl (snd draws) latency success status error mv) (mx_targets m)\<rparr>)) (\<lambda>_.
         bind (writes (\<lambda>m.
           if success
           then (if length (mx_successful_samples m) < SUCCESS_RESPONSE_SAMPLES
                 then m\<lparr>mx_successful_samples := mx_successful_samples m @ [response_sample fl name latency status error response]\<rparr>
                 else m)
           else (if length (mx_failed_samples m) < FAILED_RESPONSE_SAMPLES
                 then m\<lparr>mx_failed_samples := mx_failed_samples m @ [response_sample fl name latency status error response]\<rparr>
                 else m))) (\<lambda>_.
         reads (\<lambda>m. mv_total (mx_all m))))))"

definition add_scenario :: "Floats \<Rightarrow> nat \<Rightarrow> rat \<Rightarrow> bool \<Rightarrow> Metrics \<Rightarrow> Metrics" where
  "add_scenario fl draw latency success m =
     m\<lparr>mx_scenarios := values_add fl draw latency success None None (mx_scenarios m)\<rparr>"

definition percentile :: "Floats \<Rightarrow> rat list \<Rightarrow> rat \<Rightarrow> rat" where
  "percentile fl ordered ratio =
     fl_round3 fl (ordered ! nat (min (int (length ordered) - 1) (max 0 (fl_scale fl (length ordered - 1) ratio))))"

definition optional :: "rat option \<Rightarrow> rat" where
  "optional x = (case x of None \<Rightarrow> 0 | Some v \<Rightarrow> v)"

abbreviation PRat :: "rat \<Rightarrow> pyval" where
  "PRat q \<equiv> PFloat (Finite q)"

fun digits :: "nat \<Rightarrow> string" where
  "digits n = (if n < 10 then [char_of (48 + n)] else digits (n div 10) @ [char_of (48 + n mod 10)])"

declare digits.simps [simp del]

definition show_int :: "int \<Rightarrow> string" where
  "show_int k = (if k < 0 then CHR ''-'' # digits (nat (- k)) else digits (nat k))"

definition summarize :: "Floats \<Rightarrow> MetricValues \<Rightarrow> rat \<Rightarrow> params" where
  "summarize fl mv elapsed =
     (if mv_total mv = 0 then empty_summary
      else
        (let ordered = sort (mv_latencies mv) in
         [(''total_requests'', PInt (int (mv_total mv))), (''successful_requests'', PInt (int (mv_successful mv))),
          (''failed_requests'', PInt (int (mv_failed mv))),
          (''requests_per_second'', PRat (fl_round3 fl (fl_div fl (of_nat (mv_total mv)) elapsed))),
          (''average_ms'', PRat (fl_round3 fl (fl_div fl (mv_latency_sum mv) (of_nat (mv_total mv))))),
          (''min_ms'', PRat (fl_round3 fl (optional (mv_minimum mv)))), (''max_ms'', PRat (fl_round3 fl (optional (mv_maximum mv)))),
          (''p50_ms'', PRat (percentile fl ordered (1/2))), (''p95_ms'', PRat (percentile fl ordered (95/100))),
          (''p99_ms'', PRat (percentile fl ordered (99/100))),
          (''status_counts'', PDict (map (\<lambda>(k, n). (PStr (show_int k), PInt (int n))) (sort_key fst (mv_statuses mv)))),
          (''error_counts'', PDict (map (\<lambda>(k, n). (PStr k, PInt (int n))) (sort_key fst (mv_errors mv))))]))"

definition summarize_scenarios :: "Floats \<Rightarrow> MetricValues \<Rightarrow> rat \<Rightarrow> pyval" where
  "summarize_scenarios fl mv elapsed =
     (if mv_total mv = 0 then the (dget (empty_metrics []) ''scenario_metrics'')
      else
        (let ordered = sort (mv_latencies mv) in text_entries
         [(''total_scenarios'', PInt (int (mv_total mv))), (''successful_scenarios'', PInt (int (mv_successful mv))),
          (''failed_scenarios'', PInt (int (mv_failed mv))),
          (''scenarios_per_second'', PRat (fl_round3 fl (fl_div fl (of_nat (mv_total mv)) elapsed))),
          (''average_ms'', PRat (fl_round3 fl (fl_div fl (mv_latency_sum mv) (of_nat (mv_total mv))))),
          (''min_ms'', PRat (fl_round3 fl (optional (mv_minimum mv)))), (''max_ms'', PRat (fl_round3 fl (optional (mv_maximum mv)))),
          (''p50_ms'', PRat (percentile fl ordered (1/2))), (''p95_ms'', PRat (percentile fl ordered (95/100))),
          (''p99_ms'', PRat (percentile fl ordered (99/100)))]))"

definition sample_value :: "ResponseSample \<Rightarrow> pyval" where
  "sample_value sm = text_entries
     [(''target'', PStr (sm_target sm)), (''status'', case sm_status sm of None \<Rightarrow> PNone | Some c \<Rightarrow> PInt c),
      (''latency_ms'', PRat (sm_latency_ms sm)), (''error'', case sm_error sm of None \<Rightarrow> PNone | Some e \<Rightarrow> PStr e),
      (''body'', sm_body sm), (''body_kind'', PStr (sm_body_kind sm)), (''truncated'', PBool (sm_truncated sm))]"

text \<open>\<open>fl_add fl now (- started)\<close> is the float subtraction \<open>now - self._started\<close>.\<close>

definition metrics_snapshot :: "Floats \<Rightarrow> rat \<Rightarrow> Metrics \<Rightarrow> params" where
  "metrics_snapshot fl now m =
     (let elapsed = max (fl_add fl now (- mx_started m)) (1 / 1000000) in
      summarize fl (mx_all m) elapsed @
      [(''target_metrics'', text_entries (map (\<lambda>(name, mv).
          (name, text_entries (summarize fl mv elapsed @ [(''target_metrics'', PDict [])]))) (mx_targets m))),
       (''scenario_metrics'', summarize_scenarios fl (mx_scenarios m) elapsed),
       (''response_samples'', text_entries [(''successful'', PList (map sample_value (mx_successful_samples m))),
          (''failed'', PList (map sample_value (mx_failed_samples m)))])])"

definition periodic_snapshot :: "Floats \<Rightarrow> rat \<Rightarrow> (Metrics, params option) pyop" where
  "periodic_snapshot fl now =
     bind (reads (\<lambda>m. fl_add fl now (- mx_last_snapshot m) < 1)) (\<lambda>recent.
     if recent then ret None
     else
       bind (writes (\<lambda>m. m\<lparr>mx_last_snapshot := now\<rparr>)) (\<lambda>_.
       reads (\<lambda>m. Some (metrics_snapshot fl now m))))"

section \<open>The workers of a load test in request mode\<close>

text \<open>
  Where a worker of \<open>execute\<close> stands: before the loop's condition, before the section that draws the next index, with an index
  whose request is under way, with a response to report, after the report, returned, or ended by an exception.
\<close>

datatype WorkerPhase =
    W_Loop | W_Take | W_Request nat | W_Report ResponseItem | W_After | W_Done
  | W_Crashed nat | W_Crashed_Report ResponseItem | W_Broken

text \<open>The variables the workers share, and beside them, for the statement only, the indexes whose result is in the metrics.\<close>

record ExecState =
  xs_sequence :: nat
  xs_metrics :: Metrics
  xs_workers :: "WorkerPhase list"
  xs_cancelled :: bool
  xs_reported :: "ResponseItem list"
  xs_handled :: "nat list"

definition worker_count :: "LoadTestRecord \<Rightarrow> int \<Rightarrow> nat" where
  "worker_count lt max_workers =
     (let workers = min (lt_concurrency lt) max_workers in
      nat (if lt_mode lt = LM_COUNT then min workers (lt_request_count lt) else workers))"

definition start_execution :: "LoadTestRecord \<Rightarrow> int \<Rightarrow> rat \<Rightarrow> ExecState" where
  "start_execution lt max_workers started =
     \<lparr>xs_sequence = 0, xs_metrics = make_metrics (map tg_name (lt_targets lt)) started,
      xs_workers = replicate (worker_count lt max_workers) W_Loop, xs_cancelled = False, xs_reported = [], xs_handled = []\<rparr>"

definition exhausted :: "LoadTestRecord \<Rightarrow> ExecState \<Rightarrow> bool" where
  "exhausted lt s \<longleftrightarrow> lt_mode lt = LM_COUNT \<and> int (xs_sequence s) \<ge> lt_request_count lt"

definition target_of :: "LoadTestRecord \<Rightarrow> nat \<Rightarrow> LoadTestTarget" where
  "target_of lt index = lt_targets lt ! (index mod length (lt_targets lt))"

text \<open>
  What a request comes to: \<open>attempt\<close> is the response with its status and captured body, or the exception that rendering the templates or
  the exchange raised. The result is the status, whether it is expected, the error and the details; \<open>None\<close> when the
  exception is not handled.
\<close>

definition request_errors :: "exn set" where
  "request_errors = {HTTPError, TypeError, ValueError, UnicodeError, LoadTestExecutionError}"

definition request_result ::
  "LoadTestTarget \<Rightarrow> (int \<times> ResponseDetails) res \<Rightarrow> (int option \<times> bool \<times> string option \<times> ResponseDetails option) option" where
  "request_result tg attempt =
     (case attempt of
        Inr (status, details) \<Rightarrow>
          (let success = status \<in> set (tg_expected_statuses tg) in
           Some (Some status, success, if success then None else Some ''unexpected_status'', Some details))
      | Inl e \<Rightarrow>
          if e = WorkflowExecutionError then Some (None, False, Some ''template_error'', None)
          else if e \<in> request_errors then Some (None, False, Some ''request_error'', None)
          else None)"

definition response_record ::
  "Floats \<Rightarrow> nat \<Rightarrow> string \<Rightarrow> bool \<Rightarrow> int option \<Rightarrow> rat \<Rightarrow> string option \<Rightarrow> ResponseDetails option \<Rightarrow> ResponseItem" where
  "response_record fl sequence target successful status latency error response =
     (let details = (case response of Some d \<Rightarrow> d
        | None \<Rightarrow> \<lparr>rd_body = None, rd_sample_body = PNone, rd_body_kind = ''unavailable'', rd_truncated = False, rd_body_bytes = 0\<rparr>) in
      \<lparr>ri_sequence = int sequence, ri_target = target, ri_successful = successful, ri_status = status,
       ri_latency_ms = Finite (fl_round3 fl latency), ri_error = error, ri_body = rd_body details,
       ri_body_kind = rd_body_kind details, ri_truncated = rd_truncated details, ri_body_bytes = rd_body_bytes details\<rparr>)"

definition set_phase :: "nat \<Rightarrow> WorkerPhase \<Rightarrow> ExecState \<Rightarrow> ExecState" where
  "set_phase w p s = s\<lparr>xs_workers := (xs_workers s)[w := p]\<rparr>"

text \<open>The section under \<open>sequence_lock\<close>; \<open>expired\<close> is the comparison of the clock with the deadline.\<close>

definition take_index :: "LoadTestRecord \<Rightarrow> nat \<Rightarrow> bool \<Rightarrow> ExecState \<Rightarrow> ExecState" where
  "take_index lt w expired s =
     (if exhausted lt s \<or> lt_mode lt = LM_DURATION \<and> expired then set_phase w W_Done s
      else set_phase w (W_Request (xs_sequence s)) (s\<lparr>xs_sequence := xs_sequence s + 1\<rparr>))"

definition finish_request ::
  "Floats \<Rightarrow> LoadTestRecord \<Rightarrow> nat \<Rightarrow> nat \<Rightarrow> (int \<times> ResponseDetails) res \<Rightarrow> rat \<Rightarrow> nat \<times> nat \<Rightarrow> ExecState \<Rightarrow> ExecState" where
  "finish_request fl lt w index attempt latency draws s =
     (case request_result (target_of lt index) attempt of
        None \<Rightarrow> set_phase w (W_Crashed index) s
      | Some (status, success, error, response) \<Rightarrow>
          (let name = tg_name (target_of lt index) in
           case metrics_add fl draws name latency success status error response (xs_metrics s) of
             (Inl _, m) \<Rightarrow> set_phase w (W_Crashed index) (s\<lparr>xs_metrics := m\<rparr>)
           | (Inr n, m) \<Rightarrow>
               set_phase w (W_Report (response_record fl n name success status latency error response))
                 (s\<lparr>xs_metrics := m, xs_handled := xs_handled s @ [index]\<rparr>)))"

definition after_report :: "Floats \<Rightarrow> LoadTestRecord \<Rightarrow> nat \<Rightarrow> rat \<Rightarrow> bool \<Rightarrow> ExecState \<Rightarrow> ExecState" where
  "after_report fl lt w now waited s =
     (let s = s\<lparr>xs_metrics := snd (periodic_snapshot fl now (xs_metrics s))\<rparr> in
      if exhausted lt s then set_phase w W_Done s
      else if waited \<and> xs_cancelled s then set_phase w W_Done s
      else set_phase w W_Loop s)"

inductive exec_step :: "Floats \<Rightarrow> LoadTestRecord \<Rightarrow> ExecState \<Rightarrow> ExecState \<Rightarrow> bool"
  for fl :: Floats and lt :: LoadTestRecord where
  x_cancel: "\<not> xs_cancelled s \<Longrightarrow> exec_step fl lt s (s\<lparr>xs_cancelled := True\<rparr>)"
| x_loop: "w < length (xs_workers s) \<Longrightarrow> xs_workers s ! w = W_Loop \<Longrightarrow>
     exec_step fl lt s (set_phase w (if xs_cancelled s then W_Done else W_Take) s)"
| x_take: "w < length (xs_workers s) \<Longrightarrow> xs_workers s ! w = W_Take \<Longrightarrow> exec_step fl lt s (take_index lt w expired s)"
| x_request: "w < length (xs_workers s) \<Longrightarrow> xs_workers s ! w = W_Request index \<Longrightarrow>
     exec_step fl lt s (finish_request fl lt w index attempt latency draws s)"
| x_report: "w < length (xs_workers s) \<Longrightarrow> xs_workers s ! w = W_Report item \<Longrightarrow>
     exec_step fl lt s (set_phase w W_After (s\<lparr>xs_reported := xs_reported s @ [item]\<rparr>))"
| x_report_raises: "w < length (xs_workers s) \<Longrightarrow> xs_workers s ! w = W_Report item \<Longrightarrow>
     exec_step fl lt s (set_phase w (W_Crashed_Report item) s)"
| x_after: "w < length (xs_workers s) \<Longrightarrow> xs_workers s ! w = W_After \<Longrightarrow> exec_step fl lt s (after_report fl lt w now waited s)"
| x_snapshot_raises: "w < length (xs_workers s) \<Longrightarrow> xs_workers s ! w = W_After \<Longrightarrow>
     exec_step fl lt s (set_phase w W_Broken (s\<lparr>xs_metrics := snd (periodic_snapshot fl now (xs_metrics s))\<rparr>))"

text \<open>\<open>execute\<close> returns the snapshot of the metrics when no worker ended by an exception.\<close>

definition execution_returns :: "ExecState \<Rightarrow> bool" where
  "execution_returns s \<longleftrightarrow> list_all (\<lambda>p. p = W_Done) (xs_workers s)"

end
