(* ===== verification/Load_Service.thy ===== *)
theory Load_Service
  imports Load_Test_Facts "HOL-Library.Multiset"
begin

text \<open>
  The service that executes load tests: \<open>services/api/load_test_service.py\<close>.
\<close>

section \<open>The service\<close>

text \<open>
  A submitted execution: the definition read by \<open>start_run\<close>, whether the pool has begun it, and the variables of
  \<open>_execute\<close>. The cancellation events are the values of \<open>_cancellations\<close>.
\<close>

record LoadJob =
  lj_definition :: LoadTestRecord
  lj_begun :: bool
  lj_latest :: params
  lj_pending :: "ResponseItem list"

record LoadService =
  ls_repo :: LoadTestRepo
  ls_cancellations :: "(uuid, bool) dict"
  ls_stopped :: bool
  ls_jobs :: "(uuid, LoadJob) dict"

definition make_load_service :: "LoadTestRepo \<Rightarrow> int \<Rightarrow> LoadService res" where
  "make_load_service repository max_active_runs =
     rbind (guard (\<not> (1 \<le> max_active_runs \<and> max_active_runs \<le> 32)) ValueError) (\<lambda>_.
     Inr \<lparr>ls_repo = repository, ls_cancellations = [], ls_stopped = False, ls_jobs = []\<rparr>)"

text \<open>A call of the repository.\<close>

definition on_repo :: "(LoadTestRepo, 'a) pyop \<Rightarrow> (LoadService, 'a) pyop" where
  "on_repo m s = (case m (ls_repo s) of (r, repo) \<Rightarrow> (r, s\<lparr>ls_repo := repo\<rparr>))"

text \<open>\<open>try: m finally: f\<close> for a clean-up that does not raise.\<close>

definition finally_do :: "('s, 'a) pyop \<Rightarrow> ('s \<Rightarrow> 's) \<Rightarrow> ('s, 'a) pyop" where
  "finally_do m f s = (case m s of (r, t) \<Rightarrow> (r, f t))"

definition recover_interrupted_runs :: "time \<Rightarrow> (LoadService, nat) pyop" where
  "recover_interrupted_runs now = on_repo (recover_running_runs ''Load test execution interrupted by service restart'' now)"

definition fail_load_run :: "uuid \<Rightarrow> string \<Rightarrow> time \<Rightarrow> (LoadService, unit) pyop" where
  "fail_load_run run_id message now =
     bind (on_repo (get_load_run run_id)) (\<lambda>run.
     bind (on_repo (update_load_run run_id LR_FAILED (lr_metrics run) (Some message) (Some now))) (\<lambda>_. ret ()))"

text \<open>\<open>submitted\<close> tells whether the pool accepts the execution.\<close>

definition start_run :: "uuid \<Rightarrow> bool \<Rightarrow> uuid \<Rightarrow> time \<Rightarrow> time \<Rightarrow> (LoadService, LoadTestRunRecord) pyop" where
  "start_run load_test_id submitted fresh now later =
     bind (on_repo (get_load_test load_test_id)) (\<lambda>definition.
     bind (reads ls_stopped) (\<lambda>stopped.
     if stopped then raise RuntimeError
     else
       bind (on_repo (create_load_run load_test_id fresh now)) (\<lambda>run.
       bind (writes (\<lambda>s. s\<lparr>ls_cancellations := dset (lr_id run) False (ls_cancellations s)\<rparr>)) (\<lambda>_.
       if submitted
       then
         bind (writes (\<lambda>s. s\<lparr>ls_jobs := dset (lr_id run)
            \<lparr>lj_definition = definition, lj_begun = False, lj_latest = [], lj_pending = []\<rparr> (ls_jobs s)\<rparr>)) (\<lambda>_. ret run)
       else
         bind (writes (\<lambda>s. s\<lparr>ls_cancellations := ddel (lr_id run) (ls_cancellations s)\<rparr>)) (\<lambda>_.
         bind (fail_load_run (lr_id run) ''Load test execution unavailable'' later) (\<lambda>_.
         on_repo (get_load_run (lr_id run))))))))"

definition cancel_load_run :: "uuid \<Rightarrow> (LoadService, LoadTestRunRecord) pyop" where
  "cancel_load_run run_id =
     bind (on_repo (get_load_run run_id)) (\<lambda>run.
     if lr_status run \<noteq> LR_RUNNING then ret run
     else
       bind (writes (\<lambda>s. if dget (ls_cancellations s) run_id = None then s
          else s\<lparr>ls_cancellations := dset run_id True (ls_cancellations s)\<rparr>)) (\<lambda>_.
       on_repo (get_load_run run_id)))"

text \<open>Setting every event; that the pool is then waited for is in the steps that follow.\<close>

definition shutdown_service :: "(LoadService, unit) pyop" where
  "shutdown_service = writes (\<lambda>s. s\<lparr>ls_stopped := True,
     ls_cancellations := map (\<lambda>(k, _). (k, True)) (ls_cancellations s)\<rparr>)"

section \<open>One execution\<close>

definition is_cancelled :: "uuid \<Rightarrow> LoadService \<Rightarrow> bool" where
  "is_cancelled run_id s \<longleftrightarrow> dget (ls_cancellations s) run_id = Some True"

definition set_job :: "uuid \<Rightarrow> LoadJob \<Rightarrow> LoadService \<Rightarrow> LoadService" where
  "set_job run_id job s = s\<lparr>ls_jobs := dset run_id job (ls_jobs s)\<rparr>"

definition drop_job :: "uuid \<Rightarrow> LoadService \<Rightarrow> LoadService" where
  "drop_job run_id s = s\<lparr>ls_jobs := ddel run_id (ls_jobs s)\<rparr>"

text \<open>The first line of \<open>_execute\<close>; an exception there ends the execution.\<close>

definition execute_begin :: "uuid \<Rightarrow> LoadJob \<Rightarrow> (LoadService, unit) pyop" where
  "execute_begin run_id job s = (case on_repo (get_load_run run_id) s of
     (Inl e, t) \<Rightarrow> (Inl e, drop_job run_id t)
   | (Inr run, t) \<Rightarrow> (Inr (), set_job run_id (job\<lparr>lj_begun := True, lj_latest := lr_metrics run\<rparr>) t))"

definition total_requests :: "params \<Rightarrow> int res" where
  "total_requests metrics = (case dget metrics ''total_requests'' of Some (PInt n) \<Rightarrow> Inr n | _ \<Rightarrow> Inl KeyError)"

definition execute_snapshot :: "uuid \<Rightarrow> LoadJob \<Rightarrow> params \<Rightarrow> (LoadService, unit) pyop" where
  "execute_snapshot run_id job metrics =
     bind (reads (is_cancelled run_id)) (\<lambda>cancelled.
     if cancelled then ret ()
     else
       bind (lift (total_requests metrics)) (\<lambda>new.
       bind (lift (total_requests (lj_latest job))) (\<lambda>old.
       if new \<le> old then ret ()
       else
         bind (on_repo (update_load_run run_id LR_RUNNING metrics None None)) (\<lambda>_.
         writes (set_job run_id (job\<lparr>lj_latest := metrics\<rparr>))))))"

definition execute_response :: "uuid \<Rightarrow> LoadJob \<Rightarrow> ResponseItem \<Rightarrow> (nat \<Rightarrow> uuid) \<Rightarrow> time \<Rightarrow> (LoadService, unit) pyop" where
  "execute_response run_id job item ids now =
     (let pending = lj_pending job @ [item] in
      if length pending \<ge> 50
      then
        bind (writes (set_job run_id (job\<lparr>lj_pending := []\<rparr>))) (\<lambda>_.
        bind (on_repo (add_run_responses run_id pending ids now)) (\<lambda>_. ret ()))
      else writes (set_job run_id (job\<lparr>lj_pending := pending\<rparr>)))"

definition flush_responses :: "uuid \<Rightarrow> (nat \<Rightarrow> uuid) \<Rightarrow> time \<Rightarrow> (LoadService, unit) pyop" where
  "flush_responses run_id ids now s =
     (case dget (ls_jobs s) run_id of
        None \<Rightarrow> (Inr (), s)
      | Some job \<Rightarrow>
          if lj_pending job = [] then (Inr (), s)
          else
            (bind (writes (set_job run_id (job\<lparr>lj_pending := []\<rparr>))) (\<lambda>_.
             bind (on_repo (add_run_responses run_id (lj_pending job) ids now)) (\<lambda>_. ret ()))) s)"

text \<open>
  The rest of \<open>_execute\<close>. \<open>outcome\<close> is what resolving the credentials and the executor came to, with the text of a
  \<open>LoadTestExecutionError\<close>; the event is read once for the status and once for the message, and \<open>late\<close> tells whether it
  was set in between.
\<close>

definition execute_finish ::
  "uuid \<Rightarrow> LoadJob \<Rightarrow> params res \<Rightarrow> string \<Rightarrow> bool \<Rightarrow> (nat \<Rightarrow> uuid) \<Rightarrow> time \<Rightarrow> (LoadService, unit) pyop" where
  "execute_finish run_id job outcome message late ids now =
     finally_do
       (catch
         (bind (lift outcome) (\<lambda>metrics.
          bind (flush_responses run_id ids now) (\<lambda>_.
          bind (reads (is_cancelled run_id)) (\<lambda>cancelled.
          bind (on_repo (update_load_run run_id (if cancelled then LR_FAILED else LR_SUCCEEDED) metrics
            (if cancelled \<or> late then Some ''Load test execution cancelled'' else None) (Some now))) (\<lambda>_. ret ())))))
         (\<lambda>e.
          bind (flush_responses run_id ids now) (\<lambda>_.
          bind (on_repo (update_load_run run_id LR_FAILED (lj_latest job)
            (Some (if e = LoadTestExecutionError then message else ''Load test execution failed'')) (Some now))) (\<lambda>_. ret ()))))
       (\<lambda>s. drop_job run_id (s\<lparr>ls_cancellations := ddel run_id (ls_cancellations s)\<rparr>))"

section \<open>Steps\<close>

text \<open>
  What can happen in any order while the service runs: changes of the definitions, starting and cancelling runs, shutting down, and for
  every submitted execution its beginning, the callbacks of the executor and its end. Beside the service, for the statement only,
  the responses the executor has delivered for each run.
\<close>

type_synonym delivered = "uuid \<Rightarrow> ResponseItem list"

inductive service_step :: "(pyval \<Rightarrow> int) \<Rightarrow> delivered \<times> LoadService \<Rightarrow> delivered \<times> LoadService \<Rightarrow> bool"
  for jb :: "pyval \<Rightarrow> int" where
  v_create: "dget (lo_definitions (ls_repo s)) fresh = None \<Longrightarrow>
     service_step jb (g, s) (g, snd (on_repo (create_load_test jb p inp fresh now) s))"
| v_update: "service_step jb (g, s) (g, snd (on_repo (update_load_test jb i inp v now) s))"
| v_delete: "service_step jb (g, s) (g, snd (on_repo (delete_load_test i) s))"
| v_start: "dget (lo_runs (ls_repo s)) fresh = None \<Longrightarrow>
     service_step jb (g, s) (g(fresh := []), snd (start_run i submitted fresh now later s))"
| v_cancel: "service_step jb (g, s) (g, snd (cancel_load_run k s))"
| v_shutdown: "service_step jb (g, s) (g, snd (shutdown_service s))"
| v_begin: "dget (ls_jobs s) k = Some job \<Longrightarrow> \<not> lj_begun job \<Longrightarrow> service_step jb (g, s) (g, snd (execute_begin k job s))"
| v_snapshot: "dget (ls_jobs s) k = Some job \<Longrightarrow> lj_begun job \<Longrightarrow>
     service_step jb (g, s) (g, snd (execute_snapshot k job metrics s))"
| v_response: "dget (ls_jobs s) k = Some job \<Longrightarrow> lj_begun job \<Longrightarrow>
     service_step jb (g, s) (g(k := g k @ [item]), snd (execute_response k job item ids now s))"
| v_finish: "dget (ls_jobs s) k = Some job \<Longrightarrow> lj_begun job \<Longrightarrow>
     service_step jb (g, s) (g, snd (execute_finish k job outcome message late ids now s))"

end
