(* ===== verification/Load_Service_Facts.thy ===== *)
theory Load_Service_Facts
  imports Load_Service
begin

text \<open>
  The executions of the load test service agree with the running runs of its repository, and each closes its run with every
  response stored.
\<close>

section \<open>Running runs and their executions\<close>

definition running :: "LoadTestRepo \<Rightarrow> uuid \<Rightarrow> bool" where
  "running r k \<longleftrightarrow> (\<exists>run. dget (lo_runs r) k = Some run \<and> lr_status run = LR_RUNNING)"

text \<open>The repository changed, but for no active run.\<close>

definition quiet :: "LoadTestRepo \<Rightarrow> LoadTestRepo \<Rightarrow> bool" where
  "quiet r t \<longleftrightarrow> load_inv t \<and> running t = running r \<and> (\<forall>k. running r k \<longrightarrow> dget (lo_responses t) k = dget (lo_responses r) k)"

lemma quiet_same: "load_inv t \<Longrightarrow> lo_runs t = lo_runs r \<Longrightarrow> lo_responses t = lo_responses r \<Longrightarrow> quiet r t"
  by (simp add: quiet_def running_def fun_eq_iff)

lemma quiet_definitions:
  assumes "load_inv r"
  shows "dget (lo_definitions r) fresh = None \<Longrightarrow> quiet r (snd (create_load_test jb p inp fresh now r))"
    "quiet r (snd (update_load_test jb i inp v now r))"
proof -
  show "quiet r (snd (create_load_test jb p inp fresh now r))" if "dget (lo_definitions r) fresh = None"
    using load_inv_step [OF l_create [OF that] assms, of jb p inp now] create_load_test_cases [of jb p inp fresh now r]
    by (auto intro!: quiet_same)
  show "quiet r (snd (update_load_test jb i inp v now r))"
  proof (rule quiet_same [OF load_inv_step [OF l_update assms]])
    show "lo_runs (snd (update_load_test jb i inp v now r)) = lo_runs r"
      "lo_responses (snd (update_load_test jb i inp v now r)) = lo_responses r"
      using update_load_test_Inl [of jb i inp v now r] update_load_test_Inr [of jb i inp v now r]
      by (cases "update_load_test jb i inp v now r"; cases "fst (update_load_test jb i inp v now r)"; fastforce)+
  qed
qed

lemma quiet_delete:
  assumes "load_inv r"
  shows "quiet r (snd (delete_load_test i r))"
proof -
  have wf: "wf_dict (lo_runs r)" using assms by (simp add: load_inv_def runs_ok_def)
  from delete_load_test_cases [of i r] show ?thesis
  proof (elim disjE exE conjE)
    fix x assume idle: "active_run i r = None" and t: "delete_load_test i r = (Inr (), r\<lparr>lo_definitions := ddel i (lo_definitions r),
        lo_names := ddel (load_key x) (lo_names r),
        lo_runs := filter (\<lambda>(_, run). lr_load_test_id run \<noteq> i) (lo_runs r),
        lo_responses := filter (\<lambda>(key, _). key \<notin> set (dkeys (filter (\<lambda>(_, run). lr_load_test_id run = i) (lo_runs r)))) (lo_responses r)\<rparr>)"
    note idle = active_run_None [OF wf, THEN iffD1, OF idle, rule_format]
    have "running (snd (delete_load_test i r)) k \<longleftrightarrow> running r k" for k
      using idle [of k] by (auto simp: t running_def dget_filter_values [OF wf, of "\<lambda>run. lr_load_test_id run \<noteq> i"] split: option.splits)
    moreover have "dget (lo_responses (snd (delete_load_test i r))) k = dget (lo_responses r) k" if "running r k" for k
    proof -
      from that idle [of k] have "k \<notin> set (dkeys (filter (\<lambda>(_, run). lr_load_test_id run = i) (lo_runs r)))"
        by (auto simp: running_def wf_dget_iff [OF wf, symmetric])
      then show ?thesis by (simp add: t dget_filter_keys [of "\<lambda>key. key \<notin> fst ` {x \<in> set (lo_runs r). case x of (_, run) \<Rightarrow> lr_load_test_id run = i}"])
    qed
    ultimately show ?thesis using load_inv_step [OF l_delete [where i = i] assms] by (simp add: quiet_def fun_eq_iff)
  qed (use assms in \<open>simp add: quiet_same\<close>)
qed

lemma update_load_run_running:
  assumes "load_inv r" "running r k"
  obtains run where "dget (lo_runs r) k = Some run" "lr_status run = LR_RUNNING"
    "update_load_run k st metrics err fin r =
      (Inr (run\<lparr>lr_status := st, lr_finished_at := fin, lr_metrics := metrics, lr_error_message := err\<rparr>),
       r\<lparr>lo_runs := dset k (run\<lparr>lr_status := st, lr_finished_at := fin, lr_metrics := metrics, lr_error_message := err\<rparr>) (lo_runs r)\<rparr>)"
    "load_inv (r\<lparr>lo_runs := dset k (run\<lparr>lr_status := st, lr_finished_at := fin, lr_metrics := metrics, lr_error_message := err\<rparr>) (lo_runs r)\<rparr>)"
proof -
  from assms(2) obtain run where run: "dget (lo_runs r) k = Some run" "lr_status run = LR_RUNNING" by (auto simp: running_def)
  have u: "update_load_run k st metrics err fin r =
      (Inr (run\<lparr>lr_status := st, lr_finished_at := fin, lr_metrics := metrics, lr_error_message := err\<rparr>),
       r\<lparr>lo_runs := dset k (run\<lparr>lr_status := st, lr_finished_at := fin, lr_metrics := metrics, lr_error_message := err\<rparr>) (lo_runs r)\<rparr>)"
    using run by (cases run) (simp add: update_load_run_def bind_def get_load_run_def Let_def)
  from load_inv_step [OF l_update_run [where k = k and st = st and metrics = metrics and err = err and fin = fin] assms(1)] u that [OF run u] show thesis by simp
qed

lemma add_run_responses_running:
  assumes "load_inv r" "running r k"
  obtains records rs where "dget (lo_responses r) k = Some rs" "map rr_item records = items"
    "add_run_responses k items ids now r = (Inr records, r\<lparr>lo_responses := dset k
        (sort_key (\<lambda>r. ri_sequence (rr_item r)) (rs @ records)) (lo_responses r)\<rparr>)"
    "load_inv (r\<lparr>lo_responses := dset k (sort_key (\<lambda>r. ri_sequence (rr_item r)) (rs @ records)) (lo_responses r)\<rparr>)"
proof -
  from assms(2) obtain run where run: "dget (lo_runs r) k = Some run" by (auto simp: running_def)
  from assms(1) have "runs_ok r" by (simp add: load_inv_def)
  from runs_okD(3) [OF this run] obtain rs where rs: "dget (lo_responses r) k = Some rs" by blast
  from add_run_responses_cases [of k items ids now r] show thesis
  proof (elim disjE exE conjE)
    fix e assume "add_run_responses k items ids now r = (Inl e, r)"
    with run show thesis by (simp add: add_run_responses_def bind_def get_load_run_def Let_def)
  next
    fix x records assume "map rr_item records = items" and a: "add_run_responses k items ids now r = (Inr records, r\<lparr>lo_responses := dset k
        (sort_key (\<lambda>r. ri_sequence (rr_item r)) ((case dget (lo_responses r) k of None \<Rightarrow> [] | Some old \<Rightarrow> old) @ records)) (lo_responses r)\<rparr>)"
    with load_inv_step [OF l_responses [where k = k and items = items and ids = ids and now = now] assms(1)] that [OF rs this(1)] rs show thesis by simp
  qed
qed

definition service_inv :: "delivered \<times> LoadService \<Rightarrow> bool" where
  "service_inv = (\<lambda>(g, s). load_inv (ls_repo s) \<and>
     (\<forall>k. dget (ls_jobs s) k \<noteq> None \<longleftrightarrow> running (ls_repo s) k) \<and>
     (\<forall>k. dget (ls_cancellations s) k \<noteq> None \<longleftrightarrow> running (ls_repo s) k) \<and>
     (\<forall>k job rs. dget (ls_jobs s) k = Some job \<longrightarrow> dget (lo_responses (ls_repo s)) k = Some rs \<longrightarrow>
        mset (map rr_item rs) + mset (lj_pending job) = mset (g k)))"

lemma service_invD:
  assumes "service_inv (g, s)"
  shows "load_inv (ls_repo s)" "dget (ls_jobs s) k \<noteq> None \<longleftrightarrow> running (ls_repo s) k"
    "dget (ls_cancellations s) k \<noteq> None \<longleftrightarrow> running (ls_repo s) k"
    "dget (ls_jobs s) k = Some job \<Longrightarrow> dget (lo_responses (ls_repo s)) k = Some rs \<Longrightarrow>
       mset (map rr_item rs) + mset (lj_pending job) = mset (g k)"
  using assms by (simp_all add: service_inv_def)

lemma service_invI:
  assumes "load_inv (ls_repo s)" "\<And>k. dget (ls_jobs s) k \<noteq> None \<longleftrightarrow> running (ls_repo s) k"
    "\<And>k. dget (ls_cancellations s) k \<noteq> None \<longleftrightarrow> running (ls_repo s) k"
    "\<And>k job rs. dget (ls_jobs s) k = Some job \<Longrightarrow> dget (lo_responses (ls_repo s)) k = Some rs \<Longrightarrow>
       mset (map rr_item rs) + mset (lj_pending job) = mset (g k)"
  shows "service_inv (g, s)"
  unfolding service_inv_def using assms by simp

lemma service_job_running: "service_inv (g, s) \<Longrightarrow> dget (ls_jobs s) k = Some job \<Longrightarrow> running (ls_repo s) k"
  using service_invD(2) [of g s k] by simp

lemma service_quiet:
  assumes "service_inv (g, s)" "quiet (ls_repo s) r"
  shows "service_inv (g, s\<lparr>ls_repo := r\<rparr>)"
proof (rule service_invI)
  note q = assms(2) [unfolded quiet_def]
  show "load_inv (ls_repo (s\<lparr>ls_repo := r\<rparr>))" using q by simp
  show "dget (ls_jobs (s\<lparr>ls_repo := r\<rparr>)) k \<noteq> None \<longleftrightarrow> running (ls_repo (s\<lparr>ls_repo := r\<rparr>)) k"
    "dget (ls_cancellations (s\<lparr>ls_repo := r\<rparr>)) k \<noteq> None \<longleftrightarrow> running (ls_repo (s\<lparr>ls_repo := r\<rparr>)) k" for k
    using q service_invD(2,3) [OF assms(1), of k] by simp_all
  fix k job rs assume "dget (ls_jobs (s\<lparr>ls_repo := r\<rparr>)) k = Some job" "dget (lo_responses (ls_repo (s\<lparr>ls_repo := r\<rparr>))) k = Some rs"
  with q service_job_running [OF assms(1), of k job] service_invD(4) [OF assms(1), of k job rs]
  show "mset (map rr_item rs) + mset (lj_pending job) = mset (g k)" by simp
qed

lemma service_on_repo:
  "service_inv (g, s) \<Longrightarrow> quiet (ls_repo s) (snd (m (ls_repo s))) \<Longrightarrow> service_inv (g, snd (on_repo m s))"
  by (simp add: on_repo_def case_prod_beta service_quiet)

lemma service_cancellations:
  assumes "service_inv (g, s)" "\<And>k. dget c k = None \<longleftrightarrow> dget (ls_cancellations s) k = None"
  shows "service_inv (g, s\<lparr>ls_stopped := b, ls_cancellations := c\<rparr>)"
  using service_invD [OF assms(1)] assms(2) by (intro service_invI) simp_all

lemma service_set_job:
  assumes "service_inv (g, s)" "dget (ls_jobs s) k = Some job" "lj_pending job' = lj_pending job"
  shows "service_inv (g, set_job k job' s)"
proof (rule service_invI)
  fix j x rs assume "dget (ls_jobs (set_job k job' s)) j = Some x" "dget (lo_responses (ls_repo (set_job k job' s))) j = Some rs"
  with assms(2,3) service_invD(4) [OF assms(1), of j _ rs] show "mset (map rr_item rs) + mset (lj_pending x) = mset (g j)"
    by (auto simp: set_job_def dget_dset split: if_splits)
qed (use service_invD(1-3) [OF assms(1)] service_job_running [OF assms(1,2)] in \<open>auto simp: set_job_def dget_dset\<close>)

lemma service_store_batch:
  assumes inv: "service_inv (g, s)" and job: "dget (ls_jobs s) k = Some job" and items: "items = lj_pending job @ extra"
  obtains t where
    "bind (writes (set_job k (job\<lparr>lj_pending := []\<rparr>))) (\<lambda>_. bind (on_repo (add_run_responses k items ids now)) (\<lambda>_. ret ())) s = (Inr (), t)"
    "service_inv (g(k := g k @ extra), t)" "dget (ls_jobs t) k = Some (job\<lparr>lj_pending := []\<rparr>)"
    "ls_cancellations t = ls_cancellations s" "lo_runs (ls_repo t) = lo_runs (ls_repo s)"
proof -
  have run: "running (ls_repo s) k" by (rule service_job_running [OF inv job])
  obtain records rs where a: "dget (lo_responses (ls_repo s)) k = Some rs" "map rr_item records = items"
    "add_run_responses k items ids now (ls_repo s) = (Inr records, (ls_repo s)\<lparr>lo_responses := dset k
        (sort_key (\<lambda>r. ri_sequence (rr_item r)) (rs @ records)) (lo_responses (ls_repo s))\<rparr>)"
    "load_inv ((ls_repo s)\<lparr>lo_responses := dset k (sort_key (\<lambda>r. ri_sequence (rr_item r)) (rs @ records)) (lo_responses (ls_repo s))\<rparr>)"
    by (rule add_run_responses_running [OF service_invD(1) [OF inv] run])
  define t where "t = (set_job k (job\<lparr>lj_pending := []\<rparr>) s)\<lparr>ls_repo := (ls_repo s)\<lparr>lo_responses := dset k
        (sort_key (\<lambda>r. ri_sequence (rr_item r)) (rs @ records)) (lo_responses (ls_repo s))\<rparr>\<rparr>"
  have eff: "bind (writes (set_job k (job\<lparr>lj_pending := []\<rparr>))) (\<lambda>_. bind (on_repo (add_run_responses k items ids now)) (\<lambda>_. ret ())) s = (Inr (), t)"
    by (simp add: bind_def on_repo_def set_job_def a(3) t_def)
  have running: "running (ls_repo t) = running (ls_repo s)" by (simp add: t_def set_job_def running_def fun_eq_iff)
  have "service_inv (g(k := g k @ extra), t)"
  proof (rule service_invI)
    show "load_inv (ls_repo t)" using a(4) by (simp add: t_def)
    show "dget (ls_jobs t) j \<noteq> None \<longleftrightarrow> running (ls_repo t) j" "dget (ls_cancellations t) j \<noteq> None \<longleftrightarrow> running (ls_repo t) j" for j
      unfolding running using service_invD(2,3) [OF inv, of j] run by (auto simp: t_def set_job_def dget_dset)
    fix j x xs assume x: "dget (ls_jobs t) j = Some x" "dget (lo_responses (ls_repo t)) j = Some xs"
    show "mset (map rr_item xs) + mset (lj_pending x) = mset ((g(k := g k @ extra)) j)"
    proof (cases "j = k")
      case True
      with x have "xs = sort_key (\<lambda>r. ri_sequence (rr_item r)) (rs @ records)" "lj_pending x = []"
        by (auto simp: t_def set_job_def)
      moreover have "image_mset rr_item (mset records) = mset (lj_pending job) + mset extra"
        using a(2) items by (simp flip: mset_map)
      ultimately show ?thesis using True service_invD(4) [OF inv job a(1)] by (simp add: union_assoc [symmetric])
    next
      case False
      with x have "dget (ls_jobs s) j = Some x" "dget (lo_responses (ls_repo s)) j = Some xs" by (simp_all add: t_def set_job_def)
      from service_invD(4) [OF inv this] False show ?thesis by simp
    qed
  qed
  moreover have "dget (ls_jobs t) k = Some (job\<lparr>lj_pending := []\<rparr>)" "ls_cancellations t = ls_cancellations s"
    "lo_runs (ls_repo t) = lo_runs (ls_repo s)" by (simp_all add: t_def set_job_def)
  ultimately show thesis using that eff by blast
qed

lemma flush_responses_stores:
  assumes "service_inv (g, s)" "dget (ls_jobs s) k = Some job"
  obtains t where "flush_responses k ids now s = (Inr (), t)" "service_inv (g, t)"
    "dget (ls_jobs t) k = Some (job\<lparr>lj_pending := []\<rparr>)" "ls_cancellations t = ls_cancellations s"
    "lo_runs (ls_repo t) = lo_runs (ls_repo s)"
proof (cases "lj_pending job = []")
  case True
  then have "job\<lparr>lj_pending := []\<rparr> = job" by simp
  with True that [of s] assms show thesis by (simp add: flush_responses_def)
next
  case False
  obtain t where t: "bind (writes (set_job k (job\<lparr>lj_pending := []\<rparr>)))
        (\<lambda>_. bind (on_repo (add_run_responses k (lj_pending job) ids now)) (\<lambda>_. ret ())) s = (Inr (), t)"
    "service_inv (g(k := g k @ []), t)" "dget (ls_jobs t) k = Some (job\<lparr>lj_pending := []\<rparr>)"
    "ls_cancellations t = ls_cancellations s" "lo_runs (ls_repo t) = lo_runs (ls_repo s)"
    by (rule service_store_batch [OF assms, of "lj_pending job" "[]" ids now]) simp_all
  with False that [of t] assms(2) show thesis by (simp add: flush_responses_def)
qed

text \<open>Closing the run of an execution with nothing pending and forgetting the execution.\<close>

definition closed_run :: "LoadTestRunRecord \<Rightarrow> LoadTestRunStatus \<Rightarrow> params \<Rightarrow> string option \<Rightarrow> time \<Rightarrow> LoadTestRunRecord" where
  "closed_run run st metrics err now = run\<lparr>lr_status := st, lr_finished_at := Some now, lr_metrics := metrics, lr_error_message := err\<rparr>"

lemma service_close:
  assumes inv: "service_inv (g, s)" and job: "dget (ls_jobs s) k = Some job" "lj_pending job = []" and st: "st \<noteq> LR_RUNNING"
  obtains run rs t where "dget (lo_runs (ls_repo s)) k = Some run" "lr_status run = LR_RUNNING"
    "on_repo (update_load_run k st metrics err (Some now)) s = (Inr (closed_run run st metrics err now), t)"
    "dget (lo_runs (ls_repo t)) k = Some (closed_run run st metrics err now)"
    "dget (lo_responses (ls_repo t)) k = Some rs" "mset (map rr_item rs) = mset (g k)"
    "service_inv (g, drop_job k (t\<lparr>ls_cancellations := ddel k (ls_cancellations t)\<rparr>))"
proof -
  have run: "running (ls_repo s) k" by (rule service_job_running [OF inv job(1)])
  obtain run where u: "dget (lo_runs (ls_repo s)) k = Some run" "lr_status run = LR_RUNNING"
    "update_load_run k st metrics err (Some now) (ls_repo s) = (Inr (closed_run run st metrics err now),
       (ls_repo s)\<lparr>lo_runs := dset k (closed_run run st metrics err now) (lo_runs (ls_repo s))\<rparr>)"
    "load_inv ((ls_repo s)\<lparr>lo_runs := dset k (closed_run run st metrics err now) (lo_runs (ls_repo s))\<rparr>)"
    unfolding closed_run_def by (rule update_load_run_running [OF service_invD(1) [OF inv] run])
  define t where "t = s\<lparr>ls_repo := (ls_repo s)\<lparr>lo_runs := dset k (closed_run run st metrics err now) (lo_runs (ls_repo s))\<rparr>\<rparr>"
  have "runs_ok (ls_repo s)" using service_invD(1) [OF inv] by (simp add: load_inv_def)
  from runs_okD(3) [OF this u(1)] obtain rs where rs: "dget (lo_responses (ls_repo s)) k = Some rs" by blast
  have running: "running (ls_repo t) j \<longleftrightarrow> running (ls_repo s) j \<and> j \<noteq> k" for j
    using st by (auto simp: running_def t_def dget_dset closed_run_def)
  have "service_inv (g, drop_job k (t\<lparr>ls_cancellations := ddel k (ls_cancellations t)\<rparr>))"
  proof (rule service_invI)
    let ?t = "drop_job k (t\<lparr>ls_cancellations := ddel k (ls_cancellations t)\<rparr>)"
    show "load_inv (ls_repo ?t)" using u(4) by (simp add: drop_job_def t_def)
    show "dget (ls_jobs ?t) j \<noteq> None \<longleftrightarrow> running (ls_repo ?t) j" for j
      using service_invD(2) [OF inv, of j] running [of j] by (simp add: drop_job_def delete_conv) (simp add: t_def)
    show "dget (ls_cancellations ?t) j \<noteq> None \<longleftrightarrow> running (ls_repo ?t) j" for j
      using service_invD(3) [OF inv, of j] running [of j] by (simp add: drop_job_def delete_conv) (simp add: t_def)
    fix j x xs assume "dget (ls_jobs ?t) j = Some x" "dget (lo_responses (ls_repo ?t)) j = Some xs"
    then show "mset (map rr_item xs) + mset (lj_pending x) = mset (g j)"
      using service_invD(4) [OF inv, of j x xs] by (simp add: drop_job_def t_def delete_conv split: if_splits)
  qed
  moreover have "mset (map rr_item rs) = mset (g k)" using service_invD(4) [OF inv job(1) rs] job(2) by simp
  ultimately show thesis using that [OF u(1,2), of t rs] u(3) rs by (simp add: on_repo_def t_def)
qed

text \<open>What the end of an execution does, whatever its outcome.\<close>

lemma execute_finish_closes:
  assumes inv: "service_inv (g, s)" and job: "dget (ls_jobs s) k = Some job"
  obtains run rs t where "execute_finish k job outcome message late ids now s = (Inr (), t)" "service_inv (g, t)"
    "dget (lo_runs (ls_repo s)) k = Some run" "lr_status run = LR_RUNNING"
    "dget (lo_runs (ls_repo t)) k = Some (case outcome of
       Inr metrics \<Rightarrow> if is_cancelled k s then closed_run run LR_FAILED metrics (Some ''Load test execution cancelled'') now
         else closed_run run LR_SUCCEEDED metrics (if late then Some ''Load test execution cancelled'' else None) now
     | Inl e \<Rightarrow> closed_run run LR_FAILED (lj_latest job)
         (Some (if e = LoadTestExecutionError then message else ''Load test execution failed'')) now)"
    "dget (lo_responses (ls_repo t)) k = Some rs" "mset (map rr_item rs) = mset (g k)"
proof -
  obtain u where u: "flush_responses k ids now s = (Inr (), u)" "service_inv (g, u)"
    "dget (ls_jobs u) k = Some (job\<lparr>lj_pending := []\<rparr>)" "ls_cancellations u = ls_cancellations s"
    "lo_runs (ls_repo u) = lo_runs (ls_repo s)"
    by (rule flush_responses_stores [OF inv job])
  have c: "is_cancelled k u = is_cancelled k s" by (simp add: is_cancelled_def u(4))
  define st where "st = (case outcome of Inr _ \<Rightarrow> if is_cancelled k s then LR_FAILED else LR_SUCCEEDED | Inl _ \<Rightarrow> LR_FAILED)"
  define metrics where "metrics = (case outcome of Inr m \<Rightarrow> m | Inl _ \<Rightarrow> lj_latest job)"
  define err where "err = (case outcome of
       Inr _ \<Rightarrow> if is_cancelled k s \<or> late then Some ''Load test execution cancelled'' else None
     | Inl e \<Rightarrow> Some (if e = LoadTestExecutionError then message else ''Load test execution failed''))"
  have st: "st \<noteq> LR_RUNNING" by (simp add: st_def split: sum.split)
  have pending: "lj_pending (job\<lparr>lj_pending := []\<rparr>) = []" by simp
  obtain run rs t where t: "dget (lo_runs (ls_repo u)) k = Some run" "lr_status run = LR_RUNNING"
    "on_repo (update_load_run k st metrics err (Some now)) u = (Inr (closed_run run st metrics err now), t)"
    "dget (lo_runs (ls_repo t)) k = Some (closed_run run st metrics err now)"
    "dget (lo_responses (ls_repo t)) k = Some rs" "mset (map rr_item rs) = mset (g k)"
    "service_inv (g, drop_job k (t\<lparr>ls_cancellations := ddel k (ls_cancellations t)\<rparr>))"
    by (rule service_close [OF u(2,3) pending st])
  let ?t = "drop_job k (t\<lparr>ls_cancellations := ddel k (ls_cancellations t)\<rparr>)"
  have "execute_finish k job outcome message late ids now s = (Inr (), ?t)"
  proof (cases outcome)
    case (Inl e)
    with t(3) u(1) show ?thesis
      by (simp add: execute_finish_def finally_do_def catch_def bind_def st_def metrics_def err_def)
  next
    case (Inr m)
    with t(3) u(1) show ?thesis
      by (simp add: execute_finish_def finally_do_def catch_def bind_def st_def metrics_def err_def c)
  qed
  moreover have "closed_run run st metrics err now = (case outcome of
       Inr metrics \<Rightarrow> if is_cancelled k s then closed_run run LR_FAILED metrics (Some ''Load test execution cancelled'') now
         else closed_run run LR_SUCCEEDED metrics (if late then Some ''Load test execution cancelled'' else None) now
     | Inl e \<Rightarrow> closed_run run LR_FAILED (lj_latest job)
         (Some (if e = LoadTestExecutionError then message else ''Load test execution failed'')) now)"
    by (simp add: st_def metrics_def err_def split: sum.split)
  ultimately show thesis
    using that [of ?t run rs] t u(5) by (simp add: drop_job_def)
qed

lemma quiet_refl: "load_inv r \<Longrightarrow> quiet r r"
  by (simp add: quiet_same)

lemma get_load_run_pure [simp]: "snd (get_load_run k r) = r"
  by (simp add: get_load_run_def split: option.split)

lemma on_repo_get [simp]: "on_repo (get_load_run k) s =
    (case dget (lo_runs (ls_repo s)) k of None \<Rightarrow> Inl LoadTestRunNotFound | Some run \<Rightarrow> Inr run, s)"
  by (simp add: on_repo_def get_load_run_def split: option.split)

lemma service_begin:
  assumes "service_inv (g, s)" "dget (ls_jobs s) k = Some job"
  shows "service_inv (g, snd (execute_begin k job s))"
proof -
  from service_job_running [OF assms] obtain run where "dget (lo_runs (ls_repo s)) k = Some run" by (auto simp: running_def)
  then show ?thesis using service_set_job [OF assms] by (simp add: execute_begin_def)
qed

lemma service_snapshot:
  assumes "service_inv (g, s)" "dget (ls_jobs s) k = Some job"
  shows "service_inv (g, snd (execute_snapshot k job metrics s))"
proof -
  have run: "running (ls_repo s) k" by (rule service_job_running [OF assms])
  obtain run where u: "dget (lo_runs (ls_repo s)) k = Some run" "lr_status run = LR_RUNNING"
    "update_load_run k LR_RUNNING metrics None None (ls_repo s) =
      (Inr (run\<lparr>lr_status := LR_RUNNING, lr_finished_at := None, lr_metrics := metrics, lr_error_message := None\<rparr>),
       (ls_repo s)\<lparr>lo_runs := dset k (run\<lparr>lr_status := LR_RUNNING, lr_finished_at := None, lr_metrics := metrics, lr_error_message := None\<rparr>) (lo_runs (ls_repo s))\<rparr>)"
    "load_inv ((ls_repo s)\<lparr>lo_runs := dset k (run\<lparr>lr_status := LR_RUNNING, lr_finished_at := None, lr_metrics := metrics, lr_error_message := None\<rparr>) (lo_runs (ls_repo s))\<rparr>)"
    by (rule update_load_run_running [OF service_invD(1) [OF assms(1)] run])
  have "quiet (ls_repo s) (snd (update_load_run k LR_RUNNING metrics None None (ls_repo s)))"
    using u by (auto simp: quiet_def running_def fun_eq_iff dget_dset)
  note q = service_on_repo [of g s "update_load_run k LR_RUNNING metrics None None", OF assms(1) this]
  have "dget (ls_jobs (snd (on_repo (update_load_run k LR_RUNNING metrics None None) s))) k = Some job"
    by (simp add: on_repo_def u(3) assms(2))
  from service_set_job [OF q this, of "job\<lparr>lj_latest := metrics\<rparr>"] assms(1) show ?thesis
    by (cases "total_requests metrics"; cases "total_requests (lj_latest job)")
       (simp_all add: execute_snapshot_def bind_def on_repo_def u(3))
qed

lemma service_response:
  assumes "service_inv (g, s)" "dget (ls_jobs s) k = Some job"
  shows "service_inv (g(k := g k @ [item]), snd (execute_response k job item ids now s))"
proof (cases "length (lj_pending job @ [item]) \<ge> 50")
  case True
  obtain t where "bind (writes (set_job k (job\<lparr>lj_pending := []\<rparr>)))
        (\<lambda>_. bind (on_repo (add_run_responses k (lj_pending job @ [item]) ids now)) (\<lambda>_. ret ())) s = (Inr (), t)"
    "service_inv (g(k := g k @ [item]), t)"
    by (rule service_store_batch [OF assms refl])
  with True show ?thesis by (simp add: execute_response_def Let_def)
next
  case False
  have "service_inv (g(k := g k @ [item]), set_job k (job\<lparr>lj_pending := lj_pending job @ [item]\<rparr>) s)"
  proof (rule service_invI)
    fix j x rs assume "dget (ls_jobs (set_job k (job\<lparr>lj_pending := lj_pending job @ [item]\<rparr>) s)) j = Some x"
      "dget (lo_responses (ls_repo (set_job k (job\<lparr>lj_pending := lj_pending job @ [item]\<rparr>) s))) j = Some rs"
    with assms(2) service_invD(4) [OF assms(1), of j _ rs]
    show "mset (map rr_item rs) + mset (lj_pending x) = mset ((g(k := g k @ [item])) j)"
      by (auto simp: set_job_def dget_dset split: if_splits)
  qed (use service_invD(1-3) [OF assms(1)] service_job_running [OF assms] in \<open>auto simp: set_job_def dget_dset\<close>)
  with False show ?thesis by (simp add: execute_response_def Let_def)
qed

lemma service_cancel:
  assumes "service_inv (g, s)"
  shows "service_inv (g, snd (cancel_load_run k s))"
proof -
  have "service_inv (g, s\<lparr>ls_cancellations := dset k True (ls_cancellations s)\<rparr>)" if "dget (ls_cancellations s) k \<noteq> None"
    using service_cancellations [OF assms, of "dset k True (ls_cancellations s)" "ls_stopped s"] that by (simp add: dget_dset)
  with assms show ?thesis by (simp add: cancel_load_run_def bind_def split: option.split)
qed

lemma service_shutdown:
  assumes "service_inv (g, s)"
  shows "service_inv (g, snd (shutdown_service s))"
  using service_cancellations [OF assms, of "map (\<lambda>(k, _). (k, True)) (ls_cancellations s)" True]
  by (simp add: shutdown_service_def dget_map_values [of "\<lambda>_. True"])

lemma service_start:
  assumes inv: "service_inv (g, s)" and fresh: "dget (lo_runs (ls_repo s)) fresh = None"
  shows "service_inv (g(fresh := []), snd (start_run i submitted fresh now later s))"
proof -
  have idle: "\<not> running (ls_repo s) fresh" using fresh by (simp add: running_def)
  then have nojob: "dget (ls_jobs s) fresh = None" "dget (ls_cancellations s) fresh = None"
    using service_invD(2,3) [OF inv, of fresh] by simp_all
  have same: "service_inv (g(fresh := []), s)"
    using service_invD [OF inv] nojob by (intro service_invI) auto
  have pure: "on_repo (get_load_test i) s = (case dget (lo_definitions (ls_repo s)) i of None \<Rightarrow> Inl LoadTestNotFound | Some r \<Rightarrow> Inr r, s)"
    by (simp add: on_repo_def get_load_test_def split: option.split)
  from create_load_run_cases [of i fresh now "ls_repo s"] show ?thesis
  proof (elim disjE exE conjE)
    fix e assume "create_load_run i fresh now (ls_repo s) = (Inl e, ls_repo s)"
    with same show ?thesis
      by (cases "dget (lo_definitions (ls_repo s)) i"; cases "ls_stopped s") (simp_all add: start_run_def bind_def pure, simp add: on_repo_def)
  next
    fix r run assume r: "dget (lo_definitions (ls_repo s)) i = Some r" "lr_id run = fresh" "lr_status run = LR_RUNNING"
      "create_load_run i fresh now (ls_repo s) = (Inr run, (ls_repo s)\<lparr>lo_runs := dset fresh run (lo_runs (ls_repo s)),
         lo_responses := dset fresh [] (lo_responses (ls_repo s))\<rparr>)"
    let ?repo = "(ls_repo s)\<lparr>lo_runs := dset fresh run (lo_runs (ls_repo s)), lo_responses := dset fresh [] (lo_responses (ls_repo s))\<rparr>"
    let ?job = "\<lparr>lj_definition = r, lj_begun = False, lj_latest = [], lj_pending = []\<rparr> :: LoadJob"
    let ?t = "s\<lparr>ls_repo := ?repo, ls_cancellations := dset fresh False (ls_cancellations s), ls_jobs := dset fresh ?job (ls_jobs s)\<rparr>"
    have running: "running ?repo j \<longleftrightarrow> j = fresh \<or> running (ls_repo s) j" for j
      using r(3) by (auto simp: running_def dget_dset)
    have li: "load_inv ?repo" using load_inv_step [OF l_run [OF fresh, where i = i and now = now] service_invD(1) [OF inv]] r(4) by simp
    have begun: "service_inv (g(fresh := []), ?t)"
      using service_invD(2-4) [OF inv] running li by (intro service_invI) (auto simp: dget_dset split: if_splits)
    show ?thesis
    proof (cases submitted)
      case True
      with begun same r(1,2,4) show ?thesis by (cases "ls_stopped s") (simp_all add: start_run_def bind_def on_repo_def get_load_test_def)
    next
      case False
      have j: "dget (ls_jobs ?t) fresh = Some ?job" "lj_pending ?job = []" by simp_all
      let ?run = "closed_run run LR_FAILED (lr_metrics run) (Some ''Load test execution unavailable'') later"
      have "service_inv (g(fresh := []), drop_job fresh (?t\<lparr>ls_repo := ?repo\<lparr>lo_runs := dset fresh ?run (dset fresh run (lo_runs (ls_repo s)))\<rparr>,
          ls_cancellations := ddel fresh (dset fresh False (ls_cancellations s))\<rparr>))"
      proof (rule service_close [OF begun j, of LR_FAILED "lr_metrics run" "Some ''Load test execution unavailable''" later])
        fix x rs u assume x: "dget (lo_runs (ls_repo ?t)) fresh = Some x"
          "on_repo (update_load_run fresh LR_FAILED (lr_metrics run) (Some ''Load test execution unavailable'') (Some later)) ?t =
           (Inr (closed_run x LR_FAILED (lr_metrics run) (Some ''Load test execution unavailable'') later), u)"
          "service_inv (g(fresh := []), drop_job fresh (u\<lparr>ls_cancellations := ddel fresh (ls_cancellations u)\<rparr>))"
        from x(2) r(3) have "u = ?t\<lparr>ls_repo := ?repo\<lparr>lo_runs := dset fresh ?run (dset fresh run (lo_runs (ls_repo s)))\<rparr>\<rparr>"
          by (cases run) (auto simp: on_repo_def update_load_run_def bind_def get_load_run_def Let_def closed_run_def)
        with x(3) show ?thesis by simp
      qed simp
      moreover have "ddel fresh (dset fresh ?job (ls_jobs s)) = ls_jobs s"
        using nojob(1) by (simp add: delete_update_same map_of_eq_None_iff delete_id)
      moreover have "snd (start_run i submitted fresh now later s) =
        drop_job fresh (?t\<lparr>ls_repo := ?repo\<lparr>lo_runs := dset fresh ?run (dset fresh run (lo_runs (ls_repo s)))\<rparr>,
          ls_cancellations := ddel fresh (dset fresh False (ls_cancellations s))\<rparr>)" if "\<not> ls_stopped s"
        using False r calculation(2) that
        by (cases run, intro LoadService.equality)
           (auto simp: start_run_def fail_load_run_def bind_def on_repo_def update_load_run_def get_load_run_def get_load_test_def Let_def
             closed_run_def drop_job_def intro!: LoadTestRepo.equality)
      moreover have "service_inv (g(fresh := []), snd (start_run i submitted fresh now later s))" if "ls_stopped s"
        using same that r(1) by (simp add: start_run_def bind_def pure)
      ultimately show ?thesis by (cases "ls_stopped s") simp_all
    qed
  qed
qed

lemma service_step_inv:
  assumes "service_step jb x y" "service_inv x"
  shows "service_inv y"
  using assms
proof (induction rule: service_step.induct)
  case (v_create s fresh g p inp now)
  then show ?case by (intro service_on_repo quiet_definitions(1) service_invD(1)) auto
next
  case (v_update g s i inp v now)
  then show ?case by (intro service_on_repo quiet_definitions(2) service_invD(1)) auto
next
  case (v_delete g s i)
  then show ?case by (intro service_on_repo quiet_delete service_invD(1)) auto
next
  case (v_start s fresh g i submitted now later)
  then show ?case by (intro service_start)
next
  case (v_cancel g s k)
  then show ?case by (rule service_cancel)
next
  case (v_shutdown g s)
  then show ?case by (rule service_shutdown)
next
  case (v_begin s k job g)
  then show ?case by (intro service_begin)
next
  case (v_snapshot s k job g metrics)
  then show ?case by (intro service_snapshot)
next
  case (v_response s k job g item ids now)
  then show ?case by (intro service_response)
next
  case (v_finish s k job g outcome message late ids now)
  show ?case by (rule execute_finish_closes [OF v_finish(3,1), of outcome message late ids now]) simp
qed

text \<open>The service starts on any repository the operations can produce and closes what a former process left active.\<close>

definition started :: "(pyval \<Rightarrow> int) \<Rightarrow> LoadService \<Rightarrow> bool" where
  "started jb s \<longleftrightarrow> (\<exists>r n s0 now. (load_step jb)\<^sup>*\<^sup>* empty_load_tests r \<and> make_load_service r n = Inr s0 \<and>
     s = snd (recover_interrupted_runs now s0))"

lemma started_inv:
  assumes "started jb s"
  shows "service_inv (g, s)"
proof -
  from assms obtain r n s0 now where r: "(load_step jb)\<^sup>*\<^sup>* empty_load_tests r" "make_load_service r n = Inr s0"
    "s = snd (recover_interrupted_runs now s0)" by (auto simp: started_def)
  then have s0: "s0 = \<lparr>ls_repo = r, ls_cancellations = [], ls_stopped = False, ls_jobs = []\<rparr>" by (simp add: make_load_service_def)
  let ?m = "''Load test execution interrupted by service restart''"
  have s: "s = s0\<lparr>ls_repo := snd (recover_running_runs ?m now r)\<rparr>"
    by (simp add: r(3) recover_interrupted_runs_def on_repo_def s0 case_prod_beta)
  have "\<not> running (snd (recover_running_runs ?m now r)) k" for k
    by (auto simp: running_def recover_running_runs_result dget_map_values)
  moreover have "load_inv (snd (recover_running_runs ?m now r))"
    by (rule load_inv_step [OF l_recover load_inv_steps [OF r(1) load_inv_empty]])
  ultimately show ?thesis by (intro service_invI) (simp_all add: s s0)
qed

lemma service_reachable_inv:
  assumes "started jb s0" "(service_step jb)\<^sup>*\<^sup>* (g0, s0) x"
  shows "service_inv x"
  using assms(2) by (induction rule: rtranclp_induct) (auto intro: started_inv [OF assms(1)] service_step_inv)

section \<open>Properties\<close>

definition demo_target :: LoadTestTarget where
  "demo_target = \<lparr>tg_name = ''home'', tg_method = ''get'', tg_url = ''https://x/'', tg_headers = [], tg_query = [], tg_body = PNone,
     tg_expected_statuses = [200], tg_extractors = [], tg_think_time_ms = 0\<rparr>"

definition demo_load_input :: LoadTestInput where
  "demo_load_input = \<lparr>li_name = ''smoke'', li_description = [], li_targets = [demo_target],
     li_settings = \<lparr>st_mode = LM_COUNT, st_request_count = PInt 1, st_duration_seconds = PInt 1, st_concurrency = PInt 1,
       st_interval_ms = PInt 0, st_timeout_seconds = PInt 30\<rparr>,
     li_environment_id = None, li_traffic_mode = TM_REQUESTS, li_initial_variables = None, li_stop_on_failure = True, li_category = []\<rparr>"

definition demo_load_repo :: LoadTestRepo where
  "demo_load_repo = snd (create_load_test (\<lambda>_. 2) 7 demo_load_input 3 0 empty_load_tests)"

definition demo_service :: LoadService where
  "demo_service = snd (recover_interrupted_runs 1
     \<lparr>ls_repo = demo_load_repo, ls_cancellations = [], ls_stopped = False, ls_jobs = []\<rparr>)"

definition demo_item :: ResponseItem where
  "demo_item = \<lparr>ri_sequence = 1, ri_target = ''home'', ri_successful = True, ri_status = Some 200, ri_latency_ms = Finite 3,
     ri_error = None, ri_body = None, ri_body_kind = ''empty'', ri_truncated = False, ri_body_bytes = 0\<rparr>"

lemma demo_strips: "strip ''smoke'' = ''smoke''" "strip ''home'' = ''home''" "upper ''get'' = ''GET''" "strip [] = []"
  by code_simp+

lemma demo_load_input_ok:
  "normalize_input (\<lambda>_. 2) demo_load_input = Inr ([], ''smoke'', [], [demo_target\<lparr>tg_method := ''GET''\<rparr>],
     \<lparr>vs_mode = LM_COUNT, vs_request_count = 1, vs_duration_seconds = 1, vs_concurrency = 1, vs_interval_ms = 0, vs_timeout_seconds = 30\<rparr>)"
proof -
  have t: "validate_target (\<lambda>_. 2) demo_target = Inr (demo_target\<lparr>tg_method := ''GET''\<rparr>)"
    by (simp add: validate_target_def demo_target_def target_name_def demo_strips validate_method_def HTTP_METHODS_def Let_def
        validate_fields_def bounded_json_def validate_json_exact MAX_JSON_BYTES_def MAX_JSON_DEPTH_def MAX_OBJECT_ITEMS_def
        validate_statuses_def validate_extractors_def)
  have b: "bounded_json (\<lambda>_. 2) (PList (map target_value [demo_target\<lparr>tg_method := ''GET''\<rparr>])) =
      Inr (PList (map target_value [demo_target\<lparr>tg_method := ''GET''\<rparr>]))"
    by (simp add: bounded_json_def validate_json_exact MAX_JSON_BYTES_def MAX_JSON_DEPTH_def MAX_OBJECT_ITEMS_def target_value_def
        demo_target_def)
  have e: "bounded_json (\<lambda>_. 2) (PDict []) = Inr (PDict [])" "tg_extractors demo_target = []"
    by (simp_all add: bounded_json_def validate_json_exact MAX_JSON_BYTES_def demo_target_def MAX_OBJECT_ITEMS_def)
  have "normalize_targets (\<lambda>_. 2) [demo_target] TM_REQUESTS = Inr [demo_target\<lparr>tg_method := ''GET''\<rparr>]"
    using b by (simp add: normalize_targets_def t e)
  with e show ?thesis
    by (simp add: normalize_input_def normalize_scenario_settings_def demo_load_input_def normalize_name_def normalize_category_def
        demo_strips validate_settings_def)
qed


definition demo_running :: LoadService where
  "demo_running = snd (start_run 3 True 11 5 6 demo_service)"

definition demo_job :: LoadJob where
  "demo_job = the (dget (ls_jobs demo_running) 11)"

definition demo_begun :: LoadService where
  "demo_begun = snd (execute_begin 11 demo_job demo_running)"

definition demo_delivering :: LoadService where
  "demo_delivering = snd (execute_response 11 (the (dget (ls_jobs demo_begun) 11)) demo_item (\<lambda>_. 0) 8 demo_begun)"

lemma demo_load_stored: "\<exists>r. demo_load_repo = \<lparr>lo_definitions = [(3, r)], lo_names = [((7, ''smoke''), 3)], lo_runs = [], lo_responses = []\<rparr>"
  by (simp add: demo_load_repo_def create_load_test_def bind_def demo_load_input_ok empty_load_tests_def Let_def)

lemma demo_jobs:
  "dget (ls_jobs demo_running) 11 = Some demo_job" "\<not> lj_begun demo_job"
  "\<exists>job. dget (ls_jobs demo_begun) 11 = Some job \<and> lj_begun job \<and> lj_pending job = []"
  "\<exists>job. dget (ls_jobs demo_delivering) 11 = Some job \<and> lj_begun job \<and>
     lj_definition job = the (dget (lo_definitions demo_load_repo) 3)"
  "\<not> is_cancelled 11 demo_delivering"
proof -
  obtain r where r: "demo_load_repo = \<lparr>lo_definitions = [(3, r)], lo_names = [((7, ''smoke''), 3)], lo_runs = [], lo_responses = []\<rparr>"
    using demo_load_stored by blast
  obtain run where run: "demo_running = \<lparr>ls_repo = demo_load_repo\<lparr>lo_runs := [(11, run)], lo_responses := [(11, [])]\<rparr>,
      ls_cancellations = [(11, False)], ls_stopped = False,
      ls_jobs = [(11, \<lparr>lj_definition = r, lj_begun = False, lj_latest = [], lj_pending = []\<rparr>)]\<rparr>"
    by (simp add: demo_running_def demo_service_def recover_interrupted_runs_def on_repo_def recover_running_runs_def bind_def r
        start_run_def get_load_test_def create_load_run_def active_run_def Let_def)
  show "dget (ls_jobs demo_running) 11 = Some demo_job" "\<not> lj_begun demo_job" by (simp_all add: demo_job_def run)
  have b: "ls_jobs demo_begun = [(11, \<lparr>lj_definition = r, lj_begun = True, lj_latest = lr_metrics run, lj_pending = []\<rparr>)]"
    by (simp add: demo_begun_def execute_begin_def set_job_def demo_job_def run)
  then show "\<exists>job. dget (ls_jobs demo_begun) 11 = Some job \<and> lj_begun job \<and> lj_pending job = []" by simp
  from b show "\<exists>job. dget (ls_jobs demo_delivering) 11 = Some job \<and> lj_begun job \<and>
      lj_definition job = the (dget (lo_definitions demo_load_repo) 3)"
    by (simp add: demo_delivering_def execute_response_def Let_def set_job_def r)
  show "\<not> is_cancelled 11 demo_delivering"
    by (simp add: is_cancelled_def demo_delivering_def execute_response_def Let_def set_job_def b)
       (simp add: demo_begun_def execute_begin_def set_job_def run)
qed

lemma demo_started: "started (\<lambda>_. 2) demo_service"
  unfolding started_def
proof (intro exI conjI)
  show "(load_step (\<lambda>_. 2))\<^sup>*\<^sup>* empty_load_tests demo_load_repo"
    unfolding demo_load_repo_def by (rule r_into_rtranclp, rule l_create) (simp add: empty_load_tests_def)
  show "make_load_service demo_load_repo 4 =
      Inr \<lparr>ls_repo = demo_load_repo, ls_cancellations = [], ls_stopped = False, ls_jobs = []\<rparr>"
    by (simp add: make_load_service_def)
qed (simp add: demo_service_def)

lemma demo_delivering_reach:
  "(service_step (\<lambda>_. 2))\<^sup>*\<^sup>* (\<lambda>_. [], demo_service) ((\<lambda>_. [])(11 := [demo_item]), demo_delivering)"
proof -
  let ?step = "service_step (\<lambda>_. 2)"
  have "dget (lo_runs (ls_repo demo_service)) 11 = None"
  proof -
    obtain r where r: "demo_load_repo = \<lparr>lo_definitions = [(3, r)], lo_names = [((7, ''smoke''), 3)], lo_runs = [], lo_responses = []\<rparr>"
      using demo_load_stored by blast
    show ?thesis by (simp add: demo_service_def recover_interrupted_runs_def on_repo_def recover_running_runs_def bind_def r)
  qed
  from v_start [OF this, of "\<lambda>_. 2" "\<lambda>_. []" 3 True 5 6]
  have a: "?step (\<lambda>_. [], demo_service) (\<lambda>_. [], demo_running)" by (simp add: demo_running_def fun_upd_def)
  have b: "?step (\<lambda>_. [], demo_running) (\<lambda>_. [], demo_begun)"
    unfolding demo_begun_def by (rule v_begin [OF demo_jobs(1,2)])
  obtain job where job: "dget (ls_jobs demo_begun) 11 = Some job" "lj_begun job" using demo_jobs(3) by blast
  have c: "?step (\<lambda>_. [], demo_begun) ((\<lambda>_. [])(11 := [demo_item]), demo_delivering)"
    using v_response [OF job, of "\<lambda>_. 2" "\<lambda>_. []" demo_item "\<lambda>_. 0" 8] by (simp add: demo_delivering_def job(1))
  from a b c show ?thesis by (blast intro: converse_rtranclp_into_rtranclp)
qed


text \<open>C38. Every load run closes, and no response is lost. The service starts on any repository the operations can
  produce and then takes any interleaving of definition changes, starts, cancellations, shutdown and callbacks of concurrent
  executions. Whenever an execution ends, with metrics or with any exception, ending it returns normally and leaves its run closed
  with a finishing time: as succeeded with the metrics when it was not cancelled, as failed with the metrics when it was,
  and as failed with the last snapshot when the executor raised; the responses stored for the run are, in order of their sequence
  numbers, exactly those the executor delivered; and the execution and its cancellation event are gone.\<close>

theorem load_run_always_closes:
  assumes "started jb s0" "(service_step jb)\<^sup>*\<^sup>* (g0, s0) (g, s)" "dget (ls_jobs s) k = Some job"
  shows "\<exists>run run' rs t. execute_finish k job outcome message late ids now s = (Inr (), t) \<and>
    dget (lo_runs (ls_repo s)) k = Some run \<and> lr_status run = LR_RUNNING \<and> dget (lo_runs (ls_repo t)) k = Some run' \<and>
    lr_load_test_id run' = lr_load_test_id run \<and> lr_finished_at run' = Some now \<and>
    (case outcome of
       Inr metrics \<Rightarrow> lr_metrics run' = metrics \<and> lr_status run' = (if is_cancelled k s then LR_FAILED else LR_SUCCEEDED)
     | Inl e \<Rightarrow> lr_metrics run' = lj_latest job \<and> lr_status run' = LR_FAILED) \<and>
    dget (lo_responses (ls_repo t)) k = Some rs \<and> mset (map rr_item rs) = mset (g k) \<and>
    sorted (map (\<lambda>r. ri_sequence (rr_item r)) rs) \<and> dget (ls_jobs t) k = None \<and> dget (ls_cancellations t) k = None"
proof -
  from service_reachable_inv [OF assms(1,2)] have inv: "service_inv (g, s)" .
  obtain run rs t where t: "execute_finish k job outcome message late ids now s = (Inr (), t)" "service_inv (g, t)"
    "dget (lo_runs (ls_repo s)) k = Some run" "lr_status run = LR_RUNNING"
    "dget (lo_runs (ls_repo t)) k = Some (case outcome of
       Inr metrics \<Rightarrow> if is_cancelled k s then closed_run run LR_FAILED metrics (Some ''Load test execution cancelled'') now
         else closed_run run LR_SUCCEEDED metrics (if late then Some ''Load test execution cancelled'' else None) now
     | Inl e \<Rightarrow> closed_run run LR_FAILED (lj_latest job)
         (Some (if e = LoadTestExecutionError then message else ''Load test execution failed'')) now)" (is "_ = Some ?run'")
    "dget (lo_responses (ls_repo t)) k = Some rs" "mset (map rr_item rs) = mset (g k)"
    by (rule execute_finish_closes [OF inv assms(3)])
  have fields: "lr_load_test_id ?run' = lr_load_test_id run" "lr_finished_at ?run' = Some now" "lr_status ?run' \<noteq> LR_RUNNING"
    "case outcome of
       Inr metrics \<Rightarrow> lr_metrics ?run' = metrics \<and> lr_status ?run' = (if is_cancelled k s then LR_FAILED else LR_SUCCEEDED)
     | Inl e \<Rightarrow> lr_metrics ?run' = lj_latest job \<and> lr_status ?run' = LR_FAILED"
    by (simp_all add: closed_run_def split: sum.split)
  have "responses_ok (ls_repo t)" using service_invD(1) [OF t(2)] by (simp add: load_inv_def)
  note sorted = responses_okD(2) [OF this t(6)]
  have "\<not> running (ls_repo t) k" using t(5) fields(3) by (simp add: running_def)
  then have "dget (ls_jobs t) k = None" "dget (ls_cancellations t) k = None" using service_invD(2,3) [OF t(2), of k] by simp_all
  with t fields(1,2,4) sorted show ?thesis by (intro exI conjI) assumption+
qed

theorem load_run_always_closes_witness:
  "\<exists>job run' rs t. dget (ls_jobs demo_delivering) 11 = Some job \<and>
     execute_finish 11 job (Inl RuntimeError) [] False (\<lambda>_. 0) 9 demo_delivering = (Inr (), t) \<and>
     dget (lo_runs (ls_repo t)) 11 = Some run' \<and> lr_status run' = LR_FAILED \<and>
     dget (lo_responses (ls_repo t)) 11 = Some rs \<and> mset (map rr_item rs) = {#demo_item#}"
proof -
  obtain job where job: "dget (ls_jobs demo_delivering) 11 = Some job" using demo_jobs(4) by blast
  from load_run_always_closes [OF demo_started demo_delivering_reach job, of "Inl RuntimeError" "[]" False "\<lambda>_. 0" 9] job
  show ?thesis by auto
qed

text \<open>The repository and the executions agree. In every state of the service a load test has at most one running
  run, a run is running exactly while an execution of it is submitted and exactly while its cancellation event is registered, so that it can
  always be cancelled and is always going to be closed, and every stored definition has targets, numbers and
  names within their bounds.\<close>

theorem running_load_runs_have_executions:
  assumes "started jb s0" "(service_step jb)\<^sup>*\<^sup>* (g0, s0) (g, s)"
  shows "(running (ls_repo s) k \<longleftrightarrow> dget (ls_jobs s) k \<noteq> None) \<and> (running (ls_repo s) k \<longleftrightarrow> dget (ls_cancellations s) k \<noteq> None) \<and>
    (\<forall>k' run run'. dget (lo_runs (ls_repo s)) k = Some run \<longrightarrow> dget (lo_runs (ls_repo s)) k' = Some run' \<longrightarrow>
       lr_status run = LR_RUNNING \<longrightarrow> lr_status run' = LR_RUNNING \<longrightarrow> lr_load_test_id run = lr_load_test_id run' \<longrightarrow> k = k') \<and>
    (\<forall>i r. dget (lo_definitions (ls_repo s)) i = Some r \<longrightarrow> definition_ok r)"
proof -
  from service_reachable_inv [OF assms] have inv: "service_inv (g, s)" .
  with service_invD(1) [OF inv] show ?thesis
    using service_invD(2,3) [OF inv, of k] by (simp add: load_inv_def runs_ok_def)
qed

theorem running_load_runs_have_executions_witness:
  "running (ls_repo demo_delivering) 11 \<and> dget (ls_cancellations demo_delivering) 11 \<noteq> None"
  using running_load_runs_have_executions [OF demo_started demo_delivering_reach, of 11] demo_jobs(4) by auto

text \<open>C40. Stored load tests are well-typed: whatever was sent, every definition the repository can ever hold is found under
  its identifier and its project and name, has between 1 and 20 distinctly named targets with a known method and expected
  statuses, extractors only in scenario mode, and every number within its limit.\<close>

theorem stored_load_tests_are_valid:
  assumes "(load_step jb)\<^sup>*\<^sup>* empty_load_tests s" "dget (lo_definitions s) i = Some r"
  shows "lt_id r = i \<and> dget (lo_names s) (lt_project_id r, lt_name r) = Some i \<and>
    lt_name r \<noteq> [] \<and> length (lt_name r) \<le> 255 \<and> length (lt_category r) \<le> 100 \<and>
    1 \<le> length (lt_targets r) \<and> length (lt_targets r) \<le> 20 \<and> distinct (map tg_name (lt_targets r)) \<and>
    (lt_traffic_mode r = TM_SCENARIO \<or> list_all (\<lambda>tg. tg_extractors tg = []) (lt_targets r)) \<and>
    list_all (\<lambda>tg. tg_name tg \<noteq> [] \<and> tg_method tg \<in> set HTTP_METHODS \<and> tg_url tg \<noteq> [] \<and> tg_expected_statuses tg \<noteq> [] \<and>
      list_all (\<lambda>code. 100 \<le> code \<and> code \<le> 599) (tg_expected_statuses tg)) (lt_targets r) \<and>
    1 \<le> lt_request_count r \<and> lt_request_count r \<le> 10000 \<and> 1 \<le> lt_duration_seconds r \<and> lt_duration_seconds r \<le> 1800 \<and>
    1 \<le> lt_concurrency r \<and> lt_concurrency r \<le> 100 \<and> 0 \<le> lt_interval_ms r \<and> lt_interval_ms r \<le> 60000 \<and>
    0 < lt_timeout_seconds r \<and> lt_timeout_seconds r \<le> 120"
proof -
  have inv: "load_inv s" by (rule load_inv_steps [OF assms(1) load_inv_empty])
  then have ok: "definition_ok r" using assms(2) by (simp add: load_inv_def)
  have "load_index s" using inv by (simp add: load_inv_def)
  from index_okD [OF this assms(2)] have key: "lt_id r = i" "dget (lo_names s) (lt_project_id r, lt_name r) = Some i"
    by (simp_all add: load_key_def)
  from ok have "list_all target_ok (lt_targets r)" by (simp add: definition_ok_def)
  then have "list_all (\<lambda>tg. tg_name tg \<noteq> [] \<and> tg_method tg \<in> set HTTP_METHODS \<and> tg_url tg \<noteq> [] \<and> tg_expected_statuses tg \<noteq> [] \<and>
      list_all (\<lambda>code. 100 \<le> code \<and> code \<le> 599) (tg_expected_statuses tg)) (lt_targets r)"
    by (rule list.pred_mono_strong) (simp add: target_ok_def)
  with ok key show ?thesis by (simp add: definition_ok_def)
qed

theorem stored_load_tests_are_valid_witness:
  "\<exists>r. dget (lo_definitions demo_load_repo) 3 = Some r \<and> lt_id r = 3 \<and> lt_request_count r \<le> 10000"
proof -
  have "(load_step (\<lambda>_. 2))\<^sup>*\<^sup>* empty_load_tests demo_load_repo"
    unfolding demo_load_repo_def by (rule r_into_rtranclp, rule l_create) (simp add: empty_load_tests_def)
  note valid = stored_load_tests_are_valid [OF this]
  obtain r where r: "demo_load_repo = \<lparr>lo_definitions = [(3, r)], lo_names = [((7, ''smoke''), 3)], lo_runs = [], lo_responses = []\<rparr>"
    using demo_load_stored by blast
  have "dget (lo_definitions demo_load_repo) 3 = Some r" by (simp add: r)
  with valid [OF this] show ?thesis by simp
qed

end
