(* ===== verification/Load_Executor_Facts.thy ===== *)
theory Load_Executor_Facts
  imports Load_Executor Load_Service_Facts
begin

text \<open>
  What the workers of a load test have in common at every moment, that they finish, that a count load test sends every request
  exactly once, and executor and service together.
\<close>

section \<open>Accounting\<close>

text \<open>The index a worker holds that is not in the metrics, and the response it has not reported.\<close>

fun held_index :: "WorkerPhase \<Rightarrow> nat list" where
  "held_index (W_Request i) = [i]"
| "held_index (W_Crashed i) = [i]"
| "held_index _ = []"

fun held_item :: "WorkerPhase \<Rightarrow> ResponseItem list" where
  "held_item (W_Report item) = [item]"
| "held_item (W_Crashed_Report item) = [item]"
| "held_item _ = []"

definition held :: "(WorkerPhase \<Rightarrow> 'a list) \<Rightarrow> WorkerPhase list \<Rightarrow> 'a multiset" where
  "held f ws = mset (concat (map f ws))"

lemma held_update:
  "w < length ws \<Longrightarrow> held f (ws[w := p]) + mset (f (ws ! w)) = held f ws + mset (f p)"
  unfolding held_def
proof (induction ws arbitrary: w)
  case (Cons x ws)
  show ?case
  proof (cases w)
    case (Suc v)
    with Cons.IH [of v] Cons.prems show ?thesis by (simp add: union_assoc)
  qed (simp add: union_assoc union_commute)
qed simp

lemma held_same: "w < length ws \<Longrightarrow> f (ws ! w) = [] \<Longrightarrow> f p = [] \<Longrightarrow> held f (ws[w := p]) = held f ws"
  using held_update [of w ws f p] by simp

lemma held_enter: "w < length ws \<Longrightarrow> f (ws ! w) = [] \<Longrightarrow> f p = [x] \<Longrightarrow> held f (ws[w := p]) = add_mset x (held f ws)"
  using held_update [of w ws f p] by simp

lemma held_leave: "w < length ws \<Longrightarrow> f (ws ! w) = [x] \<Longrightarrow> f p = [] \<Longrightarrow> held f ws = add_mset x (held f (ws[w := p]))"
  using held_update [of w ws f p] by simp

lemma held_keep: "w < length ws \<Longrightarrow> f (ws ! w) = f p \<Longrightarrow> held f (ws[w := p]) = held f ws"
  using held_update [of w ws f p] by simp

section \<open>Metrics\<close>

lemma values_add_counts [simp]:
  "mv_total (values_add fl d l ok st e mv) = mv_total mv + 1"
  "mv_successful (values_add fl d l ok st e mv) = mv_successful mv + (if ok then 1 else 0)"
  "mv_failed (values_add fl d l ok st e mv) = mv_failed mv + (if ok then 0 else 1)"
  by (simp_all add: values_add_def)

definition counts_agree :: "MetricValues \<Rightarrow> bool" where
  "counts_agree mv \<longleftrightarrow> mv_successful mv + mv_failed mv = mv_total mv \<and> length (mv_latencies mv) = min (mv_total mv) SAMPLE_LIMIT"

lemma counts_agree_add: "counts_agree mv \<Longrightarrow> counts_agree (values_add fl d l ok st e mv)"
  by (auto simp: counts_agree_def values_add_def)

lemma metrics_add_present:
  assumes "dget (mx_targets m) name = Some mv"
  obtains m' where "metrics_add fl draws name l ok st e resp m = (Inr (mv_total (mx_all m) + 1), m')"
    "mx_all m' = values_add fl (fst draws) l ok st e (mx_all m)"
    "mx_targets m' = dset name (values_add fl (snd draws) l ok st e mv) (mx_targets m)"
proof -
  let ?m = "m\<lparr>mx_all := values_add fl (fst draws) l ok st e (mx_all m),
    mx_targets := dset name (values_add fl (snd draws) l ok st e mv) (mx_targets m)\<rparr>"
  let ?m' = "if ok then (if length (mx_successful_samples m) < SUCCESS_RESPONSE_SAMPLES
      then ?m\<lparr>mx_successful_samples := mx_successful_samples m @ [response_sample fl name l st e resp]\<rparr> else ?m)
    else (if length (mx_failed_samples m) < FAILED_RESPONSE_SAMPLES
      then ?m\<lparr>mx_failed_samples := mx_failed_samples m @ [response_sample fl name l st e resp]\<rparr> else ?m)"
  show thesis by (rule that [of ?m']) (simp_all add: metrics_add_def bind_def assms)
qed

lemma periodic_snapshot_metrics [simp]:
  "mx_all (snd (periodic_snapshot fl now m)) = mx_all m" "mx_targets (snd (periodic_snapshot fl now m)) = mx_targets m"
  by (simp_all add: periodic_snapshot_def bind_def)

section \<open>Invariant\<close>

definition share :: "LoadTestRecord \<Rightarrow> nat \<Rightarrow> nat list \<Rightarrow> nat" where
  "share lt j indexes = length (filter (\<lambda>i. i mod length (lt_targets lt) = j) indexes)"

definition exec_inv :: "LoadTestRecord \<Rightarrow> ExecState \<Rightarrow> bool" where
  "exec_inv lt s \<longleftrightarrow>
     mset (xs_handled s) + held held_index (xs_workers s) = mset [0..<xs_sequence s] \<and>
     mset (map ri_sequence (xs_reported s)) + image_mset ri_sequence (held held_item (xs_workers s)) =
       mset (map (\<lambda>n. int n + 1) [0..<mv_total (mx_all (xs_metrics s))]) \<and>
     mv_total (mx_all (xs_metrics s)) = length (xs_handled s) \<and> counts_agree (mx_all (xs_metrics s)) \<and>
     (\<forall>j < length (lt_targets lt). \<exists>mv. dget (mx_targets (xs_metrics s)) (tg_name (lt_targets lt ! j)) = Some mv \<and>
        mv_total mv = share lt j (xs_handled s) \<and> counts_agree mv) \<and>
     (lt_mode lt = LM_COUNT \<longrightarrow> int (xs_sequence s) \<le> lt_request_count lt) \<and>
     (\<forall>p \<in> set (xs_workers s). p = W_Done \<longrightarrow> exhausted lt s \<or> xs_cancelled s \<or> lt_mode lt = LM_DURATION)"

lemma exec_invD:
  assumes "exec_inv lt s"
  shows "mset (xs_handled s) + held held_index (xs_workers s) = mset [0..<xs_sequence s]"
    "mset (map ri_sequence (xs_reported s)) + image_mset ri_sequence (held held_item (xs_workers s)) =
       mset (map (\<lambda>n. int n + 1) [0..<mv_total (mx_all (xs_metrics s))])"
    "mv_total (mx_all (xs_metrics s)) = length (xs_handled s)" "counts_agree (mx_all (xs_metrics s))"
    "j < length (lt_targets lt) \<Longrightarrow> \<exists>mv. dget (mx_targets (xs_metrics s)) (tg_name (lt_targets lt ! j)) = Some mv \<and>
        mv_total mv = share lt j (xs_handled s) \<and> counts_agree mv"
    "lt_mode lt = LM_COUNT \<Longrightarrow> int (xs_sequence s) \<le> lt_request_count lt"
    "p \<in> set (xs_workers s) \<Longrightarrow> p = W_Done \<Longrightarrow> exhausted lt s \<or> xs_cancelled s \<or> lt_mode lt = LM_DURATION"
  using assms by (simp_all add: exec_inv_def)

lemma exec_invI:
  assumes "mset (xs_handled s) + held held_index (xs_workers s) = mset [0..<xs_sequence s]"
    "mset (map ri_sequence (xs_reported s)) + image_mset ri_sequence (held held_item (xs_workers s)) =
       mset (map (\<lambda>n. int n + 1) [0..<mv_total (mx_all (xs_metrics s))])"
    "mv_total (mx_all (xs_metrics s)) = length (xs_handled s)" "counts_agree (mx_all (xs_metrics s))"
    "\<And>j. j < length (lt_targets lt) \<Longrightarrow> \<exists>mv. dget (mx_targets (xs_metrics s)) (tg_name (lt_targets lt ! j)) = Some mv \<and>
        mv_total mv = share lt j (xs_handled s) \<and> counts_agree mv"
    "lt_mode lt = LM_COUNT \<Longrightarrow> int (xs_sequence s) \<le> lt_request_count lt"
    "\<And>p. p \<in> set (xs_workers s) \<Longrightarrow> p = W_Done \<Longrightarrow> exhausted lt s \<or> xs_cancelled s \<or> lt_mode lt = LM_DURATION"
  shows "exec_inv lt s"
  using assms by (simp add: exec_inv_def)

lemma done_update:
  assumes "exec_inv lt s" "p = W_Done \<Longrightarrow> exhausted lt s \<or> xs_cancelled s \<or> lt_mode lt = LM_DURATION"
    and "q \<in> set ((xs_workers s)[w := p])" "q = W_Done"
  shows "exhausted lt s \<or> xs_cancelled s \<or> lt_mode lt = LM_DURATION"
  using exec_invD(7) [OF assms(1), of q] set_update_subset_insert [of "xs_workers s" w p] assms(2-4) by blast

lemma exec_inv_phase:
  assumes "exec_inv lt s" "w < length (xs_workers s)" "held_index (xs_workers s ! w) = held_index p"
    and "held_item (xs_workers s ! w) = held_item p"
    and "p = W_Done \<Longrightarrow> exhausted lt s \<or> xs_cancelled s \<or> lt_mode lt = LM_DURATION"
  shows "exec_inv lt (set_phase w p s)"
proof (rule exec_invI)
  fix q assume "q \<in> set (xs_workers (set_phase w p s))" "q = W_Done"
  with done_update [OF assms(1,5)] show "exhausted lt (set_phase w p s) \<or> xs_cancelled (set_phase w p s) \<or> lt_mode lt = LM_DURATION"
    by (simp add: set_phase_def exhausted_def)
qed (use exec_invD [OF assms(1)] in \<open>simp_all add: set_phase_def held_keep [OF assms(2), of held_index p, OF assms(3)]
    held_keep [OF assms(2), of held_item p, OF assms(4)]\<close>)

lemma exec_inv_snapshot:
  "exec_inv lt s \<Longrightarrow> exec_inv lt (s\<lparr>xs_metrics := snd (periodic_snapshot fl now (xs_metrics s))\<rparr>)"
  by (simp add: exec_inv_def exhausted_def)

lemma exec_inv_cancel: "exec_inv lt s \<Longrightarrow> exec_inv lt (s\<lparr>xs_cancelled := True\<rparr>)"
  by (simp add: exec_inv_def exhausted_def)

lemma exec_inv_take:
  assumes inv: "exec_inv lt s" and w: "w < length (xs_workers s)" "xs_workers s ! w = W_Take"
  shows "exec_inv lt (take_index lt w expired s)"
proof (cases "exhausted lt s \<or> lt_mode lt = LM_DURATION \<and> expired")
  case True
  then show ?thesis using inv w by (auto simp: take_index_def intro!: exec_inv_phase)
next
  case False
  let ?t = "set_phase w (W_Request (xs_sequence s)) (s\<lparr>xs_sequence := xs_sequence s + 1\<rparr>)"
  have held: "held held_index (xs_workers ?t) = add_mset (xs_sequence s) (held held_index (xs_workers s))"
    "held held_item (xs_workers ?t) = held held_item (xs_workers s)"
    using w by (simp_all add: set_phase_def held_enter held_same)
  have "exec_inv lt ?t"
  proof (rule exec_invI)
    show "mset (xs_handled ?t) + held held_index (xs_workers ?t) = mset [0..<xs_sequence ?t]"
      using exec_invD(1) [OF inv] unfolding held by (simp add: set_phase_def)
    show "mset (map ri_sequence (xs_reported ?t)) + image_mset ri_sequence (held held_item (xs_workers ?t)) =
       mset (map (\<lambda>n. int n + 1) [0..<mv_total (mx_all (xs_metrics ?t))])"
      using exec_invD(2) [OF inv] unfolding held by (simp add: set_phase_def)
    show "int (xs_sequence ?t) \<le> lt_request_count lt" if "lt_mode lt = LM_COUNT"
      using False that by (simp add: set_phase_def exhausted_def)
    fix q assume "q \<in> set (xs_workers ?t)" "q = W_Done"
    with done_update [OF inv, of "W_Request (xs_sequence s)" q w] False
    show "exhausted lt ?t \<or> xs_cancelled ?t \<or> lt_mode lt = LM_DURATION" by (auto simp: set_phase_def exhausted_def)
  qed (use exec_invD(3-5) [OF inv] in \<open>simp_all add: set_phase_def\<close>)
  with False show ?thesis by (auto simp: take_index_def)
qed

lemma exec_inv_report:
  assumes inv: "exec_inv lt s" and w: "w < length (xs_workers s)" "xs_workers s ! w = W_Report item"
  shows "exec_inv lt (set_phase w W_After (s\<lparr>xs_reported := xs_reported s @ [item]\<rparr>))"
proof -
  let ?t = "set_phase w W_After (s\<lparr>xs_reported := xs_reported s @ [item]\<rparr>)"
  have held: "held held_index (xs_workers ?t) = held held_index (xs_workers s)"
    using w by (simp add: set_phase_def held_same)
  have item: "held held_item (xs_workers s) = add_mset item (held held_item (xs_workers ?t))"
    using w held_leave [of w "xs_workers s" held_item item W_After] by (simp add: set_phase_def)
  show ?thesis
  proof (rule exec_invI)
    show "mset (xs_handled ?t) + held held_index (xs_workers ?t) = mset [0..<xs_sequence ?t]"
      using exec_invD(1) [OF inv] unfolding held by (simp add: set_phase_def)
    show "mset (map ri_sequence (xs_reported ?t)) + image_mset ri_sequence (held held_item (xs_workers ?t)) =
       mset (map (\<lambda>n. int n + 1) [0..<mv_total (mx_all (xs_metrics ?t))])"
      using exec_invD(2) [OF inv] unfolding item by (simp add: set_phase_def)
    fix q assume "q \<in> set (xs_workers ?t)" "q = W_Done"
    with done_update [OF inv, of W_After q w] show "exhausted lt ?t \<or> xs_cancelled ?t \<or> lt_mode lt = LM_DURATION"
      by (simp add: set_phase_def exhausted_def)
  qed (use exec_invD(3-6) [OF inv] in \<open>simp_all add: set_phase_def\<close>)
qed

lemma target_total:
  assumes "exec_inv lt s" "distinct (map tg_name (lt_targets lt))" "lt_targets lt \<noteq> []"
    and m: "mx_targets m = dset (tg_name (target_of lt i)) (values_add fl d l ok st e mv) (mx_targets (xs_metrics s))"
    and mv: "dget (mx_targets (xs_metrics s)) (tg_name (target_of lt i)) = Some mv" and j: "j < length (lt_targets lt)"
  shows "\<exists>mv. dget (mx_targets m) (tg_name (lt_targets lt ! j)) = Some mv \<and>
    mv_total mv = share lt j (xs_handled s @ [i]) \<and> counts_agree mv"
proof -
  have i: "i mod length (lt_targets lt) < length (lt_targets lt)" using assms(3) by simp
  have same: "tg_name (lt_targets lt ! j) = tg_name (target_of lt i) \<longleftrightarrow> i mod length (lt_targets lt) = j"
    using nth_eq_iff_index_eq [OF assms(2), of j "i mod length (lt_targets lt)"] i j by (auto simp: target_of_def)
  obtain old where old: "dget (mx_targets (xs_metrics s)) (tg_name (lt_targets lt ! j)) = Some old"
    "mv_total old = share lt j (xs_handled s)" "counts_agree old" using exec_invD(5) [OF assms(1) j] by blast
  show ?thesis
  proof (cases "i mod length (lt_targets lt) = j")
    case True
    with same old(1) mv have "old = mv" by simp
    with True same old show ?thesis by (simp add: m share_def counts_agree_add)
  next
    case False
    with same old show ?thesis by (simp add: m share_def)
  qed
qed

lemma exec_inv_request:
  assumes inv: "exec_inv lt s" and w: "w < length (xs_workers s)" "xs_workers s ! w = W_Request i"
    and lt: "distinct (map tg_name (lt_targets lt))" "lt_targets lt \<noteq> []"
  shows "exec_inv lt (finish_request fl lt w i attempt latency draws s)"
proof (cases "request_result (target_of lt i) attempt")
  case None
  then show ?thesis using inv w by (auto simp: finish_request_def intro!: exec_inv_phase)
next
  case (Some r)
  then obtain st ok e resp where r: "request_result (target_of lt i) attempt = Some (st, ok, e, resp)" by (cases r) auto
  have "i mod length (lt_targets lt) < length (lt_targets lt)" using lt(2) by simp
  from exec_invD(5) [OF inv this] obtain mv where
    mv: "dget (mx_targets (xs_metrics s)) (tg_name (target_of lt i)) = Some mv" by (auto simp: target_of_def)
  obtain m where m: "metrics_add fl draws (tg_name (target_of lt i)) latency ok st e resp (xs_metrics s) = (Inr (mv_total (mx_all (xs_metrics s)) + 1), m)"
    "mx_all m = values_add fl (fst draws) latency ok st e (mx_all (xs_metrics s))"
    "mx_targets m = dset (tg_name (target_of lt i)) (values_add fl (snd draws) latency ok st e mv) (mx_targets (xs_metrics s))"
    by (rule metrics_add_present [OF mv])
  define item where "item = response_record fl (mv_total (mx_all (xs_metrics s)) + 1) (tg_name (target_of lt i)) ok st latency e resp"
  have item: "ri_sequence item = int (mv_total (mx_all (xs_metrics s))) + 1" by (simp add: item_def response_record_def Let_def)
  let ?t = "set_phase w (W_Report item) (s\<lparr>xs_metrics := m, xs_handled := xs_handled s @ [i]\<rparr>)"
  have held: "held held_index (xs_workers s) = add_mset i (held held_index (xs_workers ?t))"
    "held held_item (xs_workers ?t) = add_mset item (held held_item (xs_workers s))"
    using w held_leave [of w "xs_workers s" held_index i "W_Report item"] by (simp_all add: set_phase_def held_enter)
  have "exec_inv lt ?t"
  proof (rule exec_invI)
    show "mset (xs_handled ?t) + held held_index (xs_workers ?t) = mset [0..<xs_sequence ?t]"
      using exec_invD(1) [OF inv] unfolding held by (simp add: set_phase_def)
    show "mset (map ri_sequence (xs_reported ?t)) + image_mset ri_sequence (held held_item (xs_workers ?t)) =
       mset (map (\<lambda>n. int n + 1) [0..<mv_total (mx_all (xs_metrics ?t))])"
      using exec_invD(2) [OF inv] unfolding held by (simp add: set_phase_def m(2) item)
    show "mv_total (mx_all (xs_metrics ?t)) = length (xs_handled ?t)" "counts_agree (mx_all (xs_metrics ?t))"
      using exec_invD(3,4) [OF inv] by (simp_all add: set_phase_def m(2) counts_agree_add)
    show "\<exists>mv. dget (mx_targets (xs_metrics ?t)) (tg_name (lt_targets lt ! j)) = Some mv \<and>
        mv_total mv = share lt j (xs_handled ?t) \<and> counts_agree mv" if "j < length (lt_targets lt)" for j
      using target_total [OF inv lt m(3) mv that] by (simp add: set_phase_def)
    show "int (xs_sequence ?t) \<le> lt_request_count lt" if "lt_mode lt = LM_COUNT"
      using exec_invD(6) [OF inv that] by (simp add: set_phase_def)
    fix q assume "q \<in> set (xs_workers ?t)" "q = W_Done"
    with done_update [OF inv, of "W_Report item" q w] show "exhausted lt ?t \<or> xs_cancelled ?t \<or> lt_mode lt = LM_DURATION"
      by (simp add: set_phase_def exhausted_def)
  qed
  then show ?thesis by (simp add: finish_request_def r m(1) item_def)
qed

lemma exec_step_inv:
  assumes "exec_step fl lt s t" "exec_inv lt s" "distinct (map tg_name (lt_targets lt))" "lt_targets lt \<noteq> []"
  shows "exec_inv lt t"
  using assms
proof (induction rule: exec_step.induct)
  case (x_cancel s)
  then show ?case by (intro exec_inv_cancel)
next
  case (x_loop w s)
  then show ?case by (intro exec_inv_phase) (auto split: if_splits)
next
  case (x_take w s expired)
  then show ?case by (intro exec_inv_take)
next
  case (x_request w s index attempt latency draws)
  then show ?case by (intro exec_inv_request)
next
  case (x_report w s item)
  then show ?case by (intro exec_inv_report)
next
  case (x_report_raises w s item)
  then show ?case by (intro exec_inv_phase) auto
next
  case (x_after w s now waited)
  let ?s = "s\<lparr>xs_metrics := snd (periodic_snapshot fl now (xs_metrics s))\<rparr>"
  have "exec_inv lt ?s" by (rule exec_inv_snapshot [OF x_after(3)])
  with x_after show ?case
    by (auto simp: after_report_def Let_def intro!: exec_inv_phase [of lt ?s])
next
  case (x_snapshot_raises w s now)
  show ?case
    using x_snapshot_raises by (intro exec_inv_phase exec_inv_snapshot) auto
qed

lemma exec_steps_inv:
  assumes "(exec_step fl lt)\<^sup>*\<^sup>* s t" "exec_inv lt s" "distinct (map tg_name (lt_targets lt))" "lt_targets lt \<noteq> []"
  shows "exec_inv lt t"
  using assms(1,2) by (induction rule: rtranclp_induct) (blast intro: exec_step_inv [OF _ _ assms(3,4)])+

lemma held_replicate: "f W_Loop = [] \<Longrightarrow> held f (replicate n W_Loop) = {#}"
  by (induction n) (auto simp: held_def)

lemma dget_targets: "x \<in> set names \<Longrightarrow> dget (map (\<lambda>name. (name, v)) names) x = Some v"
  by (induction names) auto

lemma exec_inv_start:
  assumes "definition_ok lt"
  shows "exec_inv lt (start_execution lt max_workers began)"
proof (rule exec_invI)
  let ?s = "start_execution lt max_workers began"
  show "\<exists>mv. dget (mx_targets (xs_metrics ?s)) (tg_name (lt_targets lt ! j)) = Some mv \<and>
      mv_total mv = share lt j (xs_handled ?s) \<and> counts_agree mv" if "j < length (lt_targets lt)" for j
    using that dget_targets [of "tg_name (lt_targets lt ! j)" "map tg_name (lt_targets lt)" no_values]
    by (simp add: start_execution_def make_metrics_def share_def no_values_def counts_agree_def)
qed (use assms in \<open>auto simp: start_execution_def make_metrics_def no_values_def held_replicate counts_agree_def definition_ok_def\<close>)

lemma exec_step_workers: "exec_step fl lt s t \<Longrightarrow> length (xs_workers t) = length (xs_workers s)"
  by (induction rule: exec_step.induct)
     (auto simp: set_phase_def take_index_def finish_request_def after_report_def Let_def split: option.splits prod.splits sum.splits)

lemma exec_steps_workers: "(exec_step fl lt)\<^sup>*\<^sup>* s t \<Longrightarrow> length (xs_workers t) = length (xs_workers s)"
  by (induction rule: rtranclp_induct) (auto dest: exec_step_workers)

text \<open>The indexes below \<open>n\<close> are dealt to the \<open>k\<close> targets in turn.\<close>

lemma share_upt:
  assumes "j < k"
  shows "length (filter (\<lambda>i. i mod k = j) [0..<n]) = n div k + (if j < n mod k then 1 else 0)"
proof (induction n)
  case (Suc n)
  have k: "0 < k" using assms by simp
  show ?case
  proof (cases "Suc (n mod k) = k")
    case True
    then have "Suc n mod k = 0" "Suc n div k = Suc (n div k)" using k by (simp_all add: mod_Suc div_Suc)
    with Suc True assms show ?thesis by auto
  next
    case False
    then have "Suc n mod k = Suc (n mod k)" "Suc n div k = n div k" using k by (simp_all add: mod_Suc div_Suc)
    with Suc show ?thesis by auto
  qed
qed (use assms in simp)

lemma returns_held: "execution_returns s \<Longrightarrow> f W_Done = [] \<Longrightarrow> held f (xs_workers s) = {#}"
  unfolding execution_returns_def held_def by (induction "xs_workers s" arbitrary: s) (auto simp: list_all_iff)

section \<open>Termination\<close>

fun phase_rank :: "WorkerPhase \<Rightarrow> nat" where
  "phase_rank (W_Request _) = 5"
| "phase_rank (W_Report _) = 4"
| "phase_rank W_After = 3"
| "phase_rank W_Loop = 2"
| "phase_rank W_Take = 1"
| "phase_rank _ = 0"

definition work_left :: "LoadTestRecord \<Rightarrow> ExecState \<Rightarrow> nat" where
  "work_left lt s = 5 * (nat (lt_request_count lt) - xs_sequence s) + sum_list (map phase_rank (xs_workers s)) +
     (if xs_cancelled s then 0 else 1)"

lemma rank_update:
  "w < length ws \<Longrightarrow> sum_list (map phase_rank (ws[w := p])) + phase_rank (ws ! w) = sum_list (map phase_rank ws) + phase_rank p"
proof (induction ws arbitrary: w)
  case (Cons x ws)
  then show ?case by (cases w) auto
qed simp

lemma phase_less:
  assumes "w < length (xs_workers s)" "phase_rank p < phase_rank (xs_workers s ! w)" "xs_sequence t = xs_sequence s"
    "xs_workers t = (xs_workers s)[w := p]" "xs_cancelled t = xs_cancelled s"
  shows "work_left lt t < work_left lt s"
  using rank_update [OF assms(1), of p] assms(2-5) by (simp add: work_left_def)

lemma finish_request_phase:
  "\<exists>p. xs_workers (finish_request fl lt w index attempt latency draws s) = (xs_workers s)[w := p] \<and> phase_rank p < 5 \<and>
     xs_sequence (finish_request fl lt w index attempt latency draws s) = xs_sequence s \<and>
     xs_cancelled (finish_request fl lt w index attempt latency draws s) = xs_cancelled s"
proof (cases "request_result (target_of lt index) attempt")
  case None
  then show ?thesis by (intro exI [of _ "W_Crashed index"]) (simp add: finish_request_def set_phase_def)
next
  case (Some r)
  then obtain st ok e resp where r: "request_result (target_of lt index) attempt = Some (st, ok, e, resp)" by (cases r) auto
  obtain res m where m: "metrics_add fl draws (tg_name (target_of lt index)) latency ok st e resp (xs_metrics s) = (res, m)"
    by (cases "metrics_add fl draws (tg_name (target_of lt index)) latency ok st e resp (xs_metrics s)")
  show ?thesis
  proof (cases res)
    case (Inl x)
    then show ?thesis by (intro exI [of _ "W_Crashed index"]) (simp add: finish_request_def set_phase_def r m)
  next
    case (Inr n)
    then show ?thesis
      by (intro exI [of _ "W_Report (response_record fl n (tg_name (target_of lt index)) ok st latency e resp)"])
         (simp add: finish_request_def set_phase_def r m)
  qed
qed

lemma exec_step_less:
  assumes "exec_step fl lt s t" "lt_mode lt = LM_COUNT"
  shows "work_left lt t < work_left lt s"
  using assms
proof (induction rule: exec_step.induct)
  case (x_cancel s)
  then show ?case by (simp add: work_left_def)
next
  case (x_loop w s)
  then show ?case by (intro phase_less) (auto simp: set_phase_def)
next
  case (x_take w s expired)
  show ?case
  proof (cases "exhausted lt s")
    case True
    with x_take show ?thesis by (intro phase_less [of w s W_Done]) (auto simp: set_phase_def take_index_def)
  next
    case False
    with x_take(3) have "xs_sequence s < nat (lt_request_count lt)" by (simp add: exhausted_def)
    with False x_take rank_update [OF x_take(1), of "W_Request (xs_sequence s)"] show ?thesis
      by (simp add: work_left_def take_index_def set_phase_def)
  qed
next
  case (x_request w s index attempt latency draws)
  obtain p where "xs_workers (finish_request fl lt w index attempt latency draws s) = (xs_workers s)[w := p]" "phase_rank p < 5"
    "xs_sequence (finish_request fl lt w index attempt latency draws s) = xs_sequence s"
    "xs_cancelled (finish_request fl lt w index attempt latency draws s) = xs_cancelled s"
    using finish_request_phase by blast
  with x_request show ?case by (intro phase_less [of w s p]) auto
next
  case (x_report w s item)
  then show ?case by (intro phase_less [of w s W_After]) (auto simp: set_phase_def)
next
  case (x_report_raises w s item)
  then show ?case by (intro phase_less [of w s "W_Crashed_Report item"]) (auto simp: set_phase_def)
next
  case (x_after w s now waited)
  let ?p = "if exhausted lt s \<or> waited \<and> xs_cancelled s then W_Done else W_Loop"
  show ?case
    using x_after by (intro phase_less [of w s ?p]) (auto simp: after_report_def set_phase_def Let_def exhausted_def)
next
  case (x_snapshot_raises w s now)
  then show ?case by (intro phase_less [of w s W_Broken]) (auto simp: set_phase_def)
qed

lemma exec_steps_bounded:
  "(exec_step fl lt ^^ n) s t \<Longrightarrow> lt_mode lt = LM_COUNT \<Longrightarrow> n + work_left lt t \<le> work_left lt s"
proof (induction n arbitrary: t)
  case (Suc n)
  from Suc.prems(1) obtain u where u: "(exec_step fl lt ^^ n) s u" "exec_step fl lt u t" by auto
  from Suc.IH [OF u(1) Suc.prems(2)] exec_step_less [OF u(2) Suc.prems(2)] show ?case by simp
qed simp

definition finished_phase :: "WorkerPhase \<Rightarrow> bool" where
  "finished_phase p \<longleftrightarrow> phase_rank p = 0"

lemma exec_progress:
  assumes "p \<in> set (xs_workers s)" "\<not> finished_phase p"
  shows "\<exists>t. exec_step fl lt s t"
proof -
  from assms(1) obtain w where w: "w < length (xs_workers s)" "xs_workers s ! w = p" by (auto simp: in_set_conv_nth)
  show ?thesis using assms(2) w by (cases p) (auto simp: finished_phase_def intro: exec_step.intros)
qed

section \<open>Properties\<close>

lemma numbers_upto: "map (\<lambda>k. int k + 1) [0..<m] = [1..int m]"
proof (induction m)
  case (Suc m)
  have "[1..int (Suc m)] = [1..int m] @ [int (Suc m)]" using upto_rec2 [of 1 "int (Suc m)"] by simp
  with Suc show ?case by simp
qed simp

lemma count_returns:
  assumes "definition_ok lt" "lt_mode lt = LM_COUNT" "1 \<le> max_workers"
    and "(exec_step fl lt)\<^sup>*\<^sup>* (start_execution lt max_workers began) s" "execution_returns s" "\<not> xs_cancelled s"
  shows "exec_inv lt s" "xs_sequence s = nat (lt_request_count lt)"
proof -
  have lt: "distinct (map tg_name (lt_targets lt))" "lt_targets lt \<noteq> []" "1 \<le> lt_request_count lt" "1 \<le> lt_concurrency lt"
    using assms(1) by (auto simp: definition_ok_def)
  show inv: "exec_inv lt s" by (rule exec_steps_inv [OF assms(4) exec_inv_start [OF assms(1)] lt(1,2)])
  have "length (xs_workers s) = worker_count lt max_workers"
    using exec_steps_workers [OF assms(4)] by (simp add: start_execution_def)
  then have "xs_workers s \<noteq> []" using assms(2,3) lt(3,4) by (auto simp: worker_count_def)
  then obtain p ps where "xs_workers s = p # ps" by (cases "xs_workers s") auto
  with assms(5) exec_invD(7) [OF inv, of p] assms(2,6) have "exhausted lt s" by (auto simp: execution_returns_def)
  with exec_invD(6) [OF inv assms(2)] show "xs_sequence s = nat (lt_request_count lt)" by (simp add: exhausted_def)
qed

lemma reported_numbers:
  assumes "exec_inv lt s" "xs_sequence s = nat (lt_request_count lt)" "execution_returns s" "definition_ok lt"
  shows "mset (map ri_sequence (xs_reported s)) = mset [1..lt_request_count lt]"
proof -
  have n: "int (nat (lt_request_count lt)) = lt_request_count lt" using assms(4) by (simp add: definition_ok_def)
  have "mset (xs_handled s) = mset [0..<nat (lt_request_count lt)]"
    using exec_invD(1) [OF assms(1)] returns_held [OF assms(3), of held_index] assms(2) by simp
  then have "length (xs_handled s) = nat (lt_request_count lt)" by (metis length_upt minus_nat.diff_0 size_mset)
  with exec_invD(2,3) [OF assms(1)] returns_held [OF assms(3), of held_item] numbers_upto [of "nat (lt_request_count lt)"] n
  show ?thesis by simp
qed

text \<open>The workers of a count load test always finish. Whatever the targets answer, whenever the event is set and whichever
  callback raises, every run of the workers takes at most five steps for each request, two for each worker and one for the cancellation,
  and no worker waits for another: as long as one has neither returned nor ended by an exception some step is possible.\<close>

theorem load_workers_always_finish:
  assumes "lt_mode lt = LM_COUNT" "(exec_step fl lt ^^ n) (start_execution lt max_workers began) s"
  shows "n \<le> 5 * nat (lt_request_count lt) + 2 * worker_count lt max_workers + 1 \<and>
    (list_all finished_phase (xs_workers s) \<or> (\<exists>t. exec_step fl lt s t))"
proof
  show "n \<le> 5 * nat (lt_request_count lt) + 2 * worker_count lt max_workers + 1"
    using exec_steps_bounded [OF assms(2,1)] by (simp add: work_left_def start_execution_def sum_list_replicate)
  show "list_all finished_phase (xs_workers s) \<or> (\<exists>t. exec_step fl lt s t)"
    using exec_progress [of _ s fl lt] by (auto simp: list_all_iff)
qed

text \<open>A count load test sends every request exactly once. When the workers of a stored definition in count mode have all
  returned and the run was not cancelled, the indexes from zero to the request count have each been sent and recorded exactly once, whatever the
  interleaving; the total of the metrics is the request count and the sum of successes and failures; every target got its turn, the requests
  dealt round robin; and the reported responses are numbered one to the request count, each number once.\<close>

theorem count_load_test_sends_every_request:
  assumes "definition_ok lt" "lt_mode lt = LM_COUNT" "1 \<le> max_workers"
    and "(exec_step fl lt)\<^sup>*\<^sup>* (start_execution lt max_workers began) s" "execution_returns s" "\<not> xs_cancelled s"
  shows "mset (xs_handled s) = mset [0..<nat (lt_request_count lt)] \<and>
    mset (map ri_sequence (xs_reported s)) = mset [1..lt_request_count lt] \<and>
    int (mv_total (mx_all (xs_metrics s))) = lt_request_count lt \<and>
    mv_successful (mx_all (xs_metrics s)) + mv_failed (mx_all (xs_metrics s)) = mv_total (mx_all (xs_metrics s)) \<and>
    (\<forall>j < length (lt_targets lt). \<exists>mv. dget (mx_targets (xs_metrics s)) (tg_name (lt_targets lt ! j)) = Some mv \<and>
       int (mv_total mv) = lt_request_count lt div int (length (lt_targets lt)) +
         (if int j < lt_request_count lt mod int (length (lt_targets lt)) then 1 else 0))"
proof -
  note inv = count_returns(1) [OF assms] and seq = count_returns(2) [OF assms]
  let ?n = "nat (lt_request_count lt)"
  have n: "int ?n = lt_request_count lt" using assms(1) by (simp add: definition_ok_def)
  have handled: "mset (xs_handled s) = mset [0..<?n]"
    using exec_invD(1) [OF inv] returns_held [OF assms(5), of held_index] seq by simp
  then have len: "length (xs_handled s) = ?n" by (metis length_upt minus_nat.diff_0 size_mset)
  have share: "share lt j (xs_handled s) = share lt j [0..<?n]" for j
    unfolding share_def size_mset [symmetric] mset_filter handled ..
  show ?thesis
    using exec_invD(3,4) [OF inv] reported_numbers [OF inv seq assms(5,1)] handled len n
  proof (intro conjI allI impI)
    fix j assume j: "j < length (lt_targets lt)"
    from exec_invD(5) [OF inv j] obtain mv where "dget (mx_targets (xs_metrics s)) (tg_name (lt_targets lt ! j)) = Some mv"
      "mv_total mv = ?n div length (lt_targets lt) + (if j < ?n mod length (lt_targets lt) then 1 else 0)"
      unfolding share by (auto simp: share_def share_upt [OF j])
    moreover have "int (?n div length (lt_targets lt)) = lt_request_count lt div int (length (lt_targets lt))"
      "int (?n mod length (lt_targets lt)) = lt_request_count lt mod int (length (lt_targets lt))"
      using n by (simp_all add: zdiv_int zmod_int)
    ultimately show "\<exists>mv. dget (mx_targets (xs_metrics s)) (tg_name (lt_targets lt ! j)) = Some mv \<and>
       int (mv_total mv) = lt_request_count lt div int (length (lt_targets lt)) +
         (if int j < lt_request_count lt mod int (length (lt_targets lt)) then 1 else 0)"
      by (intro exI [of _ mv]) (auto simp flip: of_nat_mod)
  qed (simp_all add: counts_agree_def)
qed

definition exact_floats :: Floats where
  "exact_floats = \<lparr>fl_add = (+), fl_div = (/), fl_round3 = (\<lambda>x. x), fl_scale = (\<lambda>n q. \<lfloor>of_nat n * q\<rfloor>)\<rparr>"

definition demo_load_test :: LoadTestRecord where
  "demo_load_test = \<lparr>lt_id = 3, lt_project_id = 7, lt_name = ''smoke'', lt_description = [],
     lt_targets = [demo_target\<lparr>tg_method := ''GET''\<rparr>], lt_mode = LM_COUNT, lt_request_count = 1, lt_duration_seconds = 1,
     lt_concurrency = 1, lt_interval_ms = 0, lt_timeout_seconds = 30, lt_state_version = 0, lt_created_at = 0, lt_updated_at = 0,
     lt_environment_id = None, lt_traffic_mode = TM_REQUESTS, lt_initial_variables = [], lt_stop_on_failure = True, lt_category = []\<rparr>"

definition demo_details :: ResponseDetails where
  "demo_details = \<lparr>rd_body = None, rd_sample_body = PNone, rd_body_kind = ''empty'', rd_truncated = False, rd_body_bytes = 0\<rparr>"

definition demo_start :: ExecState where
  "demo_start = start_execution demo_load_test 100 0"

definition demo_taken :: ExecState where
  "demo_taken = take_index demo_load_test 0 False (set_phase 0 W_Take demo_start)"

definition demo_answered :: ExecState where
  "demo_answered = finish_request exact_floats demo_load_test 0 0 (Inr (200, demo_details)) 3 (0, 0) demo_taken"

definition demo_response :: ResponseItem where
  "demo_response = response_record exact_floats 1 ''home'' True (Some 200) 3 None (Some demo_details)"

definition demo_returned :: ExecState where
  "demo_returned = after_report exact_floats demo_load_test 0 0 False
     (set_phase 0 W_After (demo_answered\<lparr>xs_reported := xs_reported demo_answered @ [demo_response]\<rparr>))"

lemma demo_load_test_ok: "definition_ok demo_load_test"
  by (simp add: definition_ok_def demo_load_test_def demo_target_def target_ok_def HTTP_METHODS_def)

lemma demo_phases:
  "xs_workers demo_start = [W_Loop]" "\<not> xs_cancelled demo_start" "xs_workers demo_taken = [W_Request 0]"
  "xs_workers demo_answered = [W_Report demo_response]" "xs_workers demo_returned = [W_Done]" "\<not> xs_cancelled demo_returned"
  and demo_reported: "xs_reported demo_returned = [demo_response]"
proof -
  let ?lt = demo_load_test
  have lt: "tg_name (target_of ?lt 0) = ''home''" "tg_expected_statuses (target_of ?lt 0) = [200]" "lt_mode ?lt = LM_COUNT"
    "lt_request_count ?lt = 1" by (simp_all add: demo_load_test_def target_of_def demo_target_def)
  have start: "demo_start = \<lparr>xs_sequence = 0, xs_metrics = make_metrics [''home''] 0, xs_workers = [W_Loop], xs_cancelled = False,
      xs_reported = [], xs_handled = []\<rparr>"
    by (simp add: demo_start_def start_execution_def worker_count_def demo_load_test_def demo_target_def)
  have taken: "demo_taken = demo_start\<lparr>xs_sequence := 1, xs_workers := [W_Request 0]\<rparr>"
    by (simp add: demo_taken_def take_index_def start set_phase_def exhausted_def lt)
  have mv: "dget (mx_targets (xs_metrics demo_taken)) ''home'' = Some no_values" by (simp add: taken start make_metrics_def)
  obtain m where m: "metrics_add exact_floats (0, 0) ''home'' 3 True (Some 200) None (Some demo_details) (xs_metrics demo_taken) =
      (Inr (mv_total (mx_all (xs_metrics demo_taken)) + 1), m)" by (rule metrics_add_present [OF mv])
  have answered: "demo_answered = demo_taken\<lparr>xs_metrics := m, xs_handled := [0], xs_workers := [W_Report demo_response]\<rparr>"
    using m by (simp add: demo_answered_def finish_request_def request_result_def lt taken start set_phase_def make_metrics_def
        no_values_def demo_response_def)
  show "xs_workers demo_start = [W_Loop]" "\<not> xs_cancelled demo_start" "xs_workers demo_taken = [W_Request 0]"
    "xs_workers demo_answered = [W_Report demo_response]" by (simp_all add: start taken answered)
  show "xs_workers demo_returned = [W_Done]" "\<not> xs_cancelled demo_returned" "xs_reported demo_returned = [demo_response]"
    by (simp_all add: demo_returned_def after_report_def set_phase_def answered taken start exhausted_def lt)
qed

lemma demo_execution_reach:
  "(exec_step exact_floats demo_load_test)\<^sup>*\<^sup>* (start_execution demo_load_test 100 0) demo_returned"
  "(exec_step exact_floats demo_load_test ^^ 1) (start_execution demo_load_test 100 0) (set_phase 0 W_Take demo_start)"
proof -
  let ?step = "exec_step exact_floats demo_load_test"
  have a: "?step demo_start (set_phase 0 W_Take demo_start)"
    using x_loop [of 0 demo_start exact_floats demo_load_test] demo_phases(1,2) by simp
  have b: "?step (set_phase 0 W_Take demo_start) demo_taken"
    unfolding demo_taken_def by (rule x_take) (simp_all add: set_phase_def demo_phases(1))
  have c: "?step demo_taken demo_answered"
    unfolding demo_answered_def by (rule x_request) (simp_all add: demo_phases(3))
  have d: "?step demo_answered (set_phase 0 W_After (demo_answered\<lparr>xs_reported := xs_reported demo_answered @ [demo_response]\<rparr>))"
    by (rule x_report) (simp_all add: demo_phases(4))
  have e: "?step (set_phase 0 W_After (demo_answered\<lparr>xs_reported := xs_reported demo_answered @ [demo_response]\<rparr>)) demo_returned"
    unfolding demo_returned_def by (rule x_after) (simp_all add: set_phase_def demo_phases(4))
  show "?step\<^sup>*\<^sup>* (start_execution demo_load_test 100 0) demo_returned"
    using a b c d e unfolding demo_start_def by (blast intro: converse_rtranclp_into_rtranclp)
  show "(?step ^^ 1) (start_execution demo_load_test 100 0) (set_phase 0 W_Take demo_start)"
    using a by (auto simp: demo_start_def)
qed

theorem load_workers_always_finish_witness:
  "1 \<le> 5 * nat (lt_request_count demo_load_test) + 2 * worker_count demo_load_test 100 + 1 \<and>
    (\<exists>t. exec_step exact_floats demo_load_test (set_phase 0 W_Take demo_start) t)"
  using load_workers_always_finish [OF _ demo_execution_reach(2)] demo_phases(1)
  by (auto simp: demo_load_test_def set_phase_def finished_phase_def)

theorem count_load_test_sends_every_request_witness:
  "mset (xs_handled demo_returned) = {#0#} \<and> mv_total (mx_all (xs_metrics demo_returned)) = 1"
  using count_load_test_sends_every_request [OF demo_load_test_ok _ _ demo_execution_reach(1)] demo_phases(5,6)
  by (simp add: demo_load_test_def execution_returns_def)


section \<open>The executor under the service\<close>

text \<open>The definition an execution works on is one the repository held, so it is valid.\<close>

definition jobs_defined :: "LoadService \<Rightarrow> bool" where
  "jobs_defined s \<longleftrightarrow> (\<forall>k job. dget (ls_jobs s) k = Some job \<longrightarrow> definition_ok (lj_definition job))"

lemma jobs_defined_set:
  "jobs_defined s \<Longrightarrow> definition_ok (lj_definition job) \<Longrightarrow> jobs_defined (set_job k job s)"
  by (simp add: jobs_defined_def set_job_def dget_dset)

lemma jobs_defined_drop: "jobs_defined s \<Longrightarrow> jobs_defined (drop_job k s)"
  by (simp add: jobs_defined_def drop_job_def delete_conv)

lemma jobs_defined_repo [simp]: "jobs_defined (s\<lparr>ls_repo := r\<rparr>) = jobs_defined s"
  "jobs_defined (s\<lparr>ls_cancellations := c\<rparr>) = jobs_defined s" "jobs_defined (s\<lparr>ls_stopped := b\<rparr>) = jobs_defined s"
  by (simp_all add: jobs_defined_def)

lemma keeps_on_repo [keeps_rules]: "keeps jobs_defined (on_repo m)"
  by (simp add: keeps_def on_repo_def case_prod_beta)

lemma keeps_cancellations [keeps_rules]: "keeps jobs_defined (writes (\<lambda>s. s\<lparr>ls_cancellations := f s\<rparr>))"
  by (simp add: keeps_def)

lemma keeps_set_job: "definition_ok (lj_definition job) \<Longrightarrow> keeps jobs_defined (writes (set_job k job))"
  by (simp add: keeps_def jobs_defined_set)

lemma keeps_fail_load_run [keeps_rules]: "keeps jobs_defined (fail_load_run k m now)"
  unfolding fail_load_run_def by (intro keeps_rules)

lemma keeps_flush [keeps_rules]: "keeps jobs_defined (flush_responses k ids now)"
proof (rule keepsI)
  fix s assume s: "jobs_defined s"
  show "jobs_defined (snd (flush_responses k ids now s))"
  proof (cases "dget (ls_jobs s) k")
    case (Some job)
    with s have "definition_ok (lj_definition (job\<lparr>lj_pending := []\<rparr>))" by (simp add: jobs_defined_def)
    then have "keeps jobs_defined (bind (writes (set_job k (job\<lparr>lj_pending := []\<rparr>))) (\<lambda>_.
        bind (on_repo (add_run_responses k (lj_pending job) ids now)) (\<lambda>_. ret ())))"
      by (intro keeps_rules keeps_set_job)
    from keepsD [OF this s] s Some show ?thesis by (simp add: flush_responses_def)
  qed (use s in \<open>simp add: flush_responses_def\<close>)
qed

lemma keeps_finish: "keeps jobs_defined (execute_finish k job outcome message late ids now)"
proof (rule keepsI)
  fix s assume s: "jobs_defined s"
  show "jobs_defined (snd (execute_finish k job outcome message late ids now s))"
    unfolding execute_finish_def finally_do_def case_prod_beta snd_conv
    by (intro jobs_defined_drop) (simp, rule keepsD [where P = jobs_defined and s = s, OF _ s], intro keeps_rules)
qed

lemma jobs_defined_start:
  assumes "jobs_defined s" "load_inv (ls_repo s)"
  shows "jobs_defined (snd (start_run i submitted fresh now later s))"
proof (cases "dget (lo_definitions (ls_repo s)) i")
  case None
  with assms(1) show ?thesis by (simp add: start_run_def bind_def on_repo_def get_load_test_def)
next
  case (Some r)
  with assms(2) have ok: "definition_ok r" by (simp add: load_inv_def)
  have job: "keeps jobs_defined (writes (\<lambda>s. s\<lparr>ls_jobs := dset k
      \<lparr>lj_definition = r, lj_begun = False, lj_latest = [], lj_pending = []\<rparr> (ls_jobs s)\<rparr>))" for k
    using ok by (simp add: keeps_def jobs_defined_def dget_dset)
  have get: "on_repo (get_load_test i) s = (Inr r, s)" using Some by (simp add: on_repo_def get_load_test_def)
  show ?thesis
    unfolding start_run_def bind_of_Inr [of "on_repo (get_load_test i)", OF get]
    by (rule keepsD [where P = jobs_defined and s = s, OF _ assms(1)]) (intro keeps_rules job)
qed

lemma service_step_jobs:
  assumes "service_step jb x y" "service_inv x" "jobs_defined (snd x)"
  shows "jobs_defined (snd y)"
  using assms
proof (induction rule: service_step.induct)
  case (v_start s fresh g i submitted now later)
  then show ?case using jobs_defined_start service_invD(1) by fastforce
next
  case (v_cancel g s k)
  have "keeps jobs_defined (cancel_load_run k)"
    unfolding cancel_load_run_def by (intro keeps_rules) (simp add: keeps_def)
  with v_cancel show ?case by (simp add: keeps_def)
next
  case (v_begin s k job g)
  then show ?case by (auto simp: execute_begin_def on_repo_def case_prod_beta jobs_defined_def set_job_def drop_job_def dget_dset delete_conv
      split: sum.splits if_splits)
next
  case (v_snapshot s k job g metrics)
  then have "definition_ok (lj_definition (job\<lparr>lj_latest := metrics\<rparr>))" by (simp add: jobs_defined_def)
  then have "keeps jobs_defined (execute_snapshot k job metrics)"
    unfolding execute_snapshot_def by (intro keeps_rules keeps_set_job)
  with v_snapshot show ?case by (simp add: keeps_def)
next
  case (v_response s k job g item ids now)
  then have "definition_ok (lj_definition (job\<lparr>lj_pending := p\<rparr>))" for p by (simp add: jobs_defined_def)
  then have "keeps jobs_defined (execute_response k job item ids now)"
    unfolding execute_response_def Let_def by (intro keeps_rules keeps_set_job)
  with v_response show ?case by (simp add: keeps_def)
next
  case (v_finish s k job g outcome message late ids now)
  with keeps_finish show ?case by (simp add: keeps_def)
qed (auto simp: on_repo_def case_prod_beta shutdown_service_def)

lemma service_reachable_jobs:
  assumes "started jb s0" "(service_step jb)\<^sup>*\<^sup>* (g0, s0) x"
  shows "jobs_defined (snd x)"
  using assms(2)
proof (induction rule: rtranclp_induct)
  case base
  from assms(1) show ?case
    by (auto simp: started_def make_load_service_def recover_interrupted_runs_def on_repo_def case_prod_beta jobs_defined_def)
next
  case (step y z)
  show ?case by (rule service_step_jobs [OF step.hyps(2) service_reachable_inv [OF assms(1) step.hyps(1)] step.IH])
qed



lemma demo_load_test_stored: "the (dget (lo_definitions demo_load_repo) 3) = demo_load_test"
proof -
  have "li_description demo_load_input = []" "li_environment_id demo_load_input = None" "li_traffic_mode demo_load_input = TM_REQUESTS"
    "li_stop_on_failure demo_load_input" by (simp_all add: demo_load_input_def)
  then show ?thesis
    by (simp add: demo_load_repo_def create_load_test_def bind_def demo_load_input_ok empty_load_tests_def Let_def demo_load_test_def)
qed


end
