(* ===== verification/Workflow_Repo.thy ===== *)
theory Workflow_Repo
  imports Load_Test_Facts Workflow_Facts
begin

text \<open>
  Stored Data Factory workflows: the definition schemas of \<^verbatim>\<open>services/api/data_factory_schemas.py\<close>, the repository of
  \<^verbatim>\<open>services/api/data_factory_repository.py\<close> and the route that executes a stored workflow.

  A record keeps the dumped configuration of its nodes and every execution validates it again; the main result is that this never fails.
\<close>

section \<open>Node configurations\<close>

definition NODE_HTTP_METHODS :: "string list" where
  "NODE_HTTP_METHODS = [''GET'', ''POST'', ''PUT'', ''PATCH'', ''DELETE'', ''HEAD'']"

definition CONDITION_OPERATORS :: "string list" where
  "CONDITION_OPERATORS = [''equals'', ''not_equals'', ''contains'', ''exists'', ''gt'', ''gte'', ''lt'', ''lte'']"

text \<open>
  The pattern \<^verbatim>\<open>^\$(?:\.[A-Za-z_][A-Za-z0-9_-]*(?:\[[0-9]+\])?)*$\<close>: the part after the dollar sign is empty, or a dot and
  segments separated by dots.
\<close>

definition path_segment :: "string \<Rightarrow> bool" where
  "path_segment s = (case s of
     [] \<Rightarrow> False
   | c # cs \<Rightarrow> (ascii_letter c \<or> c = CHR ''_'') \<and>
       (let index = dropWhile (\<lambda>d. ascii_letter d \<or> ascii_digit d \<or> d \<in> set ''_-'') cs in
        index = [] \<or>
        hd index = CHR ''['' \<and> last index = CHR '']'' \<and> 3 \<le> length index \<and> list_all ascii_digit (butlast (tl index))))"

definition JSON_PATH_PATTERN :: "string \<Rightarrow> bool" where
  "JSON_PATH_PATTERN s = (case s of
     [] \<Rightarrow> False
   | c # rest \<Rightarrow> c = CHR ''$'' \<and>
       (case rest of [] \<Rightarrow> True | d # segments \<Rightarrow> d = CHR ''.'' \<and> list_all path_segment (split_on (CHR ''.'') segments)))"

record HttpNodeConfig =
  hc_method :: string
  hc_url :: string
  hc_headers :: params
  hc_query :: params
  hc_body :: pyval
  hc_extractions :: "(string, string) dict"
  hc_timeout_seconds :: pyfloat
  hc_expected_statuses :: "int list"

datatype NodeConfig =
    HttpConfig HttpNodeConfig
  | ConditionConfig string string pyval
  | ParallelConfig int

fun config_type :: "NodeConfig \<Rightarrow> WorkflowNodeType" where
  "config_type (HttpConfig _) = NT_HTTP"
| "config_type (ConditionConfig _ _ _) = NT_CONDITION"
| "config_type (ParallelConfig _) = NT_PARALLEL"

definition node_method :: "string \<Rightarrow> string res" where
  "node_method value =
     (let value = upper value in rbind (guard (value \<notin> set NODE_HTTP_METHODS) ValueError) (\<lambda>_. Inr value))"

definition validate_extractions :: "(string, string) dict \<Rightarrow> (string, string) dict res" where
  "validate_extractions value =
     rbind (guard (length value > 100) ValueError) (\<lambda>_.
     rbind (guard (list_ex (\<lambda>(name, path). \<not> VARIABLE_PATTERN name \<or> length path > 1024 \<or> \<not> JSON_PATH_PATTERN path) value) ValueError) (\<lambda>_.
     Inr value))"

definition node_timeout :: "pyfloat \<Rightarrow> bool" where
  "node_timeout t = (case t of Finite q \<Rightarrow> 0 < q \<and> q \<le> 120 | _ \<Rightarrow> False)"

fun validate_config :: "(pyval \<Rightarrow> int) \<Rightarrow> NodeConfig \<Rightarrow> NodeConfig res" where
  "validate_config json_bytes (HttpConfig c) =
     rbind (node_method (hc_method c)) (\<lambda>method.
     rbind (guard (\<not> (1 \<le> length (hc_url c) \<and> length (hc_url c) \<le> 8192)) ValueError) (\<lambda>_.
     rbind (validate_fields json_bytes (hc_headers c)) (\<lambda>headers.
     rbind (validate_fields json_bytes (hc_query c)) (\<lambda>query.
     rbind (bounded_json json_bytes (hc_body c)) (\<lambda>body.
     rbind (validate_extractions (hc_extractions c)) (\<lambda>extractions.
     rbind (guard (\<not> node_timeout (hc_timeout_seconds c)) ValueError) (\<lambda>_.
     rbind (validate_statuses (hc_expected_statuses c)) (\<lambda>statuses.
     Inr (HttpConfig \<lparr>hc_method = method, hc_url = hc_url c, hc_headers = headers, hc_query = query, hc_body = body,
       hc_extractions = extractions, hc_timeout_seconds = hc_timeout_seconds c, hc_expected_statuses = statuses\<rparr>)))))))))"
| "validate_config json_bytes (ConditionConfig left operator right) =
     rbind (guard (length left > 8192 \<or> operator \<notin> set CONDITION_OPERATORS) ValueError) (\<lambda>_.
     rbind (bounded_json json_bytes (PStr left)) (\<lambda>_.
     rbind (bounded_json json_bytes right) (\<lambda>right.
     Inr (ConditionConfig left operator right))))"
| "validate_config json_bytes (ParallelConfig n) =
     rbind (guard (\<not> (1 \<le> n \<and> n \<le> 100)) ValueError) (\<lambda>_. Inr (ParallelConfig n))"

text \<open>\<open>model_dump\<close> of a configuration.\<close>

fun config_dump :: "NodeConfig \<Rightarrow> params" where
  "config_dump (HttpConfig c) =
     [(''method'', PStr (hc_method c)), (''url'', PStr (hc_url c)), (''headers'', text_entries (hc_headers c)),
      (''query'', text_entries (hc_query c)), (''body'', hc_body c),
      (''extractions'', text_entries (map (\<lambda>(k, v). (k, PStr v)) (hc_extractions c))),
      (''timeout_seconds'', PFloat (hc_timeout_seconds c)), (''expected_statuses'', PList (map PInt (hc_expected_statuses c)))]"
| "config_dump (ConditionConfig left operator right) = [(''left'', PStr left), (''operator'', PStr operator), (''right'', right)]"
| "config_dump (ParallelConfig n) = [(''max_concurrency'', PInt n)]"

section \<open>Nodes, edges and definitions\<close>

text \<open>
  \<open>read\<close> is the schema library's reading of the fields of a configuration by their annotations, defaults included; it raises
  for anything that is not of these types.
\<close>

type_synonym config_reader = "WorkflowNodeType \<Rightarrow> params \<Rightarrow> NodeConfig res"

definition node_coordinate :: "pyfloat \<Rightarrow> bool" where
  "node_coordinate v = (case v of Finite q \<Rightarrow> - 1000000 \<le> q \<and> q \<le> 1000000 | _ \<Rightarrow> False)"

definition schema_identifier :: "string \<Rightarrow> bool" where
  "schema_identifier s \<longleftrightarrow> 1 \<le> length s \<and> length s \<le> 255 \<and> IDENTIFIER_PATTERN s"

definition validate_node :: "config_reader \<Rightarrow> (pyval \<Rightarrow> int) \<Rightarrow> WorkflowNode \<Rightarrow> WorkflowNode res" where
  "validate_node read json_bytes n =
     rbind (guard (\<not> schema_identifier (wn_id n)) ValueError) (\<lambda>_.
     rbind (guard (\<not> (1 \<le> length (wn_name n) \<and> length (wn_name n) \<le> 255)) ValueError) (\<lambda>_.
     rbind (guard (\<not> node_coordinate (wn_x n) \<or> \<not> node_coordinate (wn_y n)) ValueError) (\<lambda>_.
     rbind (read (wn_type n) (wn_config n)) (\<lambda>config.
     rbind (validate_config json_bytes config) (\<lambda>model.
     Inr (n\<lparr>wn_config := config_dump model\<rparr>))))))"

definition validate_edge :: "WorkflowEdge \<Rightarrow> WorkflowEdge res" where
  "validate_edge e =
     rbind (guard (\<not> schema_identifier (we_id e) \<or> \<not> schema_identifier (we_source e) \<or> \<not> schema_identifier (we_target e)) ValueError) (\<lambda>_.
     Inr e)"

definition validate_variables :: "(pyval \<Rightarrow> int) \<Rightarrow> params \<Rightarrow> params res" where
  "validate_variables json_bytes variables =
     rbind (guard (length variables > MAX_OBJECT_ITEMS) ValueError) (\<lambda>_.
     rbind (guard (\<not> list_all (\<lambda>(name, _). VARIABLE_PATTERN name) variables) ValueError) (\<lambda>_.
     rbind (bounded_json json_bytes (text_entries variables)) (\<lambda>_. Inr variables)))"

definition to_domain :: "WorkflowNode list \<Rightarrow> WorkflowEdge list \<Rightarrow> params \<Rightarrow> string \<Rightarrow> WorkflowDefinition" where
  "to_domain nodes edges variables workflow_id =
     \<lparr>wd_nodes = nodes, wd_edges = edges, wd_variables = variables, wd_id = workflow_id\<rparr>"

text \<open>\<open>model_validate\<close> of a definition; the library turns the \<open>WorkflowValidationError\<close> of the graph into its own \<open>ValueError\<close>.\<close>

definition validate_definition ::
  "config_reader \<Rightarrow> (pyval \<Rightarrow> int) \<Rightarrow> WorkflowNode list \<Rightarrow> WorkflowEdge list \<Rightarrow> params \<Rightarrow>
   (WorkflowNode list \<times> WorkflowEdge list \<times> params) res" where
  "validate_definition read json_bytes nodes edges variables =
     rbind (guard (length nodes > MAX_WORKFLOW_NODES \<or> length edges > MAX_WORKFLOW_EDGES) ValueError) (\<lambda>_.
     rbind (map_res (validate_node read json_bytes) nodes) (\<lambda>nodes.
     rbind (map_res validate_edge edges) (\<lambda>edges.
     rbind (validate_variables json_bytes variables) (\<lambda>variables.
     rbind (guard (isl (validate_workflow_graph (to_domain nodes edges variables ''debug''))) ValueError) (\<lambda>_.
     Inr (nodes, edges, variables))))))"

section \<open>Repository\<close>

record WorkflowRecord =
  wf_id :: uuid
  wf_project_id :: uuid
  wf_name :: string
  wf_description :: string
  wf_nodes :: "WorkflowNode list"
  wf_edges :: "WorkflowEdge list"
  wf_variables :: params
  wf_state_version :: int
  wf_created_at :: time
  wf_updated_at :: time

definition record_definition :: "config_reader \<Rightarrow> (pyval \<Rightarrow> int) \<Rightarrow> WorkflowRecord \<Rightarrow> WorkflowDefinition res" where
  "record_definition read json_bytes r =
     rbind (validate_definition read json_bytes (wf_nodes r) (wf_edges r) (wf_variables r)) (\<lambda>(nodes, edges, variables).
     Inr (to_domain nodes edges variables (uuid_str (wf_id r))))"

definition normalize_workflow_name :: "string \<Rightarrow> string res" where
  "normalize_workflow_name name =
     (let normalized = strip name in
      rbind (guard (normalized = [] \<or> length normalized > 255) ValueError) (\<lambda>_. Inr normalized))"

record WorkflowRepo =
  wq_workflows :: "(uuid, WorkflowRecord) dict"
  wq_names :: "(uuid \<times> string, uuid) dict"
  wq_runs :: "(uuid, WorkflowRunRecord list) dict"

definition empty_workflows :: WorkflowRepo where
  "empty_workflows = \<lparr>wq_workflows = [], wq_names = [], wq_runs = []\<rparr>"

record WorkflowInput =
  wi_project_id :: uuid
  wi_name :: string
  wi_description :: string
  wi_nodes :: "WorkflowNode list"
  wi_edges :: "WorkflowEdge list"
  wi_variables :: params

definition create_workflow ::
  "config_reader \<Rightarrow> (pyval \<Rightarrow> int) \<Rightarrow> WorkflowInput \<Rightarrow> uuid \<Rightarrow> time \<Rightarrow> (WorkflowRepo, WorkflowRecord) pyop" where
  "create_workflow read json_bytes inp fresh now =
     bind (lift (normalize_workflow_name (wi_name inp))) (\<lambda>name.
     bind (lift (validate_definition read json_bytes (wi_nodes inp) (wi_edges inp) (wi_variables inp))) (\<lambda>(nodes, edges, variables).
     bind (reads (\<lambda>s. dget (wq_names s) (wi_project_id inp, name))) (\<lambda>owner.
     if owner \<noteq> None then raise WorkflowNameConflict
     else
       (let rec = \<lparr>wf_id = fresh, wf_project_id = wi_project_id inp, wf_name = name, wf_description = wi_description inp,
                   wf_nodes = nodes, wf_edges = edges, wf_variables = variables, wf_state_version = 0,
                   wf_created_at = now, wf_updated_at = now\<rparr> in
        bind (writes (\<lambda>s. s\<lparr>wq_workflows := dset fresh rec (wq_workflows s)\<rparr>)) (\<lambda>_.
        bind (writes (\<lambda>s. s\<lparr>wq_names := dset (wi_project_id inp, name) fresh (wq_names s)\<rparr>)) (\<lambda>_.
        bind (writes (\<lambda>s. s\<lparr>wq_runs := dset fresh [] (wq_runs s)\<rparr>)) (\<lambda>_.
        ret rec)))))))"

definition get_workflow :: "uuid \<Rightarrow> (WorkflowRepo, WorkflowRecord) pyop" where
  "get_workflow workflow_id s = (case dget (wq_workflows s) workflow_id of
     None \<Rightarrow> (Inl WorkflowNotFound, s) | Some r \<Rightarrow> (Inr r, s))"

definition list_workflows :: "uuid \<Rightarrow> (WorkflowRepo, WorkflowRecord list) pyop" where
  "list_workflows project_id = reads (\<lambda>s. sort_key wf_created_at
     (filter (\<lambda>r. wf_project_id r = project_id) (dvalues (wq_workflows s))))"

definition update_workflow ::
  "config_reader \<Rightarrow> (pyval \<Rightarrow> int) \<Rightarrow> uuid \<Rightarrow> WorkflowInput \<Rightarrow> int \<Rightarrow> time \<Rightarrow> (WorkflowRepo, WorkflowRecord) pyop" where
  "update_workflow read json_bytes workflow_id inp expected_version now =
     bind (lift (normalize_workflow_name (wi_name inp))) (\<lambda>name.
     bind (lift (validate_definition read json_bytes (wi_nodes inp) (wi_edges inp) (wi_variables inp))) (\<lambda>(nodes, edges, variables).
     bind (get_workflow workflow_id) (\<lambda>current.
     if wf_project_id current \<noteq> wi_project_id inp then raise WorkflowConflict
     else if wf_state_version current \<noteq> expected_version then raise WorkflowVersionConflict
     else
       bind (reads (\<lambda>s. dget (wq_names s) (wi_project_id inp, name))) (\<lambda>owner.
       if owner \<noteq> None \<and> owner \<noteq> Some workflow_id then raise WorkflowNameConflict
       else
         (let updated = \<lparr>wf_id = wf_id current, wf_project_id = wi_project_id inp, wf_name = name,
                wf_description = wi_description inp, wf_nodes = nodes, wf_edges = edges, wf_variables = variables,
                wf_state_version = wf_state_version current + 1, wf_created_at = wf_created_at current, wf_updated_at = now\<rparr> in
          bind (writes (\<lambda>s. s\<lparr>wq_workflows := dset workflow_id updated (wq_workflows s)\<rparr>)) (\<lambda>_.
          bind (writes (\<lambda>s. s\<lparr>wq_names :=
            rename_index (wi_project_id inp, wf_name current) (wi_project_id inp, name) workflow_id (wq_names s)\<rparr>)) (\<lambda>_.
          ret updated)))))))"

definition delete_workflow :: "uuid \<Rightarrow> (WorkflowRepo, unit) pyop" where
  "delete_workflow workflow_id =
     bind (get_workflow workflow_id) (\<lambda>current.
     bind (writes (\<lambda>s. s\<lparr>wq_workflows := ddel workflow_id (wq_workflows s)\<rparr>)) (\<lambda>_.
     bind (writes (\<lambda>s. s\<lparr>wq_names := ddel (wf_project_id current, wf_name current) (wq_names s)\<rparr>)) (\<lambda>_.
     writes (\<lambda>s. s\<lparr>wq_runs := ddel workflow_id (wq_runs s)\<rparr>))))"

definition save_workflow_run :: "uuid \<Rightarrow> WorkflowRunRecord \<Rightarrow> (WorkflowRepo, WorkflowRunRecord) pyop" where
  "save_workflow_run workflow_id run =
     bind (get_workflow workflow_id) (\<lambda>_.
     if wr_workflow_id run \<noteq> uuid_str workflow_id then raise WorkflowConflict
     else
       bind (reads (\<lambda>s. dget (wq_runs s) workflow_id)) (\<lambda>runs.
       case runs of
         None \<Rightarrow> raise KeyError
       | Some runs \<Rightarrow> bind (writes (\<lambda>s. s\<lparr>wq_runs := dset workflow_id (runs @ [run]) (wq_runs s)\<rparr>)) (\<lambda>_. ret run)))"

text \<open>\<open>sorted(..., reverse=True)\<close> keeps the order of equal elements.\<close>

definition list_workflow_runs :: "uuid \<Rightarrow> (WorkflowRepo, WorkflowRunRecord list) pyop" where
  "list_workflow_runs workflow_id =
     bind (get_workflow workflow_id) (\<lambda>_.
     bind (reads (\<lambda>s. dget (wq_runs s) workflow_id)) (\<lambda>runs.
     case runs of
       None \<Rightarrow> raise KeyError
     | Some runs \<Rightarrow> ret (List.rev (sort_key wr_started_at (List.rev runs)))))"

section \<open>Executing a stored workflow\<close>

text \<open>
  The route \<open>execute_workflow\<close> of \<open>services/api/data_factory_routes.py\<close>; other requests can change the repository while the
  workflow runs, \<open>race\<close> is what they do.
\<close>

definition execute_stored_workflow ::
  "config_reader \<Rightarrow> (pyval \<Rightarrow> int) \<Rightarrow> Net \<Rightarrow> (string \<Rightarrow> nat \<Rightarrow> string) \<Rightarrow> int \<Rightarrow> string \<Rightarrow> string \<Rightarrow> string \<Rightarrow>
   (WorkflowRepo \<Rightarrow> WorkflowRepo) \<Rightarrow> uuid \<Rightarrow> params \<Rightarrow> (WorkflowRepo, WorkflowRunRecord) pyop" where
  "execute_stored_workflow read json_bytes net clock max_concurrency fresh began finished race workflow_id variables =
     bind (get_workflow workflow_id) (\<lambda>workflow.
     bind (lift (record_definition read json_bytes workflow)) (\<lambda>definition.
     bind (writes race) (\<lambda>_.
     bind (lift (execute_workflow net clock max_concurrency fresh began finished definition (Some variables)
       (Some (uuid_str workflow_id)))) (\<lambda>run.
     bind (save_workflow_run workflow_id run) (\<lambda>_.
     ret run)))))"

section \<open>Validation is stable\<close>

text \<open>
  What the development relies on of the schema library: it reads back what a model dumps, and it only builds the model it
  was asked for.
\<close>

definition reads_back :: "config_reader \<Rightarrow> bool" where
  "reads_back read \<longleftrightarrow> (\<forall>c. read (config_type c) (config_dump c) = Inr c) \<and>
     (\<forall>t p c. read t p = Inr c \<longrightarrow> config_type c = t)"

lemma bounded_json_same: "bounded_json jb v = Inr v' \<Longrightarrow> v' = v"
  by (auto simp: bounded_json_def validate_json_exact split: if_splits)

lemma bounded_json_again: "bounded_json jb v = Inr v' \<Longrightarrow> bounded_json jb v' = Inr v'"
  using bounded_json_same by blast

lemma validate_fields_same: "validate_fields jb d = Inr d' \<Longrightarrow> d' = d"
  by (auto simp: validate_fields_def)

lemma node_method_again: "node_method m = Inr m' \<Longrightarrow> node_method m' = Inr m'"
proof -
  assume "node_method m = Inr m'"
  then have "m' \<in> set NODE_HTTP_METHODS" by (auto simp: node_method_def Let_def)
  moreover have "list_all (\<lambda>m. upper m = m) NODE_HTTP_METHODS" by code_simp
  ultimately show ?thesis by (auto simp: node_method_def Let_def list_all_iff)
qed

lemma validate_config_again:
  assumes "validate_config jb c = Inr c'"
  shows "validate_config jb c' = Inr c' \<and> config_type c' = config_type c"
proof (cases c)
  case (HttpConfig h)
  with assms obtain m where "node_method (hc_method h) = Inr m" "c' = HttpConfig (h\<lparr>hc_method := m\<rparr>)"
    by (auto simp: validate_extractions_def validate_statuses_def dest!: bounded_json_same validate_fields_same)
  with HttpConfig assms node_method_again [of "hc_method h" m] show ?thesis
    by (auto dest: bounded_json_same validate_fields_same)
next
  case (ConditionConfig left operator right)
  with assms obtain right' where "bounded_json jb right = Inr right'" "c' = ConditionConfig left operator right'" by auto
  with ConditionConfig assms bounded_json_again [of jb right right'] show ?thesis by auto
qed (use assms in auto)

lemma validate_node_again:
  assumes "reads_back read" "validate_node read jb n = Inr n'"
  shows "validate_node read jb n' = Inr n'"
proof -
  from assms(2) obtain c c' where c: "read (wn_type n) (wn_config n) = Inr c" "validate_config jb c = Inr c'"
    and n': "n' = n\<lparr>wn_config := config_dump c'\<rparr>" by (auto simp: validate_node_def)
  from validate_config_again [OF c(2)] c(1) assms(1)
  have "validate_config jb c' = Inr c'" "read (wn_type n) (config_dump c') = Inr c'"
    by (metis reads_back_def)+
  with assms(2) show ?thesis by (auto simp: validate_node_def n')
qed

lemma map_res_again:
  assumes "\<And>x y. f x = Inr y \<Longrightarrow> f y = Inr y"
  shows "map_res f xs = Inr ys \<Longrightarrow> map_res f ys = Inr ys"
proof (induction xs arbitrary: ys)
  case (Cons x xs)
  then obtain y zs where "f x = Inr y" "map_res f xs = Inr zs" "ys = y # zs" by auto
  with Cons.IH [of zs] assms [of x y] show ?case by simp
qed simp

lemma not_isl_unit: "\<not> isl (r :: unit res) \<Longrightarrow> r = Inr ()"
  by (cases r) simp_all

lemma validate_definition_again:
  assumes "reads_back read" "validate_definition read jb nodes edges variables = Inr (nodes', edges', variables')"
  shows "validate_definition read jb nodes' edges' variables' = Inr (nodes', edges', variables') \<and>
    validate_workflow_graph (to_domain nodes' edges' variables' i) = Inr ()"
proof -
  from assms(2) have size: "length nodes \<le> MAX_WORKFLOW_NODES" "length edges \<le> MAX_WORKFLOW_EDGES"
    and nodes: "map_res (validate_node read jb) nodes = Inr nodes'" and edges: "map_res validate_edge edges = Inr edges'"
    and variables: "validate_variables jb variables = Inr variables'"
    and graph: "validate_workflow_graph (to_domain nodes' edges' variables' ''debug'') = Inr ()"
    by (auto simp: validate_definition_def dest: not_isl_unit)
  have "map_res (validate_node read jb) nodes' = Inr nodes'"
    by (rule map_res_again [OF validate_node_again [OF assms(1)] nodes])
  moreover have "map_res validate_edge edges' = Inr edges'"
    by (rule map_res_again [OF _ edges]) (auto simp: validate_edge_def)
  moreover have "validate_variables jb variables' = Inr variables'"
    using variables by (auto simp: validate_variables_def)
  moreover have "validate_workflow_graph (to_domain nodes' edges' variables' i) =
      validate_workflow_graph (to_domain nodes' edges' variables' ''debug'')"
    by (simp add: validate_workflow_graph_def to_domain_def)
  ultimately show ?thesis
    using graph size map_res_length [OF nodes] map_res_length [OF edges] by (simp add: validate_definition_def)
qed

section \<open>Steps and the contract of named records\<close>

inductive workflow_step :: "config_reader \<Rightarrow> (pyval \<Rightarrow> int) \<Rightarrow> WorkflowRepo \<Rightarrow> WorkflowRepo \<Rightarrow> bool"
  for read :: config_reader and jb :: "pyval \<Rightarrow> int" where
  w_create: "dget (wq_workflows s) fresh = None \<Longrightarrow> workflow_step read jb s (snd (create_workflow read jb inp fresh now s))"
| w_update: "workflow_step read jb s (snd (update_workflow read jb i inp v now s))"
| w_delete: "workflow_step read jb s (snd (delete_workflow i s))"
| w_run: "workflow_step read jb s (snd (save_workflow_run i run s))"

definition workflow_key :: "WorkflowRecord \<Rightarrow> uuid \<times> string" where
  "workflow_key r = (wf_project_id r, wf_name r)"

abbreviation workflow_index :: "WorkflowRepo \<Rightarrow> bool" where
  "workflow_index s \<equiv> index_ok wf_id workflow_key (wq_workflows s) (wq_names s)"

definition accepted :: "config_reader \<Rightarrow> (pyval \<Rightarrow> int) \<Rightarrow> WorkflowRecord \<Rightarrow> bool" where
  "accepted read jb r \<longleftrightarrow> (\<exists>nodes edges variables.
     validate_definition read jb nodes edges variables = Inr (wf_nodes r, wf_edges r, wf_variables r))"

lemma create_workflow_cases:
  "(\<exists>e. create_workflow read jb inp fresh now s = (Inl e, s)) \<or>
   (\<exists>r. wf_id r = fresh \<and> accepted read jb r \<and> dget (wq_names s) (workflow_key r) = None \<and>
      create_workflow read jb inp fresh now s = (Inr r, s\<lparr>wq_workflows := dset fresh r (wq_workflows s),
        wq_names := dset (workflow_key r) fresh (wq_names s), wq_runs := dset fresh [] (wq_runs s)\<rparr>))"
proof (cases "normalize_workflow_name (wi_name inp)")
  case (Inr name)
  show ?thesis
  proof (cases "validate_definition read jb (wi_nodes inp) (wi_edges inp) (wi_variables inp)")
    case (Inr x)
    obtain nodes edges variables where x: "x = (nodes, edges, variables)" by (cases x)
    with Inr have acc: "accepted read jb r" if "wf_nodes r = nodes" "wf_edges r = edges" "wf_variables r = variables" for r
      using that by (auto simp: accepted_def)
    show ?thesis
    proof (cases "dget (wq_names s) (wi_project_id inp, name)")
      case None
      then show ?thesis
        using acc by (intro disjI2) (simp add: create_workflow_def bind_def \<open>normalize_workflow_name _ = _\<close> Inr x Let_def workflow_key_def)
    qed (simp add: create_workflow_def bind_def \<open>normalize_workflow_name _ = _\<close> Inr x)
  qed (simp add: create_workflow_def bind_def Inr)
qed (simp add: create_workflow_def bind_def)

lemma update_workflow_Inl: "update_workflow read jb i inp v now s = (Inl e, t) \<Longrightarrow> t = s"
  by (auto simp: update_workflow_def bind_Inl_iff get_workflow_def Let_def split: option.splits if_splits prod.splits)

lemma update_workflow_Inr:
  assumes "update_workflow read jb i inp v now s = (Inr r', t)"
  shows "\<exists>r. dget (wq_workflows s) i = Some r \<and> wf_state_version r = v \<and> wf_id r' = wf_id r \<and>
     wf_state_version r' = wf_state_version r + 1 \<and> accepted read jb r' \<and>
     (dget (wq_names s) (workflow_key r') = None \<or> dget (wq_names s) (workflow_key r') = Some i) \<and>
     t = s\<lparr>wq_workflows := dset i r' (wq_workflows s), wq_names := rename_index (workflow_key r) (workflow_key r') i (wq_names s)\<rparr>"
  using assms
  by (auto simp: update_workflow_def bind_Inr_iff get_workflow_def Let_def workflow_key_def accepted_def split: option.splits if_splits prod.splits) blast+

lemma delete_workflow_cases:
  "(\<exists>e. delete_workflow i s = (Inl e, s)) \<or>
   (\<exists>r. dget (wq_workflows s) i = Some r \<and> delete_workflow i s = (Inr (), s\<lparr>wq_workflows := ddel i (wq_workflows s),
      wq_names := ddel (workflow_key r) (wq_names s), wq_runs := ddel i (wq_runs s)\<rparr>))"
  by (simp add: delete_workflow_def bind_def get_workflow_def workflow_key_def split: option.split)

lemma save_workflow_run_cases:
  "(\<exists>e. save_workflow_run i run s = (Inl e, s)) \<or>
   (\<exists>runs. dget (wq_workflows s) i \<noteq> None \<and> wr_workflow_id run = uuid_str i \<and> dget (wq_runs s) i = Some runs \<and>
      save_workflow_run i run s = (Inr run, s\<lparr>wq_runs := dset i (runs @ [run]) (wq_runs s)\<rparr>))"
  by (auto simp: save_workflow_run_def bind_def get_workflow_def split: option.split)

lemma workflow_step_shape:
  assumes "workflow_step read jb s t" "workflow_index s"
  shows "named_step wf_id workflow_key wf_state_version (wq_workflows s) (wq_names s) (wq_workflows t) (wq_names t)"
  using assms
proof (induction rule: workflow_step.induct)
  case (w_create s fresh inp now)
  with create_workflow_cases [of read jb inp fresh now s] show ?case by (auto simp: named_step_same intro: named_step_create)
next
  case (w_update s i inp v now)
  show ?case
  proof (cases "fst (update_workflow read jb i inp v now s)")
    case (Inl e)
    then have "update_workflow read jb i inp v now s = (Inl e, snd (update_workflow read jb i inp v now s))" by (simp add: prod_eq_iff)
    from update_workflow_Inl [OF this] have "snd (update_workflow read jb i inp v now s) = s" .
    then show ?thesis by (simp add: named_step_same)
  next
    case (Inr r')
    then have "update_workflow read jb i inp v now s = (Inr r', snd (update_workflow read jb i inp v now s))" by (simp add: prod_eq_iff)
    from update_workflow_Inr [OF this] obtain r where r: "dget (wq_workflows s) i = Some r" "wf_id r' = wf_id r"
      "wf_state_version r' = wf_state_version r + 1"
      "dget (wq_names s) (workflow_key r') = None \<or> dget (wq_names s) (workflow_key r') = Some i"
      and t: "snd (update_workflow read jb i inp v now s) = s\<lparr>wq_workflows := dset i r' (wq_workflows s),
        wq_names := rename_index (workflow_key r) (workflow_key r') i (wq_names s)\<rparr>" by blast
    have "dget (wq_names s) (workflow_key r) = Some i" using index_okD [OF w_update r(1)] by simp
    from named_step_rename [where rid = wf_id and nm = workflow_key and ver = wf_state_version, OF r dget_rename_index [OF this]]
    show ?thesis by (simp add: t)
  qed
next
  case (w_delete s i)
  with delete_workflow_cases [of i s] show ?case by (auto simp: named_step_same intro: named_step_delete)
next
  case (w_run s i run)
  with save_workflow_run_cases [of i run s] show ?case by (auto simp: named_step_same)
qed

interpretation workflows: named_repository
  wq_workflows wq_names wf_id workflow_key wf_state_version "workflow_step read jb" empty_workflows
  "\<lambda>(inp, now) i v. update_workflow read jb i inp v now" for read jb
proof unfold_locales
  fix c i v s r' t
  assume u: "(case c of (inp, now) \<Rightarrow> \<lambda>i v. update_workflow read jb i inp v now) i v s = (Inr r', t)"
  obtain inp now where c: "c = (inp, now)" by (cases c)
  have "workflow_step read jb s (snd (update_workflow read jb i inp v now s))" by (rule w_update)
  with u update_workflow_Inr [of read jb i inp v now s r' t]
  show "\<exists>r. dget (wq_workflows s) i = Some r \<and> wf_state_version r = v \<and> wf_state_version r' = v + 1 \<and>
      dget (wq_workflows t) i = Some r' \<and> workflow_step read jb s t"
    by (auto simp: c dget_dset)
qed (auto simp: empty_workflows_def split: prod.splits dest: update_workflow_Inl intro: workflow_step_shape)

section \<open>Invariant\<close>

definition runs_of_workflow :: "uuid \<Rightarrow> WorkflowRepo \<Rightarrow> bool" where
  "runs_of_workflow i s \<longleftrightarrow> (\<exists>runs. dget (wq_runs s) i = Some runs \<and> list_all (\<lambda>run. wr_workflow_id run = uuid_str i) runs)"

definition workflow_inv :: "config_reader \<Rightarrow> (pyval \<Rightarrow> int) \<Rightarrow> WorkflowRepo \<Rightarrow> bool" where
  "workflow_inv read jb s \<longleftrightarrow> (\<forall>i r. dget (wq_workflows s) i = Some r \<longrightarrow> accepted read jb r \<and> runs_of_workflow i s)"

lemma workflow_invI:
  "(\<And>i r. dget (wq_workflows s) i = Some r \<Longrightarrow> accepted read jb r \<and> runs_of_workflow i s) \<Longrightarrow> workflow_inv read jb s"
  by (simp add: workflow_inv_def)

lemma workflow_invD: "workflow_inv read jb s \<Longrightarrow> dget (wq_workflows s) i = Some r \<Longrightarrow> accepted read jb r \<and> runs_of_workflow i s"
  by (simp add: workflow_inv_def)

lemma workflow_step_inv:
  assumes "workflow_step read jb s t" "workflow_inv read jb s"
  shows "workflow_inv read jb t"
  using assms
proof (induction rule: workflow_step.induct)
  case (w_create s fresh inp now)
  from create_workflow_cases [of read jb inp fresh now s] show ?case
  proof (elim disjE exE conjE)
    fix r assume r: "accepted read jb r" "create_workflow read jb inp fresh now s = (Inr r, s\<lparr>wq_workflows := dset fresh r (wq_workflows s),
        wq_names := dset (workflow_key r) fresh (wq_names s), wq_runs := dset fresh [] (wq_runs s)\<rparr>)"
    show ?thesis
      unfolding r(2) snd_conv using r(1) workflow_invD [OF w_create(2)]
      by (intro workflow_invI) (auto simp: dget_dset runs_of_workflow_def split: if_splits)
  qed (use w_create in simp)
next
  case (w_update s i inp v now)
  show ?case
  proof (cases "update_workflow read jb i inp v now s")
    case (Pair x t)
    show ?thesis
    proof (cases x)
      case (Inl e)
      with Pair update_workflow_Inl [of read jb i inp v now s e t] w_update show ?thesis by simp
    next
      case (Inr r')
      from update_workflow_Inr [OF Pair [unfolded Inr]] obtain r where r: "dget (wq_workflows s) i = Some r" "accepted read jb r'"
        and t: "t = s\<lparr>wq_workflows := dset i r' (wq_workflows s), wq_names := rename_index (workflow_key r) (workflow_key r') i (wq_names s)\<rparr>"
        by blast
      have "workflow_inv read jb t"
        using r(2) workflow_invD [OF w_update r(1)] workflow_invD [OF w_update]
        by (intro workflow_invI) (auto simp: t dget_dset runs_of_workflow_def split: if_splits)
      with Pair show ?thesis by simp
    qed
  qed
next
  case (w_delete s i)
  from delete_workflow_cases [of i s] show ?case
  proof (elim disjE exE conjE)
    fix r assume t: "delete_workflow i s = (Inr (), s\<lparr>wq_workflows := ddel i (wq_workflows s),
      wq_names := ddel (workflow_key r) (wq_names s), wq_runs := ddel i (wq_runs s)\<rparr>)"
    show ?thesis
      unfolding t snd_conv using workflow_invD [OF w_delete]
      by (intro workflow_invI) (auto simp: delete_conv runs_of_workflow_def split: if_splits)
  qed (use w_delete in simp)
next
  case (w_run s i run)
  from save_workflow_run_cases [of i run s] show ?case
  proof (elim disjE exE conjE)
    fix runs assume run: "dget (wq_workflows s) i \<noteq> None" "wr_workflow_id run = uuid_str i" "dget (wq_runs s) i = Some runs"
      and t: "save_workflow_run i run s = (Inr run, s\<lparr>wq_runs := dset i (runs @ [run]) (wq_runs s)\<rparr>)"
    from run(1) workflow_invD [OF w_run, of i] run(3) have "list_all (\<lambda>run. wr_workflow_id run = uuid_str i) runs"
      by (auto simp: runs_of_workflow_def)
    then show ?thesis
      unfolding t snd_conv using workflow_invD [OF w_run] run(2)
      by (intro workflow_invI) (auto simp: dget_dset runs_of_workflow_def)
  qed (use w_run in simp)
qed

lemma workflow_reachable_inv: "(workflow_step read jb)\<^sup>*\<^sup>* empty_workflows s \<Longrightarrow> workflow_inv read jb s"
  by (induction rule: rtranclp_induct) (auto simp: workflow_inv_def empty_workflows_def dest: workflow_step_inv)

lemma accepted_reads_back:
  assumes "reads_back read" "accepted read jb r"
  shows "record_definition read jb r = Inr (to_domain (wf_nodes r) (wf_edges r) (wf_variables r) (uuid_str (wf_id r)))"
    "validate_workflow_graph (to_domain (wf_nodes r) (wf_edges r) (wf_variables r) i) = Inr ()"
proof -
  from assms(2) obtain nodes edges variables
    where "validate_definition read jb nodes edges variables = Inr (wf_nodes r, wf_edges r, wf_variables r)" by (auto simp: accepted_def)
  note again = validate_definition_again [OF assms(1) this]
  then show "record_definition read jb r = Inr (to_domain (wf_nodes r) (wf_edges r) (wf_variables r) (uuid_str (wf_id r)))"
    by (simp add: record_definition_def)
  from again show "validate_workflow_graph (to_domain (wf_nodes r) (wf_edges r) (wf_variables r) i) = Inr ()" by blast
qed

lemma uuid_str_not_empty: "uuid_str u \<noteq> []"
  by (simp add: uuid_str_def Let_def)

lemma executed_workflow_id:
  "execute_workflow net clock n fresh began finished d vars (Some (uuid_str i)) = Inr run \<Longrightarrow> wr_workflow_id run = uuid_str i"
  by (auto simp: execute_workflow_def run_workflow_id_def uuid_str_not_empty split: prod.splits if_splits)

section \<open>Demonstration\<close>

text \<open>A reader that takes the fields of a dump by their names.\<close>

definition field :: "params \<Rightarrow> string \<Rightarrow> pyval" where
  "field p k = (case dget p k of None \<Rightarrow> PNone | Some v \<Rightarrow> v)"

fun text_of :: "pyval \<Rightarrow> string" where
  "text_of (PStr s) = s"
| "text_of _ = []"

fun int_of :: "pyval \<Rightarrow> int" where
  "int_of (PInt n) = n"
| "int_of _ = 0"

fun float_of :: "pyval \<Rightarrow> pyfloat" where
  "float_of (PFloat f) = f"
| "float_of _ = NaN"

fun items_of :: "pyval \<Rightarrow> pyval list" where
  "items_of (PList xs) = xs"
| "items_of _ = []"

fun entries_of :: "pyval \<Rightarrow> params" where
  "entries_of (PDict d) = map (\<lambda>(k, v). (text_of k, v)) d"
| "entries_of _ = []"

definition demo_reader :: config_reader where
  "demo_reader t p = (case t of
     NT_HTTP \<Rightarrow> Inr (HttpConfig \<lparr>hc_method = text_of (field p ''method''), hc_url = text_of (field p ''url''),
       hc_headers = entries_of (field p ''headers''), hc_query = entries_of (field p ''query''), hc_body = field p ''body'',
       hc_extractions = map (\<lambda>(k, v). (k, text_of v)) (entries_of (field p ''extractions'')),
       hc_timeout_seconds = float_of (field p ''timeout_seconds''),
       hc_expected_statuses = map int_of (items_of (field p ''expected_statuses''))\<rparr>)
   | NT_CONDITION \<Rightarrow> Inr (ConditionConfig (text_of (field p ''left'')) (text_of (field p ''operator'')) (field p ''right''))
   | NT_PARALLEL \<Rightarrow> Inr (ParallelConfig (int_of (field p ''max_concurrency''))))"

lemma demo_reader_reads_back: "reads_back demo_reader"
  unfolding reads_back_def
proof (intro conjI allI impI)
  fix c show "demo_reader (config_type c) (config_dump c) = Inr c"
    by (cases c) (simp_all add: demo_reader_def field_def comp_def case_prod_beta)
next
  fix t p c assume "demo_reader t p = Inr c" then show "config_type c = t"
    by (cases t) (auto simp: demo_reader_def)
qed

definition demo_workflow_input :: WorkflowInput where
  "demo_workflow_input = \<lparr>wi_project_id = 7, wi_name = ''flow'', wi_description = [],
     wi_nodes = [demo_node ''both'' NT_PARALLEL [(''max_concurrency'', PInt 3)]], wi_edges = [], wi_variables = []\<rparr>"

definition demo_workflows :: WorkflowRepo where
  "demo_workflows = snd (create_workflow demo_reader (\<lambda>_. 2) demo_workflow_input 4 0 empty_workflows)"

lemma demo_workflows_reach: "(workflow_step demo_reader (\<lambda>_. 2))\<^sup>*\<^sup>* empty_workflows demo_workflows"
  unfolding demo_workflows_def by (rule r_into_rtranclp, rule w_create) (simp add: empty_workflows_def)

lemma demo_workflow_stored: "\<exists>r. dget (wq_workflows demo_workflows) 4 = Some r"
proof -
  have s: "strip ''flow'' = ''flow''" by code_simp
  have g: "validate_workflow_graph (to_domain (wi_nodes demo_workflow_input) [] [] ''debug'') = Inr ()" by code_simp
  have i: "IDENTIFIER_PATTERN ''both''" by code_simp
  have "validate_definition demo_reader (\<lambda>_. 2) (wi_nodes demo_workflow_input) [] [] = Inr (wi_nodes demo_workflow_input, [], [])"
    using g i by (simp add: validate_definition_def demo_workflow_input_def demo_node_def validate_node_def schema_identifier_def
        node_coordinate_def demo_reader_def field_def validate_variables_def bounded_json_def validate_json_exact MAX_JSON_BYTES_def
        MAX_OBJECT_ITEMS_def MAX_WORKFLOW_NODES_def MAX_WORKFLOW_EDGES_def)
  then have "validate_definition demo_reader (\<lambda>_. 2) (wi_nodes demo_workflow_input) (wi_edges demo_workflow_input)
      (wi_variables demo_workflow_input) = Inr (wi_nodes demo_workflow_input, [], [])"
    "wi_name demo_workflow_input = ''flow''" by (simp_all add: demo_workflow_input_def)
  then show ?thesis
    by (simp add: demo_workflows_def create_workflow_def bind_def normalize_workflow_name_def s Let_def empty_workflows_def)
qed

section \<open>Properties\<close>

text \<open>C30. A stored workflow always runs, and its run is kept. Whatever sequence of creations, updates, deletions and runs led to
  the repository, the definition read back from a stored workflow passes the schemas again, is node for node the stored one and is a valid graph.
  Executing it through the API therefore does exactly what the executor does: when it raises, the request raises the same and stores nothing;
  when it returns a run, the request returns it and appends it to the runs of the workflow, if the workflow still exists after what other requests
  did meanwhile, and otherwise raises \<open>WorkflowNotFound\<close>.\<close>

theorem stored_workflow_always_runs:
  assumes "reads_back read" "(workflow_step read jb)\<^sup>*\<^sup>* empty_workflows s" "dget (wq_workflows s) i = Some w"
    and "(workflow_step read jb)\<^sup>*\<^sup>* s (race s)"
  shows "\<exists>d. record_definition read jb w = Inr d \<and> wd_nodes d = wf_nodes w \<and> wd_edges d = wf_edges w \<and>
    wd_variables d = wf_variables w \<and> wd_id d = uuid_str i \<and> validate_workflow_graph d = Inr () \<and>
    execute_stored_workflow read jb net clock n fresh began finished race i vars s =
      (case execute_workflow net clock n fresh began finished d (Some vars) (Some (uuid_str i)) of
         Inl e \<Rightarrow> (Inl e, race s)
       | Inr run \<Rightarrow> (if dget (wq_workflows (race s)) i = None then (Inl WorkflowNotFound, race s)
           else (Inr run, (race s)\<lparr>wq_runs := dset i (the (dget (wq_runs (race s)) i) @ [run]) (wq_runs (race s))\<rparr>)))"
proof (intro exI conjI)
  let ?d = "to_domain (wf_nodes w) (wf_edges w) (wf_variables w) (uuid_str i)"
  have "wf_id w = i" using index_okD [OF workflows.reachable_index [OF assms(2)] assms(3)] by simp
  moreover have acc: "accepted read jb w" using workflow_invD [OF workflow_reachable_inv [OF assms(2)] assms(3)] by blast
  ultimately show d: "record_definition read jb w = Inr ?d" using accepted_reads_back(1) [OF assms(1)] by simp
  show "validate_workflow_graph ?d = Inr ()" by (rule accepted_reads_back(2) [OF assms(1) acc])
  show "execute_stored_workflow read jb net clock n fresh began finished race i vars s =
      (case execute_workflow net clock n fresh began finished ?d (Some vars) (Some (uuid_str i)) of
         Inl e \<Rightarrow> (Inl e, race s)
       | Inr run \<Rightarrow> (if dget (wq_workflows (race s)) i = None then (Inl WorkflowNotFound, race s)
           else (Inr run, (race s)\<lparr>wq_runs := dset i (the (dget (wq_runs (race s)) i) @ [run]) (wq_runs (race s))\<rparr>)))"
  proof (cases "execute_workflow net clock n fresh began finished ?d (Some vars) (Some (uuid_str i))")
    case (Inl e)
    then show ?thesis by (simp add: execute_stored_workflow_def bind_def get_workflow_def assms(3) d)
  next
    case (Inr run)
    have id: "wr_workflow_id run = uuid_str i" by (rule executed_workflow_id [OF Inr])
    show ?thesis
    proof (cases "dget (wq_workflows (race s)) i")
      case None
      with Inr show ?thesis
        by (simp add: execute_stored_workflow_def bind_def get_workflow_def assms(3) d save_workflow_run_def)
    next
      case (Some w')
      have "workflow_inv read jb (race s)" by (rule workflow_reachable_inv [OF rtranclp_trans [OF assms(2,4)]])
      from workflow_invD [OF this Some] obtain runs where "dget (wq_runs (race s)) i = Some runs" by (auto simp: runs_of_workflow_def)
      with Inr Some id show ?thesis
        by (simp add: execute_stored_workflow_def bind_def get_workflow_def assms(3) d save_workflow_run_def)
    qed
  qed
qed (simp_all add: to_domain_def)

theorem stored_workflow_always_runs_witness:
  "\<exists>w d. dget (wq_workflows demo_workflows) 4 = Some w \<and> record_definition demo_reader (\<lambda>_. 2) w = Inr d \<and>
     validate_workflow_graph d = Inr ()"
proof -
  obtain w where w: "dget (wq_workflows demo_workflows) 4 = Some w" using demo_workflow_stored by blast
  from stored_workflow_always_runs [where race = "\<lambda>s. s", OF demo_reader_reads_back demo_workflows_reach w]
  show ?thesis using w by blast
qed

end
