(* ===== verification/File_System.thy ===== *)
theory File_System
  imports Prelude
begin

text \<open>
  A POSIX file system as far as the program uses one: files, directories and symbolic links, path resolution, and the calls of
  \<^verbatim>\<open>pathlib\<close> and \<^verbatim>\<open>os\<close> that read and change it.
\<close>

section \<open>A file system\<close>

text \<open>
  Nodes by their absolute path; a link holds the absolute path it stands for. \<open>walk\<close> is the path resolution of the operating
  system, which gives up after \<open>LINK_LIMIT\<close> links; \<open>walk_lenient\<close> is \<open>Path.resolve()\<close>, which keeps the rest of a path that does
  not exist. The disk itself does not fail.
\<close>

type_synonym path = "string list"

datatype fsnode = FileNode string | DirNode | LinkNode path

type_synonym filesys = "path \<rightharpoonup> fsnode"

abbreviation OSError :: exn where
  "OSError \<equiv> OtherException ''OSError''"

definition LINK_LIMIT :: nat where
  "LINK_LIMIT = 40"

function (sequential) walk :: "nat \<Rightarrow> filesys \<Rightarrow> path \<Rightarrow> path \<Rightarrow> path option" where
  "walk n fs cur [] = Some cur"
| "walk n fs cur (p # ps) =
     (if p = ''..'' then walk n fs (butlast cur) ps
      else case fs (cur @ [p]) of
        None \<Rightarrow> None
      | Some DirNode \<Rightarrow> walk n fs (cur @ [p]) ps
      | Some (FileNode _) \<Rightarrow> if ps = [] then Some (cur @ [p]) else None
      | Some (LinkNode t) \<Rightarrow> (case n of 0 \<Rightarrow> None | Suc m \<Rightarrow> walk m fs [] (t @ ps)))"
  by pat_completeness auto
termination
  by (relation "measures [\<lambda>(n, _, _, _). n, \<lambda>(_, _, _, ps). length ps]") auto

function (sequential) walk_lenient :: "nat \<Rightarrow> filesys \<Rightarrow> path \<Rightarrow> path \<Rightarrow> path option" where
  "walk_lenient n fs cur [] = Some cur"
| "walk_lenient n fs cur (p # ps) =
     (if p = ''..'' then walk_lenient n fs (butlast cur) ps
      else case fs (cur @ [p]) of
        Some (LinkNode t) \<Rightarrow> (case n of 0 \<Rightarrow> None | Suc m \<Rightarrow> walk_lenient m fs [] (t @ ps))
      | _ \<Rightarrow> walk_lenient n fs (cur @ [p]) ps)"
  by pat_completeness auto
termination
  by (relation "measures [\<lambda>(n, _, _, _). n, \<lambda>(_, _, _, ps). length ps]") auto

definition resolve_strict :: "filesys \<Rightarrow> path \<Rightarrow> path option" where
  "resolve_strict fs p = walk LINK_LIMIT fs [] p"

definition resolve_lenient :: "path \<Rightarrow> (filesys, path) pyop" where
  "resolve_lenient p fs = (case walk_lenient LINK_LIMIT fs [] p of None \<Rightarrow> (Inl RuntimeError, fs) | Some q \<Rightarrow> (Inr q, fs))"

definition path_exists :: "filesys \<Rightarrow> path \<Rightarrow> bool" where
  "path_exists fs p \<longleftrightarrow> resolve_strict fs p \<noteq> None"

definition is_dir :: "filesys \<Rightarrow> path \<Rightarrow> bool" where
  "is_dir fs p \<longleftrightarrow> (case resolve_strict fs p of None \<Rightarrow> False | Some q \<Rightarrow> q = [] \<or> fs q = Some DirNode)"

definition is_file :: "filesys \<Rightarrow> path \<Rightarrow> bool" where
  "is_file fs p \<longleftrightarrow> (case resolve_strict fs p of None \<Rightarrow> False
     | Some q \<Rightarrow> q \<noteq> [] \<and> (case fs q of Some (FileNode _) \<Rightarrow> True | _ \<Rightarrow> False))"

definition is_symlink :: "filesys \<Rightarrow> path \<Rightarrow> bool" where
  "is_symlink fs p \<longleftrightarrow> p \<noteq> [] \<and> (case resolve_strict fs (butlast p) of None \<Rightarrow> False
     | Some q \<Rightarrow> (case fs (q @ [last p]) of Some (LinkNode _) \<Rightarrow> True | _ \<Rightarrow> False))"

definition read_file :: "filesys \<Rightarrow> path \<Rightarrow> string res" where
  "read_file fs p = (case resolve_strict fs p of None \<Rightarrow> Inl OSError
     | Some q \<Rightarrow> (case fs q of Some (FileNode c) \<Rightarrow> Inr c | _ \<Rightarrow> Inl OSError))"

text \<open>\<open>mkdir(exist_ok=True)\<close>, \<open>mkdir(parents=True, exist_ok=True)\<close>, and a write to a temporary file that then replaces the target.\<close>

definition mkdir :: "path \<Rightarrow> (filesys, unit) pyop" where
  "mkdir p fs =
     (if is_dir fs p then (Inr (), fs)
      else if is_dir fs (butlast p) then
        (case resolve_strict fs (butlast p) of
           None \<Rightarrow> (Inl OSError, fs)
         | Some q \<Rightarrow> if fs (q @ [last p]) = None then (Inr (), fs(q @ [last p] \<mapsto> DirNode)) else (Inl OSError, fs))
      else (Inl OSError, fs))"

fun mkdirs_below :: "path \<Rightarrow> path \<Rightarrow> (filesys, unit) pyop" where
  "mkdirs_below cur [] = ret ()"
| "mkdirs_below cur (p # ps) = bind (mkdir (cur @ [p])) (\<lambda>_. mkdirs_below (cur @ [p]) ps)"

definition mkdirs :: "path \<Rightarrow> (filesys, unit) pyop" where
  "mkdirs p = mkdirs_below [] p"

definition replace_file :: "path \<Rightarrow> string \<Rightarrow> (filesys, unit) pyop" where
  "replace_file p content fs =
     (if p \<noteq> [] \<and> is_dir fs (butlast p) then
        (case resolve_strict fs (butlast p) of
           None \<Rightarrow> (Inl OSError, fs)
         | Some q \<Rightarrow> if fs (q @ [last p]) = Some DirNode then (Inl OSError, fs) else (Inr (), fs(q @ [last p] \<mapsto> FileNode content)))
      else (Inl OSError, fs))"

definition atomic_write :: "path \<Rightarrow> string \<Rightarrow> (filesys, unit) pyop" where
  "atomic_write target content = bind (mkdirs (butlast target)) (\<lambda>_. replace_file target content)"

subsection \<open>Paths without links\<close>

text \<open>Every directory on the way is one: such a path stands for itself.\<close>

definition plain :: "filesys \<Rightarrow> path \<Rightarrow> bool" where
  "plain fs p \<longleftrightarrow> ''..'' \<notin> set p \<and> (\<forall>n. 0 < n \<longrightarrow> n \<le> length p \<longrightarrow> fs (take n p) = Some DirNode)"

lemma plain_Nil [simp]: "plain fs []"
  by (simp add: plain_def)

lemma plain_append: "plain fs (p @ q) \<Longrightarrow> plain fs p"
  unfolding plain_def
proof (elim conjE, intro conjI allI impI)
  fix n assume *: "\<forall>n>0. n \<le> length (p @ q) \<longrightarrow> fs (take n (p @ q)) = Some DirNode" "0 < n" "n \<le> length p"
  from *(1) [rule_format, OF *(2)] *(3) show "fs (take n p) = Some DirNode" by simp
qed simp

lemma plain_node: "plain fs p \<Longrightarrow> p \<noteq> [] \<Longrightarrow> fs p = Some DirNode"
  unfolding plain_def by (elim conjE allE [of _ "length p"]) simp

lemma plain_snoc [simp]: "plain fs (p @ [x]) \<longleftrightarrow> plain fs p \<and> x \<noteq> ''..'' \<and> fs (p @ [x]) = Some DirNode"
proof
  assume *: "plain fs (p @ [x])"
  from plain_append [OF *] plain_node [OF *] * show "plain fs p \<and> x \<noteq> ''..'' \<and> fs (p @ [x]) = Some DirNode" by (auto simp: plain_def)
qed (auto simp: plain_def le_Suc_eq)

lemma plain_first: "plain fs (cur @ x # p) \<Longrightarrow> x \<noteq> ''..'' \<and> fs (cur @ [x]) = Some DirNode"
  using plain_append [of fs "cur @ [x]" p] by simp

lemma walk_plain: "plain fs (cur @ p) \<Longrightarrow> walk n fs cur (p @ q) = walk n fs (cur @ p) q"
proof (induction p arbitrary: cur)
  case (Cons x p)
  then show ?case using plain_first [OF Cons.prems] Cons.IH [of "cur @ [x]"] by simp
qed simp

lemma walk_lenient_plain: "plain fs (cur @ p) \<Longrightarrow> walk_lenient n fs cur (p @ q) = walk_lenient n fs (cur @ p) q"
proof (induction p arbitrary: cur)
  case (Cons x p)
  then show ?case using plain_first [OF Cons.prems] Cons.IH [of "cur @ [x]"] by simp
qed simp

lemma resolve_plain [simp]: "plain fs p \<Longrightarrow> resolve_strict fs p = Some p"
  using walk_plain [of fs "[]" p LINK_LIMIT "[]"] by (simp add: resolve_strict_def)

lemma resolve_lenient_plain [simp]: "plain fs p \<Longrightarrow> resolve_lenient p fs = (Inr p, fs)"
  using walk_lenient_plain [of fs "[]" p LINK_LIMIT "[]"] by (simp add: resolve_lenient_def)

lemma resolve_plain_snoc:
  "plain fs p \<Longrightarrow> x \<noteq> ''..'' \<Longrightarrow> resolve_strict fs (p @ [x]) =
     (case fs (p @ [x]) of None \<Rightarrow> None | Some (LinkNode t) \<Rightarrow> walk 39 fs [] t | _ \<Rightarrow> Some (p @ [x]))"
  using walk_plain [of fs "[]" p LINK_LIMIT "[x]"]
  by (simp add: resolve_strict_def LINK_LIMIT_def eval_nat_numeral split: option.split fsnode.split)

lemma plain_dir [simp]: "plain fs p \<Longrightarrow> is_dir fs p"
  by (cases p rule: rev_cases) (auto simp: is_dir_def)

lemma plain_symlink [simp]: "plain fs p \<Longrightarrow> is_symlink fs (p @ [x]) \<longleftrightarrow> (\<exists>t. fs (p @ [x]) = Some (LinkNode t))"
  by (auto simp: is_symlink_def split: option.split fsnode.split)

end
