(* ===== verification/Runner_Agent.thy ===== *)
theory Runner_Agent
  imports Runner_Facts
begin

text \<open>
  The agent that runs a task beside its adapter, \<^verbatim>\<open>runner/agent.py\<close>, the adapters' contract of \<^verbatim>\<open>runner/adapters/base.py\<close>, and the
  executor that starts it on the host, \<^verbatim>\<open>services/host_executor.py\<close>.

  The agent is an executor in the sense of the runner manager: a tree that branches on whether the event sink raised. It is written in
  continuation style, with the heartbeats of the second thread placed between its own events.
\<close>

section \<open>Adapters\<close>

record AdapterResult =
  ad_outcome :: ResultOutcome
  ad_message :: string
  ad_details :: params
  ad_stdout :: string
  ad_stderr :: string
  ad_exit_code :: "int option"
  ad_timed_out :: bool

text \<open>
  What an adapter does when it runs: it returns, raises, or reports a piece of output through the callback it was given and
  goes on, told whether the callback raised.
\<close>

datatype adapter_tree =
    A_Return AdapterResult
  | A_Raise exn
  | A_Output string string "exn option \<Rightarrow> adapter_tree"

datatype Adapter =
    Streaming "TaskEnvelope \<Rightarrow> adapter_tree"
  | Plain "TaskEnvelope \<Rightarrow> AdapterResult res"

section \<open>The agent\<close>

text \<open>
  A file below the artifact root, as \<open>rglob\<close> finds it, with what \<open>stat\<close>, \<open>relative_to\<close> and
  \<open>mimetypes.guess_type\<close> say about it; \<open>Inl\<close> is an exception of one of these calls.
\<close>

record ArtifactFile =
  af_relative :: string
  af_name :: string
  af_size :: int
  af_content_type :: "string option"

text \<open>
  The surroundings of a run: the identifiers and times drawn for the events, in the order of the calls of \<open>_emit\<close>; the number of
  heartbeats that fall due before the next event of the agent itself, and after the last one until the thread has stopped; the
  artifact files, \<open>None\<close> without an artifact root; and the duration and the completion time of the result.
\<close>

record AgentEnv =
  ae_ids :: "nat \<Rightarrow> uuid"
  ae_clock :: "nat \<Rightarrow> time"
  ae_beats :: "nat \<Rightarrow> nat"
  ae_artifacts :: "ArtifactFile res list option"
  ae_duration_ms :: int
  ae_completed_at :: time

record AgentState =
  ag_seq :: nat
  ag_calls :: nat
  ag_stopped :: bool
  ag_error :: "exn option"

definition start_agent :: AgentState where
  "start_agent = \<lparr>ag_seq = 0, ag_calls = 0, ag_stopped = False, ag_error = None\<rparr>"

definition agent_event :: "TaskEnvelope \<Rightarrow> AgentEnv \<Rightarrow> EventType \<Rightarrow> params \<Rightarrow> AgentState \<Rightarrow> EventEnvelope" where
  "agent_event task env type payload st =
     \<lparr>en_run_id = en_run_id task, en_attempt_id = en_attempt_id task, en_engine = en_engine task,
      ee_event_id = ae_ids env (ag_calls st), ee_seq = int (ag_seq st), ee_occurred_at = ae_clock env (ag_calls st),
      ee_type = type, ee_payload = freeze_mapping payload\<rparr>"

text \<open>
  \<open>_emit\<close>, in continuation style: the rest of the agent is told whether the sink raised. The lock makes it one step; the
  sequence number is only advanced when the sink has accepted the event.
\<close>

definition emit ::
  "TaskEnvelope \<Rightarrow> AgentEnv \<Rightarrow> EventType \<Rightarrow> params \<Rightarrow> (exn option \<Rightarrow> AgentState \<Rightarrow> exec_tree) \<Rightarrow> AgentState \<Rightarrow> exec_tree" where
  "emit task env type payload k st =
     Emit (agent_event task env type payload st)
       (\<lambda>r. k r (case r of None \<Rightarrow> st\<lparr>ag_seq := ag_seq st + 1, ag_calls := ag_calls st + 1\<rparr>
                 | Some _ \<Rightarrow> st\<lparr>ag_calls := ag_calls st + 1\<rparr>))"

text \<open>The next \<open>n\<close> rounds of \<open>_heartbeat_loop\<close>: a heartbeat that cannot be delivered ends the loop.\<close>

primrec heartbeats :: "TaskEnvelope \<Rightarrow> AgentEnv \<Rightarrow> nat \<Rightarrow> (AgentState \<Rightarrow> exec_tree) \<Rightarrow> AgentState \<Rightarrow> exec_tree" where
  "heartbeats task env 0 k st = k st"
| "heartbeats task env (Suc n) k st =
     (if ag_stopped st then k st
      else emit task env EV_HEARTBEAT [] (\<lambda>r st.
        case r of
          None \<Rightarrow> heartbeats task env n k st
        | Some e \<Rightarrow> k (st\<lparr>ag_error := Some e, ag_stopped := True\<rparr>)) st)"

text \<open>An event of the agent itself, with the heartbeats that come before it.\<close>

definition emit_own ::
  "TaskEnvelope \<Rightarrow> AgentEnv \<Rightarrow> EventType \<Rightarrow> params \<Rightarrow> (exn option \<Rightarrow> AgentState \<Rightarrow> exec_tree) \<Rightarrow> AgentState \<Rightarrow> exec_tree" where
  "emit_own task env type payload k st =
     heartbeats task env (ae_beats env (ag_calls st)) (emit task env type payload k) st"

definition log_payload :: "string \<Rightarrow> string \<Rightarrow> params" where
  "log_payload stream message = [(''stream'', PStr stream), (''message'', PStr message)]"

definition emit_output ::
  "TaskEnvelope \<Rightarrow> AgentEnv \<Rightarrow> string \<Rightarrow> string \<Rightarrow> (exn option \<Rightarrow> AgentState \<Rightarrow> exec_tree) \<Rightarrow> AgentState \<Rightarrow> exec_tree" where
  "emit_output task env stream message k st =
     (if message = [] then k None st else emit_own task env EV_LOG (log_payload stream message) k st)"

text \<open>\<open>type(exc).__name__\<close> is an argument.\<close>

definition adapter_error :: "(exn \<Rightarrow> string) \<Rightarrow> exn \<Rightarrow> AdapterResult" where
  "adapter_error exn_name e =
     \<lparr>ad_outcome = O_INFRA_ERROR, ad_message = ''Adapter raised an unexpected error'',
      ad_details = [(''error_type'', PStr (exn_name e))], ad_stdout = [], ad_stderr = [], ad_exit_code = None, ad_timed_out = False\<rparr>"

text \<open>The first \<open>try\<close> of \<open>run\<close>: the continuation gets the result and whether the output was streamed.\<close>

primrec run_streaming ::
  "(exn \<Rightarrow> string) \<Rightarrow> TaskEnvelope \<Rightarrow> AgentEnv \<Rightarrow> (AdapterResult \<Rightarrow> bool \<Rightarrow> AgentState \<Rightarrow> exec_tree) \<Rightarrow> adapter_tree \<Rightarrow>
   AgentState \<Rightarrow> exec_tree" where
  "run_streaming exn_name task env k (A_Return result) st = k result True st"
| "run_streaming exn_name task env k (A_Raise e) st = k (adapter_error exn_name e) False st"
| "run_streaming exn_name task env k (A_Output stream message rest) st =
     emit_output task env stream message (\<lambda>r. run_streaming exn_name task env k (rest r)) st"

definition run_adapter ::
  "(exn \<Rightarrow> string) \<Rightarrow> TaskEnvelope \<Rightarrow> AgentEnv \<Rightarrow> Adapter \<Rightarrow> (AdapterResult \<Rightarrow> bool \<Rightarrow> AgentState \<Rightarrow> exec_tree) \<Rightarrow>
   AgentState \<Rightarrow> exec_tree" where
  "run_adapter exn_name task env adapter k =
     (case adapter of
        Streaming run \<Rightarrow> run_streaming exn_name task env k (run task)
      | Plain run \<Rightarrow> (case run task of Inl e \<Rightarrow> k (adapter_error exn_name e) False | Inr result \<Rightarrow> k result False))"

text \<open>
  The second \<open>try\<close>: the \<open>finally\<close> part stops the heartbeats and waits for the thread, so when an event cannot be
  delivered nothing follows but heartbeats under way.
\<close>

definition give_up :: "TaskEnvelope \<Rightarrow> AgentEnv \<Rightarrow> exn \<Rightarrow> AgentState \<Rightarrow> exec_tree" where
  "give_up task env e st = heartbeats task env (ae_beats env (ag_calls st)) (\<lambda>_. Crash e) st"

definition emit_or_give_up ::
  "TaskEnvelope \<Rightarrow> AgentEnv \<Rightarrow> EventType \<Rightarrow> params \<Rightarrow> (AgentState \<Rightarrow> exec_tree) \<Rightarrow> AgentState \<Rightarrow> exec_tree" where
  "emit_or_give_up task env type payload k =
     emit_own task env type payload (\<lambda>r. case r of None \<Rightarrow> k | Some e \<Rightarrow> give_up task env e)"

definition MAX_ARTIFACTS :: nat where "MAX_ARTIFACTS = 100"

definition MAX_ARTIFACT_BYTES :: int where "MAX_ARTIFACT_BYTES = 100 * 1024 * 1024"

definition artifact_payload :: "ArtifactFile \<Rightarrow> EventType \<Rightarrow> params" where
  "artifact_payload file type =
     [(''relative_path'', PStr (af_relative file)), (''file_name'', PStr (af_name file)),
      (''artifact_type'', PStr (if type = EV_SCREENSHOT then ''screenshot'' else ''file'')), (''size_bytes'', PInt (af_size file))]"

definition artifact_event_type :: "ArtifactFile \<Rightarrow> EventType" where
  "artifact_event_type file =
     (let content_type = (case af_content_type file of None \<Rightarrow> ''application/octet-stream''
        | Some t \<Rightarrow> if t = [] then ''application/octet-stream'' else t) in
      if take (length ''image/'') content_type = ''image/'' then EV_SCREENSHOT else EV_ARTIFACT)"

fun emit_files ::
  "TaskEnvelope \<Rightarrow> AgentEnv \<Rightarrow> int \<Rightarrow> ArtifactFile res list \<Rightarrow> (AgentState \<Rightarrow> exec_tree) \<Rightarrow> AgentState \<Rightarrow> exec_tree" where
  "emit_files task env used [] k = k"
| "emit_files task env used (Inl e # files) k = give_up task env e"
| "emit_files task env used (Inr file # files) k =
     (if used + af_size file > MAX_ARTIFACT_BYTES then give_up task env RuntimeError
      else
        emit_or_give_up task env (artifact_event_type file) (artifact_payload file (artifact_event_type file))
          (emit_files task env (used + af_size file) files k))"

definition emit_artifacts :: "TaskEnvelope \<Rightarrow> AgentEnv \<Rightarrow> (AgentState \<Rightarrow> exec_tree) \<Rightarrow> AgentState \<Rightarrow> exec_tree" where
  "emit_artifacts task env k =
     (case ae_artifacts env of
        None \<Rightarrow> k
      | Some files \<Rightarrow>
          if length files > MAX_ARTIFACTS then give_up task env RuntimeError
          else emit_files task env 0 files k)"

definition agent_result :: "TaskEnvelope \<Rightarrow> AgentEnv \<Rightarrow> AdapterResult \<Rightarrow> ResultEnvelope" where
  "agent_result task env result =
     \<lparr>en_run_id = en_run_id task, en_attempt_id = en_attempt_id task, en_engine = en_engine task,
      rs_outcome = ad_outcome result, rs_completed_at = ae_completed_at env, rs_duration_ms = max 0 (ae_duration_ms env),
      rs_summary = freeze_mapping (dset ''timed_out'' (PBool (ad_timed_out result))
        (case ad_exit_code result of
           None \<Rightarrow> dmerge [(''message'', PStr (ad_message result))] (ad_details result)
         | Some code \<Rightarrow> dset ''exit_code'' (PInt code) (dmerge [(''message'', PStr (ad_message result))] (ad_details result))))\<rparr>"

text \<open>After \<open>FINISHED\<close>: the heartbeats under way, and the error of a heartbeat that could not be delivered.\<close>

definition finish_agent :: "TaskEnvelope \<Rightarrow> AgentEnv \<Rightarrow> AdapterResult \<Rightarrow> AgentState \<Rightarrow> exec_tree" where
  "finish_agent task env result st =
     heartbeats task env (ae_beats env (ag_calls st))
       (\<lambda>st. if ag_error st \<noteq> None then Crash RuntimeError else Finish (agent_result task env result)) st"

text \<open>\<open>x\<close> is true as Python has it.\<close>

fun truthy :: "pyval \<Rightarrow> bool" where
  "truthy PNone = False"
| "truthy (PBool b) = b"
| "truthy (PInt n) = (n \<noteq> 0)"
| "truthy (PFloat f) = (f \<noteq> Finite 0)"
| "truthy (PStr s) = (s \<noteq> [])"
| "truthy (PBytes s) = (s \<noteq> [])"
| "truthy (PByteArray s) = (s \<noteq> [])"
| "truthy (PList xs) = (xs \<noteq> [])"
| "truthy (PTuple xs) = (xs \<noteq> [])"
| "truthy (PSet xs) = (xs \<noteq> [])"
| "truthy (PFrozenSet xs) = (xs \<noteq> [])"
| "truthy (PDict d) = (d \<noteq> [])"
| "truthy (PFrozen d) = (d \<noteq> [])"
| "truthy (POther n) = True"

definition assertion_payload :: "AdapterResult \<Rightarrow> params" where
  "assertion_payload result =
     [(''passed'', PBool (ad_outcome result = O_SUCCEEDED)), (''message'', PStr (ad_message result))] @
     (case dget (ad_details result) ''assertions'' of
        None \<Rightarrow> [] | Some v \<Rightarrow> if v = PNone then [] else [(''results'', v)])"

definition report_result :: "TaskEnvelope \<Rightarrow> AgentEnv \<Rightarrow> AdapterResult \<Rightarrow> bool \<Rightarrow> AgentState \<Rightarrow> exec_tree" where
  "report_result task env result streamed =
     (let
        finished = emit_or_give_up task env EV_FINISHED [(''outcome'', PStr (outcome_value (ad_outcome result)))]
          (finish_agent task env result);
        error = (if ad_outcome result \<noteq> O_SUCCEEDED
          then emit_or_give_up task env EV_ERROR (dmerge [(''message'', PStr (ad_message result))] (ad_details result)) finished
          else finished);
        extraction = (case dget (ad_details result) ''extractions'' of
            None \<Rightarrow> error
          | Some names \<Rightarrow> if truthy names then emit_or_give_up task env EV_EXTRACTION [(''names'', names)] error else error);
        assertion = emit_or_give_up task env EV_ASSERTION (assertion_payload result) extraction;
        artifacts = emit_artifacts task env assertion;
        stderr = (if ad_stderr result \<noteq> [] \<and> \<not> streamed
          then emit_or_give_up task env EV_LOG (log_payload ''stderr'' (ad_stderr result)) artifacts else artifacts)
      in
        (if ad_stdout result \<noteq> [] \<and> \<not> streamed
         then emit_or_give_up task env EV_LOG (log_payload ''stdout'' (ad_stdout result)) stderr else stderr))"

definition agent_run :: "(exn \<Rightarrow> string) \<Rightarrow> (Engine \<Rightarrow> Adapter) \<Rightarrow> AgentEnv \<Rightarrow> TaskEnvelope \<Rightarrow> exec_tree" where
  "agent_run exn_name adapters env task =
     emit task env EV_STARTED [(''engine'', PStr (engine_value (en_engine task)))] (\<lambda>r st.
       case r of
         Some e \<Rightarrow> Crash e
       | None \<Rightarrow> run_adapter exn_name task env (adapters (en_engine task)) (report_result task env) st) start_agent"

section \<open>Execution on the host\<close>

text \<open>
  \<open>HostExecutor.execute\<close>: \<open>paths_valid\<close> says whether the workspace and the interpreter are still in place, \<open>spool_fresh\<close> whether
  the artifact directory of the attempt could be created.
\<close>

definition host_execute ::
  "(exn \<Rightarrow> string) \<Rightarrow> (Engine \<Rightarrow> Adapter) \<Rightarrow> AgentEnv \<Rightarrow> time \<Rightarrow> bool \<Rightarrow> bool \<Rightarrow> TaskEnvelope \<Rightarrow> exec_tree" where
  "host_execute exn_name adapters env now paths_valid spool_fresh task =
     (if en_engine task \<notin> {E_PYTEST, E_PLAYWRIGHT} then Crash (OtherException ''HostExecutionError'')
      else if tk_secret_references task \<noteq> [] then Crash (OtherException ''HostExecutionError'')
      else if tk_deadline task \<le> now then Crash (OtherException ''HostExecutionError'')
      else if \<not> paths_valid then Crash (OtherException ''HostExecutionError'')
      else if \<not> spool_fresh then Crash (OtherException ''FileExistsError'')
      else agent_run exn_name adapters env task)"

end
