(* ===== verification/Runner_Agent_Facts.thy ===== *)
theory Runner_Agent_Facts
  imports Runner_Agent
begin

text \<open>
  Properties of the runner agent: \<open>reports\<close> is a weakest precondition over executor trees, by which every part of the agent
  keeps the order of its events; \<open>clean\<close> trees never make the runner manager raise an identity error.
\<close>

section \<open>What an executor reports\<close>

text \<open>
  \<open>deliver answers\<close> runs an executor against a sink that answers the \<open>n\<close>th call with \<open>answers n\<close>: the events it accepted, and
  what the executor came to.
\<close>

primrec deliver :: "(nat \<Rightarrow> exn option) \<Rightarrow> exec_tree \<Rightarrow> nat \<Rightarrow> EventEnvelope list \<times> ResultEnvelope res" where
  "deliver answers (Finish r) n = ([], Inr r)"
| "deliver answers (Crash e) n = ([], Inl e)"
| "deliver answers (Emit ev k) n =
     (let (events, x) = deliver answers (k (answers n)) (n + 1) in (if answers n = None then ev # events else events, x))"

text \<open>With the events accepted so far: whatever the sink answers, \<open>Q\<close> holds when it returns and \<open>C\<close> when it raises.\<close>

primrec reports ::
  "(EventEnvelope list \<Rightarrow> ResultEnvelope \<Rightarrow> bool) \<Rightarrow> (EventEnvelope list \<Rightarrow> bool) \<Rightarrow> exec_tree \<Rightarrow> EventEnvelope list \<Rightarrow> bool" where
  "reports Q C (Finish r) evs = Q evs r"
| "reports Q C (Crash e) evs = C evs"
| "reports Q C (Emit ev k) evs = (reports Q C (k None) (evs @ [ev]) \<and> (\<forall>e. reports Q C (k (Some e)) evs))"

lemma reports_deliver:
  "reports Q C tree evs \<Longrightarrow> deliver answers tree n = (events, x) \<Longrightarrow>
     (case x of Inr r \<Rightarrow> Q (evs @ events) r | Inl _ \<Rightarrow> C (evs @ events))"
proof (induction tree arbitrary: evs n events)
  case (Emit ev k)
  obtain rest where d: "deliver answers (k (answers n)) (n + 1) = (rest, x)" "events = (if answers n = None then ev # rest else rest)"
    using Emit.prems(2) by (cases "deliver answers (k (answers n)) (n + 1)") (auto simp: Let_def)
  show ?case
  proof (cases "answers n")
    case None
    with Emit.prems(1) d Emit.IH [of "k None" "evs @ [ev]" "n + 1" rest] show ?thesis by (cases x) simp_all
  next
    case (Some e)
    with Emit.prems(1) d Emit.IH [of "k (Some e)" evs "n + 1" rest] show ?thesis by (cases x) auto
  qed
qed (auto)

section \<open>The order of the agent's events\<close>

definition good ::
  "(EventEnvelope list \<Rightarrow> ResultEnvelope \<Rightarrow> bool) \<Rightarrow> (EventEnvelope list \<Rightarrow> bool) \<Rightarrow> (EventEnvelope list \<Rightarrow> nat \<Rightarrow> bool) \<Rightarrow>
   (AgentState \<Rightarrow> exec_tree) \<Rightarrow> bool" where
  "good Q C I k \<longleftrightarrow> (\<forall>evs st. I evs (ag_seq st) \<longrightarrow> reports Q C (k st) evs)"

lemma goodI: "(\<And>evs st. I evs (ag_seq st) \<Longrightarrow> reports Q C (k st) evs) \<Longrightarrow> good Q C I k"
  by (simp add: good_def)

lemma goodD: "good Q C I k \<Longrightarrow> I evs (ag_seq st) \<Longrightarrow> reports Q C (k st) evs"
  by (simp add: good_def)

text \<open>An accepted event of a type leads from the invariant \<open>I\<close> to \<open>J\<close>.\<close>

definition leads :: "TaskEnvelope \<Rightarrow> EventType \<Rightarrow> params \<Rightarrow> (EventEnvelope list \<Rightarrow> nat \<Rightarrow> bool) \<Rightarrow> (EventEnvelope list \<Rightarrow> nat \<Rightarrow> bool) \<Rightarrow> bool" where
  "leads task type payload I J \<longleftrightarrow> (\<forall>evs ev n. I evs n \<longrightarrow> same_identity task ev \<longrightarrow> ee_seq ev = int n \<longrightarrow> ee_type ev = type \<longrightarrow>
     ee_payload ev = freeze_mapping payload \<longrightarrow> J (evs @ [ev]) (n + 1))"

lemma good_emit:
  assumes "leads task type payload I J" "good Q C J (k None)" "\<And>e. good Q C I (k (Some e))"
  shows "good Q C I (emit task env type payload k)"
proof (rule goodI)
  fix evs and st :: AgentState assume "I evs (ag_seq st)"
  with assms(1) have "J (evs @ [agent_event task env type payload st]) (ag_seq st + 1)"
    by (simp add: leads_def agent_event_def same_identity_def)
  with \<open>I evs (ag_seq st)\<close> show "reports Q C (emit task env type payload k st) evs"
    using assms(2,3) by (simp add: emit_def good_def)
qed

lemma good_heartbeats:
  assumes "leads task EV_HEARTBEAT [] I I" "good Q C I k"
  shows "good Q C I (heartbeats task env n k)"
proof (induction n)
  case (Suc n)
  have "good Q C I (emit task env EV_HEARTBEAT [] (\<lambda>r st. case r of
          None \<Rightarrow> heartbeats task env n k st | Some e \<Rightarrow> k (st\<lparr>ag_error := Some e, ag_stopped := True\<rparr>)))"
    using Suc assms(2) by (intro good_emit [OF assms(1)]) (simp_all add: good_def)
  with assms(2) show ?case by (simp add: good_def)
qed (use assms(2) in \<open>simp add: good_def\<close>)

lemma good_own:
  assumes "leads task EV_HEARTBEAT [] I I" "leads task type payload I J" "good Q C J (k None)" "\<And>e. good Q C I (k (Some e))"
  shows "good Q C I (emit_own task env type payload k)"
  unfolding emit_own_def good_def
  using goodD [OF good_heartbeats [OF assms(1) good_emit [OF assms(2-4)]]] by blast

lemma good_give_up:
  assumes "leads task EV_HEARTBEAT [] I I" "\<And>evs n. I evs n \<Longrightarrow> C evs"
  shows "good Q C I (give_up task env e)"
proof -
  have "good Q C I (\<lambda>_. Crash e)" using assms(2) by (simp add: good_def)
  from goodD [OF good_heartbeats [OF assms(1) this]] show ?thesis by (simp add: good_def give_up_def)
qed

lemma good_or_give_up:
  assumes "leads task EV_HEARTBEAT [] I I" "leads task type payload I J" "good Q C J k" "\<And>evs n. I evs n \<Longrightarrow> C evs"
  shows "good Q C I (emit_or_give_up task env type payload k)"
  unfolding emit_or_give_up_def by (rule good_own [OF assms(1,2)]) (simp_all add: assms(3) good_give_up [OF assms(1,4)])

lemma good_output:
  assumes "leads task EV_HEARTBEAT [] I I" "leads task EV_LOG (log_payload stream message) I I" "\<And>r. good Q C I (k r)"
  shows "good Q C I (emit_output task env stream message k)"
  using good_own [OF assms(1,2), of Q C k] assms(3) by (auto simp: emit_output_def good_def)

lemma good_streaming:
  assumes "leads task EV_HEARTBEAT [] I I" "\<And>stream message. leads task EV_LOG (log_payload stream message) I I"
    and "\<And>result streamed. good Q C I (k result streamed)"
  shows "good Q C I (run_streaming exn_name task env k tree)"
proof (induction tree)
  case (A_Output stream message rest)
  have "good Q C I (emit_output task env stream message (\<lambda>r. run_streaming exn_name task env k (rest r)))"
    using A_Output by (intro good_output assms(1,2)) simp
  then show ?case by (simp add: good_def)
qed (use assms(3) in \<open>simp_all add: good_def\<close>)

lemma good_adapter:
  assumes "leads task EV_HEARTBEAT [] I I" "\<And>stream message. leads task EV_LOG (log_payload stream message) I I"
    and "\<And>result streamed. good Q C I (k result streamed)"
  shows "good Q C I (run_adapter exn_name task env adapter k)"
  using good_streaming [OF assms, of exn_name] assms(3) by (auto simp: run_adapter_def split: Adapter.splits sum.splits)

lemma good_files:
  assumes "leads task EV_HEARTBEAT [] I I" "\<And>type payload. type \<in> {EV_ARTIFACT, EV_SCREENSHOT} \<Longrightarrow> leads task type payload I I"
    and "\<And>evs n. I evs n \<Longrightarrow> C evs" "good Q C I k"
  shows "good Q C I (emit_files task env used files k)"
proof (induction files arbitrary: used)
  case (Cons a files)
  show ?case
  proof (cases a)
    case (Inl e)
    with good_give_up [OF assms(1,3)] show ?thesis by simp
  next
    case (Inr f)
    have t: "artifact_event_type f \<in> {EV_ARTIFACT, EV_SCREENSHOT}" by (simp add: artifact_event_type_def Let_def)
    have "good Q C I (emit_or_give_up task env (artifact_event_type f) (artifact_payload f (artifact_event_type f))
        (emit_files task env (used + af_size f) files k))"
      by (rule good_or_give_up [OF assms(1) assms(2) [OF t] Cons.IH assms(3)])
    with good_give_up [OF assms(1,3)] Inr show ?thesis by simp
  qed
qed (use assms(4) in simp)

lemma good_artifacts:
  assumes "leads task EV_HEARTBEAT [] I I" "\<And>type payload. type \<in> {EV_ARTIFACT, EV_SCREENSHOT} \<Longrightarrow> leads task type payload I I"
    and "\<And>evs n. I evs n \<Longrightarrow> C evs" "good Q C I k"
  shows "good Q C I (emit_artifacts task env k)"
  using good_files [where I = I, OF assms] good_give_up [OF assms(1,3)] assms(4) by (auto simp: emit_artifacts_def split: option.split)

section \<open>The protocol of a run\<close>

definition gapless :: "TaskEnvelope \<Rightarrow> EventEnvelope list \<Rightarrow> nat \<Rightarrow> bool" where
  "gapless task evs n \<longleftrightarrow> map ee_seq evs = map int [0..<n] \<and> list_all (same_identity task) evs"

definition begun :: "TaskEnvelope \<Rightarrow> EventEnvelope list \<Rightarrow> nat \<Rightarrow> bool" where
  "begun task evs n \<longleftrightarrow> gapless task evs n \<and>
     (\<exists>ev rest. evs = ev # rest \<and> ee_type ev = EV_STARTED \<and> list_all (\<lambda>e. ee_type e \<noteq> EV_STARTED \<and> ee_type e \<noteq> EV_FINISHED) rest)"

definition ended :: "TaskEnvelope \<Rightarrow> ResultOutcome \<Rightarrow> EventEnvelope list \<Rightarrow> nat \<Rightarrow> bool" where
  "ended task outcome evs n \<longleftrightarrow> gapless task evs n \<and>
     (\<exists>start body fin beats. evs = start # body @ fin # beats \<and> ee_type start = EV_STARTED \<and>
        list_all (\<lambda>e. ee_type e \<noteq> EV_STARTED \<and> ee_type e \<noteq> EV_FINISHED) body \<and> ee_type fin = EV_FINISHED \<and>
        ee_payload fin = freeze_mapping [(''outcome'', PStr (outcome_value outcome))] \<and>
        list_all (\<lambda>e. ee_type e = EV_HEARTBEAT) beats)"

lemma gapless_snoc: "gapless task evs n \<Longrightarrow> same_identity task ev \<Longrightarrow> ee_seq ev = int n \<Longrightarrow> gapless task (evs @ [ev]) (n + 1)"
  by (simp add: gapless_def)

lemma begun_leads: "type \<noteq> EV_STARTED \<Longrightarrow> type \<noteq> EV_FINISHED \<Longrightarrow> leads task type payload (begun task) (begun task)"
  by (auto simp: leads_def begun_def intro: gapless_snoc [simplified])

lemma ended_leads: "leads task EV_HEARTBEAT [] (ended task outcome) (ended task outcome)"
  unfolding leads_def
proof (intro allI impI)
  fix evs and ev :: EventEnvelope and n assume *: "ended task outcome evs n" "same_identity task ev" "ee_seq ev = int n" "ee_type ev = EV_HEARTBEAT"
  then obtain start body fin beats where e: "evs = start # body @ fin # beats" "ee_type start = EV_STARTED"
    "list_all (\<lambda>e. ee_type e \<noteq> EV_STARTED \<and> ee_type e \<noteq> EV_FINISHED) body" "ee_type fin = EV_FINISHED"
    "ee_payload fin = freeze_mapping [(''outcome'', PStr (outcome_value outcome))]" "list_all (\<lambda>e. ee_type e = EV_HEARTBEAT) beats"
    by (auto simp: ended_def)
  from * have "gapless task (evs @ [ev]) (n + 1)" by (intro gapless_snoc) (simp_all add: ended_def)
  moreover have "evs @ [ev] = start # body @ fin # (beats @ [ev])" by (simp add: e(1))
  moreover have "list_all (\<lambda>e. ee_type e = EV_HEARTBEAT) (beats @ [ev])" using e(6) *(4) by simp
  ultimately show "ended task outcome (evs @ [ev]) (n + 1)" using e(2-5) unfolding ended_def by blast
qed

lemma finished_leads:
  "leads task EV_FINISHED [(''outcome'', PStr (outcome_value outcome))] (begun task) (ended task outcome)"
  unfolding leads_def
proof (intro allI impI)
  fix evs and ev :: EventEnvelope and n assume *: "begun task evs n" "same_identity task ev" "ee_seq ev = int n" "ee_type ev = EV_FINISHED"
    "ee_payload ev = freeze_mapping [(''outcome'', PStr (outcome_value outcome))]"
  then obtain start body where e: "evs = start # body" "ee_type start = EV_STARTED"
    "list_all (\<lambda>e. ee_type e \<noteq> EV_STARTED \<and> ee_type e \<noteq> EV_FINISHED) body" by (auto simp: begun_def)
  from * have "gapless task (evs @ [ev]) (n + 1)" by (intro gapless_snoc) (simp_all add: begun_def)
  moreover have "evs @ [ev] = start # body @ ev # []" by (simp add: e(1))
  ultimately show "ended task outcome (evs @ [ev]) (n + 1)" using e(2,3) *(4,5) unfolding ended_def by (intro conjI exI [of _ start] exI [of _ body] exI [of _ ev] exI [of _ "[]"]) simp_all
qed

lemma started_leads: "leads task EV_STARTED payload (\<lambda>evs n. evs = [] \<and> n = 0) (begun task)"
  by (simp add: leads_def begun_def gapless_def)

definition protocol_result :: "TaskEnvelope \<Rightarrow> EventEnvelope list \<Rightarrow> ResultEnvelope \<Rightarrow> bool" where
  "protocol_result task evs r \<longleftrightarrow> same_identity task r \<and> ended task (rs_outcome r) evs (length evs)"

definition protocol_crash :: "TaskEnvelope \<Rightarrow> EventEnvelope list \<Rightarrow> bool" where
  "protocol_crash task evs \<longleftrightarrow> gapless task evs (length evs)"

lemma gapless_length: "gapless task evs n \<Longrightarrow> n = length evs"
  by (auto simp: gapless_def dest: arg_cong [where f = length])

lemma begun_crash: "begun task evs n \<Longrightarrow> protocol_crash task evs"
  using gapless_length [of task evs n] by (simp add: begun_def protocol_crash_def)

lemma good_finish: "good (protocol_result task) (protocol_crash task) (ended task (ad_outcome result)) (finish_agent task env result)"
proof -
  have "good (protocol_result task) (protocol_crash task) (ended task (ad_outcome result))
      (\<lambda>st. if ag_error st \<noteq> None then Crash RuntimeError else Finish (agent_result task env result))"
  proof (rule goodI)
    fix evs and st :: AgentState assume e: "ended task (ad_outcome result) evs (ag_seq st)"
    then have "ag_seq st = length evs" using gapless_length [of task evs "ag_seq st"] by (simp add: ended_def)
    with e show "reports (protocol_result task) (protocol_crash task)
        (if ag_error st \<noteq> None then Crash RuntimeError else Finish (agent_result task env result)) evs"
      by (auto simp: protocol_result_def protocol_crash_def agent_result_def same_identity_def ended_def)
  qed
  from goodD [OF good_heartbeats [OF ended_leads this]] show ?thesis by (simp add: good_def finish_agent_def)
qed

lemma good_report: "good (protocol_result task) (protocol_crash task) (begun task) (report_result task env result streamed)"
proof -
  let ?good = "good (protocol_result task) (protocol_crash task) (begun task)"
  note beat = begun_leads [of EV_HEARTBEAT task "[]", simplified]
  have fin: "?good (emit_or_give_up task env EV_FINISHED [(''outcome'', PStr (outcome_value (ad_outcome result)))] (finish_agent task env result))"
    by (rule good_or_give_up [OF beat finished_leads good_finish begun_crash])
  have own: "?good k \<Longrightarrow> type \<noteq> EV_STARTED \<Longrightarrow> type \<noteq> EV_FINISHED \<Longrightarrow> ?good (emit_or_give_up task env type payload k)" for type payload k
    by (rule good_or_give_up [OF beat begun_leads _ begun_crash])
  have art: "?good k \<Longrightarrow> ?good (emit_artifacts task env k)" for k
    by (rule good_artifacts [OF beat _ begun_crash]) (auto intro: begun_leads)
  have opt: "?good k \<Longrightarrow> (\<And>x. ?good (f x)) \<Longrightarrow> ?good (case y of None \<Rightarrow> k | Some x \<Rightarrow> f x)" for k f and y :: "pyval option"
    by (cases y) simp_all
  have cond: "?good k \<Longrightarrow> ?good k' \<Longrightarrow> ?good (if b then k else k')" for k k' b by simp
  show ?thesis
    unfolding report_result_def Let_def
    by (intro cond opt art fin own [where type = EV_LOG, simplified] own [where type = EV_ERROR, simplified]
        own [where type = EV_EXTRACTION, simplified] own [where type = EV_ASSERTION, simplified])
qed

lemma agent_reports: "reports (protocol_result task) (protocol_crash task) (agent_run exn_name adapters env task) []"
proof -
  have run: "good (protocol_result task) (protocol_crash task) (begun task)
      (run_adapter exn_name task env (adapters (en_engine task)) (report_result task env))"
    by (rule good_adapter [OF _ _ good_report]) (simp_all add: begun_leads)
  have "good (protocol_result task) (protocol_crash task) (\<lambda>evs n. evs = [] \<and> n = 0)
      (emit task env EV_STARTED [(''engine'', PStr (engine_value (en_engine task)))] (\<lambda>r st. case r of
         Some e \<Rightarrow> Crash e | None \<Rightarrow> run_adapter exn_name task env (adapters (en_engine task)) (report_result task env) st))"
    using run by (intro good_emit [OF started_leads]) (simp_all add: good_def protocol_crash_def gapless_def)
  from goodD [OF this] show ?thesis by (simp add: agent_run_def start_agent_def)
qed

section \<open>The agent under the runner manager\<close>

text \<open>An executor whose events and result name the task, and that raises no identity error of its own.\<close>

primrec clean :: "TaskEnvelope \<Rightarrow> exec_tree \<Rightarrow> bool" where
  "clean task (Finish r) = same_identity task r"
| "clean task (Crash e) = (e \<noteq> RunnerIdentityError)"
| "clean task (Emit ev k) = (same_identity task ev \<and> clean task (k None) \<and> (\<forall>e. e \<noteq> RunnerIdentityError \<longrightarrow> clean task (k (Some e))))"

definition cleanly :: "TaskEnvelope \<Rightarrow> (AgentState \<Rightarrow> exec_tree) \<Rightarrow> bool" where
  "cleanly task k \<longleftrightarrow> (\<forall>st. clean task (k st))"

abbreviation other_errors :: "TaskEnvelope \<Rightarrow> (exn option \<Rightarrow> AgentState \<Rightarrow> exec_tree) \<Rightarrow> bool" where
  "other_errors task k \<equiv> \<forall>r. r \<noteq> Some RunnerIdentityError \<longrightarrow> cleanly task (k r)"

lemma clean_emit: "other_errors task k \<Longrightarrow> cleanly task (emit task env type payload k)"
  by (auto simp: cleanly_def emit_def agent_event_def same_identity_def)

lemma clean_heartbeats: "cleanly task k \<Longrightarrow> cleanly task (heartbeats task env n k)"
proof (induction n)
  case (Suc n)
  then have "cleanly task (emit task env EV_HEARTBEAT [] (\<lambda>r st. case r of
      None \<Rightarrow> heartbeats task env n k st | Some e \<Rightarrow> k (st\<lparr>ag_error := Some e, ag_stopped := True\<rparr>)))"
    by (intro clean_emit) (auto simp: cleanly_def split: option.split)
  with Suc show ?case by (simp add: cleanly_def)
qed (simp add: cleanly_def)

lemma clean_own: "other_errors task k \<Longrightarrow> cleanly task (emit_own task env type payload k)"
  using clean_heartbeats [OF clean_emit] by (auto simp: cleanly_def emit_own_def)

lemma clean_give_up: "e \<noteq> RunnerIdentityError \<Longrightarrow> cleanly task (give_up task env e)"
  using clean_heartbeats [of task "\<lambda>_. Crash e"] by (simp add: cleanly_def give_up_def)

lemma clean_or_give_up: "cleanly task k \<Longrightarrow> cleanly task (emit_or_give_up task env type payload k)"
  unfolding emit_or_give_up_def by (rule clean_own) (auto intro: clean_give_up split: option.split)

lemma clean_streaming:
  assumes "\<And>result streamed. cleanly task (k result streamed)"
  shows "cleanly task (run_streaming exn_name task env k tree)"
proof (induction tree)
  case (A_Output stream message rest)
  have "cleanly task (emit_own task env EV_LOG (log_payload stream message) (\<lambda>r. run_streaming exn_name task env k (rest r)))"
    using A_Output by (intro clean_own) simp
  with A_Output show ?case by (simp add: cleanly_def emit_output_def)
qed (use assms in \<open>simp_all add: cleanly_def\<close>)

lemma clean_files:
  "Inl RunnerIdentityError \<notin> set files \<Longrightarrow> cleanly task k \<Longrightarrow> cleanly task (emit_files task env used files k)"
proof (induction files arbitrary: used)
  case (Cons a files)
  then show ?case by (cases a) (auto intro: clean_give_up clean_or_give_up)
qed simp

lemma clean_report:
  assumes "\<And>files. ae_artifacts env = Some files \<Longrightarrow> Inl RunnerIdentityError \<notin> set files"
  shows "cleanly task (report_result task env result streamed)"
proof -
  have "cleanly task (\<lambda>st. if ag_error st \<noteq> None then Crash RuntimeError else Finish (agent_result task env result))"
    by (simp add: cleanly_def agent_result_def same_identity_def)
  from clean_heartbeats [OF this] have fin: "cleanly task (finish_agent task env result)" by (simp add: cleanly_def finish_agent_def)
  have art: "cleanly task k \<Longrightarrow> cleanly task (emit_artifacts task env k)" for k
    using assms by (auto simp: emit_artifacts_def intro: clean_files clean_give_up split: option.split)
  show ?thesis
    unfolding report_result_def Let_def
    by (cases "dget (ad_details result) ''extractions''") (simp_all add: clean_or_give_up art fin)
qed

lemma clean_agent:
  assumes "\<And>files. ae_artifacts env = Some files \<Longrightarrow> Inl RunnerIdentityError \<notin> set files"
  shows "clean task (agent_run exn_name adapters env task)"
proof -
  have "cleanly task (run_adapter exn_name task env (adapters (en_engine task)) (report_result task env))"
    using clean_streaming [OF clean_report [OF assms]] clean_report [OF assms] by (auto simp: run_adapter_def split: Adapter.split sum.split)
  then have "cleanly task (emit task env EV_STARTED [(''engine'', PStr (engine_value (en_engine task)))] (\<lambda>r st. case r of
      Some e \<Rightarrow> Crash e | None \<Rightarrow> run_adapter exn_name task env (adapters (en_engine task)) (report_result task env) st))"
    by (intro clean_emit) (auto simp: cleanly_def split: option.split)
  then show ?thesis by (simp add: cleanly_def agent_run_def)
qed

text \<open>An operation that never raises a given exception.\<close>

definition never :: "exn \<Rightarrow> ('s, 'a) pyop \<Rightarrow> bool" where
  "never e m \<longleftrightarrow> (\<forall>s. fst (m s) \<noteq> Inl e)"

lemma never_bind: "never e m \<Longrightarrow> (\<And>x. never e (f x)) \<Longrightarrow> never e (bind m f)"
  by (simp add: never_def bind_def split: prod.split sum.split) (metis fst_conv)

lemma never_ret: "never e (ret x)"
  by (simp add: never_def)

lemma never_lift: "r \<noteq> Inl e \<Longrightarrow> never e (lift r)"
  by (simp add: never_def)

lemma never_call: "(\<And>clk. never e (f clk)) \<Longrightarrow> never e (call sch f)"
  by (simp add: never_def call_def Let_def case_prod_beta)

lemma never_if: "never e m \<Longrightarrow> never e n \<Longrightarrow> never e (if b then m else n)"
  by simp

lemma never_append: "never RunnerIdentityError (append_event ev)"
  by (simp add: never_def append_event_unfold Let_def split: option.split)

lemma never_renew: "never RunnerIdentityError (renew_attempt_lease i runner n given clock)"
  by (auto simp: never_def renew_attempt_lease_def update_attempt_unfold attempt_with_heartbeat_def Let_def guard_def rbind_def
      split: option.splits sum.splits if_splits)

lemma never_persist:
  assumes "mg_collector mg = Some collect" "\<And>task ev. never RunnerIdentityError (collect task ev)" "same_identity task ev"
  shows "never RunnerIdentityError (persist_event mg sch task ev)"
  unfolding persist_event_def collect_event_def assms(1) option.case
  by (intro never_bind never_if never_ret never_call never_append never_renew assms(2) never_lift)
     (simp add: validate_event_def assms(3) guard_def)

lemma run_tree_clean:
  assumes "\<And>ev. same_identity task ev \<Longrightarrow> never RunnerIdentityError (sink ev)"
  shows "clean task tree \<Longrightarrow> run_tree sink tree s = (x, t) \<Longrightarrow> x \<noteq> Inl RunnerIdentityError \<and> (\<forall>r. x = Inr r \<longrightarrow> same_identity task r)"
proof (induction tree arbitrary: s)
  case (Emit ev k)
  have n: "fst (sink ev s) \<noteq> Inl RunnerIdentityError" using assms Emit.prems(1) by (simp add: never_def)
  show ?case
  proof (cases "sink ev s")
    case (Pair y u)
    with n Emit.prems Emit.IH [of "k None" u] Emit.IH [of "k (Some (projl y))" u] show ?thesis
      by (cases y) auto
  qed
qed auto

lemma executor_without_identity_error:
  assumes "mg_collector mg = Some collect" "\<And>task ev. never RunnerIdentityError (collect task ev)" "clean task tree"
    and "run_executor exn_name mg sch tree task s = (Inr (r, ie), t)"
  shows "ie = None"
proof (cases "run_tree (persist_event mg sch task) tree s")
  case (Pair x u)
  from run_tree_clean [OF never_persist [OF assms(1,2)] assms(3) Pair]
  have "x \<noteq> Inl RunnerIdentityError" "\<forall>r. x = Inr r \<longrightarrow> same_identity task r" by blast+
  with Pair assms(4) show ?thesis
    by (cases x) (auto simp: run_executor_def catch_def bind_def validate_result_def clock_now_def)
qed

lemma clean_executor_completes:
  assumes "quiet sch" "fair_manager mg" "collects_only mg" "can_start mg task s"
    and "mg_collector mg = Some collect" "\<And>task ev. never RunnerIdentityError (collect task ev)" "clean task (executor task)"
  shows "\<exists>r t. execute exn_name str_of mg sch executor task s = (Inr r, t) \<and> settled task t \<and> same_identity task r"
proof -
  obtain s1 where s1: "claim_task mg sch task s = (Inr (), s1)" "at_point task R_RUNNING A_RUNNING s1"
    using point_claim [OF assms(1)] assms(4) by (rule yieldsE) auto
  obtain r ie s2 where s2: "run_executor exn_name mg sch (executor task) task s1 = (Inr (r, ie), s2)"
    "at_point task R_RUNNING A_RUNNING s2" "same_identity task r"
    using point_executor [OF assms(1-3) s1(2)] by blast
  have "ie = None" by (rule executor_without_identity_error [OF assms(5-7) s2(1)])
  with point_conclude [OF assms(1,2) s2(3,2), of str_of ie] s1(1) s2 show ?thesis
    by (auto simp: execute_def bind_def)
qed

section \<open>Demonstration\<close>

text \<open>An adapter that streams one line and succeeds, with a heartbeat before each of the next two events; the sink refuses the second.\<close>

definition demo_outcome :: AdapterResult where
  "demo_outcome = \<lparr>ad_outcome = O_SUCCEEDED, ad_message = ''ok'', ad_details = [], ad_stdout = ''x'', ad_stderr = [],
     ad_exit_code = Some 0, ad_timed_out = False\<rparr>"

definition demo_adapters :: "Engine \<Rightarrow> Adapter" where
  "demo_adapters e = Streaming (\<lambda>_. A_Output ''stdout'' ''x'' (\<lambda>_. A_Return demo_outcome))"

definition demo_agent_env :: AgentEnv where
  "demo_agent_env = \<lparr>ae_ids = (\<lambda>n. 10 + n), ae_clock = int, ae_beats = (\<lambda>n. if n < 3 then 1 else 0), ae_artifacts = None,
     ae_duration_ms = 4, ae_completed_at = 9\<rparr>"

definition demo_answers :: "nat \<Rightarrow> exn option" where
  "demo_answers n = (if n = 2 then Some ValueError else None)"

section \<open>Execution on the host\<close>

lemma host_execution_settles:
  assumes "quiet sch" "fair_manager mg" "collects_only mg" "can_start mg task s" "mg_collector mg = Some collect"
    and "\<And>task ev r. fst (collect task ev r) \<noteq> Inl RunnerIdentityError"
    and "\<And>files. ae_artifacts env = Some files \<Longrightarrow> Inl RunnerIdentityError \<notin> set files"
  shows "\<exists>result t a run. execute exn_name str_of mg sch (host_execute exn_name adapters env now paths_valid spool_fresh) task s = (Inr result, t) \<and>
    same_identity task result \<and>
    dget (q_attempts (ms_repo t)) (en_attempt_id task) = Some a \<and> at_state a \<in> set ATTEMPT_TERMINAL \<and>
    dget (q_runs (ms_repo t)) (en_run_id task) = Some run \<and>
    (rr_state run \<in> set RUN_TERMINAL \<or> rr_state run = R_RETRY_WAIT \<and> en_run_id task \<in> set (map fst (ms_scheduled t)))"
proof -
  have "clean task (host_execute exn_name adapters env now paths_valid spool_fresh task)"
    using clean_agent [OF assms(7)] by (simp add: host_execute_def)
  moreover have "never RunnerIdentityError (collect task ev)" for task ev using assms(6) by (simp add: never_def)
  ultimately obtain r t where "execute exn_name str_of mg sch (host_execute exn_name adapters env now paths_valid spool_fresh) task s = (Inr r, t)"
    "settled task t" "same_identity task r"
    using clean_executor_completes [OF assms(1-5)] by blast
  then show ?thesis by (auto simp: settled_def at_point_def)
qed

section \<open>Properties\<close>

text \<open>C9. The agent speaks the event protocol. Whatever the adapter does, whenever heartbeats fall due and whichever events the sink
  refuses: the events the sink accepted are numbered 0, 1, 2, ... without a gap, and all name the task. When the agent returns a
  result, it names the task, the accepted events begin with the only \<open>STARTED\<close>, and the only \<open>FINISHED\<close> carries the outcome of
  the result, with nothing but heartbeats after it.\<close>

theorem agent_events_are_gapless:
  assumes "deliver answers (agent_run exn_name adapters env task) 0 = (events, x)"
  shows "map ee_seq events = map int [0..<length events] \<and> list_all (same_identity task) events \<and>
    (case x of Inl _ \<Rightarrow> True
     | Inr r \<Rightarrow> same_identity task r \<and>
        (\<exists>start body fin beats. events = start # body @ fin # beats \<and> ee_type start = EV_STARTED \<and>
           list_all (\<lambda>e. ee_type e \<noteq> EV_STARTED \<and> ee_type e \<noteq> EV_FINISHED) body \<and> ee_type fin = EV_FINISHED \<and>
           ee_payload fin = [(''outcome'', PStr (outcome_value (rs_outcome r)))] \<and>
           list_all (\<lambda>e. ee_type e = EV_HEARTBEAT) beats))"
proof -
  from reports_deliver [OF agent_reports assms]
  have r: "case x of Inr r \<Rightarrow> protocol_result task events r | Inl _ \<Rightarrow> protocol_crash task events" by (cases x) simp_all
  then have g: "gapless task events (length events)"
    by (cases x) (auto simp: protocol_result_def protocol_crash_def ended_def)
  have "freeze_mapping [(''outcome'', PStr s)] = [(''outcome'', PStr s)]" for s by (simp add: freeze_mapping_def)
  with r g show ?thesis by (cases x) (simp_all add: protocol_result_def ended_def gapless_def)
qed

theorem agent_events_are_gapless_witness:
  "let (events, x) = deliver demo_answers (agent_run (\<lambda>_. []) demo_adapters demo_agent_env demo_retry_task) 0 in
     map ee_type events = [EV_STARTED, EV_HEARTBEAT, EV_ASSERTION, EV_FINISHED] \<and> map ee_seq events = [0, 1, 2, 3] \<and> \<not> isl x"
proof -
  let ?d = "deliver demo_answers (agent_run (\<lambda>_. []) demo_adapters demo_agent_env demo_retry_task) 0"
  have t: "map ee_type (fst ?d) = [EV_STARTED, EV_HEARTBEAT, EV_ASSERTION, EV_FINISHED] \<and> length (fst ?d) = 4 \<and> \<not> isl (snd ?d)"
    by code_simp
  from agent_events_are_gapless [OF prod.collapse [symmetric], of demo_answers "\<lambda>_. []" demo_adapters demo_agent_env demo_retry_task]
  have "map ee_seq (fst ?d) = map int [0..<length (fst ?d)]" by blast
  also have "... = [0, 1, 2, 3]" unfolding conjunct1 [OF conjunct2 [OF t]] by code_simp
  finally show ?thesis using t by (simp only: case_prod_beta Let_def) simp
qed

end
