(* ===== verification/Artifacts.thy ===== *)
theory Artifacts
  imports Runner_Agent_Facts Local_Runner Workflow_Executor
begin

text \<open>
  The artifact stores and the artifact collector of \<^verbatim>\<open>services/artifacts.py\<close>. The collector takes an event that names a file of
  the attempt's spool directory, puts the file into a store and the record of it into the run repository. The digest, the file
  system, the object storage and the guess of a content type are arguments.
\<close>

section \<open>Paths and stores\<close>

text \<open>\<open>PurePosixPath(value)\<close>: the parts of a path, without empty ones and \<open>.\<close>; an absolute path has the root besides.\<close>

definition posix_parts :: "string \<Rightarrow> string list" where
  "posix_parts v = filter (\<lambda>p. p \<noteq> [] \<and> p \<noteq> ''.'') (split_on (CHR ''/'') v)"

definition is_absolute :: "string \<Rightarrow> bool" where
  "is_absolute v \<longleftrightarrow> take 1 v = ''/''"

definition path_name :: "string list \<Rightarrow> string" where
  "path_name parts = (if parts = [] then [] else last parts)"

definition bad_path :: "string \<Rightarrow> bool" where
  "bad_path v \<longleftrightarrow> is_absolute v \<or> ''..'' \<in> set (posix_parts v) \<or> path_name (posix_parts v) = []"

text \<open>\<open>LocalArtifactStore\<close>, with the files below its root as a map: \<open>sha256\<close> is the digest of the key, \<open>stat\<close> the size of the
  source and \<open>copied\<close> the bytes that arrive in the temporary file (\<open>Inl\<close> an \<open>OSError\<close>), which replaces the target at the end.\<close>

definition artifact_target :: "(string \<Rightarrow> string) \<Rightarrow> string list \<Rightarrow> string \<Rightarrow> string list res" where
  "artifact_target sha256 base key =
     (if bad_path key then Inl ArtifactUploadError
      else (let digest = sha256 key in Inr (base @ [take 2 digest, digest])))"

definition local_put ::
  "(string \<Rightarrow> string) \<Rightarrow> string list \<Rightarrow> int \<Rightarrow> int res \<Rightarrow> string res \<Rightarrow> string \<Rightarrow> (string list \<rightharpoonup> string, int) pyop" where
  "local_put sha256 base maximum_bytes stat copied key =
     bind (lift stat) (\<lambda>bytes.
     bind (lift (guard (bytes > maximum_bytes) ArtifactUploadError)) (\<lambda>_.
     bind (lift (artifact_target sha256 base key)) (\<lambda>target.
     bind (lift copied) (\<lambda>content.
     bind (lift (guard (int (length content) \<noteq> bytes) ArtifactUploadError)) (\<lambda>_.
     bind (writes (\<lambda>files. files(target \<mapsto> content))) (\<lambda>_.
     ret bytes))))))"

definition local_path :: "(string \<Rightarrow> string) \<Rightarrow> string list \<Rightarrow> string \<Rightarrow> (string list \<rightharpoonup> string, string list option) pyop" where
  "local_path sha256 base key =
     bind (lift (artifact_target sha256 base key)) (\<lambda>target.
     bind (reads id) (\<lambda>files.
     ret (if files target = None then None else Some target)))"

text \<open>\<open>PresignedArtifactStore\<close>: the URL as \<open>urlsplit\<close> reads it, and the answer of the object storage.\<close>

definition validate_store_url :: "string set \<Rightarrow> ParsedUrl \<Rightarrow> unit res" where
  "validate_store_url allowed_hosts parsed =
     guard (pu_scheme parsed \<noteq> ''https'' \<or>
       (case pu_hostname parsed of None \<Rightarrow> True | Some h \<Rightarrow> h = [] \<or> lower h \<notin> allowed_hosts) \<or>
       pu_username parsed \<noteq> None \<or> pu_password parsed \<noteq> None) ArtifactUploadError"

definition presigned_put :: "string set \<Rightarrow> int \<Rightarrow> ParsedUrl res \<Rightarrow> int res \<Rightarrow> int option \<Rightarrow> int res" where
  "presigned_put allowed_hosts maximum_bytes url stat response =
     rbind url (\<lambda>parsed.
     rbind (validate_store_url allowed_hosts parsed) (\<lambda>_.
     rbind stat (\<lambda>nbytes.
     rbind (guard (nbytes > maximum_bytes) ArtifactUploadError) (\<lambda>_.
     case response of
       None \<Rightarrow> Inl ArtifactUploadError
     | Some status \<Rightarrow> rbind (guard (\<not> (200 \<le> status \<and> status < 300)) ArtifactUploadError) (\<lambda>_. Inr nbytes)))))"

section \<open>The collector\<close>

text \<open>
  The file system the collector sees: the spool directory of an attempt, whether a path is a symbolic link, what it resolves to
  (\<open>None\<close> when it does not exist), whether that is a file, and the type guessed from its name; and the store.
\<close>

record Spool =
  sl_root :: "uuid \<Rightarrow> string list"
  sl_symlink :: "string list \<Rightarrow> bool"
  sl_resolve :: "string list \<Rightarrow> string list option"
  sl_is_file :: "string list \<Rightarrow> bool"
  sl_guess_type :: "string \<Rightarrow> string option"
  sl_put :: "string list \<Rightarrow> string \<Rightarrow> string \<Rightarrow> int res"

definition is_relative_to :: "string list \<Rightarrow> string list \<Rightarrow> bool" where
  "is_relative_to path base \<longleftrightarrow> take (length base) path = base"

definition event_type_value :: "EventType \<Rightarrow> string" where
  "event_type_value t = (case t of
     EV_STARTED \<Rightarrow> ''started'' | EV_PROGRESS \<Rightarrow> ''progress'' | EV_LOG \<Rightarrow> ''log'' | EV_ASSERTION \<Rightarrow> ''assertion''
   | EV_EXTRACTION \<Rightarrow> ''extraction'' | EV_SCREENSHOT \<Rightarrow> ''screenshot'' | EV_ERROR \<Rightarrow> ''error''
   | EV_HEARTBEAT \<Rightarrow> ''heartbeat'' | EV_ARTIFACT \<Rightarrow> ''artifact'' | EV_FINISHED \<Rightarrow> ''finished'')"

definition artifact_source :: "Spool \<Rightarrow> TaskEnvelope \<Rightarrow> EventEnvelope \<Rightarrow> string list res" where
  "artifact_source sp task event =
     (case dget (ee_payload event) ''relative_path'' of
        Some (PStr v) \<Rightarrow>
          rbind (guard (length v > 512) ArtifactUploadError) (\<lambda>_.
          rbind (guard (bad_path v) ArtifactUploadError) (\<lambda>_.
          (let attempt_root = sl_root sp (en_attempt_id task); source = attempt_root @ posix_parts v in
           rbind (guard (sl_symlink sp source) ArtifactUploadError) (\<lambda>_.
           case sl_resolve sp source of
             None \<Rightarrow> Inl ArtifactUploadError
           | Some resolved \<Rightarrow>
               rbind (guard (\<not> is_relative_to resolved attempt_root \<or> \<not> sl_is_file sp resolved) ArtifactUploadError) (\<lambda>_.
               rbind (guard (length (path_name resolved) > 255) ArtifactUploadError) (\<lambda>_.
               Inr resolved))))))
      | _ \<Rightarrow> Inl ArtifactUploadError)"

definition artifact_kind :: "EventEnvelope \<Rightarrow> string res" where
  "artifact_kind event =
     (case (case dget (ee_payload event) ''artifact_type'' of None \<Rightarrow> PStr (event_type_value (ee_type event)) | Some v \<Rightarrow> v) of
        PStr v \<Rightarrow>
          rbind (guard (\<not> list_all (\<lambda>c. of_char c < (128 :: nat)) v) ArtifactUploadError) (\<lambda>_.
          (let kind = lower (strip v) in
           rbind (guard (kind = [] \<or> length kind > 64 \<or>
             \<not> list_all (\<lambda>c. ascii_letter c \<or> ascii_digit c \<or> c = CHR ''_'' \<or> c = CHR ''-'') kind) ArtifactUploadError) (\<lambda>_.
           Inr kind)))
      | _ \<Rightarrow> Inl ArtifactUploadError)"

fun join_path :: "string list \<Rightarrow> string" where
  "join_path [] = []"
| "join_path [p] = p"
| "join_path (p # ps) = p @ ''/'' @ join_path ps"

definition artifact_key :: "TaskEnvelope \<Rightarrow> EventEnvelope \<Rightarrow> string \<Rightarrow> string" where
  "artifact_key task event name =
     join_path [uuid_str (tk_tenant_id task), uuid_str (tk_project_id task), uuid_str (en_run_id task), uuid_str (en_attempt_id task),
       uuid_str (ee_event_id event), name]"

definition artifact_event :: "TaskEnvelope \<Rightarrow> EventEnvelope \<Rightarrow> ArtifactRecord \<Rightarrow> EventEnvelope" where
  "artifact_event task event artifact =
     event\<lparr>ee_payload := freeze_mapping
       [(''artifact_id'', PStr (uuid_str (ar_id artifact))), (''artifact_type'', PStr (ar_kind artifact)),
        (''file_name'', PStr (ar_name artifact)), (''content_type'', PStr (ar_content_type artifact)),
        (''size_bytes'', PInt (ar_size_bytes artifact)),
        (''url'', PStr (''/api/v1/runs/'' @ uuid_str (en_run_id task) @ ''/artifacts/'' @ uuid_str (ar_id artifact) @ ''/content''))]\<rparr>"

text \<open>What the collector asks the repository to record: the file is found, its kind read, and its content put into the store.\<close>

definition artifact_record :: "Spool \<Rightarrow> TaskEnvelope \<Rightarrow> EventEnvelope \<Rightarrow> ArtifactRecord res" where
  "artifact_record sp task event =
     rbind (artifact_source sp task event) (\<lambda>resolved.
     rbind (artifact_kind event) (\<lambda>kind.
     (let name = path_name resolved;
          content_type = (case sl_guess_type sp name of None \<Rightarrow> ''application/octet-stream''
            | Some t \<Rightarrow> if t = [] then ''application/octet-stream'' else t);
          key = artifact_key task event name in
      rbind (sl_put sp resolved key content_type) (\<lambda>nbytes.
      Inr \<lparr>ar_id = ee_event_id event, ar_run_id = en_run_id task, ar_attempt_id = en_attempt_id task,
        ar_kind = kind, ar_name = name, ar_content_type = content_type, ar_size_bytes = nbytes, ar_storage_key = key,
        ar_created_at = ee_occurred_at event\<rparr>))))"

definition collect_artifact :: "Spool \<Rightarrow> TaskEnvelope \<Rightarrow> EventEnvelope \<Rightarrow> (RunRepo, EventEnvelope) pyop" where
  "collect_artifact sp task event =
     (if ee_type event \<notin> {EV_ARTIFACT, EV_SCREENSHOT} then ret event
      else
        bind (lift (artifact_record sp task event)) (\<lambda>rec.
        bind (create_artifact rec) (\<lambda>artifact.
        ret (artifact_event task event artifact))))"

section \<open>What the collector guarantees\<close>

lemma create_artifact_cases:
  "create_artifact rec r = (x, t) \<Longrightarrow>
     (x = Inr rec \<and> dget (q_artifacts t) (ar_id rec) = Some rec \<and> create_artifact rec t = (Inr rec, t) \<or>
      t = r \<and> (\<exists>e. x = Inl e \<and> e \<in> {AttemptNotFound, ArtifactConflict, RunNotFound})) \<and>
     q_runs t = q_runs r \<and> q_attempts t = q_attempts r"
  by (auto simp: create_artifact_unfold dget_dset split: option.splits if_splits)

lemma create_artifact_again:
  assumes "repo_inv u" "dget (q_artifacts u) (ar_id rec) = Some rec"
  shows "create_artifact rec u = (Inr rec, u)"
proof -
  have "artifacts_ok u" "attempts_ok u" using assms(1) by (simp_all add: repo_inv_def)
  then obtain a where a: "dget (q_attempts u) (ar_attempt_id rec) = Some a" "at_run_id a = ar_run_id rec"
    using assms(2) by (auto simp: artifacts_ok_def)
  then obtain run where "dget (q_runs u) (ar_run_id rec) = Some run"
    using \<open>attempts_ok u\<close> by (fastforce simp: attempts_ok_def)
  with a assms(2) show ?thesis by (simp add: create_artifact_unfold)
qed

lemma collect_unfold:
  "collect_artifact sp task event r =
     (if ee_type event \<notin> {EV_ARTIFACT, EV_SCREENSHOT} then (Inr event, r)
      else case artifact_record sp task event of
        Inl e \<Rightarrow> (Inl e, r)
      | Inr rec \<Rightarrow> (case create_artifact rec r of
          (Inl e, t) \<Rightarrow> (Inl e, t) | (Inr a, t) \<Rightarrow> (Inr (artifact_event task event a), t)))"
  by (simp add: collect_artifact_def bind_def split: sum.split prod.split)

lemma collect_repository:
  "snd (collect_artifact sp task event r) = r \<or> (\<exists>rec. snd (collect_artifact sp task event r) = snd (create_artifact rec r))"
proof (cases "artifact_record sp task event")
  case (Inr rec)
  have "snd (collect_artifact sp task event r) = r \<or> snd (collect_artifact sp task event r) = snd (create_artifact rec r)"
    by (cases "create_artifact rec r"; cases "fst (create_artifact rec r)") (simp_all add: collect_unfold Inr)
  then show ?thesis by blast
qed (simp add: collect_unfold)

lemma repo_op_collect: "repo_op (collect_artifact sp task event)"
  unfolding repo_op_def
proof (intro allI impI)
  fix r show "repo_steps r (snd (collect_artifact sp task event r))"
    using collect_repository [of sp task event r] steps_step [OF steps_refl step_artifact, of r] by auto
qed

lemma collect_frame:
  "q_runs (snd (collect_artifact sp task event r)) = q_runs r \<and> q_attempts (snd (collect_artifact sp task event r)) = q_attempts r"
proof -
  have "q_runs (snd (create_artifact rec r)) = q_runs r \<and> q_attempts (snd (create_artifact rec r)) = q_attempts r" for rec
    using create_artifact_cases [OF prod.collapse [symmetric]] by blast
  with collect_repository [of sp task event r] show ?thesis by auto
qed

lemma artifact_source_error: "artifact_source sp task event = Inl e \<Longrightarrow> e = ArtifactUploadError"
  by (auto simp: artifact_source_def Let_def guard_def rbind_def split: option.splits pyval.splits if_splits sum.splits)

lemma artifact_kind_error: "artifact_kind event = Inl e \<Longrightarrow> e = ArtifactUploadError"
  by (auto simp: artifact_kind_def Let_def guard_def rbind_def split: option.splits pyval.splits if_splits sum.splits)

lemma artifact_record_error:
  assumes "\<And>path key t. sl_put sp path key t \<noteq> Inl RunnerIdentityError"
  shows "artifact_record sp task event \<noteq> Inl RunnerIdentityError"
  using assms artifact_source_error artifact_kind_error
  by (fastforce simp: artifact_record_def rbind_def Let_def split: sum.splits)

lemma collect_error:
  assumes "\<And>path key t. sl_put sp path key t \<noteq> Inl RunnerIdentityError"
  shows "fst (collect_artifact sp task event r) \<noteq> Inl RunnerIdentityError"
proof (cases "artifact_record sp task event")
  case (Inr rec)
  show ?thesis
    using create_artifact_cases [OF prod.collapse [symmetric], of rec r]
    by (cases "create_artifact rec r"; cases "fst (create_artifact rec r)") (auto simp: collect_unfold Inr)
qed (use artifact_record_error [OF assms] in \<open>auto simp: collect_unfold\<close>)

lemma collect_ok:
  assumes "ee_type event \<in> {EV_ARTIFACT, EV_SCREENSHOT}" "collect_artifact sp task event r = (Inr ev, t)"
  obtains rec where "artifact_record sp task event = Inr rec" "create_artifact rec r = (Inr rec, t)" "ev = artifact_event task event rec"
    "dget (q_artifacts t) (ar_id rec) = Some rec" "create_artifact rec t = (Inr rec, t)"
proof -
  obtain rec where rec: "artifact_record sp task event = Inr rec" using assms by (auto simp: collect_unfold split: sum.splits)
  obtain a where a: "create_artifact rec r = (Inr a, t)" "ev = artifact_event task event a"
    using assms rec by (auto simp: collect_unfold split: prod.splits sum.splits)
  from create_artifact_cases [OF a(1)] a rec that show ?thesis by auto
qed

lemma artifact_source_ok:
  assumes "artifact_source sp task event = Inr resolved"
  shows "\<exists>v. dget (ee_payload event) ''relative_path'' = Some (PStr v) \<and> length v \<le> 512 \<and> \<not> bad_path v \<and>
     sl_resolve sp (sl_root sp (en_attempt_id task) @ posix_parts v) = Some resolved \<and>
     \<not> sl_symlink sp (sl_root sp (en_attempt_id task) @ posix_parts v) \<and>
     is_relative_to resolved (sl_root sp (en_attempt_id task)) \<and> sl_is_file sp resolved \<and> length (path_name resolved) \<le> 255"
  using assms by (auto simp: artifact_source_def Let_def split: option.splits pyval.splits)

lemma artifact_record_ok:
  assumes "artifact_record sp task event = Inr rec"
  shows "\<exists>resolved. artifact_source sp task event = Inr resolved \<and> ar_id rec = ee_event_id event \<and>
     ar_run_id rec = en_run_id task \<and> ar_attempt_id rec = en_attempt_id task \<and> ar_name rec = path_name resolved \<and>
     artifact_kind event = Inr (ar_kind rec) \<and> ar_storage_key rec = artifact_key task event (path_name resolved) \<and>
     sl_put sp resolved (ar_storage_key rec) (ar_content_type rec) = Inr (ar_size_bytes rec)"
  using assms by (auto simp: artifact_record_def Let_def)

section \<open>Demonstration\<close>

definition demo_spool :: Spool where
  "demo_spool = \<lparr>sl_root = (\<lambda>i. [''spool'', uuid_str i]), sl_symlink = (\<lambda>_. False), sl_resolve = Some,
     sl_is_file = (\<lambda>path. path_name path = ''report.html''), sl_guess_type = (\<lambda>_. Some ''text/html''), sl_put = (\<lambda>_ _ _. Inr 7)\<rparr>"

definition demo_artifact :: EventEnvelope where
  "demo_artifact = demo_event\<lparr>ee_type := EV_ARTIFACT, ee_payload := [(''relative_path'', PStr ''out/report.html'')]\<rparr>"

lemma demo_record: "\<not> isl (artifact_record demo_spool demo_retry_task demo_artifact)"
proof -
  have p: "posix_parts ''out/report.html'' = [''out'', ''report.html'']" by code_simp
  then have "\<not> bad_path ''out/report.html''" by (simp add: bad_path_def is_absolute_def path_name_def)
  then have s: "artifact_source demo_spool demo_retry_task demo_artifact = Inr [''spool'', uuid_str 2, ''out'', ''report.html'']"
    by (simp add: artifact_source_def demo_artifact_def demo_spool_def demo_retry_task_def p is_relative_to_def path_name_def)
  have k: "\<not> isl (artifact_kind demo_artifact)" by code_simp
  moreover have "sl_put demo_spool path key t = Inr 7" for path key t by (simp add: demo_spool_def)
  ultimately show ?thesis by (cases "artifact_kind demo_artifact") (simp_all add: artifact_record_def s Let_def)
qed

lemma demo_leased_attempt: "map_option at_run_id (dget (q_attempts demo_leased) 2) = Some 1 \<and>
  dget (q_runs demo_leased) 1 \<noteq> None \<and> dget (q_artifacts demo_leased) 5 = None"
  by code_simp

lemma demo_collected: "\<not> isl (fst (collect_artifact demo_spool demo_retry_task demo_artifact demo_leased))"
proof -
  obtain rec where rec: "artifact_record demo_spool demo_retry_task demo_artifact = Inr rec"
    using demo_record by (cases "artifact_record demo_spool demo_retry_task demo_artifact") auto
  then have "ar_id rec = 5" "ar_run_id rec = 1" "ar_attempt_id rec = 2"
    using artifact_record_ok [OF rec] by (auto simp: demo_artifact_def demo_event_def demo_retry_task_def)
  then have "\<not> isl (fst (create_artifact rec demo_leased))"
    using demo_leased_attempt by (auto simp: create_artifact_unfold)
  moreover have "ee_type demo_artifact = EV_ARTIFACT" by (simp add: demo_artifact_def)
  ultimately show ?thesis
    by (cases "create_artifact rec demo_leased"; cases "fst (create_artifact rec demo_leased)") (auto simp: collect_unfold rec)
qed

definition spooling_manager :: Manager where
  "spooling_manager = demo_manager\<lparr>mg_collector := Some (collect_artifact demo_spool)\<rparr>"

lemma spooling_manager_fair: "fair_manager spooling_manager"
  using demo_manager_fair(1) repo_op_collect
  by (auto simp: spooling_manager_def fair_manager_def demo_manager_def)

section \<open>Properties\<close>

text \<open>C13. A collected artifact is a file of its own attempt, and the repository knows it. When the collector accepts an artifact or
  screenshot event, the reported path has no \<open>..\<close> part, is not a symbolic link and resolves to a file below the spool directory of
  the attempt; exactly that file was put into the store, under the key of the record that the repository now holds for the
  event, the run and the attempt; and the event that goes on is the reported one but for its payload, which names the record.\<close>

theorem collected_artifact_is_attempt_file:
  assumes "ee_type event \<in> {EV_ARTIFACT, EV_SCREENSHOT}" "collect_artifact sp task event r = (Inr ev, t)"
  shows "\<exists>v resolved rec. dget (ee_payload event) ''relative_path'' = Some (PStr v) \<and>
     ''..'' \<notin> set (posix_parts v) \<and> posix_parts v \<noteq> [] \<and> \<not> sl_symlink sp (sl_root sp (en_attempt_id task) @ posix_parts v) \<and>
     sl_resolve sp (sl_root sp (en_attempt_id task) @ posix_parts v) = Some resolved \<and> sl_is_file sp resolved \<and>
     (\<exists>below. resolved = sl_root sp (en_attempt_id task) @ below) \<and>
     dget (q_artifacts t) (ee_event_id event) = Some rec \<and> ar_run_id rec = en_run_id task \<and> ar_attempt_id rec = en_attempt_id task \<and>
     sl_put sp resolved (ar_storage_key rec) (ar_content_type rec) = Inr (ar_size_bytes rec) \<and>
     ev = event\<lparr>ee_payload := ee_payload ev\<rparr> \<and> ev = artifact_event task event rec"
proof -
  obtain rec where rec: "artifact_record sp task event = Inr rec" "ev = artifact_event task event rec"
    "dget (q_artifacts t) (ar_id rec) = Some rec"
    using assms by (rule collect_ok)
  obtain resolved where res: "artifact_source sp task event = Inr resolved" "ar_id rec = ee_event_id event"
    "ar_run_id rec = en_run_id task" "ar_attempt_id rec = en_attempt_id task"
    "sl_put sp resolved (ar_storage_key rec) (ar_content_type rec) = Inr (ar_size_bytes rec)"
    using artifact_record_ok [OF rec(1)] by blast
  obtain v where v: "dget (ee_payload event) ''relative_path'' = Some (PStr v)" "\<not> bad_path v"
    "sl_resolve sp (sl_root sp (en_attempt_id task) @ posix_parts v) = Some resolved"
    "\<not> sl_symlink sp (sl_root sp (en_attempt_id task) @ posix_parts v)"
    "is_relative_to resolved (sl_root sp (en_attempt_id task))" "sl_is_file sp resolved"
    using artifact_source_ok [OF res(1)] by blast
  have "resolved = sl_root sp (en_attempt_id task) @ drop (length (sl_root sp (en_attempt_id task))) resolved"
    using v(5) unfolding is_relative_to_def by (metis append_take_drop_id)
  then have "\<exists>below. resolved = sl_root sp (en_attempt_id task) @ below" ..
  moreover have "''..'' \<notin> set (posix_parts v) \<and> posix_parts v \<noteq> []" using v(2) by (auto simp: bad_path_def path_name_def)
  moreover have "ev = event\<lparr>ee_payload := ee_payload ev\<rparr>" by (simp add: rec(2) artifact_event_def)
  ultimately show ?thesis using rec(2,3) res v by auto
qed

theorem collected_artifact_is_attempt_file_witness:
  "\<exists>resolved. sl_resolve demo_spool [''spool'', uuid_str 2, ''out'', ''report.html''] = Some resolved \<and> sl_is_file demo_spool resolved"
proof -
  obtain ev where ev: "fst (collect_artifact demo_spool demo_retry_task demo_artifact demo_leased) = Inr ev"
    using demo_collected by (cases "fst (collect_artifact demo_spool demo_retry_task demo_artifact demo_leased)") auto
  have ty: "ee_type demo_artifact \<in> {EV_ARTIFACT, EV_SCREENSHOT}" by (simp add: demo_artifact_def)
  have c: "collect_artifact demo_spool demo_retry_task demo_artifact demo_leased =
      (Inr ev, snd (collect_artifact demo_spool demo_retry_task demo_artifact demo_leased))"
    using ev by (metis prod.collapse)
  have p: "posix_parts ''out/report.html'' = [''out'', ''report.html'']" by code_simp
  from collected_artifact_is_attempt_file [OF ty c] show ?thesis
    by (auto simp: demo_artifact_def demo_spool_def demo_retry_task_def p)
qed

text \<open>Delivering an artifact event again changes nothing. When the collector has accepted an event, collecting the same event in any
  later state of the repository gives the same event to store and leaves the repository as it is, so that a runner may repeat a
  delivery whose acknowledgement it did not see.\<close>

theorem collecting_again_is_idempotent:
  assumes "repo_steps empty_repo r" "collect_artifact sp task event r = (Inr ev, t)" "repo_steps t u"
  shows "collect_artifact sp task event u = (Inr ev, u)"
proof (cases "ee_type event \<in> {EV_ARTIFACT, EV_SCREENSHOT}")
  case True
  obtain rec where rec: "artifact_record sp task event = Inr rec" "ev = artifact_event task event rec"
    "dget (q_artifacts t) (ar_id rec) = Some rec"
    using True assms(2) by (rule collect_ok)
  have inv: "repo_inv t"
    using repo_steps_inv [OF repo_op_collect [unfolded repo_op_def, rule_format, of r sp task event]] reachable_inv [OF assms(1)] assms(2)
    by simp
  have "dget (q_artifacts u) (ar_id rec) = Some rec"
    using repo_steps_evolves [OF assms(3) inv] rec(3) by (simp add: repo_evolves_def)
  then have "create_artifact rec u = (Inr rec, u)"
    by (rule create_artifact_again [OF repo_steps_inv [OF assms(3) inv]])
  with True rec show ?thesis by (simp add: collect_unfold)
qed (use assms(2) in \<open>simp add: collect_unfold\<close>)

theorem collecting_again_is_idempotent_witness:
  "let (x, t) = collect_artifact demo_spool demo_retry_task demo_artifact demo_leased in
     \<not> isl x \<and> collect_artifact demo_spool demo_retry_task demo_artifact t = (x, t)"
proof -
  let ?c = "collect_artifact demo_spool demo_retry_task demo_artifact demo_leased"
  obtain ev where ev: "fst ?c = Inr ev" using demo_collected by (cases "fst ?c") auto
  then have c: "?c = (Inr ev, snd ?c)" by (metis prod.collapse)
  from collecting_again_is_idempotent [OF demo_reach_leased c steps_refl] show ?thesis
    using ev by (simp add: case_prod_beta)
qed

text \<open>C8. A task that runs on the host always settles, and the agent is never at odds with the manager. The manager collects the files
  the agent reports from the attempt's spool; whatever the adapter does, whatever the files and the store are and whichever events
  cannot be stored, a task that can start comes back with a result of its own: no identity error can occur, the attempt ends in a
  terminal state, and the run ends in a terminal state or waits for a retry that was handed to the scheduler.\<close>

theorem host_task_settles:
  assumes "quiet sch" "fair_manager mg" "can_start mg task s" "mg_collector mg = Some (collect_artifact sp)"
    and "\<And>path key t. sl_put sp path key t \<noteq> Inl RunnerIdentityError"
    and "\<And>files. ae_artifacts env = Some files \<Longrightarrow> Inl RunnerIdentityError \<notin> set files"
  shows "\<exists>result t a run. execute exn_name str_of mg sch (host_execute exn_name adapters env now paths_valid spool_fresh) task s = (Inr result, t) \<and>
    same_identity task result \<and>
    dget (q_attempts (ms_repo t)) (en_attempt_id task) = Some a \<and> at_state a \<in> set ATTEMPT_TERMINAL \<and>
    dget (q_runs (ms_repo t)) (en_run_id task) = Some run \<and>
    (rr_state run \<in> set RUN_TERMINAL \<or> rr_state run = R_RETRY_WAIT \<and> en_run_id task \<in> set (map fst (ms_scheduled t)))"
proof -
  have "collects_only mg" using assms(4) collect_frame by (auto simp: collects_only_def)
  from host_execution_settles [OF assms(1,2) this assms(3,4) collect_error [OF assms(5)] assms(6)] show ?thesis .
qed

theorem host_task_settles_witness:
  "\<exists>result t. execute (\<lambda>_. []) (\<lambda>_. []) spooling_manager demo_sched
     (host_execute (\<lambda>_. []) demo_adapters demo_agent_env 1 True True) demo_retry_task demo_start = (Inr result, t) \<and>
     same_identity demo_retry_task result"
proof -
  have q: "quiet demo_sched" by (simp add: quiet_def demo_sched_def)
  have c: "mg_collector spooling_manager = Some (collect_artifact demo_spool)" by (simp add: spooling_manager_def)
  have s: "can_start spooling_manager demo_retry_task demo_start"
    using demo_can_start by (simp add: can_start_def spooling_manager_def)
  have p: "\<And>path key t. sl_put demo_spool path key t \<noteq> Inl RunnerIdentityError" by (simp add: demo_spool_def)
  have "ae_artifacts demo_agent_env = None" by (simp add: demo_agent_env_def)
  then have "\<And>files. ae_artifacts demo_agent_env = Some files \<Longrightarrow> Inl RunnerIdentityError \<notin> set files" by simp
  from host_task_settles [where env = demo_agent_env, OF q spooling_manager_fair s c p this] show ?thesis by fastforce
qed

text \<open>The local store gives back what was put into it. When \<open>put\<close> returns, the size it returns is within the limit and
  \<open>local_path\<close> of the key is a file below the root with exactly the bytes that were copied; files of keys with another digest are
  untouched. When it raises, no file has changed.\<close>

theorem local_store_roundtrip:
  assumes "local_put sha256 base maximum_bytes stat copied key files = (x, files')"
  shows "case x of
      Inl _ \<Rightarrow> files' = files
    | Inr nbytes \<Rightarrow> nbytes \<le> maximum_bytes \<and>
        (\<exists>content target below. copied = Inr content \<and> int (length content) = nbytes \<and> target = base @ below \<and>
           local_path sha256 base key files' = (Inr (Some target), files') \<and> files' target = Some content \<and>
           (\<forall>other. sha256 other \<noteq> sha256 key \<longrightarrow> local_path sha256 base other files' =
              (fst (local_path sha256 base other files), files')))"
proof (cases x)
  case (Inl e)
  with assms show ?thesis by (auto simp: local_put_def bind_def guard_def split: sum.splits if_splits)
next
  case (Inr n)
  then obtain content where c: "stat = Inr n" "n \<le> maximum_bytes" "\<not> bad_path key" "copied = Inr content" "int (length content) = n"
    "files' = files(base @ [take 2 (sha256 key), sha256 key] \<mapsto> content)"
    using assms by (auto simp: local_put_def bind_def guard_def artifact_target_def Let_def split: sum.splits if_splits)
  let ?below = "[take 2 (sha256 key), sha256 key]"
  have "local_path sha256 base key files' = (Inr (Some (base @ ?below)), files')" "files' (base @ ?below) = Some content"
    using c by (simp_all add: local_path_def bind_def artifact_target_def Let_def)
  moreover have "local_path sha256 base other files' = (fst (local_path sha256 base other files), files')"
    if "sha256 other \<noteq> sha256 key" for other
    using that by (auto simp: local_path_def bind_def artifact_target_def Let_def c(6))
  ultimately show ?thesis using Inr c(2,4,5) by auto
qed

theorem local_store_roundtrip_witness:
  "\<exists>target. fst (local_path rev [''store''] ''a/b'' (snd (local_put rev [''store''] 10 (Inr 3) (Inr ''abc'') ''a/b'' Map.empty))) =
     Inr (Some target)"
proof -
  let ?put = "local_put rev [''store''] 10 (Inr 3) (Inr ''abc'') ''a/b'' Map.empty"
  have "fst ?put = Inr 3"
    by (simp add: local_put_def bind_def artifact_target_def Let_def bad_path_def is_absolute_def posix_parts_def path_name_def)
  then have "?put = (Inr 3, snd ?put)" by (metis prod.collapse)
  from local_store_roundtrip [OF this] show ?thesis by auto
qed

end
