(* ===== verification/Source_Archive.thy ===== *)
theory Source_Archive
  imports File_System Artifacts
begin

text \<open>
  Project archives in \<^verbatim>\<open>services/source_store.py\<close>: which members of a ZIP file are accepted, and how they are unpacked into a
  workspace; \<open>confined\<close> says that a step only adds nodes below a directory.
\<close>

section \<open>Project archives\<close>

definition MAX_SOURCE_BYTES :: int where
  "MAX_SOURCE_BYTES = 1024 * 1024"

definition MAX_ARCHIVE_BYTES :: int where
  "MAX_ARCHIVE_BYTES = 10 * 1024 * 1024"

definition MAX_ARCHIVE_EXPANDED_BYTES :: int where
  "MAX_ARCHIVE_EXPANDED_BYTES = 50 * 1024 * 1024"

definition MAX_ARCHIVE_FILES :: nat where
  "MAX_ARCHIVE_FILES = 2000"

text \<open>
  A member as \<open>zipfile\<close> lists it: its attributes, the chunks that reading it returns, and the exception that reading ends with when
  the data is damaged. \<open>ZipFile(content).infolist()\<close>, \<open>str.casefold\<close> and the digest are arguments, in a record.
\<close>

record ZipInfo =
  zi_filename :: string
  zi_external_attr :: nat
  zi_flag_bits :: nat
  zi_file_size :: int
  zi_chunks :: "string list"
  zi_broken :: "exn option"

record SourceLib =
  sb_sha256 :: "string \<Rightarrow> string"
  sb_casefold :: "string \<Rightarrow> string"
  sb_infolist :: "string \<Rightarrow> ZipInfo list res"

definition path_str :: "path \<Rightarrow> string" where
  "path_str parts = (if parts = [] then ''.'' else join_path parts)"

definition has_control :: "string \<Rightarrow> bool" where
  "has_control v \<longleftrightarrow> list_ex (\<lambda>c. of_char c < (32 :: nat)) v"

definition ends_with_slash :: "string \<Rightarrow> bool" where
  "ends_with_slash v \<longleftrightarrow> v \<noteq> [] \<and> last v = CHR ''/''"

definition archive_path :: "string \<Rightarrow> path res" where
  "archive_path v =
     (if v = [] \<or> length v > 512 \<or> CHR 0x5C \<in> set v \<or> CHR 0x00 \<in> set v \<or> take 1 v = ''/'' \<or> has_control v
      then Inl SourceStoreError
      else (let normalized = (if ends_with_slash v then butlast v else v); parts = posix_parts normalized in
        if normalized = [] \<or> is_absolute normalized \<or> path_str parts \<noteq> normalized \<or>
           list_ex (\<lambda>part. part \<in> {[], ''.'', ''..''} \<or> CHR '':'' \<in> set part) parts
        then Inl SourceStoreError
        else Inr parts))"

text \<open>\<open>stat.S_IFMT\<close> and the kinds of file it tells apart.\<close>

definition s_ifmt :: "nat \<Rightarrow> nat" where
  "s_ifmt mode = (mode div 4096 mod 16) * 4096"

definition S_IFREG :: nat where
  "S_IFREG = 32768"

definition S_IFDIR :: nat where
  "S_IFDIR = 16384"

definition S_IFLNK :: nat where
  "S_IFLNK = 40960"

record Scan =
  sn_entries :: "(string, ZipInfo) dict"
  sn_names :: "(string, string \<times> bool) dict"
  sn_total :: int

definition scan_info :: "SourceLib \<Rightarrow> ZipInfo \<Rightarrow> Scan \<Rightarrow> Scan res" where
  "scan_info lib info sn =
     rbind (archive_path (zi_filename info)) (\<lambda>path.
     (let mode = zi_external_attr info div 65536; kind = s_ifmt mode in
      rbind (guard (odd (zi_flag_bits info)) SourceStoreError) (\<lambda>_.
      rbind (guard (kind = S_IFLNK \<or> kind \<notin> {0, S_IFREG, S_IFDIR}) SourceStoreError) (\<lambda>_.
      (let is_directory = ends_with_slash (zi_filename info); key = sb_casefold lib (path_str path) in
       rbind (guard (dget (sn_names sn) key \<noteq> None) SourceStoreError) (\<lambda>_.
       (let sn = sn\<lparr>sn_names := dset key (path_str path, is_directory) (sn_names sn)\<rparr> in
        if is_directory then Inr sn
        else
          rbind (guard (length (sn_entries sn) \<ge> MAX_ARCHIVE_FILES) SourceStoreError) (\<lambda>_.
          (let new_total = sn_total sn + zi_file_size info in
           rbind (guard (new_total > MAX_ARCHIVE_EXPANDED_BYTES) SourceStoreError) (\<lambda>_.
           Inr (sn\<lparr>sn_total := new_total, sn_entries := dset (path_str path) info (sn_entries sn)\<rparr>)))))))))))"

fun scan_infos :: "SourceLib \<Rightarrow> ZipInfo list \<Rightarrow> Scan \<Rightarrow> Scan res" where
  "scan_infos lib [] sn = Inr sn"
| "scan_infos lib (info # infos) sn = rbind (scan_info lib info sn) (scan_infos lib infos)"

text \<open>The parents of a path, from the nearest, as long as \<open>str(parent) != "."\<close>.\<close>

function parent_clash :: "SourceLib \<Rightarrow> (string, string \<times> bool) dict \<Rightarrow> path \<Rightarrow> bool" where
  "parent_clash lib names parent =
     (if parent = [] then False
      else (case dget names (sb_casefold lib (path_str parent)) of
          Some (_, False) \<Rightarrow> True
        | _ \<Rightarrow> parent_clash lib names (butlast parent)))"
  by auto
termination
  by (relation "measure (\<lambda>(_, _, p). length p)") auto

declare parent_clash.simps [simp del]

text \<open>The loop that reads a member: the running total after its chunks, within \<open>limit\<close>.\<close>

fun read_member :: "int \<Rightarrow> int \<Rightarrow> string list \<Rightarrow> exn option \<Rightarrow> int res" where
  "read_member limit actual [] broken = (case broken of None \<Rightarrow> Inr actual | Some e \<Rightarrow> Inl e)"
| "read_member limit actual (c # cs) broken =
     rbind (guard (actual + int (length c) > limit) SourceStoreError) (\<lambda>_. read_member limit (actual + int (length c)) cs broken)"

fun verify_infos :: "int \<Rightarrow> ZipInfo list \<Rightarrow> unit res" where
  "verify_infos actual [] = Inr ()"
| "verify_infos actual (info # infos) =
     rbind (read_member MAX_ARCHIVE_EXPANDED_BYTES actual (zi_chunks info) (zi_broken info)) (\<lambda>actual. verify_infos actual infos)"

text \<open>Which exceptions the method turns into \<open>SourceStoreError\<close>; any other goes through.\<close>

definition archive_error :: "exn \<Rightarrow> exn" where
  "archive_error e =
     (if e \<in> {OSError, RuntimeError, OtherException ''BadZipFile'', OtherException ''LargeZipFile''} then SourceStoreError else e)"

definition archive_entries :: "SourceLib \<Rightarrow> string \<Rightarrow> bool \<Rightarrow> (string, ZipInfo) dict res" where
  "archive_entries lib content verify_payload =
     (case rbind (sb_infolist lib content) (\<lambda>infos.
        rbind (scan_infos lib infos \<lparr>sn_entries = [], sn_names = [], sn_total = 0\<rparr>) (\<lambda>sn.
        rbind (guard (list_ex (\<lambda>name. parent_clash lib (sn_names sn) (butlast (posix_parts name))) (map fst (sn_entries sn))) SourceStoreError) (\<lambda>_.
        rbind (guard (sn_entries sn = []) SourceStoreError) (\<lambda>_.
        rbind (if verify_payload then verify_infos 0 (map snd (sn_entries sn)) else Inr ()) (\<lambda>_.
        Inr (sn_entries sn)))))) of
       Inl e \<Rightarrow> Inl (archive_error e)
     | Inr entries \<Rightarrow> Inr entries)"

section \<open>Extraction\<close>

fun safe_archive_parent :: "path \<Rightarrow> path \<Rightarrow> (filesys, unit) pyop" where
  "safe_archive_parent current [] = ret ()"
| "safe_archive_parent current (part # parts) =
     (let current = current @ [part] in
      bind (reads (\<lambda>fs. is_symlink fs current \<or> path_exists fs current \<and> \<not> is_dir fs current)) (\<lambda>bad.
      if bad then raise SourceStoreError
      else bind (mkdir current) (\<lambda>_. safe_archive_parent current parts)))"

text \<open>The stream goes to a temporary file, which replaces the target only when all of it was read.\<close>

definition atomic_write_stream :: "path \<Rightarrow> ZipInfo \<Rightarrow> int \<Rightarrow> (filesys, int) pyop" where
  "atomic_write_stream target info remaining =
     bind (lift (read_member remaining 0 (zi_chunks info) (zi_broken info))) (\<lambda>copied.
     bind (replace_file target (concat (zi_chunks info))) (\<lambda>_.
     ret copied))"

text \<open>For a member named \<open>.\<close> the destination is the root itself, whose parent is not below the root: \<open>relative_to\<close> raises.\<close>

definition extract_entry :: "path \<Rightarrow> int \<Rightarrow> string \<Rightarrow> ZipInfo \<Rightarrow> (filesys, int) pyop" where
  "extract_entry base so_far name info =
     (let relative = posix_parts name; destination = base @ relative in
      if relative = [] then raise ValueError
      else bind (safe_archive_parent base (butlast relative)) (\<lambda>_.
      bind (reads (\<lambda>fs. path_exists fs destination \<or> is_symlink fs destination)) (\<lambda>present.
      if present then raise SourceStoreError
      else bind (atomic_write_stream destination info (MAX_ARCHIVE_EXPANDED_BYTES - so_far)) (\<lambda>copied. ret (so_far + copied)))))"

fun extract_entries :: "path \<Rightarrow> int \<Rightarrow> (string, ZipInfo) dict \<Rightarrow> (filesys, unit) pyop" where
  "extract_entries base so_far [] = ret ()"
| "extract_entries base so_far ((name, info) # entries) =
     bind (extract_entry base so_far name info) (\<lambda>so_far. extract_entries base so_far entries)"

definition extract_archive :: "SourceLib \<Rightarrow> string \<Rightarrow> path \<Rightarrow> (filesys, string list) pyop" where
  "extract_archive lib content base =
     bind (lift (archive_entries lib content False)) (\<lambda>entries.
     bind (extract_entries base 0 entries) (\<lambda>_.
     ret (map fst entries)))"

section \<open>What extraction does to a workspace\<close>

lemma split_on_clean: "part \<in> set (split_on c v) \<Longrightarrow> c \<notin> set part"
  by (induction c v arbitrary: part rule: split_on.induct) (auto split: list.splits if_splits)

lemma posix_parts_clean: "part \<in> set (posix_parts v) \<Longrightarrow> part \<noteq> [] \<and> part \<noteq> ''.'' \<and> CHR ''/'' \<notin> set part"
  by (auto simp: posix_parts_def dest: split_on_clean)

lemma split_on_join:
  "ps \<noteq> [] \<Longrightarrow> \<forall>p\<in>set ps. CHR ''/'' \<notin> set p \<Longrightarrow> split_on (CHR ''/'') (join_path ps) = ps"
proof (induction ps rule: join_path.induct)
  case (2 p)
  have "CHR ''/'' \<notin> set p \<Longrightarrow> split_on (CHR ''/'') p = [p]" for p by (induction p) auto
  then show ?case using 2 by simp
next
  case (3 p q ps)
  have s: "CHR ''/'' \<notin> set p \<Longrightarrow> split_on (CHR ''/'') (p @ ''/'' @ r) = p # split_on (CHR ''/'') r" for p r
    by (induction p) auto
  show ?case using 3 s [of p "join_path (q # ps)"] by simp
qed simp

lemma posix_parts_join:
  "ps \<noteq> [] \<Longrightarrow> \<forall>p\<in>set ps. CHR ''/'' \<notin> set p \<and> p \<noteq> [] \<and> p \<noteq> ''.'' \<Longrightarrow> posix_parts (join_path ps) = ps"
  by (simp add: posix_parts_def split_on_join)

lemma archive_path_safe:
  assumes "archive_path v = Inr parts"
  shows "''..'' \<notin> set parts" "posix_parts (path_str parts) = parts"
proof -
  let ?n = "if ends_with_slash v then butlast v else v"
  have p: "parts = posix_parts ?n" "path_str parts = ?n" "\<not> list_ex (\<lambda>part. part \<in> {[], ''.'', ''..''} \<or> CHR '':'' \<in> set part) parts"
    using assms by (auto simp: archive_path_def Let_def split: if_splits)
  show "''..'' \<notin> set parts" using p(3) by (auto simp: list_ex_iff)
  show "posix_parts (path_str parts) = parts" using p(1,2) by simp
qed

text \<open>The members that pass the scan: safe paths only.\<close>

definition safe_names :: "(string, ZipInfo) dict \<Rightarrow> bool" where
  "safe_names entries \<longleftrightarrow> list_all (\<lambda>name. ''..'' \<notin> set (posix_parts name)) (dkeys entries)"

lemma scan_info_entries:
  assumes "scan_info lib info sn = Inr sn'" "safe_names (sn_entries sn)"
  shows "safe_names (sn_entries sn')"
proof -
  obtain parts where parts: "archive_path (zi_filename info) = Inr parts" using assms(1) by (auto simp: scan_info_def)
  have "sn_entries sn' = sn_entries sn \<or> sn_entries sn' = dset (path_str parts) info (sn_entries sn)"
    using assms(1) by (auto simp: scan_info_def parts Let_def split: if_splits)
  moreover have "''..'' \<notin> set (posix_parts (path_str parts))" using archive_path_safe [OF parts] by simp
  ultimately show ?thesis using assms(2) unfolding safe_names_def by (auto simp only: dkeys_dset list_all_append list.pred_inject split: if_splits)
qed

lemma scan_infos_entries: "scan_infos lib infos sn = Inr sn' \<Longrightarrow> safe_names (sn_entries sn) \<Longrightarrow> safe_names (sn_entries sn')"
proof (induction infos arbitrary: sn)
  case (Cons info infos)
  then obtain sn1 where "scan_info lib info sn = Inr sn1" "scan_infos lib infos sn1 = Inr sn'" by auto
  with Cons show ?case using scan_info_entries by blast
qed simp

lemma archive_entries_safe:
  assumes "archive_entries lib content verify = Inr entries"
  shows "safe_names entries"
proof -
  obtain infos sn where "scan_infos lib infos \<lparr>sn_entries = [], sn_names = [], sn_total = 0\<rparr> = Inr sn" "entries = sn_entries sn"
    using assms by (auto simp: archive_entries_def split: sum.splits)
  with scan_infos_entries [of lib infos _ sn] show ?thesis by (simp add: safe_names_def)
qed

text \<open>New nodes below \<open>base\<close>, and nothing else: no node is changed or removed, and no link is made.\<close>

definition confined :: "path \<Rightarrow> filesys \<Rightarrow> filesys \<Rightarrow> bool" where
  "confined base fs fs' \<longleftrightarrow> (\<forall>p. fs' p \<noteq> fs p \<longrightarrow> fs p = None \<and> (\<exists>q. q \<noteq> [] \<and> ''..'' \<notin> set q \<and> p = base @ q) \<and>
     (fs' p = Some DirNode \<or> (\<exists>c. fs' p = Some (FileNode c))))"

lemma confined_refl [simp]: "confined base fs fs"
  by (simp add: confined_def)

lemma confined_trans: "confined base fs fs1 \<Longrightarrow> confined base fs1 fs2 \<Longrightarrow> confined base fs fs2"
  unfolding confined_def by metis

lemma confined_update:
  "fs (base @ q @ [x]) = None \<Longrightarrow> ''..'' \<notin> set q \<Longrightarrow> x \<noteq> ''..'' \<Longrightarrow> v = DirNode \<or> (\<exists>c. v = FileNode c) \<Longrightarrow>
     confined base fs (fs(base @ q @ [x] \<mapsto> v))"
  by (auto simp: confined_def)

lemma confined_keeps: "confined base fs fs' \<Longrightarrow> fs p = Some v \<Longrightarrow> fs' p = Some v"
  unfolding confined_def by (metis option.distinct(1))

lemma confined_plain: "confined base fs fs' \<Longrightarrow> plain fs p \<Longrightarrow> plain fs' p"
  using confined_keeps unfolding plain_def by blast

lemma plain_create: "plain fs p \<Longrightarrow> fs q = None \<Longrightarrow> plain (fs(q \<mapsto> v)) p"
  unfolding plain_def by (metis fun_upd_other option.distinct(1))

lemma plain_present:
  assumes "plain fs p" "x \<noteq> ''..''"
  shows "path_exists fs (p @ [x]) \<or> is_symlink fs (p @ [x]) \<longleftrightarrow> fs (p @ [x]) \<noteq> None"
    and "is_dir fs (p @ [x]) \<and> \<not> is_symlink fs (p @ [x]) \<longleftrightarrow> fs (p @ [x]) = Some DirNode"
  using assms by (auto simp: path_exists_def resolve_plain_snoc is_dir_def split: option.splits fsnode.splits)

lemma mkdir_plain:
  assumes "plain fs p" "x \<noteq> ''..''" "\<not> is_symlink fs (p @ [x])" "\<not> (path_exists fs (p @ [x]) \<and> \<not> is_dir fs (p @ [x]))"
  shows "mkdir (p @ [x]) fs = (Inr (), if fs (p @ [x]) = None then fs(p @ [x] \<mapsto> DirNode) else fs)"
    and "fs (p @ [x]) = None \<or> fs (p @ [x]) = Some DirNode"
proof -
  show d: "fs (p @ [x]) = None \<or> fs (p @ [x]) = Some DirNode" using plain_present [OF assms(1,2)] assms(3,4) by blast
  have d': "is_dir fs (p @ [x]) \<longleftrightarrow> fs (p @ [x]) = Some DirNode"
    using d assms(1,2) by (auto simp: is_dir_def resolve_plain_snoc)
  show "mkdir (p @ [x]) fs = (Inr (), if fs (p @ [x]) = None then fs(p @ [x] \<mapsto> DirNode) else fs)"
    using d d' assms(1) by (auto simp: mkdir_def)
qed

lemma safe_parent_confined:
  "safe_archive_parent (base @ q) parts fs = (x, fs') \<Longrightarrow> plain fs (base @ q) \<Longrightarrow> ''..'' \<notin> set (q @ parts) \<Longrightarrow>
     confined base fs fs' \<and> (x = Inr () \<longrightarrow> plain fs' (base @ q @ parts))"
proof (induction parts arbitrary: q fs)
  case (Cons p parts)
  show ?case
  proof (cases "is_symlink fs (base @ q @ [p]) \<or> path_exists fs (base @ q @ [p]) \<and> \<not> is_dir fs (base @ q @ [p])")
    case True
    with Cons.prems show ?thesis by (auto simp: bind_def Let_def)
  next
    case False
    let ?fs1 = "if fs (base @ q @ [p]) = None then fs(base @ q @ [p] \<mapsto> DirNode) else fs"
    have m: "mkdir (base @ q @ [p]) fs = (Inr (), ?fs1)" "fs (base @ q @ [p]) = None \<or> fs (base @ q @ [p]) = Some DirNode"
      using mkdir_plain [OF Cons.prems(2), of p] False Cons.prems(3) by auto
    have c: "confined base fs ?fs1" using confined_update [of fs base q p DirNode] Cons.prems(3) by auto
    have "plain ?fs1 (base @ q)" by (rule confined_plain [OF c Cons.prems(2)])
    then have "plain ?fs1 (base @ q @ [p])" using m(2) Cons.prems(3) plain_snoc [of ?fs1 "base @ q" p] by auto
    moreover have "safe_archive_parent (base @ q @ [p]) parts ?fs1 = (x, fs')"
      using Cons.prems(1) m(1) False by (simp add: bind_def Let_def)
    ultimately show ?thesis
      using Cons.IH [of "q @ [p]" ?fs1] Cons.prems(3) confined_trans [OF c] by simp
  qed
qed simp

lemma read_member_total:
  "read_member limit n cs broken = Inr m \<Longrightarrow> m = n + int (length (concat cs)) \<and> (n \<le> limit \<longrightarrow> m \<le> limit)"
  by (induction limit n cs broken rule: read_member.induct) (auto split: option.splits)

lemma write_stream_plain:
  assumes "plain fs p" "fs (p @ [x]) = None" "atomic_write_stream (p @ [x]) info remaining fs = (r, fs')"
  shows "(fs' = fs \<and> isl r) \<or>
    (r = Inr (int (length (concat (zi_chunks info)))) \<and> fs' = fs(p @ [x] \<mapsto> FileNode (concat (zi_chunks info))) \<and>
     (0 \<le> remaining \<longrightarrow> int (length (concat (zi_chunks info))) \<le> remaining))"
proof (cases "read_member remaining 0 (zi_chunks info) (zi_broken info)")
  case (Inl e)
  then have "atomic_write_stream (p @ [x]) info remaining fs = (Inl e, fs)" by (simp add: atomic_write_stream_def bind_def)
  with assms(3) show ?thesis by auto
next
  case (Inr n)
  have "replace_file (p @ [x]) c fs = (Inr (), fs(p @ [x] \<mapsto> FileNode c))" for c
    using assms(1,2) by (simp add: replace_file_def)
  with assms(3) Inr read_member_total [OF Inr] show ?thesis by (auto simp: atomic_write_stream_def bind_def)
qed

definition unpacked :: "path \<Rightarrow> (string, ZipInfo) dict \<Rightarrow> filesys \<Rightarrow> bool" where
  "unpacked base entries fs \<longleftrightarrow> (\<forall>(name, info)\<in>set entries. posix_parts name \<noteq> [] \<and>
     fs (base @ posix_parts name) = Some (FileNode (concat (zi_chunks info))))"

definition unpacked_bytes :: "(string, ZipInfo) dict \<Rightarrow> int" where
  "unpacked_bytes entries = (\<Sum>(name, info)\<leftarrow>entries. int (length (concat (zi_chunks info))))"

lemma extract_entry_confined:
  assumes "extract_entry base n name info fs = (x, fs')" "plain fs base" "''..'' \<notin> set (posix_parts name)" "n \<le> MAX_ARCHIVE_EXPANDED_BYTES"
  shows "confined base fs fs'"
    and "x = Inr m \<Longrightarrow> posix_parts name \<noteq> [] \<and> m = n + int (length (concat (zi_chunks info))) \<and> m \<le> MAX_ARCHIVE_EXPANDED_BYTES \<and>
      fs' (base @ posix_parts name) = Some (FileNode (concat (zi_chunks info)))"
proof -
  let ?parts = "posix_parts name" and ?file = "FileNode (concat (zi_chunks info))" and ?size = "int (length (concat (zi_chunks info)))"
  have "confined base fs fs' \<and> (\<forall>m. x = Inr m \<longrightarrow> ?parts \<noteq> [] \<and> m = n + ?size \<and> m \<le> MAX_ARCHIVE_EXPANDED_BYTES \<and>
      fs' (base @ ?parts) = Some ?file)"
  proof (cases "?parts = []")
    case True
    with assms(1) show ?thesis by (auto simp: extract_entry_def)
  next
    case False
    then have d: "base @ ?parts = (base @ butlast ?parts) @ [last ?parts]" by simp
    have dots: "''..'' \<notin> set (butlast ?parts)" "last ?parts \<noteq> ''..''" using assms(3) False last_in_set in_set_butlastD by metis+
    obtain y fs1 where y: "safe_archive_parent base (butlast ?parts) fs = (y, fs1)" by force
    have c1: "confined base fs fs1" and p1: "y = Inr () \<Longrightarrow> plain fs1 (base @ butlast ?parts)"
      using safe_parent_confined [of base "[]" _ fs y fs1] y assms(2) dots(1) by auto
    have e: "extract_entry base n name info fs = (case y of Inl e \<Rightarrow> (Inl e, fs1) | Inr _ \<Rightarrow>
        if path_exists fs1 (base @ ?parts) \<or> is_symlink fs1 (base @ ?parts) then (Inl SourceStoreError, fs1)
        else bind (atomic_write_stream (base @ ?parts) info (MAX_ARCHIVE_EXPANDED_BYTES - n)) (\<lambda>copied. ret (n + copied)) fs1)"
      using False y by (simp add: extract_entry_def Let_def bind_def split: sum.split)
    show ?thesis
    proof (cases "isl y \<or> path_exists fs1 (base @ ?parts) \<or> is_symlink fs1 (base @ ?parts)")
      case True
      then show ?thesis using assms(1) c1 unfolding e by (auto split: sum.splits if_splits)
    next
      case ok: False
      then have p: "plain fs1 (base @ butlast ?parts)" using p1 by (cases y) auto
      have absent: "fs1 (base @ ?parts) = None" using ok plain_present(1) [OF p dots(2)] d by auto
      obtain z fs2 where z: "atomic_write_stream (base @ ?parts) info (MAX_ARCHIVE_EXPANDED_BYTES - n) fs1 = (z, fs2)" by force
      have w: "(fs2 = fs1 \<and> isl z) \<or> (z = Inr ?size \<and> fs2 = fs1(base @ ?parts \<mapsto> ?file) \<and> ?size \<le> MAX_ARCHIVE_EXPANDED_BYTES - n)"
        using write_stream_plain [OF p, of "last ?parts" info] z absent assms(4) unfolding d [symmetric] by fastforce
      have "confined base fs1 (fs1(base @ ?parts \<mapsto> ?file))"
        using confined_update [of fs1 base "butlast ?parts" "last ?parts" ?file] dots absent False by simp
      with w have c2: "confined base fs1 fs2" by (elim disjE conjE) simp_all
      have "(x, fs') = (case z of Inl e \<Rightarrow> (Inl e, fs2) | Inr copied \<Rightarrow> (Inr (n + copied), fs2))"
        using assms(1) ok z unfolding e by (cases y) (auto simp: bind_def split: sum.splits)
      with w False confined_trans [OF c1 c2] show ?thesis by (auto split: sum.splits)
    qed
  qed
  then show "confined base fs fs'" and "x = Inr m \<Longrightarrow> ?parts \<noteq> [] \<and> m = n + ?size \<and> m \<le> MAX_ARCHIVE_EXPANDED_BYTES \<and>
      fs' (base @ ?parts) = Some ?file" by auto
qed

lemma extract_entries_confined:
  "extract_entries base n entries fs = (x, fs') \<Longrightarrow> plain fs base \<Longrightarrow> safe_names entries \<Longrightarrow> n \<le> MAX_ARCHIVE_EXPANDED_BYTES \<Longrightarrow>
     confined base fs fs' \<and> (x = Inr () \<longrightarrow> unpacked base entries fs' \<and> n + unpacked_bytes entries \<le> MAX_ARCHIVE_EXPANDED_BYTES)"
proof (induction entries arbitrary: n fs)
  case Nil
  then show ?case by (simp add: unpacked_def unpacked_bytes_def)
next
  case (Cons entry entries)
  obtain name info where e: "entry = (name, info)" by (cases entry)
  obtain y fs1 where y: "extract_entry base n name info fs = (y, fs1)" by force
  have safe: "''..'' \<notin> set (posix_parts name)" "safe_names entries" using Cons.prems(3) by (simp_all add: safe_names_def e)
  note c1 = extract_entry_confined [OF y Cons.prems(2) safe(1) Cons.prems(4)]
  show ?case
  proof (cases y)
    case (Inl err)
    with Cons.prems(1) y c1(1) show ?thesis by (auto simp: e bind_def)
  next
    case (Inr m)
    have rest: "extract_entries base m entries fs1 = (x, fs')" using Cons.prems(1) y Inr by (simp add: e bind_def)
    have ih: "confined base fs1 fs'" "x = Inr () \<Longrightarrow> unpacked base entries fs' \<and> m + unpacked_bytes entries \<le> MAX_ARCHIVE_EXPANDED_BYTES"
      using Cons.IH [OF rest confined_plain [OF c1(1) Cons.prems(2)] safe(2)] c1(2) [OF Inr] by auto
    have "fs' (base @ posix_parts name) = Some (FileNode (concat (zi_chunks info)))" by (rule confined_keeps [OF ih(1)]) (simp add: c1(2) [OF Inr])
    then show ?thesis
      using ih c1(2) [OF Inr] confined_trans [OF c1(1) ih(1)] by (auto simp: e unpacked_def unpacked_bytes_def)
  qed
qed

end
