(* ===== verification/Source_Store.thy ===== *)
theory Source_Store
  imports Source_Archive
begin

text \<open>
  The source store of \<^verbatim>\<open>services/source_store.py\<close>: content-addressed sources of a project, their references, materializing them in
  a workspace, projects on the host, and imports from git.
\<close>

section \<open>References\<close>

record StoredSource =
  sr_source_ref :: string
  sr_content_digest :: string
  sr_size_bytes :: int

record HostSource =
  hs_project_directory :: path
  hs_python_executable :: path

definition hex_lower :: "char \<Rightarrow> bool" where
  "hex_lower c \<longleftrightarrow> c \<in> set ''0123456789abcdef''"

definition hex_val :: "char \<Rightarrow> nat" where
  "hex_val c = (let n = of_char c :: nat in if n < 58 then n - 48 else n - 87)"

text \<open>\<open>UUID(text)\<close> for the text of the pattern: the number its 32 digits write.\<close>

definition uuid_of :: "string \<Rightarrow> uuid" where
  "uuid_of v = foldl (\<lambda>n c. 16 * n + hex_val c) 0 (filter (\<lambda>c. c \<noteq> CHR ''-'') v)"

definition uuid_pattern :: "string \<Rightarrow> bool" where
  "uuid_pattern v \<longleftrightarrow> length v = 36 \<and> list_all (\<lambda>i. if i \<in> {8, 13, 18, 23} then v ! i = CHR ''-'' else hex_lower (v ! i)) [0..<36]"

definition digest_pattern :: "string \<Rightarrow> bool" where
  "digest_pattern v \<longleftrightarrow> length v = 64 \<and> list_all hex_lower v"

text \<open>The patterns of the two kinds of reference, \<open>prefix:version:project:sha256:digest\<close>.\<close>

definition match_reference :: "string \<Rightarrow> string list \<Rightarrow> string \<Rightarrow> (string \<times> string \<times> string) option" where
  "match_reference kind versions v =
     (let rest = drop (length kind + 1) v; version = take 2 rest; project = take 36 (drop 3 rest); digest = drop 47 rest in
      if take (length kind + 1) v = kind @ '':'' \<and> version \<in> set versions \<and> take 1 (drop 2 rest) = '':'' \<and>
         uuid_pattern project \<and> take 8 (drop 39 rest) = '':sha256:'' \<and> digest_pattern digest
      then Some (version, project, digest) else None)"

definition source_reference :: "uuid \<Rightarrow> string \<Rightarrow> string \<Rightarrow> string" where
  "source_reference project_id digest version = ''local-source:'' @ version @ '':'' @ uuid_str project_id @ '':sha256:'' @ digest"

definition host_reference :: "uuid \<Rightarrow> string \<Rightarrow> string" where
  "host_reference project_id digest = ''host-source:v1:'' @ uuid_str project_id @ '':sha256:'' @ digest"

definition parse_source_ref :: "string \<Rightarrow> (string \<times> uuid \<times> string) res" where
  "parse_source_ref v = (case match_reference ''local-source'' [''v1'', ''v2''] v of
     None \<Rightarrow> Inl SourceStoreError
   | Some (version, text, digest) \<Rightarrow>
       rbind (guard (uuid_str (uuid_of text) \<noteq> text) SourceStoreError) (\<lambda>_. Inr (version, uuid_of text, digest)))"

definition parse_host_reference :: "string \<Rightarrow> (uuid \<times> string) res" where
  "parse_host_reference v = (case match_reference ''host-source'' [''v1''] v of
     None \<Rightarrow> Inl SourceStoreError
   | Some (_, text, digest) \<Rightarrow>
       rbind (guard (uuid_str (uuid_of text) \<noteq> text) SourceStoreError) (\<lambda>_. Inr (uuid_of text, digest)))"

definition entrypoint :: "string \<Rightarrow> path res" where
  "entrypoint v =
     (if v = [] \<or> v \<noteq> strip v \<or> CHR 0x5C \<in> set v \<or> has_control v then Inl SourceStoreError
      else (let parts = posix_parts v in
        if is_absolute v \<or> ''..'' \<in> set parts \<or> ''.'' \<in> set parts \<or> path_name parts = [] \<or> path_str parts \<noteq> v \<or>
           ends_with_slash v \<or> list_ex (\<lambda>part. CHR '':'' \<in> set part) parts
        then Inl SourceStoreError
        else Inr parts))"

section \<open>The store\<close>

record SourceStore =
  ss_root :: path
  ss_maximum_bytes :: int
  ss_host_enabled :: bool
  ss_host_roots :: "path list"

text \<open>\<open>LocalSourceStore.__init__\<close>, with the paths it is given as absolute ones.\<close>

definition make_source_store :: "path \<Rightarrow> int \<Rightarrow> bool \<Rightarrow> path list \<Rightarrow> (filesys, SourceStore) pyop" where
  "make_source_store given maximum_bytes enabled host_roots =
     bind (lift (guard (maximum_bytes \<le> 0 \<or> maximum_bytes > MAX_SOURCE_BYTES) ValueError)) (\<lambda>_.
     bind (resolve_lenient given) (\<lambda>base.
     bind (lift (guard (enabled \<and> host_roots = []) ValueError)) (\<lambda>_.
     bind (reads (\<lambda>fs. if enabled then those (map (resolve_strict fs) host_roots) else Some [])) (\<lambda>resolved.
     case resolved of
       None \<Rightarrow> raise ValueError
     | Some roots \<Rightarrow>
         bind (reads (\<lambda>fs. list_ex (\<lambda>r. \<not> is_dir fs r \<or> is_symlink fs r) roots)) (\<lambda>bad.
         bind (lift (guard bad ValueError)) (\<lambda>_.
         ret \<lparr>ss_root = base, ss_maximum_bytes = maximum_bytes, ss_host_enabled = enabled, ss_host_roots = roots\<rparr>))))))"

definition source_path :: "SourceStore \<Rightarrow> uuid \<Rightarrow> string \<Rightarrow> path" where
  "source_path st project digest = ss_root st @ [uuid_str project, take 2 digest, digest]"

definition host_source_path :: "SourceStore \<Rightarrow> uuid \<Rightarrow> string \<Rightarrow> path" where
  "host_source_path st project digest = ss_root st @ [uuid_str project, ''host'', take 2 digest, digest @ ''.json'']"

definition put_bytes :: "SourceLib \<Rightarrow> SourceStore \<Rightarrow> uuid \<Rightarrow> string \<Rightarrow> string \<Rightarrow> (filesys, StoredSource) pyop" where
  "put_bytes lib st project content version =
     (let digest = sb_sha256 lib content in
      bind (atomic_write (source_path st project digest) content) (\<lambda>_.
      ret \<lparr>sr_source_ref = source_reference project digest version, sr_content_digest = digest, sr_size_bytes = int (length content)\<rparr>))"

text \<open>A string of this model has no surrogates, so that encoding it never fails.\<close>

definition put_source :: "SourceLib \<Rightarrow> SourceStore \<Rightarrow> uuid \<Rightarrow> string \<Rightarrow> (filesys, StoredSource) pyop" where
  "put_source lib st project content =
     (let encoded = utf8_encode content in
      bind (lift (guard (int (length encoded) > ss_maximum_bytes st) SourceStoreError)) (\<lambda>_.
      put_bytes lib st project encoded ''v1''))"

definition put_archive :: "SourceLib \<Rightarrow> SourceStore \<Rightarrow> uuid \<Rightarrow> string \<Rightarrow> (filesys, StoredSource) pyop" where
  "put_archive lib st project content =
     bind (lift (guard (content = [] \<or> int (length content) > MAX_ARCHIVE_BYTES) SourceStoreError)) (\<lambda>_.
     bind (lift (archive_entries lib content True)) (\<lambda>_.
     put_bytes lib st project content ''v2''))"

definition verified_content :: "SourceLib \<Rightarrow> SourceStore \<Rightarrow> uuid \<Rightarrow> string \<Rightarrow> int \<Rightarrow> (filesys, string) pyop" where
  "verified_content lib st project digest limit fs =
     (let source = source_path st project digest in
      if is_symlink fs source then (Inl SourceStoreError, fs)
      else case resolve_strict fs source of
        None \<Rightarrow> (Inl SourceStoreError, fs)
      | Some resolved \<Rightarrow>
          if \<not> is_relative_to resolved (ss_root st) \<or> \<not> is_file fs resolved then (Inl SourceStoreError, fs)
          else case read_file fs resolved of
            Inl _ \<Rightarrow> (Inl SourceStoreError, fs)
          | Inr stored \<Rightarrow>
              (let content = take (nat (limit + 1)) stored in
               if int (length content) > limit then (Inl SourceStoreError, fs)
               else if sb_sha256 lib content \<noteq> digest then (Inl SourceStoreError, fs)
               else (Inr content, fs)))"

definition source_limit :: "SourceStore \<Rightarrow> string \<Rightarrow> int" where
  "source_limit st version = (if version = ''v1'' then ss_maximum_bytes st else MAX_ARCHIVE_BYTES)"

text \<open>The two ends of \<open>materialize\<close>: an archive is unpacked, a single file written.\<close>

definition place_archive :: "SourceLib \<Rightarrow> path \<Rightarrow> path \<Rightarrow> string \<Rightarrow> (filesys, path) pyop" where
  "place_archive lib base relative content =
     bind (extract_archive lib content base) (\<lambda>files.
     bind (lift (guard (path_str relative \<notin> set files) SourceStoreError)) (\<lambda>_.
     ret (base @ relative)))"

definition place_file :: "path \<Rightarrow> path \<Rightarrow> string \<Rightarrow> (filesys, path) pyop" where
  "place_file base relative content =
     (let destination = base @ relative in
      bind (resolve_lenient (butlast destination)) (\<lambda>parent.
      bind (lift (guard (\<not> is_relative_to parent base) SourceStoreError)) (\<lambda>_.
      bind (mkdirs (butlast destination)) (\<lambda>_.
      bind (reads (\<lambda>fs. is_symlink fs destination)) (\<lambda>link.
      bind (lift (guard link SourceStoreError)) (\<lambda>_.
      (let target = parent @ [last destination] in
       bind (atomic_write target content) (\<lambda>_.
       ret target))))))))"

definition materialize_source ::
  "SourceLib \<Rightarrow> SourceStore \<Rightarrow> uuid \<Rightarrow> string \<Rightarrow> string \<Rightarrow> string \<Rightarrow> path \<Rightarrow> (filesys, path) pyop" where
  "materialize_source lib st project source_ref digest entry workspace =
     bind (lift (parse_source_ref source_ref)) (\<lambda>(version, referenced_project, referenced_digest).
     bind (lift (guard (referenced_project \<noteq> project) SourceStoreError)) (\<lambda>_.
     bind (lift (guard (\<not> digest_pattern digest) SourceStoreError)) (\<lambda>_.
     bind (lift (guard (digest \<noteq> referenced_digest) SourceStoreError)) (\<lambda>_.
     bind (lift (entrypoint entry)) (\<lambda>relative.
     bind (verified_content lib st project digest (source_limit st version)) (\<lambda>content.
     bind (resolve_lenient workspace) (\<lambda>base.
     bind (mkdirs base) (\<lambda>_.
     if version = ''v2'' then place_archive lib base relative content else place_file base relative content))))))))"

section \<open>Projects on the host\<close>

text \<open>\<open>json.dumps\<close> of the metadata and \<open>json.loads\<close>, whose \<open>ValueError\<close> stands for its two ways to fail.\<close>

record HostLib =
  hl_dumps :: "pyval \<Rightarrow> string"
  hl_loads :: "string \<Rightarrow> pyval res"

definition bad_host_text :: "string \<Rightarrow> bool" where
  "bad_host_text v \<longleftrightarrow> v = [] \<or> v \<noteq> strip v \<or> has_control v"

definition host_candidate :: "string \<Rightarrow> filesys \<Rightarrow> path res" where
  "host_candidate v fs =
     rbind (guard (bad_host_text v) SourceStoreError) (\<lambda>_.
     (let candidate = posix_parts v in
      rbind (guard (\<not> is_absolute v \<or> is_symlink fs candidate) SourceStoreError) (\<lambda>_.
      case resolve_strict fs candidate of None \<Rightarrow> Inl SourceStoreError | Some resolved \<Rightarrow> Inr resolved)))"

definition host_directory :: "SourceStore \<Rightarrow> string \<Rightarrow> filesys \<Rightarrow> path res" where
  "host_directory st v fs =
     rbind (guard (\<not> ss_host_enabled st) SourceStoreError) (\<lambda>_.
     rbind (host_candidate v fs) (\<lambda>resolved.
     rbind (guard (\<not> is_dir fs resolved \<or> \<not> list_ex (is_relative_to resolved) (ss_host_roots st)) SourceStoreError) (\<lambda>_.
     Inr resolved)))"

definition host_interpreter :: "string \<Rightarrow> path \<Rightarrow> filesys \<Rightarrow> path res" where
  "host_interpreter v directory fs =
     rbind (host_candidate v fs) (\<lambda>resolved.
     rbind (guard (\<not> is_file fs resolved \<or> \<not> is_relative_to resolved directory) SourceStoreError) (\<lambda>_.
     Inr resolved))"

definition abs_path_str :: "path \<Rightarrow> string" where
  "abs_path_str p = ''/'' @ join_path p"

definition host_metadata :: "path \<Rightarrow> path \<Rightarrow> pyval" where
  "host_metadata directory interpreter =
     PDict [(PStr ''project_directory'', PStr (abs_path_str directory)), (PStr ''python_executable'', PStr (abs_path_str interpreter))]"

definition register_host ::
  "SourceLib \<Rightarrow> HostLib \<Rightarrow> SourceStore \<Rightarrow> uuid \<Rightarrow> string \<Rightarrow> string \<Rightarrow> (filesys, StoredSource) pyop" where
  "register_host lib hl st project project_directory python_executable fs =
     bind (lift (host_directory st project_directory fs)) (\<lambda>directory.
     bind (lift (host_interpreter python_executable directory fs)) (\<lambda>interpreter.
     (let content = utf8_encode (hl_dumps hl (host_metadata directory interpreter)); digest = sb_sha256 lib content in
      bind (atomic_write (host_source_path st project digest) content) (\<lambda>_.
      ret \<lparr>sr_source_ref = host_reference project digest, sr_content_digest = digest, sr_size_bytes = int (length content)\<rparr>)))) fs"

definition metadata_fields :: "pyval \<Rightarrow> (string \<times> string) option" where
  "metadata_fields v = (case v of
     PDict kvs \<Rightarrow>
       (case (map_of kvs (PStr ''project_directory''), map_of kvs (PStr ''python_executable'')) of
          (Some (PStr directory), Some (PStr interpreter)) \<Rightarrow>
            if set (map fst kvs) = {PStr ''project_directory'', PStr ''python_executable''} then Some (directory, interpreter) else None
        | _ \<Rightarrow> None)
   | _ \<Rightarrow> None)"

definition verified_host_metadata ::
  "SourceLib \<Rightarrow> HostLib \<Rightarrow> SourceStore \<Rightarrow> uuid \<Rightarrow> string \<Rightarrow> filesys \<Rightarrow> (string \<times> string) res" where
  "verified_host_metadata lib hl st project digest fs =
     rbind (guard (\<not> ss_host_enabled st) SourceStoreError) (\<lambda>_.
     (let source = host_source_path st project digest in
      rbind (guard (is_symlink fs source) SourceStoreError) (\<lambda>_.
      case read_file fs source of
        Inl _ \<Rightarrow> Inl SourceStoreError
      | Inr stored \<Rightarrow>
          (let content = take 4097 stored in
           rbind (guard (length content > 4096 \<or> sb_sha256 lib content \<noteq> digest) SourceStoreError) (\<lambda>_.
           case hl_loads hl content of
             Inl e \<Rightarrow> Inl (if e = ValueError then SourceStoreError else e)
           | Inr metadata \<Rightarrow> (case metadata_fields metadata of None \<Rightarrow> Inl SourceStoreError | Some found \<Rightarrow> Inr found))))))"

definition resolve_host_reference ::
  "SourceLib \<Rightarrow> HostLib \<Rightarrow> SourceStore \<Rightarrow> uuid \<Rightarrow> string \<Rightarrow> string \<Rightarrow> string \<Rightarrow> filesys \<Rightarrow> HostSource res" where
  "resolve_host_reference lib hl st project source_ref digest entry fs =
     rbind (parse_host_reference source_ref) (\<lambda>(referenced_project, referenced_digest).
     rbind (guard (referenced_project \<noteq> project \<or> referenced_digest \<noteq> digest) SourceStoreError) (\<lambda>_.
     rbind (verified_host_metadata lib hl st project digest fs) (\<lambda>(project_directory, python_executable).
     rbind (host_directory st project_directory fs) (\<lambda>directory.
     rbind (host_interpreter python_executable directory fs) (\<lambda>interpreter.
     rbind (entrypoint entry) (\<lambda>relative.
     (let candidate = directory @ relative in
      case resolve_strict fs candidate of
        None \<Rightarrow> Inl SourceStoreError
      | Some resolved \<Rightarrow>
          rbind (guard (is_symlink fs candidate \<or> \<not> is_file fs resolved \<or> \<not> is_relative_to resolved directory) SourceStoreError) (\<lambda>_.
          Inr \<lparr>hs_project_directory = directory, hs_python_executable = interpreter\<rparr>))))))))"

definition validate_source ::
  "SourceLib \<Rightarrow> HostLib \<Rightarrow> SourceStore \<Rightarrow> uuid \<Rightarrow> string \<Rightarrow> string \<Rightarrow> string \<Rightarrow> (filesys, unit) pyop" where
  "validate_source lib hl st project source_ref digest entry =
     (if take 12 source_ref = ''host-source:''
      then bind (reads (resolve_host_reference lib hl st project source_ref digest entry)) (\<lambda>r. bind (lift r) (\<lambda>_. ret ()))
      else
        bind (lift (parse_source_ref source_ref)) (\<lambda>(version, referenced_project, referenced_digest).
        bind (lift (guard (referenced_project \<noteq> project \<or> referenced_digest \<noteq> digest) SourceStoreError)) (\<lambda>_.
        bind (lift (entrypoint entry)) (\<lambda>relative.
        bind (verified_content lib st project digest (source_limit st version)) (\<lambda>content.
        if version = ''v2'' then
          bind (lift (archive_entries lib content False)) (\<lambda>entries.
          lift (guard (path_str relative \<notin> set (dkeys entries)) SourceStoreError))
        else ret ())))))"

section \<open>Imports from git\<close>

definition has_infix :: "string \<Rightarrow> string \<Rightarrow> bool" where
  "has_infix w v \<longleftrightarrow> list_ex (\<lambda>n. take (length w) (drop n v) = w) [0..<Suc (length v)]"

definition ends_with :: "string \<Rightarrow> string \<Rightarrow> bool" where
  "ends_with w v \<longleftrightarrow> length w \<le> length v \<and> drop (length v - length w) v = w"

definition git_ref :: "string \<Rightarrow> string res" where
  "git_ref v =
     (if v = [] then Inr ''HEAD''
      else if v \<noteq> strip v \<or> length v > 255 \<or> hd v \<in> {CHR ''-'', CHR ''.''} \<or>
         ends_with ''/'' v \<or> ends_with ''.'' v \<or> ends_with ''.lock'' v \<or> has_infix ''..'' v \<or> has_infix [CHR 0x40, CHR 0x7B] v \<or>
         has_infix ''//'' v \<or> list_ex (\<lambda>c. py_space c \<or> c \<in> set ''~^:?*['' \<or> c = CHR 0x5C) v \<or>
         list_ex (\<lambda>part. part \<in> {[], ''.'', ''..''} \<or> ends_with ''.lock'' part) (split_on (CHR ''/'') v)
      then Inl SourceStoreError
      else Inr v)"

text \<open>
  \<open>urlsplit\<close>, the fragment it finds, and for the addresses \<open>getaddrinfo\<close> returns whether each is global; \<open>gl_archive\<close> is the work of
  the git process: the archive of a reference of a repository, or an error of it.
\<close>

record GitLib =
  gl_urlsplit :: "string \<Rightarrow> ParsedUrl res"
  gl_fragment :: "string \<Rightarrow> string"
  gl_global :: "string \<Rightarrow> bool list res"
  gl_archive :: "string \<Rightarrow> string \<Rightarrow> string res"

definition ALLOWED_GIT_HOSTS :: "string list" where
  "ALLOWED_GIT_HOSTS = [''github.com'', ''gitlab.com'', ''bitbucket.org'', ''gitee.com'']"

definition git_url :: "GitLib \<Rightarrow> string \<Rightarrow> string res" where
  "git_url gl v =
     rbind (guard (v \<noteq> strip v \<or> length v > 2048 \<or> has_control v) SourceStoreError) (\<lambda>_.
     rbind (gl_urlsplit gl v) (\<lambda>parsed.
     (let host = lower (case pu_hostname parsed of None \<Rightarrow> [] | Some h \<Rightarrow> h) in
      case pu_port parsed of
        Inl _ \<Rightarrow> Inl SourceStoreError
      | Inr port \<Rightarrow>
          rbind (guard (pu_scheme parsed \<noteq> ''https'' \<or> host \<notin> set ALLOWED_GIT_HOSTS \<or> pu_username parsed \<noteq> None \<or>
            pu_password parsed \<noteq> None \<or> port \<notin> {None, Some 443} \<or> list_all (\<lambda>c. c = CHR ''/'') (pu_path parsed) \<or>
            pu_query parsed \<noteq> [] \<or> gl_fragment gl v \<noteq> []) SourceStoreError) (\<lambda>_.
          case gl_global gl host of
            Inl _ \<Rightarrow> Inl SourceStoreError
          | Inr flags \<Rightarrow> rbind (guard (flags = [] \<or> \<not> list_all id flags) SourceStoreError) (\<lambda>_. Inr v)))))"

text \<open>The state is the number of free import slots, and the file system.\<close>

definition import_git :: "SourceLib \<Rightarrow> GitLib \<Rightarrow> SourceStore \<Rightarrow> uuid \<Rightarrow> string \<Rightarrow> string \<Rightarrow> (nat \<times> filesys, StoredSource) pyop" where
  "import_git lib gl st project repository_url git_reference s =
     (let (slots, fs) = s in
      if slots = 0 then (Inl SourceStoreError, s)
      else
        (case rbind (git_url gl repository_url) (\<lambda>url. rbind (git_ref git_reference) (\<lambda>reference. gl_archive gl url reference)) of
           Inl e \<Rightarrow> (Inl e, (slots, fs))
         | Inr content \<Rightarrow> (let (x, fs') = put_archive lib st project content fs in (x, (slots, fs')))))"

end
