(* ===== verification/Docker_Executor.thy ===== *)
theory Docker_Executor
  imports Source_Store Runner_Agent_Facts Load_Executor
begin

text \<open>
  The Docker executor of \<^verbatim>\<open>services/docker_executor.py\<close>: the specification of a container and its check, the command line, the
  client that reads the lines the container writes, and the executor as a tree of deliveries. The docker process, the decoding of a
  line and the outcomes of the secret broker's calls are arguments.
\<close>

section \<open>Container specifications\<close>

record DockerContainerSpec =
  ds_image :: string
  ds_name :: string
  ds_workspace :: path
  ds_artifact_spool :: "path option"
  ds_labels :: "(string \<times> string) list"
  ds_network :: string
  ds_cpus :: string
  ds_memory :: string
  ds_pids_limit :: int
  ds_secret_directory :: "path option"

record DockerRunResult =
  rn_exit_code :: int
  rn_timed_out :: bool

text \<open>The patterns: a first character, and others up to a length.\<close>

definition safe_word :: "(char \<Rightarrow> bool) \<Rightarrow> (char \<Rightarrow> bool) \<Rightarrow> nat \<Rightarrow> string \<Rightarrow> bool" where
  "safe_word first other maximum v \<longleftrightarrow> v \<noteq> [] \<and> length v \<le> maximum \<and> first (hd v) \<and> list_all other (tl v)"

definition alnum :: "char \<Rightarrow> bool" where
  "alnum c \<longleftrightarrow> ascii_letter c \<or> ascii_digit c"

definition word_char :: "char \<Rightarrow> bool" where
  "word_char c \<longleftrightarrow> alnum c \<or> c \<in> set ''_.-''"

definition lower_letter :: "char \<Rightarrow> bool" where
  "lower_letter c \<longleftrightarrow> (let n = of_char c :: nat in 97 \<le> n \<and> n \<le> 122)"

definition safe_image :: "string \<Rightarrow> bool" where
  "safe_image = safe_word alnum (\<lambda>c. alnum c \<or> c \<in> set ''._/:-'' \<or> c = CHR 0x40) 255"

definition safe_network :: "string \<Rightarrow> bool" where
  "safe_network = safe_word alnum word_char 63"

definition safe_name :: "string \<Rightarrow> bool" where
  "safe_name = safe_word alnum word_char 128"

definition safe_cpus :: "string \<Rightarrow> bool" where
  "safe_cpus v \<longleftrightarrow>
     (let whole = takeWhile ascii_digit v; rest = dropWhile ascii_digit v in
      whole \<noteq> [] \<and> (rest = [] \<or> hd rest = CHR ''.'' \<and> 1 \<le> length (tl rest) \<and> length (tl rest) \<le> 3 \<and> list_all ascii_digit (tl rest)))"

text \<open>\<open>float(cpus) <= 0\<close> for a number of this form: every digit is zero.\<close>

definition cpus_zero :: "string \<Rightarrow> bool" where
  "cpus_zero v \<longleftrightarrow> list_all (\<lambda>c. c = CHR ''0'' \<or> c = CHR ''.'') v"

definition safe_memory :: "string \<Rightarrow> bool" where
  "safe_memory v \<longleftrightarrow> v \<noteq> [] \<and> ascii_digit (hd v) \<and> hd v \<noteq> CHR ''0'' \<and>
     (let rest = dropWhile ascii_digit v in rest = [] \<or> length rest = 1 \<and> hd rest \<in> set ''bkmgBKMG'')"

definition safe_label :: "string \<times> string \<Rightarrow> bool" where
  "safe_label label \<longleftrightarrow> safe_word lower_letter (\<lambda>c. lower_letter c \<or> ascii_digit c \<or> c \<in> set ''_.-'') 63 (fst label) \<and>
     snd label \<noteq> [] \<and> length (snd label) \<le> 255 \<and> list_all word_char (snd label)"

definition spec_directory :: "filesys \<Rightarrow> path \<Rightarrow> path res" where
  "spec_directory fs p = (case resolve_strict fs p of
     None \<Rightarrow> Inl ValueError
   | Some resolved \<Rightarrow>
       if \<not> is_dir fs resolved \<or> list_ex (\<lambda>c. c \<in> {CHR '','', CHR 0x0D, CHR 0x0A, CHR 0x00}) (abs_path_str resolved)
       then Inl ValueError else Inr resolved)"

definition spec_directory_opt :: "filesys \<Rightarrow> path option \<Rightarrow> path option res" where
  "spec_directory_opt fs p = (case p of None \<Rightarrow> Inr None | Some q \<Rightarrow> rbind (spec_directory fs q) (\<lambda>r. Inr (Some r)))"

definition overlaps :: "path \<Rightarrow> path \<Rightarrow> bool" where
  "overlaps left right \<longleftrightarrow> left = right \<or> is_relative_to left right \<or> is_relative_to right left"

definition validate_spec :: "filesys \<Rightarrow> DockerContainerSpec \<Rightarrow> (path \<times> path option \<times> path option) res" where
  "validate_spec fs spec =
     rbind (guard (\<not> safe_image (ds_image spec)) ValueError) (\<lambda>_.
     rbind (guard (\<not> safe_network (ds_network spec)) ValueError) (\<lambda>_.
     rbind (guard (\<not> safe_name (ds_name spec)) ValueError) (\<lambda>_.
     rbind (guard (\<not> safe_cpus (ds_cpus spec) \<or> cpus_zero (ds_cpus spec) \<or> \<not> safe_memory (ds_memory spec) \<or> ds_pids_limit spec \<le> 0) ValueError) (\<lambda>_.
     rbind (guard (\<not> list_all safe_label (ds_labels spec)) ValueError) (\<lambda>_.
     rbind (spec_directory fs (ds_workspace spec)) (\<lambda>workspace.
     rbind (spec_directory_opt fs (ds_artifact_spool spec)) (\<lambda>spool.
     case ds_secret_directory spec of
       None \<Rightarrow> Inr (workspace, spool, None)
     | Some source \<Rightarrow>
         rbind (guard (is_symlink fs source) ValueError) (\<lambda>_.
         rbind (spec_directory fs source) (\<lambda>secrets.
         rbind (guard (overlaps secrets workspace \<or> (case spool of None \<Rightarrow> False | Some s \<Rightarrow> overlaps secrets s)) ValueError) (\<lambda>_.
         Inr (workspace, spool, Some secrets)))))))))))"

definition mount :: "path \<Rightarrow> string \<Rightarrow> string" where
  "mount source target = ''type=bind,src='' @ abs_path_str source @ '',dst='' @ target"

definition docker_command :: "string \<Rightarrow> filesys \<Rightarrow> DockerContainerSpec \<Rightarrow> string list res" where
  "docker_command executable fs spec =
     rbind (validate_spec fs spec) (\<lambda>(workspace, spool, secrets).
     Inr ([executable, ''run'', ''--rm'', ''--interactive'', ''--name'', ds_name spec,
       ''--read-only'', ''--user'', ''65532:65532'', ''--cap-drop'', ''ALL'',
       ''--security-opt'', ''no-new-privileges'', ''--pids-limit'', show_int (ds_pids_limit spec),
       ''--cpus'', ds_cpus spec, ''--memory'', ds_memory spec, ''--memory-swap'', ds_memory spec,
       ''--network'', ds_network spec, ''--tmpfs'', ''/tmp:rw,noexec,nosuid,size=128m'',
       ''--mount'', mount workspace ''/workspace,readonly''] @
       concat (map (\<lambda>(key, v). [''--label'', key @ ''='' @ v]) (ds_labels spec)) @
       (case spool of None \<Rightarrow> [] | Some s \<Rightarrow> [''--mount'', mount s ''/artifacts'']) @
       (case secrets of None \<Rightarrow> [] | Some s \<Rightarrow> [''--mount'', mount s ''/run/secrets,readonly'']) @
       [ds_image spec, ''python'', ''-m'', ''runner.container_entrypoint'']))"

section \<open>The executor\<close>

abbreviation DockerExecutionError :: exn where
  "DockerExecutionError \<equiv> OtherException ''DockerExecutionError''"

text \<open>
  A line of the transport as \<open>json.loads\<close> and the envelope models read it, \<open>Inl\<close> when one of them fails; and what becomes of the
  process: whether it starts and takes its task, the lines it writes, its exit code or that it runs out of time, and whether its streams close.
\<close>

datatype Message = EventMessage EventEnvelope | ResultMessage ResultEnvelope | OtherMessage

record DockerProcess =
  dp_starts :: bool
  dp_takes_task :: bool
  dp_lines :: "string list"
  dp_exit_code :: "int option"
  dp_streams_close :: bool

definition MAX_LINE :: nat where
  "MAX_LINE = 1048576"

text \<open>
  \<open>read_stdout\<close> over \<open>consume\<close>: each line goes to the sink or sets the result; at the first error the reader stops. \<open>k\<close> is what
  follows, with that error and the result.
\<close>

fun read_stdout ::
  "(string \<Rightarrow> Message res) \<Rightarrow> string list \<Rightarrow> ResultEnvelope option \<Rightarrow> (exn option \<Rightarrow> ResultEnvelope option \<Rightarrow> exec_tree) \<Rightarrow> exec_tree" where
  "read_stdout decode [] result k = k None result"
| "read_stdout decode (line # lines) result k =
     (if line = [] \<or> length line > MAX_LINE then k (Some DockerExecutionError) result
      else (case decode line of
          Inl e \<Rightarrow> k (Some e) result
        | Inr (EventMessage ev) \<Rightarrow> Emit ev (\<lambda>r. case r of None \<Rightarrow> read_stdout decode lines result k | Some e \<Rightarrow> k (Some e) result)
        | Inr (ResultMessage r) \<Rightarrow>
            if result = None then read_stdout decode lines (Some r) k else k (Some DockerExecutionError) result
        | Inr OtherMessage \<Rightarrow> k (Some DockerExecutionError) result))"

definition client_run ::
  "(string \<Rightarrow> Message res) \<Rightarrow> string list res \<Rightarrow> DockerProcess \<Rightarrow> (DockerRunResult res \<Rightarrow> ResultEnvelope option \<Rightarrow> exec_tree) \<Rightarrow> exec_tree" where
  "client_run decode command process k =
     (case command of
        Inl e \<Rightarrow> k (Inl e) None
      | Inr _ \<Rightarrow>
          if \<not> dp_starts process then k (Inl DockerExecutionError) None
          else read_stdout decode (dp_lines process) None (\<lambda>error result.
            if \<not> dp_takes_task process \<or> \<not> dp_streams_close process \<or> error \<noteq> None then k (Inl DockerExecutionError) result
            else k (Inr (case dp_exit_code process of
                None \<Rightarrow> \<lparr>rn_exit_code = - 1, rn_timed_out = True\<rparr>
              | Some code \<Rightarrow> \<lparr>rn_exit_code = code, rn_timed_out = False\<rparr>)) result))"

text \<open>
  The executor's fields and its surroundings: the file system, the docker process that a specification leads to, the clock, whether the
  spool directory of the attempt could be made, and the outcomes of issuing and redeeming the capability, of staging the secrets
  (the directory) and of removing them.
\<close>

record DockerExecutor =
  dx_image :: string
  dx_workspace :: path
  dx_network :: string
  dx_spool_root :: "path option"
  dx_secrets_configured :: bool

record DockerEnv =
  de_fs :: filesys
  de_executable :: string
  de_decode :: "string \<Rightarrow> Message res"
  de_process :: "DockerContainerSpec \<Rightarrow> DockerProcess"
  de_now :: time
  de_completed_at :: time
  de_spool_fresh :: bool
  de_redeemed :: "unit res"
  de_staged :: "path res"
  de_cleaned :: "unit res"

definition docker_terminal :: "DockerEnv \<Rightarrow> TaskEnvelope \<Rightarrow> ResultOutcome \<Rightarrow> string \<Rightarrow> ResultEnvelope" where
  "docker_terminal env task outcome reason =
     \<lparr>en_run_id = en_run_id task, en_attempt_id = en_attempt_id task, en_engine = en_engine task, rs_outcome = outcome,
      rs_completed_at = de_completed_at env, rs_duration_ms = 0, rs_summary = [(''reason'', PStr reason)]\<rparr>"

definition docker_spec :: "DockerExecutor \<Rightarrow> TaskEnvelope \<Rightarrow> path option \<Rightarrow> path option \<Rightarrow> DockerContainerSpec" where
  "docker_spec dx task spool secrets =
     \<lparr>ds_image = dx_image dx, ds_name = ''smarttest-'' @ uuid_str (en_attempt_id task), ds_workspace = dx_workspace dx,
      ds_artifact_spool = spool,
      ds_labels = [(''smarttest.tenant_id'', uuid_str (tk_tenant_id task)), (''smarttest.project_id'', uuid_str (tk_project_id task)),
        (''smarttest.run_id'', uuid_str (en_run_id task)), (''smarttest.attempt_id'', uuid_str (en_attempt_id task))],
      ds_network = dx_network dx, ds_cpus = ''1.0'', ds_memory = ''512m'', ds_pids_limit = 128, ds_secret_directory = secrets\<rparr>"

definition run_container ::
  "DockerExecutor \<Rightarrow> DockerEnv \<Rightarrow> TaskEnvelope \<Rightarrow> path option \<Rightarrow> path option \<Rightarrow>
     (DockerRunResult res \<Rightarrow> ResultEnvelope option \<Rightarrow> exec_tree) \<Rightarrow> exec_tree" where
  "run_container dx env task spool secrets k =
     (let spec = docker_spec dx task spool secrets in
      if secrets \<noteq> None \<and> isl (validate_spec (de_fs env) spec) then k (Inl DockerExecutionError) None
      else client_run (de_decode env) (docker_command (de_executable env) (de_fs env) spec) (de_process env spec) k)"

definition run_with_secrets ::
  "DockerExecutor \<Rightarrow> DockerEnv \<Rightarrow> TaskEnvelope \<Rightarrow> path option \<Rightarrow> (DockerRunResult res \<Rightarrow> ResultEnvelope option \<Rightarrow> exec_tree) \<Rightarrow> exec_tree" where
  "run_with_secrets dx env task spool k =
     (case de_redeemed env of
        Inl _ \<Rightarrow> k (Inl DockerExecutionError) None
      | Inr _ \<Rightarrow> (case de_staged env of
          Inl _ \<Rightarrow> k (Inl DockerExecutionError) None
        | Inr directory \<Rightarrow>
            run_container dx env task spool (Some directory) (\<lambda>runtime result.
              case de_cleaned env of Inl _ \<Rightarrow> k (Inl DockerExecutionError) result | Inr _ \<Rightarrow> k runtime result)))"

definition docker_conclude :: "DockerEnv \<Rightarrow> TaskEnvelope \<Rightarrow> DockerRunResult res \<Rightarrow> ResultEnvelope option \<Rightarrow> exec_tree" where
  "docker_conclude env task runtime result =
     (case runtime of
        Inl e \<Rightarrow> Crash e
      | Inr rn \<Rightarrow>
          if rn_timed_out rn then Finish (docker_terminal env task O_TIMED_OUT ''container_timeout'')
          else (case result of
              None \<Rightarrow> Finish (docker_terminal env task O_INFRA_ERROR ''container_failed'')
            | Some r \<Rightarrow> if rn_exit_code rn \<noteq> 0 then Finish (docker_terminal env task O_INFRA_ERROR ''container_failed'') else Finish r))"

definition docker_execute :: "DockerExecutor \<Rightarrow> DockerEnv \<Rightarrow> TaskEnvelope \<Rightarrow> exec_tree" where
  "docker_execute dx env task =
     (if tk_secret_references task \<noteq> [] \<and> \<not> dx_secrets_configured dx then Crash DockerExecutionError
      else if tk_deadline task \<le> de_now env then Finish (docker_terminal env task O_TIMED_OUT ''deadline_expired'')
      else if dx_spool_root dx \<noteq> None \<and> \<not> de_spool_fresh env then Crash (OtherException ''FileExistsError'')
      else
        (let spool = map_option (\<lambda>p. p @ [uuid_str (en_attempt_id task)]) (dx_spool_root dx) in
         if tk_secret_references task \<noteq> [] then run_with_secrets dx env task spool (docker_conclude env task)
         else run_container dx env task spool None (docker_conclude env task)))"

end
