(* ===== verification/Secret_Files.thy ===== *)
theory Secret_Files
  imports Docker_Executor Environment_Repo
begin

text \<open>
  The secret file stager of \<^verbatim>\<open>services/secret_files.py\<close>: the check that its root is on a tmpfs mount, the check of the secrets, and the
  directory of one attempt with one file per secret, over the model of the file system.
\<close>

section \<open>The root of the staging area\<close>

abbreviation SecretStagingError :: exn where
  "SecretStagingError \<equiv> OtherException ''SecretStagingError''"

text \<open>\<open>str.split()\<close>, and the octal escapes of a mount point.\<close>

fun words_from :: "string \<Rightarrow> string \<Rightarrow> string list" where
  "words_from w [] = (if w = [] then [] else [w])"
| "words_from w (c # cs) =
     (if py_space c then (if w = [] then words_from [] cs else w # words_from [] cs) else words_from (w @ [c]) cs)"

definition split_words :: "string \<Rightarrow> string list" where
  "split_words v = words_from [] v"

definition octal :: "char \<Rightarrow> bool" where
  "octal c \<longleftrightarrow> c \<in> set ''01234567''"

fun mount_unescape :: "string \<Rightarrow> string" where
  "mount_unescape (b # x # y # z # cs) =
     (if b = CHR 0x5C \<and> octal x \<and> octal y \<and> octal z
      then char_of (64 * (of_char x - 48) + 8 * (of_char y - 48) + (of_char z - 48 :: nat)) # mount_unescape cs
      else b # mount_unescape (x # y # z # cs))"
| "mount_unescape (b # cs) = b # mount_unescape cs"
| "mount_unescape [] = []"

definition parse_mount :: "string \<Rightarrow> (path \<times> string) res" where
  "parse_mount line =
     (let parts = split_words line; before = takeWhile (\<lambda>w. w \<noteq> ''-'') parts; after = drop (length before + 1) parts in
      if length before = length parts \<or> length parts \<le> 4 \<or> after = [] then Inl SecretStagingError
      else Inr (posix_parts (mount_unescape (parts ! 4)), hd after))"

text \<open>\<open>max\<close> over the containing mounts by the length of their path: the first of the longest.\<close>

fun deepest :: "(path \<times> string) \<Rightarrow> (path \<times> string) list \<Rightarrow> path \<times> string" where
  "deepest m [] = m"
| "deepest m (n # ns) = deepest (if length (fst n) > length (fst m) then n else m) ns"

definition verify_tmpfs :: "string list res \<Rightarrow> filesys \<Rightarrow> path \<Rightarrow> unit res" where
  "verify_tmpfs mountinfo fs base =
     (if is_symlink fs base \<or> \<not> path_exists fs base \<or> \<not> is_dir fs base then Inl SecretStagingError
      else (case (resolve_strict fs base, rbind mountinfo (\<lambda>lines. map_res parse_mount lines)) of
          (Some resolved, Inr mounts) \<Rightarrow>
            (case filter (\<lambda>m. is_relative_to resolved (fst m)) mounts of
               [] \<Rightarrow> Inl SecretStagingError
             | m # ms \<Rightarrow> if snd (deepest m ms) \<noteq> ''tmpfs'' then Inl SecretStagingError else Inr ())
        | _ \<Rightarrow> Inl SecretStagingError))"

section \<open>Staging\<close>

record SecretFileStager =
  sf_root :: path
  sf_maximum_bytes :: int

text \<open>
  What the stager depends on: the verifier of the root, the random names, and whether changing the mode and the owner of a path succeeds.
\<close>

record StagerEnv =
  se_verify :: "filesys \<Rightarrow> path \<Rightarrow> unit res"
  se_token :: "nat \<Rightarrow> string"
  se_own :: "path \<Rightarrow> unit res"

definition make_stager :: "path \<Rightarrow> int \<Rightarrow> int \<Rightarrow> int \<Rightarrow> SecretFileStager res" where
  "make_stager base uid gid maximum =
     (if uid < 0 \<or> gid < 0 \<or> maximum \<le> 0 then Inl ValueError else Inr \<lparr>sf_root = base, sf_maximum_bytes = maximum\<rparr>)"

definition common_name :: "string \<Rightarrow> bool" where
  "common_name = safe_word (\<lambda>c. ascii_letter c \<or> c = CHR ''_'') word_char 128"

definition secret_name_ok :: "ConfigurationCategory \<Rightarrow> string \<Rightarrow> bool" where
  "secret_name_ok category name =
     (case category of ENVIRONMENT_VARIABLE \<Rightarrow> environment_name name | COMMON_PARAMETER \<Rightarrow> common_name name)"

type_synonym staged_value = "string \<times> string \<times> string"

fun validate_secrets :: "int \<Rightarrow> (string \<times> string) list \<Rightarrow> ResolvedSecretValue list \<Rightarrow> staged_value list res" where
  "validate_secrets maximum seen [] = Inr []"
| "validate_secrets maximum seen (secret # secrets) =
     (let category = category_value (rv_category secret); identity = (category, rv_name secret); encoded = utf8_encode (rv_value secret) in
      rbind (guard (\<not> secret_name_ok (rv_category secret) (rv_name secret)) SecretStagingError) (\<lambda>_.
      rbind (guard (identity \<in> set seen) SecretStagingError) (\<lambda>_.
      rbind (guard (int (length encoded) > maximum) SecretStagingError) (\<lambda>_.
      rbind (validate_secrets maximum (identity # seen) secrets) (\<lambda>rest.
      Inr ((category, rv_name secret, encoded) # rest))))))"

text \<open>\<open>mkdir\<close> of a new directory, an exclusive new file, and \<open>shutil.rmtree\<close>.\<close>

definition new_node :: "path \<Rightarrow> fsnode \<Rightarrow> (filesys, unit) pyop" where
  "new_node p node fs =
     (if p = [] \<or> \<not> is_dir fs (butlast p) then (Inl OSError, fs)
      else (case resolve_strict fs (butlast p) of
          None \<Rightarrow> (Inl OSError, fs)
        | Some q \<Rightarrow> if fs (q @ [last p]) \<noteq> None then (Inl (OtherException ''FileExistsError''), fs) else (Inr (), fs(q @ [last p] \<mapsto> node))))"

definition remove_below :: "path \<Rightarrow> filesys \<Rightarrow> filesys" where
  "remove_below p fs = (\<lambda>q. if is_relative_to q p then None else fs q)"

definition secret_cleanup :: "path \<Rightarrow> (filesys, unit) pyop" where
  "secret_cleanup child fs =
     (case resolve_strict fs (butlast child) of
        Some q \<Rightarrow> if child \<noteq> [] \<and> fs (q @ [last child]) = Some DirNode then (Inr (), remove_below (q @ [last child]) fs) else (Inl SecretStagingError, fs)
      | None \<Rightarrow> (Inl SecretStagingError, fs))"

fun create_child :: "SecretFileStager \<Rightarrow> StagerEnv \<Rightarrow> nat \<Rightarrow> nat \<Rightarrow> (filesys, path) pyop" where
  "create_child sf env n 0 = raise SecretStagingError"
| "create_child sf env n (Suc tries) =
     (let child = sf_root sf @ [se_token env n] in
      (\<lambda>fs. case new_node child DirNode fs of
         (Inl e, fs) \<Rightarrow> if e = OtherException ''FileExistsError'' then create_child sf env (n + 1) tries fs else (Inl e, fs)
       | (Inr _, fs) \<Rightarrow> (case se_own env child of
           Inr _ \<Rightarrow> (Inr child, fs)
         | Inl e \<Rightarrow> bind (secret_cleanup child) (\<lambda>_. raise e) fs)))"

definition category_directory :: "StagerEnv \<Rightarrow> path \<Rightarrow> string list \<Rightarrow> string \<Rightarrow> (filesys, string list) pyop" where
  "category_directory env child categories category =
     (if category \<in> set categories then ret categories
      else
        bind (new_node (child @ [category]) DirNode) (\<lambda>_.
        bind (lift (se_own env (child @ [category]))) (\<lambda>_.
        ret (category # categories))))"

definition write_value :: "StagerEnv \<Rightarrow> path \<Rightarrow> string list \<Rightarrow> staged_value \<Rightarrow> (filesys, string list) pyop" where
  "write_value env child categories entry =
     (let (category, name, content) = entry; path = child @ [category, name] in
      bind (category_directory env child categories category) (\<lambda>categories.
      bind (new_node path (FileNode content)) (\<lambda>_.
      bind (lift (se_own env path)) (\<lambda>_.
      ret categories))))"

fun write_values :: "StagerEnv \<Rightarrow> path \<Rightarrow> string list \<Rightarrow> staged_value list \<Rightarrow> (filesys, unit) pyop" where
  "write_values env child categories [] = ret ()"
| "write_values env child categories (entry # entries) =
     bind (write_value env child categories entry) (\<lambda>categories. write_values env child categories entries)"

text \<open>Entering the context of \<open>stage\<close>: the directory with the secrets, or \<open>SecretStagingError\<close> after removing what was made. Leaving it is \<open>secret_cleanup\<close>.\<close>

definition stage_secrets :: "SecretFileStager \<Rightarrow> StagerEnv \<Rightarrow> ResolvedSecretValue list \<Rightarrow> (filesys, path) pyop" where
  "stage_secrets sf env secrets =
     catch
       (bind (lift (validate_secrets (sf_maximum_bytes sf) [] secrets)) (\<lambda>validated.
        bind (\<lambda>fs. (se_verify env fs (sf_root sf), fs)) (\<lambda>_.
        bind (create_child sf env 0 128) (\<lambda>child.
        catch (bind (write_values env child [] validated) (\<lambda>_. ret child))
          (\<lambda>_. bind (secret_cleanup child) (\<lambda>_. raise SecretStagingError))))))
       (\<lambda>_. raise SecretStagingError)"

end
