(* ===== verification/Source_Store_Facts.thy ===== *)
theory Source_Store_Facts
  imports Source_Store
begin

text \<open>
  Properties of the source store: references are exact, a stored source comes back, and nothing is written outside the workspace.
\<close>

section \<open>References are exact\<close>

lemma hex_digit_lower: "hex_lower (hex_digit n)" "hex_val (hex_digit n) = n mod 16" "CHR ''-'' \<noteq> hex_digit n"
proof -
  have "list_all (\<lambda>m. hex_lower (''0123456789abcdef'' ! m) \<and> hex_val (''0123456789abcdef'' ! m) = m \<and> CHR ''-'' \<noteq> ''0123456789abcdef'' ! m) [0..<16]"
    by code_simp
  moreover have "n mod 16 \<in> set [0..<16]" by simp
  ultimately show "hex_lower (hex_digit n)" "hex_val (hex_digit n) = n mod 16" "CHR ''-'' \<noteq> hex_digit n"
    unfolding hex_digit_def list_all_iff by blast+
qed

lemma hex_digits_shape: "length (hex_digits k n) = k" "list_all hex_lower (hex_digits k n)" "CHR ''-'' \<notin> set (hex_digits k n)"
  by (induction k arbitrary: n) (simp_all add: hex_digit_lower)

lemma take_drop_chain: "take n (drop m xs) @ drop (m + n) xs = drop m xs"
  by (metis add.commute append_take_drop_id drop_drop)

lemma hex_digits_value: "foldl (\<lambda>m c. 16 * m + hex_val c) 0 (hex_digits k n) = n mod 16 ^ k"
proof (induction k arbitrary: n)
  case (Suc k)
  have "16 * (n div 16 mod 16 ^ k) + n mod 16 = n mod 16 ^ Suc k" by (simp add: mod_mult2_eq)
  with Suc show ?case by (simp add: hex_digit_lower)
qed simp

lemma uuid_str_pattern: "uuid_pattern (uuid_str p)" "length (uuid_str p) = 36"
proof -
  let ?h = "hex_digits 32 p"
  have l: "length ?h = 32" "list_all hex_lower ?h" by (simp_all add: hex_digits_shape)
  show "length (uuid_str p) = 36" using l(1) by (simp add: uuid_str_def Let_def)
  have a: "hex_lower (?h ! i)" if "i < 32" for i using l that by (simp add: list_all_length)
  have "(if i \<in> {8, 13, 18, 23} then uuid_str p ! i = CHR ''-'' else hex_lower (uuid_str p ! i))" if "i < 36" for i
    using that l(1) a by (auto simp: uuid_str_def Let_def nth_append less_Suc_eq_le)
  then show "uuid_pattern (uuid_str p)" by (simp add: uuid_pattern_def \<open>length (uuid_str p) = 36\<close> list_all_iff)
qed

lemma uuid_of_str: "p < 2 ^ 128 \<Longrightarrow> uuid_of (uuid_str p) = p"
proof -
  assume p: "p < 2 ^ 128"
  let ?h = "hex_digits 32 p"
  have h: "filter (\<lambda>c. c \<noteq> CHR ''-'') (take n ?h) = take n ?h" "filter (\<lambda>c. c \<noteq> CHR ''-'') (drop n ?h) = drop n ?h"
    "filter (\<lambda>c. c \<noteq> CHR ''-'') (take m (drop n ?h)) = take m (drop n ?h)" for n m
    using hex_digits_shape(3) [of 32 p] by (auto simp: filter_id_conv dest: in_set_takeD in_set_dropD)
  have "take 8 ?h @ take 4 (drop 8 ?h) @ take 4 (drop 12 ?h) @ take 4 (drop 16 ?h) @ drop 20 ?h = ?h"
    using take_drop_chain [of 8 0 ?h] take_drop_chain [of 4 8 ?h] take_drop_chain [of 4 12 ?h] take_drop_chain [of 4 16 ?h] by simp
  then have "filter (\<lambda>c. c \<noteq> CHR ''-'') (uuid_str p) = ?h" by (simp add: uuid_str_def Let_def h)
  then show ?thesis using p by (simp add: uuid_of_def hex_digits_value)
qed

lemma parse_source_reference:
  assumes "p < 2 ^ 128" "digest_pattern d" "v \<in> {''v1'', ''v2''}"
  shows "parse_source_ref (source_reference p d v) = Inr (v, p, d)"
proof -
  have v: "length v = 2" using assms(3) by auto
  have "match_reference ''local-source'' [''v1'', ''v2''] (source_reference p d v) = Some (v, uuid_str p, d)"
    using assms v uuid_str_pattern [of p] by (auto simp: match_reference_def source_reference_def Let_def)
  with uuid_of_str [OF assms(1)] show ?thesis by (simp add: parse_source_ref_def)
qed

lemma parse_host_ref_ok: "p < 2 ^ 128 \<Longrightarrow> digest_pattern d \<Longrightarrow> parse_host_reference (host_reference p d) = Inr (p, d)"
proof -
  assume *: "p < 2 ^ 128" "digest_pattern d"
  then have "match_reference ''host-source'' [''v1''] (host_reference p d) = Some (''v1'', uuid_str p, d)"
    using uuid_str_pattern [of p] by (auto simp: match_reference_def host_reference_def Let_def)
  with uuid_of_str [OF *(1)] show ?thesis by (simp add: parse_host_reference_def)
qed

lemma parse_source_ref_exact:
  assumes "parse_source_ref r = Inr (v, p, d)"
  shows "r = source_reference p d v \<and> digest_pattern d \<and> v \<in> {''v1'', ''v2''}"
proof -
  obtain u where m: "match_reference ''local-source'' [''v1'', ''v2''] r = Some (v, u, d)" "uuid_str p = u"
    using assms by (auto simp: parse_source_ref_def split: option.splits)
  let ?rest = "drop 13 r"
  have n: "length ''local-source'' + 1 = 13" by simp
  have t: "take 13 r = ''local-source:''" "take 2 ?rest = v" "take 1 (drop 2 ?rest) = '':''" "take 36 (drop 3 ?rest) = u"
    "take 8 (drop 39 ?rest) = '':sha256:''" "drop 47 ?rest = d" "v \<in> {''v1'', ''v2''}" "digest_pattern d"
    using m(1) unfolding match_reference_def n Let_def by (auto split: if_splits)
  have "r = take 13 r @ take 2 ?rest @ take 1 (drop 2 ?rest) @ take 36 (drop 3 ?rest) @ take 8 (drop 39 ?rest) @ drop 47 ?rest"
    using take_drop_chain [of 13 0 r] take_drop_chain [of 2 0 ?rest] take_drop_chain [of 1 2 ?rest] take_drop_chain [of 36 3 ?rest]
      take_drop_chain [of 8 39 ?rest] by simp
  with t m(2) show ?thesis by (simp add: source_reference_def)
qed

section \<open>Writing where there are no links\<close>

definition linkless :: "path \<Rightarrow> filesys \<Rightarrow> bool" where
  "linkless base fs \<longleftrightarrow> (\<forall>q t. q \<noteq> [] \<longrightarrow> fs (base @ q) \<noteq> Some (LinkNode t))"

lemma linkless_confined: "confined base fs fs' \<Longrightarrow> linkless base fs \<Longrightarrow> linkless base fs'"
  unfolding linkless_def confined_def by (metis fsnode.distinct(4,6) option.inject)

lemma mkdirs_confined:
  "mkdirs_below (base @ q) parts fs = (x, fs') \<Longrightarrow> plain fs (base @ q) \<Longrightarrow> linkless base fs \<Longrightarrow> ''..'' \<notin> set (q @ parts) \<Longrightarrow>
     confined base fs fs' \<and> (x = Inr () \<longrightarrow> plain fs' (base @ q @ parts))"
proof (induction parts arbitrary: q fs)
  case (Cons p parts)
  have dots: "p \<noteq> ''..''" "''..'' \<notin> set q" using Cons.prems(4) by auto
  show ?case
  proof (cases "\<exists>c. fs (base @ q @ [p]) = Some (FileNode c)")
    case True
    then have "mkdir (base @ q @ [p]) fs = (Inl OSError, fs)"
      using Cons.prems(2) dots resolve_plain_snoc [of fs "base @ q" p] by (auto simp: mkdir_def is_dir_def butlast_append)
    with Cons.prems show ?thesis by (auto simp: bind_def)
  next
    case False
    have nl: "\<not> is_symlink fs ((base @ q) @ [p])" using plain_symlink [OF Cons.prems(2)] Cons.prems(3) unfolding linkless_def by (metis append.assoc snoc_eq_iff_butlast)
    have "fs (base @ q @ [p]) = None \<or> fs (base @ q @ [p]) = Some DirNode"
      using False Cons.prems(3) unfolding linkless_def by (metis fsnode.exhaust option.exhaust snoc_eq_iff_butlast)
    then have "\<not> (path_exists fs ((base @ q) @ [p]) \<and> \<not> is_dir fs ((base @ q) @ [p]))"
      using plain_present [OF Cons.prems(2) dots(1)] nl by (metis append.assoc)
    note m = mkdir_plain [OF Cons.prems(2) dots(1) nl this, unfolded append.assoc]
    let ?fs1 = "if fs (base @ q @ [p]) = None then fs(base @ q @ [p] \<mapsto> DirNode) else fs"
    have c: "confined base fs ?fs1" using confined_update [of fs base q p DirNode] dots by simp
    have "plain ?fs1 (base @ q)" by (rule confined_plain [OF c Cons.prems(2)])
    then have "plain ?fs1 (base @ q @ [p])" using m(2) dots plain_snoc [of ?fs1 "base @ q" p] by auto
    moreover have "mkdirs_below (base @ q @ [p]) parts ?fs1 = (x, fs')" using Cons.prems(1) m(1) by (simp add: bind_def)
    ultimately show ?thesis
      using Cons.IH [of "q @ [p]" ?fs1] Cons.prems(4) linkless_confined [OF c Cons.prems(3)] confined_trans [OF c] by simp
  qed
qed simp

lemma mkdirs_plain: "plain fs (cur @ p) \<Longrightarrow> mkdirs_below cur p fs = (Inr (), fs)"
proof (induction p arbitrary: cur)
  case (Cons x p)
  have "plain fs (cur @ [x])" using plain_append [of fs "cur @ [x]" p] Cons.prems by simp
  then have "mkdir (cur @ [x]) fs = (Inr (), fs)" by (simp add: mkdir_def)
  with Cons show ?case by (simp add: bind_def)
qed simp

lemma mkdirs_append: "mkdirs_below cur (p @ q) = bind (mkdirs_below cur p) (\<lambda>_. mkdirs_below (cur @ p) q)"
  by (induction p arbitrary: cur) (auto simp: bind_def fun_eq_iff split: prod.split sum.split)

lemma mkdirs_base:
  assumes "mkdirs (base @ parts) fs = (x, fs')" "plain fs base" "linkless base fs" "''..'' \<notin> set parts"
  shows "confined base fs fs' \<and> (x = Inr () \<longrightarrow> plain fs' (base @ parts))"
  using assms mkdirs_confined [of base "[]" parts fs x fs'] mkdirs_plain [of fs "[]" base]
  by (simp add: mkdirs_def mkdirs_append bind_def)

lemma replace_plain:
  "plain fs p \<Longrightarrow> replace_file (p @ [x]) content fs =
     (if fs (p @ [x]) = Some DirNode then (Inl OSError, fs) else (Inr (), fs(p @ [x] \<mapsto> FileNode content)))"
  by (simp add: replace_file_def)

lemma confined_put:
  assumes "confined base fs fs1" "fs (base @ q) = None" "q \<noteq> []" "''..'' \<notin> set q"
  shows "confined base fs (fs1(base @ q \<mapsto> FileNode c))"
  using assms unfolding confined_def by (metis fun_upd_apply)

text \<open>A write into a tree without links puts the file exactly there.\<close>

lemma atomic_write_there:
  assumes "atomic_write (base @ parts @ [x]) content fs = (Inr (), fs')" "plain fs base" "linkless base fs" "''..'' \<notin> set parts"
  shows "plain fs' (base @ parts)" "fs' (base @ parts @ [x]) = Some (FileNode content)" "linkless base fs'"
proof -
  obtain y fs1 where y: "mkdirs (base @ parts) fs = (y, fs1)" by force
  have yr: "y = Inr ()" using assms(1) y by (cases y) (auto simp: atomic_write_def bind_def butlast_append)
  have c: "confined base fs fs1" "plain fs1 (base @ parts)" using mkdirs_base [OF y assms(2-4)] yr by auto
  have r: "replace_file ((base @ parts) @ [x]) content fs1 = (Inr (), fs')"
    using assms(1) y yr by (simp add: atomic_write_def bind_def butlast_append)
  have n: "fs1 (base @ parts @ [x]) \<noteq> Some DirNode" "fs' = fs1(base @ parts @ [x] \<mapsto> FileNode content)"
    using r replace_plain [OF c(2)] by (auto split: if_splits)
  show "fs' (base @ parts @ [x]) = Some (FileNode content)" by (simp add: n)
  show "plain fs' (base @ parts)"
    using c(2) n(1) unfolding n(2) plain_def by (metis fun_upd_other)
  show "linkless base fs'" using linkless_confined [OF c(1) assms(3)] by (auto simp: linkless_def n(2))
qed

lemma walk_lenient_dots: "walk_lenient n fs cur ps = Some q \<Longrightarrow> ''..'' \<notin> set cur \<Longrightarrow> ''..'' \<notin> set q"
  by (induction n fs cur ps rule: walk_lenient.induct)
    (auto split: if_splits option.splits fsnode.splits nat.splits dest: in_set_butlastD)

lemma make_store_root: "make_source_store given m e roots fs = (Inr st, fs') \<Longrightarrow> ''..'' \<notin> set (ss_root st)"
  by (auto simp: make_source_store_def bind_Inr_iff resolve_lenient_def dest!: walk_lenient_dots split: option.splits)

section \<open>What the store keeps\<close>

lemma digest_names: "digest_pattern d \<Longrightarrow> d \<noteq> ''..'' \<and> take 2 d \<noteq> ''..''"
proof -
  assume d: "digest_pattern d"
  have "set (take 2 d) \<subseteq> {c. hex_lower c}" using d by (auto simp: digest_pattern_def list_all_iff dest: in_set_takeD)
  moreover have "\<not> hex_lower (CHR ''.'')" by (simp add: hex_lower_def)
  ultimately have "take 2 d \<noteq> ''..''" by auto
  moreover have "d \<noteq> ''..''" using d by (auto simp: digest_pattern_def)
  ultimately show ?thesis by simp
qed

lemma uuid_str_names: "uuid_str p \<noteq> ''..''"
  using uuid_str_pattern(2) [of p] by auto

lemma verified_content_ok:
  assumes "plain fs (ss_root st @ [uuid_str project, take 2 digest])" "fs (source_path st project digest) = Some (FileNode content)"
    and "int (length content) \<le> limit" "sb_sha256 lib content = digest" "digest_pattern digest"
  shows "verified_content lib st project digest limit fs = (Inr content, fs)"
proof -
  let ?p = "ss_root st @ [uuid_str project, take 2 digest]"
  have s: "source_path st project digest = ?p @ [digest]" by (simp add: source_path_def)
  have r: "resolve_strict fs (?p @ [digest]) = Some (?p @ [digest])"
    using resolve_plain_snoc [OF assms(1), of digest] assms(2) digest_names [OF assms(5)] by (simp add: s)
  have l: "\<not> is_symlink fs (?p @ [digest])" using plain_symlink [OF assms(1), of digest] assms(2) by (simp add: s)
  have f: "is_file fs (?p @ [digest])" "read_file fs (?p @ [digest]) = Inr content"
    using r assms(2) by (simp_all add: is_file_def read_file_def s)
  have b: "is_relative_to (?p @ [digest]) (ss_root st)" by (simp add: is_relative_to_def)
  have "take (nat (limit + 1)) content = content" using assms(3) by simp
  then show ?thesis using r l f b assms(3,4) unfolding verified_content_def s Let_def by simp
qed

lemma put_bytes_there:
  assumes "put_bytes lib st project content version fs = (Inr s, fs')" "linkless [] fs" "''..'' \<notin> set (ss_root st)"
    and "digest_pattern (sb_sha256 lib content)"
  shows "s = \<lparr>sr_source_ref = source_reference project (sb_sha256 lib content) version, sr_content_digest = sb_sha256 lib content,
       sr_size_bytes = int (length content)\<rparr>"
    and "int (length content) \<le> limit \<Longrightarrow> verified_content lib st project (sb_sha256 lib content) limit fs' = (Inr content, fs')"
proof -
  let ?d = "sb_sha256 lib content" and ?parts = "ss_root st @ [uuid_str project, take 2 (sb_sha256 lib content)]"
  have w: "atomic_write ([] @ ?parts @ [?d]) content fs = (Inr (), fs')"
    and s: "s = \<lparr>sr_source_ref = source_reference project ?d version, sr_content_digest = ?d, sr_size_bytes = int (length content)\<rparr>"
    using assms(1) by (auto simp: put_bytes_def Let_def bind_Inr_iff source_path_def)
  show "s = \<lparr>sr_source_ref = source_reference project ?d version, sr_content_digest = ?d, sr_size_bytes = int (length content)\<rparr>" by (rule s)
  have dots: "''..'' \<notin> set ?parts" using assms(3) digest_names [OF assms(4)] uuid_str_names [of project, symmetric] by auto
  from atomic_write_there [OF w plain_Nil assms(2) dots]
  have "plain fs' ?parts" "fs' (source_path st project ?d) = Some (FileNode content)" by (simp_all add: source_path_def)
  then show "int (length content) \<le> limit \<Longrightarrow> verified_content lib st project ?d limit fs' = (Inr content, fs')"
    using verified_content_ok assms(4) by blast
qed

lemma verified_content_state: "snd (verified_content lib st project digest limit fs) = fs"
  by (simp add: verified_content_def Let_def split: option.split sum.split)

lemma verified_content_digest: "verified_content lib st project digest limit fs = (Inr content, fs') \<Longrightarrow> sb_sha256 lib content = digest \<and> int (length content) \<le> limit"
  by (auto simp: verified_content_def Let_def split: option.splits sum.splits if_splits)

lemma entrypoint_ok:
  assumes "entrypoint v = Inr relative"
  shows "relative \<noteq> [] \<and> ''..'' \<notin> set relative \<and> path_str relative = v \<and> relative = posix_parts v"
  using assms by (auto simp: entrypoint_def path_name_def Let_def split: if_splits)

lemma archive_entries_unverified: "archive_entries lib content True = Inr entries \<Longrightarrow> archive_entries lib content False = Inr entries"
  by (auto simp: archive_entries_def split: sum.splits)

lemma not_host: "version \<in> {''v1'', ''v2''} \<Longrightarrow> take 12 (source_reference project d version) \<noteq> ''host-source:''"
  by (auto simp: source_reference_def)

text \<open>A workspace that was just made: a directory with nothing in it.\<close>

definition empty_dir :: "path \<Rightarrow> filesys \<Rightarrow> bool" where
  "empty_dir base fs \<longleftrightarrow> plain fs base \<and> (\<forall>q. q \<noteq> [] \<longrightarrow> fs (base @ q) = None)"

lemma empty_dir_linkless: "empty_dir base fs \<Longrightarrow> linkless base fs"
  by (simp add: empty_dir_def linkless_def)

section \<open>Materializing a source\<close>

lemma place_archive_confined:
  assumes "place_archive lib base relative content fs = (x, fs')" "plain fs base"
  shows "confined base fs fs' \<and> (\<forall>t. x = Inr t \<longrightarrow> t = base @ relative \<and> (\<exists>entries. archive_entries lib content False = Inr entries \<and>
     path_str relative \<in> set (dkeys entries) \<and> unpacked base entries fs' \<and> unpacked_bytes entries \<le> MAX_ARCHIVE_EXPANDED_BYTES))"
proof (cases "archive_entries lib content False")
  case (Inl e)
  with assms(1) show ?thesis by (auto simp: place_archive_def extract_archive_def bind_def)
next
  case (Inr entries)
  obtain y fs1 where y: "extract_entries base 0 entries fs = (y, fs1)" by force
  have c: "confined base fs fs1 \<and> (y = Inr () \<longrightarrow> unpacked base entries fs1 \<and> unpacked_bytes entries \<le> MAX_ARCHIVE_EXPANDED_BYTES)"
    using extract_entries_confined [OF y assms(2) archive_entries_safe [OF Inr]] by (simp add: MAX_ARCHIVE_EXPANDED_BYTES_def)
  have "(x, fs') = (case y of Inl e \<Rightarrow> (Inl e, fs1) | Inr _ \<Rightarrow>
      (if path_str relative \<notin> set (dkeys entries) then Inl SourceStoreError else Inr (base @ relative), fs1))"
    using assms(1) y Inr
    by (cases y; cases "path_str relative \<in> set (dkeys entries)") (simp_all add: place_archive_def extract_archive_def bind_def)
  with c Inr show ?thesis by (auto split: sum.splits if_splits)
qed

lemma walk_lenient_empty:
  "\<forall>q. q \<noteq> [] \<longrightarrow> fs (base @ q) = None \<Longrightarrow> ''..'' \<notin> set parts \<Longrightarrow> walk_lenient n fs (base @ q) parts = Some (base @ q @ parts)"
  by (induction parts arbitrary: q) auto

lemma mkdirs_empty:
  "plain fs (base @ q) \<Longrightarrow> \<forall>r. r \<noteq> [] \<longrightarrow> fs (base @ q @ r) = None \<Longrightarrow> ''..'' \<notin> set parts \<Longrightarrow>
     \<exists>fs'. mkdirs_below (base @ q) parts fs = (Inr (), fs') \<and> (\<forall>p. length (base @ q @ parts) < length p \<longrightarrow> fs' p = fs p)"
proof (induction parts arbitrary: q fs)
  case (Cons p parts)
  have n: "fs ((base @ q) @ [p]) = None" "p \<noteq> ''..''" using Cons.prems by auto
  then have "\<not> path_exists fs ((base @ q) @ [p])" "\<not> is_symlink fs ((base @ q) @ [p])"
    using plain_present(1) [OF Cons.prems(1) n(2)] by auto
  then have "mkdir ((base @ q) @ [p]) fs = (Inr (), fs((base @ q) @ [p] \<mapsto> DirNode))"
    using mkdir_plain(1) [OF Cons.prems(1) n(2)] n(1) by simp
  then have m: "mkdir (base @ q @ [p]) fs = (Inr (), fs(base @ q @ [p] \<mapsto> DirNode))" by simp
  define fs1 where "fs1 = fs(base @ q @ [p] \<mapsto> DirNode)"
  have "plain fs1 (base @ q @ [p])"
    using plain_create [OF Cons.prems(1) n(1), of DirNode] n(2) plain_snoc [of fs1 "base @ q" p] by (simp add: fs1_def)
  moreover have "\<forall>r. r \<noteq> [] \<longrightarrow> fs1 (base @ (q @ [p]) @ r) = None" using Cons.prems(2) by (simp add: fs1_def)
  ultimately obtain fs' where f: "mkdirs_below (base @ q @ [p]) parts fs1 = (Inr (), fs')"
      "\<forall>r. length (base @ q @ [p] @ parts) < length r \<longrightarrow> fs' r = fs1 r"
    using Cons.IH [where q = "q @ [p]" and fs = fs1] Cons.prems(3) by auto
  have "fs1 r = fs r" if "length (base @ q @ p # parts) < length r" for r using that by (auto simp: fs1_def)
  with f m show ?case by (simp add: bind_def fs1_def [symmetric])
qed simp

lemma mkdirs_empty_dir:
  assumes "empty_dir base fs" "''..'' \<notin> set parts"
  shows "\<exists>fs1. mkdirs (base @ parts) fs = (Inr (), fs1) \<and> confined base fs fs1 \<and> plain fs1 (base @ parts) \<and>
     (\<forall>p. length (base @ parts) < length p \<longrightarrow> fs1 p = fs p)"
proof -
  obtain fs1 where y: "mkdirs (base @ parts) fs = (Inr (), fs1)" "\<forall>p. length (base @ parts) < length p \<longrightarrow> fs1 p = fs p"
    using mkdirs_empty [of fs base "[]" parts] mkdirs_plain [of fs "[]" base] assms
    by (auto simp: empty_dir_def mkdirs_def mkdirs_append bind_def)
  then show ?thesis using mkdirs_base [OF y(1) _ empty_dir_linkless [OF assms(1)] assms(2)] assms(1) by (auto simp: empty_dir_def)
qed

lemma atomic_write_empty:
  assumes "empty_dir base fs" "''..'' \<notin> set parts" "x \<noteq> ''..''"
  shows "\<exists>fs'. atomic_write (base @ parts @ [x]) content fs = (Inr (), fs') \<and> confined base fs fs'"
proof -
  obtain fs1 where y: "mkdirs (base @ parts) fs = (Inr (), fs1)" "confined base fs fs1" "plain fs1 (base @ parts)"
      "\<forall>p. length (base @ parts) < length p \<longrightarrow> fs1 p = fs p"
    using mkdirs_empty_dir [OF assms(1,2)] by blast
  have n: "fs (base @ parts @ [x]) = None" using assms(1) by (simp add: empty_dir_def)
  then have "atomic_write ((base @ parts) @ [x]) content fs = (Inr (), fs1((base @ parts) @ [x] \<mapsto> FileNode content))"
    unfolding atomic_write_def bind_def butlast_snoc y(1) using replace_plain [OF y(3), of x content] y(4) by simp
  then show ?thesis using confined_put [OF y(2) n] assms(2,3) by auto
qed

lemma place_file_confined:
  assumes "empty_dir base fs" "relative \<noteq> []" "''..'' \<notin> set relative"
  shows "\<exists>fs'. place_file base relative content fs = (Inr (base @ relative), fs') \<and> confined base fs fs' \<and>
     fs' (base @ relative) = Some (FileNode content)"
proof -
  let ?parts = "butlast relative" and ?last = "last relative"
  have base: "plain fs base" "linkless base fs" "fs (base @ relative) = None" using assms(1,2) empty_dir_linkless by (auto simp: empty_dir_def)
  have d: "butlast (base @ relative) = base @ ?parts" "last (base @ relative) = ?last" "base @ relative = (base @ ?parts) @ [?last]"
    using assms(2) by (simp_all add: butlast_append)
  have dots: "''..'' \<notin> set ?parts" using assms(3) in_set_butlastD by metis
  have "walk_lenient LINK_LIMIT fs [] (base @ ?parts) = Some (base @ ?parts)"
    using walk_lenient_plain [of fs "[]" base LINK_LIMIT ?parts] walk_lenient_empty [of fs base ?parts LINK_LIMIT "[]"] assms(1) dots
    by (simp add: empty_dir_def)
  then have r: "resolve_lenient (base @ ?parts) fs = (Inr (base @ ?parts), fs)" by (simp add: resolve_lenient_def)
  obtain fs1 where y: "mkdirs (base @ ?parts) fs = (Inr (), fs1)" "\<forall>p. length (base @ ?parts) < length p \<longrightarrow> fs1 p = fs p"
      and c: "confined base fs fs1" "plain fs1 (base @ ?parts)"
    using mkdirs_empty_dir [OF assms(1) dots] by blast
  have l: "\<not> is_symlink fs1 (base @ relative)"
    unfolding d(3) plain_symlink [OF c(2)] using linkless_confined [OF c(1) base(2)] assms(2) by (auto simp: linkless_def)
  have m: "mkdirs (base @ ?parts) fs1 = (Inr (), fs1)" using mkdirs_plain [of fs1 "[]" "base @ ?parts"] c(2) by (simp add: mkdirs_def)
  have "fs1 (base @ relative) \<noteq> Some DirNode" using y(2) base(3) assms(2) by (simp add: length_greater_0_conv)
  then have "atomic_write ((base @ ?parts) @ [?last]) content fs1 = (Inr (), fs1(base @ relative \<mapsto> FileNode content))"
    unfolding atomic_write_def bind_def butlast_snoc m using replace_plain [OF c(2), of ?last content] d(3) by simp
  then have "place_file base relative content fs = (Inr (base @ relative), fs1(base @ relative \<mapsto> FileNode content))"
    using assms(2) l y(1) by (auto simp: place_file_def Let_def d(1,2) r bind_def is_relative_to_def)
  moreover have "confined base fs (fs1(base @ relative \<mapsto> FileNode content))" by (rule confined_put [OF c(1) base(3) assms(2,3)])
  ultimately show ?thesis by auto
qed

text \<open>Everything before the workspace is touched.\<close>

lemma materialize_steps:
  assumes "materialize_source lib st project ref digest entry ws fs = (x, fs')" "plain fs ws"
  shows "(fs' = fs \<and> isl x) \<or> (\<exists>version relative content. ref = source_reference project digest version \<and> version \<in> {''v1'', ''v2''} \<and>
     entrypoint entry = Inr relative \<and> sb_sha256 lib content = digest \<and> int (length content) \<le> source_limit st version \<and>
     (if version = ''v2'' then place_archive lib ws relative content else place_file ws relative content) fs = (x, fs'))"
proof (cases "parse_source_ref ref")
  case (Inl e)
  with assms(1) show ?thesis by (auto simp: materialize_source_def bind_def)
next
  case (Inr v)
  obtain version p d where v: "v = (version, p, d)" by (cases v)
  note ref = parse_source_ref_exact [OF Inr [unfolded v]]
  show ?thesis
  proof (cases "p = project \<and> digest_pattern digest \<and> digest = d \<and> \<not> isl (entrypoint entry)")
    case False
    have "isl (fst (materialize_source lib st project ref digest entry ws fs))"
      using False Inr v by (cases "entrypoint entry") (auto simp: materialize_source_def bind_def guard_def)
    moreover have "snd (materialize_source lib st project ref digest entry ws fs) = fs"
      using False Inr v by (cases "entrypoint entry") (auto simp: materialize_source_def bind_def guard_def)
    ultimately show ?thesis using assms(1) by auto
  next
    case True
    then have t: "p = project" "digest_pattern digest" "d = digest" by auto
    from True obtain relative where rel: "entrypoint entry = Inr relative" by (cases "entrypoint entry") auto
    obtain z where z: "verified_content lib st project digest (source_limit st version) fs = (z, fs)"
      using verified_content_state [of lib st project digest "source_limit st version" fs] by (metis prod.collapse)
    have m: "mkdirs ws fs = (Inr (), fs)" using mkdirs_plain [of fs "[]" ws] assms(2) by (simp add: mkdirs_def)
    show ?thesis
    proof (cases z)
      case (Inl e)
      with assms(1) Inr v t rel z have "(x, fs') = (Inl e, fs)" by (simp add: materialize_source_def bind_def)
      then show ?thesis by simp
    next
      case zr: (Inr content)
      with assms Inr v t rel z m
      have "(if version = ''v2'' then place_archive lib ws relative content else place_file ws relative content) fs = (x, fs')"
        by (simp add: materialize_source_def bind_def)
      moreover note verified_content_digest [OF z [unfolded zr]]
      ultimately show ?thesis using ref t rel by blast
    qed
  qed
qed

section \<open>Demonstration\<close>

text \<open>A toy digest that is hexadecimal, an archive whose only member is named \<open>.\<close>, and a disk with the directories \<open>/store\<close> and \<open>/ws\<close>.\<close>

definition dot_info :: ZipInfo where
  "dot_info = \<lparr>zi_filename = ''.'', zi_external_attr = 0, zi_flag_bits = 0, zi_file_size = 2, zi_chunks = [''ab''], zi_broken = None\<rparr>"

definition demo_lib :: SourceLib where
  "demo_lib = \<lparr>sb_sha256 = (\<lambda>_. replicate 64 (CHR ''3'')), sb_casefold = lower,
     sb_infolist = (\<lambda>c. if c = ''zip'' then Inr [dot_info] else Inl (OtherException ''BadZipFile''))\<rparr>"

definition demo_disk :: filesys where
  "demo_disk = [[''store''] \<mapsto> DirNode, [''ws''] \<mapsto> DirNode]"

definition demo_store :: SourceStore where
  "demo_store = \<lparr>ss_root = [''store''], ss_maximum_bytes = 100, ss_host_enabled = False, ss_host_roots = []\<rparr>"

lemma demo_made: "make_source_store [''store''] 100 False [] demo_disk = (Inr demo_store, demo_disk)"
  by (simp add: make_source_store_def bind_def MAX_SOURCE_BYTES_def resolve_lenient_def demo_disk_def demo_store_def)

lemma demo_disk_facts: "linkless [] demo_disk" "plain demo_disk [''store'']" "empty_dir [''ws''] demo_disk"
  by (auto simp: linkless_def demo_disk_def empty_dir_def plain_def le_Suc_eq)

lemma demo_digest: "digest_pattern (sb_sha256 demo_lib c)"
  by (simp add: demo_lib_def digest_pattern_def list_all_iff hex_lower_def)

lemma demo_dot_accepted: "archive_entries demo_lib ''zip'' True = Inr [(''.'', dot_info)]"
  by (simp add: archive_entries_def demo_lib_def scan_info_def dot_info_def archive_path_def posix_parts_def path_str_def is_absolute_def
      has_control_def ends_with_slash_def Let_def s_ifmt_def S_IFLNK_def MAX_ARCHIVE_FILES_def MAX_ARCHIVE_EXPANDED_BYTES_def
      parent_clash.simps)

definition demo_put :: "StoredSource res \<times> filesys" where
  "demo_put = put_source demo_lib demo_store 7 ''abc'' demo_disk"

lemma demo_put_ok: "\<exists>s fs'. demo_put = (Inr s, fs') \<and> empty_dir [''ws''] fs'"
proof -
  have d: "sb_sha256 demo_lib (utf8_encode ''abc'') = replicate 64 (CHR ''3'')" by (simp add: demo_lib_def)
  have e: "empty_dir [''store''] demo_disk" using demo_disk_facts(2) by (auto simp: empty_dir_def demo_disk_def)
  have dots: "''..'' \<notin> set [uuid_str 7, take 2 (replicate 64 (CHR ''3''))]" "replicate 64 (CHR ''3'') \<noteq> ''..''"
    using uuid_str_names [of 7, symmetric] digest_names [OF demo_digest [of "utf8_encode ''abc''"]] unfolding d by auto
  obtain fs' where w: "atomic_write ([''store''] @ [uuid_str 7, take 2 (replicate 64 (CHR ''3''))] @ [replicate 64 (CHR ''3'')])
      (utf8_encode ''abc'') demo_disk = (Inr (), fs')" "confined [''store''] demo_disk fs'"
    using atomic_write_empty [OF e dots] by blast
  have "fs' ([''ws''] @ q) = demo_disk ([''ws''] @ q)" for q
    using w(2) unfolding confined_def by (elim allE [of _ "[''ws''] @ q"]) auto
  then have "empty_dir [''ws''] fs'"
    using confined_plain [OF w(2)] demo_disk_facts(3) by (simp add: empty_dir_def)
  moreover have "length (utf8_encode ''abc'') \<le> 100" by code_simp
  ultimately show ?thesis
    using w(1) by (auto simp: demo_put_def put_source_def put_bytes_def Let_def d bind_def demo_store_def source_path_def)
qed

text \<open>A project \<open>/host/p\<close> with an interpreter and a test, and its registered metadata.\<close>

definition demo_host_disk :: filesys where
  "demo_host_disk = [[''host''] \<mapsto> DirNode, [''host'', ''p''] \<mapsto> DirNode, [''host'', ''p'', ''py''] \<mapsto> FileNode ''#'',
     [''host'', ''p'', ''t.py''] \<mapsto> FileNode ''pass'', [''store''] \<mapsto> DirNode, [''store'', uuid_str 7] \<mapsto> DirNode,
     [''store'', uuid_str 7, ''host''] \<mapsto> DirNode, [''store'', uuid_str 7, ''host'', ''33''] \<mapsto> DirNode,
     [''store'', uuid_str 7, ''host'', ''33'', replicate 64 (CHR ''3'') @ ''.json''] \<mapsto> FileNode ''m'']"

definition demo_host_lib :: HostLib where
  "demo_host_lib = \<lparr>hl_dumps = (\<lambda>_. ''m''), hl_loads = (\<lambda>_. Inr (host_metadata [''host'', ''p''] [''host'', ''p'', ''py'']))\<rparr>"

definition demo_host_store :: SourceStore where
  "demo_host_store = \<lparr>ss_root = [''store''], ss_maximum_bytes = 100, ss_host_enabled = True, ss_host_roots = [[''host'']]\<rparr>"

lemma demo_host_plain: "plain demo_host_disk [''store'', uuid_str 7, ''host'', ''33'']" "plain demo_host_disk [''host'', ''p'']"
  using uuid_str_names [of 7, symmetric] by (auto simp: plain_def demo_host_disk_def le_Suc_eq numeral_eq_Suc)

lemma demo_host_metadata:
  "verified_host_metadata demo_lib demo_host_lib demo_host_store 7 (replicate 64 (CHR ''3'')) demo_host_disk = Inr (''/host/p'', ''/host/p/py'')"
proof -
  let ?p = "[''store'', uuid_str 7, ''host'', ''33'']" and ?x = "replicate 64 (CHR ''3'') @ ''.json''"
  have s: "host_source_path demo_host_store 7 (replicate 64 (CHR ''3'')) = ?p @ [?x]"
    by (simp add: host_source_path_def demo_host_store_def numeral_eq_Suc)
  have n: "demo_host_disk (?p @ [?x]) = Some (FileNode ''m'')" by (simp add: demo_host_disk_def)
  have x: "?x \<noteq> ''..''" by (simp add: numeral_eq_Suc)
  have "read_file demo_host_disk (?p @ [?x]) = Inr ''m''" "\<not> is_symlink demo_host_disk (?p @ [?x])"
    using resolve_plain_snoc [OF demo_host_plain(1) x] plain_symlink [OF demo_host_plain(1), of ?x] n by (simp_all add: read_file_def)
  moreover have "ss_host_enabled demo_host_store" by (simp add: demo_host_store_def)
  ultimately show ?thesis
    by (simp add: verified_host_metadata_def s Let_def demo_host_lib_def demo_lib_def host_metadata_def metadata_fields_def abs_path_str_def)
qed

lemma demo_host_file:
  assumes "x \<noteq> ''..''" "demo_host_disk [''host'', ''p'', x] = Some (FileNode c)"
  shows "resolve_strict demo_host_disk [''host'', ''p'', x] = Some [''host'', ''p'', x]"
    "is_file demo_host_disk [''host'', ''p'', x]" "\<not> is_symlink demo_host_disk [''host'', ''p'', x]"
  using resolve_plain_snoc [OF demo_host_plain(2) assms(1)] plain_symlink [OF demo_host_plain(2), of x] assms(2)
  by (simp_all add: is_file_def)

lemma demo_host_files:
  "host_directory demo_host_store ''/host/p'' demo_host_disk = Inr [''host'', ''p'']"
  "host_interpreter ''/host/p/py'' [''host'', ''p''] demo_host_disk = Inr [''host'', ''p'', ''py'']"
proof -
  have t: "\<not> bad_host_text ''/host/p''" "\<not> bad_host_text ''/host/p/py''" by code_simp+
  have p: "posix_parts ''/host/p'' = [''host'', ''p'']" "posix_parts ''/host/p/py'' = [''host'', ''p'', ''py'']" by code_simp+
  have n: "demo_host_disk [''host'', ''p'', ''py''] = Some (FileNode ''#'')" "demo_host_disk [''host'', ''p''] = Some DirNode"
    by (simp_all add: demo_host_disk_def)
  have "plain demo_host_disk [''host'']" using plain_append [of demo_host_disk "[''host'']" "[''p'']"] demo_host_plain(2) by simp
  then have l: "\<not> is_symlink demo_host_disk [''host'', ''p'']" using plain_symlink [of demo_host_disk "[''host'']" "''p''"] n(2) by simp
  show "host_directory demo_host_store ''/host/p'' demo_host_disk = Inr [''host'', ''p'']"
    using t l demo_host_plain(2) by (simp add: host_directory_def host_candidate_def p is_absolute_def demo_host_store_def is_relative_to_def)
  show "host_interpreter ''/host/p/py'' [''host'', ''p''] demo_host_disk = Inr [''host'', ''p'', ''py'']"
    using t demo_host_file [OF _ n(1)] by (simp add: host_interpreter_def host_candidate_def p is_absolute_def is_relative_to_def)
qed

lemma demo_host_resolves:
  "resolve_host_reference demo_lib demo_host_lib demo_host_store 7 (host_reference 7 (replicate 64 (CHR ''3''))) (replicate 64 (CHR ''3''))
     ''t.py'' demo_host_disk = Inr \<lparr>hs_project_directory = [''host'', ''p''], hs_python_executable = [''host'', ''p'', ''py'']\<rparr>"
proof -
  have "parse_host_reference (host_reference 7 (replicate 64 (CHR ''3''))) = Inr (7, replicate 64 (CHR ''3''))"
    using parse_host_ref_ok [of 7] demo_digest by (simp add: demo_lib_def)
  moreover have "entrypoint ''t.py'' = Inr [''t.py'']" by code_simp
  moreover have "demo_host_disk [''host'', ''p'', ''t.py''] = Some (FileNode ''pass'')" by (simp add: demo_host_disk_def)
  ultimately show ?thesis
    using demo_host_metadata demo_host_files demo_host_file [of "''t.py''"] by (simp add: resolve_host_reference_def is_relative_to_def)
qed

section \<open>Properties\<close>

text \<open>C15. A stored source comes back. When \<open>put\<close> has stored a text, its reference is valid for every safe entrypoint, and materializing it in
  an empty workspace always succeeds: the entrypoint is then a file with exactly the bytes of the text, and nothing outside the
  workspace has changed. (The digest is a hexadecimal string of 64 digits, and there are no links on the disk before.)\<close>

theorem stored_source_materializes:
  assumes "make_source_store given maximum enabled host_roots fs0 = (Inr st, fs0')" "linkless [] fs" "project < 2 ^ 128"
    and "\<And>c. digest_pattern (sb_sha256 lib c)"
    and "put_source lib st project content fs = (Inr s, fs1)" "entrypoint entry = Inr relative" "empty_dir ws fs1"
  shows "validate_source lib hl st project (sr_source_ref s) (sr_content_digest s) entry fs1 = (Inr (), fs1) \<and>
    (\<exists>fs2. materialize_source lib st project (sr_source_ref s) (sr_content_digest s) entry ws fs1 = (Inr (ws @ relative), fs2) \<and>
      fs2 (ws @ relative) = Some (FileNode (utf8_encode content)) \<and> confined ws fs1 fs2)"
proof -
  let ?c = "utf8_encode content" and ?d = "sb_sha256 lib (utf8_encode content)"
  have put: "put_bytes lib st project ?c ''v1'' fs = (Inr s, fs1)" and len: "int (length ?c) \<le> ss_maximum_bytes st"
    using assms(5) by (auto simp: put_source_def Let_def bind_def guard_def split: if_splits)
  note there = put_bytes_there [OF put assms(2) make_store_root [OF assms(1)] assms(4)]
  have v: "verified_content lib st project ?d (source_limit st ''v1'') fs1 = (Inr ?c, fs1)"
    by (rule there(2)) (simp add: source_limit_def len)
  have p: "parse_source_ref (source_reference project ?d ''v1'') = Inr (''v1'', project, ?d)"
    by (rule parse_source_reference [OF assms(3,4)]) simp
  have "plain fs1 ws" using assms(7) by (simp add: empty_dir_def)
  then have m: "mkdirs ws fs1 = (Inr (), fs1)" "resolve_lenient ws fs1 = (Inr ws, fs1)"
    using mkdirs_plain [of fs1 "[]" ws] by (simp_all add: mkdirs_def)
  have "take 12 (source_reference project ?d ''v1'') \<noteq> ''host-source:''" by (rule not_host) simp
  then have "validate_source lib hl st project (source_reference project ?d ''v1'') ?d entry fs1 = (Inr (), fs1)"
    using p v assms(6) by (simp add: validate_source_def bind_def)
  moreover have "materialize_source lib st project (source_reference project ?d ''v1'') ?d entry ws fs1 = place_file ws relative ?c fs1"
    using p v m assms(4,6) by (simp add: materialize_source_def bind_def)
  moreover obtain fs2 where "place_file ws relative ?c fs1 = (Inr (ws @ relative), fs2)" "confined ws fs1 fs2"
      "fs2 (ws @ relative) = Some (FileNode ?c)"
    using place_file_confined [OF assms(7), of relative ?c] entrypoint_ok [OF assms(6)] by blast
  ultimately show ?thesis by (simp add: there(1))
qed

theorem stored_source_materializes_witness:
  "\<exists>s fs1 fs2. put_source demo_lib demo_store 7 ''abc'' demo_disk = (Inr s, fs1) \<and>
     materialize_source demo_lib demo_store 7 (sr_source_ref s) (sr_content_digest s) ''t/a.py'' [''ws''] fs1 = (Inr [''ws'', ''t'', ''a.py''], fs2) \<and>
     fs2 [''ws'', ''t'', ''a.py''] = Some (FileNode (utf8_encode ''abc''))"
proof -
  obtain s fs1 where put: "put_source demo_lib demo_store 7 ''abc'' demo_disk = (Inr s, fs1)" "empty_dir [''ws''] fs1"
    using demo_put_ok by (auto simp: demo_put_def)
  have e: "entrypoint ''t/a.py'' = Inr [''t'', ''a.py'']" by code_simp
  from stored_source_materializes [OF demo_made demo_disk_facts(1) _ demo_digest put(1) e put(2)] put(1) show ?thesis by fastforce
qed

text \<open>C14. Materializing never escapes the workspace, and never trusts what it reads. Whatever the reference, the stored bytes and the members
  of an archive, and whether it returns or raises: in an empty workspace it only adds files and directories below the workspace,
  changes no node and makes no link. When it returns, the reference names this project and this digest, the content has that
  digest, and the entrypoint is a file of the workspace: of that content, or of an archive whose members are all unpacked, with
  at most 50 MiB in all.\<close>

theorem materializing_stays_in_workspace:
  assumes "materialize_source lib st project ref digest entry ws fs = (x, fs')" "empty_dir ws fs"
  shows "confined ws fs fs' \<and> (\<forall>target. x = Inr target \<longrightarrow> (\<exists>version content. ref = source_reference project digest version \<and>
     sb_sha256 lib content = digest \<and> int (length content) \<le> source_limit st version \<and> target = ws @ posix_parts entry \<and>
     (version = ''v1'' \<and> fs' target = Some (FileNode content) \<or>
      version = ''v2'' \<and> (\<exists>entries info. archive_entries lib content False = Inr entries \<and> (entry, info) \<in> set entries \<and>
        fs' target = Some (FileNode (concat (zi_chunks info))) \<and> unpacked ws entries fs' \<and>
        unpacked_bytes entries \<le> MAX_ARCHIVE_EXPANDED_BYTES))))"
proof -
  have p: "plain fs ws" using assms(2) by (simp add: empty_dir_def)
  from materialize_steps [OF assms(1) p] show ?thesis
  proof (elim disjE exE conjE)
    fix version relative content
    assume v: "ref = source_reference project digest version" "version \<in> {''v1'', ''v2''}" "entrypoint entry = Inr relative"
      "sb_sha256 lib content = digest" "int (length content) \<le> source_limit st version"
      and step: "(if version = ''v2'' then place_archive lib ws relative content else place_file ws relative content) fs = (x, fs')"
    note rel = entrypoint_ok [OF v(3)]
    show ?thesis
    proof (cases "version = ''v2''")
      case True
      from place_archive_confined [OF _ p] step True
      have c: "confined ws fs fs'" and ok: "x = Inr t \<Longrightarrow> t = ws @ relative \<and> (\<exists>entries. archive_entries lib content False = Inr entries \<and>
          path_str relative \<in> set (dkeys entries) \<and> unpacked ws entries fs' \<and> unpacked_bytes entries \<le> MAX_ARCHIVE_EXPANDED_BYTES)" for t
        by auto
      have "\<exists>entries info. archive_entries lib content False = Inr entries \<and> (entry, info) \<in> set entries \<and>
          fs' (ws @ relative) = Some (FileNode (concat (zi_chunks info))) \<and> unpacked ws entries fs' \<and>
          unpacked_bytes entries \<le> MAX_ARCHIVE_EXPANDED_BYTES" if "x = Inr t" for t
        using ok [OF that] rel by (fastforce simp: unpacked_def)
      moreover have "target = ws @ posix_parts entry" if "x = Inr target" for target using ok [OF that] rel by simp
      ultimately show ?thesis using c v(1,4,5) rel True by (intro conjI allI impI exI [of _ version] exI [of _ content]) auto
    next
      case False
      then have "place_file ws relative content fs = (x, fs')" "version = ''v1''" using step v(2) by auto
      with place_file_confined [OF assms(2), of relative content] rel v show ?thesis by auto
    qed
  qed (auto simp: isl_def)
qed

theorem materializing_stays_in_workspace_witness:
  "confined [''ws''] demo_disk (snd (materialize_source demo_lib demo_store 7 (source_reference 7 (replicate 64 (CHR ''3'')) ''v2'')
     (replicate 64 (CHR ''3'')) ''t/a.py'' [''ws''] demo_disk))"
  using materializing_stays_in_workspace [OF prod.collapse [symmetric] demo_disk_facts(3)] by blast

text \<open>A project on the host never leaves the directories that were allowed. When a reference to a host project resolves, host execution is
  enabled, the project directory is a directory below one of the configured roots, and the interpreter and the entrypoint are
  files below the project directory.\<close>

theorem host_project_stays_in_roots:
  assumes "resolve_host_reference lib hl st project ref digest entry fs = Inr hs"
  shows "ss_host_enabled st \<and>
    (\<exists>allowed\<in>set (ss_host_roots st). \<exists>below. hs_project_directory hs = allowed @ below) \<and> is_dir fs (hs_project_directory hs) \<and>
    (\<exists>below. hs_python_executable hs = hs_project_directory hs @ below) \<and> is_file fs (hs_python_executable hs) \<and>
    (\<exists>below. resolve_strict fs (hs_project_directory hs @ posix_parts entry) = Some (hs_project_directory hs @ below) \<and>
       is_file fs (hs_project_directory hs @ below))"
proof -
  have rel: "is_relative_to a b \<Longrightarrow> \<exists>below. a = b @ below" for a b :: path
    unfolding is_relative_to_def by (metis append_take_drop_id)
  obtain directory interpreter v w relative resolved where
    h: "host_directory st v fs = Inr directory" "host_interpreter w directory fs = Inr interpreter" "entrypoint entry = Inr relative"
      "resolve_strict fs (directory @ relative) = Some resolved" "is_file fs resolved" "is_relative_to resolved directory"
      "hs = \<lparr>hs_project_directory = directory, hs_python_executable = interpreter\<rparr>"
    using assms by (auto simp: resolve_host_reference_def Let_def split: option.splits prod.splits)
  have "ss_host_enabled st" "is_dir fs directory" "\<exists>allowed\<in>set (ss_host_roots st). is_relative_to directory allowed"
    using h(1) by (auto simp: host_directory_def list_ex_iff)
  moreover have "is_file fs interpreter" "is_relative_to interpreter directory" using h(2) by (auto simp: host_interpreter_def)
  moreover obtain below where "resolved = directory @ below" using rel [OF h(6)] by blast
  moreover have "relative = posix_parts entry" using entrypoint_ok [OF h(3)] by simp
  ultimately show ?thesis using h(4,5) rel unfolding h(7) HostSource.simps by blast
qed

theorem host_project_stays_in_roots_witness:
  "\<exists>hs. resolve_host_reference demo_lib demo_host_lib demo_host_store 7 (host_reference 7 (replicate 64 (CHR ''3''))) (replicate 64 (CHR ''3''))
     ''t.py'' demo_host_disk = Inr hs \<and> is_file demo_host_disk (hs_python_executable hs)"
  using host_project_stays_in_roots [OF demo_host_resolves] demo_host_resolves by blast

text \<open>An archive with a member named \<open>.\<close> is accepted and can never be used. Such a path has no parts, so that none of them is
  refused when the archive is stored; unpacking it raises in every workspace.\<close>

theorem dot_member_never_unpacks:
  assumes "archive_entries lib content True = Inr entries" "''.'' \<in> set (dkeys entries)" "plain fs ws"
  shows "isl (fst (place_archive lib ws relative content fs))"
proof (rule ccontr)
  assume "\<not> isl (fst (place_archive lib ws relative content fs))"
  then obtain t where "fst (place_archive lib ws relative content fs) = Inr t"
    by (cases "fst (place_archive lib ws relative content fs)") auto
  with place_archive_confined [OF prod.collapse [symmetric] assms(3)] archive_entries_unverified [OF assms(1)]
  have "unpacked ws entries (snd (place_archive lib ws relative content fs))" by (metis sum.inject(2))
  then have "posix_parts ''.'' \<noteq> []" using assms(2) by (fastforce simp: unpacked_def)
  then show False by (simp add: posix_parts_def)
qed

theorem dot_member_never_unpacks_witness:
  "archive_entries demo_lib ''zip'' True = Inr [(''.'', dot_info)] \<and> isl (fst (place_archive demo_lib [''ws''] [''a.py''] ''zip'' demo_disk))"
  using dot_member_never_unpacks [OF demo_dot_accepted _ _] demo_dot_accepted demo_disk_facts(3) by (simp add: empty_dir_def)

end
