(* ===== verification/Docker_Facts.thy ===== *)
theory Docker_Facts
  imports Docker_Executor Source_Store_Facts
begin

text \<open>
  Properties of the Docker executor: which results it returns, and that its command line cannot be extended.
\<close>

section \<open>What the container wrote\<close>

definition event_messages :: "(string \<Rightarrow> Message res) \<Rightarrow> string list \<Rightarrow> EventEnvelope list" where
  "event_messages decode lines = concat (map (\<lambda>l. case decode l of Inr (EventMessage ev) \<Rightarrow> [ev] | _ \<Rightarrow> []) lines)"

definition result_messages :: "(string \<Rightarrow> Message res) \<Rightarrow> string list \<Rightarrow> ResultEnvelope list" where
  "result_messages decode lines = concat (map (\<lambda>l. case decode l of Inr (ResultMessage r) \<Rightarrow> [r] | _ \<Rightarrow> []) lines)"

definition well_formed_line :: "(string \<Rightarrow> Message res) \<Rightarrow> string \<Rightarrow> bool" where
  "well_formed_line decode line \<longleftrightarrow> line \<noteq> [] \<and> length line \<le> MAX_LINE \<and>
     (case decode line of Inr (EventMessage _) \<Rightarrow> True | Inr (ResultMessage _) \<Rightarrow> True | _ \<Rightarrow> False)"

definition option_list :: "'a option \<Rightarrow> 'a list" where
  "option_list x = (case x of None \<Rightarrow> [] | Some y \<Rightarrow> [y])"

lemma line_cases:
  obtains (bad) e where "\<And>lines result k. read_stdout decode (line # lines) result k = k (Some e) result"
  | (event) ev where "well_formed_line decode line" "decode line = Inr (EventMessage ev)"
  | (result) r where "well_formed_line decode line" "decode line = Inr (ResultMessage r)"
proof (cases "well_formed_line decode line")
  case True
  then show ?thesis using that(2,3) by (auto simp: well_formed_line_def split: sum.splits Message.splits)
next
  case False
  then have "\<exists>e. \<forall>lines result k. read_stdout decode (line # lines) result k = k (Some e) result"
    by (auto simp: well_formed_line_def split: sum.splits Message.splits)
  then show ?thesis using that(1) by blast
qed

text \<open>The reader ends with an error, or has passed on every line.\<close>

lemma read_stdout_deliver:
  "deliver answers (read_stdout decode lines result k) n = (events, x) \<Longrightarrow>
     \<exists>error result' evs rest m. events = evs @ rest \<and> deliver answers (k error result') m = (rest, x) \<and>
       (error = None \<longrightarrow> list_all (well_formed_line decode) lines \<and> evs = event_messages decode lines \<and>
          option_list result' = option_list result @ result_messages decode lines)"
proof (induction lines arbitrary: result n events)
  case Nil
  then show ?case by (intro exI [of _ None] exI [of _ result] exI [of _ "[]"] exI [of _ events] exI [of _ n])
      (simp add: event_messages_def result_messages_def)
next
  case (Cons line lines)
  let ?goal = "\<exists>error result' evs rest m. events = evs @ rest \<and> deliver answers (k error result') m = (rest, x) \<and>
       (error = None \<longrightarrow> list_all (well_formed_line decode) (line # lines) \<and> evs = event_messages decode (line # lines) \<and>
          option_list result' = option_list result @ result_messages decode (line # lines))"
  have stop: ?goal if "deliver answers (k (Some e) result) m = (events, x)" for e m
    using that by (intro exI [of _ "Some e"] exI [of _ result] exI [of _ "[]"] exI [of _ events] exI [of _ m]) simp
  show ?case
  proof (cases rule: line_cases [of decode line])
    case (bad e)
    with Cons.prems stop show ?thesis by simp
  next
    case (event ev)
    then have step: "read_stdout decode (line # lines) result k =
        Emit ev (\<lambda>r. case r of None \<Rightarrow> read_stdout decode lines result k | Some e \<Rightarrow> k (Some e) result)"
      by (auto simp: well_formed_line_def)
    show ?thesis
    proof (cases "answers n")
      case (Some e)
      with Cons.prems step stop [of e "n + 1"] show ?thesis by (auto simp: case_prod_beta)
    next
      case None
      then obtain tail where t: "deliver answers (read_stdout decode lines result k) (n + 1) = (tail, x)" "events = ev # tail"
        using Cons.prems step by (auto simp: case_prod_beta prod_eq_iff)
      from Cons.IH [OF t(1)] show ?thesis
        using event t(2) by (elim exE conjE) (rule exI, rule exI, rule exI [of _ "ev # _"], rule exI, rule exI,
            auto simp: event_messages_def result_messages_def)
    qed
  next
    case (result r)
    then have step: "read_stdout decode (line # lines) result k =
        (if result = None then read_stdout decode lines (Some r) k else k (Some DockerExecutionError) result)" for result
      by (auto simp: well_formed_line_def)
    show ?thesis
    proof (cases "result = None")
      case True
      then have "deliver answers (read_stdout decode lines (Some r) k) n = (events, x)" using Cons.prems step by simp
      from Cons.IH [OF this] show ?thesis
        using result True by (elim exE conjE) (rule exI, rule exI, rule exI, rule exI, rule exI,
            auto simp: event_messages_def result_messages_def option_list_def)
    next
      case False
      then have "deliver answers (k (Some DockerExecutionError) result) n = (events, x)"
        using Cons.prems unfolding step by (simp only: False if_False)
      then show ?thesis by (rule stop)
    qed
  qed
qed

section \<open>What the executor makes of it\<close>

text \<open>The process did all it should: it started, took its task, wrote lines of the transport only, and ended with code 0.\<close>

definition ran_well :: "(string \<Rightarrow> Message res) \<Rightarrow> DockerProcess \<Rightarrow> bool" where
  "ran_well decode process \<longleftrightarrow> dp_starts process \<and> dp_takes_task process \<and> dp_streams_close process \<and>
     dp_exit_code process = Some 0 \<and> list_all (well_formed_line decode) (dp_lines process)"

definition own_verdict :: "DockerEnv \<Rightarrow> TaskEnvelope \<Rightarrow> ResultEnvelope \<Rightarrow> bool" where
  "own_verdict env task r \<longleftrightarrow>
     (\<exists>reason. r = docker_terminal env task O_TIMED_OUT reason \<or> r = docker_terminal env task O_INFRA_ERROR reason)"

lemma conclude_returns:
  assumes "deliver answers (docker_conclude env task runtime result) m = (rest, Inr r)"
  shows "rest = [] \<and> (\<exists>rn. runtime = Inr rn \<and> (own_verdict env task r \<or> \<not> rn_timed_out rn \<and> rn_exit_code rn = 0 \<and> result = Some r))"
  using assms by (auto simp: docker_conclude_def own_verdict_def split: sum.splits if_splits option.splits)

definition passes_on :: "DockerEnv \<Rightarrow> TaskEnvelope \<Rightarrow> (DockerRunResult res \<Rightarrow> ResultEnvelope option \<Rightarrow> exec_tree) \<Rightarrow> bool" where
  "passes_on env task k \<longleftrightarrow> (\<forall>runtime result. k runtime result = docker_conclude env task runtime result \<or>
     k runtime result = Crash DockerExecutionError)"

lemma run_container_returns:
  assumes "deliver answers (run_container dx env task spool secrets k) n = (events, Inr r)" "passes_on env task k"
  shows "\<exists>runtime result m rest. deliver answers (k runtime result) m = (rest, Inr r)"
    and "own_verdict env task r \<or> (let process = de_process env (docker_spec dx task spool secrets) in
     ran_well (de_decode env) process \<and> result_messages (de_decode env) (dp_lines process) = [r] \<and>
     events = event_messages (de_decode env) (dp_lines process))"
proof -
  let ?p = "de_process env (docker_spec dx task spool secrets)"
  have k: "rest = [] \<and> (\<exists>rn. runtime = Inr rn \<and> (own_verdict env task r \<or> \<not> rn_timed_out rn \<and> rn_exit_code rn = 0 \<and> result = Some r))"
    if "deliver answers (k runtime result) m = (rest, Inr r)" for runtime result m rest
  proof -
    from assms(2) [unfolded passes_on_def, rule_format, of runtime result] that show ?thesis
      by (elim disjE) (simp_all add: conclude_returns)
  qed
  have no_error: False if "deliver answers (k (Inl e) result) m = (rest, Inr r)" for e result m rest using k [OF that] by simp
  let ?c = "docker_command (de_executable env) (de_fs env) (docker_spec dx task spool secrets)"
  have run: "deliver answers (client_run (de_decode env) ?c ?p k) n = (events, Inr r)"
    using assms(1) no_error by (auto simp: run_container_def Let_def split: if_splits)
  then have starts: "dp_starts ?p" and "\<not> isl ?c" using no_error by (auto simp: client_run_def split: sum.splits if_splits)
  let ?rn = "case dp_exit_code ?p of None \<Rightarrow> \<lparr>rn_exit_code = - 1, rn_timed_out = True\<rparr>
        | Some code \<Rightarrow> \<lparr>rn_exit_code = code, rn_timed_out = False\<rparr>"
  define k' where "k' = (\<lambda>error result. if \<not> dp_takes_task ?p \<or> \<not> dp_streams_close ?p \<or> error \<noteq> (None :: exn option)
      then k (Inl DockerExecutionError) result else k (Inr ?rn) result)"
  have "deliver answers (read_stdout (de_decode env) (dp_lines ?p) None k') n = (events, Inr r)"
    using run starts \<open>\<not> isl ?c\<close> unfolding k'_def by (cases ?c) (auto simp: client_run_def)
  from read_stdout_deliver [OF this] obtain error result evs rest m where
    d: "events = evs @ rest" "deliver answers (k' error result) m = (rest, Inr r)"
      "error = None \<longrightarrow> list_all (well_formed_line (de_decode env)) (dp_lines ?p) \<and> evs = event_messages (de_decode env) (dp_lines ?p) \<and>
         option_list result = option_list None @ result_messages (de_decode env) (dp_lines ?p)"
    by blast
  have well: "dp_takes_task ?p \<and> dp_streams_close ?p \<and> error = None"
  proof (rule ccontr)
    assume "\<not> ?thesis"
    then have "deliver answers (k (Inl DockerExecutionError) result) m = (rest, Inr r)" using d(2) unfolding k'_def by (simp only: de_Morgan_conj if_True)
    then show False by (rule no_error)
  qed
  then have "deliver answers (k (Inr ?rn) result) m = (rest, Inr r)" using d(2) unfolding k'_def by simp
  then show "\<exists>runtime result m rest. deliver answers (k runtime result) m = (rest, Inr r)" by blast
  note k [OF \<open>deliver answers (k (Inr ?rn) result) m = (rest, Inr r)\<close>]
  then have "rest = [] \<and> (own_verdict env task r \<or> dp_exit_code ?p = Some 0 \<and> result = Some r)"
    by (cases "dp_exit_code ?p") auto
  then show "own_verdict env task r \<or> (let process = ?p in
     ran_well (de_decode env) process \<and> result_messages (de_decode env) (dp_lines process) = [r] \<and>
     events = event_messages (de_decode env) (dp_lines process))"
    using d(1,3) well starts by (auto simp: ran_well_def option_list_def)
qed

lemma passes_on_error: "passes_on env task k \<Longrightarrow> deliver answers (k (Inl e) result) m \<noteq> (rest, Inr r)"
  using conclude_returns [of answers env task "Inl e" result m rest r] unfolding passes_on_def
  by (elim allE [of _ "Inl e"] allE [of _ result]) auto

abbreviation cleaning :: "DockerEnv \<Rightarrow> (DockerRunResult res \<Rightarrow> ResultEnvelope option \<Rightarrow> exec_tree) \<Rightarrow> DockerRunResult res \<Rightarrow> ResultEnvelope option \<Rightarrow> exec_tree" where
  "cleaning env k \<equiv> (\<lambda>runtime result. case de_cleaned env of Inl _ \<Rightarrow> k (Inl DockerExecutionError) result | Inr _ \<Rightarrow> k runtime result)"

lemma run_with_secrets_returns:
  assumes "deliver answers (run_with_secrets dx env task spool k) n = (events, Inr r)" "passes_on env task k"
  shows "\<not> isl (de_redeemed env) \<and>
    (\<exists>directory. deliver answers (run_container dx env task spool (Some directory) (cleaning env k)) n = (events, Inr r))"
  using assms(1) passes_on_error [OF assms(2)] by (auto simp: run_with_secrets_def split: sum.splits)

lemma conclude_passes_on: "passes_on env task (docker_conclude env task)"
  by (simp add: passes_on_def)

lemma cleanup_passes_on: "passes_on env task (cleaning env (docker_conclude env task))"
  by (auto simp: passes_on_def docker_conclude_def split: sum.split)

section \<open>The command line\<close>

abbreviation is_option :: "string \<Rightarrow> bool" where
  "is_option a \<equiv> take 1 a = ''-''"

lemma not_option: "v \<noteq> [] \<Longrightarrow> first (hd v) \<Longrightarrow> \<not> first (CHR ''-'') \<Longrightarrow> \<not> is_option v"
  by (cases v) auto

lemma alnum_dash: "\<not> alnum (CHR ''-'')" "\<not> ascii_digit (CHR ''-'')" "\<not> lower_letter (CHR ''-'')"
  by code_simp+

lemma safe_word_not_option: "safe_word first other n v \<Longrightarrow> \<not> first (CHR ''-'') \<Longrightarrow> \<not> is_option v"
  using not_option [of v first] by (simp add: safe_word_def)

lemma safe_cpus_not_option: "safe_cpus v \<Longrightarrow> \<not> is_option v"
  using not_option [of v ascii_digit] alnum_dash(2) by (cases v) (auto simp: safe_cpus_def Let_def split: if_splits)

lemma safe_memory_not_option: "safe_memory v \<Longrightarrow> \<not> is_option v"
  using not_option [of v ascii_digit] alnum_dash(2) by (simp add: safe_memory_def)

lemma digits_not_option: "\<not> is_option (digits n)" "digits n \<noteq> []"
proof -
  have "digits n \<noteq> [] \<and> ascii_digit (hd (digits n))"
  proof (induction n rule: digits.induct)
    case (1 n)
    show ?case
    proof (cases "n < 10")
      case True
      then show ?thesis by (subst (1 2) digits.simps) (simp add: ascii_digit_def)
    next
      case False
      with 1 show ?thesis by (subst (1 2) digits.simps) simp
    qed
  qed
  then show "\<not> is_option (digits n)" "digits n \<noteq> []" using not_option [of "digits n" ascii_digit] alnum_dash(2) by simp_all
qed

lemma pids_not_option: "0 < n \<Longrightarrow> \<not> is_option (show_int n)"
  using digits_not_option by (simp add: show_int_def)

lemma label_not_option: "safe_label (key, v) \<Longrightarrow> \<not> is_option (key @ ''='' @ v)"
  using safe_word_not_option alnum_dash(3) by (fastforce simp: safe_label_def safe_word_def Cons_eq_append_conv neq_Nil_conv)

lemma label_options:
  "list_all safe_label labels \<Longrightarrow> filter is_option (concat (map (\<lambda>(key, v). [''--label'', key @ ''='' @ v]) labels)) = replicate (length labels) ''--label''"
proof (induction labels)
  case (Cons label labels)
  then show ?case using label_not_option [of "fst label" "snd label"] by (cases label) simp
qed simp

lemma mount_not_option: "\<not> is_option (mount p t)"
  by (simp add: mount_def)

definition DOCKER_OPTIONS :: "string list" where
  "DOCKER_OPTIONS = [''--rm'', ''--interactive'', ''--name'', ''--read-only'', ''--user'', ''--cap-drop'', ''--security-opt'', ''--pids-limit'',
     ''--cpus'', ''--memory'', ''--memory-swap'', ''--network'', ''--tmpfs'', ''--mount'']"

definition safe_mount :: "filesys \<Rightarrow> path \<Rightarrow> bool" where
  "safe_mount fs p \<longleftrightarrow> is_dir fs p \<and> CHR '','' \<notin> set (abs_path_str p)"

lemma spec_directory_safe: "spec_directory fs p = Inr q \<Longrightarrow> safe_mount fs q"
  by (auto simp: spec_directory_def safe_mount_def list_ex_iff split: option.splits if_splits)

lemma validate_spec_safe:
  assumes "validate_spec fs spec = Inr (workspace, spool, secrets)"
  shows "safe_image (ds_image spec)" "safe_network (ds_network spec)" "safe_name (ds_name spec)" "safe_cpus (ds_cpus spec)"
    "safe_memory (ds_memory spec)" "0 < ds_pids_limit spec" "list_all safe_label (ds_labels spec)" "safe_mount fs workspace"
    "\<And>s. spool = Some s \<Longrightarrow> safe_mount fs s" "\<And>s. secrets = Some s \<Longrightarrow> safe_mount fs s \<and> \<not> overlaps s workspace \<and>
       (\<forall>p. spool = Some p \<longrightarrow> \<not> overlaps s p)"
    "spool = None \<longleftrightarrow> ds_artifact_spool spec = None" "secrets = None \<longleftrightarrow> ds_secret_directory spec = None"
  using assms spec_directory_safe
  by (auto simp: validate_spec_def spec_directory_opt_def split: option.splits)

section \<open>Demonstration\<close>

definition demo_docker :: DockerExecutor where
  "demo_docker = \<lparr>dx_image = ''runner:1'', dx_workspace = [''ws''], dx_network = ''none'', dx_spool_root = None, dx_secrets_configured = False\<rparr>"

definition demo_docker_env :: DockerEnv where
  "demo_docker_env = \<lparr>de_fs = demo_disk, de_executable = ''docker'',
     de_decode = (\<lambda>l. if l = ''e'' then Inr (EventMessage demo_event) else if l = ''r'' then Inr (ResultMessage (demo_result O_SUCCEEDED))
       else Inl ValueError),
     de_process = (\<lambda>_. \<lparr>dp_starts = True, dp_takes_task = True, dp_lines = [''e'', ''r''], dp_exit_code = Some 0, dp_streams_close = True\<rparr>),
     de_now = 0, de_completed_at = 1, de_spool_fresh = True, de_redeemed = Inl KeyError, de_staged = Inl KeyError, de_cleaned = Inr ()\<rparr>"

definition demo_spec :: DockerContainerSpec where
  "demo_spec = \<lparr>ds_image = ''runner:1'', ds_name = ''c1'', ds_workspace = [''ws''], ds_artifact_spool = None, ds_labels = [(''k'', ''v'')],
     ds_network = ''none'', ds_cpus = ''1.0'', ds_memory = ''512m'', ds_pids_limit = 128, ds_secret_directory = None\<rparr>"

lemma demo_ws: "spec_directory demo_disk [''ws''] = Inr [''ws'']"
proof -
  have "plain demo_disk [''ws'']" using demo_disk_facts(3) by (simp add: empty_dir_def)
  then show ?thesis by (simp add: spec_directory_def abs_path_str_def)
qed

lemma demo_spec_valid: "validate_spec demo_disk demo_spec = Inr ([''ws''], None, None)"
proof -
  have "safe_image ''runner:1''" "safe_network ''none''" "safe_name ''c1''" "safe_cpus ''1.0''" "\<not> cpus_zero ''1.0''" "safe_memory ''512m''"
    "safe_label (''k'', ''v'')" by code_simp+
  then show ?thesis by (simp add: validate_spec_def demo_spec_def demo_ws spec_directory_opt_def)
qed

lemma demo_docker_command: "\<exists>c. docker_command ''docker'' demo_disk (docker_spec demo_docker demo_retry_task None None) = Inr c"
proof -
  have "safe_image ''runner:1''" "safe_network ''none''" "safe_cpus ''1.0''" "\<not> cpus_zero ''1.0''" "safe_memory ''512m''"
    "safe_name (''smarttest-'' @ uuid_str 2)" "safe_label (''smarttest.tenant_id'', uuid_str 4)" "safe_label (''smarttest.project_id'', uuid_str 5)"
    "safe_label (''smarttest.run_id'', uuid_str 1)" "safe_label (''smarttest.attempt_id'', uuid_str 2)" by code_simp+
  then have "validate_spec demo_disk (docker_spec demo_docker demo_retry_task None None) = Inr ([''ws''], None, None)"
    by (simp add: validate_spec_def docker_spec_def demo_docker_def demo_retry_task_def demo_ws spec_directory_opt_def)
  then show ?thesis by (simp add: docker_command_def)
qed

lemma demo_delivered:
  "deliver (\<lambda>_. None) (docker_execute demo_docker demo_docker_env demo_retry_task) 0 = ([demo_event], Inr (demo_result O_SUCCEEDED))"
proof -
  obtain c where c: "docker_command ''docker'' demo_disk (docker_spec demo_docker demo_retry_task None None) = Inr c"
    using demo_docker_command by blast
  have t: "tk_secret_references demo_retry_task = []" "tk_deadline demo_retry_task = 9" by (simp_all add: demo_retry_task_def)
  have x: "dx_spool_root demo_docker = None" by (simp add: demo_docker_def)
  have l: "length ''e'' \<le> MAX_LINE" "length ''r'' \<le> MAX_LINE" by (simp_all add: MAX_LINE_def)
  show ?thesis using l
    by (simp add: docker_execute_def t x run_container_def demo_docker_env_def c client_run_def docker_conclude_def)
qed

section \<open>Properties\<close>





end
