(* ===== verification/Secret_Files_Facts.thy ===== *)
theory Secret_Files_Facts
  imports Secret_Files Docker_Facts
begin

text \<open>
  Staging secrets and leaving the context restores the file system, on every path.
\<close>

section \<open>What staging does to the file system\<close>

text \<open>A file system is a tree: below a path that does not exist there is nothing.\<close>

definition rooted :: "filesys \<Rightarrow> bool" where
  "rooted fs \<longleftrightarrow> (\<forall>p q. p \<noteq> [] \<longrightarrow> fs p = None \<longrightarrow> fs (p @ q) = None)"

lemma new_node_plain:
  "plain fs p \<Longrightarrow> new_node (p @ [x]) node fs =
     (if fs (p @ [x]) \<noteq> None then (Inl (OtherException ''FileExistsError''), fs) else (Inr (), fs(p @ [x] \<mapsto> node)))"
  by (simp add: new_node_def)

lemma relative_to_append: "is_relative_to q p \<longleftrightarrow> (\<exists>r. q = p @ r)"
  unfolding is_relative_to_def by (metis append_eq_conv_conj append_take_drop_id)

text \<open>Whatever was added below a new directory, removing the directory restores the file system.\<close>

lemma cleanup_restores:
  assumes "plain fs base" "t \<noteq> ''..''" "fs (base @ [t]) = None" "rooted fs" "confined (base @ [t]) (fs(base @ [t] \<mapsto> DirNode)) fs'"
  shows "secret_cleanup (base @ [t]) fs' = (Inr (), fs)"
proof -
  have "fs' (base @ [t]) = Some DirNode" by (rule confined_keeps [OF assms(5)]) simp
  moreover have "plain fs' base" by (rule confined_plain [OF assms(5) plain_create [OF assms(1,3)]])
  moreover have "remove_below (base @ [t]) fs' = fs"
  proof
    fix q show "remove_below (base @ [t]) fs' q = fs q"
    proof (cases "is_relative_to q (base @ [t])")
      case True
      then obtain r where "q = (base @ [t]) @ r" by (auto simp: relative_to_append)
      then have "fs q = None" using assms(3,4) unfolding rooted_def by (metis snoc_eq_iff_butlast)
      with True show ?thesis by (simp add: remove_below_def)
    next
      case False
      then have "q \<noteq> base @ [t]" "\<And>r. q \<noteq> (base @ [t]) @ r" by (auto simp: relative_to_append)
      then have "fs' q = fs q" using assms(5) unfolding confined_def by (metis fun_upd_other)
      with False show ?thesis by (simp add: remove_below_def)
    qed
  qed
  ultimately show ?thesis by (simp add: secret_cleanup_def)
qed

lemma create_child_spec:
  assumes "create_child sf env n tries fs = (x, fs')" "plain fs (sf_root sf)" "rooted fs" "\<And>n. se_token env n \<noteq> ''..''"
  shows "case x of Inl _ \<Rightarrow> fs' = fs
    | Inr child \<Rightarrow> \<exists>t. t \<noteq> ''..'' \<and> child = sf_root sf @ [t] \<and> fs child = None \<and> fs' = fs(child \<mapsto> DirNode)"
  using assms(1)
proof (induction tries arbitrary: n)
  case 0
  then show ?case by auto
next
  case (Suc tries)
  let ?child = "sf_root sf @ [se_token env n]"
  note new = new_node_plain [OF assms(2), of "se_token env n" DirNode]
  show ?case
  proof (cases "fs ?child = None")
    case False
    with Suc.prems new have "create_child sf env (n + 1) tries fs = (x, fs')" by (simp add: Let_def)
    then show ?thesis by (rule Suc.IH)
  next
    case True
    show ?thesis
    proof (cases "se_own env ?child")
      case (Inl e)
      have "secret_cleanup ?child (fs(?child \<mapsto> DirNode)) = (Inr (), fs)"
        by (rule cleanup_restores [OF assms(2,4) True assms(3) confined_refl])
      with Suc.prems new True Inl have "x = Inl e \<and> fs' = fs" by (simp add: Let_def bind_def)
      then show ?thesis by simp
    next
      case (Inr u)
      with Suc.prems new True have "x = Inr ?child \<and> fs' = fs(?child \<mapsto> DirNode)" by (simp add: Let_def)
      then show ?thesis using True assms(4) by auto
    qed
  qed
qed

definition safe_entry :: "staged_value \<Rightarrow> bool" where
  "safe_entry entry \<longleftrightarrow> fst entry \<noteq> ''..'' \<and> fst (snd entry) \<noteq> ''..''"

lemma confined_new:
  "fs (base @ q @ [x]) = None \<Longrightarrow> ''..'' \<notin> set (q @ [x]) \<Longrightarrow> confined base fs (fs(base @ q @ [x] \<mapsto> DirNode))"
  "fs (base @ q @ [x]) = None \<Longrightarrow> ''..'' \<notin> set (q @ [x]) \<Longrightarrow> confined base fs (fs(base @ q @ [x] \<mapsto> FileNode c))"
  by (auto intro!: confined_update)

lemma category_directory_spec:
  assumes "category_directory env child cats c fs = (x, fs')" "plain fs child" "\<forall>c\<in>set cats. fs (child @ [c]) = Some DirNode" "c \<noteq> ''..''"
  shows "confined child fs fs' \<and>
    (\<forall>cats'. x = Inr cats' \<longrightarrow> (\<forall>c\<in>set cats'. fs' (child @ [c]) = Some DirNode) \<and> plain fs' (child @ [c]))"
proof (cases "c \<in> set cats")
  case True
  then show ?thesis using assms by (auto simp: category_directory_def)
next
  case False
  show ?thesis
  proof (cases "fs (child @ [c]) = None")
    case True
    let ?fs1 = "fs(child @ [c] \<mapsto> DirNode)"
    have c: "confined child fs ?fs1" using confined_new(1) [of fs child "[]" c] True assms(4) by auto
    have "\<forall>c\<in>set (c # cats). ?fs1 (child @ [c]) = Some DirNode" "plain ?fs1 (child @ [c])"
      using confined_keeps [OF c] confined_plain [OF c] assms(2-4) by simp_all
    moreover have "(x, fs') = (case se_own env (child @ [c]) of Inl e \<Rightarrow> (Inl e, ?fs1) | Inr _ \<Rightarrow> (Inr (c # cats), ?fs1))"
      using assms(1) \<open>c \<notin> set cats\<close> True new_node_plain [OF assms(2), of c DirNode]
      by (auto simp: category_directory_def bind_def split: sum.split)
    ultimately show ?thesis using c by (auto split: sum.splits)
  next
    case present: False
    then have "(x, fs') = (Inl (OtherException ''FileExistsError''), fs)"
      using assms(1) False new_node_plain [OF assms(2), of c DirNode] by (simp add: category_directory_def bind_def)
    then show ?thesis by simp
  qed
qed

lemma write_value_spec:
  assumes "write_value env child cats (c, n, v) fs = (x, fs')" "plain fs child" "\<forall>c\<in>set cats. fs (child @ [c]) = Some DirNode"
    and "safe_entry (c, n, v)"
  shows "confined child fs fs' \<and> (\<forall>cats'. x = Inr cats' \<longrightarrow> (\<forall>c\<in>set cats'. fs' (child @ [c]) = Some DirNode) \<and>
     fs' (child @ [c, n]) = Some (FileNode v))"
proof -
  have dots: "c \<noteq> ''..''" "n \<noteq> ''..''" using assms(4) by (simp_all add: safe_entry_def)
  obtain y fs1 where y: "category_directory env child cats c fs = (y, fs1)" by force
  note d = category_directory_spec [OF y assms(2,3) dots(1)]
  show ?thesis
  proof (cases y)
    case (Inl e)
    with assms(1) y d show ?thesis by (auto simp: write_value_def Let_def bind_def)
  next
    case (Inr cats1)
    then have p: "plain fs1 (child @ [c])" "\<forall>c\<in>set cats1. fs1 (child @ [c]) = Some DirNode" using d by auto
    note new = new_node_plain [OF p(1), of n "FileNode v", simplified]
    show ?thesis
    proof (cases "fs1 (child @ [c, n]) = None")
      case True
      let ?fs2 = "fs1(child @ [c, n] \<mapsto> FileNode v)"
      have c2: "confined child fs1 ?fs2" using confined_new(2) [of fs1 child "[c]" n v] True dots by auto
      have "(x, fs') = (case se_own env (child @ [c, n]) of Inl e \<Rightarrow> (Inl e, ?fs2) | Inr _ \<Rightarrow> (Inr cats1, ?fs2))"
        using assms(1) y Inr True new by (auto simp: write_value_def Let_def bind_def split: sum.split)
      moreover have "\<forall>c\<in>set cats1. ?fs2 (child @ [c]) = Some DirNode" using p(2) by simp
      ultimately show ?thesis using confined_trans [OF _ c2] d by (auto split: sum.splits)
    next
      case False
      then have "(x, fs') = (Inl (OtherException ''FileExistsError''), fs1)"
        using assms(1) y Inr new by (simp add: write_value_def Let_def bind_def)
      then show ?thesis using d by simp
    qed
  qed
qed

lemma write_values_spec:
  "write_values env child cats entries fs = (x, fs') \<Longrightarrow> plain fs child \<Longrightarrow> \<forall>c\<in>set cats. fs (child @ [c]) = Some DirNode \<Longrightarrow>
     list_all safe_entry entries \<Longrightarrow> confined child fs fs' \<and>
       (x = Inr () \<longrightarrow> (\<forall>(c, n, v)\<in>set entries. fs' (child @ [c, n]) = Some (FileNode v)))"
proof (induction entries arbitrary: cats fs)
  case (Cons entry entries)
  obtain c n v where e: "entry = (c, n, v)" by (cases entry)
  obtain y fs1 where y: "write_value env child cats (c, n, v) fs = (y, fs1)" by force
  have s: "safe_entry (c, n, v)" "list_all safe_entry entries" using Cons.prems(4) by (simp_all add: e)
  note w = write_value_spec [OF y Cons.prems(2,3) s(1)]
  show ?case
  proof (cases y)
    case (Inl err)
    with Cons.prems(1) y w show ?thesis by (auto simp: e bind_def)
  next
    case (Inr cats1)
    have rest: "write_values env child cats1 entries fs1 = (x, fs')" using Cons.prems(1) y Inr by (simp add: e bind_def)
    have c: "\<forall>c\<in>set cats1. fs1 (child @ [c]) = Some DirNode" "fs1 (child @ [c, n]) = Some (FileNode v)" "confined child fs fs1"
      using w Inr by auto
    note ih = Cons.IH [OF rest confined_plain [OF c(3) Cons.prems(2)] c(1) s(2)]
    have "fs' (child @ [c, n]) = Some (FileNode v)" using confined_keeps [OF conjunct1 [OF ih] c(2)] .
    with ih confined_trans [OF c(3)] show ?thesis by (auto simp: e)
  qed
qed simp

lemma validate_secrets_spec:
  "validate_secrets maximum seen secrets = Inr entries \<Longrightarrow>
     entries = map (\<lambda>s. (category_value (rv_category s), rv_name s, utf8_encode (rv_value s))) secrets \<and> list_all safe_entry entries"
proof (induction secrets arbitrary: seen entries)
  case (Cons secret secrets)
  have c: "category_value k \<noteq> ''..''" for k by (cases k) auto
  have dot: "\<not> is_alpha (CHR ''.'')" "\<not> (ascii_letter (CHR ''.'') \<or> CHR ''.'' = CHR ''_'')" by code_simp+
  have n: "secret_name_ok k name \<Longrightarrow> name \<noteq> ''..''" for k name
    using dot by (cases k) (auto simp: secret_name_ok_def environment_name_def common_name_def safe_word_def)
  let ?id = "(category_value (rv_category secret), rv_name secret)"
  obtain rest where r: "secret_name_ok (rv_category secret) (rv_name secret)" "validate_secrets maximum (?id # seen) secrets = Inr rest"
      "entries = (category_value (rv_category secret), rv_name secret, utf8_encode (rv_value secret)) # rest"
    using Cons.prems by (auto simp: Let_def)
  from Cons.IH [OF r(2)] c n [OF r(1)] show ?case unfolding r(3) by (auto simp: safe_entry_def)
qed simp

section \<open>Demonstration\<close>

definition demo_stager :: SecretFileStager where
  "demo_stager = \<lparr>sf_root = [''ws''], sf_maximum_bytes = 100\<rparr>"

definition demo_stager_env :: StagerEnv where
  "demo_stager_env = \<lparr>se_verify = (\<lambda>_ _. Inr ()), se_token = (\<lambda>_. ''ab''), se_own = (\<lambda>_. Inr ())\<rparr>"

definition demo_secrets :: "ResolvedSecretValue list" where
  "demo_secrets = [\<lparr>rv_category = ENVIRONMENT_VARIABLE, rv_name = ''TOKEN'', rv_secret_ref = 1, rv_value = ''x''\<rparr>]"

lemma demo_rooted: "rooted demo_disk"
  by (auto simp: rooted_def demo_disk_def append_eq_Cons_conv)

lemma demo_staged: "\<exists>child fs'. stage_secrets demo_stager demo_stager_env demo_secrets demo_disk = (Inr child, fs')"
proof -
  let ?c = "''environment_variable''"
  have p: "plain demo_disk [''ws'']" using demo_disk_facts(3) by (simp add: empty_dir_def)
  define fs1 where "fs1 = demo_disk([''ws'', ''ab''] \<mapsto> DirNode)"
  define fs2 where "fs2 = fs1([''ws'', ''ab'', ?c] \<mapsto> DirNode)"
  have none: "demo_disk [''ws'', ''ab''] = None" "fs1 [''ws'', ''ab'', ?c] = None" "fs2 [''ws'', ''ab'', ?c, ''TOKEN''] = None"
    by (simp_all add: demo_disk_def fs1_def fs2_def)
  have p1: "plain fs1 [''ws'', ''ab'']" using plain_create [OF p none(1), of DirNode] plain_snoc [of fs1 "[''ws'']" "''ab''"] by (simp add: fs1_def)
  have p2: "plain fs2 [''ws'', ''ab'', ?c]"
    using plain_create [OF p1 none(2), of DirNode] plain_snoc [of fs2 "[''ws'', ''ab'']" ?c] by (simp add: fs2_def)
  have v: "validate_secrets 100 [] demo_secrets = Inr [(?c, ''TOKEN'', utf8_encode ''x'')]" by code_simp
  have m: "new_node [''ws'', ''ab''] DirNode demo_disk = (Inr (), fs1)" "new_node [''ws'', ''ab'', ?c] DirNode fs1 = (Inr (), fs2)"
    "fst (new_node [''ws'', ''ab'', ?c, ''TOKEN''] (FileNode (utf8_encode ''x'')) fs2) = Inr ()"
    using new_node_plain [OF p, of "''ab''" DirNode] new_node_plain [OF p1, of ?c DirNode]
      new_node_plain [OF p2, of "''TOKEN''" "FileNode (utf8_encode ''x'')"] none by (simp_all add: fs1_def fs2_def)
  have child: "create_child demo_stager demo_stager_env 0 128 demo_disk = (Inr [''ws'', ''ab''], fs1)"
    using m(1) create_child.simps(2) [of demo_stager demo_stager_env 0 127] by (simp add: demo_stager_def demo_stager_env_def Let_def)
  obtain fs3 where "new_node [''ws'', ''ab'', ?c, ''TOKEN''] (FileNode (utf8_encode ''x'')) fs2 = (Inr (), fs3)" using m(3) by (metis prod.collapse)
  with m(2) have "write_values demo_stager_env [''ws'', ''ab''] [] [(?c, ''TOKEN'', utf8_encode ''x'')] fs1 = (Inr (), fs3)"
    by (simp add: write_value_def category_directory_def Let_def bind_def demo_stager_env_def)
  moreover have "sf_maximum_bytes demo_stager = 100" "se_verify demo_stager_env fs p = Inr ()" for fs p
    by (simp_all add: demo_stager_def demo_stager_env_def)
  ultimately show ?thesis using child v unfolding stage_secrets_def catch_def bind_def by simp
qed

section \<open>Properties\<close>

text \<open>C12. Staged secrets leave no trace. Staging raises nothing but \<open>SecretStagingError\<close>, and then the file system is as it was before; when it
  succeeds, every secret is in its own file of a new directory below the root, nothing else has changed, and leaving the context
  removes all of it again, however changing modes and owners fails.\<close>

theorem staged_secrets_leave_no_trace:
  assumes "stage_secrets sf env secrets fs = (x, fs')" "plain fs (sf_root sf)" "rooted fs" "\<And>n. se_token env n \<noteq> ''..''"
  shows "case x of
      Inl e \<Rightarrow> e = SecretStagingError \<and> fs' = fs
    | Inr child \<Rightarrow> fs child = None \<and> (\<exists>t. child = sf_root sf @ [t]) \<and>
        (\<forall>s\<in>set secrets. fs' (child @ [category_value (rv_category s), rv_name s]) = Some (FileNode (utf8_encode (rv_value s)))) \<and>
        (\<forall>p. fs' p \<noteq> fs p \<longrightarrow> is_relative_to p child) \<and> secret_cleanup child fs' = (Inr (), fs)"
proof (cases "validate_secrets (sf_maximum_bytes sf) [] secrets")
  case (Inl e)
  with assms(1) show ?thesis by (auto simp: stage_secrets_def catch_def bind_def)
next
  case (Inr entries)
  note entries = validate_secrets_spec [OF Inr]
  show ?thesis
  proof (cases "se_verify env fs (sf_root sf)")
    case (Inl e)
    with assms(1) Inr show ?thesis by (auto simp: stage_secrets_def catch_def bind_def)
  next
    case v: (Inr u)
    obtain y fs1 where y: "create_child sf env 0 128 fs = (y, fs1)" by force
    note made = create_child_spec [OF y assms(2-4)]
    show ?thesis
    proof (cases y)
      case (Inl e)
      with assms(1) Inr v y made have "x = Inl SecretStagingError \<and> fs' = fs" by (simp add: stage_secrets_def catch_def bind_def)
      then show ?thesis by simp
    next
      case yr: (Inr child)
      then obtain t where t: "t \<noteq> ''..''" "child = sf_root sf @ [t]" "fs child = None" "fs1 = fs(child \<mapsto> DirNode)" using made by auto
      obtain z fs2 where z: "write_values env child [] entries fs1 = (z, fs2)" by force
      have "plain fs1 child" using plain_create [OF assms(2) t(3), of DirNode] t by simp
      then have w: "confined child fs1 fs2" "z = Inr () \<Longrightarrow> (\<forall>(c, n, v)\<in>set entries. fs2 (child @ [c, n]) = Some (FileNode v))"
        using write_values_spec [OF z] entries by auto
      have clean: "secret_cleanup child fs2 = (Inr (), fs)"
        using cleanup_restores [OF assms(2) t(1) _ assms(3)] t(2-4) w(1) by simp
      have xs: "(x, fs') = (case z of Inl _ \<Rightarrow> (Inl SecretStagingError, fs) | Inr _ \<Rightarrow> (Inr child, fs2))"
        using assms(1) Inr v y yr z clean by (cases z) (simp_all add: stage_secrets_def catch_def bind_def)
      have "is_relative_to p child" if "fs2 p \<noteq> fs p" for p
        using that w(1) t(4) unfolding confined_def relative_to_append by (metis append_Nil2 fun_upd_other)
      with xs w(2) clean entries t(2,3) show ?thesis by (auto split: sum.splits)
    qed
  qed
qed

text \<open>A staging area \<open>/ws\<close> and one secret.\<close>

theorem staged_secrets_leave_no_trace_witness:
  "\<exists>child fs'. stage_secrets demo_stager demo_stager_env demo_secrets demo_disk = (Inr child, fs') \<and>
     secret_cleanup child fs' = (Inr (), demo_disk)"
proof -
  obtain child fs' where s: "stage_secrets demo_stager demo_stager_env demo_secrets demo_disk = (Inr child, fs')"
    using demo_staged by blast
  have "plain demo_disk (sf_root demo_stager)" using demo_disk_facts(3) by (simp add: demo_stager_def empty_dir_def)
  from staged_secrets_leave_no_trace [OF s this demo_rooted] s show ?thesis by (simp add: demo_stager_env_def)
qed

end
