(* ===== verification/Adapter_Helpers.thy ===== *)
theory Adapter_Helpers
  imports Secret_Files_Facts
begin

text \<open>
  The helpers the adapters share, of \<^verbatim>\<open>runner/adapters/base.py\<close>: entrypoints, timeouts and the truncation of output.
\<close>

section \<open>Helpers of the adapters\<close>

definition resolve_entrypoint :: "path \<Rightarrow> string \<Rightarrow> (filesys, path) pyop" where
  "resolve_entrypoint workspace entry =
     bind (resolve_lenient workspace) (\<lambda>base.
     bind (resolve_lenient (if is_absolute entry then posix_parts entry else base @ posix_parts entry)) (\<lambda>resolved.
     bind (lift (guard (\<not> is_relative_to resolved base) ValueError)) (\<lambda>_.
     bind (reads (\<lambda>fs. is_file fs resolved)) (\<lambda>present.
     bind (lift (guard (\<not> present) ValueError)) (\<lambda>_.
     ret resolved)))))"

definition deadline_remaining :: "TaskEnvelope \<Rightarrow> time \<Rightarrow> time res" where
  "deadline_remaining task now =
     (let remaining = tk_deadline task - now in
      rbind (guard (remaining \<le> 0) (OtherException ''TimeoutError'')) (\<lambda>_. Inr remaining))"

text \<open>\<open>requested\<close> is what \<open>float(task.parameters.get("timeout", default))\<close> returns or raises, in the unit of the clock.\<close>

definition execution_timeout :: "TaskEnvelope \<Rightarrow> time \<Rightarrow> time res \<Rightarrow> time res" where
  "execution_timeout task now requested =
     rbind (deadline_remaining task now) (\<lambda>remaining.
     rbind requested (\<lambda>wanted.
     rbind (guard (wanted \<le> 0) ValueError) (\<lambda>_.
     Inr (min wanted remaining))))"

text \<open>\<open>None\<close> is the empty text; bytes are decoded before.\<close>

definition truncate_text :: "string option \<Rightarrow> nat \<Rightarrow> string" where
  "truncate_text v limit = (case v of
     None \<Rightarrow> []
   | Some t \<Rightarrow>
       if length t \<le> limit then t
       else (let marker = ''...[truncated]'' in
         if limit \<le> length marker then take limit marker else take (limit - length marker) t @ marker))"

section \<open>What they promise\<close>

text \<open>A truncated text is within its limit, a text within the limit is kept, and truncating twice changes nothing.\<close>

lemma truncate_text_length: "length (truncate_text v limit) \<le> limit"
  by (auto simp: truncate_text_def Let_def split: option.split)

lemma truncate_text_again: "truncate_text (Some (truncate_text v limit)) limit = truncate_text v limit"
  using truncate_text_length [of v limit] by (simp add: truncate_text_def [of "Some _"])

text \<open>A timeout is positive, within what was asked for, and never beyond the deadline.\<close>

lemma execution_timeout_bounds:
  assumes "execution_timeout task now requested = Inr t"
  shows "0 < t" "t \<le> tk_deadline task - now" "requested = Inr w \<Longrightarrow> t \<le> w"
  using assms by (auto simp: execution_timeout_def deadline_remaining_def Let_def)

text \<open>An entrypoint that resolves is a file of the workspace, also when links or absolute names are used to reach it.\<close>

lemma resolve_entrypoint_inside:
  assumes "resolve_entrypoint workspace entry fs = (Inr resolved, fs')"
  shows "fs' = fs \<and> is_file fs resolved \<and> (\<exists>base below. resolve_lenient workspace fs = (Inr base, fs) \<and> resolved = base @ below)"
  using assms by (auto simp: resolve_entrypoint_def bind_Inr_iff resolve_lenient_def relative_to_append split: option.splits)

end
