(* ===== verification/Spec2Isabelle.thy ===== *)
theory Spec2Isabelle
  imports Runner_Facts Retry_Decision Quality Automation Environment_Facts Plan_Facts Workflow_Facts Broker_Facts Auth_Facts Parameters_Facts Connectors_Facts Local_Runner Load_Executor_Facts Workflow_Repo Adapter_Helpers
begin

text \<open>
  Verification development of the SmartTest platform, a service that stores test assets of projects, expands test plans into runs,
  dispatches the runs, executes them on runners and records what happens. All paths below are relative to \<^verbatim>\<open>src/\<close>.

  \<^bold>\<open>The program and its parts.\<close>
  A client creates runs directly (\<^verbatim>\<open>services/api/routes.py\<close>) or by executing a test plan (\<^verbatim>\<open>services/api/test_plan_repository.py\<close>), which
  expands its data rows into runs of a batch. The execution coordinator claims waiting runs of a batch up to its parallelism and hands
  them to a dispatcher. A dispatched run is executed by a worker task (\<^verbatim>\<open>workers/tasks.py\<close>) or by the local runner
  (\<^verbatim>\<open>services/local_runner_service.py\<close>): both build a task envelope and give it to the runner manager
  (\<^verbatim>\<open>services/runner_manager.py\<close>), which claims an attempt with a lease, runs an executor, stores the events the executor delivers,
  collects artifacts, and settles attempt and run, by a retry if the policy asks for one. The executor runs the task in a container
  (\<^verbatim>\<open>services/docker_executor.py\<close>) or on the host (\<^verbatim>\<open>services/host_executor.py\<close>), where the runner agent (\<^verbatim>\<open>runner/agent.py\<close>) drives
  an adapter. A source store materializes the tests in a workspace, a secret broker gives a running attempt the secrets of its
  environment, and a stager puts them into files. When a run ends, the manager's callback lets the coordinator continue the batch;
  a reaper closes runs whose lease expired. Beside this stand the catalogues (projects, requirements and cases, scripts, parameters,
  environments, connectors), authentication, data factory workflows and load tests, each with a repository of its own.

  \<^bold>\<open>How code becomes definitions.\<close>
  An operation on a state is a function of type \<open>('s, 'a) pyop\<close>: it returns \<open>Inl\<close> an exception or \<open>Inr\<close> a value, and the state it leaves
  in both cases. A Python dictionary is an insertion-ordered association list, a class a record, an enumeration a datatype; a raise, an
  early return and a caught exception are branches. Python integers are \<open>int\<close>, identifiers and clocks are arguments, so that theorems hold for
  every source of them. The in-memory repositories take a lock in each method; one method is one step, and interleavings are sequences of
  steps (\<open>repo_steps\<close>, \<open>plan_step\<close>, \<open>local_step\<close>, and their like). An executor is a tree of deliveries (\<open>exec_tree\<close>) that sees whether its
  sink raised, so that theorems about the manager quantify over every executor. What other packages do (AEAD and digests, JSON, ZIP, URL parsing,
  DNS, sockets, the database, child processes, Celery) is an argument, with its laws as hypotheses; each such theorem has a
  witness with concrete functions.

  \<^bold>\<open>Theories.\<close>
  \<^item> \<open>Prelude\<close>: exceptions, operations, dictionaries, sorting, strings. \<open>Versioned\<close> and \<open>Catalog\<close>: the locales \<open>versioned_repository\<close>,
    \<open>optimistic_repository\<close> (revisions and optimistic locking) and \<open>named_repository\<close> (unique names), interpreted by every catalogue.
  \<^item> \<open>Protocol\<close> (\<^verbatim>\<open>packages/protocol/models.py\<close>): frozen values, envelopes, policies and their validators.
  \<^item> \<open>Run_Domain\<close>, \<open>Run_Repo\<close>, \<open>Run_Repo_Facts\<close> (\<^verbatim>\<open>services/api/domain.py\<close>, \<^verbatim>\<open>services/api/repository.py\<close>): state machines as tables, with the
    locales \<open>state_machine\<close> and \<open>ranked_machine\<close>; the run repository with runs, attempts, events and artifacts; its invariant over all
    sequences of operations, that runs follow the table, bounded lives of attempts, the reaper, idempotent creation.
  \<^item> \<open>Retry_Decision\<close> (\<^verbatim>\<open>services/retry_policy.py\<close>), \<open>Runner_Manager\<close>, \<open>Runner_Facts\<close> (\<^verbatim>\<open>services/runner_manager.py\<close>): \<open>execute\<close> against any
    executor and any interference; it refines the repository's steps and settles every task.
  \<^item> \<open>Runner_Agent\<close>, \<open>Runner_Agent_Facts\<close> (\<^verbatim>\<open>runner/agent.py\<close>, \<^verbatim>\<open>services/host_executor.py\<close>): the agent with its heartbeat thread; \<open>reports\<close> is a
    weakest precondition over executor trees by which its events are numbered without gaps. \<open>Artifacts\<close> (\<^verbatim>\<open>services/artifacts.py\<close>): stores
    and collector, and manager, collector and host agent together. \<open>Adapter_Helpers\<close>: entrypoints, timeouts and truncation of
    \<^verbatim>\<open>runner/adapters/base.py\<close>.
  \<^item> \<open>File_System\<close>: files, directories and links with path resolution; \<open>Source_Archive\<close>, \<open>Source_Store\<close>, \<open>Source_Store_Facts\<close>
    (\<^verbatim>\<open>services/source_store.py\<close>): references, archives, host projects; \<open>confined\<close> is the contract that a step only adds nodes below a
    directory. \<open>Docker_Executor\<close>, \<open>Docker_Facts\<close> (\<^verbatim>\<open>services/docker_executor.py\<close>): command line and transport of a container.
    \<open>Secret_Files\<close>, \<open>Secret_Files_Facts\<close> (\<^verbatim>\<open>services/secret_files.py\<close>): staging restores the file system.
  \<^item> \<open>Local_Runner\<close> (\<^verbatim>\<open>services/local_runner_service.py\<close>): poller, execution of one run with its failure path, coordinator as callback.
  \<^item> \<open>Test_Plan\<close>, \<open>Plan_Facts\<close>, \<open>Dispatch\<close> (\<^verbatim>\<open>services/api/test_plan_*.py\<close>, \<^verbatim>\<open>dispatcher.py\<close>, \<^verbatim>\<open>execution_coordinator.py\<close>, \<^verbatim>\<open>workers/tasks.py\<close>):
    plans and runs as one system; the locale \<open>run_dispatcher\<close> is what the coordinator needs, given by the database and the Celery dispatcher.
  \<^item> \<open>Quality\<close>, \<open>Automation\<close>, \<open>Projects\<close>, \<open>Parameters\<close>, \<open>Parameters_Facts\<close>, \<open>Connectors\<close>, \<open>Connectors_Facts\<close>: the catalogues of the same names
    under \<^verbatim>\<open>services/api/\<close>. \<open>Environment\<close>, \<open>Environment_Repo\<close>, \<open>Environment_Facts\<close> (\<^verbatim>\<open>environment_*.py\<close>): revisions with secrets
    encrypted under additional data that binds them to their place.
  \<^item> \<open>Secret_Broker\<close>, \<open>Broker_Facts\<close> (\<^verbatim>\<open>services/secret_broker.py\<close>, \<^verbatim>\<open>secret_grant_sql_repository.py\<close>): capabilities over the locale
    \<open>grant_store\<close>, which the store in memory and the SQL store both provide. \<open>Auth\<close>, \<open>Auth_Facts\<close> (\<^verbatim>\<open>auth_*.py\<close>): passwords, sessions, and the
    login throttle under concurrent requests.
  \<^item> \<open>Workflow\<close>, \<open>Workflow_Executor\<close>, \<open>Workflow_Facts\<close>, \<open>Json_Schema\<close>, \<open>Workflow_Repo\<close> (\<^verbatim>\<open>data_factory_*.py\<close>): graph validation, templates,
    nodes, the wave scheduler, stored definitions and their execution.
  \<^item> \<open>Load_Tests\<close>, \<open>Load_Test_Facts\<close>, \<open>Load_Service\<close>, \<open>Load_Service_Facts\<close>, \<open>Load_Executor\<close>, \<open>Load_Executor_Facts\<close> (\<^verbatim>\<open>load_test_*.py\<close>): definitions and
    runs, the service's executions as interleaved steps, and the workers of request mode.

  \<^bold>\<open>What the theorems show.\<close>
  C1 to C5 are about the run repository; C6 to C9 about executing one task, with any executor and with the host agent; C10 to C15 about
  the boundaries of an execution: what a container can bring about, which options it gets, where secrets, artifacts and sources may
  be written and read; C16 to C19 about the local runner and retries; C20 to C23 about plans and batches; C24 to C26 and C37 about
  the catalogues; C27 to C31 about workflows; C32 to C36 about capabilities and logins; C38 to C40 about load tests. C18, C21 and C29 are
  concrete executions in which the code does not do what it means to; so is \<open>dot_member_never_unpacks\<close> of \<open>Source_Store_Facts\<close>.

  \<^bold>\<open>Bounds and fuel.\<close>
  Loops over data are structural or have a measure. The coordinator's \<open>while True\<close> has fuel one above the number of runs of the batch:
  every round that goes on takes one run out of \<open>CREATED\<close>, and C20 shows that the loop ends before. The wave scheduler settles a node in
  every round (C28). \<open>walk\<close> follows at most 40 links, the limit of the operating system; \<open>create_child\<close> tries 128 names, as the code does.
  The numbers the code uses as limits are constants of the same names. Liveness theorems state that a result is returned, not only what
  holds if one is.

  \<^bold>\<open>Not modelled.\<close>
  The SQLAlchemy repositories other than the grant store (their transactions and row locks belong to the database); HTTP routes and
  schemas, except those named above (FastAPI and pydantic parse and render); application assembly, configuration, the supervisor and migrations; the
  adapters for pytest, Playwright and HTTP, the container entrypoint and the connector client, which are exchanges with processes and remote
  services; the git child process of the source store; scenario mode, templates and authentication of load tests; case generation by a language
  model; version and service control. Strings are sequences of code points below 256; disks do not fail on their own; floating point numbers
  of load test metrics are abstract operations with the laws the proofs name.
\<close>

end
